(* ===== verification/Prelude.thy ===== *)
theory Prelude
  imports Main "HOL-Library.AList" "HOL-Library.List_Lexorder" "HOL-Library.Char_ord"
    "HOL-Library.Product_Lexorder"
begin

text \<open>
  Shared vocabulary of the development.

  \<^item> Python exceptions are the left values of a sum (\<open>'e + 'a\<close>): \<open>rbind\<close> sequences two
    fallible computations, \<open>for_each\<close> is a loop whose body may raise, which stops at the
    first item that raises.
  \<^item> A Python \<open>dict\<close> is an association list in insertion order (\<^const>\<open>AList.update\<close> keeps the
    position of an existing key and appends a new one, as \<open>d[k] = v\<close> does), read through
    \<^const>\<open>map_of\<close>; a Python \<open>set\<close> that the code builds and only tests for membership is a list
    read through \<^const>\<open>set\<close>.
  \<^item> A \<open>StrEnum\<close> is a datatype with its member list and its wire spelling; the interface
    \<open>str_enum\<close> states what decoding by value promises.
  \<^item> \<open>under_limit\<close> compares an amount with an optional limit, where a missing limit never refuses.
\<close>

named_theorems result_simps \<open>characterisations of fallible computations\<close>

section \<open>Fallible computations\<close>

fun rbind :: "'e + 'a \<Rightarrow> ('a \<Rightarrow> 'e + 'b) \<Rightarrow> 'e + 'b" where
  "rbind (Inl e) f = Inl e"
| "rbind (Inr x) f = f x"

fun for_each :: "('a \<Rightarrow> 'e + unit) \<Rightarrow> 'a list \<Rightarrow> 'e + unit" where
  "for_each f [] = Inr ()"
| "for_each f (x # xs) = rbind (f x) (\<lambda>_. for_each f xs)"

fun map_result :: "('a \<Rightarrow> 'e + 'b) \<Rightarrow> 'a list \<Rightarrow> 'e + 'b list" where
  "map_result f [] = Inr []"
| "map_result f (x # xs) = rbind (f x) (\<lambda>y. rbind (map_result f xs) (\<lambda>ys. Inr (y # ys)))"

lemma rbind_Inr_iff [result_simps]: "rbind r f = Inr y \<longleftrightarrow> (\<exists>x. r = Inr x \<and> f x = Inr y)"
  by (cases r) auto

lemma rbind_Inl_iff [result_simps]:
  "rbind r f = Inl e \<longleftrightarrow> r = Inl e \<or> (\<exists>x. r = Inr x \<and> f x = Inl e)"
  by (cases r) auto

lemma guard_Inr_iff: "(if c then Inl e else r) = Inr y \<longleftrightarrow> \<not> c \<and> r = Inr y"
  by simp

lemma for_each_ok [result_simps]: "for_each f xs = Inr u \<longleftrightarrow> (\<forall>x\<in>set xs. f x = Inr ())"
  by (induction xs) (auto simp: rbind_Inr_iff)

lemma for_each_error:
  "for_each f xs = Inl e \<longleftrightarrow>
     (\<exists>ys x zs. xs = ys @ x # zs \<and> f x = Inl e \<and> (\<forall>y\<in>set ys. f y = Inr ()))"
proof (induction xs)
  case Nil
  then show ?case by simp
next
  case (Cons a xs)
  show ?case
  proof (cases "f a")
    case (Inl e')
    have "(\<exists>ys x zs. a # xs = ys @ x # zs \<and> f x = Inl e \<and> (\<forall>y\<in>set ys. f y = Inr ())) \<longleftrightarrow> e' = e"
    proof
      assume "\<exists>ys x zs. a # xs = ys @ x # zs \<and> f x = Inl e \<and> (\<forall>y\<in>set ys. f y = Inr ())"
      then obtain ys x zs where split: "a # xs = ys @ x # zs" and x: "f x = Inl e"
        and ok: "\<forall>y\<in>set ys. f y = Inr ()" by blast
      from split ok Inl have "ys = []" by (cases ys) auto
      with split x Inl show "e' = e" by simp
    next
      assume "e' = e"
      with Inl show "\<exists>ys x zs. a # xs = ys @ x # zs \<and> f x = Inl e \<and> (\<forall>y\<in>set ys. f y = Inr ())"
        by (intro exI[of _ "[]"]) auto
    qed
    with Inl show ?thesis by simp
  next
    case (Inr u)
    have "(\<exists>ys x zs. a # xs = ys @ x # zs \<and> f x = Inl e \<and> (\<forall>y\<in>set ys. f y = Inr ())) \<longleftrightarrow>
        (\<exists>ys x zs. xs = ys @ x # zs \<and> f x = Inl e \<and> (\<forall>y\<in>set ys. f y = Inr ()))"
      (is "?L \<longleftrightarrow> ?R")
    proof
      assume ?L
      then obtain ys x zs where split: "a # xs = ys @ x # zs" and x: "f x = Inl e"
        and ok: "\<forall>y\<in>set ys. f y = Inr ()" by blast
      from split x Inr obtain ys' where "ys = a # ys'" by (cases ys) auto
      with split x ok show ?R by auto
    next
      assume ?R
      then obtain ys x zs where "xs = ys @ x # zs" and "f x = Inl e"
        and "\<forall>y\<in>set ys. f y = Inr ()" by blast
      with Inr show ?L by (intro exI[of _ "a # ys"]) auto
    qed
    with Cons.IH Inr show ?thesis by simp
  qed
qed

lemma map_result_ok [result_simps]:
  "map_result f xs = Inr ys \<longleftrightarrow> list_all2 (\<lambda>x y. f x = Inr y) xs ys"
  by (induction xs arbitrary: ys) (auto simp: rbind_Inr_iff list_all2_Cons1)

lemma map_result_map: "(\<And>x. x \<in> set xs \<Longrightarrow> f x = Inr (g x)) \<Longrightarrow> map_result f xs = Inr (map g xs)"
  by (induction xs) auto

section \<open>Optional limits\<close>

text \<open>\<open>None\<close> means ``not limited''; every admission test of the sources has this shape.\<close>

fun under_limit :: "int \<Rightarrow> int option \<Rightarrow> bool" where
  "under_limit n None = True"
| "under_limit n (Some m) = (n \<le> m)"

lemma under_limit_mono: "under_limit n l \<Longrightarrow> m \<le> n \<Longrightarrow> under_limit m l"
  by (cases l) auto

lemma not_under_limit_iff: "\<not> under_limit n l \<longleftrightarrow> (\<exists>m. l = Some m \<and> m < n)"
  by (cases l) auto

section \<open>Dictionaries\<close>

abbreviation dict_set :: "'k \<Rightarrow> 'v \<Rightarrow> ('k \<times> 'v) list \<Rightarrow> ('k \<times> 'v) list" where
  "dict_set \<equiv> AList.update"

definition dict_get :: "('k \<times> 'v) list \<Rightarrow> 'k \<Rightarrow> 'v \<Rightarrow> 'v" where
  "dict_get d k dflt = (case map_of d k of None \<Rightarrow> dflt | Some v \<Rightarrow> v)"

abbreviation dict_keys :: "('k \<times> 'v) list \<Rightarrow> 'k list" where
  "dict_keys d \<equiv> map fst d"

text \<open>\<open>d.setdefault(k, []).append(v)\<close>.\<close>

definition dict_append :: "'k \<Rightarrow> 'v \<Rightarrow> ('k \<times> 'v list) list \<Rightarrow> ('k \<times> 'v list) list" where
  "dict_append k v d = dict_set k (dict_get d k [] @ [v]) d"

lemma map_of_dict_set [simp]: "map_of (dict_set k v d) = (map_of d)(k \<mapsto> v)"
  by (simp add: update_conv')

lemma dict_get_set [simp]:
  "dict_get (dict_set k v d) k' x = (if k' = k then v else dict_get d k' x)"
  by (simp add: dict_get_def)

lemma dict_get_append:
  "dict_get (dict_append k v d) k' [] = (if k' = k then dict_get d k [] @ [v] else dict_get d k' [])"
  by (simp add: dict_append_def)

lemma dict_get_Nil [simp]: "dict_get [] k x = x"
  by (simp add: dict_get_def)

lemma set_dict_keys_set: "set (dict_keys (dict_set k v d)) = insert k (set (dict_keys d))"
  by (simp add: dom_update)

lemma distinct_dict_set: "distinct (dict_keys d) \<Longrightarrow> distinct (dict_keys (dict_set k v d))"
  by (rule distinct_update)

lemma dict_set_fresh: "k \<notin> set (dict_keys d) \<Longrightarrow> dict_set k v d = d @ [(k, v)]"
  by (induction d) auto

text \<open>A dictionary built by a loop, \<open>for x in xs: d[f(x)] = g(x)\<close>.\<close>

lemma dict_loop_fresh:
  assumes "distinct (map f xs)" and "f ` set xs \<inter> fst ` set d = {}"
  shows "fold (\<lambda>x. dict_set (f x) (g x)) xs d = d @ map (\<lambda>x. (f x, g x)) xs"
  using assms
proof (induction xs arbitrary: d)
  case (Cons x xs)
  then have "dict_set (f x) (g x) d = d @ [(f x, g x)]" by (intro dict_set_fresh) auto
  with Cons show ?case by auto
qed simp

lemma dict_loop_keys:
  "distinct (dict_keys d) \<Longrightarrow> distinct (dict_keys (fold (\<lambda>x. dict_set (f x) (g x)) xs d))"
  by (induction xs arbitrary: d) (simp_all add: distinct_update)

lemma dict_loop_dom: "fst ` set (fold (\<lambda>x. dict_set (f x) (g x)) xs d) = fst ` set d \<union> f ` set xs"
  by (induction xs arbitrary: d) (auto simp flip: dom_map_of_conv_image_fst)

lemma sum_dict_set:
  fixes g :: "'k \<times> 'v \<Rightarrow> int"
  assumes "distinct (dict_keys xs)"
  shows "sum_list (map g (dict_set k v xs)) =
    sum_list (map g xs) + g (k, v) - (case map_of xs k of None \<Rightarrow> 0 | Some old \<Rightarrow> g (k, old))"
  using assms
proof (induction xs)
  case (Cons x xs)
  obtain k' v' where x: "x = (k', v')" by (cases x)
  show ?case
  proof (cases "k' = k")
    case True
    with Cons.prems x have "map_of xs k = None" by (simp add: map_of_eq_None_iff)
    with True x show ?thesis by simp
  next
    case False
    with Cons x show ?thesis by (simp split: option.splits)
  qed
qed simp

section \<open>String enumerations\<close>

text \<open>
  \<open>enum_of\<close> models \<open>kind(value)\<close> on a \<open>StrEnum\<close>: the member whose wire spelling is \<open>value\<close>, and
  nothing for a value no member spells (the \<open>ValueError\<close> both \<open>models._enum\<close> and
  \<open>semantic_base.enum_of\<close> turn into a \<open>ContractError\<close>).
\<close>

definition enum_of :: "'a list \<Rightarrow> ('a \<Rightarrow> string) \<Rightarrow> string \<Rightarrow> 'a option" where
  "enum_of members spell v = find (\<lambda>m. spell m = v) members"

locale str_enum =
  fixes members :: "'a list" and spell :: "'a \<Rightarrow> string"
  assumes members_complete: "x \<in> set members"
    and spell_inj: "spell x = spell y \<Longrightarrow> x = y"
begin

lemma decode_spell: "enum_of members spell (spell x) = Some x"
proof (cases "enum_of members spell (spell x)")
  case None
  with members_complete[of x] show ?thesis by (auto simp: enum_of_def find_None_iff)
next
  case (Some y)
  then have "spell y = spell x" by (auto simp: enum_of_def find_Some_iff)
  with Some show ?thesis by (auto dest: spell_inj)
qed

lemma decode_iff: "enum_of members spell v = Some x \<longleftrightarrow> v = spell x"
  using decode_spell[of x] by (auto simp: enum_of_def find_Some_iff)

lemma decode_refuses: "enum_of members spell v = None \<longleftrightarrow> v \<notin> range spell"
  using members_complete by (auto simp: enum_of_def find_None_iff image_iff)

end

section \<open>Lists\<close>

lemma filter_sort_key_first:
  "sorted (map f (filter P (sort_key f xs)))"
  by (simp add: sorted_filter)

lemma length_filter_le_filter:
  "(\<And>x. x \<in> set xs \<Longrightarrow> P x \<Longrightarrow> Q x) \<Longrightarrow> length (filter P xs) \<le> length (filter Q xs)"
  by (induction xs) auto

lemma filter_eq_self_iff: "filter P xs = xs \<longleftrightarrow> (\<forall>x\<in>set xs. P x)"
  by (induction xs) (auto simp: Suc_le_eq dest: filter_eq_Cons_iff[THEN iffD1])

section \<open>Exploration\<close>

text \<open>A worklist loop over a finite universe: \<open>pending\<close> is the stack (its head is what \<open>pop\<close> takes next), \<open>seen\<close> the set
  built so far; what is seen already or lies outside the universe is skipped.\<close>

function explore :: "'a list \<Rightarrow> ('a \<Rightarrow> 'a list) \<Rightarrow> 'a list \<Rightarrow> 'a list \<Rightarrow> 'a list" where
  "explore U succ [] seen = seen"
| "explore U succ (x # pending) seen =
     (if x \<in> set seen \<or> x \<notin> set U then explore U succ pending seen
      else explore U succ (rev (succ x) @ pending) (x # seen))"
  by pat_completeness auto

termination
proof (relation "measures [\<lambda>(U, succ, pending, seen). card (set U - set seen), \<lambda>(U, succ, pending, seen). length pending]")
  fix U succ x pending seen
  assume "\<not> (x \<in> set seen \<or> x \<notin> set U)"
  then have "card (set U - set (x # seen)) < card (set U - set seen)" by (intro psubset_card_mono) auto
  then show "((U, succ, rev (succ x) @ pending, x # seen), (U, succ, x # pending, seen))
      \<in> measures [\<lambda>(U, succ, pending, seen). card (set U - set seen), \<lambda>(U, succ, pending, seen). length pending]" by simp
qed auto

definition explored_step :: "'a set \<Rightarrow> ('a \<Rightarrow> 'a list) \<Rightarrow> ('a \<times> 'a) set" where
  "explored_step U succ = {(x, y). y \<in> set (succ x) \<and> y \<in> U}"

lemma explore_contains: "set seen \<union> (set pending \<inter> set U) \<subseteq> set (explore U succ pending seen)"
  by (induction U succ pending seen rule: explore.induct) (auto split: if_splits)

lemma explore_closed:
  assumes "\<forall>x\<in>set seen. \<forall>y\<in>set (succ x) \<inter> set U. y \<in> set seen \<union> set pending"
  shows "\<forall>x\<in>set (explore U succ pending seen). \<forall>y\<in>set (succ x) \<inter> set U. y \<in> set (explore U succ pending seen)"
  using assms
proof (induction U succ pending seen rule: explore.induct)
  case (2 U succ x pending seen)
  show ?case
  proof (cases "x \<in> set seen \<or> x \<notin> set U")
    case True
    have "\<forall>x\<in>set seen. \<forall>y\<in>set (succ x) \<inter> set U. y \<in> set seen \<union> set pending" using 2(3) True by auto
    from 2(1)[OF True this] True show ?thesis by simp
  next
    case False
    have "\<forall>z\<in>set (x # seen). \<forall>y\<in>set (succ z) \<inter> set U. y \<in> set (x # seen) \<union> set (rev (succ x) @ pending)" using 2(3) by auto
    from 2(2)[OF False this] False show ?thesis by simp
  qed
qed auto

lemma explore_sound: "set (explore U succ pending seen) \<subseteq> set seen \<union> (explored_step (set U) succ)\<^sup>* `` (set pending \<inter> set U)"
proof (induction U succ pending seen rule: explore.induct)
  case (2 U succ x pending seen)
  show ?case
  proof (cases "x \<in> set seen \<or> x \<notin> set U")
    case False
    let ?A = "(explored_step (set U) succ)\<^sup>* `` (set (rev (succ x) @ pending) \<inter> set U)"
    let ?B = "(explored_step (set U) succ)\<^sup>* `` (set (x # pending) \<inter> set U)"
    have "explore U succ (x # pending) seen = explore U succ (rev (succ x) @ pending) (x # seen)" using False by simp
    moreover have "?A \<subseteq> ?B" using False by (auto simp: explored_step_def intro: converse_rtrancl_into_rtrancl)
    moreover have "x \<in> ?B" using False by auto
    moreover have "set (explore U succ (rev (succ x) @ pending) (x # seen)) \<subseteq> insert x (set seen) \<union> ?A" using 2(2)[OF False] by simp
    ultimately show ?thesis by (simp only:) blast
  qed (use 2(1) in auto)
qed simp

text \<open>From an empty set of seen items the loop finds exactly what can be reached.\<close>

lemma explore_exact:
  "set (explore U succ pending []) = (explored_step (set U) succ)\<^sup>* `` (set pending \<inter> set U)"
proof
  show "(explored_step (set U) succ)\<^sup>* `` (set pending \<inter> set U) \<subseteq> set (explore U succ pending [])"
  proof (rule subsetI, erule ImageE)
    fix x y assume "(x, y) \<in> (explored_step (set U) succ)\<^sup>*" and "x \<in> set pending \<inter> set U"
    then show "y \<in> set (explore U succ pending [])"
    proof (induction rule: rtrancl_induct)
      case base
      then show ?case using explore_contains[of "[]" pending U] by auto
    next
      case (step y z)
      then show ?case using explore_closed[of "[]" succ U pending] by (auto simp: explored_step_def)
    qed
  qed
qed (use explore_sound[of U succ pending "[]"] in simp)

lemma explore_distinct: "distinct seen \<Longrightarrow> distinct (explore U succ pending seen)"
  by (induction U succ pending seen rule: explore.induct) auto

section \<open>Decimal numerals\<close>

fun decimal_nat :: "nat \<Rightarrow> string" where
  "decimal_nat n = (if n < 10 then [char_of (48 + n)] else decimal_nat (n div 10) @ [char_of (48 + n mod 10)])"

declare decimal_nat.simps [simp del]

definition decimal :: "int \<Rightarrow> string" where
  "decimal n = (if n < 0 then ''-'' @ decimal_nat (nat (- n)) else decimal_nat (nat n))"

text \<open>The value of a numeral, which shows that different numbers have different numerals.\<close>

definition numeral_value :: "string \<Rightarrow> nat" where
  "numeral_value s = foldl (\<lambda>n c. n * 10 + (of_char c - 48)) 0 s"

lemma numeral_value_decimal: "numeral_value (decimal_nat n) = n"
proof (induction n rule: decimal_nat.induct)
  case (1 n)
  have digit: "of_char (char_of (48 + k :: nat) :: char) = 48 + k" if "k < 10" for k using that by simp
  show ?case
  proof (cases "n < 10")
    case True
    then show ?thesis by (simp add: decimal_nat.simps[of n] numeral_value_def digit)
  next
    case False
    with 1 have "numeral_value (decimal_nat (n div 10)) = n div 10" by simp
    then show ?thesis using False digit[of "n mod 10"] by (simp add: decimal_nat.simps[of n] numeral_value_def)
  qed
qed

lemma decimal_nat_inject [simp]: "decimal_nat m = decimal_nat n \<longleftrightarrow> m = n"
  by (metis numeral_value_decimal)

lemma decimal_nat_digits: "c \<in> set (decimal_nat n) \<Longrightarrow> 48 \<le> (of_char c :: nat) \<and> (of_char c :: nat) < 58"
proof (induction n rule: decimal_nat.induct)
  case (1 n)
  have digit: "of_char (char_of (48 + k :: nat) :: char) = 48 + k" if "k < 10" for k using that by simp
  show ?case
  proof (cases "n < 10")
    case True
    with 1(2) show ?thesis by (simp add: decimal_nat.simps[of n])
  next
    case False
    with 1 show ?thesis by (auto simp: decimal_nat.simps[of n] digit)
  qed
qed

end
