(* ===== verification/Lifecycle.thy ===== *)
theory Lifecycle
  imports Prelude
begin

text \<open>
  The entity state machines: \<open>contracts/state_machines.py\<close> (statuses, the four transition tables,
  the terminal sets and the \<open>assert_*_transition\<close> guards) and \<open>orchestrator/state_machine.py\<close> (the
  versioned \<open>next_*\<close> helpers the Commit Service writes with a compare-and-swap).

  A status enumeration is a datatype with its wire spelling. A transition table is a function
  from a status to the list of its successors. An entity is a record with its status and version
  first and everything else in the record's extension, so that the \<open>**changes\<close> of a helper
  is a function on the extension: the helper's signature binds \<open>status\<close> itself and passing
  \<open>version\<close> twice is a \<open>TypeError\<close>, hence neither can be among the changes.
\<close>

section \<open>Statuses\<close>

datatype MissionStatus = M_CREATED | M_PLANNING | M_ACTIVE | M_COMPLETED | M_FAILED | M_CANCELLED

fun str_MissionStatus :: "MissionStatus \<Rightarrow> string" where
  "str_MissionStatus M_CREATED = ''CREATED''"
| "str_MissionStatus M_PLANNING = ''PLANNING''"
| "str_MissionStatus M_ACTIVE = ''ACTIVE''"
| "str_MissionStatus M_COMPLETED = ''COMPLETED''"
| "str_MissionStatus M_FAILED = ''FAILED''"
| "str_MissionStatus M_CANCELLED = ''CANCELLED''"

definition all_MissionStatus :: "MissionStatus list" where
  "all_MissionStatus = [M_CREATED, M_PLANNING, M_ACTIVE, M_COMPLETED, M_FAILED, M_CANCELLED]"

datatype MissionStopReason =
    VERIFICATION_PASSED | BUDGET_EXHAUSTED | MAX_ATTEMPTS_REACHED | PLANNING_FAILED | STOP_CANCELLED
  | MODEL_ECHO_MISMATCH | MISSION_CRITERIA_UNMET | INSUFFICIENT_EVIDENCE | ARTIFACT_CONFLICT
  | RETRIEVAL_UNAVAILABLE | NO_PROGRESS | MANAGEMENT_EXHAUSTED | RUNTIME_UNAVAILABLE
  | VERIFIER_UNAVAILABLE | CONTEXT_REJECTED | APPROVAL_REJECTED | ACTION_FAILED | HUMAN_OVERRIDE
  | NO_DISPATCHABLE_WORK

fun str_MissionStopReason :: "MissionStopReason \<Rightarrow> string" where
  "str_MissionStopReason VERIFICATION_PASSED = ''verification_passed''"
| "str_MissionStopReason BUDGET_EXHAUSTED = ''budget_exhausted''"
| "str_MissionStopReason MAX_ATTEMPTS_REACHED = ''max_attempts_reached''"
| "str_MissionStopReason PLANNING_FAILED = ''planning_failed''"
| "str_MissionStopReason STOP_CANCELLED = ''cancelled''"
| "str_MissionStopReason MODEL_ECHO_MISMATCH = ''model_echo_mismatch''"
| "str_MissionStopReason MISSION_CRITERIA_UNMET = ''mission_criteria_unmet''"
| "str_MissionStopReason INSUFFICIENT_EVIDENCE = ''insufficient_evidence''"
| "str_MissionStopReason ARTIFACT_CONFLICT = ''artifact_conflict''"
| "str_MissionStopReason RETRIEVAL_UNAVAILABLE = ''retrieval_unavailable''"
| "str_MissionStopReason NO_PROGRESS = ''no_progress''"
| "str_MissionStopReason MANAGEMENT_EXHAUSTED = ''management_exhausted''"
| "str_MissionStopReason RUNTIME_UNAVAILABLE = ''runtime_unavailable''"
| "str_MissionStopReason VERIFIER_UNAVAILABLE = ''verifier_unavailable''"
| "str_MissionStopReason CONTEXT_REJECTED = ''context_rejected''"
| "str_MissionStopReason APPROVAL_REJECTED = ''approval_rejected''"
| "str_MissionStopReason ACTION_FAILED = ''action_failed''"
| "str_MissionStopReason HUMAN_OVERRIDE = ''human_override''"
| "str_MissionStopReason NO_DISPATCHABLE_WORK = ''no_dispatchable_work''"

definition all_MissionStopReason :: "MissionStopReason list" where
  "all_MissionStopReason =
     [VERIFICATION_PASSED, BUDGET_EXHAUSTED, MAX_ATTEMPTS_REACHED, PLANNING_FAILED, STOP_CANCELLED,
      MODEL_ECHO_MISMATCH, MISSION_CRITERIA_UNMET, INSUFFICIENT_EVIDENCE, ARTIFACT_CONFLICT,
      RETRIEVAL_UNAVAILABLE, NO_PROGRESS, MANAGEMENT_EXHAUSTED, RUNTIME_UNAVAILABLE,
      VERIFIER_UNAVAILABLE, CONTEXT_REJECTED, APPROVAL_REJECTED, ACTION_FAILED, HUMAN_OVERRIDE,
      NO_DISPATCHABLE_WORK]"

datatype TaskStatus =
  T_BLOCKED | T_READY | T_ACTIVE | T_VERIFYING | T_COMPLETED | T_FAILED | T_CANCELLED

fun str_TaskStatus :: "TaskStatus \<Rightarrow> string" where
  "str_TaskStatus T_BLOCKED = ''BLOCKED''"
| "str_TaskStatus T_READY = ''READY''"
| "str_TaskStatus T_ACTIVE = ''ACTIVE''"
| "str_TaskStatus T_VERIFYING = ''VERIFYING''"
| "str_TaskStatus T_COMPLETED = ''COMPLETED''"
| "str_TaskStatus T_FAILED = ''FAILED''"
| "str_TaskStatus T_CANCELLED = ''CANCELLED''"

definition all_TaskStatus :: "TaskStatus list" where
  "all_TaskStatus =
     [T_BLOCKED, T_READY, T_ACTIVE, T_VERIFYING, T_COMPLETED, T_FAILED, T_CANCELLED]"

datatype AttemptStatus =
    A_PENDING | A_CLAIMED | A_RUNNING | A_SUBMITTED | A_VERIFYING | A_COMPLETED | A_RETRY_WAIT
  | A_LOST | A_TIMED_OUT | A_CANCELLED | A_SUPERSEDED

fun str_AttemptStatus :: "AttemptStatus \<Rightarrow> string" where
  "str_AttemptStatus A_PENDING = ''PENDING''"
| "str_AttemptStatus A_CLAIMED = ''CLAIMED''"
| "str_AttemptStatus A_RUNNING = ''RUNNING''"
| "str_AttemptStatus A_SUBMITTED = ''SUBMITTED''"
| "str_AttemptStatus A_VERIFYING = ''VERIFYING''"
| "str_AttemptStatus A_COMPLETED = ''COMPLETED''"
| "str_AttemptStatus A_RETRY_WAIT = ''RETRY_WAIT''"
| "str_AttemptStatus A_LOST = ''LOST''"
| "str_AttemptStatus A_TIMED_OUT = ''TIMED_OUT''"
| "str_AttemptStatus A_CANCELLED = ''CANCELLED''"
| "str_AttemptStatus A_SUPERSEDED = ''SUPERSEDED''"

definition all_AttemptStatus :: "AttemptStatus list" where
  "all_AttemptStatus =
     [A_PENDING, A_CLAIMED, A_RUNNING, A_SUBMITTED, A_VERIFYING, A_COMPLETED, A_RETRY_WAIT,
      A_LOST, A_TIMED_OUT, A_CANCELLED, A_SUPERSEDED]"

datatype ClaimStatus =
    CL_PROPOSED | CL_UNDER_REVIEW | CL_SUPPORTED | CL_VERIFIED | CL_REJECTED | CL_DISPUTED
  | CL_SUPERSEDED

fun str_ClaimStatus :: "ClaimStatus \<Rightarrow> string" where
  "str_ClaimStatus CL_PROPOSED = ''PROPOSED''"
| "str_ClaimStatus CL_UNDER_REVIEW = ''UNDER_REVIEW''"
| "str_ClaimStatus CL_SUPPORTED = ''SUPPORTED''"
| "str_ClaimStatus CL_VERIFIED = ''VERIFIED''"
| "str_ClaimStatus CL_REJECTED = ''REJECTED''"
| "str_ClaimStatus CL_DISPUTED = ''DISPUTED''"
| "str_ClaimStatus CL_SUPERSEDED = ''SUPERSEDED''"

definition all_ClaimStatus :: "ClaimStatus list" where
  "all_ClaimStatus =
     [CL_PROPOSED, CL_UNDER_REVIEW, CL_SUPPORTED, CL_VERIFIED, CL_REJECTED, CL_DISPUTED,
      CL_SUPERSEDED]"

datatype ResultOutcome =
  RO_CANDIDATE | RO_BLOCKED | RO_FAILURE | RO_PROPOSED_SUBTASKS | RO_NO_PROGRESS

fun str_ResultOutcome :: "ResultOutcome \<Rightarrow> string" where
  "str_ResultOutcome RO_CANDIDATE = ''candidate''"
| "str_ResultOutcome RO_BLOCKED = ''blocked''"
| "str_ResultOutcome RO_FAILURE = ''failure''"
| "str_ResultOutcome RO_PROPOSED_SUBTASKS = ''proposed_subtasks''"
| "str_ResultOutcome RO_NO_PROGRESS = ''no_progress''"

definition all_ResultOutcome :: "ResultOutcome list" where
  "all_ResultOutcome = [RO_CANDIDATE, RO_BLOCKED, RO_FAILURE, RO_PROPOSED_SUBTASKS, RO_NO_PROGRESS]"

section \<open>Transition tables\<close>

text \<open>\<open>IllegalTransition(kind, str(current), str(target))\<close>.\<close>

datatype IllegalTransition =
  IllegalTransition (it_kind: string) (it_current: string) (it_target: string)

fun mission_table :: "MissionStatus \<Rightarrow> MissionStatus list" where
  "mission_table M_CREATED = [M_PLANNING, M_CANCELLED]"
| "mission_table M_PLANNING = [M_ACTIVE, M_FAILED, M_CANCELLED]"
| "mission_table M_ACTIVE = [M_COMPLETED, M_FAILED, M_CANCELLED]"
| "mission_table M_COMPLETED = []"
| "mission_table M_FAILED = []"
| "mission_table M_CANCELLED = []"

fun task_table :: "TaskStatus \<Rightarrow> TaskStatus list" where
  "task_table T_BLOCKED = [T_READY]"
| "task_table T_READY = [T_ACTIVE, T_CANCELLED]"
| "task_table T_ACTIVE = [T_VERIFYING, T_FAILED, T_CANCELLED]"
| "task_table T_VERIFYING = [T_COMPLETED, T_ACTIVE]"
| "task_table T_COMPLETED = []"
| "task_table T_FAILED = []"
| "task_table T_CANCELLED = []"

definition attempt_other :: "AttemptStatus list" where
  "attempt_other = [A_LOST, A_TIMED_OUT, A_CANCELLED, A_SUPERSEDED]"

fun attempt_table :: "AttemptStatus \<Rightarrow> AttemptStatus list" where
  "attempt_table A_PENDING = [A_CLAIMED] @ attempt_other"
| "attempt_table A_CLAIMED = [A_RUNNING] @ attempt_other"
| "attempt_table A_RUNNING = [A_SUBMITTED, A_RETRY_WAIT] @ attempt_other"
| "attempt_table A_SUBMITTED = [A_VERIFYING, A_RETRY_WAIT] @ attempt_other"
| "attempt_table A_VERIFYING = [A_COMPLETED, A_RETRY_WAIT] @ attempt_other"
| "attempt_table A_COMPLETED = []"
| "attempt_table A_RETRY_WAIT = []"
| "attempt_table A_LOST = []"
| "attempt_table A_TIMED_OUT = []"
| "attempt_table A_CANCELLED = []"
| "attempt_table A_SUPERSEDED = []"

fun claim_table :: "ClaimStatus \<Rightarrow> ClaimStatus list" where
  "claim_table CL_PROPOSED = [CL_UNDER_REVIEW]"
| "claim_table CL_UNDER_REVIEW = [CL_VERIFIED, CL_REJECTED, CL_DISPUTED, CL_SUPPORTED]"
| "claim_table CL_SUPPORTED = [CL_VERIFIED, CL_REJECTED, CL_DISPUTED]"
| "claim_table CL_VERIFIED = [CL_SUPERSEDED]"
| "claim_table CL_REJECTED = []"
| "claim_table CL_DISPUTED = []"
| "claim_table CL_SUPERSEDED = []"

definition TERMINAL_TASK :: "TaskStatus list" where
  "TERMINAL_TASK = [T_COMPLETED, T_FAILED, T_CANCELLED]"

definition TERMINAL_ATTEMPT :: "AttemptStatus list" where
  "TERMINAL_ATTEMPT =
     [A_COMPLETED, A_RETRY_WAIT, A_LOST, A_TIMED_OUT, A_CANCELLED, A_SUPERSEDED]"

definition TERMINAL_MISSION :: "MissionStatus list" where
  "TERMINAL_MISSION = [M_COMPLETED, M_FAILED, M_CANCELLED]"

definition assert_mission_transition ::
  "MissionStatus \<Rightarrow> MissionStatus \<Rightarrow> IllegalTransition + unit" where
  "assert_mission_transition current target =
     (if target \<notin> set (mission_table current)
      then Inl (IllegalTransition ''mission'' (str_MissionStatus current) (str_MissionStatus target))
      else Inr ())"

definition assert_task_transition :: "TaskStatus \<Rightarrow> TaskStatus \<Rightarrow> IllegalTransition + unit" where
  "assert_task_transition current target =
     (if target \<notin> set (task_table current)
      then Inl (IllegalTransition ''task'' (str_TaskStatus current) (str_TaskStatus target))
      else Inr ())"

definition assert_attempt_transition ::
  "AttemptStatus \<Rightarrow> AttemptStatus \<Rightarrow> IllegalTransition + unit" where
  "assert_attempt_transition current target =
     (if target \<notin> set (attempt_table current)
      then Inl (IllegalTransition ''attempt'' (str_AttemptStatus current) (str_AttemptStatus target))
      else Inr ())"

definition assert_claim_transition :: "ClaimStatus \<Rightarrow> ClaimStatus \<Rightarrow> IllegalTransition + unit" where
  "assert_claim_transition current target =
     (if target \<notin> set (claim_table current)
      then Inl (IllegalTransition ''claim'' (str_ClaimStatus current) (str_ClaimStatus target))
      else Inr ())"

section \<open>Versioned entities\<close>

record 's entity =
  e_status :: 's
  e_version :: int

type_synonym 'r Mission_rec = "(MissionStatus, 'r) entity_scheme"
type_synonym 'r Task_rec = "(TaskStatus, 'r) entity_scheme"
type_synonym 'r Attempt_rec = "(AttemptStatus, 'r) entity_scheme"
type_synonym 'r Claim_rec = "(ClaimStatus, 'r) entity_scheme"

text \<open>\<open>dataclasses.replace(entity, version=entity.version + 1, **changes)\<close>, with the status when
  the helper added it to the changes.\<close>

definition replace_entity ::
  "'s option \<Rightarrow> ('r \<Rightarrow> 'r) \<Rightarrow> ('s, 'r) entity_scheme \<Rightarrow> ('s, 'r) entity_scheme" where
  "replace_entity status changes x =
     \<lparr>e_status = (case status of None \<Rightarrow> e_status x | Some s \<Rightarrow> s),
      e_version = e_version x + 1, \<dots> = changes (entity.more x)\<rparr>"

definition next_mission ::
  "'r Mission_rec \<Rightarrow> MissionStatus option \<Rightarrow> ('r \<Rightarrow> 'r) \<Rightarrow> IllegalTransition + 'r Mission_rec" where
  "next_mission mission status changes =
     (case status of
        None \<Rightarrow> Inr (replace_entity None changes mission)
      | Some s \<Rightarrow>
          if s \<noteq> e_status mission
          then rbind (assert_mission_transition (e_status mission) s)
                 (\<lambda>_. Inr (replace_entity (Some s) changes mission))
          else Inr (replace_entity None changes mission))"

definition next_task ::
  "'r Task_rec \<Rightarrow> TaskStatus option \<Rightarrow> ('r \<Rightarrow> 'r) \<Rightarrow> IllegalTransition + 'r Task_rec" where
  "next_task task status changes =
     (case status of
        None \<Rightarrow> Inr (replace_entity None changes task)
      | Some s \<Rightarrow>
          if s \<noteq> e_status task
          then rbind (assert_task_transition (e_status task) s)
                 (\<lambda>_. Inr (replace_entity (Some s) changes task))
          else Inr (replace_entity None changes task))"

definition next_attempt ::
  "'r Attempt_rec \<Rightarrow> AttemptStatus option \<Rightarrow> ('r \<Rightarrow> 'r) \<Rightarrow> IllegalTransition + 'r Attempt_rec" where
  "next_attempt attempt status changes =
     (case status of
        None \<Rightarrow> Inr (replace_entity None changes attempt)
      | Some s \<Rightarrow>
          if s \<noteq> e_status attempt
          then rbind (assert_attempt_transition (e_status attempt) s)
                 (\<lambda>_. Inr (replace_entity (Some s) changes attempt))
          else Inr (replace_entity None changes attempt))"

definition next_claim ::
  "'r Claim_rec \<Rightarrow> ClaimStatus option \<Rightarrow> ('r \<Rightarrow> 'r) \<Rightarrow> IllegalTransition + 'r Claim_rec" where
  "next_claim claim status changes =
     (case status of
        None \<Rightarrow> Inr (replace_entity None changes claim)
      | Some s \<Rightarrow>
          if s \<noteq> e_status claim
          then rbind (assert_claim_transition (e_status claim) s)
                 (\<lambda>_. Inr (replace_entity (Some s) changes claim))
          else Inr (replace_entity None changes claim))"

section \<open>The machine interface\<close>

text \<open>
  What a versioned machine promises whatever its table: a helper call that succeeds raises the
  version by one, moves along an edge of the table or stays, and from a terminal status nothing
  but staying succeeds. \<open>run\<close> folds a sequence of helper calls, as successive commits do.
\<close>

fun run_steps ::
  "(('s, 'r) entity_scheme \<Rightarrow> 's option \<Rightarrow> ('r \<Rightarrow> 'r) \<Rightarrow> IllegalTransition + ('s, 'r) entity_scheme)
    \<Rightarrow> ('s, 'r) entity_scheme \<Rightarrow> ('s option \<times> ('r \<Rightarrow> 'r)) list
    \<Rightarrow> IllegalTransition + ('s, 'r) entity_scheme" where
  "run_steps nxt x [] = Inr x"
| "run_steps nxt x (c # cs) = rbind (nxt x (fst c) (snd c)) (\<lambda>y. run_steps nxt y cs)"

definition step_rel :: "('s \<Rightarrow> 's list) \<Rightarrow> ('s \<times> 's) set" where
  "step_rel table = {(s, t). t \<in> set (table s)}"

locale versioned_machine =
  fixes table :: "'s \<Rightarrow> 's list"
    and terminal :: "'s list"
    and nxt :: "('s, 'r) entity_scheme \<Rightarrow> 's option \<Rightarrow> ('r \<Rightarrow> 'r)
      \<Rightarrow> IllegalTransition + ('s, 'r) entity_scheme"
  assumes nxt_iff: "nxt x st ch = Inr y \<longleftrightarrow>
      (st \<noteq> None \<and> the st \<noteq> e_status x \<longrightarrow> the st \<in> set (table (e_status x))) \<and>
      y = replace_entity (if st \<noteq> None \<and> the st \<noteq> e_status x then st else None) ch x"
    and terminal_iff: "s \<in> set terminal \<longleftrightarrow> table s = []"
begin

lemma nxt_version: "nxt x st ch = Inr y \<Longrightarrow> e_version y = e_version x + 1"
  by (auto simp: nxt_iff replace_entity_def)

lemma nxt_status: "nxt x st ch = Inr y \<Longrightarrow>
    e_status y = e_status x \<or> (e_status x, e_status y) \<in> step_rel table"
  by (auto simp: nxt_iff replace_entity_def step_rel_def split: if_splits)

lemma nxt_terminal: "nxt x st ch = Inr y \<Longrightarrow> e_status x \<in> set terminal \<Longrightarrow> e_status y = e_status x"
  by (auto simp: nxt_iff replace_entity_def terminal_iff split: if_splits)

lemma run_version: "run_steps nxt x cs = Inr y \<Longrightarrow> e_version y = e_version x + int (length cs)"
  by (induction cs arbitrary: x) (auto simp: result_simps dest!: nxt_version)

lemma run_status: "run_steps nxt x cs = Inr y \<Longrightarrow> (e_status x, e_status y) \<in> (step_rel table)\<^sup>*"
proof (induction cs arbitrary: x)
  case Nil
  then show ?case by simp
next
  case (Cons c cs)
  then obtain z where z: "nxt x (fst c) (snd c) = Inr z" and r: "run_steps nxt z cs = Inr y"
    by (auto simp: result_simps)
  from Cons.IH[OF r] nxt_status[OF z] show ?case
    by (auto intro: converse_rtrancl_into_rtrancl)
qed

lemma run_terminal:
  "run_steps nxt x cs = Inr y \<Longrightarrow> e_status x \<in> set terminal \<Longrightarrow> e_status y = e_status x"
  by (induction cs arbitrary: x) (auto simp: result_simps dest!: nxt_terminal)

end

lemmas transition_defs = assert_mission_transition_def assert_task_transition_def
  assert_attempt_transition_def assert_claim_transition_def

interpretation mission_sm: versioned_machine mission_table TERMINAL_MISSION next_mission
proof unfold_locales
  show "(s \<in> set TERMINAL_MISSION) = (mission_table s = [])" for s
    by (cases s) (auto simp: TERMINAL_MISSION_def)
qed (auto simp: next_mission_def transition_defs result_simps split: option.splits)

interpretation task_sm: versioned_machine task_table TERMINAL_TASK next_task
proof unfold_locales
  show "(s \<in> set TERMINAL_TASK) = (task_table s = [])" for s
    by (cases s) (auto simp: TERMINAL_TASK_def)
qed (auto simp: next_task_def transition_defs result_simps split: option.splits)

interpretation attempt_sm: versioned_machine attempt_table TERMINAL_ATTEMPT next_attempt
proof unfold_locales
  show "(s \<in> set TERMINAL_ATTEMPT) = (attempt_table s = [])" for s
    by (cases s) (auto simp: TERMINAL_ATTEMPT_def attempt_other_def)
qed (auto simp: next_attempt_def transition_defs result_simps split: option.splits)

interpretation claim_sm: versioned_machine claim_table "[CL_REJECTED, CL_DISPUTED, CL_SUPERSEDED]"
  next_claim
proof unfold_locales
  show "(s \<in> set [CL_REJECTED, CL_DISPUTED, CL_SUPERSEDED]) = (claim_table s = [])" for s
    by (cases s) auto
qed (auto simp: next_claim_def transition_defs result_simps split: option.splits)

section \<open>Wire spellings\<close>

interpretation mission_enum: str_enum all_MissionStatus str_MissionStatus
proof unfold_locales
  show "x \<in> set all_MissionStatus" for x by (cases x) (simp_all add: all_MissionStatus_def)
  show "str_MissionStatus x = str_MissionStatus y \<Longrightarrow> x = y" for x y
    by (cases x; cases y) simp_all
qed

interpretation task_enum: str_enum all_TaskStatus str_TaskStatus
proof unfold_locales
  show "x \<in> set all_TaskStatus" for x by (cases x) (simp_all add: all_TaskStatus_def)
  show "str_TaskStatus x = str_TaskStatus y \<Longrightarrow> x = y" for x y
    by (cases x; cases y) simp_all
qed

interpretation attempt_enum: str_enum all_AttemptStatus str_AttemptStatus
proof unfold_locales
  show "x \<in> set all_AttemptStatus" for x by (cases x) (simp_all add: all_AttemptStatus_def)
  show "str_AttemptStatus x = str_AttemptStatus y \<Longrightarrow> x = y" for x y
    by (cases x; cases y) simp_all
qed

interpretation claim_enum: str_enum all_ClaimStatus str_ClaimStatus
proof unfold_locales
  show "x \<in> set all_ClaimStatus" for x by (cases x) (simp_all add: all_ClaimStatus_def)
  show "str_ClaimStatus x = str_ClaimStatus y \<Longrightarrow> x = y" for x y
    by (cases x; cases y) simp_all
qed

interpretation outcome_enum: str_enum all_ResultOutcome str_ResultOutcome
proof unfold_locales
  show "x \<in> set all_ResultOutcome" for x by (cases x) (simp_all add: all_ResultOutcome_def)
  show "str_ResultOutcome x = str_ResultOutcome y \<Longrightarrow> x = y" for x y
    by (cases x; cases y) simp_all
qed

lemma distinct_stop_spellings: "distinct (map str_MissionStopReason all_MissionStopReason)"
  by code_simp

interpretation stop_enum: str_enum all_MissionStopReason str_MissionStopReason
proof unfold_locales
  show all: "x \<in> set all_MissionStopReason" for x
    by (cases x) (simp_all add: all_MissionStopReason_def)
  show "str_MissionStopReason x = str_MissionStopReason y \<Longrightarrow> x = y" for x y
    using distinct_stop_spellings all[of x] all[of y] by (auto simp: distinct_map dest: inj_onD)
qed

section \<open>Properties\<close>

fun attempt_rank :: "AttemptStatus \<Rightarrow> nat" where
  "attempt_rank A_PENDING = 5"
| "attempt_rank A_CLAIMED = 4"
| "attempt_rank A_RUNNING = 3"
| "attempt_rank A_SUBMITTED = 2"
| "attempt_rank A_VERIFYING = 1"
| "attempt_rank _ = 0"

text \<open>How many calls of a run moved the status, rather than only editing other fields.\<close>

fun status_moves ::
  "(('s, 'r) entity_scheme \<Rightarrow> 's option \<Rightarrow> ('r \<Rightarrow> 'r) \<Rightarrow> IllegalTransition + ('s, 'r) entity_scheme)
    \<Rightarrow> ('s, 'r) entity_scheme \<Rightarrow> ('s option \<times> ('r \<Rightarrow> 'r)) list \<Rightarrow> nat" where
  "status_moves nxt x [] = 0"
| "status_moves nxt x (c # cs) =
     (case nxt x (fst c) (snd c) of
        Inl e \<Rightarrow> 0
      | Inr y \<Rightarrow> (if e_status y \<noteq> e_status x then 1 else 0) + status_moves nxt y cs)"

lemma attempt_rank_step: "(s, t) \<in> step_rel attempt_table \<Longrightarrow> attempt_rank t < attempt_rank s"
  by (cases s) (auto simp: step_rel_def attempt_other_def)

lemma attempt_moves_rank: "status_moves next_attempt x cs \<le> attempt_rank (e_status x)"
proof (induction cs arbitrary: x)
  case Nil
  then show ?case by simp
next
  case (Cons c cs)
  show ?case
  proof (cases "next_attempt x (fst c) (snd c)")
    case (Inl e)
    then show ?thesis by simp
  next
    case (Inr y)
    from attempt_sm.nxt_status[OF Inr] attempt_rank_step Cons.IH[of y] Inr show ?thesis
      by fastforce
  qed
qed

lemma task_enters_completed:
  "next_task x st ch = Inr y \<Longrightarrow> e_status y = T_COMPLETED \<Longrightarrow> e_status x \<noteq> T_COMPLETED \<Longrightarrow>
   e_status x = T_VERIFYING"
  by (cases "e_status x") (auto simp: task_sm.nxt_iff replace_entity_def split: if_splits)

text \<open>C37. Terminal statuses are final and versions count commits. Whatever sequence of
  versioned updates the Commit Service applies to a Mission, Task or Attempt, an update that
  succeeds adds exactly one version each, and once the status is in the module's
  \<open>TERMINAL_*\<close> set no later update changes it.\<close>

theorem terminal_statuses_are_final:
  assumes "run_steps next_mission m ms = Inr m'" and "run_steps next_task t ts = Inr t'"
    and "run_steps next_attempt a as = Inr a'"
  shows "e_version m' = e_version m + int (length ms) \<and>
      (e_status m \<in> set TERMINAL_MISSION \<longrightarrow> e_status m' = e_status m) \<and>
      e_version t' = e_version t + int (length ts) \<and>
      (e_status t \<in> set TERMINAL_TASK \<longrightarrow> e_status t' = e_status t) \<and>
      e_version a' = e_version a + int (length as) \<and>
      (e_status a \<in> set TERMINAL_ATTEMPT \<longrightarrow> e_status a' = e_status a)"
  using mission_sm.run_version[OF assms(1)] mission_sm.run_terminal[OF assms(1)]
    task_sm.run_version[OF assms(2)] task_sm.run_terminal[OF assms(2)]
    attempt_sm.run_version[OF assms(3)] attempt_sm.run_terminal[OF assms(3)]
  by blast

theorem terminal_statuses_are_final_witness:
  "run_steps next_mission (\<lparr>e_status = M_FAILED, e_version = 3\<rparr> :: unit Mission_rec)
      [(None, id), (Some M_FAILED, id)] = Inr \<lparr>e_status = M_FAILED, e_version = 3 + 2\<rparr>"
  (is "run_steps _ ?m ?ms = Inr ?m'")
proof -
  let ?t = "\<lparr>e_status = T_READY, e_version = 1\<rparr> :: unit Task_rec"
  let ?a = "\<lparr>e_status = A_PENDING, e_version = 1\<rparr> :: unit Attempt_rec"
  have m: "run_steps next_mission ?m ?ms = Inr ?m'"
    by (simp add: next_mission_def replace_entity_def)
  have t: "run_steps next_task ?t [] = Inr ?t" and a: "run_steps next_attempt ?a [] = Inr ?a"
    by simp_all
  show ?thesis using terminal_statuses_are_final[OF m t a] m by simp
qed

text \<open>Delivery goes through verification. A Task that was not COMPLETED and is COMPLETED
  after a run of legal updates was VERIFYING at some point of that run: the last status change
  into COMPLETED leaves VERIFYING, never READY or ACTIVE.\<close>

theorem completed_task_was_verifying:
  assumes "run_steps next_task t cs = Inr t'"
    and "e_status t' = T_COMPLETED" and "e_status t \<noteq> T_COMPLETED"
  shows "\<exists>cs1 cs2 u. cs = cs1 @ cs2 \<and> run_steps next_task t cs1 = Inr u \<and>
     run_steps next_task u cs2 = Inr t' \<and> e_status u = T_VERIFYING"
  using assms
proof (induction cs arbitrary: t)
  case Nil
  then show ?case by simp
next
  case (Cons c cs)
  then obtain z where z: "next_task t (fst c) (snd c) = Inr z" and r: "run_steps next_task z cs = Inr t'"
    by (auto simp: result_simps)
  show ?case
  proof (cases "e_status z = T_COMPLETED")
    case True
    with z Cons.prems(3) have "e_status t = T_VERIFYING" by (blast dest: task_enters_completed)
    with Cons.prems(1) have "c # cs = [] @ (c # cs) \<and> run_steps next_task t [] = Inr t \<and>
        run_steps next_task t (c # cs) = Inr t' \<and> e_status t = T_VERIFYING" by simp
    then show ?thesis by blast
  next
    case False
    from Cons.IH[OF r Cons.prems(2) False] obtain cs1 cs2 u where
      "cs = cs1 @ cs2" "run_steps next_task z cs1 = Inr u" "run_steps next_task u cs2 = Inr t'"
      "e_status u = T_VERIFYING" by blast
    with z have "c # cs = (c # cs1) @ cs2 \<and> run_steps next_task t (c # cs1) = Inr u \<and>
        run_steps next_task u cs2 = Inr t' \<and> e_status u = T_VERIFYING" by simp
    then show ?thesis by blast
  qed
qed

theorem completed_task_was_verifying_witness:
  "\<exists>cs1 cs2 u. [(Some T_ACTIVE, id), (Some T_VERIFYING, id), (Some T_COMPLETED, id)] = cs1 @ cs2 \<and>
     run_steps next_task (\<lparr>e_status = T_READY, e_version = 1\<rparr> :: unit Task_rec) cs1 = Inr u \<and>
     run_steps next_task u cs2 = Inr \<lparr>e_status = T_COMPLETED, e_version = 4\<rparr> \<and>
     e_status u = T_VERIFYING"
  by (rule completed_task_was_verifying)
    (simp_all add: next_task_def assert_task_transition_def replace_entity_def)

text \<open>An Attempt cannot loop. However long the sequence of updates, the status of one
  Attempt changes at most five times, so a retry is always a new Attempt and never a reset of an
  old one (the Task machine, by contrast, may alternate ACTIVE and VERIFYING without bound).\<close>

theorem attempt_status_changes_bounded: "status_moves next_attempt a cs \<le> 5"
proof -
  have "attempt_rank (e_status a) \<le> 5" by (cases "e_status a") simp_all
  with attempt_moves_rank[of a cs] show ?thesis by linarith
qed

end
