(* ===== verification/Semantic_Base.thy ===== *)
theory Semantic_Base
  imports Prelude Complex_Main
begin

text \<open>
  The structural primitives of \<open>contracts/semantic_base.py\<close>: plain JSON values, the strict
  boundary validators, and the three reference shapes with their codecs.

  A Python \<open>object\<close> that reaches a validator is a value of the type \<open>json\<close>, so every
  \<open>isinstance\<close> test of the source is a case distinction here (\<open>bool\<close> is a constructor of its own,
  which is how the source treats it). Callables and dataclasses are not JSON and have no
  counterpart. Characters are code points below 256. A \<open>ContractError\<close> keeps the name of the
  offending field and the kind of refusal instead of the formatted message; \<open>PyKeyError\<close> and
  \<open>PyTypeError\<close> are the interpreter's own exceptions, where a decoder subscripts a mapping or
  iterates a value without a prior check.
\<close>

datatype pyfloat = PyFinite rat | PyInf | PyNegInf | PyNaN

datatype json =
    JNull
  | JBool bool
  | JInt int
  | JFloat pyfloat
  | JStr string
  | JList "json list"
  | JObj "(string \<times> json) list"

datatype contract_error =
    CE_type string
  | CE_blank string
  | CE_too_long string
  | CE_control string
  | CE_hash string
  | CE_minimum string
  | CE_maximum string
  | CE_not_finite string
  | CE_depth string
  | CE_executable string
  | CE_count string
  | CE_duplicate string
  | CE_enum string
  | CE_missing string "string list"
  | CE_unknown string "string list"
  | CE_schema string
  | CE_provenance string
  | CE_rule string
  | PyKeyError string
  | PyTypeError string
  | PyValueError string

section \<open>Constants and character classes\<close>

definition MAX_ID :: nat where "MAX_ID = 512"
definition MAX_TEXT :: nat where "MAX_TEXT = 20000"
definition MAX_REASON :: nat where "MAX_REASON = 10000"
definition MAX_LIST :: nat where "MAX_LIST = 256"
definition MAX_JSON_INT :: int where "MAX_JSON_INT = 9007199254740991"

text \<open>\<open>str.strip()\<close> removes the characters for which \<open>str.isspace\<close> holds.\<close>

definition is_space :: "char \<Rightarrow> bool" where
  "is_space c = (let n = of_char c :: int in
     (9 \<le> n \<and> n \<le> 13) \<or> (28 \<le> n \<and> n \<le> 32) \<or> n = 133 \<or> n = 160)"

definition strip :: "string \<Rightarrow> string" where
  "strip s = rev (dropWhile is_space (rev (dropWhile is_space s)))"

text \<open>The class of \<open>_CONTROL_RE\<close>.\<close>

definition is_control :: "char \<Rightarrow> bool" where
  "is_control c = (let n = of_char c :: int in
     n \<le> 8 \<or> n = 11 \<or> n = 12 \<or> (14 \<le> n \<and> n \<le> 31) \<or> n = 127)"

definition is_hex_lower :: "char \<Rightarrow> bool" where
  "is_hex_lower c = (let n = of_char c :: int in (48 \<le> n \<and> n \<le> 57) \<or> (97 \<le> n \<and> n \<le> 102))"

definition lower_char :: "char \<Rightarrow> char" where
  "lower_char c = (let n = of_char c :: int in
     if (65 \<le> n \<and> n \<le> 90) \<or> (192 \<le> n \<and> n \<le> 222 \<and> n \<noteq> 215) then char_of (n + 32) else c)"

fun starts_with :: "string \<Rightarrow> string \<Rightarrow> bool" where
  "starts_with [] s = True"
| "starts_with (p # ps) [] = False"
| "starts_with (p # ps) (c # cs) = (p = c \<and> starts_with ps cs)"

fun contains_sub :: "string \<Rightarrow> string \<Rightarrow> bool" where
  "contains_sub p [] = (p = [])"
| "contains_sub p (c # cs) = (starts_with p (c # cs) \<or> contains_sub p cs)"

text \<open>\<open>bool(v)\<close>.\<close>

fun truthy :: "json \<Rightarrow> bool" where
  "truthy JNull = False"
| "truthy (JBool b) = b"
| "truthy (JInt n) = (n \<noteq> 0)"
| "truthy (JFloat x) = (x \<noteq> PyFinite 0)"
| "truthy (JStr s) = (s \<noteq> [])"
| "truthy (JList xs) = (xs \<noteq> [])"
| "truthy (JObj d) = (d \<noteq> [])"

text \<open>\<open>tuple(v)\<close>: a list's items, a string's characters, a mapping's keys.\<close>

fun tuple_of :: "json \<Rightarrow> contract_error + json list" where
  "tuple_of (JList xs) = Inr xs"
| "tuple_of (JStr s) = Inr (map (\<lambda>c. JStr [c]) s)"
| "tuple_of (JObj d) = Inr (map JStr (dict_keys d))"
| "tuple_of _ = Inl (PyTypeError ''not iterable'')"

text \<open>\<open>dict(v)\<close>: a copy of a mapping, or a mapping from an iterable of pairs. A pair may itself be any
  iterable of two items; a key that is no string is refused by the validator that follows the call.\<close>

fun dict_pair :: "json \<Rightarrow> contract_error + (json \<times> json)" where
  "dict_pair v =
     rbind (tuple_of v) (\<lambda>xs. case xs of
       [k, x] \<Rightarrow> (case k of JList _ \<Rightarrow> Inl (PyTypeError ''unhashable'') | JObj _ \<Rightarrow> Inl (PyTypeError ''unhashable'') | _ \<Rightarrow> Inr (k, x))
     | _ \<Rightarrow> Inl (PyValueError ''dict''))"

definition dict_of :: "json \<Rightarrow> string \<Rightarrow> contract_error + (string \<times> json) list" where
  "dict_of v name =
     (case v of
        JObj d \<Rightarrow> Inr d
      | _ \<Rightarrow>
          rbind (tuple_of v) (\<lambda>xs.
          rbind (map_result dict_pair xs) (\<lambda>pairs.
          rbind (map_result (\<lambda>(k, x). case k of JStr s \<Rightarrow> Inr (s, x) | _ \<Rightarrow> Inl (CE_type name)) pairs) (\<lambda>kvs.
          Inr (fold (\<lambda>(k, x). dict_set k x) kvs [])))))"

section \<open>Validators\<close>

definition identifier_limit :: "nat \<Rightarrow> json \<Rightarrow> string \<Rightarrow> contract_error + string" where
  "identifier_limit limit v name =
     (case v of
        JStr s \<Rightarrow>
          if strip s = [] then Inl (CE_blank name)
          else if limit < length s then Inl (CE_too_long name)
          else if list_ex is_control s then Inl (CE_control name)
          else Inr s
      | _ \<Rightarrow> Inl (CE_type name))"

abbreviation identifier_of :: "json \<Rightarrow> string \<Rightarrow> contract_error + string" where
  "identifier_of \<equiv> identifier_limit MAX_ID"

definition optional_identifier :: "json \<Rightarrow> string \<Rightarrow> contract_error + string option" where
  "optional_identifier v name =
     (if v = JNull then Inr None else rbind (identifier_of v name) (\<lambda>s. Inr (Some s)))"

definition text_limit :: "nat \<Rightarrow> json \<Rightarrow> string \<Rightarrow> contract_error + string" where
  "text_limit limit v name =
     (case v of
        JStr s \<Rightarrow>
          if strip s = [] then Inl (CE_blank name)
          else if limit < length s then Inl (CE_too_long name)
          else Inr s
      | _ \<Rightarrow> Inl (CE_type name))"

definition hash_hex :: "json \<Rightarrow> string \<Rightarrow> contract_error + string" where
  "hash_hex v name =
     (case v of
        JStr s \<Rightarrow> if length s = 64 \<and> list_all is_hex_lower s then Inr s else Inl (CE_hash name)
      | _ \<Rightarrow> Inl (CE_hash name))"

definition optional_hash_hex :: "json \<Rightarrow> string \<Rightarrow> contract_error + string option" where
  "optional_hash_hex v name =
     (if v = JNull then Inr None else rbind (hash_hex v name) (\<lambda>s. Inr (Some s)))"

definition index_min :: "int \<Rightarrow> json \<Rightarrow> string \<Rightarrow> contract_error + int" where
  "index_min minimum v name =
     (case v of
        JInt n \<Rightarrow>
          if n < minimum then Inl (CE_minimum name)
          else if MAX_JSON_INT < n then Inl (CE_maximum name)
          else Inr n
      | _ \<Rightarrow> Inl (CE_type name))"

definition optional_index_min :: "int \<Rightarrow> json \<Rightarrow> string \<Rightarrow> contract_error + int option" where
  "optional_index_min minimum v name =
     (if v = JNull then Inr None else rbind (index_min minimum v name) (\<lambda>n. Inr (Some n)))"

definition flag :: "json \<Rightarrow> string \<Rightarrow> contract_error + bool" where
  "flag v name = (case v of JBool b \<Rightarrow> Inr b | _ \<Rightarrow> Inl (CE_type name))"

text \<open>\<open>json_value\<close> copies a plain value, refusing a non-finite number and more than 32 levels.\<close>

fun json_value :: "nat \<Rightarrow> string \<Rightarrow> json \<Rightarrow> contract_error + json"
  and json_items :: "nat \<Rightarrow> string \<Rightarrow> json list \<Rightarrow> contract_error + json list"
  and json_entries ::
    "nat \<Rightarrow> string \<Rightarrow> (string \<times> json) list \<Rightarrow> contract_error + (string \<times> json) list" where
  "json_value depth name v =
     (if 32 < depth then Inl (CE_depth name)
      else case v of
        JFloat x \<Rightarrow> (case x of PyFinite r \<Rightarrow> Inr v | _ \<Rightarrow> Inl (CE_not_finite name))
      | JObj kvs \<Rightarrow> rbind (json_entries (depth + 1) name kvs) (\<lambda>kvs'. Inr (JObj kvs'))
      | JList xs \<Rightarrow> rbind (json_items (depth + 1) (name @ ''[]'') xs) (\<lambda>ys. Inr (JList ys))
      | _ \<Rightarrow> Inr v)"
| "json_items depth name [] = Inr []"
| "json_items depth name (x # xs) =
     rbind (json_value depth name x) (\<lambda>y. rbind (json_items depth name xs) (\<lambda>ys. Inr (y # ys)))"
| "json_entries depth name [] = Inr []"
| "json_entries depth name (kv # kvs) =
     rbind (json_value depth (name @ ''.'' @ fst kv) (snd kv))
       (\<lambda>y. rbind (json_entries depth name kvs) (\<lambda>ys. Inr ((fst kv, y) # ys)))"

definition json_object :: "json \<Rightarrow> string \<Rightarrow> contract_error + (string \<times> json) list" where
  "json_object v name =
     (case v of
        JObj kvs \<Rightarrow> rbind (json_value 0 name v)
          (\<lambda>w. case w of JObj kvs' \<Rightarrow> Inr kvs' | _ \<Rightarrow> Inl (CE_type name))
      | _ \<Rightarrow> Inl (CE_type name))"

definition code_markers :: "string list" where
  "code_markers =
     [''eval('', ''exec('', ''lambda '', ''__import__'', ''import os'', ''subprocess'', ''select '',
      ''insert into'', ''update '', ''delete from'', ''drop table'', ''union all'', ''--;'']"

definition looks_like_code :: "string \<Rightarrow> bool" where
  "looks_like_code s =
     (let lowered = map lower_char (strip s) in list_ex (\<lambda>m. contains_sub m lowered) code_markers)"

fun reject_executable :: "json \<Rightarrow> string \<Rightarrow> contract_error + unit"
  and reject_items :: "json list \<Rightarrow> string \<Rightarrow> contract_error + unit"
  and reject_entries :: "(string \<times> json) list \<Rightarrow> string \<Rightarrow> contract_error + unit" where
  "reject_executable v name =
     (case v of
        JStr s \<Rightarrow> if looks_like_code s then Inl (CE_executable name) else Inr ()
      | JObj kvs \<Rightarrow> reject_entries kvs name
      | JList xs \<Rightarrow> reject_items xs (name @ ''[]'')
      | _ \<Rightarrow> Inr ())"
| "reject_items [] name = Inr ()"
| "reject_items (x # xs) name = rbind (reject_executable x name) (\<lambda>_. reject_items xs name)"
| "reject_entries [] name = Inr ()"
| "reject_entries (kv # kvs) name =
     rbind (if looks_like_code (fst kv) then Inl (CE_executable (name @ ''.key'')) else Inr ())
       (\<lambda>_. rbind (reject_executable (snd kv) (name @ ''.'' @ fst kv)) (\<lambda>_. reject_entries kvs name))"

definition sequence_of ::
  "nat \<Rightarrow> nat \<Rightarrow> json \<Rightarrow> string \<Rightarrow> (json \<Rightarrow> contract_error + 'a) \<Rightarrow> contract_error + 'a list" where
  "sequence_of limit minimum v name item =
     (case v of
        JList xs \<Rightarrow> rbind (map_result item xs)
          (\<lambda>items. if length items < minimum then Inl (CE_count name)
                   else if limit < length items then Inl (CE_count name)
                   else Inr items)
      | _ \<Rightarrow> Inl (CE_type name))"

definition identifiers :: "nat \<Rightarrow> json \<Rightarrow> string \<Rightarrow> contract_error + string list" where
  "identifiers limit v name =
     rbind (sequence_of limit 0 v name (\<lambda>x. identifier_of x name))
       (\<lambda>items. if \<not> distinct items then Inl (CE_duplicate name) else Inr items)"

definition decode_enum :: "'a list \<Rightarrow> ('a \<Rightarrow> string) \<Rightarrow> json \<Rightarrow> string \<Rightarrow> contract_error + 'a" where
  "decode_enum members spell v name =
     (case v of
        JStr s \<Rightarrow> (case enum_of members spell s of None \<Rightarrow> Inl (CE_enum name) | Some x \<Rightarrow> Inr x)
      | _ \<Rightarrow> Inl (CE_type name))"

definition fields_of ::
  "json \<Rightarrow> string \<Rightarrow> string list \<Rightarrow> string list \<Rightarrow> contract_error + (string \<times> json) list" where
  "fields_of v name required optional =
     (case v of
        JObj data \<Rightarrow>
          let missing = filter (\<lambda>k. k \<notin> set (dict_keys data)) required;
              unknown = filter (\<lambda>k. k \<notin> set required \<and> k \<notin> set optional) (dict_keys data)
          in if missing \<noteq> [] then Inl (CE_missing name (sort missing))
             else if unknown \<noteq> [] then Inl (CE_unknown name (sort unknown))
             else Inr data
      | _ \<Rightarrow> Inl (CE_type name))"

definition schema_version :: "int \<Rightarrow> json \<Rightarrow> string \<Rightarrow> contract_error + int" where
  "schema_version expected v name =
     rbind (index_min 1 v name) (\<lambda>got. if got \<noteq> expected then Inl (CE_schema name) else Inr got)"

section \<open>Provenance\<close>

datatype Provenance = PV_SYSTEM | PV_TOOL | PV_MODEL | PV_HUMAN

fun str_Provenance :: "Provenance \<Rightarrow> string" where
  "str_Provenance PV_SYSTEM = ''system''"
| "str_Provenance PV_TOOL = ''tool''"
| "str_Provenance PV_MODEL = ''model''"
| "str_Provenance PV_HUMAN = ''human''"

definition all_Provenance :: "Provenance list" where
  "all_Provenance = [PV_SYSTEM, PV_TOOL, PV_MODEL, PV_HUMAN]"

definition MODEL_SUBMITTABLE_PROVENANCE :: "Provenance list" where
  "MODEL_SUBMITTABLE_PROVENANCE = [PV_MODEL, PV_HUMAN]"

fun reject_model_claimed_provenance :: "json \<Rightarrow> string \<Rightarrow> contract_error + unit"
  and reject_claimed_items :: "json list \<Rightarrow> string \<Rightarrow> contract_error + unit"
  and reject_claimed_entries :: "(string \<times> json) list \<Rightarrow> string \<Rightarrow> contract_error + unit" where
  "reject_model_claimed_provenance v name =
     (case v of
        JObj kvs \<Rightarrow> reject_claimed_entries kvs name
      | JList xs \<Rightarrow> reject_claimed_items xs name
      | _ \<Rightarrow> Inr ())"
| "reject_claimed_items [] name = Inr ()"
| "reject_claimed_items (x # xs) name =
     rbind (reject_model_claimed_provenance x (name @ ''[]'')) (\<lambda>_. reject_claimed_items xs name)"
| "reject_claimed_entries [] name = Inr ()"
| "reject_claimed_entries (kv # kvs) name =
     rbind
       (case (fst kv = ''produced_by'', snd kv) of
          (True, JStr s) \<Rightarrow>
            (case enum_of all_Provenance str_Provenance s of
               None \<Rightarrow> Inl (CE_enum (name @ ''.produced_by''))
             | Some claimed \<Rightarrow>
                 if claimed \<notin> set MODEL_SUBMITTABLE_PROVENANCE
                 then Inl (CE_provenance (name @ ''.produced_by'')) else Inr ())
        | _ \<Rightarrow> reject_model_claimed_provenance (snd kv) (name @ ''.'' @ fst kv))
       (\<lambda>_. reject_claimed_entries kvs name)"

section \<open>References\<close>

datatype EvidenceRefKind =
  ER_OBSERVATION | ER_TOOL_RECEIPT | ER_ARTIFACT | ER_KNOWLEDGE | ER_REVIEW | ER_SOURCE | ER_OPERATION

fun str_EvidenceRefKind :: "EvidenceRefKind \<Rightarrow> string" where
  "str_EvidenceRefKind ER_OBSERVATION = ''observation''"
| "str_EvidenceRefKind ER_TOOL_RECEIPT = ''tool_receipt''"
| "str_EvidenceRefKind ER_ARTIFACT = ''artifact''"
| "str_EvidenceRefKind ER_KNOWLEDGE = ''knowledge''"
| "str_EvidenceRefKind ER_REVIEW = ''review''"
| "str_EvidenceRefKind ER_SOURCE = ''source''"
| "str_EvidenceRefKind ER_OPERATION = ''operation''"

definition all_EvidenceRefKind :: "EvidenceRefKind list" where
  "all_EvidenceRefKind =
     [ER_OBSERVATION, ER_TOOL_RECEIPT, ER_ARTIFACT, ER_KNOWLEDGE, ER_REVIEW, ER_SOURCE, ER_OPERATION]"

datatype TypedRefKind =
    TR_TASK | TR_METHOD | TR_REQUIREMENTS | TR_ARTIFACT | TR_SOURCE | TR_OBSERVATION | TR_REVIEW
  | TR_ACCEPTANCE | TR_RESOLUTION | TR_OPERATION | TR_TOOL_RECEIPT | TR_KNOWLEDGE

fun str_TypedRefKind :: "TypedRefKind \<Rightarrow> string" where
  "str_TypedRefKind TR_TASK = ''task''"
| "str_TypedRefKind TR_METHOD = ''method''"
| "str_TypedRefKind TR_REQUIREMENTS = ''requirements''"
| "str_TypedRefKind TR_ARTIFACT = ''artifact''"
| "str_TypedRefKind TR_SOURCE = ''source''"
| "str_TypedRefKind TR_OBSERVATION = ''observation''"
| "str_TypedRefKind TR_REVIEW = ''review''"
| "str_TypedRefKind TR_ACCEPTANCE = ''acceptance''"
| "str_TypedRefKind TR_RESOLUTION = ''resolution''"
| "str_TypedRefKind TR_OPERATION = ''operation''"
| "str_TypedRefKind TR_TOOL_RECEIPT = ''tool_receipt''"
| "str_TypedRefKind TR_KNOWLEDGE = ''knowledge''"

definition all_TypedRefKind :: "TypedRefKind list" where
  "all_TypedRefKind =
     [TR_TASK, TR_METHOD, TR_REQUIREMENTS, TR_ARTIFACT, TR_SOURCE, TR_OBSERVATION, TR_REVIEW,
      TR_ACCEPTANCE, TR_RESOLUTION, TR_OPERATION, TR_TOOL_RECEIPT, TR_KNOWLEDGE]"

record VersionedRef =
  vr_id :: string
  vr_version :: int
  vr_content_hash :: string

record 'k kinded_ref =
  r_kind :: 'k
  r_id :: string
  r_revision :: int
  r_content_hash :: string
  r_produced_by :: "Provenance option"

type_synonym EvidenceRef = "EvidenceRefKind kinded_ref"
type_synonym TypedRef = "TypedRefKind kinded_ref"

text \<open>Reading a decoded object: \<open>data[k]\<close> for a key \<open>fields_of\<close> proved present, \<open>data.get(k)\<close>
  for an optional one.\<close>

definition field :: "(string \<times> json) list \<Rightarrow> string \<Rightarrow> json" where
  "field data k = dict_get data k JNull"

definition make_VersionedRef :: "json \<Rightarrow> json \<Rightarrow> json \<Rightarrow> contract_error + VersionedRef" where
  "make_VersionedRef i v h =
     rbind (identifier_of i ''versioned_ref.id'') (\<lambda>i'.
     rbind (index_min 1 v ''versioned_ref.version'') (\<lambda>v'.
     rbind (hash_hex h ''versioned_ref.content_hash'') (\<lambda>h'.
     Inr \<lparr>vr_id = i', vr_version = v', vr_content_hash = h'\<rparr>)))"

definition VersionedRef_to_json :: "VersionedRef \<Rightarrow> json" where
  "VersionedRef_to_json r =
     JObj [(''id'', JStr (vr_id r)), (''version'', JInt (vr_version r)),
           (''content_hash'', JStr (vr_content_hash r))]"

definition VersionedRef_from_json :: "json \<Rightarrow> string \<Rightarrow> contract_error + VersionedRef" where
  "VersionedRef_from_json v name =
     rbind (fields_of v name [''id'', ''version'', ''content_hash''] []) (\<lambda>d.
     make_VersionedRef (field d ''id'') (field d ''version'') (field d ''content_hash''))"

text \<open>\<open>EvidenceRef\<close> and \<open>TypedRef\<close> are the same class text over two kind enumerations; the model
  shares one body over the decoder of the kind.\<close>

definition make_ref ::
  "(json \<Rightarrow> contract_error + 'k) \<Rightarrow> string \<Rightarrow> json \<Rightarrow> json \<Rightarrow> json \<Rightarrow> json \<Rightarrow> json
    \<Rightarrow> contract_error + 'k kinded_ref" where
  "make_ref decode_kind name k i r h p =
     rbind (decode_kind k) (\<lambda>k'.
     rbind (identifier_of i (name @ ''.id'')) (\<lambda>i'.
     rbind (index_min 0 r (name @ ''.revision'')) (\<lambda>r'.
     rbind (hash_hex h (name @ ''.content_hash'')) (\<lambda>h'.
     rbind (if p = JNull then Inr None
            else rbind (decode_enum all_Provenance str_Provenance p (name @ ''.produced_by''))
                   (\<lambda>x. Inr (Some x))) (\<lambda>p'.
     Inr \<lparr>r_kind = k', r_id = i', r_revision = r', r_content_hash = h', r_produced_by = p'\<rparr>)))))"

definition ref_to_json :: "('k \<Rightarrow> string) \<Rightarrow> 'k kinded_ref \<Rightarrow> json" where
  "ref_to_json spell r =
     JObj ([(''kind'', JStr (spell (r_kind r))), (''id'', JStr (r_id r)),
            (''revision'', JInt (r_revision r)), (''content_hash'', JStr (r_content_hash r))]
           @ (case r_produced_by r of None \<Rightarrow> [] | Some p \<Rightarrow> [(''produced_by'', JStr (str_Provenance p))]))"

definition ref_from_json ::
  "(json \<Rightarrow> contract_error + 'k) \<Rightarrow> string \<Rightarrow> json \<Rightarrow> string \<Rightarrow> contract_error + 'k kinded_ref" where
  "ref_from_json decode_kind cls v name =
     rbind (fields_of v name [''kind'', ''id'', ''revision'', ''content_hash''] [''produced_by'']) (\<lambda>d.
     make_ref decode_kind cls (field d ''kind'') (field d ''id'') (field d ''revision'')
       (field d ''content_hash'') (field d ''produced_by''))"

definition EvidenceRef_to_json :: "EvidenceRef \<Rightarrow> json" where
  "EvidenceRef_to_json = ref_to_json str_EvidenceRefKind"

definition EvidenceRef_from_json :: "json \<Rightarrow> string \<Rightarrow> contract_error + EvidenceRef" where
  "EvidenceRef_from_json =
     ref_from_json
       (\<lambda>k. decode_enum all_EvidenceRefKind str_EvidenceRefKind k ''evidence_ref.kind'') ''evidence_ref''"

definition EvidenceRef_from_model_json :: "json \<Rightarrow> string \<Rightarrow> contract_error + EvidenceRef" where
  "EvidenceRef_from_model_json v name =
     rbind (reject_model_claimed_provenance v name) (\<lambda>_. EvidenceRef_from_json v name)"

definition TypedRef_to_json :: "TypedRef \<Rightarrow> json" where
  "TypedRef_to_json = ref_to_json str_TypedRefKind"

definition TypedRef_from_json :: "json \<Rightarrow> string \<Rightarrow> contract_error + TypedRef" where
  "TypedRef_from_json =
     ref_from_json (\<lambda>k. decode_enum all_TypedRefKind str_TypedRefKind k ''typed_ref.kind'') ''typed_ref''"

definition TypedRef_from_model_json :: "json \<Rightarrow> string \<Rightarrow> contract_error + TypedRef" where
  "TypedRef_from_model_json v name =
     rbind (reject_model_claimed_provenance v name) (\<lambda>_. TypedRef_from_json v name)"

definition TypedRef_of_kind :: "TypedRefKind \<Rightarrow> json \<Rightarrow> string \<Rightarrow> contract_error + TypedRef" where
  "TypedRef_of_kind expected v name =
     rbind (TypedRef_from_json v name) (\<lambda>ref.
     if r_kind ref \<noteq> expected then Inl (CE_enum (name @ ''.kind'')) else Inr ref)"

section \<open>Facts about the validators\<close>

interpretation provenance_enum: str_enum all_Provenance str_Provenance
proof unfold_locales
  show "x \<in> set all_Provenance" for x by (cases x) (simp_all add: all_Provenance_def)
  show "str_Provenance x = str_Provenance y \<Longrightarrow> x = y" for x y
    by (cases x; cases y) simp_all
qed

interpretation evidence_kind_enum: str_enum all_EvidenceRefKind str_EvidenceRefKind
proof unfold_locales
  show "x \<in> set all_EvidenceRefKind" for x by (cases x) (simp_all add: all_EvidenceRefKind_def)
  show "str_EvidenceRefKind x = str_EvidenceRefKind y \<Longrightarrow> x = y" for x y
    by (cases x; cases y) simp_all
qed

lemma distinct_typed_kinds: "distinct (map str_TypedRefKind all_TypedRefKind)"
  by code_simp

interpretation typed_kind_enum: str_enum all_TypedRefKind str_TypedRefKind
proof unfold_locales
  show all: "x \<in> set all_TypedRefKind" for x by (cases x) (simp_all add: all_TypedRefKind_def)
  show "str_TypedRefKind x = str_TypedRefKind y \<Longrightarrow> x = y" for x y
    using distinct_typed_kinds all[of x] all[of y] by (auto simp: distinct_map dest: inj_onD)
qed

lemma identifier_ok [result_simps]:
  "identifier_limit l v name = Inr s \<longleftrightarrow>
     v = JStr s \<and> strip s \<noteq> [] \<and> length s \<le> l \<and> \<not> list_ex is_control s"
  by (auto simp: identifier_limit_def split: json.splits if_splits)

lemma hash_hex_ok [result_simps]:
  "hash_hex v name = Inr s \<longleftrightarrow> v = JStr s \<and> length s = 64 \<and> list_all is_hex_lower s"
  by (auto simp: hash_hex_def split: json.splits if_splits)

lemma index_min_ok [result_simps]:
  "index_min m v name = Inr n \<longleftrightarrow> v = JInt n \<and> m \<le> n \<and> n \<le> MAX_JSON_INT"
  by (auto simp: index_min_def split: json.splits if_splits)

lemma flag_ok [result_simps]: "flag v name = Inr b \<longleftrightarrow> v = JBool b"
  by (auto simp: flag_def split: json.splits)

lemma decode_enum_ok [result_simps]:
  "decode_enum ms sp v name = Inr x \<longleftrightarrow> (\<exists>s. v = JStr s \<and> enum_of ms sp s = Some x)"
  by (auto simp: decode_enum_def split: json.splits option.splits)

lemma fields_of_ok [result_simps]:
  "fields_of v name req opt = Inr d \<longleftrightarrow>
     v = JObj d \<and> set req \<subseteq> set (dict_keys d) \<and> set (dict_keys d) \<subseteq> set req \<union> set opt"
  by (auto simp: fields_of_def Let_def filter_empty_conv subset_iff split: json.splits)

text \<open>The validators that copy: what they return is what they were given.\<close>

lemma optional_identifier_ok:
  "optional_identifier v name = Inr x \<longleftrightarrow>
     (case x of None \<Rightarrow> v = JNull | Some s \<Rightarrow> identifier_of v name = Inr s)"
  by (cases x) (auto simp: optional_identifier_def rbind_Inr_iff identifier_ok)

lemma text_limit_ok [result_simps]:
  "text_limit l v name = Inr s \<longleftrightarrow> v = JStr s \<and> strip s \<noteq> [] \<and> length s \<le> l"
  by (auto simp: text_limit_def split: json.splits if_splits)

lemma identifiers_ok:
  "identifiers l v name = Inr xs \<longleftrightarrow>
     v = JList (map JStr xs) \<and> length xs \<le> l \<and> distinct xs \<and> (\<forall>x\<in>set xs. identifier_of (JStr x) name = Inr x)"
proof -
  have "list_all2 (\<lambda>j s. identifier_of j name = Inr s) js xs \<longleftrightarrow>
      js = map JStr xs \<and> (\<forall>x\<in>set xs. identifier_of (JStr x) name = Inr x)" for js
    by (induction js arbitrary: xs) (auto simp: list_all2_Cons1 identifier_ok)
  then show ?thesis
    by (cases v) (auto simp: identifiers_def sequence_of_def rbind_Inr_iff map_result_ok guard_Inr_iff)
qed

lemma json_value_copies:
  "json_value depth name v = Inr w \<Longrightarrow> w = v"
  "json_items depth name xs = Inr ys \<Longrightarrow> ys = xs"
  "json_entries depth name kvs = Inr kvs' \<Longrightarrow> kvs' = kvs"
proof (induction depth name v and depth name xs and depth name kvs
    arbitrary: w and ys and kvs' rule: json_value_json_items_json_entries.induct)
  case (1 depth name v)
  then show ?case
    by (auto simp: rbind_Inr_iff simp del: json_items.simps json_entries.simps split: if_splits json.splits pyfloat.splits)
qed (auto simp: rbind_Inr_iff simp del: json_value.simps)

lemma json_object_copies: "json_object v name = Inr d \<Longrightarrow> v = JObj d"
proof (cases v)
  case (JObj kvs)
  assume "json_object v name = Inr d"
  with JObj obtain w where w: "json_value 0 name (JObj kvs) = Inr w" and "(case w of JObj kvs' \<Rightarrow> Inr kvs' | _ \<Rightarrow> Inl (CE_type name)) = Inr d"
    by (auto simp: json_object_def rbind_Inr_iff simp del: json_value.simps)
  with json_value_copies(1)[OF w] JObj show ?thesis by simp
qed (simp_all add: json_object_def)

lemma json_object_again: "json_object v name = Inr d \<Longrightarrow> json_object (JObj d) name = Inr d"
  using json_object_copies by metis

text \<open>The contract of a kind decoder, and the codec laws every reference shape inherits from it.\<close>

locale ref_codec =
  fixes decode_kind :: "json \<Rightarrow> contract_error + 'k" and spell :: "'k \<Rightarrow> string" and cls :: string
  assumes kind_roundtrip: "decode_kind (JStr (spell k)) = Inr k"
begin

lemma make_ref_ok:
  "make_ref decode_kind cls k i r h p = Inr x \<longleftrightarrow>
     decode_kind k = Inr (r_kind x) \<and> identifier_of i (cls @ ''.id'') = Inr (r_id x) \<and>
     index_min 0 r (cls @ ''.revision'') = Inr (r_revision x) \<and>
     hash_hex h (cls @ ''.content_hash'') = Inr (r_content_hash x) \<and>
     (case r_produced_by x of None \<Rightarrow> p = JNull | Some q \<Rightarrow> p = JStr (str_Provenance q))"
  by (cases x)
    (auto simp: make_ref_def result_simps provenance_enum.decode_iff split: option.splits if_splits)

lemma decoded_roundtrip:
  assumes "ref_from_json decode_kind cls v name = Inr x"
  shows "ref_from_json decode_kind cls (ref_to_json spell x) name' = Inr x"
  using assms
  by (auto simp: ref_from_json_def ref_to_json_def result_simps make_ref_ok field_def dict_get_def
      kind_roundtrip split: option.splits)

lemma decoded_attribution:
  assumes "ref_from_json decode_kind cls (JObj d) name = Inr x"
  shows "(case r_produced_by x of None \<Rightarrow> field d ''produced_by'' = JNull
          | Some q \<Rightarrow> field d ''produced_by'' = JStr (str_Provenance q))"
  using assms by (auto simp: ref_from_json_def result_simps make_ref_ok)

end

interpretation evidence_ref_codec: ref_codec
  "\<lambda>k. decode_enum all_EvidenceRefKind str_EvidenceRefKind k ''evidence_ref.kind''"
  str_EvidenceRefKind "''evidence_ref''"
  by unfold_locales (simp add: decode_enum_def evidence_kind_enum.decode_spell)

interpretation typed_ref_codec: ref_codec
  "\<lambda>k. decode_enum all_TypedRefKind str_TypedRefKind k ''typed_ref.kind''"
  str_TypedRefKind "''typed_ref''"
  by unfold_locales (simp add: decode_enum_def typed_kind_enum.decode_spell)

text \<open>Every string a JSON value holds, keys included.\<close>

fun json_strings :: "json \<Rightarrow> string set"
  and json_strings_items :: "json list \<Rightarrow> string set"
  and json_strings_entries :: "(string \<times> json) list \<Rightarrow> string set" where
  "json_strings v =
     (case v of JStr s \<Rightarrow> {s} | JList xs \<Rightarrow> json_strings_items xs
      | JObj kvs \<Rightarrow> json_strings_entries kvs | _ \<Rightarrow> {})"
| "json_strings_items [] = {}"
| "json_strings_items (x # xs) = json_strings x \<union> json_strings_items xs"
| "json_strings_entries [] = {}"
| "json_strings_entries (kv # kvs) =
     insert (fst kv) (json_strings (snd kv)) \<union> json_strings_entries kvs"

lemma reject_executable_ok_iff:
  "reject_executable v name = Inr u \<longleftrightarrow> (\<forall>s\<in>json_strings v. \<not> looks_like_code s)"
  "reject_items xs name = Inr u \<longleftrightarrow> (\<forall>s\<in>json_strings_items xs. \<not> looks_like_code s)"
  "reject_entries kvs name = Inr u \<longleftrightarrow> (\<forall>s\<in>json_strings_entries kvs. \<not> looks_like_code s)"
proof (induction v name and xs name and kvs name
    rule: reject_executable_reject_items_reject_entries.induct)
  case (1 v name)
  then show ?case by (cases v) auto
qed (auto simp: result_simps)

lemma claimed_entry_ok:
  assumes "reject_claimed_entries kvs name = Inr u" and "(''produced_by'', JStr s) \<in> set kvs"
  shows "\<exists>p\<in>set MODEL_SUBMITTABLE_PROVENANCE. s = str_Provenance p"
  using assms
  by (induction kvs)
    (auto simp: result_simps provenance_enum.decode_iff split: option.splits if_splits)

lemma model_ref_attribution:
  assumes "reject_model_claimed_provenance v name = Inr u"
    and "ref_codec dk sp" and "ref_from_json dk cls v name = Inr x"
  shows "r_produced_by x \<notin> {Some PV_SYSTEM, Some PV_TOOL}"
proof (cases "r_produced_by x")
  case None
  then show ?thesis by simp
next
  case (Some q)
  from assms(3) obtain d where v: "v = JObj d" by (auto simp: ref_from_json_def result_simps)
  have "field d ''produced_by'' = JStr (str_Provenance q)"
    using ref_codec.decoded_attribution[OF assms(2)] assms(3) Some v by fastforce
  then have "(''produced_by'', JStr (str_Provenance q)) \<in> set d"
    by (auto simp: field_def dict_get_def split: option.splits dest: map_of_SomeD)
  with assms(1) v obtain p where "p \<in> set MODEL_SUBMITTABLE_PROVENANCE"
    and "str_Provenance q = str_Provenance p"
    using claimed_entry_ok by auto blast
  with Some show ?thesis
    by (auto simp: MODEL_SUBMITTABLE_PROVENANCE_def dest!: provenance_enum.spell_inj)
qed

section \<open>Properties\<close>

text \<open>References survive the wire. Whatever JSON an evidence reference or a typed reference
  was decoded from, encoding the decoded object and decoding it again gives the same object, with
  or without an attribution, so a stored reference and its content hash do not drift.\<close>

theorem ref_codec_roundtrip:
  assumes "EvidenceRef_from_json v name = Inr e" and "TypedRef_from_json w name = Inr t"
  shows "EvidenceRef_from_json (EvidenceRef_to_json e) n1 = Inr e \<and>
    TypedRef_from_json (TypedRef_to_json t) n2 = Inr t"
  using assms evidence_ref_codec.decoded_roundtrip typed_ref_codec.decoded_roundtrip
  unfolding EvidenceRef_from_json_def EvidenceRef_to_json_def TypedRef_from_json_def
    TypedRef_to_json_def by blast

definition sample_ref_json :: "string \<Rightarrow> json" where
  "sample_ref_json k = JObj [(''kind'', JStr k), (''id'', JStr ''o1''), (''revision'', JInt 3),
     (''content_hash'', JStr (replicate 64 (CHR ''a''))), (''produced_by'', JStr ''human'')]"

theorem ref_codec_roundtrip_witness:
  "\<exists>e t. EvidenceRef_from_json (sample_ref_json ''review'') ''r'' = Inr e \<and>
     EvidenceRef_from_json (EvidenceRef_to_json e) ''x'' = Inr e \<and>
     TypedRef_from_json (sample_ref_json ''task'') ''r'' = Inr t \<and>
     TypedRef_from_json (TypedRef_to_json t) ''y'' = Inr t"
proof -
  have e: "EvidenceRef_from_json (sample_ref_json ''review'') ''r'' =
      Inr \<lparr>r_kind = ER_REVIEW, r_id = ''o1'', r_revision = 3,
           r_content_hash = replicate 64 (CHR ''a''), r_produced_by = Some PV_HUMAN\<rparr>"
    by code_simp
  have t: "TypedRef_from_json (sample_ref_json ''task'') ''r'' =
      Inr \<lparr>r_kind = TR_TASK, r_id = ''o1'', r_revision = 3,
           r_content_hash = replicate 64 (CHR ''a''), r_produced_by = Some PV_HUMAN\<rparr>"
    by code_simp
  show ?thesis using ref_codec_roundtrip[OF e t] e t by blast
qed

text \<open>A model cannot award itself system or tool attribution. A reference decoded through
  the model ingress never carries the provenance SYSTEM or TOOL, for evidence references and
  typed references alike.\<close>

theorem model_ref_never_system_or_tool:
  assumes "EvidenceRef_from_model_json v name = Inr e" and "TypedRef_from_model_json w name = Inr t"
  shows "r_produced_by e \<notin> {Some PV_SYSTEM, Some PV_TOOL} \<and>
    r_produced_by t \<notin> {Some PV_SYSTEM, Some PV_TOOL}"
proof
  from assms(1) have "reject_model_claimed_provenance v name = Inr ()"
    and "EvidenceRef_from_json v name = Inr e"
    by (auto simp: EvidenceRef_from_model_json_def result_simps)
  then show "r_produced_by e \<notin> {Some PV_SYSTEM, Some PV_TOOL}"
    unfolding EvidenceRef_from_json_def
    by (rule model_ref_attribution[OF _ evidence_ref_codec.ref_codec_axioms])
  from assms(2) have "reject_model_claimed_provenance w name = Inr ()"
    and "TypedRef_from_json w name = Inr t"
    by (auto simp: TypedRef_from_model_json_def result_simps)
  then show "r_produced_by t \<notin> {Some PV_SYSTEM, Some PV_TOOL}"
    unfolding TypedRef_from_json_def
    by (rule model_ref_attribution[OF _ typed_ref_codec.ref_codec_axioms])
qed

theorem model_ref_never_system_or_tool_witness:
  "\<exists>e t. EvidenceRef_from_model_json (sample_ref_json ''review'') ''r'' = Inr e \<and>
     TypedRef_from_model_json (sample_ref_json ''task'') ''r'' = Inr t \<and>
     r_produced_by e \<notin> {Some PV_SYSTEM, Some PV_TOOL} \<and> r_produced_by t \<notin> {Some PV_SYSTEM, Some PV_TOOL}"
proof -
  have e: "EvidenceRef_from_model_json (sample_ref_json ''review'') ''r'' =
      Inr \<lparr>r_kind = ER_REVIEW, r_id = ''o1'', r_revision = 3,
           r_content_hash = replicate 64 (CHR ''a''), r_produced_by = Some PV_HUMAN\<rparr>"
    by code_simp
  have t: "TypedRef_from_model_json (sample_ref_json ''task'') ''r'' =
      Inr \<lparr>r_kind = TR_TASK, r_id = ''o1'', r_revision = 3,
           r_content_hash = replicate 64 (CHR ''a''), r_produced_by = Some PV_HUMAN\<rparr>"
    by code_simp
  show ?thesis using model_ref_never_system_or_tool[OF e t] e t by blast
qed

end
