(* ===== verification/Evidence.thy ===== *)
theory Evidence
  imports Semantic_Base
begin

text \<open>
  The evidence state of one proposition: \<open>contracts/evidence_state.py\<close> (four-valued truth,
  support counts, observations, evidence entries and snapshots, validity witnesses) and the
  trusted predicate registry of \<open>knowledge/predicates.py\<close>.

  A dataclass is a record and its \<open>__post_init__\<close> is a \<open>check_*\<close> function on the record that
  returns it or the first \<open>ContractError\<close>; the checks that only establish a Python type are
  discharged by the record's type. \<open>SupportCount\<close> is built through \<open>support_count\<close>
  everywhere, since the source validates every sum it forms.
\<close>

section \<open>Dimensions\<close>

datatype TruthValue = TV_TRUE | TV_FALSE | TV_UNKNOWN | TV_CONFLICT
datatype Validity = VA_CURRENT | VA_STALE | VA_REVOKED
datatype Availability = AV_READABLE | AV_REDACTED | AV_UNAVAILABLE
datatype PreconditionPhase = PH_SELECT | PH_MAINTAIN | PH_ACCEPT
datatype TemporalUse = TU_HISTORICAL_AS_OF | TU_CURRENT_AT_USE | TU_CONTINUOUS
datatype QueryCompleteness = QC_AUTHORITATIVE_WITH_SCOPE | QC_BEST_EFFORT | QC_UNKNOWN

datatype WitnessPurpose =
  WP_PLAN | WP_START | WP_MAINTAIN | WP_ACCEPT | WP_CONTEXT | WP_DISCLOSE | WP_RECOVERY
datatype WitnessDecision = WD_USABLE | WD_NEEDS_REVIEW | WD_BLOCKED | WD_UNAVAILABLE
datatype RecheckOutcome =
  RC_UNCHANGED | RC_REBOUND_SUPPORT | RC_NEEDS_REVIEW | RC_INVALID | RC_UNAVAILABLE

fun str_PreconditionPhase :: "PreconditionPhase \<Rightarrow> string" where
  "str_PreconditionPhase PH_SELECT = ''SELECT''"
| "str_PreconditionPhase PH_MAINTAIN = ''MAINTAIN''"
| "str_PreconditionPhase PH_ACCEPT = ''ACCEPT''"

definition all_PreconditionPhase :: "PreconditionPhase list" where
  "all_PreconditionPhase = [PH_SELECT, PH_MAINTAIN, PH_ACCEPT]"

definition phase_aliases :: "(string \<times> PreconditionPhase) list" where
  "phase_aliases = [(''START'', PH_SELECT), (''SELECT/START'', PH_SELECT)]"

definition parse_phase :: "json \<Rightarrow> string \<Rightarrow> contract_error + PreconditionPhase" where
  "parse_phase v name =
     (case v of
        JStr s \<Rightarrow> (case map_of phase_aliases s of
            Some p \<Rightarrow> Inr p
          | None \<Rightarrow> decode_enum all_PreconditionPhase str_PreconditionPhase v name)
      | _ \<Rightarrow> decode_enum all_PreconditionPhase str_PreconditionPhase v name)"

definition phase_check_points :: "PreconditionPhase option \<Rightarrow> PreconditionPhase list" where
  "phase_check_points declared =
     (case declared of None \<Rightarrow> [PH_SELECT, PH_ACCEPT] | Some p \<Rightarrow> [p])"

section \<open>Support counts\<close>

record SupportCount =
  sc_t :: int
  sc_f :: int

definition support_count :: "int \<Rightarrow> int \<Rightarrow> contract_error + SupportCount" where
  "support_count t f =
     rbind (index_min 0 (JInt t) ''support.t'') (\<lambda>t'.
     rbind (index_min 0 (JInt f) ''support.f'') (\<lambda>f'. Inr \<lparr>sc_t = t', sc_f = f'\<rparr>))"

definition sc_truth :: "SupportCount \<Rightarrow> TruthValue" where
  "sc_truth s =
     (if 0 < sc_t s \<and> 0 < sc_f s then TV_CONFLICT
      else if 0 < sc_t s then TV_TRUE
      else if 0 < sc_f s then TV_FALSE
      else TV_UNKNOWN)"

definition sc_merge :: "SupportCount \<Rightarrow> SupportCount \<Rightarrow> contract_error + SupportCount" where
  "sc_merge a b = support_count (sc_t a + sc_t b) (sc_f a + sc_f b)"

definition sc_negate :: "SupportCount \<Rightarrow> contract_error + SupportCount" where
  "sc_negate a = support_count (sc_f a) (sc_t a)"

definition SupportCount_to_json :: "SupportCount \<Rightarrow> json" where
  "SupportCount_to_json s = JObj [(''t'', JInt (sc_t s)), (''f'', JInt (sc_f s))]"

definition SupportCount_from_json :: "json \<Rightarrow> string \<Rightarrow> contract_error + SupportCount" where
  "SupportCount_from_json v name =
     rbind (fields_of v name [''t'', ''f''] []) (\<lambda>d.
     rbind (index_min 0 (field d ''t'') ''support.t'') (\<lambda>t'.
     rbind (index_min 0 (field d ''f'') ''support.f'') (\<lambda>f'. Inr \<lparr>sc_t = t', sc_f = f'\<rparr>)))"

definition NO_SUPPORT :: SupportCount where "NO_SUPPORT = \<lparr>sc_t = 0, sc_f = 0\<rparr>"
definition POSITIVE_SUPPORT :: SupportCount where "POSITIVE_SUPPORT = \<lparr>sc_t = 1, sc_f = 0\<rparr>"
definition NEGATIVE_SUPPORT :: SupportCount where "NEGATIVE_SUPPORT = \<lparr>sc_t = 0, sc_f = 1\<rparr>"

section \<open>Observations\<close>

record ObservationRecord =
  ob_observation_id :: string
  ob_proposition_key :: string
  ob_polarity :: bool
  ob_source_ref :: TypedRef
  ob_observed_at_ms :: int
  ob_recorded_at_ms :: int
  ob_coverage :: QueryCompleteness
  ob_coverage_scope :: "string option"
  ob_query_watermark_ms :: "int option"
  ob_valid_from_ms :: "int option"
  ob_valid_until_ms :: "int option"
  ob_observer_version :: "string option"
  ob_observer_id :: "string option"

definition opt_id :: "string option \<Rightarrow> string \<Rightarrow> contract_error + unit" where
  "opt_id v name = (case v of None \<Rightarrow> Inr () | Some s \<Rightarrow> rbind (identifier_of (JStr s) name) (\<lambda>_. Inr ()))"

definition opt_ix :: "int \<Rightarrow> int option \<Rightarrow> string \<Rightarrow> contract_error + unit" where
  "opt_ix m v name = (case v of None \<Rightarrow> Inr () | Some n \<Rightarrow> rbind (index_min m (JInt n) name) (\<lambda>_. Inr ()))"

definition check_ObservationRecord :: "ObservationRecord \<Rightarrow> contract_error + ObservationRecord" where
  "check_ObservationRecord ob =
     rbind (identifier_of (JStr (ob_observation_id ob)) ''observation.observation_id'') (\<lambda>_.
     rbind (identifier_of (JStr (ob_proposition_key ob)) ''observation.proposition_key'') (\<lambda>_.
     rbind (index_min 0 (JInt (ob_observed_at_ms ob)) ''observation.observed_at_ms'') (\<lambda>_.
     rbind (index_min 0 (JInt (ob_recorded_at_ms ob)) ''observation.recorded_at_ms'') (\<lambda>_.
     rbind (opt_id (ob_coverage_scope ob) ''observation.coverage_scope'') (\<lambda>_.
     rbind (opt_ix 0 (ob_query_watermark_ms ob) ''observation.query_watermark_ms'') (\<lambda>_.
     rbind (opt_ix 0 (ob_valid_from_ms ob) ''observation.valid_from_ms'') (\<lambda>_.
     rbind (opt_ix 0 (ob_valid_until_ms ob) ''observation.valid_until_ms'') (\<lambda>_.
     rbind (case (ob_valid_until_ms ob, ob_valid_from_ms ob) of
              (Some u, Some f) \<Rightarrow>
                if u < f then Inl (CE_rule ''observation.valid_until_ms precedes valid_from_ms'') else Inr ()
            | _ \<Rightarrow> Inr ()) (\<lambda>_.
     rbind (opt_id (ob_observer_version ob) ''observation.observer_version'') (\<lambda>_.
     rbind (opt_id (ob_observer_id ob) ''observation.observer_id'') (\<lambda>_.
     Inr ob)))))))))))"

definition is_authoritative_negative :: "ObservationRecord \<Rightarrow> bool" where
  "is_authoritative_negative ob \<longleftrightarrow>
     \<not> ob_polarity ob \<and> ob_coverage ob = QC_AUTHORITATIVE_WITH_SCOPE \<and>
     ob_query_watermark_ms ob \<noteq> None \<and> ob_coverage_scope ob \<noteq> None"

definition ob_support :: "ObservationRecord \<Rightarrow> SupportCount" where
  "ob_support ob =
     (if ob_polarity ob then POSITIVE_SUPPORT
      else if is_authoritative_negative ob then NEGATIVE_SUPPORT else NO_SUPPORT)"

section \<open>Evidence entries and snapshots\<close>

record EvidenceEntry =
  en_proposition_key :: string
  en_support :: SupportCount
  en_validity :: Validity
  en_availability :: Availability
  en_observation_refs :: "TypedRef list"
  en_authoritative_negative :: bool
  en_not_after_ms :: "int option"

definition check_EvidenceEntry :: "EvidenceEntry \<Rightarrow> contract_error + EvidenceEntry" where
  "check_EvidenceEntry en =
     rbind (identifier_of (JStr (en_proposition_key en)) ''entry.proposition_key'') (\<lambda>_.
     if MAX_LIST < length (en_observation_refs en) then Inl (CE_count ''entry.observation_refs'')
     else
     rbind (opt_ix 0 (en_not_after_ms en) ''entry.not_after_ms'') (\<lambda>_.
     if 0 < sc_f (en_support en) \<and> \<not> en_authoritative_negative en \<and> en_observation_refs en = []
     then Inl (CE_rule ''entry.support.f requires a recorded counter-observation'')
     else Inr en))"

fun fold_observations ::
  "string \<Rightarrow> ObservationRecord list \<Rightarrow> SupportCount \<Rightarrow> bool \<Rightarrow> contract_error + (SupportCount \<times> bool)" where
  "fold_observations key [] support neg = Inr (support, neg)"
| "fold_observations key (ob # obs) support neg =
     (if ob_proposition_key ob \<noteq> key
      then Inl (CE_rule ''observation belongs to a different proposition'')
      else rbind (sc_merge support (ob_support ob))
             (\<lambda>s. fold_observations key obs s (neg \<or> is_authoritative_negative ob)))"

definition from_observations ::
  "string \<Rightarrow> ObservationRecord list \<Rightarrow> Validity \<Rightarrow> Availability \<Rightarrow> int option
    \<Rightarrow> contract_error + EvidenceEntry" where
  "from_observations key obs validity availability not_after =
     rbind (fold_observations key obs NO_SUPPORT False) (\<lambda>(support, neg).
     check_EvidenceEntry
       \<lparr>en_proposition_key = key, en_support = support, en_validity = validity,
        en_availability = availability, en_observation_refs = map ob_source_ref obs,
        en_authoritative_negative = neg, en_not_after_ms = not_after\<rparr>)"

definition en_truth :: "EvidenceEntry \<Rightarrow> int option \<Rightarrow> TruthValue" where
  "en_truth en now_ms =
     (if en_validity en \<noteq> VA_CURRENT then TV_UNKNOWN
      else if en_availability en \<noteq> AV_READABLE then TV_UNKNOWN
      else if (case (now_ms, en_not_after_ms en) of (Some n, Some d) \<Rightarrow> d < n | _ \<Rightarrow> False)
      then TV_UNKNOWN
      else sc_truth (en_support en))"

record EvidenceSnapshot =
  sn_snapshot_id :: string
  sn_as_of_ms :: int
  sn_scope_id :: string
  sn_scope_epoch :: int
  sn_support_revision :: int
  sn_entries :: "EvidenceEntry list"

definition check_EvidenceSnapshot :: "EvidenceSnapshot \<Rightarrow> contract_error + EvidenceSnapshot" where
  "check_EvidenceSnapshot sn =
     rbind (identifier_of (JStr (sn_snapshot_id sn)) ''snapshot.snapshot_id'') (\<lambda>_.
     rbind (index_min 0 (JInt (sn_as_of_ms sn)) ''snapshot.as_of_ms'') (\<lambda>_.
     rbind (identifier_of (JStr (sn_scope_id sn)) ''snapshot.scope_id'') (\<lambda>_.
     rbind (index_min 0 (JInt (sn_scope_epoch sn)) ''snapshot.scope_epoch'') (\<lambda>_.
     rbind (index_min 0 (JInt (sn_support_revision sn)) ''snapshot.support_revision'') (\<lambda>_.
     if 4 * MAX_LIST < length (sn_entries sn) then Inl (CE_count ''snapshot.entries'')
     else if \<not> distinct (map en_proposition_key (sn_entries sn))
     then Inl (CE_duplicate ''snapshot.entries'')
     else Inr sn)))))"

definition sn_lookup :: "EvidenceSnapshot \<Rightarrow> string \<Rightarrow> EvidenceEntry option" where
  "sn_lookup sn key = find (\<lambda>en. en_proposition_key en = key) (sn_entries sn)"

definition merge_observations :: "ObservationRecord list \<Rightarrow> contract_error + SupportCount" where
  "merge_observations obs =
     (if 1 < length (remdups (map ob_proposition_key obs))
      then Inl (CE_rule ''merge_observations needs a single proposition key'')
      else foldl (\<lambda>acc ob. rbind acc (\<lambda>s. sc_merge s (ob_support ob))) (Inr NO_SUPPORT) obs)"

section \<open>Validity witnesses\<close>

record ValidityWitness =
  vw_witness_id :: string
  vw_consumer_ref :: TypedRef
  vw_purpose :: WitnessPurpose
  vw_truth :: TruthValue
  vw_freshness :: Validity
  vw_availability :: Availability
  vw_decision :: WitnessDecision
  vw_scope_id :: string
  vw_scope_epoch :: int
  vw_support_revision :: int
  vw_as_of_ms :: int
  vw_not_after_ms :: "int option"
  vw_support_refs :: "TypedRef list"
  vw_reason_codes :: "string list"

definition check_ValidityWitness :: "ValidityWitness \<Rightarrow> contract_error + ValidityWitness" where
  "check_ValidityWitness w =
     rbind (identifier_of (JStr (vw_witness_id w)) ''witness.witness_id'') (\<lambda>_.
     rbind (identifier_of (JStr (vw_scope_id w)) ''witness.scope_id'') (\<lambda>_.
     rbind (index_min 0 (JInt (vw_scope_epoch w)) ''witness.scope_epoch'') (\<lambda>_.
     rbind (index_min 0 (JInt (vw_support_revision w)) ''witness.support_revision'') (\<lambda>_.
     rbind (index_min 0 (JInt (vw_as_of_ms w)) ''witness.as_of_ms'') (\<lambda>_.
     rbind (opt_ix 0 (vw_not_after_ms w) ''witness.not_after_ms'') (\<lambda>_.
     if MAX_LIST < length (vw_support_refs w) then Inl (CE_count ''witness.support_refs'')
     else
     rbind (for_each (\<lambda>c. rbind (text_limit 512 (JStr c) ''witness.reason_codes'') (\<lambda>_. Inr ()))
              (vw_reason_codes w)) (\<lambda>_.
     if MAX_LIST < length (vw_reason_codes w) then Inl (CE_count ''witness.reason_codes'')
     else if vw_decision w = WD_USABLE \<and> vw_truth w \<noteq> TV_TRUE
     then Inl (CE_rule ''witness.decision USABLE requires truth TRUE'')
     else if vw_decision w = WD_USABLE \<and> vw_freshness w \<noteq> VA_CURRENT
     then Inl (CE_rule ''witness.decision USABLE requires freshness CURRENT'')
     else if vw_decision w = WD_USABLE \<and> vw_availability w \<noteq> AV_READABLE
     then Inl (CE_rule ''witness.decision USABLE requires availability READABLE'')
     else Inr w)))))))"

definition is_fresh_for :: "ValidityWitness \<Rightarrow> int \<Rightarrow> int \<Rightarrow> bool" where
  "is_fresh_for w now_ms current_scope_epoch =
     (if vw_scope_epoch w \<noteq> current_scope_epoch then False
      else if (case vw_not_after_ms w of Some d \<Rightarrow> d \<le> now_ms | None \<Rightarrow> False) then False
      else vw_freshness w = VA_CURRENT)"

section \<open>Predicates\<close>

datatype WorldAssumption = WA_OPEN | WA_CLOSED
datatype ArgumentType = AT_STRING | AT_INTEGER | AT_NUMBER | AT_BOOLEAN | AT_REF

fun type_check :: "ArgumentType \<Rightarrow> json \<Rightarrow> bool" where
  "type_check AT_STRING v = (case v of JStr s \<Rightarrow> True | _ \<Rightarrow> False)"
| "type_check AT_INTEGER v = (case v of JInt n \<Rightarrow> True | _ \<Rightarrow> False)"
| "type_check AT_NUMBER v = (case v of JInt n \<Rightarrow> True | JFloat x \<Rightarrow> True | _ \<Rightarrow> False)"
| "type_check AT_BOOLEAN v = (case v of JBool b \<Rightarrow> True | _ \<Rightarrow> False)"
| "type_check AT_REF v = (case v of JStr s \<Rightarrow> strip s \<noteq> [] | _ \<Rightarrow> False)"

record PredicateParameter =
  pp_name :: string
  pp_type :: ArgumentType
  pp_required :: bool

record PredicateSignature =
  ps_predicate_ref :: VersionedRef
  ps_parameters :: "PredicateParameter list"
  ps_world_assumption :: WorldAssumption
  ps_observer_ids :: "string list"
  ps_temporal_use :: TemporalUse
  ps_authority_scope :: "string option"
  ps_statement :: "string option"

definition check_PredicateSignature :: "PredicateSignature \<Rightarrow> contract_error + PredicateSignature" where
  "check_PredicateSignature s =
     (if \<not> distinct (map pp_name (ps_parameters s)) then Inl (CE_duplicate ''signature.parameters'')
      else
      rbind (for_each (\<lambda>i. rbind (identifier_of (JStr i) ''signature.observer_ids[]'') (\<lambda>_. Inr ()))
               (ps_observer_ids s)) (\<lambda>_.
      if \<not> distinct (ps_observer_ids s) then Inl (CE_duplicate ''signature.observer_ids'')
      else
      rbind (opt_id (ps_authority_scope s) ''signature.authority_scope'') (\<lambda>_.
      rbind (case ps_statement s of None \<Rightarrow> Inr ()
             | Some t \<Rightarrow> rbind (text_limit MAX_TEXT (JStr t) ''signature.statement'') (\<lambda>_. Inr ())) (\<lambda>_.
      if ps_world_assumption s = WA_CLOSED \<and> ps_observer_ids s = []
      then Inl (CE_rule ''a CLOSED-world predicate needs at least one authoritative observer'')
      else Inr s))))"

fun str_WorldAssumption :: "WorldAssumption \<Rightarrow> string" where
  "str_WorldAssumption WA_OPEN = ''OPEN''"
| "str_WorldAssumption WA_CLOSED = ''CLOSED''"

fun str_ArgumentType :: "ArgumentType \<Rightarrow> string" where
  "str_ArgumentType AT_STRING = ''string''"
| "str_ArgumentType AT_INTEGER = ''integer''"
| "str_ArgumentType AT_NUMBER = ''number''"
| "str_ArgumentType AT_BOOLEAN = ''boolean''"
| "str_ArgumentType AT_REF = ''ref''"

fun str_TemporalUse :: "TemporalUse \<Rightarrow> string" where
  "str_TemporalUse TU_HISTORICAL_AS_OF = ''HISTORICAL_AS_OF''"
| "str_TemporalUse TU_CURRENT_AT_USE = ''CURRENT_AT_USE''"
| "str_TemporalUse TU_CONTINUOUS = ''CONTINUOUS''"

definition json_of_option :: "string option \<Rightarrow> json" where
  "json_of_option v = (case v of None \<Rightarrow> JNull | Some s \<Rightarrow> JStr s)"

definition PredicateParameter_to_json :: "PredicateParameter \<Rightarrow> json" where
  "PredicateParameter_to_json p =
     JObj [(''name'', JStr (pp_name p)), (''type'', JStr (str_ArgumentType (pp_type p))),
           (''required'', JBool (pp_required p))]"

definition PredicateSignature_to_json :: "PredicateSignature \<Rightarrow> json" where
  "PredicateSignature_to_json s =
     JObj [(''predicate_ref'', VersionedRef_to_json (ps_predicate_ref s)),
           (''parameters'', JList (map PredicateParameter_to_json (ps_parameters s))),
           (''world_assumption'', JStr (str_WorldAssumption (ps_world_assumption s))),
           (''observer_ids'', JList (map JStr (ps_observer_ids s))),
           (''temporal_use'', JStr (str_TemporalUse (ps_temporal_use s))),
           (''authority_scope'', json_of_option (ps_authority_scope s)),
           (''statement'', json_of_option (ps_statement s))]"

definition ps_key :: "PredicateSignature \<Rightarrow> string \<times> int" where
  "ps_key s = (vr_id (ps_predicate_ref s), vr_version (ps_predicate_ref s))"

record ArgumentCheck =
  ac_missing :: "string list"
  ac_unknown :: "string list"
  ac_wrong_type :: "string list"

definition ac_ok :: "ArgumentCheck \<Rightarrow> bool" where
  "ac_ok c = (\<not> (ac_missing c \<noteq> [] \<or> ac_unknown c \<noteq> [] \<or> ac_wrong_type c \<noteq> []))"

type_synonym PredicateRegistry = "((string \<times> int) \<times> PredicateSignature) list"

definition registry_register ::
  "PredicateRegistry \<Rightarrow> PredicateSignature \<Rightarrow> contract_error + PredicateRegistry" where
  "registry_register reg s =
     rbind (reject_executable (PredicateSignature_to_json s) ''predicate_signature'') (\<lambda>_.
     case map_of reg (ps_key s) of
       Some existing \<Rightarrow>
         if vr_content_hash (ps_predicate_ref existing) \<noteq> vr_content_hash (ps_predicate_ref s)
         then Inl (CE_rule ''already registered with different content'')
         else Inr reg
     | None \<Rightarrow> Inr (dict_set (ps_key s) s reg))"

definition registry_resolve :: "PredicateRegistry \<Rightarrow> VersionedRef \<Rightarrow> PredicateSignature option" where
  "registry_resolve reg ref =
     (case map_of reg (vr_id ref, vr_version ref) of
        None \<Rightarrow> None
      | Some s \<Rightarrow>
          if vr_content_hash (ps_predicate_ref s) \<noteq> vr_content_hash ref then None else Some s)"

definition registry_require ::
  "PredicateRegistry \<Rightarrow> VersionedRef \<Rightarrow> contract_error + PredicateSignature" where
  "registry_require reg ref =
     (case registry_resolve reg ref of
        None \<Rightarrow> Inl (CE_rule ''predicate is not registered at that content hash'')
      | Some s \<Rightarrow> Inr s)"

definition check_arguments :: "PredicateSignature \<Rightarrow> (string \<times> json) list \<Rightarrow> ArgumentCheck" where
  "check_arguments s arguments =
     (let declared = map (\<lambda>p. (pp_name p, p)) (ps_parameters s) in
      \<lparr>ac_missing = sort (map fst (filter
          (\<lambda>(name, p). pp_required p \<and> name \<notin> set (dict_keys arguments)) declared)),
       ac_unknown = sort (filter (\<lambda>name. map_of declared name = None) (dict_keys arguments)),
       ac_wrong_type = sort (map fst (filter
          (\<lambda>(name, v). case map_of declared name of None \<Rightarrow> False | Some p \<Rightarrow> \<not> type_check (pp_type p) v)
          arguments))\<rparr>)"

definition closed_world_denial_admissible :: "PredicateSignature \<Rightarrow> EvidenceEntry option \<Rightarrow> bool" where
  "closed_world_denial_admissible s entry =
     (if ps_world_assumption s \<noteq> WA_CLOSED then False
      else case entry of
        None \<Rightarrow> False
      | Some en \<Rightarrow> en_authoritative_negative en \<and> 0 < sc_f (en_support en))"

definition atom_truth :: "PredicateSignature \<Rightarrow> EvidenceEntry option \<Rightarrow> int option \<Rightarrow> TruthValue" where
  "atom_truth s entry now_ms =
     (case entry of None \<Rightarrow> TV_UNKNOWN | Some en \<Rightarrow> en_truth en now_ms)"

definition authoritative_negative_matches_observer ::
  "PredicateSignature \<Rightarrow> ObservationRecord \<Rightarrow> bool" where
  "authoritative_negative_matches_observer s ob =
     (if \<not> is_authoritative_negative ob then False
      else if ps_world_assumption s \<noteq> WA_CLOSED then False
      else case ob_observer_id ob of
        None \<Rightarrow> False
      | Some i \<Rightarrow> i \<in> set (ps_observer_ids s))"

section \<open>Facts about merging\<close>

definition positives :: "ObservationRecord list \<Rightarrow> nat" where
  "positives obs = length (filter ob_polarity obs)"

definition denials :: "ObservationRecord list \<Rightarrow> nat" where
  "denials obs = length (filter is_authoritative_negative obs)"

lemma denial_not_positive: "is_authoritative_negative ob \<Longrightarrow> \<not> ob_polarity ob"
  by (simp add: is_authoritative_negative_def)

lemma support_count_ok [result_simps]:
  "support_count t f = Inr s \<longleftrightarrow>
     s = \<lparr>sc_t = t, sc_f = f\<rparr> \<and> 0 \<le> t \<and> t \<le> MAX_JSON_INT \<and> 0 \<le> f \<and> f \<le> MAX_JSON_INT"
  by (auto simp: support_count_def result_simps)

lemma sc_merge_observation:
  "sc_merge s (ob_support ob) =
     support_count (sc_t s + (if ob_polarity ob then 1 else 0))
       (sc_f s + (if is_authoritative_negative ob then 1 else 0))"
  by (auto simp: sc_merge_def ob_support_def POSITIVE_SUPPORT_def NEGATIVE_SUPPORT_def NO_SUPPORT_def
      dest: denial_not_positive)

lemma fold_observations_returns:
  assumes "\<forall>ob\<in>set obs. ob_proposition_key ob = key"
    and "0 \<le> sc_t s" and "0 \<le> sc_f s"
    and "sc_t s + int (length obs) \<le> MAX_JSON_INT" and "sc_f s + int (length obs) \<le> MAX_JSON_INT"
  shows "fold_observations key obs s neg =
    Inr (\<lparr>sc_t = sc_t s + int (positives obs), sc_f = sc_f s + int (denials obs)\<rparr>,
         neg \<or> 0 < denials obs)"
  using assms
proof (induction obs arbitrary: s neg)
  case Nil
  then show ?case by (simp add: positives_def denials_def)
next
  case (Cons ob obs)
  let ?s = "\<lparr>sc_t = sc_t s + (if ob_polarity ob then 1 else 0),
             sc_f = sc_f s + (if is_authoritative_negative ob then 1 else 0)\<rparr>"
  have "sc_merge s (ob_support ob) = Inr ?s"
    using Cons.prems unfolding sc_merge_observation by (simp only: support_count_ok) auto
  then show ?case
    using Cons.prems Cons.IH[of ?s "neg \<or> is_authoritative_negative ob"]
    by (auto simp: positives_def denials_def)
qed

lemma positives_pos: "0 < positives obs \<longleftrightarrow> (\<exists>ob\<in>set obs. ob_polarity ob)"
  by (auto simp: positives_def filter_empty_conv)

lemma denials_pos: "0 < denials obs \<longleftrightarrow> (\<exists>ob\<in>set obs. is_authoritative_negative ob)"
  by (auto simp: denials_def filter_empty_conv)

section \<open>Registry facts\<close>

lemma register_extends:
  assumes "registry_register reg s = Inr reg'"
  shows "map_of reg k = Some x \<Longrightarrow> map_of reg' k = Some x"
  using assms by (auto simp: registry_register_def result_simps split: option.splits if_splits)

lemma register_resolves:
  assumes "registry_register reg s = Inr reg'"
  shows "\<exists>x. registry_resolve reg' (ps_predicate_ref s) = Some x \<and> ps_predicate_ref x =
    (ps_predicate_ref x)\<lparr>vr_content_hash := vr_content_hash (ps_predicate_ref s)\<rparr>"
  using assms
  by (auto simp: registry_register_def registry_resolve_def result_simps ps_key_def
      split: option.splits if_splits)

fun register_all :: "PredicateRegistry \<Rightarrow> PredicateSignature list \<Rightarrow> contract_error + PredicateRegistry" where
  "register_all reg [] = Inr reg"
| "register_all reg (s # ss) = rbind (registry_register reg s) (\<lambda>r. register_all r ss)"

section \<open>Properties\<close>

text \<open>A counter-observation is never outvoted, and an unanswered lookup never denies. Merging
  up to 256 observations of one proposition always yields an entry, and its current conclusion
  is decided by existence alone: CONFLICT as soon as one positive and one authoritative negative
  observation are present whatever their numbers, TRUE or FALSE when only one side is present,
  and UNKNOWN otherwise; a negative observation without authoritative scope and watermark counts
  for nothing.\<close>

theorem merged_truth_by_existence:
  assumes "\<forall>ob\<in>set obs. ob_proposition_key ob = key" and "length obs \<le> MAX_LIST"
    and "identifier_of (JStr key) ''entry.proposition_key'' = Inr key"
  shows "\<exists>en. from_observations key obs VA_CURRENT AV_READABLE None = Inr en \<and>
    en_truth en now =
      (if (\<exists>ob\<in>set obs. ob_polarity ob) \<and> (\<exists>ob\<in>set obs. is_authoritative_negative ob) then TV_CONFLICT
       else if (\<exists>ob\<in>set obs. ob_polarity ob) then TV_TRUE
       else if (\<exists>ob\<in>set obs. is_authoritative_negative ob) then TV_FALSE
       else TV_UNKNOWN)"
proof -
  have len: "int (length obs) \<le> MAX_JSON_INT"
    using assms(2) by (simp add: MAX_LIST_def MAX_JSON_INT_def)
  have fold: "fold_observations key obs NO_SUPPORT False =
      Inr (\<lparr>sc_t = int (positives obs), sc_f = int (denials obs)\<rparr>, 0 < denials obs)"
    using fold_observations_returns[of obs key NO_SUPPORT False] assms(1) len
    by (simp add: NO_SUPPORT_def)
  have "from_observations key obs VA_CURRENT AV_READABLE None =
      Inr \<lparr>en_proposition_key = key,
        en_support = \<lparr>sc_t = int (positives obs), sc_f = int (denials obs)\<rparr>,
        en_validity = VA_CURRENT, en_availability = AV_READABLE,
        en_observation_refs = map ob_source_ref obs, en_authoritative_negative = (0 < denials obs),
        en_not_after_ms = None\<rparr>"
    using assms(2,3) by (auto simp: from_observations_def fold check_EvidenceEntry_def opt_ix_def)
  then show ?thesis
    by (auto simp: en_truth_def sc_truth_def positives_pos[symmetric] denials_pos[symmetric]
        split: option.splits)
qed

definition sample_observation :: "string \<Rightarrow> bool \<Rightarrow> QueryCompleteness \<Rightarrow> ObservationRecord" where
  "sample_observation i pol cov =
     \<lparr>ob_observation_id = i, ob_proposition_key = ''p'', ob_polarity = pol,
      ob_source_ref = \<lparr>r_kind = TR_OBSERVATION, r_id = i, r_revision = 0,
        r_content_hash = replicate 64 (CHR ''0''), r_produced_by = None\<rparr>,
      ob_observed_at_ms = 10, ob_recorded_at_ms = 11, ob_coverage = cov,
      ob_coverage_scope = Some ''s'', ob_query_watermark_ms = Some 10, ob_valid_from_ms = None,
      ob_valid_until_ms = None, ob_observer_version = None, ob_observer_id = Some ''o''\<rparr>"

theorem merged_truth_by_existence_witness:
  "\<exists>en. from_observations ''p''
       [sample_observation ''a'' True QC_BEST_EFFORT, sample_observation ''b'' True QC_BEST_EFFORT,
        sample_observation ''c'' False QC_AUTHORITATIVE_WITH_SCOPE]
       VA_CURRENT AV_READABLE None = Inr en \<and> en_truth en None = TV_CONFLICT"
proof -
  let ?obs = "[sample_observation ''a'' True QC_BEST_EFFORT, sample_observation ''b'' True QC_BEST_EFFORT,
        sample_observation ''c'' False QC_AUTHORITATIVE_WITH_SCOPE]"
  have "identifier_of (JStr ''p'') ''entry.proposition_key'' = Inr ''p''" by code_simp
  then show ?thesis
    using merged_truth_by_existence[of ?obs "''p''" None]
    by (simp add: sample_observation_def MAX_LIST_def is_authoritative_negative_def)
qed

text \<open>A registered predicate is immutable. Whatever further declarations are registered, a
  reference that resolved keeps resolving to the same declaration, and a reference resolves only
  to a declaration with its exact content hash.\<close>

theorem registry_is_append_only:
  assumes "register_all reg ss = Inr reg'" and "registry_resolve reg ref = Some s"
  shows "registry_resolve reg' ref = Some s \<and>
    vr_content_hash (ps_predicate_ref s) = vr_content_hash ref"
proof -
  have keep: "map_of reg k = Some x \<Longrightarrow> map_of reg' k = Some x" for k x
    using assms(1)
    by (induction ss arbitrary: reg) (auto simp: result_simps dest: register_extends)
  from assms(2) keep show ?thesis
    by (auto simp: registry_resolve_def split: option.splits if_splits)
qed

definition sample_signature :: "string \<Rightarrow> PredicateSignature" where
  "sample_signature i =
     \<lparr>ps_predicate_ref = \<lparr>vr_id = i, vr_version = 1, vr_content_hash = replicate 64 (CHR ''1'')\<rparr>,
      ps_parameters = [\<lparr>pp_name = ''x'', pp_type = AT_INTEGER, pp_required = True\<rparr>],
      ps_world_assumption = WA_CLOSED, ps_observer_ids = [''o''], ps_temporal_use = TU_CURRENT_AT_USE,
      ps_authority_scope = None, ps_statement = None\<rparr>"

theorem registry_is_append_only_witness:
  "\<exists>reg reg'. register_all [] [sample_signature ''p''] = Inr reg \<and>
     register_all reg [sample_signature ''q'', sample_signature ''p''] = Inr reg' \<and>
     registry_resolve reg' (ps_predicate_ref (sample_signature ''p'')) = Some (sample_signature ''p'')"
proof -
  let ?p = "sample_signature ''p''" and ?q = "sample_signature ''q''"
  have a: "register_all [] [?p] = Inr [((''p'', 1), ?p)]" by code_simp
  have b: "register_all [((''p'', 1), ?p)] [?q, ?p] = Inr [((''p'', 1), ?p), ((''q'', 1), ?q)]"
    by code_simp
  have c: "registry_resolve [((''p'', 1), ?p)] (ps_predicate_ref ?p) = Some ?p" by code_simp
  show ?thesis using a b registry_is_append_only[OF b c] by blast
qed

end
