(* ===== verification/Support_Graph.thy ===== *)
theory Support_Graph
  imports Evidence
begin

text \<open>
  The vocabulary of \<open>knowledge/justifications.py\<close> up to the fixpoint: polarised atoms,
  premises, rule conditions, justification sets with their codec, and the support graph.

  The signature of a group is \<open>content_hash_of(self.to_json())\<close>, a SHA-256 over canonical JSON.
  The hash function is the parameter \<open>H\<close> of every definition that needs it; nothing is assumed
  of it except where a statement says so.
\<close>

section \<open>Polarity and atoms\<close>

datatype Polarity = POSITIVE | NEGATIVE

fun str_Polarity :: "Polarity \<Rightarrow> string" where
  "str_Polarity POSITIVE = ''POSITIVE''"
| "str_Polarity NEGATIVE = ''NEGATIVE''"

definition all_Polarity :: "Polarity list" where
  "all_Polarity = [POSITIVE, NEGATIVE]"

fun opposite :: "Polarity \<Rightarrow> Polarity" where
  "opposite POSITIVE = NEGATIVE"
| "opposite NEGATIVE = POSITIVE"

definition polarity_aliases :: "(string \<times> Polarity) list" where
  "polarity_aliases =
     [(''+'', POSITIVE), (''-'', NEGATIVE), (''POSITIVE'', POSITIVE), (''NEGATIVE'', NEGATIVE)]"

definition parse_polarity :: "json \<Rightarrow> string \<Rightarrow> contract_error + Polarity" where
  "parse_polarity v name =
     (case v of
        JBool b \<Rightarrow> Inr (if b then POSITIVE else NEGATIVE)
      | JStr s \<Rightarrow> (case map_of polarity_aliases s of
            Some p \<Rightarrow> Inr p
          | None \<Rightarrow> decode_enum all_Polarity str_Polarity v name)
      | _ \<Rightarrow> decode_enum all_Polarity str_Polarity v name)"

record Atom =
  a_key :: string
  a_polarity :: Polarity

definition make_Atom :: "json \<Rightarrow> json \<Rightarrow> contract_error + Atom" where
  "make_Atom k p =
     rbind (identifier_of k ''atom.key'') (\<lambda>k'.
     rbind (parse_polarity p ''atom.polarity'') (\<lambda>p'. Inr \<lparr>a_key = k', a_polarity = p'\<rparr>))"

definition negated :: "Atom \<Rightarrow> Atom" where
  "negated a = \<lparr>a_key = a_key a, a_polarity = opposite (a_polarity a)\<rparr>"

definition Atom_to_json :: "Atom \<Rightarrow> json" where
  "Atom_to_json a =
     JObj [(''key'', JStr (a_key a)), (''polarity'', JStr (str_Polarity (a_polarity a)))]"

definition Atom_from_json :: "json \<Rightarrow> string \<Rightarrow> contract_error + Atom" where
  "Atom_from_json v name =
     (case v of
        JStr s \<Rightarrow> make_Atom v (JStr ''POSITIVE'')
      | JObj d \<Rightarrow>
          (case map_of d ''key'' of
             None \<Rightarrow> Inl (CE_type name)
           | Some k \<Rightarrow> make_Atom k (dict_get d ''polarity'' (JStr ''POSITIVE'')))
      | _ \<Rightarrow> Inl (CE_type name))"

section \<open>Premises and conditions\<close>

datatype Premise = PropositionPremise Atom | EvidencePremise EvidenceRef

fun Premise_to_json :: "Premise \<Rightarrow> json" where
  "Premise_to_json (PropositionPremise a) =
     JObj [(''kind'', JStr ''proposition''), (''atom'', Atom_to_json a)]"
| "Premise_to_json (EvidencePremise r) =
     JObj [(''kind'', JStr ''evidence''), (''ref'', EvidenceRef_to_json r)]"

text \<open>\<open>value[k]\<close> on a mapping that may miss the key.\<close>

definition subscript :: "(string \<times> json) list \<Rightarrow> string \<Rightarrow> contract_error + json" where
  "subscript d k = (case map_of d k of None \<Rightarrow> Inl (PyKeyError k) | Some v \<Rightarrow> Inr v)"

definition parse_premise :: "json \<Rightarrow> string \<Rightarrow> contract_error + Premise" where
  "parse_premise v name =
     (case v of
        JStr s \<Rightarrow> rbind (Atom_from_json v name) (\<lambda>a. Inr (PropositionPremise a))
      | JObj d \<Rightarrow>
          (let kind = field d ''kind'' in
           if kind = JStr ''evidence'' then
             rbind (subscript d ''ref'') (\<lambda>r.
             rbind (EvidenceRef_from_json r (name @ ''.ref'')) (\<lambda>ref. Inr (EvidencePremise ref)))
           else if kind = JStr ''proposition'' then
             rbind (subscript d ''atom'') (\<lambda>a.
             rbind (Atom_from_json a (name @ ''.atom'')) (\<lambda>atom. Inr (PropositionPremise atom)))
           else Inl (CE_type name))
      | _ \<Rightarrow> Inl (CE_type name))"

record RuleCondition =
  cond_name :: string
  cond_defeasible :: bool

definition make_RuleCondition :: "json \<Rightarrow> bool \<Rightarrow> contract_error + RuleCondition" where
  "make_RuleCondition n d =
     rbind (identifier_of n ''condition.name'') (\<lambda>n'. Inr \<lparr>cond_name = n', cond_defeasible = d\<rparr>)"

definition RuleCondition_to_json :: "RuleCondition \<Rightarrow> json" where
  "RuleCondition_to_json c =
     JObj [(''name'', JStr (cond_name c)), (''defeasible'', JBool (cond_defeasible c))]"

definition RuleCondition_from_json :: "json \<Rightarrow> string \<Rightarrow> contract_error + RuleCondition" where
  "RuleCondition_from_json v name =
     (case v of
        JStr s \<Rightarrow> make_RuleCondition v False
      | JObj d \<Rightarrow>
          (case map_of d ''name'' of
             None \<Rightarrow> Inl (CE_type name)
           | Some n \<Rightarrow> make_RuleCondition n (truthy (dict_get d ''defeasible'' (JBool False))))
      | _ \<Rightarrow> Inl (CE_type name))"

section \<open>Justification sets\<close>

record JustificationSet =
  js_conclusion :: string
  js_polarity :: Polarity
  js_premises :: "Premise list"
  js_conditions :: "RuleCondition list"
  js_rule_version :: string
  js_receipt_ref :: "TypedRef option"
  js_source_group :: "string option"

text \<open>
  \<open>__post_init__\<close>. The premises and the conditions arrive as the result of the per-item parser
  of \<open>sequence_of\<close>, which is the identity on items that already are premises or conditions.
\<close>

definition bounded_items :: "nat \<Rightarrow> nat \<Rightarrow> string \<Rightarrow> contract_error + 'a list \<Rightarrow> contract_error + 'a list" where
  "bounded_items minimum limit name parsed =
     rbind parsed (\<lambda>items.
       if length items < minimum then Inl (CE_count name)
       else if limit < length items then Inl (CE_count name) else Inr items)"

definition make_JustificationSet ::
  "json \<Rightarrow> json \<Rightarrow> contract_error + Premise list \<Rightarrow> contract_error + RuleCondition list \<Rightarrow> json
    \<Rightarrow> TypedRef option \<Rightarrow> json \<Rightarrow> contract_error + JustificationSet" where
  "make_JustificationSet c p prems conds rv receipt sg =
     rbind (identifier_of c ''justification.conclusion'') (\<lambda>c'.
     rbind (parse_polarity p ''justification.polarity'') (\<lambda>p'.
     rbind (bounded_items 1 MAX_LIST ''justification.premises'' prems) (\<lambda>prems'.
     if \<not> distinct prems' then Inl (CE_duplicate ''justification.premises'') else
     rbind (bounded_items 0 MAX_LIST ''justification.conditions'' conds) (\<lambda>conds'.
     if \<not> distinct (map cond_name conds') then Inl (CE_duplicate ''justification.conditions'') else
     rbind (identifier_of rv ''justification.rule_version'') (\<lambda>rv'.
     rbind (optional_identifier sg ''justification.source_group'') (\<lambda>sg'.
     Inr \<lparr>js_conclusion = c', js_polarity = p', js_premises = prems', js_conditions = conds',
          js_rule_version = rv', js_receipt_ref = receipt, js_source_group = sg'\<rparr>))))))"

definition js_atom :: "JustificationSet \<Rightarrow> Atom" where
  "js_atom j = \<lparr>a_key = js_conclusion j, a_polarity = js_polarity j\<rparr>"

definition JustificationSet_to_json :: "JustificationSet \<Rightarrow> json" where
  "JustificationSet_to_json j =
     JObj [(''conclusion'', JStr (js_conclusion j)),
           (''polarity'', JStr (str_Polarity (js_polarity j))),
           (''premises'', JList (map Premise_to_json (js_premises j))),
           (''conditions'', JList (map RuleCondition_to_json (js_conditions j))),
           (''rule_version'', JStr (js_rule_version j)),
           (''receipt_ref'', case js_receipt_ref j of None \<Rightarrow> JNull | Some r \<Rightarrow> TypedRef_to_json r),
           (''source_group'', json_of_option (js_source_group j))]"

definition js_signature :: "(json \<Rightarrow> string) \<Rightarrow> JustificationSet \<Rightarrow> string" where
  "js_signature H j = H (JustificationSet_to_json j)"

definition JustificationSet_from_json :: "json \<Rightarrow> string \<Rightarrow> contract_error + JustificationSet" where
  "JustificationSet_from_json v name =
     (case v of
        JObj d \<Rightarrow>
          rbind (subscript d ''conclusion'') (\<lambda>c.
          rbind (tuple_of (dict_get d ''premises'' (JList []))) (\<lambda>prems.
          rbind (tuple_of (dict_get d ''conditions'' (JList []))) (\<lambda>conds.
          rbind (if field d ''receipt_ref'' = JNull then Inr None
                 else rbind (TypedRef_from_json (field d ''receipt_ref'') (name @ ''.receipt''))
                        (\<lambda>r. Inr (Some r))) (\<lambda>receipt.
          make_JustificationSet c (dict_get d ''polarity'' (JStr ''POSITIVE''))
            (map_result (\<lambda>x. parse_premise x ''justification.premises[]'') prems)
            (map_result (\<lambda>x. RuleCondition_from_json x ''justification.conditions[]'') conds)
            (dict_get d ''rule_version'' (JStr '''')) receipt (field d ''source_group'')))))
      | _ \<Rightarrow> Inl (CE_type name))"

section \<open>The support graph\<close>

record SupportGraph =
  sg_by_conclusion :: "(Atom \<times> JustificationSet list) list"
  sg_by_signature :: "(string \<times> JustificationSet) list"

fun sg_add_all ::
  "(json \<Rightarrow> string) \<Rightarrow> JustificationSet list \<Rightarrow> SupportGraph \<Rightarrow> contract_error + SupportGraph" where
  "sg_add_all H [] g = Inr g"
| "sg_add_all H (entry # rest) g =
     rbind (reject_executable (JustificationSet_to_json entry) ''justification_set'') (\<lambda>_.
     if js_signature H entry \<in> set (dict_keys (sg_by_signature g)) then sg_add_all H rest g
     else sg_add_all H rest
       \<lparr>sg_by_conclusion = dict_append (js_atom entry) entry (sg_by_conclusion g),
        sg_by_signature = dict_set (js_signature H entry) entry (sg_by_signature g)\<rparr>)"

definition support_graph :: "(json \<Rightarrow> string) \<Rightarrow> JustificationSet list \<Rightarrow> contract_error + SupportGraph" where
  "support_graph H entries = sg_add_all H entries \<lparr>sg_by_conclusion = [], sg_by_signature = []\<rparr>"

definition sg_length :: "SupportGraph \<Rightarrow> nat" where
  "sg_length g = length (sg_by_signature g)"

definition groups_for :: "SupportGraph \<Rightarrow> Atom \<Rightarrow> JustificationSet list" where
  "groups_for g a = dict_get (sg_by_conclusion g) a []"

definition justifications :: "(json \<Rightarrow> string) \<Rightarrow> SupportGraph \<Rightarrow> JustificationSet list" where
  "justifications H g =
     sort_key (\<lambda>e. (js_conclusion e, str_Polarity (js_polarity e), js_signature H e))
       (map snd (sg_by_signature g))"

definition signatures :: "SupportGraph \<Rightarrow> string list" where
  "signatures g = dict_keys (sg_by_signature g)"

definition conclusions :: "SupportGraph \<Rightarrow> Atom list" where
  "conclusions g = dict_keys (sg_by_conclusion g)"

definition with_justifications ::
  "(json \<Rightarrow> string) \<Rightarrow> SupportGraph \<Rightarrow> JustificationSet list \<Rightarrow> contract_error + SupportGraph" where
  "with_justifications H g extra = support_graph H (justifications H g @ extra)"

definition without_signature ::
  "(json \<Rightarrow> string) \<Rightarrow> SupportGraph \<Rightarrow> string \<Rightarrow> contract_error + SupportGraph" where
  "without_signature H g s =
     support_graph H (filter (\<lambda>e. js_signature H e \<noteq> s) (justifications H g))"

section \<open>Facts about the index\<close>

lemma sort_key_sorted_id: "sorted (map f xs) \<Longrightarrow> sort_key f xs = xs"
  by (induction xs) (auto simp: insort_is_Cons)

definition sg_entries :: "SupportGraph \<Rightarrow> JustificationSet list" where
  "sg_entries g = map snd (sg_by_signature g)"

definition plain_data :: "JustificationSet \<Rightarrow> bool" where
  "plain_data e \<longleftrightarrow> reject_executable (JustificationSet_to_json e) ''justification_set'' = Inr ()"

text \<open>The representation invariant of the two dictionaries.\<close>

definition sg_inv :: "(json \<Rightarrow> string) \<Rightarrow> SupportGraph \<Rightarrow> bool" where
  "sg_inv H g \<longleftrightarrow>
     sg_by_signature g = map (\<lambda>e. (js_signature H e, e)) (sg_entries g) \<and>
     distinct (map (js_signature H) (sg_entries g)) \<and>
     (\<forall>e\<in>set (sg_entries g). plain_data e) \<and>
     (\<forall>a. groups_for g a = filter (\<lambda>e. js_atom e = a) (sg_entries g))"

fun first_of :: "('a \<Rightarrow> 'k) \<Rightarrow> 'k set \<Rightarrow> 'a list \<Rightarrow> 'a list" where
  "first_of f seen [] = []"
| "first_of f seen (x # xs) =
     (if f x \<in> seen then first_of f seen xs else x # first_of f (insert (f x) seen) xs)"

lemma first_of_distinct: "distinct (map f xs) \<Longrightarrow> f ` set xs \<inter> seen = {} \<Longrightarrow> first_of f seen xs = xs"
proof (induction xs arbitrary: seen)
  case (Cons x xs)
  then show ?case using Cons.IH[of "insert (f x) seen"] by auto
qed simp

lemma first_of_subset: "set (first_of f seen xs) \<subseteq> set xs"
proof (induction xs arbitrary: seen)
  case (Cons x xs)
  show ?case using Cons.IH[of seen] Cons.IH[of "insert (f x) seen"] by auto
qed simp

lemma first_of_keys: "f ` set (first_of f seen xs) = f ` set xs - seen"
  by (induction xs arbitrary: seen) auto

lemma first_of_distinct_keys: "distinct (map f (first_of f seen xs))"
  by (induction xs arbitrary: seen) (auto simp: first_of_keys[unfolded set_map[symmetric]] simp flip: set_map)

lemma sg_add_all_result:
  assumes "sg_inv H g"
  shows "sg_add_all H entries g = Inr g' \<Longrightarrow> sg_inv H g' \<and>
    sg_entries g' = sg_entries g @ first_of (js_signature H) (js_signature H ` set (sg_entries g)) entries"
  using assms
proof (induction entries arbitrary: g)
  case Nil
  then show ?case by simp
next
  case (Cons e rest)
  have keys: "set (dict_keys (sg_by_signature g)) = js_signature H ` set (sg_entries g)"
    using Cons.prems(2) unfolding sg_inv_def by (metis (no_types, lifting) fst_conv list.map_comp list.set_map map_eq_conv comp_apply)
  have plain: "plain_data e"
    using Cons.prems(1) by (auto simp: plain_data_def result_simps)
  show ?case
  proof (cases "js_signature H e \<in> js_signature H ` set (sg_entries g)")
    case True
    with Cons keys plain show ?thesis by (auto simp: plain_data_def)
  next
    case False
    let ?g = "\<lparr>sg_by_conclusion = dict_append (js_atom e) e (sg_by_conclusion g),
        sg_by_signature = dict_set (js_signature H e) e (sg_by_signature g)\<rparr>"
    have app: "sg_by_signature ?g = sg_by_signature g @ [(js_signature H e, e)]"
      using False keys by (simp add: dict_set_fresh)
    then have ents: "sg_entries ?g = sg_entries g @ [e]" by (simp add: sg_entries_def)
    have "sg_inv H ?g"
      unfolding sg_inv_def ents app
      using Cons.prems(2) plain False
      by (auto simp: sg_inv_def groups_for_def dict_get_append)
    moreover from Cons.prems(1) False keys plain have "sg_add_all H rest ?g = Inr g'"
      by (simp add: plain_data_def)
    ultimately show ?thesis using Cons.IH[of ?g] False ents by simp
  qed
qed

lemma sg_add_all_succeeds:
  "\<forall>e\<in>set entries. plain_data e \<Longrightarrow> \<exists>g'. sg_add_all H entries g = Inr g'"
  by (induction entries arbitrary: g) (auto simp: plain_data_def)

lemma sg_inv_empty: "sg_inv H \<lparr>sg_by_conclusion = [], sg_by_signature = []\<rparr>"
  by (simp add: sg_inv_def sg_entries_def groups_for_def)

lemma support_graph_result:
  assumes "support_graph H entries = Inr g"
  shows "sg_inv H g" and "sg_entries g = first_of (js_signature H) {} entries"
  using sg_add_all_result[OF sg_inv_empty] assms
  by (fastforce simp: support_graph_def sg_entries_def)+

lemma set_justifications [simp]: "set (justifications H g) = set (sg_entries g)"
  by (simp add: justifications_def sg_entries_def)

lemma distinct_justifications:
  "sg_inv H g \<Longrightarrow> distinct (map (js_signature H) (justifications H g))"
  unfolding justifications_def sg_entries_def[symmetric] by (simp add: sg_inv_def distinct_map)

lemma support_graph_rebuild:
  assumes g: "sg_inv H g"
  shows "\<exists>g'. support_graph H (filter P (justifications H g)) = Inr g' \<and>
    justifications H g' = filter P (justifications H g)"
proof -
  let ?es = "filter P (justifications H g)"
  have "\<forall>e\<in>set ?es. plain_data e" using g by (auto simp: sg_inv_def)
  then obtain g' where g': "support_graph H ?es = Inr g'"
    using sg_add_all_succeeds unfolding support_graph_def by blast
  have "distinct (map (js_signature H) ?es)"
    using distinct_justifications[OF g] by (rule distinct_map_filter)
  with support_graph_result(2)[OF g'] have "sg_entries g' = ?es"
    by (simp add: first_of_distinct)
  moreover have "sort_key (\<lambda>e. (js_conclusion e, str_Polarity (js_polarity e), js_signature H e)) ?es = ?es"
    unfolding justifications_def by (intro sort_key_sorted_id filter_sort_key_first)
  ultimately have "justifications H g' = ?es"
    unfolding justifications_def[of H g'] sg_entries_def[symmetric] by simp
  with g' show ?thesis by blast
qed

section \<open>Facts about the codec\<close>

lemma polarity_roundtrip [simp]: "parse_polarity (JStr (str_Polarity p)) name = Inr p"
  by (cases p) (simp_all add: parse_polarity_def polarity_aliases_def)

definition wf_atom :: "Atom \<Rightarrow> bool" where
  "wf_atom a \<longleftrightarrow> identifier_of (JStr (a_key a)) ''atom.key'' = Inr (a_key a)"

lemma make_Atom_ok: "make_Atom k p = Inr a \<Longrightarrow> wf_atom a"
  by (auto simp: make_Atom_def wf_atom_def result_simps)

lemma Atom_from_json_ok: "Atom_from_json v name = Inr a \<Longrightarrow> wf_atom a"
  by (auto simp: Atom_from_json_def split: json.splits option.splits dest: make_Atom_ok)

lemma Atom_roundtrip: "wf_atom a \<Longrightarrow> Atom_from_json (Atom_to_json a) name = Inr a"
  by (simp add: Atom_from_json_def Atom_to_json_def make_Atom_def wf_atom_def dict_get_def)

lemma Premise_roundtrip:
  assumes "parse_premise v name = Inr p"
  shows "parse_premise (Premise_to_json p) name' = Inr p"
proof (cases p)
  case (PropositionPremise a)
  with assms have "wf_atom a"
    by (auto simp: parse_premise_def Let_def result_simps split: json.splits if_splits
        dest: Atom_from_json_ok)
  with PropositionPremise show ?thesis
    by (simp add: parse_premise_def field_def dict_get_def subscript_def Atom_roundtrip)
next
  case (EvidencePremise r)
  with assms obtain w n where "EvidenceRef_from_json w n = Inr r"
    by (auto simp: parse_premise_def Let_def result_simps split: json.splits if_splits)
  then have "EvidenceRef_from_json (EvidenceRef_to_json r) n' = Inr r" for n'
    using evidence_ref_codec.decoded_roundtrip
    unfolding EvidenceRef_from_json_def EvidenceRef_to_json_def by blast
  with EvidencePremise show ?thesis
    by (simp add: parse_premise_def field_def dict_get_def subscript_def)
qed

lemma RuleCondition_roundtrip:
  assumes "RuleCondition_from_json v name = Inr c"
  shows "RuleCondition_from_json (RuleCondition_to_json c) name' = Inr c"
  using assms
  by (auto simp: RuleCondition_from_json_def RuleCondition_to_json_def make_RuleCondition_def
      result_simps dict_get_def split: json.splits option.splits)

lemma map_result_roundtrip:
  assumes "map_result dec xs = Inr ys" and "\<And>x y. dec x = Inr y \<Longrightarrow> dec (enc y) = Inr y"
  shows "map_result dec (map enc ys) = Inr ys"
  using assms(1) unfolding map_result_ok
  by (induction xs ys rule: list_all2_induct) (auto intro: assms(2))

lemma bounded_items_ok:
  "bounded_items m l n r = Inr xs \<longleftrightarrow> r = Inr xs \<and> m \<le> length xs \<and> length xs \<le> l"
  by (auto simp: bounded_items_def rbind_Inr_iff guard_Inr_iff)

lemma make_JustificationSet_ok:
  "make_JustificationSet c p prems conds rv receipt sg = Inr j \<longleftrightarrow>
     identifier_of c ''justification.conclusion'' = Inr (js_conclusion j) \<and>
     parse_polarity p ''justification.polarity'' = Inr (js_polarity j) \<and>
     prems = Inr (js_premises j) \<and> js_premises j \<noteq> [] \<and> length (js_premises j) \<le> MAX_LIST \<and>
     distinct (js_premises j) \<and> conds = Inr (js_conditions j) \<and>
     length (js_conditions j) \<le> MAX_LIST \<and> distinct (map cond_name (js_conditions j)) \<and>
     identifier_of rv ''justification.rule_version'' = Inr (js_rule_version j) \<and>
     js_receipt_ref j = receipt \<and>
     optional_identifier sg ''justification.source_group'' = Inr (js_source_group j)"
  by (cases j) (auto simp: make_JustificationSet_def bounded_items_ok rbind_Inr_iff guard_Inr_iff Suc_le_eq)

lemma JustificationSet_from_json_shape:
  assumes "JustificationSet_from_json v name = Inr j"
  obtains d c prems conds where
    "make_JustificationSet c (dict_get d ''polarity'' (JStr ''POSITIVE''))
      (map_result (\<lambda>x. parse_premise x ''justification.premises[]'') prems)
      (map_result (\<lambda>x. RuleCondition_from_json x ''justification.conditions[]'') conds)
      (dict_get d ''rule_version'' (JStr '''')) (js_receipt_ref j) (field d ''source_group'') = Inr j"
    and "\<And>t. js_receipt_ref j = Some t \<Longrightarrow> \<exists>w n. TypedRef_from_json w n = Inr t"
proof -
  from assms obtain d where v: "v = JObj d"
    by (auto simp: JustificationSet_from_json_def split: json.splits)
  from assms v obtain c prems conds receipt where
    m: "make_JustificationSet c (dict_get d ''polarity'' (JStr ''POSITIVE''))
      (map_result (\<lambda>x. parse_premise x ''justification.premises[]'') prems)
      (map_result (\<lambda>x. RuleCondition_from_json x ''justification.conditions[]'') conds)
      (dict_get d ''rule_version'' (JStr '''')) receipt (field d ''source_group'') = Inr j"
    and r: "(if field d ''receipt_ref'' = JNull then Inr None
        else rbind (TypedRef_from_json (field d ''receipt_ref'') (name @ ''.receipt''))
               (\<lambda>r. Inr (Some r))) = Inr receipt"
    by (auto simp: JustificationSet_from_json_def rbind_Inr_iff)
  from m have "receipt = js_receipt_ref j" by (simp add: make_JustificationSet_ok)
  with m r show thesis
    by (intro that[of c d prems conds]) (auto simp: rbind_Inr_iff split: if_splits dest: sym)
qed

section \<open>Properties\<close>

text \<open>A stored support group is the group that was declared. Every justification set that
  decodes from JSON decodes from its own encoding to the same set, premises, conditions, receipt
  and source group included; since the signature is a hash of that encoding, a group keeps its
  identity across storage.\<close>

theorem justification_codec_roundtrip:
  assumes "JustificationSet_from_json v name = Inr j"
  shows "JustificationSet_from_json (JustificationSet_to_json j) name' = Inr j"
  using assms
proof (rule JustificationSet_from_json_shape)
  let ?pp = "\<lambda>x. parse_premise x ''justification.premises[]''"
  let ?pc = "\<lambda>x. RuleCondition_from_json x ''justification.conditions[]''"
  fix d c prems conds
  assume m: "make_JustificationSet c (dict_get d ''polarity'' (JStr ''POSITIVE''))
      (map_result ?pp prems) (map_result ?pc conds)
      (dict_get d ''rule_version'' (JStr '''')) (js_receipt_ref j) (field d ''source_group'') = Inr j"
    and r: "\<And>t. js_receipt_ref j = Some t \<Longrightarrow> \<exists>w n. TypedRef_from_json w n = Inr t"
  have prem: "map_result ?pp (map Premise_to_json (js_premises j)) = Inr (js_premises j)"
    using m by (intro map_result_roundtrip[of ?pp prems]) (auto simp: make_JustificationSet_ok Premise_roundtrip)
  have cond: "map_result ?pc (map RuleCondition_to_json (js_conditions j)) = Inr (js_conditions j)"
    using m by (intro map_result_roundtrip[of ?pc conds])
      (auto simp: make_JustificationSet_ok RuleCondition_roundtrip)
  have receipt: "js_receipt_ref j = Some t \<Longrightarrow> TypedRef_from_json (TypedRef_to_json t) n = Inr t" for t n
    using r[of t] typed_ref_codec.decoded_roundtrip
    unfolding TypedRef_from_json_def TypedRef_to_json_def by blast
  have nn: "TypedRef_to_json t \<noteq> JNull" for t by (simp add: TypedRef_to_json_def ref_to_json_def)
  show ?thesis
    using m nn
    by (cases "js_receipt_ref j"; cases "js_source_group j")
      (auto simp: JustificationSet_from_json_def JustificationSet_to_json_def subscript_def
        dict_get_def field_def json_of_option_def make_JustificationSet_ok prem cond receipt
        optional_identifier_def identifier_ok rbind_Inr_iff split: if_splits)
qed

definition sample_rule :: "string \<Rightarrow> string list \<Rightarrow> JustificationSet" where
  "sample_rule c ps =
     \<lparr>js_conclusion = c, js_polarity = POSITIVE,
      js_premises = map (\<lambda>p. PropositionPremise \<lparr>a_key = p, a_polarity = POSITIVE\<rparr>) ps,
      js_conditions = [], js_rule_version = ''v1'', js_receipt_ref = None, js_source_group = None\<rparr>"

text \<open>A stand-in for the content hash in concrete runs: it is injective on the sample rules.\<close>

fun sample_hash :: "json \<Rightarrow> string" where
  "sample_hash (JObj ((_, JStr c) # _ # (_, JList ps) # _)) = c @ replicate (length ps) (CHR ''#'')"
| "sample_hash _ = []"

theorem justification_codec_roundtrip_witness:
  "\<exists>j. JustificationSet_from_json
         (JObj [(''conclusion'', JStr ''c''), (''premises'', JList [JStr ''p'', JObj [(''kind'', JStr ''evidence''),
            (''ref'', sample_ref_json ''review'')]]), (''rule_version'', JStr ''v1'')]) ''j'' = Inr j \<and>
     JustificationSet_from_json (JustificationSet_to_json j) ''k'' = Inr j"
proof -
  have "JustificationSet_from_json
         (JObj [(''conclusion'', JStr ''c''), (''premises'', JList [JStr ''p'', JObj [(''kind'', JStr ''evidence''),
            (''ref'', sample_ref_json ''review'')]]), (''rule_version'', JStr ''v1'')]) ''j'' =
     Inr \<lparr>js_conclusion = ''c'', js_polarity = POSITIVE,
        js_premises = [PropositionPremise \<lparr>a_key = ''p'', a_polarity = POSITIVE\<rparr>,
          EvidencePremise \<lparr>r_kind = ER_REVIEW, r_id = ''o1'', r_revision = 3,
           r_content_hash = replicate 64 (CHR ''a''), r_produced_by = Some PV_HUMAN\<rparr>],
        js_conditions = [], js_rule_version = ''v1'', js_receipt_ref = None, js_source_group = None\<rparr>"
    by code_simp
  with justification_codec_roundtrip[OF this] show ?thesis by blast
qed

text \<open>The support graph counts each group once and indexes all of them. Building a graph
  keeps exactly one group per distinct signature offered, none of them carrying an executable
  string; the listing is in the documented order (conclusion, polarity, signature), and the groups
  returned for an atom are exactly the listed groups that conclude it.\<close>

theorem support_graph_index:
  assumes "support_graph H entries = Inr g"
  shows "distinct (map (js_signature H) (justifications H g)) \<and>
    js_signature H ` set (justifications H g) = js_signature H ` set entries \<and>
    set (justifications H g) \<subseteq> set entries \<and>
    sorted (map (\<lambda>e. (js_conclusion e, str_Polarity (js_polarity e), js_signature H e)) (justifications H g)) \<and>
    (\<forall>a. set (groups_for g a) = {e \<in> set (justifications H g). js_atom e = a}) \<and>
    (\<forall>e \<in> set (justifications H g). \<forall>s\<in>json_strings (JustificationSet_to_json e). \<not> looks_like_code s)"
proof (intro conjI)
  note inv = support_graph_result(1)[OF assms] and ents = support_graph_result(2)[OF assms]
  show "distinct (map (js_signature H) (justifications H g))"
    using inv by (rule distinct_justifications)
  show "js_signature H ` set (justifications H g) = js_signature H ` set entries"
    by (simp add: ents first_of_keys)
  show "set (justifications H g) \<subseteq> set entries"
    using first_of_subset by (fastforce simp: ents)
  show "sorted (map (\<lambda>e. (js_conclusion e, str_Polarity (js_polarity e), js_signature H e)) (justifications H g))"
    by (simp add: justifications_def)
  show "\<forall>a. set (groups_for g a) = {e \<in> set (justifications H g). js_atom e = a}"
    using inv by (auto simp: sg_inv_def)
  show "\<forall>e \<in> set (justifications H g). \<forall>s\<in>json_strings (JustificationSet_to_json e). \<not> looks_like_code s"
    using inv by (simp add: sg_inv_def plain_data_def reject_executable_ok_iff(1) del: reject_executable.simps json_strings.simps)
qed

lemma sample_graph:
  "\<exists>g. support_graph sample_hash [sample_rule ''c'' [''p''], sample_rule ''b'' [''p'', ''q''], sample_rule ''c'' [''p'']] = Inr g
     \<and> justifications sample_hash g = [sample_rule ''b'' [''p'', ''q''], sample_rule ''c'' [''p'']]"
proof -
  have "support_graph sample_hash [sample_rule ''c'' [''p''], sample_rule ''b'' [''p'', ''q''], sample_rule ''c'' [''p'']] =
      Inr \<lparr>sg_by_conclusion = [(\<lparr>a_key = ''c'', a_polarity = POSITIVE\<rparr>, [sample_rule ''c'' [''p'']]),
             (\<lparr>a_key = ''b'', a_polarity = POSITIVE\<rparr>, [sample_rule ''b'' [''p'', ''q'']])],
           sg_by_signature = [(''c#'', sample_rule ''c'' [''p'']), (''b##'', sample_rule ''b'' [''p'', ''q''])]\<rparr>"
    by code_simp
  moreover have "justifications sample_hash
      \<lparr>sg_by_conclusion = [(\<lparr>a_key = ''c'', a_polarity = POSITIVE\<rparr>, [sample_rule ''c'' [''p'']]),
             (\<lparr>a_key = ''b'', a_polarity = POSITIVE\<rparr>, [sample_rule ''b'' [''p'', ''q'']])],
           sg_by_signature = [(''c#'', sample_rule ''c'' [''p'']), (''b##'', sample_rule ''b'' [''p'', ''q''])]\<rparr>
      = [sample_rule ''b'' [''p'', ''q''], sample_rule ''c'' [''p'']]"
    by code_simp
  ultimately show ?thesis by auto
qed

theorem support_graph_index_witness:
  "\<exists>g. support_graph sample_hash [sample_rule ''c'' [''p''], sample_rule ''b'' [''p'', ''q''], sample_rule ''c'' [''p'']] = Inr g
     \<and> distinct (map (js_signature sample_hash) (justifications sample_hash g))
     \<and> set (groups_for g (js_atom (sample_rule ''c'' []))) =
        {e \<in> set (justifications sample_hash g). js_atom e = js_atom (sample_rule ''c'' [])}"
  using sample_graph support_graph_index by blast

text \<open>Retraction removes one reason and nothing else. Dropping a signature from a graph
  always succeeds, and the new graph lists exactly the other groups in the same order; extending
  a graph by nothing is the identity on its listing.\<close>

theorem retraction_is_exact:
  assumes "support_graph H entries = Inr g"
  shows "(\<exists>g'. without_signature H g s = Inr g' \<and>
      justifications H g' = filter (\<lambda>e. js_signature H e \<noteq> s) (justifications H g)) \<and>
    (\<exists>g'. with_justifications H g [] = Inr g' \<and> justifications H g' = justifications H g)"
  using support_graph_rebuild[OF support_graph_result(1)[OF assms], of "\<lambda>e. js_signature H e \<noteq> s"]
    support_graph_rebuild[OF support_graph_result(1)[OF assms], of "\<lambda>_. True"]
  by (simp add: without_signature_def with_justifications_def)

theorem retraction_is_exact_witness:
  "\<exists>g g'. support_graph sample_hash [sample_rule ''c'' [''p''], sample_rule ''b'' [''p'', ''q''], sample_rule ''c'' [''p'']] = Inr g
     \<and> without_signature sample_hash g ''c#'' = Inr g'
     \<and> justifications sample_hash g' = [sample_rule ''b'' [''p'', ''q'']]"
proof -
  obtain g where g: "support_graph sample_hash
      [sample_rule ''c'' [''p''], sample_rule ''b'' [''p'', ''q''], sample_rule ''c'' [''p'']] = Inr g"
    and j: "justifications sample_hash g = [sample_rule ''b'' [''p'', ''q''], sample_rule ''c'' [''p'']]"
    using sample_graph by blast
  have "js_signature sample_hash (sample_rule ''b'' [''p'', ''q'']) = ''b##''"
    "js_signature sample_hash (sample_rule ''c'' [''p'']) = ''c#''" by code_simp+
  with retraction_is_exact[OF g, of "''c#''"] g j show ?thesis by auto
qed

end
