(* ===== verification/Anchors.thy ===== *)
theory Anchors
  imports Support_Graph
begin

text \<open>
  Anchor selection, step 1 of a grounded evaluation (\<open>AnchorSelector\<close> of
  \<open>knowledge/justifications.py\<close>): which observations may seed the fixpoint for one scope, purpose
  and point in time. \<open>admissible\<close> is the declarative policy; \<open>select\<close> is the code's cascade of
  early returns. The token that keeps an \<open>Anchor\<close> from being assembled outside the selector is
  the absence of any other producer of the type \<open>Anchor\<close> here.
\<close>

datatype AnchorOrigin = AO_OBSERVATION | AO_CHECK

datatype AnchorRejection =
    SCOPE_MISMATCH | NOT_CURRENT | UNREADABLE | NOT_TRACEABLE | AFTER_AS_OF | EXPIRED
  | NOT_AUTHORITATIVE_NEGATIVE | OBSERVER_NOT_AUTHORITATIVE | COVERAGE_SCOPE_MISMATCH
  | PREDICTED_NOT_OBSERVED | SUPERSEDED_BY_RECEIPT | NO_CONTINUOUS_GUARANTEE
  | UNREGISTERED_PREDICATE

record AnchorCandidate =
  ca_observation :: ObservationRecord
  ca_scope_id :: string
  ca_source_group :: string
  ca_origin :: AnchorOrigin
  ca_evidence_ref :: "EvidenceRef option"
  ca_observer_id :: "string option"
  ca_availability :: Availability
  ca_validity :: Validity
  ca_temporal_use :: TemporalUse
  ca_monitor_interval_ms :: "int option"
  ca_traceable :: bool
  ca_predicted :: bool
  ca_inapplicable :: bool
  ca_inapplicable_receipt :: "TypedRef option"

definition check_AnchorCandidate :: "AnchorCandidate \<Rightarrow> contract_error + AnchorCandidate" where
  "check_AnchorCandidate c =
     rbind (identifier_of (JStr (ca_scope_id c)) ''anchor.scope_id'') (\<lambda>_.
     rbind (identifier_of (JStr (ca_source_group c)) ''anchor.source_group'') (\<lambda>_.
     rbind (opt_id (ca_observer_id c) ''anchor.observer_id'') (\<lambda>_.
     rbind (opt_ix 1 (ca_monitor_interval_ms c) ''anchor.monitor_interval_ms'') (\<lambda>_.
     if ca_inapplicable c \<and> ca_inapplicable_receipt c = None
     then Inl (CE_rule ''declaring an observation inapplicable needs an explicit receipt'')
     else Inr c))))"

definition ca_atom :: "AnchorCandidate \<Rightarrow> Atom" where
  "ca_atom c = \<lparr>a_key = ob_proposition_key (ca_observation c),
     a_polarity = if ob_polarity (ca_observation c) then POSITIVE else NEGATIVE\<rparr>"

record Anchor =
  an_atom :: Atom
  an_anchor_id :: string
  an_source_group :: string
  an_origin :: AnchorOrigin
  an_evidence_ref :: "EvidenceRef option"
  an_historical :: bool

definition check_Anchor :: "Anchor \<Rightarrow> contract_error + Anchor" where
  "check_Anchor a =
     rbind (identifier_of (JStr (an_anchor_id a)) ''anchor.anchor_id'') (\<lambda>_.
     rbind (identifier_of (JStr (an_source_group a)) ''anchor.source_group'') (\<lambda>_. Inr a))"

definition an_signature :: "Anchor \<Rightarrow> string" where
  "an_signature a = ''anchor:'' @ an_anchor_id a"

record RejectedAnchor =
  rj_candidate :: AnchorCandidate
  rj_reason :: AnchorRejection

record AnchorSelection =
  as_anchors :: "Anchor list"
  as_rejected :: "RejectedAnchor list"

definition reason_for :: "AnchorSelection \<Rightarrow> string \<Rightarrow> AnchorRejection option" where
  "reason_for s i =
     map_option rj_reason
       (find (\<lambda>r. ob_observation_id (ca_observation (rj_candidate r)) = i) (as_rejected s))"

definition admitted_ids :: "AnchorSelection \<Rightarrow> string set" where
  "admitted_ids s = set (map an_anchor_id (as_anchors s))"

definition as_evidence_refs :: "AnchorSelection \<Rightarrow> EvidenceRef set" where
  "as_evidence_refs s = set (List.map_filter an_evidence_ref (as_anchors s))"

definition HISTORICAL_PURPOSES :: "WitnessPurpose list" where
  "HISTORICAL_PURPOSES = [WP_CONTEXT]"

record AnchorSelector =
  sel_scope_id :: string
  sel_purpose :: WitnessPurpose
  sel_as_of_ms :: int
  sel_signatures :: "(string \<times> PredicateSignature) list"

definition check_AnchorSelector :: "AnchorSelector \<Rightarrow> contract_error + AnchorSelector" where
  "check_AnchorSelector s =
     rbind (identifier_of (JStr (sel_scope_id s)) ''selector.scope_id'') (\<lambda>_.
     rbind (index_min 0 (JInt (sel_as_of_ms s)) ''selector.as_of_ms'') (\<lambda>_. Inr s))"

definition signature_for :: "AnchorSelector \<Rightarrow> string \<Rightarrow> PredicateSignature option" where
  "signature_for s k = map_of (sel_signatures s) k"

definition registered :: "AnchorSelector \<Rightarrow> string \<Rightarrow> bool" where
  "registered s k \<longleftrightarrow> k \<in> set (dict_keys (sel_signatures s))"

definition negative_verdict ::
  "AnchorSelector \<Rightarrow> AnchorCandidate \<Rightarrow> PredicateSignature \<Rightarrow> AnchorRejection option" where
  "negative_verdict s c sig =
     (let ob = ca_observation c in
      if \<not> is_authoritative_negative ob then Some NOT_AUTHORITATIVE_NEGATIVE
      else if ob_coverage_scope ob \<noteq> Some (sel_scope_id s) then Some COVERAGE_SCOPE_MISMATCH
      else if ps_world_assumption sig = WA_CLOSED \<and>
              (case ca_observer_id c of None \<Rightarrow> True | Some i \<Rightarrow> i \<notin> set (ps_observer_ids sig))
      then Some OBSERVER_NOT_AUTHORITATIVE
      else None)"

definition expired_at :: "int \<Rightarrow> ObservationRecord \<Rightarrow> bool" where
  "expired_at as_of ob \<longleftrightarrow>
     (case ob_valid_until_ms ob of None \<Rightarrow> False | Some u \<Rightarrow> u < as_of) \<or>
     (case ob_valid_from_ms ob of None \<Rightarrow> False | Some f \<Rightarrow> as_of < f)"

definition verdict :: "AnchorSelector \<Rightarrow> AnchorCandidate \<Rightarrow> AnchorRejection option \<times> bool" where
  "verdict s c =
     (let ob = ca_observation c in
      if ca_predicted c then (Some PREDICTED_NOT_OBSERVED, False)
      else if ca_inapplicable c then (Some SUPERSEDED_BY_RECEIPT, False)
      else if ca_scope_id c \<noteq> sel_scope_id s then (Some SCOPE_MISMATCH, False)
      else if ca_availability c \<noteq> AV_READABLE then (Some UNREADABLE, False)
      else if ca_validity c \<noteq> VA_CURRENT then (Some NOT_CURRENT, False)
      else if \<not> ca_traceable c then (Some NOT_TRACEABLE, False)
      else case signature_for s (ob_proposition_key ob) of
        None \<Rightarrow> (Some UNREGISTERED_PREDICATE, False)
      | Some sig \<Rightarrow>
          if sel_as_of_ms s < ob_observed_at_ms ob then (Some AFTER_AS_OF, False)
          else
            let expired = expired_at (sel_as_of_ms s) ob;
                historical = expired \<and> ca_temporal_use c = TU_HISTORICAL_AS_OF \<and>
                  sel_purpose s \<in> set HISTORICAL_PURPOSES
            in if expired \<and> \<not> historical then (Some EXPIRED, False)
               else if ca_temporal_use c = TU_CONTINUOUS \<and> sel_purpose s = WP_MAINTAIN \<and>
                       ca_monitor_interval_ms c = None
               then (Some NO_CONTINUOUS_GUARANTEE, False)
               else if \<not> ob_polarity ob then
                 (case negative_verdict s c sig of
                    Some reason \<Rightarrow> (Some reason, False)
                  | None \<Rightarrow> (None, historical))
               else (None, historical))"

definition anchor_of :: "AnchorCandidate \<Rightarrow> bool \<Rightarrow> Anchor" where
  "anchor_of c historical =
     \<lparr>an_atom = ca_atom c, an_anchor_id = ob_observation_id (ca_observation c),
      an_source_group = ca_source_group c, an_origin = ca_origin c,
      an_evidence_ref = ca_evidence_ref c, an_historical = historical\<rparr>"

fun select_loop ::
  "AnchorSelector \<Rightarrow> AnchorCandidate list \<Rightarrow> Anchor list \<Rightarrow> RejectedAnchor list \<Rightarrow> string list
    \<Rightarrow> contract_error + AnchorSelection" where
  "select_loop s [] admitted rejected seen = Inr \<lparr>as_anchors = admitted, as_rejected = rejected\<rparr>"
| "select_loop s (c # cs) admitted rejected seen =
     (case verdict s c of
        (Some reason, _) \<Rightarrow>
          select_loop s cs admitted (rejected @ [\<lparr>rj_candidate = c, rj_reason = reason\<rparr>]) seen
      | (None, historical) \<Rightarrow>
          if ob_observation_id (ca_observation c) \<in> set seen
          then select_loop s cs admitted rejected seen
          else rbind (check_Anchor (anchor_of c historical)) (\<lambda>a.
            select_loop s cs (admitted @ [a]) rejected (ob_observation_id (ca_observation c) # seen)))"

definition select :: "AnchorSelector \<Rightarrow> AnchorCandidate list \<Rightarrow> contract_error + AnchorSelection" where
  "select s cs = select_loop s cs [] [] []"

section \<open>The policy\<close>

text \<open>What the specification of the selector asks of an anchor, independent of the order of the
  checks.\<close>

definition denial_admissible :: "AnchorSelector \<Rightarrow> AnchorCandidate \<Rightarrow> PredicateSignature \<Rightarrow> bool" where
  "denial_admissible s c sig \<longleftrightarrow>
     is_authoritative_negative (ca_observation c) \<and>
     ob_coverage_scope (ca_observation c) = Some (sel_scope_id s) \<and>
     (ps_world_assumption sig = WA_CLOSED \<longrightarrow>
        (\<exists>i. ca_observer_id c = Some i \<and> i \<in> set (ps_observer_ids sig)))"

definition admissible :: "AnchorSelector \<Rightarrow> AnchorCandidate \<Rightarrow> bool" where
  "admissible s c \<longleftrightarrow>
     \<not> ca_predicted c \<and> \<not> ca_inapplicable c \<and> ca_scope_id c = sel_scope_id s \<and>
     ca_availability c = AV_READABLE \<and> ca_validity c = VA_CURRENT \<and> ca_traceable c \<and>
     ob_observed_at_ms (ca_observation c) \<le> sel_as_of_ms s \<and>
     (expired_at (sel_as_of_ms s) (ca_observation c) \<longrightarrow>
        ca_temporal_use c = TU_HISTORICAL_AS_OF \<and> sel_purpose s = WP_CONTEXT) \<and>
     (ca_temporal_use c = TU_CONTINUOUS \<and> sel_purpose s = WP_MAINTAIN \<longrightarrow>
        ca_monitor_interval_ms c \<noteq> None) \<and>
     (\<exists>sig. map_of (sel_signatures s) (ob_proposition_key (ca_observation c)) = Some sig \<and>
        (\<not> ob_polarity (ca_observation c) \<longrightarrow> denial_admissible s c sig))"

lemma negative_verdict_iff: "negative_verdict s c sig = None \<longleftrightarrow> denial_admissible s c sig"
  by (auto simp: negative_verdict_def denial_admissible_def Let_def split: option.splits)

lemma verdict_admissible:
  assumes "admissible s c"
  shows "verdict s c = (None, expired_at (sel_as_of_ms s) (ca_observation c))"
  using assms
  unfolding admissible_def negative_verdict_iff[symmetric]
  by (auto simp: verdict_def Let_def signature_for_def HISTORICAL_PURPOSES_def
      split: if_splits option.splits)

lemma verdict_rejects:
  assumes "\<not> admissible s c"
  shows "\<exists>r. verdict s c = (Some r, False)"
  using assms
  by (auto simp: verdict_def admissible_def Let_def signature_for_def HISTORICAL_PURPOSES_def
      simp flip: negative_verdict_iff split: option.splits)

abbreviation candidate_id :: "AnchorCandidate \<Rightarrow> string" where
  "candidate_id c \<equiv> ob_observation_id (ca_observation c)"

definition checked_candidate :: "AnchorCandidate \<Rightarrow> bool" where
  "checked_candidate c \<longleftrightarrow> check_AnchorCandidate c = Inr c \<and>
     check_ObservationRecord (ca_observation c) = Inr (ca_observation c)"

lemma check_Anchor_of_checked: "checked_candidate c \<Longrightarrow> check_Anchor (anchor_of c h) = Inr (anchor_of c h)"
  by (auto simp: checked_candidate_def check_AnchorCandidate_def check_ObservationRecord_def
      check_Anchor_def anchor_of_def result_simps split: if_splits)

lemma select_loop_exact:
  assumes "\<forall>c\<in>set cs. checked_candidate c"
  shows "\<exists>rs. select_loop s cs admitted rejected seen =
      Inr \<lparr>as_anchors = admitted @
             map (\<lambda>c. anchor_of c (expired_at (sel_as_of_ms s) (ca_observation c)))
               (first_of candidate_id (set seen) (filter (admissible s) cs)),
           as_rejected = rejected @ rs\<rparr> \<and>
      map rj_candidate rs = filter (\<lambda>c. \<not> admissible s c) cs"
  using assms
proof (induction cs arbitrary: admitted rejected seen)
  case Nil
  then show ?case by simp
next
  case (Cons c cs)
  show ?case
  proof (cases "admissible s c")
    case True
    then have v: "verdict s c = (None, expired_at (sel_as_of_ms s) (ca_observation c))"
      by (rule verdict_admissible)
    from Cons.prems have ok: "checked_candidate c" by simp
    show ?thesis
      using Cons.IH[of admitted rejected seen]
        Cons.IH[of "admitted @ [anchor_of c (expired_at (sel_as_of_ms s) (ca_observation c))]"
          rejected "candidate_id c # seen"] Cons.prems True
      by (simp add: v check_Anchor_of_checked[OF ok])
  next
    case False
    then obtain r where "verdict s c = (Some r, False)" using verdict_rejects by blast
    with False Cons.prems show ?thesis
      using Cons.IH[of admitted "rejected @ [\<lparr>rj_candidate = c, rj_reason = r\<rparr>]" seen]
      by auto
  qed
qed

lemma select_loop_anchor_source:
  assumes "select_loop s cs admitted rejected seen = Inr sn" and "a \<in> set (as_anchors sn)"
  shows "a \<in> set admitted \<or> (\<exists>c\<in>set cs. admissible s c \<and> (\<exists>h. a = anchor_of c h))"
  using assms
proof (induction cs arbitrary: admitted rejected seen)
  case Nil
  then show ?case by auto
next
  case (Cons c cs)
  show ?case
  proof (cases "admissible s c")
    case True
    with Cons.prems show ?thesis
      using Cons.IH[of admitted rejected seen]
        Cons.IH[of "admitted @ [anchor_of c (expired_at (sel_as_of_ms s) (ca_observation c))]"
          rejected "candidate_id c # seen"]
      by (auto simp: verdict_admissible check_Anchor_def rbind_Inr_iff split: if_splits)
  next
    case False
    then obtain r where "verdict s c = (Some r, False)" using verdict_rejects by blast
    with Cons.prems show ?thesis
      using Cons.IH[of admitted "rejected @ [\<lparr>rj_candidate = c, rj_reason = r\<rparr>]" seen] by auto
  qed
qed

section \<open>Properties\<close>

text \<open>C10. Anchor selection implements its policy exactly. For checked candidates selection never
  raises; the anchors are the admissible candidates in offer order, the first of each observation
  id only, each flagged historical exactly when it is outside its validity window; and every
  inadmissible candidate is reported as rejected, in order, while no admissible one is.\<close>

theorem select_implements_policy:
  assumes "\<forall>c\<in>set cs. check_AnchorCandidate c = Inr c \<and>
    check_ObservationRecord (ca_observation c) = Inr (ca_observation c)"
  shows "\<exists>sn. select s cs = Inr sn \<and>
    as_anchors sn = map (\<lambda>c. anchor_of c (expired_at (sel_as_of_ms s) (ca_observation c)))
      (first_of candidate_id {} (filter (admissible s) cs)) \<and>
    map rj_candidate (as_rejected sn) = filter (\<lambda>c. \<not> admissible s c) cs"
  using select_loop_exact[of cs s "[]" "[]" "[]"] assms
  by (auto simp: select_def checked_candidate_def)

definition sample_candidate :: "ObservationRecord \<Rightarrow> string option \<Rightarrow> AnchorCandidate" where
  "sample_candidate ob i =
     \<lparr>ca_observation = ob, ca_scope_id = ''s'', ca_source_group = ''wire'', ca_origin = AO_OBSERVATION,
      ca_evidence_ref = None, ca_observer_id = i, ca_availability = AV_READABLE,
      ca_validity = VA_CURRENT, ca_temporal_use = TU_CURRENT_AT_USE, ca_monitor_interval_ms = None,
      ca_traceable = True, ca_predicted = False, ca_inapplicable = False,
      ca_inapplicable_receipt = None\<rparr>"

definition sample_candidates :: "AnchorCandidate list" where
  "sample_candidates =
     [sample_candidate (sample_observation ''a'' False QC_AUTHORITATIVE_WITH_SCOPE) (Some ''x''),
      sample_candidate (sample_observation ''b'' False QC_AUTHORITATIVE_WITH_SCOPE) (Some ''o''),
      sample_candidate (sample_observation ''c'' True QC_BEST_EFFORT) None]"

definition sample_selector :: AnchorSelector where
  "sample_selector = \<lparr>sel_scope_id = ''s'', sel_purpose = WP_ACCEPT, sel_as_of_ms = 20,
     sel_signatures = [(''p'', sample_signature ''p'')]\<rparr>"

lemma sample_selection:
  "select sample_selector sample_candidates = Inr
     \<lparr>as_anchors = [anchor_of (sample_candidates ! 1) False, anchor_of (sample_candidates ! 2) False],
      as_rejected = [\<lparr>rj_candidate = sample_candidates ! 0, rj_reason = OBSERVER_NOT_AUTHORITATIVE\<rparr>]\<rparr>"
  by code_simp

theorem select_implements_policy_witness:
  "\<exists>sn. select sample_selector sample_candidates = Inr sn \<and> length (as_anchors sn) = 2 \<and>
     map rj_candidate (as_rejected sn) =
       filter (\<lambda>c. \<not> admissible sample_selector c) sample_candidates"
proof -
  have "list_all (\<lambda>c. check_AnchorCandidate c = Inr c \<and>
    check_ObservationRecord (ca_observation c) = Inr (ca_observation c)) sample_candidates"
    by code_simp
  then show ?thesis
    using select_implements_policy[of sample_candidates sample_selector] sample_selection
    by (intro exI[of _ "\<lparr>as_anchors = [anchor_of (sample_candidates ! 1) False, anchor_of (sample_candidates ! 2) False],
      as_rejected = [\<lparr>rj_candidate = sample_candidates ! 0, rj_reason = OBSERVER_NOT_AUTHORITATIVE\<rparr>]\<rparr>"])
      (auto simp: list_all_iff)
qed

text \<open>No closed-world denial on the observation's own say-so. Every negative anchor comes
  from a candidate whose observation is an authoritative, watermarked query scoped to the
  selector's scope, for a registered predicate; when that predicate is closed-world, the candidate
  names one of the observers the predicate's declaration lists.\<close>

theorem negative_anchor_is_authoritative:
  assumes "select s cs = Inr sn" and "a \<in> set (as_anchors sn)" and "a_polarity (an_atom a) = NEGATIVE"
  shows "\<exists>c\<in>set cs. \<exists>sig. an_anchor_id a = candidate_id c \<and>
    map_of (sel_signatures s) (a_key (an_atom a)) = Some sig \<and>
    ob_coverage (ca_observation c) = QC_AUTHORITATIVE_WITH_SCOPE \<and>
    ob_query_watermark_ms (ca_observation c) \<noteq> None \<and>
    ob_coverage_scope (ca_observation c) = Some (sel_scope_id s) \<and>
    (ps_world_assumption sig = WA_CLOSED \<longrightarrow> ca_observer_id c \<in> Some ` set (ps_observer_ids sig))"
proof -
  obtain c h where c: "c \<in> set cs" "admissible s c" "a = anchor_of c h"
    using select_loop_anchor_source[OF assms(1)[unfolded select_def] assms(2)] by auto
  with assms(3) show ?thesis
    by (intro bexI[of _ c])
      (auto simp: admissible_def denial_admissible_def is_authoritative_negative_def anchor_of_def
        ca_atom_def split: if_splits)
qed

theorem negative_anchor_is_authoritative_witness:
  "\<exists>sn a. select sample_selector sample_candidates = Inr sn \<and> a \<in> set (as_anchors sn) \<and>
     a_polarity (an_atom a) = NEGATIVE \<and>
     (\<exists>c\<in>set sample_candidates. an_anchor_id a = candidate_id c \<and>
        ob_query_watermark_ms (ca_observation c) \<noteq> None)"
proof -
  let ?a = "anchor_of (sample_candidates ! 1) False"
  have "a_polarity (an_atom ?a) = NEGATIVE" by code_simp
  with negative_anchor_is_authoritative[OF sample_selection, of ?a] sample_selection
  show ?thesis by fastforce
qed

end
