(* ===== verification/Closure.thy ===== *)
theory Closure
  imports Anchors "HOL-Library.Multiset"
begin

text \<open>
  The grounded least fixpoint (\<open>grounded_closure\<close> of \<open>knowledge/justifications.py\<close>), the analyses
  run on its witnesses (source groups, support paths, assumption taint, disjoint paths), and the
  release gate of \<open>ClosureResult\<close>.

  The analyses take a budget hook in the source (\<open>check: Callable | None\<close>, which may raise); here
  it is a function \<open>tick\<close> on a budget state that answers \<open>None\<close> where the source raises. Without a
  hook it is \<^const>\<open>Some\<close>. The loops run until a pass changes nothing; they are total functions,
  with the measure that shows it.
\<close>

datatype ClosureStatus = CS_COMPLETE | CS_EVALUATION_INCOMPLETE
datatype WitnessKind = WK_ANCHOR | WK_DERIVED
datatype BlockReason =
    EVALUATION_INCOMPLETE | UNKNOWN_EVIDENCE | CONFLICTING_EVIDENCE | REFUTED | UNVERIFIED_ASSUMPTION

definition DEFAULT_NODE_BUDGET :: int where "DEFAULT_NODE_BUDGET = 10000"
definition MAX_INDEPENDENCE_PATHS :: nat where "MAX_INDEPENDENCE_PATHS = 64"

record SupportWitness =
  sw_atom :: Atom
  sw_kind :: WitnessKind
  sw_signature :: string
  sw_rule_version :: "string option"
  sw_premises :: "Premise list"
  sw_source_group :: "string option"
  sw_depth :: int
  sw_assumptions :: "string list"

type_synonym witnesses = "(Atom \<times> SupportWitness list) list"
type_synonym ref_groups = "(EvidenceRef \<times> string list) list"
type_synonym atom_groups = "(Atom \<times> string list) list"

section \<open>Analyses of a set of witnesses\<close>

definition premise_groups :: "ref_groups \<Rightarrow> atom_groups \<Rightarrow> Premise \<Rightarrow> string list" where
  "premise_groups refs groups p =
     (case p of EvidencePremise r \<Rightarrow> dict_get refs r [] | PropositionPremise a \<Rightarrow> dict_get groups a [])"

fun collect_premises ::
  "('b \<Rightarrow> 'b option) \<Rightarrow> ref_groups \<Rightarrow> atom_groups \<Rightarrow> Premise list \<Rightarrow> string list \<Rightarrow> 'b
    \<Rightarrow> (string list \<times> 'b) option" where
  "collect_premises tick refs groups [] acc b = Some (acc, b)"
| "collect_premises tick refs groups (p # ps) acc b =
     Option.bind (tick b) (\<lambda>b.
       collect_premises tick refs groups ps (List.union acc (premise_groups refs groups p)) b)"

definition own_group :: "SupportWitness \<Rightarrow> string list \<Rightarrow> string list" where
  "own_group w acc = (case sw_source_group w of None \<Rightarrow> acc | Some s \<Rightarrow> List.insert s acc)"

fun collect_supports ::
  "('b \<Rightarrow> 'b option) \<Rightarrow> ref_groups \<Rightarrow> atom_groups \<Rightarrow> SupportWitness list \<Rightarrow> string list \<Rightarrow> 'b
    \<Rightarrow> (string list \<times> 'b) option" where
  "collect_supports tick refs groups [] acc b = Some (acc, b)"
| "collect_supports tick refs groups (w # ws) acc b =
     Option.bind (tick b) (\<lambda>b.
     Option.bind (collect_premises tick refs groups (sw_premises w) (own_group w acc) b) (\<lambda>(acc, b).
       collect_supports tick refs groups ws acc b))"

fun groups_pass ::
  "('b \<Rightarrow> 'b option) \<Rightarrow> ref_groups \<Rightarrow> witnesses \<Rightarrow> atom_groups \<Rightarrow> bool \<Rightarrow> 'b
    \<Rightarrow> (atom_groups \<times> bool \<times> 'b) option" where
  "groups_pass tick refs [] groups changed b = Some (groups, changed, b)"
| "groups_pass tick refs ((a, ws) # rest) groups changed b =
     Option.bind (collect_supports tick refs groups ws [] b) (\<lambda>(collected, b).
       if set collected \<subseteq> set (dict_get groups a [])
       then groups_pass tick refs rest groups changed b
       else groups_pass tick refs rest
              (dict_set a (List.union (dict_get groups a []) collected) groups) True b)"

text \<open>The measure of the source-group loop: pairs of an atom and a known name it lacks.\<close>

definition dict_names :: "('k \<times> string list) list \<Rightarrow> string set" where
  "dict_names d = \<Union> (set ` snd ` set d)"

definition witness_names :: "witnesses \<Rightarrow> string set" where
  "witness_names ws = {s. \<exists>w \<in> \<Union> (set ` snd ` set ws). sw_source_group w = Some s}"

definition all_names :: "ref_groups \<Rightarrow> witnesses \<Rightarrow> atom_groups \<Rightarrow> string set" where
  "all_names refs ws groups =
     dict_names refs \<union> dict_names groups \<union> witness_names ws"

definition lacking :: "ref_groups \<Rightarrow> witnesses \<Rightarrow> atom_groups \<Rightarrow> (Atom \<times> string) set" where
  "lacking refs ws groups =
     {(a, s). a \<in> fst ` set ws \<and> s \<in> all_names refs ws groups \<and> s \<notin> set (dict_get groups a [])}"

lemma finite_lacking: "finite (lacking refs ws groups)"
proof -
  have "witness_names ws \<subseteq> (the \<circ> sw_source_group) ` \<Union> (set ` snd ` set ws)"
    by (force simp: witness_names_def)
  then have "finite (witness_names ws)" by (rule finite_subset) simp
  then have "finite (all_names refs ws groups)" by (simp add: all_names_def dict_names_def)
  then have "finite (fst ` set ws \<times> all_names refs ws groups)" by simp
  then show ?thesis by (rule rev_finite_subset) (auto simp: lacking_def)
qed

lemma dict_get_names: "set (dict_get d k []) \<subseteq> dict_names d"
proof (cases "map_of d k")
  case (Some v)
  then have "(k, v) \<in> set d" by (rule map_of_SomeD)
  with Some show ?thesis by (force simp: dict_get_def dict_names_def)
qed (simp add: dict_get_def)

lemma collect_premises_names:
  assumes "collect_premises tick refs groups ps acc b = Some (acc', b')"
  shows "set acc' = set acc \<union> (\<Union>p\<in>set ps. set (premise_groups refs groups p))"
  using assms by (induction ps arbitrary: acc b) (auto simp: bind_eq_Some_conv)

definition support_groups :: "ref_groups \<Rightarrow> atom_groups \<Rightarrow> SupportWitness \<Rightarrow> string set" where
  "support_groups refs groups w =
     set_option (sw_source_group w) \<union> (\<Union>p\<in>set (sw_premises w). set (premise_groups refs groups p))"

lemma collect_supports_names:
  assumes "collect_supports tick refs groups ws acc b = Some (acc', b')"
  shows "set acc' = set acc \<union> (\<Union>w\<in>set ws. support_groups refs groups w)"
  using assms
proof (induction ws arbitrary: acc b)
  case (Cons w ws)
  then obtain b1 acc1 b2 where
    p: "collect_premises tick refs groups (sw_premises w) (own_group w acc) b1 = Some (acc1, b2)"
    and r: "collect_supports tick refs groups ws acc1 b2 = Some (acc', b')"
    by (auto simp: bind_eq_Some_conv)
  have "set (own_group w acc) = set acc \<union> set_option (sw_source_group w)"
    by (auto simp: own_group_def split: option.splits)
  then show ?case
    using collect_premises_names[OF p] Cons.IH[OF r] by (auto simp: support_groups_def)
qed simp

lemma premise_groups_names: "set (premise_groups refs groups p) \<subseteq> all_names refs ws groups"
proof (cases p)
  case (PropositionPremise a)
  then show ?thesis using dict_get_names[of groups a] by (auto simp: premise_groups_def all_names_def)
next
  case (EvidencePremise r)
  then show ?thesis using dict_get_names[of refs r] by (auto simp: premise_groups_def all_names_def)
qed

lemma support_groups_names:
  "(a, sws) \<in> set ws \<Longrightarrow> w \<in> set sws \<Longrightarrow> support_groups refs groups w \<subseteq> all_names refs ws groups"
proof -
  assume "(a, sws) \<in> set ws" and w: "w \<in> set sws"
  then have "w \<in> \<Union> (set ` snd ` set ws)" by force
  then have "set_option (sw_source_group w) \<subseteq> all_names refs ws groups"
    unfolding all_names_def witness_names_def by (cases "sw_source_group w") auto
  then show ?thesis unfolding support_groups_def by (intro Un_least UN_least premise_groups_names)
qed

lemma names_dict_set:
  assumes "set v \<subseteq> all_names refs ws groups"
  shows "all_names refs ws (dict_set a v groups) \<subseteq> all_names refs ws groups"
proof -
  have "dict_names (dict_set a v groups) \<subseteq> set v \<union> dict_names groups"
    by (induction groups) (auto simp: dict_names_def)
  with assms show ?thesis unfolding all_names_def by blast
qed

lemma groups_pass_grows:
  assumes "groups_pass tick refs ws groups changed b = Some (groups', changed', b')"
    and "set ws \<subseteq> set all"
  shows "all_names refs all groups' \<subseteq> all_names refs all groups \<and>
    (\<forall>a. set (dict_get groups a []) \<subseteq> set (dict_get groups' a [])) \<and>
    (changed' \<longrightarrow> changed \<or> lacking refs all groups' \<subset> lacking refs all groups)"
  using assms
proof (induction ws arbitrary: groups changed b)
  case Nil
  then show ?case by auto
next
  case (Cons aw ws)
  obtain a sws where aw: "aw = (a, sws)" by (cases aw)
  from Cons.prems(1) aw obtain c b1 where c: "collect_supports tick refs groups sws [] b = Some (c, b1)"
    by (auto simp: bind_eq_Some_conv)
  have names: "set c \<subseteq> all_names refs all groups"
    using collect_supports_names[OF c] support_groups_names[of a sws all] Cons.prems(2) aw by fastforce
  show ?case
  proof (cases "set c \<subseteq> set (dict_get groups a [])")
    case True
    with Cons.prems aw c have "groups_pass tick refs ws groups changed b1 = Some (groups', changed', b')"
      by simp
    with Cons.prems(2) show ?thesis by (intro Cons.IH) auto
  next
    case False
    let ?g = "dict_set a (List.union (dict_get groups a []) c) groups"
    have own: "set (dict_get groups a []) \<subseteq> all_names refs all groups"
      using dict_get_names[of groups a] by (auto simp: all_names_def)
    have n: "all_names refs all ?g \<subseteq> all_names refs all groups"
      using names own by (intro names_dict_set) auto
    have IH: "all_names refs all groups' \<subseteq> all_names refs all ?g"
      "\<forall>k. set (dict_get ?g k []) \<subseteq> set (dict_get groups' k [])"
      using Cons.IH[of ?g True b1] Cons.prems False aw c by auto
    from False obtain s where s: "s \<in> set c" "s \<notin> set (dict_get groups a [])" by auto
    with IH(2)[rule_format, of a] have s': "s \<in> set (dict_get groups' a [])" by auto
    have keep: "set (dict_get groups k []) \<subseteq> set (dict_get groups' k [])" for k
      using IH(2)[rule_format, of k] by (auto split: if_splits)
    have "a \<in> fst ` set all" using Cons.prems(2) aw by force
    with s s' names have "(a, s) \<in> lacking refs all groups - lacking refs all groups'"
      by (auto simp: lacking_def)
    moreover have "lacking refs all groups' \<subseteq> lacking refs all groups"
      using IH(1) n keep by (auto simp: lacking_def)
    ultimately show ?thesis using IH(1) n keep by blast
  qed
qed

function groups_loop ::
  "('b \<Rightarrow> 'b option) \<Rightarrow> ref_groups \<Rightarrow> witnesses \<Rightarrow> atom_groups \<Rightarrow> 'b \<Rightarrow> (atom_groups \<times> 'b) option" where
  "groups_loop tick refs ws groups b =
     (case groups_pass tick refs ws groups False b of
        None \<Rightarrow> None
      | Some (groups', changed, b') \<Rightarrow>
          if changed then groups_loop tick refs ws groups' b' else Some (groups', b'))"
  by pat_completeness auto
termination
  by (relation "measure (\<lambda>(tick, refs, ws, groups, b). card (lacking refs ws groups))")
    (auto intro!: psubset_card_mono finite_lacking dest!: groups_pass_grows[where all = ws for ws, OF _ subset_refl])

definition source_groups ::
  "('b \<Rightarrow> 'b option) \<Rightarrow> witnesses \<Rightarrow> ref_groups \<Rightarrow> 'b \<Rightarrow> (atom_groups \<times> 'b) option" where
  "source_groups tick ws refs b = groups_loop tick refs ws (map (\<lambda>(a, _). (a, [])) ws) b"

fun support_paths_of ::
  "('b \<Rightarrow> 'b option) \<Rightarrow> ref_groups \<Rightarrow> atom_groups \<Rightarrow> SupportWitness list \<Rightarrow> string list list \<Rightarrow> 'b
    \<Rightarrow> (string list list \<times> 'b) option" where
  "support_paths_of tick refs groups [] paths b = Some (paths, b)"
| "support_paths_of tick refs groups (w # ws) paths b =
     Option.bind (tick b) (\<lambda>b.
     Option.bind (collect_premises tick refs groups (sw_premises w) (own_group w []) b) (\<lambda>(c, b).
       support_paths_of tick refs groups ws (paths @ [c]) b))"

fun path_groups ::
  "('b \<Rightarrow> 'b option) \<Rightarrow> witnesses \<Rightarrow> atom_groups \<Rightarrow> ref_groups \<Rightarrow> 'b
    \<Rightarrow> ((Atom \<times> string list list) list \<times> 'b) option" where
  "path_groups tick [] groups refs b = Some ([], b)"
| "path_groups tick ((a, ws) # rest) groups refs b =
     Option.bind (support_paths_of tick refs groups ws [] b) (\<lambda>(paths, b).
     Option.bind (path_groups tick rest groups refs b) (\<lambda>(out, b).
       Some ((a, paths) # out, b)))"

fun proposition_atoms ::
  "('b \<Rightarrow> 'b option) \<Rightarrow> Premise list \<Rightarrow> Atom list \<Rightarrow> 'b \<Rightarrow> (Atom list \<times> 'b) option" where
  "proposition_atoms tick [] acc b = Some (acc, b)"
| "proposition_atoms tick (p # ps) acc b =
     Option.bind (tick b) (\<lambda>b.
       proposition_atoms tick ps
         (case p of PropositionPremise a \<Rightarrow> acc @ [a] | EvidencePremise _ \<Rightarrow> acc) b)"

text \<open>The inner loop over the supports of one atom: does one of them rest on clean atoms only?\<close>

fun clean_support ::
  "('b \<Rightarrow> 'b option) \<Rightarrow> Atom list \<Rightarrow> SupportWitness list \<Rightarrow> 'b \<Rightarrow> (bool \<times> 'b) option" where
  "clean_support tick clean [] b = Some (False, b)"
| "clean_support tick clean (w # ws) b =
     Option.bind (tick b) (\<lambda>b.
       if sw_assumptions w \<noteq> [] then clean_support tick clean ws b
       else Option.bind (proposition_atoms tick (sw_premises w) [] b) (\<lambda>(atoms, b).
         if list_all (\<lambda>a. a \<in> set clean) atoms then Some (True, b)
         else clean_support tick clean ws b))"

fun clean_pass ::
  "('b \<Rightarrow> 'b option) \<Rightarrow> witnesses \<Rightarrow> Atom list \<Rightarrow> bool \<Rightarrow> 'b \<Rightarrow> (Atom list \<times> bool \<times> 'b) option" where
  "clean_pass tick [] clean changed b = Some (clean, changed, b)"
| "clean_pass tick ((a, ws) # rest) clean changed b =
     Option.bind (tick b) (\<lambda>b.
       if a \<in> set clean then clean_pass tick rest clean changed b
       else Option.bind (clean_support tick clean ws b) (\<lambda>(found, b).
         if found then clean_pass tick rest (a # clean) True b
         else clean_pass tick rest clean changed b))"

lemma clean_pass_grows:
  assumes "clean_pass tick ws clean changed b = Some (clean', changed', b')"
  shows "set clean \<subseteq> set clean' \<and> set clean' \<subseteq> set clean \<union> fst ` set ws \<and>
    (changed' \<longrightarrow> changed \<or> (\<exists>a \<in> fst ` set ws. a \<notin> set clean \<and> a \<in> set clean'))"
  using assms
proof (induction ws arbitrary: clean changed b)
  case (Cons aw ws)
  obtain a sws where aw: "aw = (a, sws)" by (cases aw)
  from Cons.prems aw consider
    (skip) b1 where "clean_pass tick ws clean changed b1 = Some (clean', changed', b')"
  | (add) b1 where "a \<notin> set clean" "clean_pass tick ws (a # clean) True b1 = Some (clean', changed', b')"
    by (fastforce simp: bind_eq_Some_conv split: if_splits)
  then show ?case
  proof cases
    case skip
    from Cons.IH[OF this] aw show ?thesis by auto
  next
    case add
    from Cons.IH[OF add(2)] add(1) aw show ?thesis by auto
  qed
qed simp

function clean_loop ::
  "('b \<Rightarrow> 'b option) \<Rightarrow> witnesses \<Rightarrow> Atom list \<Rightarrow> 'b \<Rightarrow> (Atom list \<times> 'b) option" where
  "clean_loop tick ws clean b =
     (case clean_pass tick ws clean False b of
        None \<Rightarrow> None
      | Some (clean', changed, b') \<Rightarrow>
          if changed then clean_loop tick ws clean' b' else Some (clean', b'))"
  by pat_completeness auto
termination
  by (relation "measure (\<lambda>(tick, ws, clean, b). card (fst ` set ws - set clean))")
    (auto intro!: psubset_card_mono dest!: clean_pass_grows)

definition assumption_backed ::
  "('b \<Rightarrow> 'b option) \<Rightarrow> witnesses \<Rightarrow> 'b \<Rightarrow> (Atom list \<times> 'b) option" where
  "assumption_backed tick ws b =
     Option.bind (clean_loop tick ws [] b) (\<lambda>(clean, b).
       Some (filter (\<lambda>a. a \<notin> set clean) (dict_keys ws), b))"

section \<open>Disjoint support paths\<close>

function (sequential) walk ::
    "nat \<Rightarrow> string list list \<Rightarrow> string list \<Rightarrow> nat \<Rightarrow> nat \<Rightarrow> nat"
  and walk_from :: "nat \<Rightarrow> string list list \<Rightarrow> string list \<Rightarrow> nat \<Rightarrow> nat \<Rightarrow> nat" where
  "walk wanted candidates used chosen best =
     (let best = max best chosen in
      if wanted \<le> best then best else walk_from wanted candidates used chosen best)"
| "walk_from wanted [] used chosen best = best"
| "walk_from wanted (g # gs) used chosen best =
     (if set g \<inter> set used \<noteq> {} then walk_from wanted gs used chosen best
      else let best = walk wanted gs (List.union used g) (chosen + 1) best in
        if wanted \<le> best then best else walk_from wanted gs used chosen best)"
  by pat_completeness auto
termination
  by (relation "measure (\<lambda>x. case x of Inl (_, cs, _) \<Rightarrow> 2 * length cs + 1 | Inr (_, cs, _) \<Rightarrow> 2 * length cs)")
    auto

definition max_disjoint_paths :: "string list list \<Rightarrow> int \<Rightarrow> nat" where
  "max_disjoint_paths paths wanted =
     (if wanted \<le> 0 then 0
      else walk (nat wanted)
        (sort_key (\<lambda>p. length (remdups p)) (take MAX_INDEPENDENCE_PATHS paths)) [] 0 0)"

section \<open>The fixpoint\<close>

record closure_state =
  st_witnesses :: witnesses
  st_admitted :: "string list"
  st_evidence_refs :: "EvidenceRef list"
  st_ref_groups :: ref_groups
  st_nodes :: int

definition empty_closure :: closure_state where
  "empty_closure = \<lparr>st_witnesses = [], st_admitted = [], st_evidence_refs = [], st_ref_groups = [], st_nodes = 0\<rparr>"

fun assumption_entries :: "(string \<times> json) list \<Rightarrow> contract_error + (string \<times> bool) list" where
  "assumption_entries [] = Inr []"
| "assumption_entries ((n, v) # rest) =
     rbind (identifier_of (JStr n) ''assumptions.key'') (\<lambda>n'.
     rbind (flag v (''assumptions.'' @ n)) (\<lambda>b.
     rbind (assumption_entries rest) (\<lambda>st. Inr ((n', b) # st))))"

definition assumption_state :: "(string \<times> json) list option \<Rightarrow> contract_error + (string \<times> bool) list" where
  "assumption_state a = (case a of None \<Rightarrow> Inr [] | Some d \<Rightarrow> assumption_entries d)"

definition anchor_witness :: "Anchor \<Rightarrow> SupportWitness" where
  "anchor_witness a =
     \<lparr>sw_atom = an_atom a, sw_kind = WK_ANCHOR, sw_signature = an_signature a, sw_rule_version = None,
      sw_premises = [], sw_source_group = Some (an_source_group a), sw_depth = 0, sw_assumptions = []\<rparr>"

definition admit_anchor :: "Anchor \<Rightarrow> closure_state \<Rightarrow> closure_state" where
  "admit_anchor a st =
     (let st = st\<lparr>st_admitted := List.insert (an_signature a) (st_admitted st),
                  st_nodes := st_nodes st + 1,
                  st_witnesses := dict_append (an_atom a) (anchor_witness a) (st_witnesses st)\<rparr> in
      case an_evidence_ref a of
        None \<Rightarrow> st
      | Some r \<Rightarrow>
          st\<lparr>st_evidence_refs := List.insert r (st_evidence_refs st),
             st_ref_groups := dict_set r
               (List.insert (an_source_group a) (dict_get (st_ref_groups st) r [])) (st_ref_groups st)\<rparr>)"

text \<open>Seeding stops at the budget; the flag is the source's \<open>incomplete\<close>.\<close>

fun seed_anchors :: "int \<Rightarrow> Anchor list \<Rightarrow> closure_state \<Rightarrow> closure_state \<times> bool" where
  "seed_anchors budget [] st = (st, False)"
| "seed_anchors budget (a # as) st =
     (if an_signature a \<in> set (st_admitted st) then seed_anchors budget as st
      else if budget \<le> st_nodes st then (st, True)
      else seed_anchors budget as (admit_anchor a st))"

fun premise_depth :: "witnesses \<Rightarrow> EvidenceRef list \<Rightarrow> Premise list \<Rightarrow> int \<Rightarrow> int option" where
  "premise_depth ws refs [] depth = Some depth"
| "premise_depth ws refs (EvidencePremise r # ps) depth =
     (if r \<notin> set refs then None else premise_depth ws refs ps depth)"
| "premise_depth ws refs (PropositionPremise a # ps) depth =
     (case dict_get ws a [] of
        [] \<Rightarrow> None
      | s # ss \<Rightarrow> premise_depth ws refs ps
          (max depth (foldl min (sw_depth s) (map sw_depth ss))))"

fun conditions_used :: "(string \<times> bool) list \<Rightarrow> RuleCondition list \<Rightarrow> string list \<Rightarrow> string list option" where
  "conditions_used state [] used = Some used"
| "conditions_used state (c # cs) used =
     (if map_of state (cond_name c) \<noteq> Some True then None
      else conditions_used state cs (used @ [cond_name c]))"

definition premises_satisfied ::
  "JustificationSet \<Rightarrow> witnesses \<Rightarrow> EvidenceRef list \<Rightarrow> (string \<times> bool) list \<Rightarrow> (int \<times> string list) option" where
  "premises_satisfied j ws refs state =
     Option.bind (premise_depth ws refs (js_premises j) 0) (\<lambda>depth.
     Option.bind (conditions_used state (js_conditions j) []) (\<lambda>used. Some (depth, used)))"

definition derived_witness ::
  "(json \<Rightarrow> string) \<Rightarrow> JustificationSet \<Rightarrow> int \<Rightarrow> string list \<Rightarrow> SupportWitness" where
  "derived_witness H j depth used =
     \<lparr>sw_atom = js_atom j, sw_kind = WK_DERIVED, sw_signature = js_signature H j,
      sw_rule_version = Some (js_rule_version j), sw_premises = js_premises j,
      sw_source_group = js_source_group j, sw_depth = depth + 1, sw_assumptions = used\<rparr>"

definition admit_rule ::
  "(json \<Rightarrow> string) \<Rightarrow> JustificationSet \<Rightarrow> int \<Rightarrow> string list \<Rightarrow> closure_state \<Rightarrow> closure_state" where
  "admit_rule H j depth used st =
     st\<lparr>st_admitted := List.insert (js_signature H j) (st_admitted st),
        st_nodes := st_nodes st + 1,
        st_witnesses := dict_append (js_atom j) (derived_witness H j depth used) (st_witnesses st)\<rparr>"

fun fire_all ::
  "(json \<Rightarrow> string) \<Rightarrow> int \<Rightarrow> (JustificationSet \<times> int \<times> string list) list \<Rightarrow> closure_state
    \<Rightarrow> closure_state \<times> bool" where
  "fire_all H budget [] st = (st, False)"
| "fire_all H budget ((j, depth, used) # rest) st =
     (if budget \<le> st_nodes st then (st, True)
      else fire_all H budget rest (admit_rule H j depth used st))"

text \<open>One pass over the pending groups, which are all tested against the same witnesses.\<close>

fun split_pending ::
  "closure_state \<Rightarrow> (string \<times> bool) list \<Rightarrow> JustificationSet list
    \<Rightarrow> (JustificationSet \<times> int \<times> string list) list \<times> JustificationSet list" where
  "split_pending st state [] = ([], [])"
| "split_pending st state (j # js) =
     (let (fired, remaining) = split_pending st state js in
      case premises_satisfied j (st_witnesses st) (st_evidence_refs st) state of
        None \<Rightarrow> (fired, j # remaining)
      | Some (depth, used) \<Rightarrow> ((j, depth, used) # fired, remaining))"

lemma split_pending_length:
  "split_pending st state js = (fired, remaining) \<Longrightarrow> length fired + length remaining = length js"
  by (induction js arbitrary: fired remaining) (auto split: prod.splits option.splits)

function rounds ::
  "(json \<Rightarrow> string) \<Rightarrow> int \<Rightarrow> (string \<times> bool) list \<Rightarrow> JustificationSet list \<Rightarrow> closure_state
    \<Rightarrow> closure_state \<times> bool" where
  "rounds H budget state pending st =
     (if pending = [] then (st, False)
      else let (fired, remaining) = split_pending st state pending in
        if fired = [] then (st, False)
        else let (st', incomplete) = fire_all H budget fired st in
          if incomplete then (st', True) else rounds H budget state remaining st')"
  by pat_completeness auto
termination
  by (relation "measure (\<lambda>(H, budget, state, pending, st). length pending)")
    (auto simp flip: length_greater_0_conv dest!: split_pending_length[OF sym])

record ClosureResult =
  cr_status :: ClosureStatus
  cr_witnesses :: witnesses
  cr_source_groups :: atom_groups
  cr_path_groups :: "(Atom \<times> string list list) list"
  cr_assumption_backed :: "Atom list"
  cr_admitted_signatures :: "string list"
  cr_node_count :: int
  cr_node_budget :: int

text \<open>The three analyses without a hook never stop early; the \<^const>\<open>None\<close> branches below are
  unreachable (\<open>analyses_total\<close>).\<close>

definition closure_result :: "ClosureStatus \<Rightarrow> closure_state \<Rightarrow> int \<Rightarrow> ClosureResult" where
  "closure_result status st budget =
     (let ws = st_witnesses st; refs = st_ref_groups st;
          groups = (case source_groups Some ws refs () of Some (g, _) \<Rightarrow> g | None \<Rightarrow> []);
          paths = (case path_groups Some ws groups refs () of Some (p, _) \<Rightarrow> p | None \<Rightarrow> []);
          assumed = (case assumption_backed Some ws () of Some (a, _) \<Rightarrow> a | None \<Rightarrow> [])
      in \<lparr>cr_status = status, cr_witnesses = ws, cr_source_groups = groups, cr_path_groups = paths,
          cr_assumption_backed = assumed, cr_admitted_signatures = st_admitted st,
          cr_node_count = st_nodes st, cr_node_budget = budget\<rparr>)"

definition run_closure ::
  "(json \<Rightarrow> string) \<Rightarrow> JustificationSet list \<Rightarrow> Anchor list \<Rightarrow> int \<Rightarrow> (string \<times> bool) list
    \<Rightarrow> closure_state \<times> bool" where
  "run_closure H js anchors budget state =
     (let (st, incomplete) = seed_anchors budget anchors empty_closure in
      if incomplete then (st, True) else rounds H budget state js st)"

definition grounded_closure ::
  "(json \<Rightarrow> string) \<Rightarrow> SupportGraph \<Rightarrow> Anchor list \<Rightarrow> int \<Rightarrow> (string \<times> json) list option
    \<Rightarrow> contract_error + ClosureResult" where
  "grounded_closure H g anchors node_budget assumptions =
     rbind (index_min 1 (JInt node_budget) ''node_budget'') (\<lambda>budget.
     rbind (assumption_state assumptions) (\<lambda>state.
     let (st, incomplete) = run_closure H (justifications H g) anchors budget state in
     Inr (closure_result (if incomplete then CS_EVALUATION_INCOMPLETE else CS_COMPLETE) st budget)))"

section \<open>The answers of a result\<close>

definition is_complete :: "ClosureResult \<Rightarrow> bool" where
  "is_complete r \<longleftrightarrow> cr_status r = CS_COMPLETE"

definition witnesses_for :: "ClosureResult \<Rightarrow> Atom \<Rightarrow> SupportWitness list" where
  "witnesses_for r a = dict_get (cr_witnesses r) a []"

definition reached :: "ClosureResult \<Rightarrow> Atom \<Rightarrow> bool" where
  "reached r a \<longleftrightarrow> dict_get (cr_witnesses r) a [] \<noteq> []"

text \<open>A query by key builds an \<open>Atom\<close>, whose constructor validates the key.\<close>

definition query_atom :: "string \<Rightarrow> Polarity \<Rightarrow> contract_error + Atom" where
  "query_atom key p = make_Atom (JStr key) (JStr (str_Polarity p))"

definition support_for :: "ClosureResult \<Rightarrow> string \<Rightarrow> contract_error + SupportCount" where
  "support_for r key =
     rbind (query_atom key POSITIVE) (\<lambda>pos.
     rbind (query_atom key NEGATIVE) (\<lambda>neg.
     support_count (int (length (witnesses_for r pos))) (int (length (witnesses_for r neg)))))"

definition truth_for :: "ClosureResult \<Rightarrow> string \<Rightarrow> contract_error + TruthValue" where
  "truth_for r key = rbind (support_for r key) (\<lambda>s. Inr (sc_truth s))"

definition independent_source_groups ::
  "ClosureResult \<Rightarrow> string \<Rightarrow> Polarity \<Rightarrow> contract_error + string list" where
  "independent_source_groups r key p =
     rbind (query_atom key p) (\<lambda>a. Inr (dict_get (cr_source_groups r) a []))"

definition support_paths :: "ClosureResult \<Rightarrow> string \<Rightarrow> Polarity \<Rightarrow> contract_error + string list list" where
  "support_paths r key p = rbind (query_atom key p) (\<lambda>a. Inr (dict_get (cr_path_groups r) a []))"

definition satisfies_independence ::
  "ClosureResult \<Rightarrow> string \<Rightarrow> int \<Rightarrow> Polarity \<Rightarrow> contract_error + bool" where
  "satisfies_independence r key required p =
     rbind (index_min 1 (JInt required) ''required'') (\<lambda>wanted.
     rbind (support_paths r key p) (\<lambda>paths.
     Inr (wanted \<le> int (max_disjoint_paths (filter (\<lambda>g. g \<noteq> []) paths) wanted))))"

definition rests_on_assumption :: "ClosureResult \<Rightarrow> string \<Rightarrow> Polarity \<Rightarrow> contract_error + bool" where
  "rests_on_assumption r key p =
     rbind (query_atom key p) (\<lambda>a. Inr (a \<in> set (cr_assumption_backed r)))"

definition require_complete :: "ClosureResult \<Rightarrow> contract_error + unit" where
  "require_complete r =
     (if \<not> is_complete r then Inl (CE_rule ''EVALUATION_INCOMPLETE'') else Inr ())"

definition release_block_reason ::
  "ClosureResult \<Rightarrow> string \<Rightarrow> bool \<Rightarrow> Polarity \<Rightarrow> contract_error + BlockReason option" where
  "release_block_reason r key high_risk p =
     (if \<not> is_complete r then Inr (Some EVALUATION_INCOMPLETE)
      else rbind (support_for r key) (\<lambda>support.
        let truth = sc_truth support;
            wanted = (if p = POSITIVE then sc_t support else sc_f support) in
        if truth = TV_CONFLICT then Inr (Some CONFLICTING_EVIDENCE)
        else if wanted = 0 then Inr (Some (if truth = TV_UNKNOWN then UNKNOWN_EVIDENCE else REFUTED))
        else if high_risk then
          rbind (rests_on_assumption r key p) (\<lambda>assumed.
          Inr (if assumed then Some UNVERIFIED_ASSUMPTION else None))
        else Inr None))"

definition may_release :: "ClosureResult \<Rightarrow> string \<Rightarrow> bool \<Rightarrow> Polarity \<Rightarrow> contract_error + bool" where
  "may_release r key high_risk p =
     rbind (release_block_reason r key high_risk p) (\<lambda>reason. Inr (reason = None))"

end
