(* ===== verification/Closure_Correct.thy ===== *)
theory Closure_Correct
  imports Closure "HOL-Library.Sublist"
begin

text \<open>
  Correctness of the grounded fixpoint. \<open>derivable\<close> is the specification, an inductive definition
  that says nothing about rounds, budgets or dictionaries; \<open>run_of H S F st\<close> says that a state of
  the code is what admitting the anchors \<open>S\<close> and then firing the groups \<open>F\<close> gives. The properties
  state the code's result in terms of \<open>derivable\<close>.
\<close>

section \<open>Specification\<close>

definition evidence_ok :: "Anchor list \<Rightarrow> JustificationSet \<Rightarrow> bool" where
  "evidence_ok S j \<longleftrightarrow>
     (\<forall>r. EvidencePremise r \<in> set (js_premises j) \<longrightarrow> (\<exists>a\<in>set S. an_evidence_ref a = Some r))"

definition conditions_ok :: "(string \<times> bool) list \<Rightarrow> JustificationSet \<Rightarrow> bool" where
  "conditions_ok state j \<longleftrightarrow> (\<forall>c\<in>set (js_conditions j). map_of state (cond_name c) = Some True)"

inductive derivable :: "Anchor list \<Rightarrow> JustificationSet list \<Rightarrow> (string \<times> bool) list \<Rightarrow> Atom \<Rightarrow> bool"
  for S js state where
  seed: "a \<in> set S \<Longrightarrow> derivable S js state (an_atom a)"
| rule: "j \<in> set js \<Longrightarrow> (\<forall>p. PropositionPremise p \<in> set (js_premises j) \<longrightarrow> derivable S js state p) \<Longrightarrow>
    evidence_ok S j \<Longrightarrow> conditions_ok state j \<Longrightarrow> derivable S js state (js_atom j)"

definition enabled :: "Atom set \<Rightarrow> Anchor list \<Rightarrow> (string \<times> bool) list \<Rightarrow> JustificationSet \<Rightarrow> bool" where
  "enabled X S state j \<longleftrightarrow>
     (\<forall>p. PropositionPremise p \<in> set (js_premises j) \<longrightarrow> p \<in> X) \<and> evidence_ok S j \<and> conditions_ok state j"

abbreviation fires :: "Anchor list \<Rightarrow> JustificationSet list \<Rightarrow> (string \<times> bool) list \<Rightarrow> JustificationSet \<Rightarrow> bool" where
  "fires S js state \<equiv> enabled (Collect (derivable S js state)) S state"

lemma enabled_mono: "enabled X S state j \<Longrightarrow> X \<subseteq> Y \<Longrightarrow> enabled Y S state j"
  by (auto simp: enabled_def)

lemma derivable_fires: "j \<in> set js \<Longrightarrow> fires S js state j \<Longrightarrow> derivable S js state (js_atom j)"
  by (rule rule) (auto simp: enabled_def)

lemma derivable_mono:
  assumes "derivable S js state a" and "set S \<subseteq> set S'" and "set js \<subseteq> set js'"
    and "\<And>n. map_of state n = Some True \<Longrightarrow> map_of state' n = Some True"
  shows "derivable S' js' state' a"
  using assms
proof (induction rule: derivable.induct)
  case (seed a)
  then show ?case by (auto intro: derivable.seed)
next
  case (rule j)
  then show ?case
    by (intro derivable.rule) (auto simp: evidence_ok_def conditions_ok_def subset_iff, blast)
qed

text \<open>A set with no way in from outside is never entered.\<close>

lemma unfounded_not_derivable:
  assumes "derivable S js state a"
    and "\<And>x. x \<in> set S \<Longrightarrow> an_atom x \<notin> U"
    and "\<And>j. j \<in> set js \<Longrightarrow> js_atom j \<in> U \<Longrightarrow> \<exists>p\<in>U. PropositionPremise p \<in> set (js_premises j)"
  shows "a \<notin> U"
  using assms by (induction rule: derivable.induct) blast+

lemma derivable_least:
  assumes "derivable S js state a"
    and "\<And>x. x \<in> set S \<Longrightarrow> an_atom x \<in> X"
    and "\<And>j. j \<in> set js \<Longrightarrow> enabled X S state j \<Longrightarrow> js_atom j \<in> X"
  shows "a \<in> X"
  using assms by (induction rule: derivable.induct) (auto simp: enabled_def)

section \<open>What a state of the run means\<close>

definition core :: "SupportWitness \<Rightarrow> string \<times> Premise list \<times> string option \<times> string list" where
  "core w = (sw_signature w, sw_premises w, sw_source_group w, sw_assumptions w)"

definition anchor_core :: "Anchor \<Rightarrow> string \<times> Premise list \<times> string option \<times> string list" where
  "anchor_core a = (an_signature a, [], Some (an_source_group a), [])"

definition rule_core ::
  "(json \<Rightarrow> string) \<Rightarrow> JustificationSet \<Rightarrow> string \<times> Premise list \<times> string option \<times> string list" where
  "rule_core H j = (js_signature H j, js_premises j, js_source_group j, map cond_name (js_conditions j))"

definition witnesses_ok ::
  "(json \<Rightarrow> string) \<Rightarrow> Anchor list \<Rightarrow> JustificationSet list \<Rightarrow> witnesses \<Rightarrow> bool" where
  "witnesses_ok H S F ws \<longleftrightarrow>
     (\<forall>a. map core (dict_get ws a []) =
        map anchor_core (filter (\<lambda>x. an_atom x = a) S) @ map (rule_core H) (filter (\<lambda>j. js_atom j = a) F)) \<and>
     distinct (dict_keys ws) \<and> (\<forall>sws\<in>snd ` set ws. sws \<noteq> [])"

definition refs_ok :: "Anchor list \<Rightarrow> EvidenceRef list \<Rightarrow> ref_groups \<Rightarrow> bool" where
  "refs_ok S refs groups \<longleftrightarrow>
     (\<forall>r. r \<in> set refs \<longleftrightarrow> (\<exists>x\<in>set S. an_evidence_ref x = Some r)) \<and>
     (\<forall>r s. s \<in> set (dict_get groups r []) \<longleftrightarrow>
        (\<exists>x\<in>set S. an_evidence_ref x = Some r \<and> an_source_group x = s))"

definition run_of ::
  "(json \<Rightarrow> string) \<Rightarrow> Anchor list \<Rightarrow> JustificationSet list \<Rightarrow> closure_state \<Rightarrow> bool" where
  "run_of H S F st \<longleftrightarrow>
     witnesses_ok H S F (st_witnesses st) \<and> refs_ok S (st_evidence_refs st) (st_ref_groups st) \<and>
     st_nodes st = int (length S) + int (length F)"

abbreviation atoms_of :: "Anchor list \<Rightarrow> JustificationSet list \<Rightarrow> Atom set" where
  "atoms_of S F \<equiv> an_atom ` set S \<union> js_atom ` set F"

lemma run_of_reached:
  assumes "run_of H S F st"
  shows "dict_get (st_witnesses st) a [] \<noteq> [] \<longleftrightarrow> a \<in> atoms_of S F"
proof -
  have "map core (dict_get (st_witnesses st) a []) = map anchor_core (filter (\<lambda>x. an_atom x = a) S)
      @ map (rule_core H) (filter (\<lambda>j. js_atom j = a) F)" (is "_ = ?r")
    using assms by (simp add: run_of_def witnesses_ok_def)
  moreover have "?r = [] \<longleftrightarrow> a \<notin> atoms_of S F" by (auto simp: filter_empty_conv)
  ultimately show ?thesis by (metis map_is_Nil_conv)
qed

lemma run_of_empty: "run_of H [] [] empty_closure"
  by (simp add: run_of_def empty_closure_def witnesses_ok_def refs_ok_def)

lemma dict_append_nonempty:
  "\<forall>ws\<in>snd ` set d. ws \<noteq> [] \<Longrightarrow> \<forall>ws\<in>snd ` set (dict_append k v d). ws \<noteq> []"
proof -
  have "snd ` set (dict_set k x d) \<subseteq> insert x (snd ` set d)" for x
    by (induction d) auto
  then show "\<forall>ws\<in>snd ` set d. ws \<noteq> [] \<Longrightarrow> \<forall>ws\<in>snd ` set (dict_append k v d). ws \<noteq> []"
    unfolding dict_append_def by blast
qed

lemma distinct_dict_append: "distinct (dict_keys d) \<Longrightarrow> distinct (dict_keys (dict_append k v d))"
  unfolding dict_append_def by (rule distinct_dict_set)

lemma core_anchor_witness [simp]: "core (anchor_witness a) = anchor_core a"
  by (simp add: core_def anchor_witness_def anchor_core_def)

lemma witnesses_ok_anchor:
  "witnesses_ok H S [] ws \<Longrightarrow>
     witnesses_ok H (S @ [a]) [] (dict_append (an_atom a) (anchor_witness a) ws)"
  unfolding witnesses_ok_def
  by (intro conjI distinct_dict_append dict_append_nonempty) (simp_all add: dict_get_append)

lemma witnesses_ok_rule:
  assumes "witnesses_ok H S F ws"
  shows "witnesses_ok H S (F @ [j])
    (dict_append (js_atom j) (derived_witness H j depth (map cond_name (js_conditions j))) ws)"
proof -
  have "core (derived_witness H j depth (map cond_name (js_conditions j))) = rule_core H j"
    by (simp add: core_def derived_witness_def rule_core_def)
  with assms show ?thesis
    unfolding witnesses_ok_def
    by (intro conjI distinct_dict_append dict_append_nonempty) (simp_all add: dict_get_append)
qed

lemma refs_ok_none: "refs_ok S refs groups \<Longrightarrow> an_evidence_ref a = None \<Longrightarrow> refs_ok (S @ [a]) refs groups"
  by (auto simp: refs_ok_def)

lemma refs_ok_some:
  "refs_ok S refs groups \<Longrightarrow> an_evidence_ref a = Some r \<Longrightarrow>
     refs_ok (S @ [a]) (List.insert r refs)
       (dict_set r (List.insert (an_source_group a) (dict_get groups r [])) groups)"
  by (auto simp: refs_ok_def)

lemma run_of_admit_anchor:
  assumes "run_of H S [] st"
  shows "run_of H (S @ [a]) [] (admit_anchor a st)"
  using assms unfolding run_of_def
  by (cases "an_evidence_ref a")
    (simp_all add: admit_anchor_def Let_def witnesses_ok_anchor refs_ok_none refs_ok_some)

lemma run_of_admit_rule:
  assumes "run_of H S F st" and "used = map cond_name (js_conditions j)"
  shows "run_of H S (F @ [j]) (admit_rule H j depth used st)"
  using assms unfolding run_of_def by (simp add: admit_rule_def witnesses_ok_rule)

section \<open>Seeding\<close>

lemma admit_anchor_fields [simp]:
  "set (st_admitted (admit_anchor a st)) = insert (an_signature a) (set (st_admitted st))"
  "st_nodes (admit_anchor a st) = st_nodes st + 1"
  by (auto simp: admit_anchor_def Let_def split: option.splits)

lemma seed_anchors_result:
  assumes "seed_anchors budget as st = (st', incomplete)" and "run_of H S [] st"
    and "st_nodes st \<le> budget"
  shows "let new = first_of an_signature (set (st_admitted st)) as; k = nat (budget - st_nodes st) in
    run_of H (S @ take k new) [] st' \<and> (incomplete \<longleftrightarrow> k < length new)"
  using assms
proof (induction as arbitrary: st S)
  case (Cons a as)
  consider (dup) "an_signature a \<in> set (st_admitted st)"
    | (full) "an_signature a \<notin> set (st_admitted st)" "budget \<le> st_nodes st"
    | (admit) "an_signature a \<notin> set (st_admitted st)" "st_nodes st < budget" by linarith
  then show ?case
  proof cases
    case admit
    then have "nat (budget - st_nodes st) = Suc (nat (budget - (st_nodes st + 1)))" by linarith
    with admit Cons.prems Cons.IH[of "admit_anchor a st" "S @ [a]"] show ?thesis
      by (simp add: run_of_admit_anchor Let_def)
  qed (use Cons in \<open>simp_all add: Let_def\<close>)
qed (auto simp: Let_def)

section \<open>Firing\<close>

lemma premise_depth_defined:
  "(\<exists>d'. premise_depth ws refs ps d = Some d') \<longleftrightarrow>
     (\<forall>p. PropositionPremise p \<in> set ps \<longrightarrow> dict_get ws p [] \<noteq> []) \<and>
     (\<forall>r. EvidencePremise r \<in> set ps \<longrightarrow> r \<in> set refs)"
  by (induction ws refs ps d rule: premise_depth.induct) (auto split: list.splits)

lemma conditions_used_result:
  "conditions_used state cs used = Some u \<longleftrightarrow>
     (\<forall>c\<in>set cs. map_of state (cond_name c) = Some True) \<and> u = used @ map cond_name cs"
  by (induction cs arbitrary: used) auto

lemma satisfied_enabled:
  assumes "run_of H S F st"
  shows "(\<exists>d. premises_satisfied j (st_witnesses st) (st_evidence_refs st) state =
      Some (d, map cond_name (js_conditions j))) \<longleftrightarrow> enabled (atoms_of S F) S state j"
    and "premises_satisfied j (st_witnesses st) (st_evidence_refs st) state = Some (d, u) \<Longrightarrow>
      u = map cond_name (js_conditions j)"
proof -
  have refs: "r \<in> set (st_evidence_refs st) \<longleftrightarrow> (\<exists>x\<in>set S. an_evidence_ref x = Some r)" for r
    using assms by (simp add: run_of_def refs_ok_def)
  have "(\<exists>d'. premise_depth (st_witnesses st) (st_evidence_refs st) (js_premises j) 0 = Some d') \<longleftrightarrow>
      (\<forall>p. PropositionPremise p \<in> set (js_premises j) \<longrightarrow> p \<in> atoms_of S F) \<and> evidence_ok S j"
    unfolding premise_depth_defined run_of_reached[OF assms] refs evidence_ok_def ..
  then show "(\<exists>d. premises_satisfied j (st_witnesses st) (st_evidence_refs st) state =
      Some (d, map cond_name (js_conditions j))) \<longleftrightarrow> enabled (atoms_of S F) S state j"
    by (auto simp: premises_satisfied_def enabled_def conditions_ok_def bind_eq_Some_conv
        conditions_used_result)
qed (auto simp: premises_satisfied_def bind_eq_Some_conv conditions_used_result)

lemma satisfied_None:
  assumes "run_of H S F st"
  shows "premises_satisfied j (st_witnesses st) (st_evidence_refs st) state = None \<longleftrightarrow>
    \<not> enabled (atoms_of S F) S state j"
proof (cases "premises_satisfied j (st_witnesses st) (st_evidence_refs st) state")
  case None
  with satisfied_enabled(1)[OF assms, of j state] show ?thesis by simp
next
  case (Some du)
  then obtain d u where "premises_satisfied j (st_witnesses st) (st_evidence_refs st) state = Some (d, u)"
    by (cases du) simp
  with satisfied_enabled(2)[OF assms this] satisfied_enabled(1)[OF assms, of j state] show ?thesis by auto
qed

lemma split_pending_filter:
  assumes "run_of H S F st" and "split_pending st state js = (fired, remaining)"
  shows "map fst fired = filter (enabled (atoms_of S F) S state) js"
    and "remaining = filter (\<lambda>j. \<not> enabled (atoms_of S F) S state j) js"
    and "\<forall>(j, d, u)\<in>set fired. u = map cond_name (js_conditions j)"
  using assms(2)
proof (induction js arbitrary: fired remaining)
  case (Cons j js)
  obtain f r where fr: "split_pending st state js = (f, r)" by (cases "split_pending st state js")
  note IH = Cons.IH[OF fr]
  note none = satisfied_None[OF assms(1), of j state]
    and some = satisfied_enabled(2)[OF assms(1), of j state]
  {
    case 1
    then show ?case using IH fr none
      by (cases "premises_satisfied j (st_witnesses st) (st_evidence_refs st) state") auto
  next
    case 2
    then show ?case using IH fr none
      by (cases "premises_satisfied j (st_witnesses st) (st_evidence_refs st) state") auto
  next
    case 3
    then show ?case using IH fr some
      by (cases "premises_satisfied j (st_witnesses st) (st_evidence_refs st) state") auto
  }
qed auto

lemma fire_all_result:
  assumes "fire_all H budget fired st = (st', incomplete)" and "run_of H S F st"
    and "\<forall>(j, d, u)\<in>set fired. u = map cond_name (js_conditions j)" and "st_nodes st \<le> budget"
  shows "let k = nat (budget - st_nodes st) in
    run_of H S (F @ take k (map fst fired)) st' \<and> (incomplete \<longleftrightarrow> k < length fired)"
  using assms
proof (induction fired arbitrary: st F)
  case (Cons x fired)
  obtain j d u where x: "x = (j, d, u)" by (cases x)
  show ?case
  proof (cases "budget \<le> st_nodes st")
    case False
    have u: "u = map cond_name (js_conditions j)" using Cons.prems(3) x by simp
    have run: "run_of H S (F @ [j]) (admit_rule H j d u st)"
      using Cons.prems(2) u by (rule run_of_admit_rule)
    have nodes: "st_nodes (admit_rule H j d u st) = st_nodes st + 1" by (simp add: admit_rule_def)
    have k: "nat (budget - st_nodes st) = Suc (nat (budget - (st_nodes st + 1)))" using False by linarith
    show ?thesis
      using Cons.IH[OF _ run] Cons.prems False k nodes x by (simp add: Let_def)
  qed (use Cons.prems x in \<open>simp add: Let_def\<close>)
qed (auto simp: Let_def)

section \<open>Rounds\<close>

lemma atoms_derivable:
  assumes "set F \<subseteq> set js" and "\<forall>j\<in>set F. fires S js state j"
  shows "atoms_of S F \<subseteq> Collect (derivable S js state)"
  using assms by (auto intro: seed derivable_fires)

definition exhausted_early ::
  "Anchor list \<Rightarrow> JustificationSet list \<Rightarrow> (string \<times> bool) list \<Rightarrow> JustificationSet list \<Rightarrow> JustificationSet list \<Rightarrow> bool" where
  "exhausted_early S js state F pending \<longleftrightarrow>
     (\<exists>x. fires S js state x \<and> mset F + {#x#} \<subseteq># mset pending)"

definition saturated ::
  "Anchor list \<Rightarrow> (string \<times> bool) list \<Rightarrow> JustificationSet list \<Rightarrow> JustificationSet list \<Rightarrow> Atom set \<Rightarrow> bool" where
  "saturated S state F pending X \<longleftrightarrow>
     (\<exists>rest. mset pending = mset F + mset rest \<and> (\<forall>j\<in>set rest. \<not> enabled X S state j))"

lemma mset_filter_split: "mset xs = mset (filter P xs) + mset (filter (\<lambda>x. \<not> P x) xs)"
  by (induction xs) auto

lemma filter_mset_all: "\<forall>x\<in>set xs. P x \<Longrightarrow> filter_mset P (mset xs) = mset xs"
  by (induction xs) auto

lemma filter_mset_none: "\<forall>x\<in>set xs. \<not> P x \<Longrightarrow> filter_mset P (mset xs) = {#}"
  by (induction xs) auto

lemma rounds_result:
  assumes "rounds H budget state pending st = (st', incomplete)" and "run_of H S F st"
    and "st_nodes st \<le> budget" and "set pending \<subseteq> set js" and "set F \<subseteq> set js"
    and "\<forall>j\<in>set F. fires S js state j"
  shows "\<exists>F'. run_of H S (F @ F') st' \<and> set F' \<subseteq> set js \<and> (\<forall>j\<in>set F'. fires S js state j) \<and>
    st_nodes st' \<le> budget \<and>
    (if incomplete then st_nodes st' = budget \<and> exhausted_early S js state F' pending
     else saturated S state F' pending (atoms_of S (F @ F')))"
  using assms
proof (induction H budget state pending st arbitrary: F rule: rounds.induct)
  case (1 H budget state pending st)
  obtain fired remaining where sp: "split_pending st state pending = (fired, remaining)"
    by (cases "split_pending st state pending")
  note sf = split_pending_filter[OF "1.prems"(2) sp]
  let ?X = "atoms_of S F"
  have fired_fire: "\<forall>j\<in>set (map fst fired). fires S js state j \<and> j \<in> set js"
    using sf(1) "1.prems"(4) by (auto dest: enabled_mono[OF _ atoms_derivable[OF "1.prems"(5,6)]])
  show ?case
  proof (cases "fired = []")
    case True
    then have "st' = st \<and> \<not> incomplete" using "1.prems"(1) sp by (auto split: if_splits)
    moreover have "filter (enabled ?X S state) pending = []" using True sf(1) by simp
    then have "saturated S state [] pending ?X"
      unfolding saturated_def filter_empty_conv by (intro exI[of _ pending]) auto
    ultimately show ?thesis using "1.prems"(2,3) by (intro exI[of _ "[]"]) auto
  next
    case False
    then have ne: "pending \<noteq> []" using sp by auto
    obtain st1 inc where fa: "fire_all H budget fired st = (st1, inc)" by (cases "fire_all H budget fired st")
    let ?k = "nat (budget - st_nodes st)"
    have run1: "run_of H S (F @ take ?k (map fst fired)) st1" and inc: "inc \<longleftrightarrow> ?k < length fired"
      using fire_all_result[OF fa "1.prems"(2) sf(3) "1.prems"(3)] by (simp_all add: Let_def)
    have msp: "mset pending = mset (map fst fired) + mset remaining"
      unfolding sf(1,2) by (rule mset_filter_split)
    show ?thesis
    proof (cases inc)
      case True
      then have res: "st' = st1" "incomplete" using "1.prems"(1) sp fa False ne by auto
      let ?F' = "take ?k (map fst fired)"
      from True inc have "?k < length (map fst fired)" by simp
      then have split: "map fst fired = ?F' @ (map fst fired ! ?k) # drop (Suc ?k) (map fst fired)"
        by (rule id_take_nth_drop)
      have "exhausted_early S js state ?F' pending"
        unfolding exhausted_early_def msp
      proof (intro exI conjI)
        show "fires S js state (map fst fired ! ?k)" using fired_fire True inc by auto
        show "mset ?F' + {#map fst fired ! ?k#} \<subseteq># mset (map fst fired) + mset remaining"
          by (subst (3) split) simp
      qed
      moreover have "st_nodes st1 = budget"
        using run1 "1.prems"(2,3) True inc by (simp add: run_of_def)
      moreover have "\<forall>j\<in>set ?F'. fires S js state j \<and> j \<in> set js"
        using fired_fire by (meson in_set_takeD)
      ultimately show ?thesis
        using res run1 by (intro exI[of _ ?F']) auto
    next
      case notinc: False
      have all: "take ?k (map fst fired) = map fst fired" using notinc inc by simp
      have nodes1: "st_nodes st1 \<le> budget"
        using run1 "1.prems"(2,3) notinc inc by (auto simp: run_of_def)
      have rec: "rounds H budget state remaining st1 = (st', incomplete)"
        using "1.prems"(1) sp fa False ne notinc by auto
      have "\<exists>F'. run_of H S ((F @ map fst fired) @ F') st' \<and> set F' \<subseteq> set js \<and>
          (\<forall>j\<in>set F'. fires S js state j) \<and> st_nodes st' \<le> budget \<and>
          (if incomplete then st_nodes st' = budget \<and> exhausted_early S js state F' remaining
           else saturated S state F' remaining (atoms_of S ((F @ map fst fired) @ F')))"
      proof (rule "1.IH"[OF ne sp[symmetric] refl False fa[symmetric] refl notinc rec])
        show "run_of H S (F @ map fst fired) st1" using run1 all by simp
        show "set remaining \<subseteq> set js" using sf(2) "1.prems"(4) by auto
      qed (use nodes1 fired_fire "1.prems"(5,6) in auto)
      then obtain F' where F': "run_of H S ((F @ map fst fired) @ F') st'" "set F' \<subseteq> set js"
        "\<forall>j\<in>set F'. fires S js state j" "st_nodes st' \<le> budget"
        "if incomplete then st_nodes st' = budget \<and> exhausted_early S js state F' remaining
         else saturated S state F' remaining (atoms_of S ((F @ map fst fired) @ F'))" by blast
      have e: "exhausted_early S js state F' remaining \<Longrightarrow>
          exhausted_early S js state (map fst fired @ F') pending"
        unfolding exhausted_early_def msp by auto
      have s: "saturated S state F' remaining X \<Longrightarrow> saturated S state (map fst fired @ F') pending X" for X
        unfolding saturated_def msp by auto
      show ?thesis
        using F' fired_fire e s by (intro exI[of _ "map fst fired @ F'"]) (auto split: if_splits)
    qed
  qed
qed

section \<open>The whole run\<close>

lemma saturated_derivable:
  assumes sat: "saturated S state F js (atoms_of S F)" and fire: "\<forall>j\<in>set F. fires S js state j"
  shows "Collect (derivable S js state) = atoms_of S F"
    and "mset F = mset (filter (fires S js state) js)"
proof -
  from sat obtain rest where split: "mset js = mset F + mset rest"
    and stuck: "\<forall>j\<in>set rest. \<not> enabled (atoms_of S F) S state j" by (auto simp: saturated_def)
  from split have set: "set js = set F \<union> set rest" by (metis set_mset_mset set_mset_union)
  have "derivable S js state a \<Longrightarrow> a \<in> atoms_of S F" for a
    by (rule derivable_least) (use set stuck in auto)
  with atoms_derivable[of F js S state] fire set
  show eq: "Collect (derivable S js state) = atoms_of S F" by auto
  have "filter_mset (fires S js state) (mset js) = mset F"
    unfolding split using fire stuck eq by (simp add: filter_mset_all filter_mset_none)
  then show "mset F = mset (filter (fires S js state) js)" by simp
qed

definition needed :: "Anchor list \<Rightarrow> JustificationSet list \<Rightarrow> (string \<times> bool) list \<Rightarrow> int" where
  "needed S js state = int (length S) + int (length (filter (fires S js state) js))"

abbreviation seeds :: "Anchor list \<Rightarrow> Anchor list" where
  "seeds anchors \<equiv> first_of an_signature {} anchors"

lemma run_closure_result:
  assumes "run_closure H js anchors budget state = (st, incomplete)" and "1 \<le> budget"
  shows "\<exists>S F. run_of H S F st \<and> set S \<subseteq> set (seeds anchors) \<and> set F \<subseteq> set js \<and>
    (\<forall>j\<in>set F. fires S js state j) \<and> st_nodes st = min budget (needed (seeds anchors) js state) \<and>
    (incomplete \<longleftrightarrow> budget < needed (seeds anchors) js state) \<and>
    (\<not> incomplete \<longrightarrow> S = seeds anchors \<and> saturated S state F js (atoms_of S F))"
proof -
  let ?S = "seeds anchors"
  obtain st0 inc0 where sd: "seed_anchors budget anchors empty_closure = (st0, inc0)"
    by (cases "seed_anchors budget anchors empty_closure")
  have s0: "run_of H (take (nat budget) ?S) [] st0" "inc0 \<longleftrightarrow> nat budget < length ?S"
    using seed_anchors_result[OF sd run_of_empty] assms(2)
    by (simp_all add: Let_def empty_closure_def)
  show ?thesis
  proof (cases inc0)
    case True
    with assms(1) sd have "st = st0 \<and> incomplete" by (simp add: run_closure_def)
    moreover have "budget < needed ?S js state" using True s0(2) by (simp add: needed_def)
    ultimately show ?thesis
      using s0 True assms(2) by (intro exI[of _ "take (nat budget) ?S"] exI[of _ "[]"])
        (auto simp: run_of_def dest: in_set_takeD)
  next
    case False
    then have run: "run_of H ?S [] st0" and r: "rounds H budget state js st0 = (st, incomplete)"
      using s0 assms(1) sd by (simp_all add: run_closure_def)
    have n0: "st_nodes st0 \<le> budget" using run s0(2) False assms(2) by (simp add: run_of_def le_nat_iff)
    from rounds_result[OF r run n0 subset_refl, unfolded append_Nil] obtain F where
      F: "run_of H ?S F st" "set F \<subseteq> set js" "\<forall>j\<in>set F. fires ?S js state j" "st_nodes st \<le> budget"
        "if incomplete then st_nodes st = budget \<and> exhausted_early ?S js state F js
         else saturated ?S state F js (atoms_of ?S F)" by auto
    show ?thesis
    proof (cases incomplete)
      case True
      with F(5) obtain x where x: "fires ?S js state x" "mset F + {#x#} \<subseteq># mset js"
        and n: "st_nodes st = budget" by (auto simp: exhausted_early_def)
      have "filter_mset (fires ?S js state) (mset F + {#x#}) \<subseteq># filter_mset (fires ?S js state) (mset js)"
        using x(2) by (rule multiset_filter_mono)
      moreover have "filter_mset (fires ?S js state) (mset F + {#x#}) = mset F + {#x#}"
        using F(3) x(1) by (simp add: filter_mset_all)
      ultimately have "mset F + {#x#} \<subseteq># mset (filter (fires ?S js state) js)" by simp
      from size_mset_mono[OF this]
      have "Suc (length F) \<le> length (filter (fires ?S js state) js)"
        unfolding size_mset by simp
      then have "st_nodes st < needed ?S js state" using F(1) by (simp add: run_of_def needed_def)
      with F True n show ?thesis by (intro exI[of _ ?S] exI[of _ F]) auto
    next
      case False
      with F(5) have sat: "saturated ?S state F js (atoms_of ?S F)" by simp
      have "length F = length (filter (fires ?S js state) js)"
        using saturated_derivable(2)[OF sat F(3)] by (rule mset_eq_length)
      then have "st_nodes st = needed ?S js state" using F(1) by (simp add: run_of_def needed_def)
      with F False sat show ?thesis by (intro exI[of _ ?S] exI[of _ F]) auto
    qed
  qed
qed

lemma grounded_closure_run:
  assumes "grounded_closure H g anchors b asm = Inr r" and "assumption_state asm = Inr state"
    and "run_closure H (justifications H g) anchors b state = (st, incomplete)"
  shows "1 \<le> b" and "r = closure_result (if incomplete then CS_EVALUATION_INCOMPLETE else CS_COMPLETE) st b"
  using assms by (auto simp: grounded_closure_def rbind_Inr_iff index_min_ok)

lemma closure_result_fields [simp]:
  "cr_status (closure_result s st b) = s" "cr_witnesses (closure_result s st b) = st_witnesses st"
  "cr_node_count (closure_result s st b) = st_nodes st" "cr_node_budget (closure_result s st b) = b"
  by (simp_all add: closure_result_def Let_def)

text \<open>Everything the properties use of a finished evaluation: the run it comes from.\<close>

definition outcome_of ::
  "(json \<Rightarrow> string) \<Rightarrow> JustificationSet list \<Rightarrow> Anchor list \<Rightarrow> (string \<times> bool) list \<Rightarrow> Anchor list
    \<Rightarrow> JustificationSet list \<Rightarrow> ClosureResult \<Rightarrow> bool" where
  "outcome_of H js anchors state S F r \<longleftrightarrow>
     (\<exists>st. r = closure_result (cr_status r) st (cr_node_budget r) \<and> run_of H S F st \<and>
        set S \<subseteq> set (seeds anchors) \<and> set F \<subseteq> set js \<and> (\<forall>j\<in>set F. fires S js state j)) \<and>
     cr_node_count r = min (cr_node_budget r) (needed (seeds anchors) js state) \<and>
     (cr_status r = CS_COMPLETE \<longleftrightarrow> needed (seeds anchors) js state \<le> cr_node_budget r) \<and>
     (cr_status r = CS_COMPLETE \<longrightarrow> S = seeds anchors \<and> saturated S state F js (atoms_of S F))"

lemma run_closure_outcome:
  assumes run: "run_closure H js anchors b state = (st, inc)" and b: "1 \<le> b"
    and r: "r = closure_result (if inc then CS_EVALUATION_INCOMPLETE else CS_COMPLETE) st b"
  shows "\<exists>S F. outcome_of H js anchors state S F r"
proof -
  obtain S F where SF: "run_of H S F st" "set S \<subseteq> set (seeds anchors)" "set F \<subseteq> set js"
    "\<forall>j\<in>set F. fires S js state j"
    and n: "st_nodes st = min b (needed (seeds anchors) js state)"
    and i: "inc \<longleftrightarrow> b < needed (seeds anchors) js state"
    and c: "\<not> inc \<longrightarrow> S = seeds anchors \<and> saturated S state F js (atoms_of S F)"
    using run_closure_result[OF run b] by blast
  have status: "cr_status r = CS_COMPLETE \<longleftrightarrow> \<not> inc" using r by simp
  have "outcome_of H js anchors state S F r"
    unfolding outcome_of_def
  proof (intro conjI exI[of _ st])
    show "r = closure_result (cr_status r) st (cr_node_budget r)" using r by simp
    show "cr_node_count r = min (cr_node_budget r) (needed (seeds anchors) js state)" using r n by simp
    show "(cr_status r = CS_COMPLETE) = (needed (seeds anchors) js state \<le> cr_node_budget r)"
      using status i r by auto
    show "cr_status r = CS_COMPLETE \<longrightarrow> S = seeds anchors \<and> saturated S state F js (atoms_of S F)"
      using status c by blast
  qed (use SF in auto)
  then show ?thesis by blast
qed

lemma grounded_closure_outcome:
  assumes "grounded_closure H g anchors b asm = Inr r" and "assumption_state asm = Inr state"
  shows "\<exists>S F. outcome_of H (justifications H g) anchors state S F r" and "cr_node_budget r = b"
proof -
  obtain st inc where run: "run_closure H (justifications H g) anchors b state = (st, inc)"
    by (cases "run_closure H (justifications H g) anchors b state")
  note g = grounded_closure_run[OF assms run]
  from g(2) show "cr_node_budget r = b" by simp
  show "\<exists>S F. outcome_of H (justifications H g) anchors state S F r"
    by (rule run_closure_outcome[OF run g])
qed

lemma outcome_reached:
  assumes "outcome_of H js anchors state S F r"
  shows "reached r a \<longleftrightarrow> a \<in> atoms_of S F"
proof -
  from assms obtain st where "cr_witnesses r = st_witnesses st" "run_of H S F st"
    unfolding outcome_of_def by (metis closure_result_fields(2))
  then show ?thesis using run_of_reached by (simp add: reached_def)
qed

lemma outcome_derivable:
  assumes "outcome_of H js anchors state S F r" and "is_complete r"
  shows "derivable (seeds anchors) js state a \<longleftrightarrow> reached r a"
proof -
  from assms have "S = seeds anchors" "saturated S state F js (atoms_of S F)" "\<forall>j\<in>set F. fires S js state j"
    by (auto simp: outcome_of_def is_complete_def)
  then have "Collect (derivable (seeds anchors) js state) = atoms_of S F"
    using saturated_derivable(1) by blast
  with outcome_reached[OF assms(1)] show ?thesis by auto
qed

lemma outcome_sound:
  assumes "outcome_of H js anchors state S F r" and "reached r a"
  shows "derivable (seeds anchors) js state a"
proof -
  from assms(1) have S: "set S \<subseteq> set (seeds anchors)" and F: "set F \<subseteq> set js" "\<forall>j\<in>set F. fires S js state j"
    by (auto simp: outcome_of_def)
  from outcome_reached[OF assms(1)] assms(2) atoms_derivable[OF F] have "derivable S js state a" by auto
  then show ?thesis by (rule derivable_mono) (use S in auto)
qed

section \<open>Assumption taint\<close>

text \<open>Without a hook the analyses always return.\<close>

lemma proposition_atoms_total:
  "proposition_atoms Some ps acc () = Some (acc @ List.map_filter (\<lambda>p. case p of PropositionPremise a \<Rightarrow> Some a | EvidencePremise _ \<Rightarrow> None) ps, ())"
  by (induction ps arbitrary: acc) (auto simp: List.map_filter_simps split: Premise.splits)

lemma clean_support_total:
  "clean_support Some clean ws () = Some
     (list_ex (\<lambda>w. sw_assumptions w = [] \<and>
        (\<forall>a. PropositionPremise a \<in> set (sw_premises w) \<longrightarrow> a \<in> set clean)) ws, ())"
proof (induction ws)
  case (Cons w ws)
  have "list_all (\<lambda>a. a \<in> set clean) (List.map_filter (\<lambda>p. case p of PropositionPremise a \<Rightarrow> Some a | EvidencePremise _ \<Rightarrow> None) ps)
      \<longleftrightarrow> (\<forall>a. PropositionPremise a \<in> set ps \<longrightarrow> a \<in> set clean)" for ps
    by (induction ps) (auto simp: List.map_filter_simps split: Premise.splits)
  with Cons show ?case by (auto simp: proposition_atoms_total)
qed simp

lemma clean_pass_total: "\<exists>clean' changed'. clean_pass Some ws clean changed () = Some (clean', changed', ())"
  by (induction ws arbitrary: clean changed) (auto simp: clean_support_total)

lemma clean_pass_unchanged:
  "clean_pass Some ws clean changed () = Some (clean', False, ()) \<Longrightarrow>
     \<not> changed \<and> clean' = clean \<and>
     (\<forall>(a, sws)\<in>set ws. a \<in> set clean \<or> \<not> list_ex (\<lambda>w. sw_assumptions w = [] \<and>
        (\<forall>a. PropositionPremise a \<in> set (sw_premises w) \<longrightarrow> a \<in> set clean)) sws)"
proof (induction ws arbitrary: clean changed)
  case (Cons aw ws)
  obtain a sws where aw: "aw = (a, sws)" by (cases aw)
  from Cons.prems aw show ?case
    by (auto simp: clean_support_total split: if_splits dest!: Cons.IH)
qed simp

inductive clean_atom :: "witnesses \<Rightarrow> Atom \<Rightarrow> bool" for ws where
  "(a, sws) \<in> set ws \<Longrightarrow> w \<in> set sws \<Longrightarrow> sw_assumptions w = [] \<Longrightarrow>
   (\<forall>p. PropositionPremise p \<in> set (sw_premises w) \<longrightarrow> clean_atom ws p) \<Longrightarrow> clean_atom ws a"

lemma clean_pass_sound:
  "clean_pass Some ws clean changed () = Some (clean', changed', ()) \<Longrightarrow> set ws \<subseteq> set all \<Longrightarrow>
     \<forall>a\<in>set clean. clean_atom all a \<Longrightarrow> \<forall>a\<in>set clean'. clean_atom all a"
proof (induction ws arbitrary: clean changed)
  case (Cons aw ws)
  obtain a sws where aw: "aw = (a, sws)" by (cases aw)
  show ?case
  proof (cases "a \<notin> set clean \<and> list_ex (\<lambda>w. sw_assumptions w = [] \<and>
        (\<forall>a. PropositionPremise a \<in> set (sw_premises w) \<longrightarrow> a \<in> set clean)) sws")
    case True
    then obtain w where "w \<in> set sws" "sw_assumptions w = []"
      "\<forall>a. PropositionPremise a \<in> set (sw_premises w) \<longrightarrow> a \<in> set clean" by (auto simp: list_ex_iff)
    with Cons.prems(2,3) aw have "clean_atom all a"
      by (intro clean_atom.intros[of a sws all w]) auto
    with True Cons.prems aw Cons.IH[of "a # clean" True] show ?thesis
      by (auto simp: clean_support_total)
  next
    case False
    with Cons.prems aw Cons.IH[of clean changed] show ?thesis
      by (auto simp: clean_support_total split: if_splits)
  qed
qed simp

lemma clean_loop_result:
  assumes "\<forall>a\<in>set clean. clean_atom ws a"
  shows "\<exists>clean'. clean_loop Some ws clean () = Some (clean', ()) \<and> set clean' = Collect (clean_atom ws)"
  using assms
proof (induction "Some :: unit \<Rightarrow> unit option" ws clean "()" rule: clean_loop.induct)
  case (1 ws clean)
  obtain c ch where p: "clean_pass Some ws clean False () = Some (c, ch, ())"
    using clean_pass_total by blast
  have sound: "\<forall>a\<in>set c. clean_atom ws a" using clean_pass_sound[OF p subset_refl "1.prems"] .
  show ?case
  proof (cases ch)
    case True
    with "1.hyps"[OF p refl _ _ sound] p show ?thesis by auto
  next
    case False
    with clean_pass_unchanged[of ws clean False c] p have c: "c = clean"
      and stuck: "\<forall>(a, sws)\<in>set ws. a \<in> set clean \<or> \<not> list_ex (\<lambda>w. sw_assumptions w = [] \<and>
        (\<forall>a. PropositionPremise a \<in> set (sw_premises w) \<longrightarrow> a \<in> set clean)) sws" by auto
    have "clean_atom ws a \<Longrightarrow> a \<in> set clean" for a
      by (induction rule: clean_atom.induct) (use stuck in \<open>fastforce simp: list_ex_iff\<close>)
    with False p c sound show ?thesis by auto
  qed
qed

lemma assumption_backed_result:
  "\<exists>as. assumption_backed Some ws () = Some (as, ()) \<and>
     set as = {a \<in> set (dict_keys ws). \<not> clean_atom ws a}"
  using clean_loop_result[of "[]" ws] by (auto simp: assumption_backed_def)

section \<open>Source groups\<close>

inductive supplies :: "witnesses \<Rightarrow> ref_groups \<Rightarrow> Atom \<Rightarrow> string \<Rightarrow> bool" for ws refs where
  own: "(a, sws) \<in> set ws \<Longrightarrow> w \<in> set sws \<Longrightarrow> sw_source_group w = Some s \<Longrightarrow> supplies ws refs a s"
| evidence: "(a, sws) \<in> set ws \<Longrightarrow> w \<in> set sws \<Longrightarrow> EvidencePremise r \<in> set (sw_premises w) \<Longrightarrow>
    s \<in> set (dict_get refs r []) \<Longrightarrow> supplies ws refs a s"
| premise: "(a, sws) \<in> set ws \<Longrightarrow> w \<in> set sws \<Longrightarrow> PropositionPremise p \<in> set (sw_premises w) \<Longrightarrow>
    supplies ws refs p s \<Longrightarrow> supplies ws refs a s"

lemma collect_premises_total: "\<exists>acc'. collect_premises Some refs groups ps acc () = Some (acc', ())"
  by (induction ps arbitrary: acc) auto

lemma collect_supports_total: "\<exists>acc'. collect_supports Some refs groups ws acc () = Some (acc', ())"
proof (induction ws arbitrary: acc)
  case (Cons w ws)
  obtain c where "collect_premises Some refs groups (sw_premises w) (own_group w acc) () = Some (c, ())"
    using collect_premises_total by blast
  with Cons show ?case by simp
qed simp

lemma groups_pass_total:
  "\<exists>groups' changed'. groups_pass Some refs ws groups changed () = Some (groups', changed', ())"
proof (induction ws arbitrary: groups changed)
  case (Cons aw ws)
  obtain a sws where aw: "aw = (a, sws)" by (cases aw)
  obtain c where "collect_supports Some refs groups sws [] () = Some (c, ())"
    using collect_supports_total by blast
  with Cons aw show ?case by simp
qed simp

definition groups_sound :: "witnesses \<Rightarrow> ref_groups \<Rightarrow> atom_groups \<Rightarrow> bool" where
  "groups_sound ws refs groups \<longleftrightarrow> (\<forall>a s. s \<in> set (dict_get groups a []) \<longrightarrow> supplies ws refs a s)"

lemma support_groups_sound:
  assumes "groups_sound ws refs groups" and "(a, sws) \<in> set ws" and "w \<in> set sws"
    and "s \<in> support_groups refs groups w"
  shows "supplies ws refs a s"
proof -
  from assms(4) consider (own_src) "sw_source_group w = Some s"
    | (premise_src) p where "p \<in> set (sw_premises w)" "s \<in> set (premise_groups refs groups p)"
    by (auto simp: support_groups_def)
  then show ?thesis
  proof cases
    case premise_src
    with assms(1-3) show ?thesis
      by (cases p) (auto simp: premise_groups_def groups_sound_def intro: supplies.intros)
  qed (use assms(2,3) in \<open>auto intro: supplies.own\<close>)
qed

lemma groups_pass_sound:
  "groups_pass Some refs ws groups changed () = Some (groups', changed', ()) \<Longrightarrow> set ws \<subseteq> set all \<Longrightarrow>
     groups_sound all refs groups \<Longrightarrow> groups_sound all refs groups'"
proof (induction ws arbitrary: groups changed)
  case (Cons aw ws)
  obtain a sws where aw: "aw = (a, sws)" by (cases aw)
  obtain c where c: "collect_supports Some refs groups sws [] () = Some (c, ())"
    using collect_supports_total by blast
  have "\<forall>s\<in>set c. supplies all refs a s"
    using collect_supports_names[OF c] support_groups_sound[OF Cons.prems(3), of a sws] Cons.prems(2) aw
    by auto
  then have "groups_sound all refs (dict_set a (List.union (dict_get groups a []) c) groups)"
    using Cons.prems(3) by (auto simp: groups_sound_def)
  with Cons.prems aw c Cons.IH show ?case by (auto split: if_splits)
qed simp

lemma groups_pass_unchanged:
  "groups_pass Some refs ws groups changed () = Some (groups', False, ()) \<Longrightarrow>
     \<not> changed \<and> groups' = groups \<and>
     (\<forall>(a, sws)\<in>set ws. \<forall>w\<in>set sws. support_groups refs groups w \<subseteq> set (dict_get groups a []))"
proof (induction ws arbitrary: groups changed)
  case (Cons aw ws)
  obtain a sws where aw: "aw = (a, sws)" by (cases aw)
  obtain c where c: "collect_supports Some refs groups sws [] () = Some (c, ())"
    using collect_supports_total by blast
  show ?case
  proof (cases "set c \<subseteq> set (dict_get groups a [])")
    case True
    with Cons.prems aw c Cons.IH[of groups changed] collect_supports_names[OF c] show ?thesis by auto
  next
    case False
    with Cons.prems aw c Cons.IH[of "dict_set a (List.union (dict_get groups a []) c) groups" True]
    show ?thesis by auto
  qed
qed simp

lemma groups_loop_result:
  assumes "groups_sound ws refs groups"
  shows "\<exists>groups'. groups_loop Some refs ws groups () = Some (groups', ()) \<and>
    (\<forall>a s. s \<in> set (dict_get groups' a []) \<longleftrightarrow> supplies ws refs a s)"
  using assms
proof (induction "Some :: unit \<Rightarrow> unit option" refs ws groups "()" rule: groups_loop.induct)
  case (1 refs ws groups)
  obtain g ch where p: "groups_pass Some refs ws groups False () = Some (g, ch, ())"
    using groups_pass_total by blast
  have sound: "groups_sound ws refs g" using groups_pass_sound[OF p subset_refl "1.prems"] .
  show ?case
  proof (cases ch)
    case True
    with "1.hyps"[OF p refl _ _ sound] p show ?thesis by auto
  next
    case False
    with groups_pass_unchanged[of refs ws groups False g] p have g: "g = groups"
      and stuck: "\<forall>(a, sws)\<in>set ws. \<forall>w\<in>set sws. support_groups refs groups w \<subseteq> set (dict_get groups a [])"
      by auto
    have closed: "(a, sws) \<in> set ws \<Longrightarrow> w \<in> set sws \<Longrightarrow> s \<in> support_groups refs groups w \<Longrightarrow>
        s \<in> set (dict_get groups a [])" for a sws w s using stuck by blast
    have "supplies ws refs a s \<Longrightarrow> s \<in> set (dict_get groups a [])" for a s
    proof (induction rule: supplies.induct)
      case (own a sws w s)
      then show ?case by (intro closed[of a sws w]) (auto simp: support_groups_def)
    next
      case (evidence a sws w r s)
      then show ?case
        by (intro closed[of a sws w]) (force simp: support_groups_def premise_groups_def)+
    next
      case (premise a sws w p s)
      then show ?case
        by (intro closed[of a sws w]) (force simp: support_groups_def premise_groups_def)+
    qed
    with False p g sound show ?thesis by (auto simp: groups_sound_def)
  qed
qed

lemma source_groups_result:
  "\<exists>groups. source_groups Some ws refs () = Some (groups, ()) \<and>
     (\<forall>a s. s \<in> set (dict_get groups a []) \<longleftrightarrow> supplies ws refs a s)"
proof -
  have "dict_get (map (\<lambda>(a, _). (a, [])) ws) k [] = ([] :: string list)" for k
    by (auto simp: dict_get_def split: option.splits dest!: map_of_SomeD)
  then show ?thesis
    unfolding source_groups_def by (intro groups_loop_result) (simp add: groups_sound_def)
qed

lemma support_paths_of_total:
  "\<exists>paths'. support_paths_of Some refs groups ws paths () = Some (paths @ paths', ()) \<and>
     map set paths' = map (support_groups refs groups) ws"
proof (induction ws arbitrary: paths)
  case (Cons w ws)
  obtain c where c: "collect_premises Some refs groups (sw_premises w) (own_group w []) () = Some (c, ())"
    using collect_premises_total by blast
  have "set c = support_groups refs groups w"
    using collect_premises_names[OF c] by (auto simp: support_groups_def own_group_def split: option.splits)
  with Cons.IH[of "paths @ [c]"] c show ?case by auto
qed simp

lemma path_groups_total:
  "\<exists>out. path_groups Some ws groups refs () = Some (out, ()) \<and> dict_keys out = dict_keys ws \<and>
     (\<forall>a. map set (dict_get out a []) = map (support_groups refs groups) (dict_get ws a []))"
proof (induction ws)
  case (Cons aw ws)
  obtain a sws where aw: "aw = (a, sws)" by (cases aw)
  obtain ps where "support_paths_of Some refs groups sws [] () = Some (ps, ())"
    "map set ps = map (support_groups refs groups) sws"
    using support_paths_of_total[of refs groups sws "[]"] by auto
  with Cons aw show ?case by (auto simp: dict_get_def)
qed simp

lemma analyses_total:
  "source_groups Some ws refs () \<noteq> None" "path_groups Some ws groups refs () \<noteq> None"
  "assumption_backed Some ws () \<noteq> None"
  using source_groups_result[of ws refs] path_groups_total[of ws groups refs] assumption_backed_result[of ws]
  by auto

section \<open>Disjoint paths\<close>

definition disjoint_paths :: "string list list \<Rightarrow> bool" where
  "disjoint_paths ps \<longleftrightarrow> sorted_wrt (\<lambda>p q. set p \<inter> set q = {}) ps"

lemma subseq_Cons_iff: "subseq qs (g # gs) \<longleftrightarrow> subseq qs gs \<or> (\<exists>qs'. qs = g # qs' \<and> subseq qs' gs)"
  by (cases qs) (auto dest: subseq_Cons')

definition choice :: "string list list \<Rightarrow> string list \<Rightarrow> string list list \<Rightarrow> bool" where
  "choice cs used qs \<longleftrightarrow> subseq qs cs \<and> disjoint_paths qs \<and> (\<forall>q\<in>set qs. set q \<inter> set used = {})"

lemma choice_Cons:
  "choice (g # gs) used qs \<longleftrightarrow> choice gs used qs \<or>
     (set g \<inter> set used = {} \<and> (\<exists>qs'. qs = g # qs' \<and> choice gs (List.union used g) qs'))"
  unfolding choice_def subseq_Cons_iff by (auto simp: disjoint_paths_def disjoint_iff)

lemma choice_Nil: "choice cs used []"
  by (simp add: choice_def disjoint_paths_def)

lemma walk_threshold:
  "best \<le> walk w cs used chosen best \<and>
     (w \<le> walk w cs used chosen best \<longleftrightarrow> w \<le> best \<or> (\<exists>qs. choice cs used qs \<and> w \<le> chosen + length qs))"
  "chosen \<le> best \<Longrightarrow> best \<le> walk_from w cs used chosen best \<and>
     (w \<le> walk_from w cs used chosen best \<longleftrightarrow> w \<le> best \<or> (\<exists>qs. choice cs used qs \<and> w \<le> chosen + length qs))"
proof (induction w cs used chosen best and w cs used chosen best rule: walk_walk_from.induct)
  case (1 w cs used chosen best)
  then show ?case using choice_Nil[of cs used]
    by (auto simp: Let_def max_def not_le split: if_splits)
next
  case (2 w used chosen best)
  then show ?case by (auto simp: choice_def dest: list_emb_Nil2)
next
  case (3 w g gs used chosen best)
  show ?case
  proof (cases "set g \<inter> set used = {}")
    case False
    with 3 show ?thesis by (simp add: choice_Cons)
  next
    case True
    let ?b = "walk w gs (List.union used g) (chosen + 1) best"
    have inner: "best \<le> ?b" "w \<le> ?b \<longleftrightarrow> w \<le> best \<or>
        (\<exists>qs. choice gs (List.union used g) qs \<and> w \<le> chosen + 1 + length qs)"
      using "3.IH"(2) True by auto
    show ?thesis
    proof (cases "w \<le> ?b")
      case big: True
      have "(\<exists>qs. choice gs (List.union used g) qs \<and> w \<le> chosen + 1 + length qs) \<Longrightarrow>
          \<exists>qs. choice (g # gs) used qs \<and> w \<le> chosen + length qs"
      proof (elim exE conjE)
        fix qs assume "choice gs (List.union used g) qs" "w \<le> chosen + 1 + length qs"
        with True show ?thesis by (intro exI[of _ "g # qs"]) (simp add: choice_Cons)
      qed
      with big True inner show ?thesis by (auto simp: Let_def)
    next
      case small: False
      have "best \<le> walk_from w gs used chosen ?b \<and>
        (w \<le> walk_from w gs used chosen ?b \<longleftrightarrow> w \<le> ?b \<or> (\<exists>qs. choice gs used qs \<and> w \<le> chosen + length qs))"
        using "3.IH"(3)[OF _ refl small] True inner(1) "3.prems" by auto
      with small True inner show ?thesis by (auto simp: Let_def choice_Cons)
    qed
  qed
qed

lemma sorted_wrt_perm:
  assumes "sorted_wrt R xs" and "symp R" and "mset xs = mset ys"
  shows "sorted_wrt R ys"
  using assms(1,3)
proof (induction xs arbitrary: ys)
  case (Cons x xs)
  from Cons.prems(2) have "x \<in> set ys" by (metis list.set_intros(1) set_mset_mset)
  then obtain us vs where ys: "ys = us @ x # vs" by (meson split_list)
  with Cons.prems(2) have m: "mset xs = mset (us @ vs)" by simp
  then have s: "set xs = set us \<union> set vs" by (metis set_append set_mset_mset)
  from Cons.IH[OF _ m] Cons.prems(1) have "sorted_wrt R (us @ vs)" by simp
  with Cons.prems(1) s ys assms(2) show ?case by (auto simp: sorted_wrt_append dest: sympD)
qed simp

lemma subseq_of_submultiset: "M \<subseteq># mset xs \<Longrightarrow> \<exists>qs. subseq qs xs \<and> mset qs = M"
proof (induction xs arbitrary: M)
  case (Cons x xs)
  show ?case
  proof (cases "x \<in># M")
    case True
    then obtain N where N: "M = add_mset x N" by (blast dest: multi_member_split)
    with Cons.prems have "N \<subseteq># mset xs" by simp
    with Cons.IH obtain qs where "subseq qs xs" "mset qs = N" by blast
    with N show ?thesis by (intro exI[of _ "x # qs"]) auto
  next
    case False
    have "M \<subseteq># mset xs"
    proof (rule mset_subset_eqI)
      fix y
      have "count M y \<le> count (mset (x # xs)) y" using Cons.prems by (rule mset_subset_eq_count)
      with False show "count M y \<le> count (mset xs) y" by (cases "y = x") (auto simp: not_in_iff)
    qed
    with Cons.IH show ?thesis by (auto simp: subseq_Cons_iff)
  qed
qed auto

lemma subseq_submultiset: "subseq qs xs \<Longrightarrow> mset qs \<subseteq># mset xs"
proof (induction xs arbitrary: qs)
  case (Cons x xs)
  have "mset qs \<subseteq># mset xs \<Longrightarrow> mset qs \<subseteq># mset (x # xs)" for qs
    using mset_subset_eq_add_right[of "mset xs" "{#x#}"] by (auto intro: subset_mset.order_trans)
  with Cons show ?case by (auto simp: subseq_Cons_iff)
qed (auto dest: list_emb_Nil2)

lemma max_disjoint_paths_threshold:
  assumes "0 < n"
  shows "n \<le> int (max_disjoint_paths paths n) \<longleftrightarrow>
    (\<exists>qs. mset qs \<subseteq># mset (take MAX_INDEPENDENCE_PATHS paths) \<and> int (length qs) = n \<and> disjoint_paths qs)"
proof -
  let ?cs = "sort_key (\<lambda>p. length (remdups p)) (take MAX_INDEPENDENCE_PATHS paths)"
  have "n \<le> int (max_disjoint_paths paths n) \<longleftrightarrow> (\<exists>qs. choice ?cs [] qs \<and> nat n \<le> length qs)"
    using walk_threshold(1)[of 0 "nat n" ?cs "[]" 0] assms
    by (auto simp: max_disjoint_paths_def nat_le_iff)
  also have "\<dots> \<longleftrightarrow> (\<exists>qs. mset qs \<subseteq># mset ?cs \<and> int (length qs) = n \<and> disjoint_paths qs)"
  proof
    assume "\<exists>qs. choice ?cs [] qs \<and> nat n \<le> length qs"
    then obtain qs where qs: "subseq qs ?cs" "disjoint_paths qs" "nat n \<le> length qs" by (auto simp: choice_def)
    let ?q = "take (nat n) qs"
    have "subseq ?q ?cs" using qs(1) by (meson subseq_order.trans prefix_imp_subseq take_is_prefix)
    moreover have "disjoint_paths ?q" using qs(2) by (simp add: disjoint_paths_def sorted_wrt_take)
    ultimately show "\<exists>qs. mset qs \<subseteq># mset ?cs \<and> int (length qs) = n \<and> disjoint_paths qs"
      using qs(3) assms by (intro exI[of _ ?q]) (auto dest: subseq_submultiset)
  next
    assume "\<exists>qs. mset qs \<subseteq># mset ?cs \<and> int (length qs) = n \<and> disjoint_paths qs"
    then obtain qs rs where qs: "int (length qs) = n" "disjoint_paths qs" and rs: "subseq rs ?cs" "mset rs = mset qs"
      using subseq_of_submultiset by blast
    have "disjoint_paths rs"
      unfolding disjoint_paths_def
      using qs(2)[unfolded disjoint_paths_def] by (rule sorted_wrt_perm) (auto simp: rs(2) intro: sympI)
    moreover have "length rs = length qs" using rs(2) by (rule mset_eq_length)
    ultimately show "\<exists>qs. choice ?cs [] qs \<and> nat n \<le> length qs"
      using rs(1) qs(1) by (intro exI[of _ rs]) (auto simp: choice_def)
  qed
  finally show ?thesis by simp
qed

end
