(* ===== verification/Release.thy ===== *)
theory Release
  imports Closure_Correct
begin

text \<open>
  The properties of a grounded evaluation and of the release gate built on it
  (\<open>grounded_closure\<close> and \<open>ClosureResult\<close> of \<open>knowledge/justifications.py\<close>), each stated over the
  code's result and the specification \<^const>\<open>derivable\<close>.
\<close>

section \<open>Witnesses and what they stand for\<close>

lemma run_of_witness:
  assumes "run_of H S F st" and "(a, sws) \<in> set (st_witnesses st)" and "w \<in> set sws"
  shows "(\<exists>x\<in>set S. an_atom x = a \<and> core w = anchor_core x) \<or>
    (\<exists>j\<in>set F. js_atom j = a \<and> core w = rule_core H j)"
proof -
  have "dict_get (st_witnesses st) a [] = sws"
    using assms(1,2) by (simp add: run_of_def witnesses_ok_def dict_get_def)
  then have "core w \<in> set (map core (dict_get (st_witnesses st) a []))" using assms(3) by simp
  moreover have "map core (dict_get (st_witnesses st) a []) =
      map anchor_core (filter (\<lambda>x. an_atom x = a) S) @ map (rule_core H) (filter (\<lambda>j. js_atom j = a) F)"
    using assms(1) by (simp add: run_of_def witnesses_ok_def)
  ultimately show ?thesis by auto
qed

lemma dict_get_member: "w \<in> set (dict_get d k []) \<Longrightarrow> \<exists>ws. (k, ws) \<in> set d \<and> w \<in> set ws"
  by (cases "map_of d k") (auto simp: dict_get_def dest: map_of_SomeD)

lemma run_of_core:
  assumes "run_of H S F st"
    and "c \<in> set (map anchor_core (filter (\<lambda>x. an_atom x = a) S) @
      map (rule_core H) (filter (\<lambda>j. js_atom j = a) F))"
  shows "\<exists>sws w. (a, sws) \<in> set (st_witnesses st) \<and> w \<in> set sws \<and> core w = c"
proof -
  have "map core (dict_get (st_witnesses st) a []) =
      map anchor_core (filter (\<lambda>x. an_atom x = a) S) @ map (rule_core H) (filter (\<lambda>j. js_atom j = a) F)"
    using assms(1) by (simp add: run_of_def witnesses_ok_def)
  with assms(2) obtain w where w: "w \<in> set (dict_get (st_witnesses st) a [])" "core w = c"
    by (metis (no_types, lifting) imageE list.set_map)
  then show ?thesis using dict_get_member by fastforce
qed

lemma outcome_run:
  assumes "outcome_of H js anchors state S F r"
  obtains st where "r = closure_result (cr_status r) st (cr_node_budget r)" and "run_of H S F st"
  using assms unfolding outcome_of_def by blast

lemma outcome_complete:
  assumes "outcome_of H js anchors state S F r" and "is_complete r"
  shows "S = seeds anchors" and "mset F = mset (filter (fires S js state) js)"
    and "set F = {j \<in> set js. fires S js state j}"
proof -
  from assms have S: "S = seeds anchors" "saturated S state F js (atoms_of S F)" "\<forall>j\<in>set F. fires S js state j"
    by (auto simp: outcome_of_def is_complete_def)
  then show "S = seeds anchors" and m: "mset F = mset (filter (fires S js state) js)"
    using saturated_derivable(2) by blast+
  from m show "set F = {j \<in> set js. fires S js state j}"
    by (metis set_filter set_mset_mset)
qed

text \<open>Rules that no assertion of the caller is needed for.\<close>

abbreviation unconditional :: "JustificationSet list \<Rightarrow> JustificationSet list" where
  "unconditional js \<equiv> filter (\<lambda>j. js_conditions j = []) js"

lemma clean_atom_derivable:
  assumes run: "run_of H S F st" and F: "set F = {j \<in> set js. fires S js state j}"
  shows "clean_atom (st_witnesses st) a \<longleftrightarrow> derivable S (unconditional js) state a"
proof
  assume "clean_atom (st_witnesses st) a"
  then show "derivable S (unconditional js) state a"
  proof (induction rule: clean_atom.induct)
    case (1 a sws w)
    from run_of_witness[OF run 1(1,2)] consider
      (anchor) x where "x \<in> set S" "an_atom x = a"
    | (derived) j where "j \<in> set F" "js_atom j = a" "core w = rule_core H j" by blast
    then show ?case
    proof cases
      case anchor
      then show ?thesis using derivable.seed by metis
    next
      case derived
      from derived(3) 1(3) have "js_conditions j = []" and "sw_premises w = js_premises j"
        by (auto simp: core_def rule_core_def)
      moreover from derived(1) F have "j \<in> set js" "evidence_ok S j" by (auto simp: enabled_def)
      ultimately have "derivable S (unconditional js) state (js_atom j)"
        using 1(4) by (intro derivable.rule) (auto simp: conditions_ok_def)
      with derived(2) show ?thesis by simp
    qed
  qed
next
  assume "derivable S (unconditional js) state a"
  then show "clean_atom (st_witnesses st) a"
  proof (induction rule: derivable.induct)
    case (seed x)
    then have "anchor_core x \<in> set (map anchor_core (filter (\<lambda>y. an_atom y = an_atom x) S) @
        map (rule_core H) (filter (\<lambda>j. js_atom j = an_atom x) F))" by auto
    from run_of_core[OF run this] show ?case
      by (auto simp: core_def anchor_core_def intro: clean_atom.intros)
  next
    case (rule j)
    have "derivable S js state p" if "PropositionPremise p \<in> set (js_premises j)" for p
      using rule.IH that by (auto intro: derivable_mono)
    with rule F have "j \<in> set F" by (auto simp: enabled_def)
    then have "rule_core H j \<in> set (map anchor_core (filter (\<lambda>y. an_atom y = js_atom j) S) @
        map (rule_core H) (filter (\<lambda>k. js_atom k = js_atom j) F))" by auto
    from run_of_core[OF run this] rule.hyps rule.IH show ?case
      by (auto simp: core_def rule_core_def intro: clean_atom.intros)
  qed
qed

lemma closure_result_assumed:
  "set (cr_assumption_backed (closure_result s st b)) =
     {a \<in> set (dict_keys (st_witnesses st)). \<not> clean_atom (st_witnesses st) a}"
  using assumption_backed_result[of "st_witnesses st"] by (elim exE conjE) (simp add: closure_result_def Let_def)

lemma run_of_keys:
  assumes "run_of H S F st"
  shows "a \<in> set (dict_keys (st_witnesses st)) \<longleftrightarrow> dict_get (st_witnesses st) a [] \<noteq> []"
proof -
  have d: "distinct (dict_keys (st_witnesses st))" and n: "\<forall>sws\<in>snd ` set (st_witnesses st). sws \<noteq> []"
    using assms by (simp_all add: run_of_def witnesses_ok_def)
  show ?thesis
  proof (cases "map_of (st_witnesses st) a")
    case None
    then have "a \<notin> set (dict_keys (st_witnesses st))" by (simp add: map_of_eq_None_iff)
    with None show ?thesis by (simp add: dict_get_def)
  next
    case (Some sws)
    then have "(a, sws) \<in> set (st_witnesses st)" by (rule map_of_SomeD)
    with n Some show ?thesis by (force simp: dict_get_def)
  qed
qed

lemma outcome_assumption:
  assumes "outcome_of H js anchors state S F r" and "is_complete r"
  shows "a \<in> set (cr_assumption_backed r) \<longleftrightarrow>
    derivable (seeds anchors) js state a \<and> \<not> derivable (seeds anchors) (unconditional js) state a"
  using assms(1)
proof (rule outcome_run)
  fix st assume r: "r = closure_result (cr_status r) st (cr_node_budget r)" and run: "run_of H S F st"
  have "set (cr_assumption_backed r) = {a \<in> set (dict_keys (st_witnesses st)). \<not> clean_atom (st_witnesses st) a}"
    by (subst r) (rule closure_result_assumed)
  moreover have "a \<in> set (dict_keys (st_witnesses st)) \<longleftrightarrow> reached r a"
    unfolding run_of_keys[OF run] reached_def by (subst r) simp
  ultimately show ?thesis
    using clean_atom_derivable[OF run outcome_complete(3)[OF assms]] outcome_complete(1)[OF assms]
      outcome_derivable[OF assms]
    by simp
qed

lemma outcome_counts:
  assumes "outcome_of H js anchors state S F r" and "is_complete r"
  shows "length (witnesses_for r a) = length (filter (\<lambda>x. an_atom x = a) (seeds anchors)) +
    length (filter (\<lambda>j. js_atom j = a \<and> fires (seeds anchors) js state j) js)"
  using assms(1)
proof (rule outcome_run)
  fix st assume r: "r = closure_result (cr_status r) st (cr_node_budget r)" and run: "run_of H S F st"
  have "map core (dict_get (st_witnesses st) a []) =
      map anchor_core (filter (\<lambda>x. an_atom x = a) S) @ map (rule_core H) (filter (\<lambda>j. js_atom j = a) F)"
    using run by (simp add: run_of_def witnesses_ok_def)
  then have "length (dict_get (st_witnesses st) a []) =
      length (filter (\<lambda>x. an_atom x = a) S) + length (filter (\<lambda>j. js_atom j = a) F)"
    by (metis length_append length_map)
  moreover have "mset (filter (\<lambda>j. js_atom j = a) F) =
      mset (filter (\<lambda>j. js_atom j = a) (filter (fires S js state) js))"
    unfolding mset_filter[of "\<lambda>j. js_atom j = a"] outcome_complete(2)[OF assms] ..
  from mset_eq_length[OF this] have "length (filter (\<lambda>j. js_atom j = a) F) =
      length (filter (\<lambda>j. js_atom j = a \<and> fires S js state j) js)"
    by (simp add: conj_commute)
  moreover have "witnesses_for r a = dict_get (st_witnesses st) a []"
    unfolding witnesses_for_def by (subst r) simp
  ultimately show ?thesis using outcome_complete(1)[OF assms] by simp
qed

section \<open>Properties of an evaluation\<close>

text \<open>C1. The closure computes the least fixpoint, no more and no less. When an evaluation reports
  COMPLETE, an atom has a witness exactly when it is derivable from this round's anchors (one per
  anchor id) by the registered groups under the caller's assertions, in the inductive sense: every
  conclusion has a finite derivation that starts at anchors, so nothing supports itself, and a
  premise that was not derived is never treated as false or true.\<close>

theorem closure_reaches_derivable:
  assumes "grounded_closure H g anchors b asm = Inr r" and "assumption_state asm = Inr state"
    and "is_complete r"
  shows "reached r a \<longleftrightarrow> derivable (seeds anchors) (justifications H g) state a"
  using grounded_closure_outcome(1)[OF assms(1,2)] outcome_derivable[OF _ assms(3)] by blast

definition sample_anchors :: "Anchor list" where
  "sample_anchors = [anchor_of (sample_candidates ! 2) False, anchor_of (sample_candidates ! 2) False]"

definition sample_rules :: "JustificationSet list" where
  "sample_rules = [sample_rule ''c'' [''p''], sample_rule ''d'' [''c'', ''p''], sample_rule ''x'' [''y''],
     sample_rule ''y'' [''x'']]"

definition sample_run :: "int \<Rightarrow> contract_error + ClosureResult" where
  "sample_run b = rbind (support_graph sample_hash sample_rules) (\<lambda>g.
     grounded_closure sample_hash g sample_anchors b None)"

abbreviation pos :: "string \<Rightarrow> Atom" where
  "pos k \<equiv> \<lparr>a_key = k, a_polarity = POSITIVE\<rparr>"

lemma sample_run_complete:
  "case sample_run 3 of Inl _ \<Rightarrow> False
   | Inr r \<Rightarrow> is_complete r \<and> reached r (pos ''d'') \<and> \<not> reached r (pos ''x'') \<and> cr_node_count r = 3 \<and>
       length (witnesses_for r (pos ''d'')) = 1 \<and> may_release r ''d'' True POSITIVE = Inr True \<and>
       rests_on_assumption r ''d'' POSITIVE = Inr False"
  by code_simp

lemma sample_run_obtains:
  obtains g r where "support_graph sample_hash sample_rules = Inr g"
    and "grounded_closure sample_hash g sample_anchors 3 None = Inr r" and "is_complete r"
    and "reached r (pos ''d'')" and "length (witnesses_for r (pos ''d'')) = 1"
    and "may_release r ''d'' True POSITIVE = Inr True" and "rests_on_assumption r ''d'' POSITIVE = Inr False"
  using sample_run_complete by (auto simp: sample_run_def rbind_Inr_iff split: sum.splits)

theorem closure_reaches_derivable_witness:
  "\<exists>g r. support_graph sample_hash sample_rules = Inr g \<and>
     grounded_closure sample_hash g sample_anchors 3 None = Inr r \<and>
     derivable (seeds sample_anchors) (justifications sample_hash g) [] (pos ''d'')"
proof (rule sample_run_obtains)
  fix g r assume g: "support_graph sample_hash sample_rules = Inr g"
    and r: "grounded_closure sample_hash g sample_anchors 3 None = Inr r" "is_complete r" "reached r (pos ''d'')"
  have "assumption_state None = Inr []" by (simp add: assumption_state_def)
  from closure_reaches_derivable[OF r(1) this r(2)] r(3) g r(1) show ?thesis by blast
qed

text \<open>Running out of budget is reported exactly when it happens. For every valid node budget
  and assertion map the evaluation returns; it admits the minimum of the budget and the number of
  anchors and firing groups, and it reports COMPLETE exactly when that number fits the budget.\<close>

theorem closure_budget_exact:
  assumes "1 \<le> b" and "b \<le> MAX_JSON_INT" and "assumption_state asm = Inr state"
  shows "\<exists>r. grounded_closure H g anchors b asm = Inr r \<and>
    cr_node_count r = min b (needed (seeds anchors) (justifications H g) state) \<and>
    (cr_status r = CS_COMPLETE \<longleftrightarrow> needed (seeds anchors) (justifications H g) state \<le> b)"
proof -
  obtain r where r: "grounded_closure H g anchors b asm = Inr r"
    using assms
    by (cases "run_closure H (justifications H g) anchors b state")
      (auto simp: grounded_closure_def index_min_def)
  from grounded_closure_outcome[OF r assms(3)] r show ?thesis by (auto simp: outcome_of_def)
qed

theorem closure_budget_exact_witness:
  "\<exists>r. grounded_closure sample_hash \<lparr>sg_by_conclusion = [], sg_by_signature = []\<rparr> sample_anchors 5 None = Inr r
     \<and> cr_status r = CS_COMPLETE"
proof -
  let ?g = "\<lparr>sg_by_conclusion = [], sg_by_signature = []\<rparr> :: SupportGraph"
  have "justifications sample_hash ?g = []" by (simp add: justifications_def)
  moreover have "length (seeds sample_anchors) \<le> 5" by code_simp
  moreover have "assumption_state None = Inr []" by (simp add: assumption_state_def)
  ultimately show ?thesis
    using closure_budget_exact[of 5 None "[]" sample_hash ?g sample_anchors]
    by (auto simp: needed_def MAX_JSON_INT_def)
qed

text \<open>Support is counted, not estimated. In a complete evaluation the number of witnesses of
  an atom is the number of its anchors plus the number of groups concluding it whose premises,
  evidence and conditions all hold, each group once.\<close>

theorem closure_counts_support:
  assumes "grounded_closure H g anchors b asm = Inr r" and "assumption_state asm = Inr state"
    and "is_complete r"
  shows "length (witnesses_for r a) = length (filter (\<lambda>x. an_atom x = a) (seeds anchors)) +
    length (filter (\<lambda>j. js_atom j = a \<and> fires (seeds anchors) (justifications H g) state j) (justifications H g))"
  using grounded_closure_outcome(1)[OF assms(1,2)] outcome_counts[OF _ assms(3)] by blast

theorem closure_counts_support_witness:
  "\<exists>g r. support_graph sample_hash sample_rules = Inr g \<and>
     grounded_closure sample_hash g sample_anchors 3 None = Inr r \<and>
     length (filter (\<lambda>x. an_atom x = pos ''d'') (seeds sample_anchors)) +
     length (filter (\<lambda>j. js_atom j = pos ''d'' \<and>
       fires (seeds sample_anchors) (justifications sample_hash g) [] j) (justifications sample_hash g)) = 1"
proof (rule sample_run_obtains)
  fix g r assume g: "support_graph sample_hash sample_rules = Inr g"
    and r: "grounded_closure sample_hash g sample_anchors 3 None = Inr r" "is_complete r"
      "length (witnesses_for r (pos ''d'')) = 1"
  have "assumption_state None = Inr []" by (simp add: assumption_state_def)
  from closure_counts_support[OF r(1) this r(2), of "pos ''d''"] r(3) g r(1) show ?thesis by auto
qed

text \<open>A cycle without an anchor never lights up. Whatever the budget and even in an incomplete
  evaluation, no atom of a set is reached when no anchor concludes an atom of the set and every
  group concluding one needs another atom of the set.\<close>

theorem unfounded_support_not_reached:
  assumes "grounded_closure H g anchors b asm = Inr r"
    and "\<forall>x\<in>set anchors. an_atom x \<notin> U"
    and "\<forall>j\<in>set (justifications H g). js_atom j \<in> U \<longrightarrow> (\<exists>p\<in>U. PropositionPremise p \<in> set (js_premises j))"
    and "a \<in> U"
  shows "\<not> reached r a"
proof
  assume r: "reached r a"
  from assms(1) obtain state where state: "assumption_state asm = Inr state"
    by (auto simp: grounded_closure_def rbind_Inr_iff)
  from grounded_closure_outcome(1)[OF assms(1) state] outcome_sound r
  have "derivable (seeds anchors) (justifications H g) state a" by blast
  then have "a \<notin> U"
    by (rule unfounded_not_derivable) (use assms(2,3) first_of_subset[of an_signature "{}" anchors] in auto)
  with assms(4) show False by simp
qed

theorem unfounded_support_not_reached_witness:
  "\<exists>g r. support_graph sample_hash sample_rules = Inr g \<and>
     grounded_closure sample_hash g sample_anchors 3 None = Inr r \<and> \<not> reached r (pos ''x'')"
proof (rule sample_run_obtains)
  fix g r assume g: "support_graph sample_hash sample_rules = Inr g"
    and r: "grounded_closure sample_hash g sample_anchors 3 None = Inr r"
  have a: "\<forall>x\<in>set sample_anchors. an_atom x \<notin> {pos ''x'', pos ''y''}" by code_simp
  have "set (justifications sample_hash g) \<subseteq> set sample_rules"
    using support_graph_result(2)[OF g] first_of_subset by fastforce
  then have "\<forall>j\<in>set (justifications sample_hash g). js_atom j \<in> {pos ''x'', pos ''y''} \<longrightarrow>
      (\<exists>p\<in>{pos ''x'', pos ''y''}. PropositionPremise p \<in> set (js_premises j))"
    by (auto simp: sample_rules_def sample_rule_def js_atom_def subset_iff)
  from unfounded_support_not_reached[OF r a this] g r show ?thesis by blast
qed

section \<open>Properties of the gate\<close>

lemma outcome_count_bound:
  assumes "outcome_of H js anchors state S F r" and "is_complete r"
  shows "int (length (witnesses_for r a)) \<le> cr_node_budget r"
proof -
  let ?S = "seeds anchors"
  have "length (witnesses_for r a) \<le> length ?S + length (filter (fires ?S js state) js)"
    unfolding outcome_counts[OF assms]
    by (intro add_mono length_filter_le length_filter_le_filter) auto
  also have "int \<dots> \<le> cr_node_budget r"
    using assms by (simp add: outcome_of_def is_complete_def needed_def)
  finally show ?thesis by simp
qed

definition valid_key :: "string \<Rightarrow> bool" where
  "valid_key key \<longleftrightarrow> identifier_of (JStr key) ''atom.key'' = Inr key"

lemma query_atom_ok [simp]: "valid_key key \<Longrightarrow> query_atom key p = Inr \<lparr>a_key = key, a_polarity = p\<rparr>"
  by (simp add: query_atom_def make_Atom_def valid_key_def)

lemma outcome_truth:
  assumes "outcome_of H js anchors state S F r" and "is_complete r" and "cr_node_budget r \<le> MAX_JSON_INT"
    and "valid_key key"
  shows "support_for r key = Inr \<lparr>sc_t = int (length (witnesses_for r \<lparr>a_key = key, a_polarity = POSITIVE\<rparr>)),
      sc_f = int (length (witnesses_for r \<lparr>a_key = key, a_polarity = NEGATIVE\<rparr>))\<rparr>"
  using outcome_count_bound[OF assms(1,2)] assms(3,4)
  by (auto simp: support_for_def support_count_ok intro: order_trans)

lemma witnesses_reached: "witnesses_for r a = [] \<longleftrightarrow> \<not> reached r a"
  by (simp add: witnesses_for_def reached_def)

lemma grounded_closure_budget_valid:
  "grounded_closure H g anchors b asm = Inr r \<Longrightarrow> b \<le> MAX_JSON_INT"
  by (auto simp: grounded_closure_def rbind_Inr_iff index_min_ok)

text \<open>C2. The release gate opens exactly for grounded, uncontradicted conclusions. On the result
  of an evaluation, \<open>may_release\<close> never raises on a valid key, and it answers yes for a key and a
  polarity exactly when the evaluation is complete, that atom is derivable, the opposite atom is not, and, for a
  high-risk use, the atom is derivable by unconditional groups alone, that is, without any
  assertion of the caller.\<close>

theorem release_gate_exact:
  assumes "grounded_closure H g anchors b asm = Inr r" and "assumption_state asm = Inr state"
    and "valid_key key"
  shows "may_release r key high_risk p = Inr (is_complete r \<and>
    derivable (seeds anchors) (justifications H g) state \<lparr>a_key = key, a_polarity = p\<rparr> \<and>
    \<not> derivable (seeds anchors) (justifications H g) state \<lparr>a_key = key, a_polarity = opposite p\<rparr> \<and>
    (high_risk \<longrightarrow> derivable (seeds anchors) (unconditional (justifications H g)) state
       \<lparr>a_key = key, a_polarity = p\<rparr>))"
proof (cases "is_complete r")
  case False
  then show ?thesis by (simp add: may_release_def release_block_reason_def)
next
  case True
  obtain S F where o: "outcome_of H (justifications H g) anchors state S F r"
    using grounded_closure_outcome(1)[OF assms(1,2)] by blast
  have "cr_node_budget r \<le> MAX_JSON_INT"
    using grounded_closure_outcome(2)[OF assms(1,2)] grounded_closure_budget_valid[OF assms(1)] by simp
  note s = outcome_truth[OF o True this assms(3)]
  show ?thesis
    by (cases p)
      (auto simp: may_release_def release_block_reason_def True s Let_def sc_truth_def
        witnesses_reached outcome_derivable[OF o True] outcome_assumption[OF o True]
        rests_on_assumption_def assms(3))
qed

theorem release_gate_exact_witness:
  "\<exists>g r. support_graph sample_hash sample_rules = Inr g \<and>
     grounded_closure sample_hash g sample_anchors 3 None = Inr r \<and> may_release r ''d'' True POSITIVE = Inr True \<and>
     derivable (seeds sample_anchors) (unconditional (justifications sample_hash g)) [] (pos ''d'')"
proof (rule sample_run_obtains)
  fix g r assume g: "support_graph sample_hash sample_rules = Inr g"
    and r: "grounded_closure sample_hash g sample_anchors 3 None = Inr r" "may_release r ''d'' True POSITIVE = Inr True"
  have a: "assumption_state None = Inr []" by (simp add: assumption_state_def)
  have "valid_key ''d''" by code_simp
  from release_gate_exact[OF r(1) a this, of True POSITIVE] r g show ?thesis by auto
qed

text \<open>C29. An assertion always taints. In a complete evaluation a conclusion is marked as resting
  on an assumption exactly when it is derivable but not by unconditional groups alone; declaring a
  condition not defeasible does not launder it.\<close>

theorem assumption_taint_exact:
  assumes "grounded_closure H g anchors b asm = Inr r" and "assumption_state asm = Inr state"
    and "is_complete r" and "valid_key key"
  shows "rests_on_assumption r key p = Inr (
    derivable (seeds anchors) (justifications H g) state \<lparr>a_key = key, a_polarity = p\<rparr> \<and>
    \<not> derivable (seeds anchors) (unconditional (justifications H g)) state \<lparr>a_key = key, a_polarity = p\<rparr>)"
proof -
  obtain S F where o: "outcome_of H (justifications H g) anchors state S F r"
    using grounded_closure_outcome(1)[OF assms(1,2)] by blast
  show ?thesis using outcome_assumption[OF o assms(3)] assms(4) by (simp add: rests_on_assumption_def)
qed

theorem assumption_taint_exact_witness:
  "\<exists>g r. support_graph sample_hash sample_rules = Inr g \<and>
     grounded_closure sample_hash g sample_anchors 3 None = Inr r \<and> rests_on_assumption r ''d'' POSITIVE = Inr False \<and>
     (derivable (seeds sample_anchors) (justifications sample_hash g) [] (pos ''d'') \<longrightarrow>
      derivable (seeds sample_anchors) (unconditional (justifications sample_hash g)) [] (pos ''d''))"
proof (rule sample_run_obtains)
  fix g r assume g: "support_graph sample_hash sample_rules = Inr g"
    and r: "grounded_closure sample_hash g sample_anchors 3 None = Inr r" "is_complete r"
      "rests_on_assumption r ''d'' POSITIVE = Inr False"
  have a: "assumption_state None = Inr []" by (simp add: assumption_state_def)
  have "valid_key ''d''" by code_simp
  from assumption_taint_exact[OF r(1) a r(2) this, of POSITIVE] r g show ?thesis by auto
qed

text \<open>Which sources stand behind an atom, over anchors and groups instead of witnesses.\<close>

inductive originates ::
  "Anchor list \<Rightarrow> JustificationSet list \<Rightarrow> (string \<times> bool) list \<Rightarrow> Atom \<Rightarrow> string \<Rightarrow> bool"
  for S js state where
  anchored: "x \<in> set S \<Longrightarrow> originates S js state (an_atom x) (an_source_group x)"
| declared: "j \<in> set js \<Longrightarrow> fires S js state j \<Longrightarrow> js_source_group j = Some s \<Longrightarrow>
    originates S js state (js_atom j) s"
| cited: "j \<in> set js \<Longrightarrow> fires S js state j \<Longrightarrow> EvidencePremise r \<in> set (js_premises j) \<Longrightarrow>
    x \<in> set S \<Longrightarrow> an_evidence_ref x = Some r \<Longrightarrow> originates S js state (js_atom j) (an_source_group x)"
| inherited: "j \<in> set js \<Longrightarrow> fires S js state j \<Longrightarrow> PropositionPremise p \<in> set (js_premises j) \<Longrightarrow>
    originates S js state p s \<Longrightarrow> originates S js state (js_atom j) s"

lemma supplies_originates:
  assumes run: "run_of H S F st" and F: "set F = {j \<in> set js. fires S js state j}"
  shows "supplies (st_witnesses st) (st_ref_groups st) a s \<longleftrightarrow> originates S js state a s"
proof -
  have refs: "t \<in> set (dict_get (st_ref_groups st) r []) \<longleftrightarrow>
      (\<exists>x\<in>set S. an_evidence_ref x = Some r \<and> an_source_group x = t)" for t r
    using run by (simp add: run_of_def refs_ok_def)
  note wit = run_of_witness[OF run]
  have rule_wit: "j \<in> set F \<Longrightarrow> \<exists>sws w. (js_atom j, sws) \<in> set (st_witnesses st) \<and> w \<in> set sws \<and>
      core w = rule_core H j" for j
    by (rule run_of_core[OF run]) auto
  have anchor_wit: "x \<in> set S \<Longrightarrow> \<exists>sws w. (an_atom x, sws) \<in> set (st_witnesses st) \<and> w \<in> set sws \<and>
      core w = anchor_core x" for x
    by (rule run_of_core[OF run]) auto
  show ?thesis
  proof
    assume "supplies (st_witnesses st) (st_ref_groups st) a s"
    then show "originates S js state a s"
    proof (induction rule: supplies.induct)
      case (own a sws w s)
      from wit[OF own(1,2)] own(3) F show ?case
        by (auto simp: core_def anchor_core_def rule_core_def intro: originates.intros)
    next
      case (evidence a sws w r s)
      from wit[OF evidence(1,2)] evidence(3,4) F refs show ?case
        by (auto simp: core_def anchor_core_def rule_core_def intro: originates.intros)
    next
      case (premise a sws w p s)
      from wit[OF premise(1,2)] premise(3,5) F show ?case
        by (auto simp: core_def anchor_core_def rule_core_def intro: originates.intros)
    qed
  next
    assume "originates S js state a s"
    then show "supplies (st_witnesses st) (st_ref_groups st) a s"
    proof (induction rule: originates.induct)
      case (anchored x)
      from anchor_wit[OF this] show ?case by (auto simp: core_def anchor_core_def intro: supplies.own)
    next
      case (declared j s)
      with F rule_wit[of j] show ?case by (auto simp: core_def rule_core_def intro: supplies.own)
    next
      case (cited j r x)
      with F rule_wit[of j] refs show ?case
        by (auto simp: core_def rule_core_def intro!: supplies.evidence)
    next
      case (inherited j p s)
      with F rule_wit[of j] show ?case by (auto simp: core_def rule_core_def intro: supplies.premise)
    qed
  qed
qed

lemma closure_result_groups:
  "s \<in> set (dict_get (cr_source_groups (closure_result c st b)) a []) \<longleftrightarrow>
     supplies (st_witnesses st) (st_ref_groups st) a s"
  "map set (dict_get (cr_path_groups (closure_result c st b)) a []) =
     map (support_groups (st_ref_groups st) (cr_source_groups (closure_result c st b)))
       (dict_get (st_witnesses st) a [])"
proof -
  obtain g where g: "source_groups Some (st_witnesses st) (st_ref_groups st) () = Some (g, ())"
    "\<And>a s. s \<in> set (dict_get g a []) \<longleftrightarrow> supplies (st_witnesses st) (st_ref_groups st) a s"
    using source_groups_result[of "st_witnesses st" "st_ref_groups st"] by blast
  obtain ps where ps: "path_groups Some (st_witnesses st) g (st_ref_groups st) () = Some (ps, ())"
    "\<And>a. map set (dict_get ps a []) = map (support_groups (st_ref_groups st) g) (dict_get (st_witnesses st) a [])"
    using path_groups_total[of "st_witnesses st" g "st_ref_groups st"] by blast
  have "cr_source_groups (closure_result c st b) = g" "cr_path_groups (closure_result c st b) = ps"
    by (simp_all add: closure_result_def Let_def g(1) ps(1))
  with g(2) ps(2) show
    "s \<in> set (dict_get (cr_source_groups (closure_result c st b)) a []) \<longleftrightarrow>
       supplies (st_witnesses st) (st_ref_groups st) a s"
    "map set (dict_get (cr_path_groups (closure_result c st b)) a []) =
       map (support_groups (st_ref_groups st) (cr_source_groups (closure_result c st b)))
         (dict_get (st_witnesses st) a [])" by auto
qed

definition witness_sources ::
  "Anchor list \<Rightarrow> JustificationSet list \<Rightarrow> (string \<times> bool) list \<Rightarrow> SupportWitness \<Rightarrow> string set" where
  "witness_sources S js state w =
     set_option (sw_source_group w) \<union>
     {an_source_group x | x. x \<in> set S \<and> (\<exists>r. an_evidence_ref x = Some r \<and> EvidencePremise r \<in> set (sw_premises w))} \<union>
     {s. \<exists>p. PropositionPremise p \<in> set (sw_premises w) \<and> originates S js state p s}"

lemma outcome_sources:
  assumes "outcome_of H js anchors state S F r" and "is_complete r"
  shows "set (dict_get (cr_source_groups r) a []) = {s. originates (seeds anchors) js state a s}"
    and "map set (dict_get (cr_path_groups r) a []) =
      map (witness_sources (seeds anchors) js state) (witnesses_for r a)"
proof -
  obtain st where r: "r = closure_result (cr_status r) st (cr_node_budget r)" and run: "run_of H S F st"
    using assms(1) by (rule outcome_run)
  have refs: "t \<in> set (dict_get (st_ref_groups st) e []) \<longleftrightarrow>
      (\<exists>x\<in>set S. an_evidence_ref x = Some e \<and> an_source_group x = t)" for t e
    using run by (simp add: run_of_def refs_ok_def)
  have groups: "s \<in> set (dict_get (cr_source_groups r) a []) \<longleftrightarrow> originates S js state a s" for a s
    using closure_result_groups(1)[of s "cr_status r" st "cr_node_budget r" a]
      supplies_originates[OF run outcome_complete(3)[OF assms]] unfolding r[symmetric] by simp
  then show "set (dict_get (cr_source_groups r) a []) = {s. originates (seeds anchors) js state a s}"
    using outcome_complete(1)[OF assms] by auto
  have "support_groups (st_ref_groups st) (cr_source_groups r) w = witness_sources S js state w" for w
  proof -
    have "(\<Union>q\<in>set (sw_premises w). set (premise_groups (st_ref_groups st) (cr_source_groups r) q)) =
      {an_source_group x | x. x \<in> set S \<and> (\<exists>r. an_evidence_ref x = Some r \<and> EvidencePremise r \<in> set (sw_premises w))} \<union>
      {s. \<exists>p. PropositionPremise p \<in> set (sw_premises w) \<and> originates S js state p s}" (is "?l = ?r")
    proof (intro set_eqI iffI)
      fix s assume "s \<in> ?l"
      then obtain q where "q \<in> set (sw_premises w)" "s \<in> set (premise_groups (st_ref_groups st) (cr_source_groups r) q)"
        by auto
      then show "s \<in> ?r" using refs groups
        by (cases q rule: Premise.exhaust) (auto simp: premise_groups_def)
    next
      fix s assume "s \<in> ?r"
      then show "s \<in> ?l" using refs groups by (force simp: premise_groups_def)
    qed
    then show ?thesis by (auto simp: support_groups_def witness_sources_def)
  qed
  moreover have "witnesses_for r a = dict_get (st_witnesses st) a []"
    unfolding witnesses_for_def by (subst r) simp
  ultimately show "map set (dict_get (cr_path_groups r) a []) =
      map (witness_sources (seeds anchors) js state) (witnesses_for r a)"
    using closure_result_groups(2)[of "cr_status r" st "cr_node_budget r" a] outcome_complete(1)[OF assms]
    unfolding r[symmetric] by simp
qed

text \<open>C30. Independence counts disjoint reasons, not names. In a complete evaluation each support
  path is the set of all sources behind one witness, transitively through its premises; asking for
  \<open>n\<close> independent supports answers yes exactly when, among the first 64 paths with a source, \<open>n\<close>
  can be chosen that share no source pairwise. Restating one source ten times, or joining two
  sources in one group, counts once.\<close>

theorem independence_gate_exact:
  assumes "grounded_closure H g anchors b asm = Inr r" and "assumption_state asm = Inr state"
    and "is_complete r" and "valid_key key" and "1 \<le> n" and "n \<le> MAX_JSON_INT"
  shows "\<exists>paths. support_paths r key p = Inr paths \<and>
    map set paths = map (witness_sources (seeds anchors) (justifications H g) state)
      (witnesses_for r \<lparr>a_key = key, a_polarity = p\<rparr>) \<and>
    satisfies_independence r key n p = Inr (\<exists>qs.
      mset qs \<subseteq># mset (take MAX_INDEPENDENCE_PATHS (filter (\<lambda>q. q \<noteq> []) paths)) \<and>
      int (length qs) = n \<and> disjoint_paths qs)"
proof -
  obtain S F where o: "outcome_of H (justifications H g) anchors state S F r"
    using grounded_closure_outcome(1)[OF assms(1,2)] by blast
  let ?paths = "dict_get (cr_path_groups r) \<lparr>a_key = key, a_polarity = p\<rparr> []"
  have paths: "support_paths r key p = Inr ?paths" using assms(4) by (simp add: support_paths_def)
  moreover have "satisfies_independence r key n p = Inr (\<exists>qs.
      mset qs \<subseteq># mset (take MAX_INDEPENDENCE_PATHS (filter (\<lambda>q. q \<noteq> []) ?paths)) \<and>
      int (length qs) = n \<and> disjoint_paths qs)"
    using max_disjoint_paths_threshold[of n] assms(5,6) paths
    by (simp add: satisfies_independence_def index_min_def)
  ultimately show ?thesis using outcome_sources(2)[OF o assms(3)] by blast
qed

theorem independence_gate_exact_witness:
  "\<exists>g r paths. support_graph sample_hash sample_rules = Inr g \<and>
     grounded_closure sample_hash g sample_anchors 3 None = Inr r \<and>
     support_paths r ''d'' POSITIVE = Inr paths \<and>
     map set paths = map (witness_sources (seeds sample_anchors) (justifications sample_hash g) [])
       (witnesses_for r (pos ''d''))"
proof (rule sample_run_obtains)
  fix g r assume g: "support_graph sample_hash sample_rules = Inr g"
    and r: "grounded_closure sample_hash g sample_anchors 3 None = Inr r" "is_complete r"
  have a: "assumption_state None = Inr []" by (simp add: assumption_state_def)
  have "valid_key ''d''" by code_simp
  from independence_gate_exact[OF r(1) a r(2) this, of 1 POSITIVE] r g show ?thesis
    by (auto simp: MAX_JSON_INT_def)
qed

text \<open>The reported sources are the real ones. In a complete evaluation the source groups
  reported for a conclusion are exactly the groups of the anchors and of the firing groups it
  transitively rests on.\<close>

theorem source_groups_exact:
  assumes "grounded_closure H g anchors b asm = Inr r" and "assumption_state asm = Inr state"
    and "is_complete r" and "valid_key key"
  shows "\<exists>groups. independent_source_groups r key p = Inr groups \<and>
    set groups = {s. originates (seeds anchors) (justifications H g) state \<lparr>a_key = key, a_polarity = p\<rparr> s}"
proof -
  obtain S F where o: "outcome_of H (justifications H g) anchors state S F r"
    using grounded_closure_outcome(1)[OF assms(1,2)] by blast
  show ?thesis
    using outcome_sources(1)[OF o assms(3)] assms(4) by (simp add: independent_source_groups_def)
qed

theorem source_groups_exact_witness:
  "\<exists>g r groups. support_graph sample_hash sample_rules = Inr g \<and>
     grounded_closure sample_hash g sample_anchors 3 None = Inr r \<and>
     independent_source_groups r ''d'' POSITIVE = Inr groups \<and>
     set groups = {s. originates (seeds sample_anchors) (justifications sample_hash g) [] (pos ''d'') s}"
proof (rule sample_run_obtains)
  fix g r assume g: "support_graph sample_hash sample_rules = Inr g"
    and r: "grounded_closure sample_hash g sample_anchors 3 None = Inr r" "is_complete r"
  have a: "assumption_state None = Inr []" by (simp add: assumption_state_def)
  have "valid_key ''d''" by code_simp
  from source_groups_exact[OF r(1) a r(2) this, of POSITIVE] r g show ?thesis by blast
qed

end
