(* ===== verification/Bounded.thy ===== *)
theory Bounded
  imports Release
begin

text \<open>
  The bounded worklist of \<open>knowledge/bounded_closure.py\<close> and the conflict-free recomputation of
  \<open>assurance/grounding.py\<close> that uses it.

  \<open>thread_time_ns()\<close> is the parameter \<open>clock\<close>: \<open>clock k\<close> is the \<open>k\<close>-th reading. A computation either
  continues with a value or stops, by \<open>_Exhausted\<close> (which carries the node count the handler
  reports) or by another exception. Python's iteration order over the set \<open>added\<close> is the insertion
  order here; the positions it makes ready are sorted before use.
\<close>

record ClosureLimits =
  li_literals :: int
  li_rules :: int
  li_premise_visits :: int
  li_cpu_ms :: int

definition check_limit :: "int \<Rightarrow> int \<Rightarrow> string \<Rightarrow> contract_error + unit" where
  "check_limit v maximum name =
     rbind (index_min 1 (JInt v) name) (\<lambda>_.
     if maximum < v then Inl (CE_rule ''exceeds the Assurance evaluation limit'') else Inr ())"

definition check_ClosureLimits :: "ClosureLimits \<Rightarrow> contract_error + ClosureLimits" where
  "check_ClosureLimits L =
     rbind (check_limit (li_literals L) 10000 ''literals'') (\<lambda>_.
     rbind (check_limit (li_rules L) 20000 ''rules'') (\<lambda>_.
     rbind (check_limit (li_premise_visits L) 1000000 ''premise_visits'') (\<lambda>_.
     rbind (check_limit (li_cpu_ms L) 250 ''cpu_ms'') (\<lambda>_. Inr L))))"

definition default_limits :: ClosureLimits where
  "default_limits = \<lparr>li_literals = 10000, li_rules = 20000, li_premise_visits = 1000000, li_cpu_ms = 250\<rparr>"

record ClosureBudget =
  cb_limits :: ClosureLimits
  cb_deadline :: int
  cb_visits :: int
  cb_readings :: nat

definition new_budget :: "(nat \<Rightarrow> int) \<Rightarrow> ClosureLimits \<Rightarrow> ClosureBudget" where
  "new_budget clock L =
     \<lparr>cb_limits = L, cb_deadline = clock 0 + li_cpu_ms L * 1000000, cb_visits = 0, cb_readings = 1\<rparr>"

definition budget_check :: "(nat \<Rightarrow> int) \<Rightarrow> int \<Rightarrow> ClosureBudget \<Rightarrow> ClosureBudget option" where
  "budget_check clock charge b =
     (let b' = b\<lparr>cb_visits := cb_visits b + charge, cb_readings := cb_readings b + 1\<rparr> in
      if li_premise_visits (cb_limits b) < cb_visits b' \<or> cb_deadline b \<le> clock (cb_readings b)
      then None else Some b')"

datatype stop = Exhausted int | Raised contract_error

definition or_stop :: "int \<Rightarrow> 'a option \<Rightarrow> stop + 'a" where
  "or_stop nodes v = (case v of None \<Rightarrow> Inl (Exhausted nodes) | Some x \<Rightarrow> Inr x)"

definition admit_literal :: "ClosureLimits \<Rightarrow> int \<Rightarrow> Atom \<Rightarrow> Atom list \<Rightarrow> stop + Atom list" where
  "admit_literal L nodes a lits =
     (let lits' = List.insert a lits in
      if li_literals L < int (length lits') then Inl (Exhausted nodes) else Inr lits')"

fun bounded_seed ::
  "(nat \<Rightarrow> int) \<Rightarrow> ClosureLimits \<Rightarrow> string list \<Rightarrow> int \<Rightarrow> Anchor list \<Rightarrow> closure_state \<Rightarrow> Atom list
    \<Rightarrow> ClosureBudget \<Rightarrow> stop + (closure_state \<times> Atom list \<times> ClosureBudget)" where
  "bounded_seed clock L excluded nb [] st lits b = Inr (st, lits, b)"
| "bounded_seed clock L excluded nb (a # as) st lits b =
     rbind (or_stop (st_nodes st) (budget_check clock 0 b)) (\<lambda>b.
     rbind (admit_literal L (st_nodes st) (an_atom a) lits) (\<lambda>lits.
     if a_key (an_atom a) \<in> set excluded then bounded_seed clock L excluded nb as st lits b
     else if an_signature a \<in> set (st_admitted st) then bounded_seed clock L excluded nb as st lits b
     else if nb \<le> st_nodes st then Inl (Exhausted (st_nodes st))
     else bounded_seed clock L excluded nb as (admit_anchor a st) lits b))"

fun scan_premises ::
  "(nat \<Rightarrow> int) \<Rightarrow> ClosureLimits \<Rightarrow> closure_state \<Rightarrow> Premise list \<Rightarrow> Atom list \<Rightarrow> bool \<Rightarrow> Atom list
    \<Rightarrow> ClosureBudget \<Rightarrow> stop + (Atom list \<times> bool \<times> Atom list \<times> ClosureBudget)" where
  "scan_premises clock L st [] absent usable lits b = Inr (absent, usable, lits, b)"
| "scan_premises clock L st (p # ps) absent usable lits b =
     rbind (or_stop (st_nodes st) (budget_check clock 1 b)) (\<lambda>b.
     case p of
       EvidencePremise r \<Rightarrow>
         scan_premises clock L st ps absent (usable \<and> r \<in> set (st_evidence_refs st)) lits b
     | PropositionPremise a \<Rightarrow>
         rbind (admit_literal L (st_nodes st) a lits) (\<lambda>lits.
         scan_premises clock L st ps
           (if a \<notin> set (dict_keys (st_witnesses st)) then List.insert a absent else absent) usable lits b))"

fun scan_conditions ::
  "(nat \<Rightarrow> int) \<Rightarrow> int \<Rightarrow> (string \<times> bool) list \<Rightarrow> RuleCondition list \<Rightarrow> bool \<Rightarrow> ClosureBudget
    \<Rightarrow> stop + (bool \<times> ClosureBudget)" where
  "scan_conditions clock nodes state [] usable b = Inr (usable, b)"
| "scan_conditions clock nodes state (c # cs) usable b =
     rbind (or_stop nodes (budget_check clock 1 b)) (\<lambda>b.
     scan_conditions clock nodes state cs (usable \<and> map_of state (cond_name c) = Some True) b)"

record worklist =
  wl_waiting :: "(Atom \<times> nat list) list"
  wl_missing :: "(nat \<times> Atom list) list"
  wl_ready :: "nat list"

definition enqueue :: "nat \<Rightarrow> Atom list \<Rightarrow> worklist \<Rightarrow> worklist" where
  "enqueue i absent wl =
     \<lparr>wl_waiting = foldl (\<lambda>w a. dict_append a i w) (wl_waiting wl) absent,
      wl_missing = dict_set i absent (wl_missing wl),
      wl_ready = (if absent = [] then wl_ready wl @ [i] else wl_ready wl)\<rparr>"

fun index_rules ::
  "(nat \<Rightarrow> int) \<Rightarrow> ClosureLimits \<Rightarrow> string list \<Rightarrow> (string \<times> bool) list \<Rightarrow> closure_state
    \<Rightarrow> nat \<Rightarrow> JustificationSet list \<Rightarrow> worklist \<Rightarrow> Atom list \<Rightarrow> ClosureBudget
    \<Rightarrow> stop + (worklist \<times> ClosureBudget)" where
  "index_rules clock L excluded state st i [] wl lits b = Inr (wl, b)"
| "index_rules clock L excluded state st i (j # js) wl lits b =
     rbind (or_stop (st_nodes st) (budget_check clock 0 b)) (\<lambda>b.
     rbind (admit_literal L (st_nodes st) (js_atom j) lits) (\<lambda>lits.
     rbind (scan_premises clock L st (js_premises j) [] True lits b) (\<lambda>(absent, usable, lits, b).
     rbind (scan_conditions clock (st_nodes st) state (js_conditions j) usable b) (\<lambda>(usable, b).
     if \<not> (usable \<and> a_key (js_atom j) \<notin> set excluded)
     then index_rules clock L excluded state st (Suc i) js wl lits b
     else index_rules clock L excluded state st (Suc i) js (enqueue i absent wl) lits b))))"

fun collect_fired ::
  "(nat \<Rightarrow> int) \<Rightarrow> (string \<times> bool) list \<Rightarrow> JustificationSet list \<Rightarrow> closure_state \<Rightarrow> nat list \<Rightarrow> ClosureBudget
    \<Rightarrow> stop + ((JustificationSet \<times> int \<times> string list) list \<times> ClosureBudget)" where
  "collect_fired clock state rules st [] b = Inr ([], b)"
| "collect_fired clock state rules st (i # is) b =
     (let j = rules ! i in
     rbind (or_stop (st_nodes st) (budget_check clock
        (int (length (js_premises j) + length (js_conditions j))) b)) (\<lambda>b.
     case premises_satisfied j (st_witnesses st) (st_evidence_refs st) state of
       None \<Rightarrow> Inl (Raised (CE_rule ''worklist premise bookkeeping disagrees with original evaluator''))
     | Some (depth, used) \<Rightarrow>
         rbind (collect_fired clock state rules st is b) (\<lambda>(fired, b). Inr ((j, depth, used) # fired, b))))"

fun bounded_fire ::
  "(json \<Rightarrow> string) \<Rightarrow> (nat \<Rightarrow> int) \<Rightarrow> int \<Rightarrow> (JustificationSet \<times> int \<times> string list) list \<Rightarrow> closure_state
    \<Rightarrow> Atom list \<Rightarrow> ClosureBudget \<Rightarrow> stop + (closure_state \<times> Atom list \<times> ClosureBudget)" where
  "bounded_fire H clock nb [] st added b = Inr (st, added, b)"
| "bounded_fire H clock nb ((j, depth, used) # rest) st added b =
     rbind (or_stop (st_nodes st) (budget_check clock 0 b)) (\<lambda>b.
     if nb \<le> st_nodes st then Inl (Exhausted (st_nodes st))
     else bounded_fire H clock nb rest (admit_rule H j depth used st)
       (if js_atom j \<notin> set (dict_keys (st_witnesses st)) then List.insert (js_atom j) added else added) b)"

fun wake_positions ::
  "(nat \<Rightarrow> int) \<Rightarrow> int \<Rightarrow> Atom \<Rightarrow> nat list \<Rightarrow> worklist \<Rightarrow> ClosureBudget \<Rightarrow> stop + (worklist \<times> ClosureBudget)" where
  "wake_positions clock nodes a [] wl b = Inr (wl, b)"
| "wake_positions clock nodes a (i # is) wl b =
     rbind (or_stop nodes (budget_check clock 1 b)) (\<lambda>b.
     case map_of (wl_missing wl) i of
       None \<Rightarrow> Inl (Raised (PyKeyError ''missing''))
     | Some atoms \<Rightarrow>
         if a \<notin> set atoms then Inl (Raised (PyKeyError ''atom''))
         else let left = removeAll a atoms in
           wake_positions clock nodes a is
             (wl\<lparr>wl_missing := dict_set i left (wl_missing wl),
                 wl_ready := (if left = [] then wl_ready wl @ [i] else wl_ready wl)\<rparr>) b)"

fun wake_atoms ::
  "(nat \<Rightarrow> int) \<Rightarrow> int \<Rightarrow> Atom list \<Rightarrow> worklist \<Rightarrow> ClosureBudget \<Rightarrow> stop + (worklist \<times> ClosureBudget)" where
  "wake_atoms clock nodes [] wl b = Inr (wl, b)"
| "wake_atoms clock nodes (a # as) wl b =
     rbind (wake_positions clock nodes a (dict_get (wl_waiting wl) a [])
              (wl\<lparr>wl_waiting := AList.delete a (wl_waiting wl)\<rparr>) b) (\<lambda>(wl, b).
     wake_atoms clock nodes as wl b)"

text \<open>A woken position uses up an entry of \<open>waiting\<close>, which bounds the rounds.\<close>

lemma wake_positions_waiting:
  "wake_positions clock nodes a is wl b = Inr (wl', b') \<Longrightarrow> wl_waiting wl' = wl_waiting wl"
proof (induction "is" arbitrary: wl b)
  case (Cons i "is")
  then show ?case by (fastforce simp: rbind_Inr_iff Let_def split: option.splits if_splits)
qed simp

lemma delete_length:
  "length (AList.delete a d) \<le> length d"
  "dict_get d a [] \<noteq> [] \<Longrightarrow> length (AList.delete a d) < length d"
proof -
  show "length (AList.delete a d) \<le> length d" by (simp add: AList.delete_eq)
  assume "dict_get d a [] \<noteq> []"
  then obtain v where "(a, v) \<in> set d"
    by (cases "map_of d a") (auto simp: dict_get_def dest: map_of_SomeD)
  then show "length (AList.delete a d) < length d"
    unfolding AList.delete_eq by (intro length_filter_less) auto
qed

lemma wake_atoms_progress:
  assumes "wake_atoms clock nodes as wl b = Inr (wl', b')"
  shows "length (wl_waiting wl') \<le> length (wl_waiting wl) \<and>
    (wl_ready wl' \<noteq> wl_ready wl \<longrightarrow> length (wl_waiting wl') < length (wl_waiting wl))"
  using assms
proof (induction "as" arbitrary: wl b)
  case (Cons a "as")
  let ?d = "wl\<lparr>wl_waiting := AList.delete a (wl_waiting wl)\<rparr>"
  from Cons.prems obtain wl1 b1 where
    p: "wake_positions clock nodes a (dict_get (wl_waiting wl) a []) ?d b = Inr (wl1, b1)"
    and r: "wake_atoms clock nodes as wl1 b1 = Inr (wl', b')" by (auto simp: rbind_Inr_iff)
  have w: "wl_waiting wl1 = AList.delete a (wl_waiting wl)" using wake_positions_waiting[OF p] by simp
  show ?case
  proof (cases "dict_get (wl_waiting wl) a [] = []")
    case True
    with p have "wl_ready wl1 = wl_ready wl" by auto
    with Cons.IH[OF r] w delete_length(1)[of a "wl_waiting wl"] show ?thesis by auto
  next
    case False
    with Cons.IH[OF r] w delete_length(2)[of "wl_waiting wl" a] show ?thesis by auto
  qed
qed simp

function bounded_rounds ::
  "(json \<Rightarrow> string) \<Rightarrow> (nat \<Rightarrow> int) \<Rightarrow> int \<Rightarrow> (string \<times> bool) list \<Rightarrow> JustificationSet list \<Rightarrow> closure_state
    \<Rightarrow> worklist \<Rightarrow> ClosureBudget \<Rightarrow> stop + (closure_state \<times> ClosureBudget)" where
  "bounded_rounds H clock nb state rules st wl b =
     (if wl_ready wl = [] then Inr (st, b)
      else case collect_fired clock state rules st (sort (wl_ready wl)) b of
        Inl s \<Rightarrow> Inl s
      | Inr (fired, b1) \<Rightarrow>
          (case bounded_fire H clock nb fired st [] b1 of
             Inl s \<Rightarrow> Inl s
           | Inr (st1, added, b2) \<Rightarrow>
               (case wake_atoms clock (st_nodes st1) added (wl\<lparr>wl_ready := []\<rparr>) b2 of
                  Inl s \<Rightarrow> Inl s
                | Inr (wl1, b3) \<Rightarrow> bounded_rounds H clock nb state rules st1 wl1 b3)))"
  by pat_completeness auto
termination
  by (relation "measure (\<lambda>(H, clock, nb, state, rules, st, wl, b).
        2 * length (wl_waiting wl) + (if wl_ready wl = [] then 0 else 1))")
    (auto dest!: wake_atoms_progress split: if_splits)

definition bounded_analyses ::
  "(nat \<Rightarrow> int) \<Rightarrow> int \<Rightarrow> closure_state \<Rightarrow> ClosureBudget \<Rightarrow> stop + (ClosureResult \<times> ClosureBudget)" where
  "bounded_analyses clock nb st b =
     (let ws = st_witnesses st; refs = st_ref_groups st; charge = budget_check clock 1 in
      or_stop (st_nodes st)
        (Option.bind (source_groups charge ws refs b) (\<lambda>(groups, b).
         Option.bind (path_groups charge ws groups refs b) (\<lambda>(paths, b).
         Option.bind (assumption_backed charge ws b) (\<lambda>(assumed, b).
         Option.bind (budget_check clock 0 b) (\<lambda>b.
           Some (\<lparr>cr_status = CS_COMPLETE, cr_witnesses = ws, cr_source_groups = groups,
                  cr_path_groups = paths, cr_assumption_backed = assumed,
                  cr_admitted_signatures = st_admitted st, cr_node_count = st_nodes st,
                  cr_node_budget = nb\<rparr>, b)))))))"

definition bounded_body ::
  "(json \<Rightarrow> string) \<Rightarrow> (nat \<Rightarrow> int) \<Rightarrow> ClosureLimits \<Rightarrow> SupportGraph \<Rightarrow> Anchor list \<Rightarrow> int
    \<Rightarrow> (string \<times> json) list option \<Rightarrow> string list \<Rightarrow> ClosureBudget \<Rightarrow> stop + (ClosureResult \<times> ClosureBudget)" where
  "bounded_body H clock L g anchors nb assumptions excluded b =
     rbind (or_stop 0 (budget_check clock 0 b)) (\<lambda>b.
     if li_rules L < int (sg_length g) then Inl (Exhausted 0)
     else rbind (case assumption_state assumptions of Inl e \<Rightarrow> Inl (Raised e) | Inr s \<Rightarrow> Inr s) (\<lambda>state.
     rbind (bounded_seed clock L excluded nb anchors empty_closure [] b) (\<lambda>(st, lits, b).
     let rules = justifications H g in
     rbind (or_stop (st_nodes st) (budget_check clock 0 b)) (\<lambda>b.
     rbind (index_rules clock L excluded state st 0 rules
              \<lparr>wl_waiting = [], wl_missing = [], wl_ready = []\<rparr> lits b) (\<lambda>(wl, b).
     rbind (bounded_rounds H clock nb state rules st wl b) (\<lambda>(st, b).
     bounded_analyses clock nb st b))))))"

definition incomplete_result :: "int \<Rightarrow> int \<Rightarrow> ClosureResult" where
  "incomplete_result nodes nb =
     \<lparr>cr_status = CS_EVALUATION_INCOMPLETE, cr_witnesses = [], cr_source_groups = [], cr_path_groups = [],
      cr_assumption_backed = [], cr_admitted_signatures = [], cr_node_count = nodes, cr_node_budget = nb\<rparr>"

text \<open>The budget a caller may go on using is returned with the result; after exhaustion there is
  none (no caller reuses an exhausted budget).\<close>

definition bounded_grounded_closure ::
  "(json \<Rightarrow> string) \<Rightarrow> (nat \<Rightarrow> int) \<Rightarrow> SupportGraph \<Rightarrow> Anchor list \<Rightarrow> ClosureLimits \<Rightarrow> int
    \<Rightarrow> (string \<times> json) list option \<Rightarrow> ClosureBudget option \<Rightarrow> string list
    \<Rightarrow> contract_error + (ClosureResult \<times> ClosureBudget option)" where
  "bounded_grounded_closure H clock g anchors L node_budget assumptions budget excluded =
     rbind (index_min 1 (JInt node_budget) ''node_budget'') (\<lambda>nb.
     let shared = (case budget of Some b \<Rightarrow> b | None \<Rightarrow> new_budget clock L) in
     if cb_limits shared \<noteq> L then Inl (CE_rule ''closure budget must match its limits'')
     else case bounded_body H clock L g anchors nb assumptions excluded shared of
       Inr (r, b) \<Rightarrow> Inr (r, Some b)
     | Inl (Exhausted nodes) \<Rightarrow> Inr (incomplete_result nodes nb, None)
     | Inl (Raised e) \<Rightarrow> Inl e)"

text \<open>\<open>grounded_closure\<close> with its optional \<open>limits\<close> argument.\<close>

definition grounded_closure_limits ::
  "(json \<Rightarrow> string) \<Rightarrow> (nat \<Rightarrow> int) \<Rightarrow> SupportGraph \<Rightarrow> Anchor list \<Rightarrow> int \<Rightarrow> (string \<times> json) list option
    \<Rightarrow> ClosureLimits option \<Rightarrow> contract_error + ClosureResult" where
  "grounded_closure_limits H clock g anchors nb assumptions limits =
     (case limits of
        None \<Rightarrow> grounded_closure H g anchors nb assumptions
      | Some L \<Rightarrow> rbind (bounded_grounded_closure H clock g anchors L nb assumptions None []) (\<lambda>(r, _). Inr r))"

end
