(* ===== verification/Bounded_Correct.thy ===== *)
theory Bounded_Correct
  imports Bounded
begin

text \<open>
  The bounded worklist agrees with the reference evaluator: whenever it is not exhausted it
  returns the reference result, and its internal consistency checks never fail. \<open>ensures\<close> is the
  weakest precondition of a computation that may be exhausted but must not raise.
\<close>

section \<open>Reasoning about computations that may be exhausted\<close>

definition ensures :: "('a \<Rightarrow> bool) \<Rightarrow> stop + 'a \<Rightarrow> bool" where
  "ensures P c = (case c of Inl (Exhausted n) \<Rightarrow> True | Inl (Raised e) \<Rightarrow> False | Inr x \<Rightarrow> P x)"

lemma ensures_simps [simp]:
  "ensures P (Inl (Exhausted n))" "\<not> ensures P (Inl (Raised e))" "ensures P (Inr x) = P x"
  "ensures P (rbind c f) = ensures (\<lambda>x. ensures P (f x)) c"
  "ensures P (or_stop n v) = (case v of None \<Rightarrow> True | Some x \<Rightarrow> P x)"
  by (cases c; auto simp: ensures_def or_stop_def split: sum.splits stop.splits option.splits)+

lemma ensures_weaken: "ensures P c \<Longrightarrow> (\<And>x. P x \<Longrightarrow> Q x) \<Longrightarrow> ensures Q c"
  by (auto simp: ensures_def split: sum.splits stop.splits)

lemma ensures_literal: "(\<And>l. P l) \<Longrightarrow> ensures P (admit_literal L n a lits)"
  by (simp add: admit_literal_def Let_def)

section \<open>A hook changes whether an analysis returns, not what\<close>

lemma collect_premises_hook:
  "collect_premises tick refs g ps acc b = Some (acc', b') \<Longrightarrow>
     collect_premises Some refs g ps acc () = Some (acc', ())"
  by (induction ps arbitrary: acc b) (auto simp: bind_eq_Some_conv)

lemma collect_supports_hook:
  "collect_supports tick refs g ws acc b = Some (acc', b') \<Longrightarrow>
     collect_supports Some refs g ws acc () = Some (acc', ())"
proof (induction ws arbitrary: acc b)
  case (Cons w ws)
  then obtain b1 c b2 where
    p: "collect_premises tick refs g (sw_premises w) (own_group w acc) b1 = Some (c, b2)"
    and r: "collect_supports tick refs g ws c b2 = Some (acc', b')" by (auto simp: bind_eq_Some_conv)
  from collect_premises_hook[OF p] Cons.IH[OF r] show ?case by simp
qed simp

lemma groups_pass_hook:
  "groups_pass tick refs ws g ch b = Some (g', ch', b') \<Longrightarrow>
     groups_pass Some refs ws g ch () = Some (g', ch', ())"
proof (induction ws arbitrary: g ch b)
  case (Cons aw ws)
  obtain a sws where aw: "aw = (a, sws)" by (cases aw)
  from Cons.prems aw obtain c b1 where c: "collect_supports tick refs g sws [] b = Some (c, b1)"
    by (auto simp: bind_eq_Some_conv)
  from Cons.prems Cons.IH aw c collect_supports_hook[OF c] show ?case by (auto split: if_splits)
qed simp

lemma groups_loop_hook:
  "groups_loop tick refs ws g b = Some (g', b') \<Longrightarrow> groups_loop Some refs ws g () = Some (g', ())"
proof (induction tick refs ws g b rule: groups_loop.induct)
  case (1 tick refs ws g b)
  from "1.prems" obtain g1 ch b1 where p: "groups_pass tick refs ws g False b = Some (g1, ch, b1)"
    by (auto split: option.splits)
  show ?case
  proof (cases ch)
    case True
    with "1.prems" p have "groups_loop tick refs ws g1 b1 = Some (g', b')" by simp
    from "1.IH"[OF p refl refl True this] groups_pass_hook[OF p] True show ?thesis by simp
  next
    case False
    with "1.prems" p groups_pass_hook[OF p] show ?thesis by simp
  qed
qed

lemma support_paths_hook:
  "support_paths_of tick refs g ws ps b = Some (ps', b') \<Longrightarrow>
     support_paths_of Some refs g ws ps () = Some (ps', ())"
proof (induction ws arbitrary: ps b)
  case (Cons w ws)
  then obtain b1 c b2 where
    p: "collect_premises tick refs g (sw_premises w) (own_group w []) b1 = Some (c, b2)"
    and r: "support_paths_of tick refs g ws (ps @ [c]) b2 = Some (ps', b')" by (auto simp: bind_eq_Some_conv)
  from collect_premises_hook[OF p] Cons.IH[OF r] show ?case by simp
qed simp

lemma path_groups_hook:
  "path_groups tick ws g refs b = Some (out, b') \<Longrightarrow> path_groups Some ws g refs () = Some (out, ())"
proof (induction ws arbitrary: out b b')
  case (Cons aw ws)
  obtain a sws where aw: "aw = (a, sws)" by (cases aw)
  from Cons.prems aw obtain ps b1 out' b2 where
    p: "support_paths_of tick refs g sws [] b = Some (ps, b1)"
    and r: "path_groups tick ws g refs b1 = Some (out', b2)" "out = (a, ps) # out'"
    by (auto simp: bind_eq_Some_conv)
  from support_paths_hook[OF p] Cons.IH[OF r(1)] r(2) aw show ?case by simp
qed simp

lemma proposition_atoms_hook:
  "proposition_atoms tick ps acc b = Some (acc', b') \<Longrightarrow> proposition_atoms Some ps acc () = Some (acc', ())"
  by (induction ps arbitrary: acc b) (auto simp: bind_eq_Some_conv)

lemma clean_support_hook:
  "clean_support tick clean ws b = Some (f, b') \<Longrightarrow> clean_support Some clean ws () = Some (f, ())"
proof (induction ws arbitrary: b)
  case (Cons w ws)
  show ?case
  proof (cases "sw_assumptions w = []")
    case False
    with Cons show ?thesis by (auto simp: bind_eq_Some_conv)
  next
    case True
    with Cons.prems obtain b1 atoms b2 where a: "proposition_atoms tick (sw_premises w) [] b1 = Some (atoms, b2)"
      and r: "(if list_all (\<lambda>a. a \<in> set clean) atoms then Some (True, b2)
         else clean_support tick clean ws b2) = Some (f, b')" by (auto simp: bind_eq_Some_conv)
    from r Cons.IH proposition_atoms_hook[OF a] True show ?thesis by (auto split: if_splits)
  qed
qed simp

lemma clean_pass_hook:
  "clean_pass tick ws clean ch b = Some (clean', ch', b') \<Longrightarrow>
     clean_pass Some ws clean ch () = Some (clean', ch', ())"
proof (induction ws arbitrary: clean ch b)
  case (Cons aw ws)
  obtain a sws where aw: "aw = (a, sws)" by (cases aw)
  show ?case
  proof (cases "a \<in> set clean")
    case True
    with Cons aw show ?thesis by (auto simp: bind_eq_Some_conv)
  next
    case False
    with Cons.prems aw obtain b1 f b2 where c: "clean_support tick clean sws b1 = Some (f, b2)"
      and r: "(if f then clean_pass tick ws (a # clean) True b2 else clean_pass tick ws clean ch b2)
        = Some (clean', ch', b')" by (auto simp: bind_eq_Some_conv)
    from r Cons.IH clean_support_hook[OF c] False aw show ?thesis by (auto split: if_splits)
  qed
qed simp

lemma clean_loop_hook:
  "clean_loop tick ws clean b = Some (clean', b') \<Longrightarrow> clean_loop Some ws clean () = Some (clean', ())"
proof (induction tick ws clean b rule: clean_loop.induct)
  case (1 tick ws clean b)
  from "1.prems" obtain c ch b1 where p: "clean_pass tick ws clean False b = Some (c, ch, b1)"
    by (auto split: option.splits)
  show ?case
  proof (cases ch)
    case True
    with "1.prems" p have "clean_loop tick ws c b1 = Some (clean', b')" by simp
    from "1.IH"[OF p refl refl True this] clean_pass_hook[OF p] True show ?thesis by simp
  next
    case False
    with "1.prems" p clean_pass_hook[OF p] show ?thesis by simp
  qed
qed

lemma bounded_analyses_result:
  "ensures (\<lambda>(r, b'). r = closure_result CS_COMPLETE st nb) (bounded_analyses clock nb st b)"
proof -
  let ?t = "budget_check clock 1" and ?ws = "st_witnesses st" and ?refs = "st_ref_groups st"
  have "r = closure_result CS_COMPLETE st nb"
    if g: "source_groups ?t ?ws ?refs b = Some (g, b1)"
      and p: "path_groups ?t ?ws g ?refs b1 = Some (ps, b2)"
      and a: "assumption_backed ?t ?ws b2 = Some (as, b3)"
      and r: "r = \<lparr>cr_status = CS_COMPLETE, cr_witnesses = ?ws, cr_source_groups = g, cr_path_groups = ps,
                  cr_assumption_backed = as, cr_admitted_signatures = st_admitted st,
                  cr_node_count = st_nodes st, cr_node_budget = nb\<rparr>" for g b1 ps b2 as b3 r
  proof -
    have "source_groups Some ?ws ?refs () = Some (g, ())"
      using g unfolding source_groups_def by (rule groups_loop_hook)
    moreover have "assumption_backed Some ?ws () = Some (as, ())"
      using a clean_loop_hook[of ?t ?ws "[]" b2] by (auto simp: assumption_backed_def bind_eq_Some_conv)
    ultimately show ?thesis
      using path_groups_hook[OF p] r by (simp add: closure_result_def Let_def)
  qed
  then show ?thesis
    unfolding bounded_analyses_def Let_def
    by (auto split: option.splits simp: bind_eq_Some_conv)
qed

section \<open>Seeding\<close>

definition key_ok :: "string list \<Rightarrow> Atom \<Rightarrow> bool" where
  "key_ok excluded a \<longleftrightarrow> a_key a \<notin> set excluded"

lemma bounded_seed_result:
  "ensures (\<lambda>(st', lits', b'). seed_anchors nb (filter (\<lambda>x. key_ok excluded (an_atom x)) anchors) st = (st', False))
     (bounded_seed clock L excluded nb anchors st lits b)"
proof (induction anchors arbitrary: st lits b)
  case (Cons a anchors)
  show ?case
    by (auto split: option.splits intro!: ensures_literal simp: key_ok_def)
      (use Cons in \<open>auto simp: key_ok_def\<close>)
qed simp

section \<open>The worklist invariant\<close>

definition need :: "JustificationSet list \<Rightarrow> Atom set \<Rightarrow> nat \<Rightarrow> Atom set" where
  "need rules X i = {p. PropositionPremise p \<in> set (js_premises (rules ! i)) \<and> p \<notin> X}"

text \<open>\<open>Q\<close> holds the usable positions that have not fired, \<open>X\<close> the atoms reached so far.\<close>

definition wl_inv :: "JustificationSet list \<Rightarrow> nat set \<Rightarrow> Atom set \<Rightarrow> worklist \<Rightarrow> bool" where
  "wl_inv rules Q X wl \<longleftrightarrow>
     (\<forall>i\<in>Q. \<exists>as. map_of (wl_missing wl) i = Some as \<and> set as = need rules X i) \<and>
     (\<forall>a. distinct (dict_get (wl_waiting wl) a []) \<and>
        set (dict_get (wl_waiting wl) a []) = {i \<in> Q. a \<in> need rules X i}) \<and>
     distinct (wl_ready wl) \<and> set (wl_ready wl) = {i \<in> Q. need rules X i = {}}"

lemma wl_inv_empty: "wl_inv rules {} X \<lparr>wl_waiting = [], wl_missing = [], wl_ready = []\<rparr>"
  by (simp add: wl_inv_def)

lemma enqueue_waiting:
  "distinct absent \<Longrightarrow> dict_get (foldl (\<lambda>w a. dict_append a i w) d absent) k [] =
     dict_get d k [] @ (if k \<in> set absent then [i] else [])"
  by (induction absent arbitrary: d) (auto simp: dict_get_append)

lemma wl_inv_enqueue:
  assumes inv: "wl_inv rules Q X wl" and "i \<notin> Q" and "distinct absent" and "set absent = need rules X i"
  shows "wl_inv rules (insert i Q) X (enqueue i absent wl)"
proof -
  have w: "distinct (dict_get (wl_waiting wl) a [])"
    "set (dict_get (wl_waiting wl) a []) = {k \<in> Q. a \<in> need rules X k}" for a
    using inv unfolding wl_inv_def by blast+
  have m: "\<forall>k\<in>Q. \<exists>as. map_of (wl_missing wl) k = Some as \<and> set as = need rules X k"
    and r: "distinct (wl_ready wl)" "set (wl_ready wl) = {k \<in> Q. need rules X k = {}}"
    using inv by (simp_all add: wl_inv_def)
  have waiting: "dict_get (wl_waiting (enqueue i absent wl)) a [] =
      dict_get (wl_waiting wl) a [] @ (if a \<in> need rules X i then [i] else [])" for a
    using enqueue_waiting[OF assms(3), of i "wl_waiting wl" a] assms(4) by (simp add: enqueue_def)
  have "distinct (dict_get (wl_waiting (enqueue i absent wl)) a []) \<and>
      set (dict_get (wl_waiting (enqueue i absent wl)) a []) = {k \<in> insert i Q. a \<in> need rules X k}" for a
    unfolding waiting using w[of a] assms(2) by auto
  moreover have "\<forall>k\<in>insert i Q. \<exists>as. map_of (wl_missing (enqueue i absent wl)) k = Some as \<and>
      set as = need rules X k"
    using m assms(2,4) by (auto simp: enqueue_def)
  moreover have "distinct (wl_ready (enqueue i absent wl)) \<and>
      set (wl_ready (enqueue i absent wl)) = {k \<in> insert i Q. need rules X k = {}}"
  proof (cases "absent = []")
    case True
    with assms(4) have "need rules X i = {}" by simp
    with True r assms(2) show ?thesis by (auto simp: enqueue_def)
  next
    case False
    with assms(4) have "need rules X i \<noteq> {}" by (metis set_empty)
    with False r show ?thesis by (auto simp: enqueue_def)
  qed
  ultimately show ?thesis unfolding wl_inv_def by blast
qed

lemma scan_premises_result:
  assumes "distinct absent"
  shows "ensures (\<lambda>(absent', usable', lits', b'). distinct absent' \<and>
      set absent' = set absent \<union>
        {a. PropositionPremise a \<in> set ps \<and> a \<notin> set (dict_keys (st_witnesses st))} \<and>
      usable' = (usable \<and> (\<forall>r. EvidencePremise r \<in> set ps \<longrightarrow> r \<in> set (st_evidence_refs st))))
    (scan_premises clock L st ps absent usable lits b)"
  using assms
proof (induction ps arbitrary: absent usable lits b)
  case (Cons p ps)
  have IH: "distinct as \<Longrightarrow> ensures (\<lambda>(absent', usable', lits', b'). distinct absent' \<and>
      set absent' = set as \<union>
        {a. PropositionPremise a \<in> set ps \<and> a \<notin> set (dict_keys (st_witnesses st))} \<and>
      usable' = (u \<and> (\<forall>r. EvidencePremise r \<in> set ps \<longrightarrow> r \<in> set (st_evidence_refs st))))
    (scan_premises clock L st ps as u l b1)" for as u l b1 by (rule Cons.IH)
  show ?case
  proof (cases p)
    case (PropositionPremise a)
    let ?K = "set (dict_keys (st_witnesses st))"
    have eq: "set (if a \<notin> ?K then List.insert a absent else absent) \<union>
        {a. PropositionPremise a \<in> set ps \<and> a \<notin> ?K} =
        set absent \<union> {a. PropositionPremise a \<in> set (p # ps) \<and> a \<notin> ?K}"
      unfolding PropositionPremise by (cases "a \<in> ?K") auto
    have ev: "EvidencePremise r \<in> set (p # ps) \<longleftrightarrow> EvidencePremise r \<in> set ps" for r
      using PropositionPremise by simp
    have "ensures (\<lambda>l. ensures (\<lambda>(absent', usable', lits', b'). distinct absent' \<and>
        set absent' = set absent \<union>
          {a. PropositionPremise a \<in> set (p # ps) \<and> a \<notin> set (dict_keys (st_witnesses st))} \<and>
        usable' = (usable \<and> (\<forall>r. EvidencePremise r \<in> set (p # ps) \<longrightarrow> r \<in> set (st_evidence_refs st))))
      (scan_premises clock L st ps
        (if a \<notin> set (dict_keys (st_witnesses st)) then List.insert a absent else absent) usable l b1))
      (admit_literal L (st_nodes st) a lits)" for b1
    proof (rule ensures_literal, rule ensures_weaken[OF IH])
      show "distinct (if a \<notin> set (dict_keys (st_witnesses st)) then List.insert a absent else absent)"
        using Cons.prems by simp
    qed (simp only: eq ev)
    with PropositionPremise show ?thesis by (auto split: option.splits)
  next
    case (EvidencePremise r)
    have "ensures (\<lambda>(absent', usable', lits', b'). distinct absent' \<and>
        set absent' = set absent \<union>
          {a. PropositionPremise a \<in> set (p # ps) \<and> a \<notin> set (dict_keys (st_witnesses st))} \<and>
        usable' = (usable \<and> (\<forall>r. EvidencePremise r \<in> set (p # ps) \<longrightarrow> r \<in> set (st_evidence_refs st))))
      (scan_premises clock L st ps absent (usable \<and> r \<in> set (st_evidence_refs st)) lits b1)" for b1
      by (rule ensures_weaken[OF IH]) (use Cons.prems EvidencePremise in auto)
    with EvidencePremise show ?thesis by (auto split: option.splits)
  qed
qed simp

lemma scan_conditions_result:
  "ensures (\<lambda>(usable', b'). usable' = (usable \<and> (\<forall>c\<in>set cs. map_of state (cond_name c) = Some True)))
     (scan_conditions clock n state cs usable b)"
proof (induction cs arbitrary: usable b)
  case (Cons c cs)
  have "ensures (\<lambda>(usable', b'). usable' = (usable \<and> (\<forall>c\<in>set (c # cs). map_of state (cond_name c) = Some True)))
     (scan_conditions clock n state cs (usable \<and> map_of state (cond_name c) = Some True) b1)" for b1
    by (rule ensures_weaken[OF Cons.IH]) auto
  then show ?case by (auto split: option.splits)
qed simp

definition usable_at ::
  "Anchor list \<Rightarrow> (string \<times> bool) list \<Rightarrow> string list \<Rightarrow> JustificationSet \<Rightarrow> bool" where
  "usable_at S state excluded j \<longleftrightarrow> evidence_ok S j \<and> conditions_ok state j \<and> key_ok excluded (js_atom j)"

lemma index_rules_result:
  assumes "run_of H S [] st" and "rules = done_rules @ js" and "i = length done_rules"
    and "wl_inv rules {k. k < i \<and> usable_at S state excluded (rules ! k)} (an_atom ` set S) wl"
  shows "ensures (\<lambda>(wl', b').
      wl_inv rules {k. k < length rules \<and> usable_at S state excluded (rules ! k)} (an_atom ` set S) wl')
    (index_rules clock L excluded state st i js wl lits b)"
  using assms(2-)
proof (induction js arbitrary: i done_rules wl lits b)
  case Nil
  then show ?case by simp
next
  case (Cons j js)
  let ?Q = "\<lambda>n. {k. k < n \<and> usable_at S state excluded (rules ! k)}" and ?X = "an_atom ` set S"
  have j: "rules ! i = j" using Cons.prems(1,2) by simp
  have keys: "a \<in> set (dict_keys (st_witnesses st)) \<longleftrightarrow> a \<in> ?X" for a
    using run_of_keys[OF assms(1)] run_of_reached[OF assms(1)] by auto
  have refs: "evidence_ok S j \<longleftrightarrow> (\<forall>r. EvidencePremise r \<in> set (js_premises j) \<longrightarrow> r \<in> set (st_evidence_refs st))"
    using assms(1) by (auto simp: run_of_def refs_ok_def evidence_ok_def)
  have next_inv: "wl_inv rules (?Q (Suc i)) ?X (if usable_at S state excluded j then enqueue i absent wl else wl)"
    if "distinct absent" "set absent = need rules ?X i" for absent
  proof (cases "usable_at S state excluded j")
    case True
    with j have "?Q (Suc i) = insert i (?Q i)" by (auto simp: less_Suc_eq)
    with True wl_inv_enqueue[OF Cons.prems(3) _ that] show ?thesis by simp
  next
    case False
    with j have "?Q (Suc i) = ?Q i" by (auto simp: less_Suc_eq)
    with False Cons.prems(3) show ?thesis by simp
  qed
  have IH: "wl_inv rules (?Q (Suc i)) ?X wl1 \<Longrightarrow>
      ensures (\<lambda>(wl', b'). wl_inv rules (?Q (length rules)) ?X wl')
        (index_rules clock L excluded state st (Suc i) js wl1 l b1)" for wl1 l b1
    by (rule Cons.IH[of "done_rules @ [j]"]) (use Cons.prems in auto)
  have rest: "ensures (\<lambda>(wl', b'). wl_inv rules (?Q (length rules)) ?X wl')
     (rbind (scan_conditions clock (st_nodes st) state (js_conditions j) u b1) (\<lambda>(u, b).
        if \<not> (u \<and> a_key (js_atom j) \<notin> set excluded)
        then index_rules clock L excluded state st (Suc i) js wl l b
        else index_rules clock L excluded state st (Suc i) js (enqueue i absent wl) l b))"
    if a: "distinct absent" "set absent = need rules ?X i" and u: "u = evidence_ok S j" for absent u l b1
  proof -
    note ni = next_inv[OF a]
    show ?thesis
      unfolding ensures_simps
      by (rule ensures_weaken[OF scan_conditions_result])
        (use ni IH u in \<open>auto simp: usable_at_def conditions_ok_def key_ok_def split: if_splits\<close>)
  qed
  have "ensures (\<lambda>l. ensures (\<lambda>(wl', b'). wl_inv rules (?Q (length rules)) ?X wl')
      (rbind (scan_premises clock L st (js_premises j) [] True l b1) (\<lambda>(absent, usable, lits, b).
         rbind (scan_conditions clock (st_nodes st) state (js_conditions j) usable b) (\<lambda>(u, b).
         if \<not> (u \<and> a_key (js_atom j) \<notin> set excluded)
         then index_rules clock L excluded state st (Suc i) js wl lits b
         else index_rules clock L excluded state st (Suc i) js (enqueue i absent wl) lits b))))
     (admit_literal L (st_nodes st) (js_atom j) lits)" for b1
  proof (rule ensures_literal)
    fix l
    show "ensures (\<lambda>(wl', b'). wl_inv rules (?Q (length rules)) ?X wl')
      (rbind (scan_premises clock L st (js_premises j) [] True l b1) (\<lambda>(absent, usable, lits, b).
         rbind (scan_conditions clock (st_nodes st) state (js_conditions j) usable b) (\<lambda>(u, b).
         if \<not> (u \<and> a_key (js_atom j) \<notin> set excluded)
         then index_rules clock L excluded state st (Suc i) js wl lits b
         else index_rules clock L excluded state st (Suc i) js (enqueue i absent wl) lits b)))"
      unfolding ensures_simps(4)[of _ "scan_premises clock L st (js_premises j) [] True _ _"]
    proof (rule ensures_weaken[OF scan_premises_result[OF distinct.simps(1)[THEN eqTrueE]]])
      fix x :: "Atom list \<times> bool \<times> Atom list \<times> ClosureBudget"
      assume x: "case x of (absent', usable', lits', b') \<Rightarrow> distinct absent' \<and>
        set absent' = set [] \<union> {a. PropositionPremise a \<in> set (js_premises j) \<and>
          a \<notin> set (dict_keys (st_witnesses st))} \<and>
        usable' = (True \<and> (\<forall>r. EvidencePremise r \<in> set (js_premises j) \<longrightarrow> r \<in> set (st_evidence_refs st)))"
      obtain absent u l' b' where xx: "x = (absent, u, l', b')" by (cases x)
      with x have "distinct absent" "set absent = need rules ?X i" "u = evidence_ok S j"
        by (simp_all only: prod.case need_def j keys refs) auto
      from rest[OF this, of b' l'] show "ensures (\<lambda>(wl', b'). wl_inv rules (?Q (length rules)) ?X wl')
        (case x of (absent, usable, lits, b) \<Rightarrow>
         rbind (scan_conditions clock (st_nodes st) state (js_conditions j) usable b) (\<lambda>(u, b).
         if \<not> (u \<and> a_key (js_atom j) \<notin> set excluded)
         then index_rules clock L excluded state st (Suc i) js wl lits b
         else index_rules clock L excluded state st (Suc i) js (enqueue i absent wl) lits b))"
        by (simp only: xx prod.case)
    qed
  qed
  then show ?case by (auto split: option.splits)
qed

section \<open>One round\<close>

lemma wake_positions_result:
  assumes "distinct is" and "\<forall>i\<in>set is. \<exists>as. map_of (wl_missing wl) i = Some as \<and> a \<in> set as"
  shows "ensures (\<lambda>(wl', b'). wl_waiting wl' = wl_waiting wl \<and>
      (\<forall>i. map_of (wl_missing wl') i =
         (if i \<in> set is then map_option (removeAll a) (map_of (wl_missing wl) i) else map_of (wl_missing wl) i)) \<and>
      wl_ready wl' = wl_ready wl @ filter (\<lambda>i. map_option (removeAll a) (map_of (wl_missing wl) i) = Some []) is)
    (wake_positions clock nodes a is wl b)"
  using assms
proof (induction "is" arbitrary: wl b)
  case (Cons i "is")
  from Cons.prems(2) obtain as where as: "map_of (wl_missing wl) i = Some as" "a \<in> set as" by auto
  let ?left = "removeAll a as"
  let ?wl = "wl\<lparr>wl_missing := dict_set i ?left (wl_missing wl),
      wl_ready := (if ?left = [] then wl_ready wl @ [i] else wl_ready wl)\<rparr>"
  have other: "k \<in> set is \<Longrightarrow> k \<noteq> i" for k using Cons.prems(1) by auto
  have IH: "ensures (\<lambda>(wl', b'). wl_waiting wl' = wl_waiting ?wl \<and>
      (\<forall>k. map_of (wl_missing wl') k =
         (if k \<in> set is then map_option (removeAll a) (map_of (wl_missing ?wl) k) else map_of (wl_missing ?wl) k)) \<and>
      wl_ready wl' = wl_ready ?wl @ filter (\<lambda>k. map_option (removeAll a) (map_of (wl_missing ?wl) k) = Some []) is)
    (wake_positions clock nodes a is ?wl b1)" for b1
    by (rule Cons.IH) (use Cons.prems in auto)
  have flt: "filter (\<lambda>k. map_option (removeAll a) (map_of (wl_missing ?wl) k) = Some []) is =
      filter (\<lambda>k. map_option (removeAll a) (map_of (wl_missing wl) k) = Some []) is"
    using other by (intro filter_cong) auto
  have "ensures (\<lambda>(wl', b'). wl_waiting wl' = wl_waiting wl \<and>
      (\<forall>k. map_of (wl_missing wl') k =
         (if k \<in> set (i # is) then map_option (removeAll a) (map_of (wl_missing wl) k) else map_of (wl_missing wl) k)) \<and>
      wl_ready wl' = wl_ready wl @ filter (\<lambda>k. map_option (removeAll a) (map_of (wl_missing wl) k) = Some []) (i # is))
    (wake_positions clock nodes a is ?wl b1)" for b1
    by (rule ensures_weaken[OF IH[unfolded flt]]) (use as other in auto)
  with as show ?case by (auto simp: Let_def split: option.splits)
qed simp

lemma need_insert: "need rules (insert a X) i = need rules X i - {a}"
  by (auto simp: need_def)

lemma dict_get_delete: "dict_get (AList.delete a d) k [] = (if k = a then [] else dict_get d k [])"
  by (simp add: dict_get_def AList.delete_conv')

lemma wl_inv_wake:
  assumes inv: "wl_inv rules Q X wl"
  shows "ensures (\<lambda>(wl', b'). wl_inv rules Q (insert a X) wl')
    (wake_positions clock nodes a (dict_get (wl_waiting wl) a [])
       (wl\<lparr>wl_waiting := AList.delete a (wl_waiting wl)\<rparr>) b)"
proof -
  let ?is = "dict_get (wl_waiting wl) a []" and ?wl = "wl\<lparr>wl_waiting := AList.delete a (wl_waiting wl)\<rparr>"
  have w: "distinct (dict_get (wl_waiting wl) k [])"
    "set (dict_get (wl_waiting wl) k []) = {i \<in> Q. k \<in> need rules X i}" for k
    using inv unfolding wl_inv_def by blast+
  have m: "\<forall>i\<in>Q. \<exists>as. map_of (wl_missing wl) i = Some as \<and> set as = need rules X i"
    and r: "distinct (wl_ready wl)" "set (wl_ready wl) = {i \<in> Q. need rules X i = {}}"
    using inv by (simp_all add: wl_inv_def)
  have ready: "i \<in> Q \<Longrightarrow> map_option (removeAll a) (map_of (wl_missing wl) i) = Some [] \<longleftrightarrow>
      need rules X i \<subseteq> {a}" for i
  proof -
    assume "i \<in> Q"
    then obtain as where as: "map_of (wl_missing wl) i = Some as" "set as = need rules X i" using m by blast
    have "removeAll a as = [] \<longleftrightarrow> set as \<subseteq> {a}" by (metis set_empty set_removeAll Diff_eq_empty_iff)
    with as show ?thesis by simp
  qed
  have "wl_inv rules Q (insert a X) wl'"
    if wt: "wl_waiting wl' = AList.delete a (wl_waiting wl)"
      and ms: "\<And>i. map_of (wl_missing wl') i =
        (if i \<in> set ?is then map_option (removeAll a) (map_of (wl_missing wl) i) else map_of (wl_missing wl) i)"
      and rd: "wl_ready wl' = wl_ready wl @
        filter (\<lambda>i. map_option (removeAll a) (map_of (wl_missing wl) i) = Some []) ?is" for wl'
    unfolding wl_inv_def need_insert
  proof (intro conjI allI ballI)
    fix i assume i: "i \<in> Q"
    with m obtain as where as: "map_of (wl_missing wl) i = Some as" "set as = need rules X i" by blast
    show "\<exists>as. map_of (wl_missing wl') i = Some as \<and> set as = need rules X i - {a}"
    proof (cases "i \<in> set ?is")
      case True
      with as ms show ?thesis by simp
    next
      case False
      with i w(2)[of a] as ms show ?thesis by simp
    qed
  next
    fix k
    show "distinct (dict_get (wl_waiting wl') k [])" unfolding wt dict_get_delete using w(1) by simp
    show "set (dict_get (wl_waiting wl') k []) = {i \<in> Q. k \<in> need rules X i - {a}}"
      unfolding wt dict_get_delete using w(2) by auto
  next
    have "set (wl_ready wl) \<inter> set ?is = {}" using r(2) w(2)[of a] by auto
    with r(1) w(1)[of a] show "distinct (wl_ready wl')" unfolding rd by auto
    have "set (filter (\<lambda>i. map_option (removeAll a) (map_of (wl_missing wl) i) = Some []) ?is) =
        {i \<in> Q. a \<in> need rules X i \<and> need rules X i \<subseteq> {a}}"
      using ready w(2)[of a] by auto
    then show "set (wl_ready wl') = {i \<in> Q. need rules X i - {a} = {}}"
      unfolding rd set_append r(2) by blast
  qed
  moreover have "\<forall>i\<in>set ?is. \<exists>as. map_of (wl_missing ?wl) i = Some as \<and> a \<in> set as"
    using w(2)[of a] m by fastforce
  ultimately show ?thesis
    using wake_positions_result[OF w(1), of a ?wl a clock nodes b]
    by (auto elim!: ensures_weaken)
qed

lemma wake_atoms_result:
  "wl_inv rules Q X wl \<Longrightarrow>
     ensures (\<lambda>(wl', b'). wl_inv rules Q (set as \<union> X) wl') (wake_atoms clock nodes as wl b)"
proof (induction "as" arbitrary: X wl b)
  case (Cons a "as")
  have "ensures (\<lambda>x. ensures (\<lambda>(wl', b'). wl_inv rules Q (set (a # as) \<union> X) wl')
      (case x of (wl, b) \<Rightarrow> wake_atoms clock nodes as wl b))
    (wake_positions clock nodes a (dict_get (wl_waiting wl) a [])
       (wl\<lparr>wl_waiting := AList.delete a (wl_waiting wl)\<rparr>) b)"
    by (rule ensures_weaken[OF wl_inv_wake[OF Cons.prems]]) (use Cons.IH in fastforce)
  then show ?case by simp
qed simp

lemma collect_fired_result:
  assumes "\<And>i. i \<in> set is \<Longrightarrow>
    premises_satisfied (rules ! i) (st_witnesses st) (st_evidence_refs st) state \<noteq> None"
  shows "ensures (\<lambda>(fired, b'). fired = map (\<lambda>i. (rules ! i,
      the (premises_satisfied (rules ! i) (st_witnesses st) (st_evidence_refs st) state))) is)
    (collect_fired clock state rules st is b)"
  using assms
proof (induction "is" arbitrary: b)
  case (Cons i "is")
  then obtain d u where
    "premises_satisfied (rules ! i) (st_witnesses st) (st_evidence_refs st) state = Some (d, u)"
    by fastforce
  moreover have IH: "ensures (\<lambda>(fired, b'). fired = map (\<lambda>i. (rules ! i,
      the (premises_satisfied (rules ! i) (st_witnesses st) (st_evidence_refs st) state))) is)
    (collect_fired clock state rules st is b1)" for b1
    using Cons by simp
  ultimately show ?case
    by (auto simp: Let_def split: option.splits intro!: ensures_weaken[OF IH])
qed simp

lemma added_step:
  assumes "A' \<union> insert j X = B \<union> (insert j X \<union> Y)" and "B = (if j \<notin> X then insert j A else A)" and "B \<subseteq> A'"
  shows "A' \<union> X = A \<union> (insert j X \<union> Y)"
  using assms by (cases "j \<in> X") auto

lemma bounded_fire_result:
  assumes "run_of H S F st" and "\<forall>(j, d, u)\<in>set fired. u = map cond_name (js_conditions j)"
  shows "ensures (\<lambda>(st', added', b'). fire_all H nb fired st = (st', False) \<and>
      run_of H S (F @ map fst fired) st' \<and> set added \<subseteq> set added' \<and>
      set added' \<union> atoms_of S F = set added \<union> atoms_of S (F @ map fst fired))
    (bounded_fire H clock nb fired st added b)"
  using assms
proof (induction fired arbitrary: st F added b)
  case (Cons x fired)
  obtain j d u where x: "x = (j, d, u)" by (cases x)
  let ?st = "admit_rule H j d u st"
  let ?added = "if js_atom j \<notin> set (dict_keys (st_witnesses st)) then List.insert (js_atom j) added else added"
  have run: "run_of H S (F @ [j]) ?st" using Cons.prems(1,2) x by (intro run_of_admit_rule) auto
  have keys: "js_atom j \<in> set (dict_keys (st_witnesses st)) \<longleftrightarrow> js_atom j \<in> atoms_of S F"
    using run_of_keys[OF Cons.prems(1)] run_of_reached[OF Cons.prems(1)] by simp
  have IH: "ensures (\<lambda>(st', added', b'). fire_all H nb fired ?st = (st', False) \<and>
      run_of H S ((F @ [j]) @ map fst fired) st' \<and> set ?added \<subseteq> set added' \<and>
      set added' \<union> atoms_of S (F @ [j]) = set ?added \<union> atoms_of S ((F @ [j]) @ map fst fired))
    (bounded_fire H clock nb fired ?st ?added b1)" for b1
    by (rule Cons.IH[OF run]) (use Cons.prems(2) x in auto)
  have "ensures (\<lambda>(st', added', b'). fire_all H nb fired ?st = (st', False) \<and>
      run_of H S (F @ map fst (x # fired)) st' \<and> set added \<subseteq> set added' \<and>
      set added' \<union> atoms_of S F = set added \<union> atoms_of S (F @ map fst (x # fired)))
    (bounded_fire H clock nb fired ?st ?added b1)" for b1
  proof (rule ensures_weaken[OF IH])
    fix r :: "closure_state \<times> Atom list \<times> ClosureBudget"
    obtain st' added' b' where r: "r = (st', added', b')" by (cases r)
    assume "case r of (st', added', b') \<Rightarrow> fire_all H nb fired ?st = (st', False) \<and>
      run_of H S ((F @ [j]) @ map fst fired) st' \<and> set ?added \<subseteq> set added' \<and>
      set added' \<union> atoms_of S (F @ [j]) = set ?added \<union> atoms_of S ((F @ [j]) @ map fst fired)"
    then have a: "fire_all H nb fired ?st = (st', False)" "run_of H S ((F @ [j]) @ map fst fired) st'"
      "set ?added \<subseteq> set added'"
      "set added' \<union> atoms_of S (F @ [j]) = set ?added \<union> atoms_of S ((F @ [j]) @ map fst fired)"
      unfolding r by auto
    have sub: "set added \<subseteq> set added'" using a(3) by (auto split: if_splits)
    have split: "atoms_of S (F @ [j]) = insert (js_atom j) (atoms_of S F)"
      "atoms_of S ((F @ [j]) @ map fst fired) =
         insert (js_atom j) (atoms_of S F) \<union> js_atom ` fst ` set fired"
      "atoms_of S (F @ map fst (x # fired)) =
         insert (js_atom j) (atoms_of S F) \<union> js_atom ` fst ` set fired"
      using x by auto
    have "set ?added = (if js_atom j \<notin> atoms_of S F then insert (js_atom j) (set added) else set added)"
      unfolding keys[symmetric] by simp
    from added_step[OF a(4)[unfolded split(1,2)] this a(3)]
    have "set added' \<union> atoms_of S F = set added \<union> atoms_of S (F @ map fst (x # fired))"
      unfolding split(3) .
    with a sub show "case r of (st', added', b') \<Rightarrow> fire_all H nb fired ?st = (st', False) \<and>
      run_of H S (F @ map fst (x # fired)) st' \<and> set added \<subseteq> set added' \<and>
      set added' \<union> atoms_of S F = set added \<union> atoms_of S (F @ map fst (x # fired))"
      unfolding r using x by simp
  qed
  with x show ?case by (cases "budget_check clock 0 b") simp_all
qed auto

section \<open>All rounds\<close>

lemma enabled_usable:
  "enabled X S state (rules ! i) \<longleftrightarrow>
     evidence_ok S (rules ! i) \<and> conditions_ok state (rules ! i) \<and> need rules X i = {}"
  by (auto simp: enabled_def need_def)

lemma split_pending_positions:
  assumes "\<And>i. i \<in> set P \<Longrightarrow>
    premises_satisfied (rules ! i) (st_witnesses st) (st_evidence_refs st) state \<noteq> None \<longleftrightarrow> i \<in> R"
  shows "split_pending st state (map ((!) rules) P) =
    (map (\<lambda>i. (rules ! i, the (premises_satisfied (rules ! i) (st_witnesses st) (st_evidence_refs st) state)))
       (filter (\<lambda>i. i \<in> R) P), map ((!) rules) (filter (\<lambda>i. i \<notin> R) P))"
  using assms by (induction P) (fastforce split: option.splits)+

lemma bounded_rounds_result:
  assumes "run_of H S F st" and "wl_inv rules Q (atoms_of S F) wl" and "sorted P" and "distinct P"
    and "Q = {i \<in> set P. evidence_ok S (rules ! i) \<and> conditions_ok state (rules ! i)}"
  shows "ensures (\<lambda>(st', b'). rounds H nb state (map ((!) rules) P) st = (st', False))
    (bounded_rounds H clock nb state rules st wl b)"
  using assms
proof (induction H clock nb state rules st wl b arbitrary: F Q P rule: bounded_rounds.induct)
  case (1 H clock nb state rules st wl b)
  let ?X = "atoms_of S F" and ?R = "set (wl_ready wl)"
  let ?sat = "\<lambda>i. premises_satisfied (rules ! i) (st_witnesses st) (st_evidence_refs st) state"
  have ready: "distinct (wl_ready wl)" "?R = {i \<in> Q. need rules ?X i = {}}"
    using "1.prems"(2) by (simp_all add: wl_inv_def)
  have sat: "?sat i \<noteq> None \<longleftrightarrow> i \<in> ?R" if "i \<in> set P" for i
    using that satisfied_None[OF "1.prems"(1), of "rules ! i" state] "1.prems"(5)
    by (auto simp: ready(2) enabled_usable)
  have sp: "split_pending st state (map ((!) rules) P) =
      (map (\<lambda>i. (rules ! i, the (?sat i))) (filter (\<lambda>i. i \<in> ?R) P),
       map ((!) rules) (filter (\<lambda>i. i \<notin> ?R) P))"
    by (rule split_pending_positions) (rule sat)
  have RP: "?R \<subseteq> set P" using ready(2) "1.prems"(5) by auto
  have srt: "sort (wl_ready wl) = filter (\<lambda>i. i \<in> ?R) P"
    by (rule sorted_distinct_set_unique) (use ready(1) "1.prems"(3,4) RP in \<open>auto intro: sorted_wrt_filter\<close>)
  let ?fired = "map (\<lambda>i. (rules ! i, the (?sat i))) (filter (\<lambda>i. i \<in> ?R) P)"
  have uses: "\<forall>(j, d, u)\<in>set ?fired. u = map cond_name (js_conditions j)"
    using split_pending_filter(3)[OF "1.prems"(1) sp] .
  show ?case
  proof (cases "wl_ready wl = []")
    case True
    then have "?fired = []" by (simp add: filter_empty_conv)
    with True sp show ?thesis by simp
  next
    case False
    then have ne: "P \<noteq> []" and fne: "?fired \<noteq> []"
      using RP by (cases "wl_ready wl"; auto simp: filter_empty_conv)+
    have cf: "ensures (\<lambda>(fired, b'). fired = ?fired)
        (collect_fired clock state rules st (sort (wl_ready wl)) b)"
      unfolding srt by (rule collect_fired_result) (use sat in auto)
    have step: "ensures (\<lambda>(st', b'). rounds H nb state (map ((!) rules) P) st = (st', False))
      (case bounded_fire H clock nb fired st [] b1 of Inl s \<Rightarrow> Inl s
       | Inr (st1, added, b2) \<Rightarrow>
          (case wake_atoms clock (st_nodes st1) added (wl\<lparr>wl_ready := []\<rparr>) b2 of Inl s \<Rightarrow> Inl s
           | Inr (wl1, b3) \<Rightarrow> bounded_rounds H clock nb state rules st1 wl1 b3))"
      if c: "collect_fired clock state rules st (sort (wl_ready wl)) b = Inr (fired, b1)" for fired b1
    proof -
      have fired: "fired = ?fired" using cf c by simp
      have bf: "ensures (\<lambda>(st', added', b'). fire_all H nb fired st = (st', False) \<and>
          run_of H S (F @ map fst fired) st' \<and> set [] \<subseteq> set added' \<and>
          set added' \<union> ?X = set [] \<union> atoms_of S (F @ map fst fired))
        (bounded_fire H clock nb fired st [] b1)"
        by (rule bounded_fire_result[OF "1.prems"(1)]) (use uses fired in simp)
      show ?thesis
      proof (cases "bounded_fire H clock nb fired st [] b1")
        case (Inl s)
        with bf show ?thesis by (cases s) auto
      next
        case (Inr v)
        then obtain st1 added b2 where v: "bounded_fire H clock nb fired st [] b1 = Inr (st1, added, b2)"
          by (cases v) auto
        with bf have fa: "fire_all H nb fired st = (st1, False)" "run_of H S (F @ map fst fired) st1"
          and X1: "set added \<union> ?X = atoms_of S (F @ map fst fired)" by auto
        let ?Q = "Q - ?R" and ?P = "filter (\<lambda>i. i \<notin> ?R) P"
        have "wl_inv rules ?Q ?X (wl\<lparr>wl_ready := []\<rparr>)"
          using "1.prems"(2) ready(2) unfolding wl_inv_def by auto
        from wake_atoms_result[OF this, of added clock "st_nodes st1" b2]
        have wa: "ensures (\<lambda>(wl', b'). wl_inv rules ?Q (atoms_of S (F @ map fst fired)) wl')
          (wake_atoms clock (st_nodes st1) added (wl\<lparr>wl_ready := []\<rparr>) b2)" unfolding X1 .
        show ?thesis
        proof (cases "wake_atoms clock (st_nodes st1) added (wl\<lparr>wl_ready := []\<rparr>) b2")
          case (Inl s)
          with wa v show ?thesis by (cases s) auto
        next
          case (Inr w)
          then obtain wl1 b3 where w: "wake_atoms clock (st_nodes st1) added (wl\<lparr>wl_ready := []\<rparr>) b2 = Inr (wl1, b3)"
            by (cases w) auto
          have "ensures (\<lambda>(st', b'). rounds H nb state (map ((!) rules) ?P) st1 = (st', False))
            (bounded_rounds H clock nb state rules st1 wl1 b3)"
          proof (rule "1.IH"[OF False c refl v refl refl w refl])
            show "run_of H S (F @ map fst fired) st1" by (rule fa(2))
            show "wl_inv rules ?Q (atoms_of S (F @ map fst fired)) wl1" using wa w by simp
            show "?Q = {i \<in> set ?P. evidence_ok S (rules ! i) \<and> conditions_ok state (rules ! i)}"
              using "1.prems"(5) by auto
          qed (use "1.prems"(3,4) in \<open>auto intro: sorted_wrt_filter\<close>)
          moreover have "rounds H nb state (map ((!) rules) P) st = rounds H nb state (map ((!) rules) ?P) st1"
            using sp fa(1) fired fne ne by simp
          ultimately show ?thesis using v w by simp
        qed
      qed
    qed
    show ?thesis
    proof (cases "collect_fired clock state rules st (sort (wl_ready wl)) b")
      case (Inl s)
      with cf obtain n where "s = Exhausted n" by (cases s) auto
      with Inl False show ?thesis by simp
    next
      case (Inr v)
      obtain fired b1 where v: "v = (fired, b1)" by (cases v)
      from step[OF Inr[unfolded v]] show ?thesis
        unfolding bounded_rounds.simps[of H clock nb state rules st wl b] Inr v
        using False by (simp del: bounded_rounds.simps rounds.simps)
    qed
  qed
qed

section \<open>The whole evaluation\<close>

abbreviation keep_anchors :: "string list \<Rightarrow> Anchor list \<Rightarrow> Anchor list" where
  "keep_anchors excluded as \<equiv> filter (\<lambda>x. key_ok excluded (an_atom x)) as"

abbreviation keep_rules :: "string list \<Rightarrow> JustificationSet list \<Rightarrow> JustificationSet list" where
  "keep_rules excluded js \<equiv> filter (\<lambda>j. key_ok excluded (js_atom j)) js"

lemma filter_positions: "filter Q xs = map ((!) xs) (filter (\<lambda>i. Q (xs ! i)) [0..<length xs])"
proof -
  have "filter Q xs = filter Q (map ((!) xs) [0..<length xs])" by (simp add: map_nth)
  then show ?thesis by (simp add: filter_map comp_def)
qed

lemma bounded_work:
  assumes "assumption_state assumptions = Inr state" and "1 \<le> nb"
  shows "ensures (\<lambda>(r, b'). \<exists>st. r = closure_result CS_COMPLETE st nb \<and>
      run_closure H (keep_rules excluded (justifications H g)) (keep_anchors excluded anchors) nb state = (st, False))
    (bounded_body H clock L g anchors nb assumptions excluded b)"
proof -
  let ?as = "keep_anchors excluded anchors" and ?rules = "justifications H g"
  have after_seed: "ensures (\<lambda>(r, b'). \<exists>st. r = closure_result CS_COMPLETE st nb \<and>
      run_closure H (keep_rules excluded ?rules) ?as nb state = (st, False))
    (rbind (index_rules clock L excluded state st 0 ?rules
        \<lparr>wl_waiting = [], wl_missing = [], wl_ready = []\<rparr> lits b1) (\<lambda>(wl, b).
     rbind (bounded_rounds H clock nb state ?rules st wl b) (\<lambda>(st, b). bounded_analyses clock nb st b)))"
    if sd: "seed_anchors nb ?as empty_closure = (st, False)" for st lits b1
  proof -
    let ?S = "seeds ?as" and ?P = "filter (\<lambda>i. key_ok excluded (js_atom (?rules ! i))) [0..<length ?rules]"
    have run: "run_of H ?S [] st"
      using seed_anchors_result[OF sd run_of_empty[of H]] assms(2)
      by (auto simp: Let_def empty_closure_def not_less)
    have idx: "ensures (\<lambda>(wl', b'). wl_inv ?rules {k. k < length ?rules \<and> usable_at ?S state excluded (?rules ! k)}
        (an_atom ` set ?S) wl') (index_rules clock L excluded state st 0 ?rules
        \<lparr>wl_waiting = [], wl_missing = [], wl_ready = []\<rparr> lits b1)"
      by (rule index_rules_result[OF run, of _ "[]"]) (simp_all add: wl_inv_empty)
    have rest: "ensures (\<lambda>(r, b'). \<exists>st. r = closure_result CS_COMPLETE st nb \<and>
        run_closure H (keep_rules excluded ?rules) ?as nb state = (st, False))
      (rbind (bounded_rounds H clock nb state ?rules st wl b2) (\<lambda>(st, b). bounded_analyses clock nb st b))"
      if inv: "wl_inv ?rules {k. k < length ?rules \<and> usable_at ?S state excluded (?rules ! k)}
        (an_atom ` set ?S) wl" for wl b2
    proof -
      have "ensures (\<lambda>(st', b'). rounds H nb state (map ((!) ?rules) ?P) st = (st', False))
        (bounded_rounds H clock nb state ?rules st wl b2)"
      proof (rule bounded_rounds_result[OF run])
        show "wl_inv ?rules {k. k < length ?rules \<and> usable_at ?S state excluded (?rules ! k)} (atoms_of ?S []) wl"
          using inv by simp
      qed (auto simp: usable_at_def intro: sorted_wrt_filter)
      then show ?thesis
        unfolding ensures_simps
      proof (rule ensures_weaken, safe)
        fix st' and b' :: ClosureBudget
        assume "rounds H nb state (map ((!) ?rules) ?P) st = (st', False)"
        then have "run_closure H (keep_rules excluded ?rules) ?as nb state = (st', False)"
          unfolding filter_positions[of _ ?rules] by (simp add: run_closure_def sd)
        then show "ensures (\<lambda>(r, b'). \<exists>st. r = closure_result CS_COMPLETE st nb \<and>
            run_closure H (keep_rules excluded ?rules) ?as nb state = (st, False)) (bounded_analyses clock nb st' b')"
          by (intro ensures_weaken[OF bounded_analyses_result]) auto
      qed
    qed
    show ?thesis
      unfolding ensures_simps(4)[of _ "index_rules _ _ _ _ _ _ _ _ _ _"]
      by (rule ensures_weaken[OF idx]) (use rest in auto)
  qed
  have seeded: "ensures (\<lambda>(st', lits', b'). seed_anchors nb ?as empty_closure = (st', False))
     (bounded_seed clock L excluded nb anchors empty_closure [] b1)" for b1
    by (rule bounded_seed_result)
  have "ensures (\<lambda>(r, b'). \<exists>st. r = closure_result CS_COMPLETE st nb \<and>
      run_closure H (keep_rules excluded ?rules) ?as nb state = (st, False))
    (rbind (bounded_seed clock L excluded nb anchors empty_closure [] b1) (\<lambda>(st, lits, b).
       rbind (or_stop (st_nodes st) (budget_check clock 0 b)) (\<lambda>b.
       rbind (index_rules clock L excluded state st 0 ?rules
                \<lparr>wl_waiting = [], wl_missing = [], wl_ready = []\<rparr> lits b) (\<lambda>(wl, b).
       rbind (bounded_rounds H clock nb state ?rules st wl b) (\<lambda>(st, b). bounded_analyses clock nb st b)))))" for b1
    unfolding ensures_simps(4)[of _ "bounded_seed _ _ _ _ _ _ _ _"]
    by (rule ensures_weaken[OF seeded])
      (use after_seed in \<open>auto simp del: ensures_simps(4) simp: ensures_simps(4)[of _ "or_stop _ _"] split: option.splits\<close>)
  then show ?thesis
    unfolding bounded_body_def Let_def using assms(1)
    by (auto simp del: ensures_simps(4) simp: ensures_simps(4)[of _ "or_stop _ _"] split: option.splits)
qed

lemma bounded_cases:
  assumes "1 \<le> nb" and "nb \<le> MAX_JSON_INT" and "assumption_state assumptions = Inr state"
    and "\<And>b. budget = Some b \<Longrightarrow> cb_limits b = L"
  shows "\<exists>r b'. bounded_grounded_closure H clock g anchors L nb assumptions budget excluded = Inr (r, b') \<and>
    ((\<exists>n. r = incomplete_result n nb) \<or>
     (\<exists>st. r = closure_result CS_COMPLETE st nb \<and>
       run_closure H (keep_rules excluded (justifications H g)) (keep_anchors excluded anchors) nb state = (st, False)))"
proof -
  let ?b = "case budget of Some b \<Rightarrow> b | None \<Rightarrow> new_budget clock L"
  have lim: "cb_limits ?b = L" using assms(4) by (cases budget) (auto simp: new_budget_def)
  have body: "bounded_grounded_closure H clock g anchors L nb assumptions budget excluded =
     (case bounded_body H clock L g anchors nb assumptions excluded ?b of
       Inr (r, b) \<Rightarrow> Inr (r, Some b)
     | Inl (Exhausted nodes) \<Rightarrow> Inr (incomplete_result nodes nb, None)
     | Inl (Raised e) \<Rightarrow> Inl e)"
    using assms(1,2) lim by (simp add: bounded_grounded_closure_def index_min_def Let_def)
  show ?thesis
  proof (cases "bounded_body H clock L g anchors nb assumptions excluded ?b")
    case (Inl s)
    with bounded_work[OF assms(3,1), of H excluded g anchors clock L ?b] obtain n where "s = Exhausted n"
      by (cases s) auto
    with Inl body show ?thesis by auto
  next
    case (Inr x)
    with bounded_work[OF assms(3,1), of H excluded g anchors clock L ?b] body show ?thesis
      by (cases x) auto
  qed
qed

section \<open>Properties\<close>

text \<open>C3. The optimised evaluator computes the reference answer. Whatever the limits, the clock
  and the budget handed in, when the bounded worklist reports COMPLETE its result is, field by
  field, the result of the reference fixpoint: the same witnesses in the same order with the same
  depths, the same source groups, paths and assumption marks.\<close>

theorem bounded_agrees_with_reference:
  assumes "bounded_grounded_closure H clock g anchors L nb asm budget [] = Inr (r, b')" and "is_complete r"
  shows "grounded_closure H g anchors nb asm = Inr r"
proof -
  let ?b = "case budget of Some b \<Rightarrow> b | None \<Rightarrow> new_budget clock L"
  have nb: "1 \<le> nb" "nb \<le> MAX_JSON_INT" using assms(1)
    by (auto simp: bounded_grounded_closure_def rbind_Inr_iff index_min_ok)
  have lim: "cb_limits ?b = L"
    using assms(1) by (auto simp: bounded_grounded_closure_def rbind_Inr_iff Let_def split: if_splits)
  from assms(1) nb lim obtain b1 where body: "bounded_body H clock L g anchors nb asm [] ?b = Inr (r, b1)"
    using assms(2)
    by (auto simp: bounded_grounded_closure_def index_min_def Let_def is_complete_def incomplete_result_def
        split: sum.splits stop.splits)
  then obtain state where st: "assumption_state asm = Inr state"
    by (cases "assumption_state asm") (auto simp: bounded_body_def rbind_Inr_iff split: if_splits)
  from bounded_work[OF st nb(1), of H "[]" g anchors clock L ?b] body st nb show ?thesis
    by (auto simp: grounded_closure_def index_min_def key_ok_def)
qed

definition still_clock :: "nat \<Rightarrow> int" where
  "still_clock k = 0"

lemma sample_bounded_run:
  "case rbind (support_graph sample_hash sample_rules) (\<lambda>g.
       bounded_grounded_closure sample_hash still_clock g sample_anchors default_limits 3 None None []) of
     Inl _ \<Rightarrow> False | Inr (r, _) \<Rightarrow> is_complete r"
  by code_simp

theorem bounded_agrees_with_reference_witness:
  "\<exists>g r b. support_graph sample_hash sample_rules = Inr g \<and>
     bounded_grounded_closure sample_hash still_clock g sample_anchors default_limits 3 None None [] = Inr (r, b) \<and>
     is_complete r \<and> grounded_closure sample_hash g sample_anchors 3 None = Inr r"
proof -
  obtain g r b where g: "support_graph sample_hash sample_rules = Inr g"
    and r: "bounded_grounded_closure sample_hash still_clock g sample_anchors default_limits 3 None None [] = Inr (r, b)"
      "is_complete r"
    using sample_bounded_run by (auto simp: rbind_Inr_iff split: sum.splits)
  from bounded_agrees_with_reference[OF r] g r show ?thesis by blast
qed

text \<open>C36. Exhaustion is silent about the world and nothing else can go wrong. With a valid node
  budget, valid assertions and a budget made for the limits, the bounded evaluator always returns
  (its own bookkeeping check never fails, for any clock); and an incomplete result reaches no atom
  and releases nothing, so no partial TRUE escapes.\<close>

theorem bounded_exhaustion_blocks:
  assumes "1 \<le> nb" and "nb \<le> MAX_JSON_INT" and "assumption_state asm = Inr state"
    and "\<forall>b. budget = Some b \<longrightarrow> cb_limits b = L"
  shows "\<exists>r b'. bounded_grounded_closure H clock g anchors L nb asm budget excluded = Inr (r, b') \<and>
    (is_complete r \<or> (\<forall>a key hr p. \<not> reached r a \<and> may_release r key hr p = Inr False))"
proof -
  obtain r b' where r: "bounded_grounded_closure H clock g anchors L nb asm budget excluded = Inr (r, b')"
    and c: "(\<exists>n. r = incomplete_result n nb) \<or> (\<exists>st. r = closure_result CS_COMPLETE st nb)"
    using bounded_cases[OF assms(1-3)] assms(4) by blast
  have "is_complete r \<or> (\<forall>a key hr p. \<not> reached r a \<and> may_release r key hr p = Inr False)"
    using c by (auto simp: is_complete_def incomplete_result_def reached_def may_release_def
        release_block_reason_def)
  with r show ?thesis by blast
qed

theorem bounded_exhaustion_blocks_witness:
  "\<exists>r b. bounded_grounded_closure sample_hash (\<lambda>k. int k * 250000000) \<lparr>sg_by_conclusion = [], sg_by_signature = []\<rparr>
       sample_anchors default_limits 3 None None [] = Inr (r, b) \<and> \<not> is_complete r \<and>
     may_release r ''p'' False POSITIVE = Inr False"
proof -
  let ?g = "\<lparr>sg_by_conclusion = [], sg_by_signature = []\<rparr> :: SupportGraph" and ?c = "\<lambda>k. int k * 250000000"
  have i: "case bounded_grounded_closure sample_hash ?c ?g sample_anchors default_limits 3 None None [] of
      Inl _ \<Rightarrow> False | Inr (r, _) \<Rightarrow> \<not> is_complete r" by code_simp
  have a: "assumption_state None = Inr []" by (simp add: assumption_state_def)
  have n: "(3::int) \<le> MAX_JSON_INT" by (simp add: MAX_JSON_INT_def)
  have "\<exists>r b'. bounded_grounded_closure sample_hash ?c ?g sample_anchors default_limits 3 None None [] = Inr (r, b') \<and>
    (is_complete r \<or> (\<forall>a key hr p. \<not> reached r a \<and> may_release r key hr p = Inr False))"
    by (rule bounded_exhaustion_blocks[OF _ n a]) simp_all
  with i show ?thesis by auto
qed

end
