(* ===== verification/Grounding.thy ===== *)
theory Grounding
  imports Bounded_Correct
begin

text \<open>
  The assurance layer's use of the bounded evaluator (\<open>assurance/grounding.py\<close>): a first pass over
  the selected anchors, then a second pass from scratch that leaves out every proposition the
  first pass found contradicted, under one shared evaluation budget.
\<close>

datatype assurance_error = AE_code string | AE_contract contract_error

record GroundedSupport =
  gs_supported :: ClosureResult
  gs_clean :: ClosureResult

definition usable :: "GroundedSupport \<Rightarrow> string \<Rightarrow> contract_error + bool" where
  "usable gs key =
     rbind (truth_for (gs_supported gs) key) (\<lambda>truth.
     if truth \<noteq> TV_TRUE then Inr False
     else rbind (query_atom key POSITIVE) (\<lambda>a.
       if \<not> reached (gs_clean gs) a then Inr False
       else rbind (rests_on_assumption (gs_clean gs) key POSITIVE) (\<lambda>assumed. Inr (\<not> assumed))))"

fun conflict_keys ::
  "(nat \<Rightarrow> int) \<Rightarrow> ClosureResult \<Rightarrow> Atom list \<Rightarrow> string list \<Rightarrow> ClosureBudget
    \<Rightarrow> (string list \<times> ClosureBudget) option" where
  "conflict_keys clock r [] conflicts b = Some (conflicts, b)"
| "conflict_keys clock r (a # as) conflicts b =
     Option.bind (budget_check clock 1 b) (\<lambda>b.
     conflict_keys clock r as
       (if reached r (negated a) then List.insert (a_key a) conflicts else conflicts) b)"

definition EVIDENCE_EVALUATION_INCOMPLETE :: assurance_error where
  "EVIDENCE_EVALUATION_INCOMPLETE = AE_code ''EVIDENCE_EVALUATION_INCOMPLETE''"

definition closure_pass ::
  "(json \<Rightarrow> string) \<Rightarrow> (nat \<Rightarrow> int) \<Rightarrow> SupportGraph \<Rightarrow> Anchor list \<Rightarrow> ClosureBudget \<Rightarrow> string list
    \<Rightarrow> assurance_error + (ClosureResult \<times> ClosureBudget)" where
  "closure_pass H clock g anchors budget excluded =
     (case bounded_grounded_closure H clock g anchors default_limits 30000 None (Some budget) excluded of
        Inl e \<Rightarrow> Inl (AE_contract e)
      | Inr (r, b) \<Rightarrow>
          (case b of
             None \<Rightarrow> Inl EVIDENCE_EVALUATION_INCOMPLETE
           | Some b' \<Rightarrow> if \<not> is_complete r then Inl EVIDENCE_EVALUATION_INCOMPLETE else Inr (r, b')))"

definition compute_grounded_support ::
  "(json \<Rightarrow> string) \<Rightarrow> (nat \<Rightarrow> int) \<Rightarrow> SupportGraph \<Rightarrow> AnchorSelection \<Rightarrow> assurance_error + GroundedSupport" where
  "compute_grounded_support H clock g selection =
     rbind (closure_pass H clock g (as_anchors selection) (new_budget clock default_limits) []) (\<lambda>(result, b).
     case conflict_keys clock result (dict_keys (cr_witnesses result)) [] b of
       None \<Rightarrow> Inl EVIDENCE_EVALUATION_INCOMPLETE
     | Some (conflicts, b) \<Rightarrow>
         rbind (closure_pass H clock g (as_anchors selection) b conflicts) (\<lambda>(clean, b).
         Inr \<lparr>gs_supported = result, gs_clean = clean\<rparr>))"

section \<open>What the passes compute\<close>

lemma conflict_keys_result:
  "conflict_keys clock r as conflicts b = Some (conflicts', b') \<Longrightarrow>
     set conflicts' = set conflicts \<union> {a_key a | a. a \<in> set as \<and> reached r (negated a)}"
  by (induction "as" arbitrary: conflicts b) (fastforce simp: bind_eq_Some_conv split: if_splits)+

lemma no_assumptions: "assumption_state None = Inr []"
  by (simp add: assumption_state_def)

lemma closure_pass_result:
  assumes "closure_pass H clock g anchors b excluded = Inr (r, b')"
  shows "is_complete r" and "cr_node_budget r = 30000"
    and "\<exists>S F. outcome_of H (keep_rules excluded (justifications H g)) (keep_anchors excluded anchors) [] S F r"
proof -
  from assms obtain b1 where
    r: "bounded_grounded_closure H clock g anchors default_limits 30000 None (Some b) excluded = Inr (r, b1)"
    and c: "is_complete r"
    by (auto simp: closure_pass_def split: sum.splits option.splits if_splits)
  show "is_complete r" by (rule c)
  have lim: "cb_limits b = default_limits"
    using r by (auto simp: bounded_grounded_closure_def rbind_Inr_iff Let_def split: if_splits)
  have n: "(30000::int) \<le> MAX_JSON_INT" by (simp add: MAX_JSON_INT_def)
  have "\<exists>r b'. bounded_grounded_closure H clock g anchors default_limits 30000 None (Some b) excluded = Inr (r, b') \<and>
    ((\<exists>n. r = incomplete_result n 30000) \<or>
     (\<exists>st. r = closure_result CS_COMPLETE st 30000 \<and>
       run_closure H (keep_rules excluded (justifications H g)) (keep_anchors excluded anchors) 30000 [] = (st, False)))"
    by (rule bounded_cases[OF _ n no_assumptions]) (use lim in simp_all)
  with r c obtain st where st: "r = closure_result CS_COMPLETE st 30000"
    "run_closure H (keep_rules excluded (justifications H g)) (keep_anchors excluded anchors) 30000 [] = (st, False)"
    by (auto simp: incomplete_result_def is_complete_def)
  from st(1) show "cr_node_budget r = 30000" by simp
  show "\<exists>S F. outcome_of H (keep_rules excluded (justifications H g)) (keep_anchors excluded anchors) [] S F r"
    by (rule run_closure_outcome[OF st(2)]) (use st(1) in simp_all)
qed

definition contradicted :: "Anchor list \<Rightarrow> JustificationSet list \<Rightarrow> string set" where
  "contradicted anchors js =
     {k. derivable (seeds anchors) js [] \<lparr>a_key = k, a_polarity = POSITIVE\<rparr> \<and>
         derivable (seeds anchors) js [] \<lparr>a_key = k, a_polarity = NEGATIVE\<rparr>}"

lemma conflicts_contradicted:
  assumes o: "outcome_of H js anchors [] S F r" and c: "is_complete r"
    and k: "conflict_keys clock r (dict_keys (cr_witnesses r)) [] b = Some (conflicts, b')"
  shows "set conflicts = contradicted anchors js"
proof -
  obtain st where r: "r = closure_result (cr_status r) st (cr_node_budget r)" and run: "run_of H S F st"
    using o by (rule outcome_run)
  have "cr_witnesses r = st_witnesses st" by (subst r) simp
  then have keys: "a \<in> set (dict_keys (cr_witnesses r)) \<longleftrightarrow> reached r a" for a
    using run_of_keys[OF run] by (simp add: reached_def)
  have "set conflicts = {a_key a | a. reached r a \<and> reached r (negated a)}"
    using conflict_keys_result[OF k] keys by auto
  also have "\<dots> = contradicted anchors js"
    unfolding contradicted_def outcome_derivable[OF o c]
  proof (intro set_eqI iffI)
    fix k assume "k \<in> {a_key a | a. reached r a \<and> reached r (negated a)}"
    then obtain a where "k = a_key a" "reached r a" "reached r (negated a)" by auto
    then show "k \<in> {k. reached r \<lparr>a_key = k, a_polarity = POSITIVE\<rparr> \<and> reached r \<lparr>a_key = k, a_polarity = NEGATIVE\<rparr>}"
      by (cases a; cases "a_polarity a") (auto simp: negated_def)
  next
    fix k assume k: "k \<in> {k. reached r \<lparr>a_key = k, a_polarity = POSITIVE\<rparr> \<and> reached r \<lparr>a_key = k, a_polarity = NEGATIVE\<rparr>}"
    then show "k \<in> {a_key a | a. reached r a \<and> reached r (negated a)}"
      by (intro CollectI exI[of _ "\<lparr>a_key = k, a_polarity = POSITIVE\<rparr>"]) (auto simp: negated_def)
  qed
  finally show ?thesis .
qed

lemma no_assertion_unconditional: "conditions_ok [] j \<longleftrightarrow> js_conditions j = []"
  by (auto simp: conditions_ok_def)

lemma derivable_without_assertions: "derivable S js [] a \<longleftrightarrow> derivable S (unconditional js) [] a"
proof
  assume "derivable S js [] a"
  then show "derivable S (unconditional js) [] a"
  proof (induction rule: derivable.induct)
    case (rule j)
    then show ?case by (intro derivable.rule) (auto simp: no_assertion_unconditional)
  qed (rule derivable.seed)
next
  assume "derivable S (unconditional js) [] a"
  then show "derivable S js [] a" by (rule derivable_mono) auto
qed

text \<open>C31. What assurance may use. When the two passes finish, a proposition is usable exactly
  when, from the selected anchors and without any assumption, it is derivable and its denial is
  not, and it is still derivable after every contradicted proposition, in both polarities, is
  struck from the anchors and from the conclusions of the groups; so no usable conclusion rests on
  a contested premise.\<close>

theorem usable_is_conflict_free:
  assumes "compute_grounded_support H clock g selection = Inr gs" and "valid_key key"
    and "as = as_anchors selection" and "js = justifications H g"
  shows "usable gs key = Inr (
    derivable (seeds as) js [] \<lparr>a_key = key, a_polarity = POSITIVE\<rparr> \<and>
    \<not> derivable (seeds as) js [] \<lparr>a_key = key, a_polarity = NEGATIVE\<rparr> \<and>
    derivable (seeds (filter (\<lambda>x. a_key (an_atom x) \<notin> contradicted as js) as))
      (filter (\<lambda>j. a_key (js_atom j) \<notin> contradicted as js) js) []
      \<lparr>a_key = key, a_polarity = POSITIVE\<rparr>)"
proof -
  from assms(1,3) obtain r b conflicts b1 clean b2 where
    p1: "closure_pass H clock g as (new_budget clock default_limits) [] = Inr (r, b)"
    and k: "conflict_keys clock r (dict_keys (cr_witnesses r)) [] b = Some (conflicts, b1)"
    and p2: "closure_pass H clock g as b1 conflicts = Inr (clean, b2)"
    and gs: "gs = \<lparr>gs_supported = r, gs_clean = clean\<rparr>"
    by (auto simp: compute_grounded_support_def rbind_Inr_iff split: option.splits)
  obtain S F where o1: "outcome_of H js as [] S F r"
    using closure_pass_result(3)[OF p1] assms(4) by (auto simp: key_ok_def)
  note c1 = closure_pass_result(1)[OF p1] and c2 = closure_pass_result(1)[OF p2]
  have conf: "set conflicts = contradicted as js" by (rule conflicts_contradicted[OF o1 c1 k])
  obtain S' F' where o2: "outcome_of H (filter (\<lambda>j. a_key (js_atom j) \<notin> contradicted as js) js)
      (filter (\<lambda>x. a_key (an_atom x) \<notin> contradicted as js) as) [] S' F' clean"
    using closure_pass_result(3)[OF p2] assms(4) by (auto simp: key_ok_def conf)
  have "cr_node_budget r \<le> MAX_JSON_INT"
    using closure_pass_result(2)[OF p1] by (simp add: MAX_JSON_INT_def)
  note t = outcome_truth[OF o1 c1 this assms(2)]
  have "cr_assumption_backed clean = []"
    using outcome_assumption[OF o2 c2] derivable_without_assertions
    by (metis list.set_intros(1) neq_Nil_conv)
  then show ?thesis
    using assms(2)
    by (auto simp: usable_def truth_for_def t gs sc_truth_def witnesses_reached rests_on_assumption_def
        outcome_derivable[OF o1 c1] outcome_derivable[OF o2 c2])
qed

definition sample_selection_result :: AnchorSelection where
  "sample_selection_result = \<lparr>as_anchors = sample_anchors, as_rejected = []\<rparr>"

lemma sample_grounding:
  "case rbind (support_graph sample_hash sample_rules) (\<lambda>g. Inr (g,
       compute_grounded_support sample_hash still_clock g sample_selection_result)) of
     Inl _ \<Rightarrow> False
   | Inr (g, x) \<Rightarrow> (case x of Inl _ \<Rightarrow> False | Inr gs \<Rightarrow> usable gs ''d'' = Inr True)"
  by code_simp

theorem usable_is_conflict_free_witness:
  "\<exists>g gs. support_graph sample_hash sample_rules = Inr g \<and>
     compute_grounded_support sample_hash still_clock g sample_selection_result = Inr gs \<and>
     usable gs ''d'' = Inr True \<and>
     \<not> derivable (seeds sample_anchors) (justifications sample_hash g) [] \<lparr>a_key = ''d'', a_polarity = NEGATIVE\<rparr>"
proof -
  obtain g where g: "support_graph sample_hash sample_rules = Inr g"
    using sample_grounding by (cases "support_graph sample_hash sample_rules") simp_all
  then obtain gs where gs: "compute_grounded_support sample_hash still_clock g sample_selection_result = Inr gs"
      "usable gs ''d'' = Inr True"
    using sample_grounding
    by (cases "compute_grounded_support sample_hash still_clock g sample_selection_result") simp_all
  have "valid_key ''d''" by code_simp
  from usable_is_conflict_free[OF gs(1) this refl refl] gs g show ?thesis
    by (auto simp: sample_selection_result_def)
qed

end
