(* ===== verification/Consumers.thy ===== *)
theory Consumers
  imports Support_Graph "HOL-Library.Sublist"
begin

text \<open>
  Consumers of a conclusion and the lineage of an artifact (the last part of
  \<open>knowledge/justifications.py\<close>): \<open>reevaluate_consumer\<close> classifies a re-evaluation, and a
  \<open>LineageRecord\<close> keeps what an artifact read apart from the current reasons for using it.
  The operations that would cross the two compartments only raise; here they are the two
  constructors of \<open>lineage_op\<close> that have no successor.
\<close>

record ConsumerUse =
  us_consumer_ref :: TypedRef
  us_purpose :: WitnessPurpose
  us_conclusion :: string
  us_polarity :: Polarity
  us_truth :: TruthValue
  us_validity :: Validity
  us_availability :: Availability
  us_support_signatures :: "string list"
  us_literal_citations :: "EvidenceRef list"
  us_withdrawn_citations :: "EvidenceRef list"
  us_citation_binding_required :: bool
  us_rebinding_allowed :: bool
  us_requirements_digest :: "string option"
  us_inputs_digest :: "string option"

definition check_ConsumerUse :: "ConsumerUse \<Rightarrow> contract_error + ConsumerUse" where
  "check_ConsumerUse u =
     rbind (identifier_of (JStr (us_conclusion u)) ''use.conclusion'') (\<lambda>_.
     rbind (bounded_items 0 MAX_LIST ''use.support_signatures''
              (map_result (\<lambda>s. identifier_of (JStr s) ''use.support_signatures[]'') (us_support_signatures u))) (\<lambda>_.
     rbind (opt_id (us_requirements_digest u) ''use.requirements_digest'') (\<lambda>_.
     rbind (opt_id (us_inputs_digest u) ''use.inputs_digest'') (\<lambda>_. Inr u))))"

definition effective_truth :: "ConsumerUse \<Rightarrow> TruthValue" where
  "effective_truth u = (if us_validity u \<noteq> VA_CURRENT then TV_UNKNOWN else us_truth u)"

definition reevaluate_consumer :: "ConsumerUse \<Rightarrow> ConsumerUse \<Rightarrow> contract_error + RecheckOutcome" where
  "reevaluate_consumer before after =
     (if us_conclusion before \<noteq> us_conclusion after \<or> us_polarity before \<noteq> us_polarity after
      then Inl (CE_rule ''reevaluate_consumer compares one conclusion with itself'')
      else if r_id (us_consumer_ref before) \<noteq> r_id (us_consumer_ref after) \<or> us_purpose before \<noteq> us_purpose after
      then Inl (CE_rule ''reevaluate_consumer compares one consumer and purpose with itself'')
      else if us_availability after \<noteq> AV_READABLE then Inr RC_UNAVAILABLE
      else if us_requirements_digest before \<noteq> us_requirements_digest after then Inr RC_INVALID
      else
        let truth = effective_truth after in
        if truth = TV_FALSE \<or> truth = TV_CONFLICT then Inr RC_INVALID
        else if truth \<noteq> TV_TRUE then Inr RC_NEEDS_REVIEW
        else if us_inputs_digest before \<noteq> us_inputs_digest after then Inr RC_NEEDS_REVIEW
        else if us_withdrawn_citations after \<noteq> [] \<and> us_citation_binding_required after
        then Inr RC_NEEDS_REVIEW
        else if set (us_support_signatures before) = set (us_support_signatures after) then Inr RC_UNCHANGED
        else if \<not> us_rebinding_allowed after then Inr RC_NEEDS_REVIEW
        else Inr RC_REBOUND_SUPPORT)"

record LineageRecord =
  li_artifact_ref :: TypedRef
  li_was_used :: "EvidenceRef list"
  li_supports_for_use :: "string list"

definition make_LineageRecord ::
  "TypedRef \<Rightarrow> EvidenceRef list \<Rightarrow> string list \<Rightarrow> contract_error + LineageRecord" where
  "make_LineageRecord artifact used supports =
     rbind (bounded_items 0 MAX_LIST ''lineage.was_used'' (Inr used)) (\<lambda>history.
     if \<not> distinct history then Inl (CE_duplicate ''lineage.was_used'')
     else rbind (bounded_items 0 MAX_LIST ''lineage.supports_for_use''
              (map_result (\<lambda>s. identifier_of (JStr s) ''lineage.supports_for_use[]'') supports)) (\<lambda>sups.
     Inr \<lparr>li_artifact_ref = artifact, li_was_used = history, li_supports_for_use = sups\<rparr>))"

definition with_recorded_use :: "LineageRecord \<Rightarrow> EvidenceRef \<Rightarrow> contract_error + LineageRecord" where
  "with_recorded_use l ref =
     (if ref \<in> set (li_was_used l) then Inr l
      else make_LineageRecord (li_artifact_ref l) (li_was_used l @ [ref]) (li_supports_for_use l))"

definition with_supports :: "LineageRecord \<Rightarrow> string list \<Rightarrow> contract_error + LineageRecord" where
  "with_supports l sigs = make_LineageRecord (li_artifact_ref l) (li_was_used l) sigs"

definition cites :: "LineageRecord \<Rightarrow> EvidenceRef \<Rightarrow> bool" where
  "cites l ref \<longleftrightarrow> ref \<in> set (li_was_used l)"

definition withdrawn_citations :: "LineageRecord \<Rightarrow> EvidenceRef list \<Rightarrow> EvidenceRef list" where
  "withdrawn_citations l admitted = filter (\<lambda>r. r \<notin> set admitted) (li_was_used l)"

definition adopt_history_as_support :: "LineageRecord \<Rightarrow> contract_error + LineageRecord" where
  "adopt_history_as_support l = Inl (CE_rule ''was_used is historical lineage, not a current reason'')"

definition rewrite_history_from_supports :: "LineageRecord \<Rightarrow> contract_error + LineageRecord" where
  "rewrite_history_from_supports l = Inl (CE_rule ''supports_for_use must not rewrite was_used'')"

definition LineageRecord_to_json :: "LineageRecord \<Rightarrow> json" where
  "LineageRecord_to_json l =
     JObj [(''artifact_ref'', TypedRef_to_json (li_artifact_ref l)),
           (''was_used'', JList (map EvidenceRef_to_json (li_was_used l))),
           (''supports_for_use'', JList (map JStr (li_supports_for_use l)))]"

section \<open>Histories\<close>

datatype lineage_op =
  RecordUse EvidenceRef | ChooseSupports "string list" | AdoptHistory | RewriteHistory

fun apply_lineage_op :: "lineage_op \<Rightarrow> LineageRecord \<Rightarrow> contract_error + LineageRecord" where
  "apply_lineage_op (RecordUse r) l = with_recorded_use l r"
| "apply_lineage_op (ChooseSupports s) l = with_supports l s"
| "apply_lineage_op AdoptHistory l = adopt_history_as_support l"
| "apply_lineage_op RewriteHistory l = rewrite_history_from_supports l"

text \<open>An operation that raises leaves the caller with the record it had.\<close>

inductive lineage_step :: "LineageRecord \<Rightarrow> lineage_op \<Rightarrow> LineageRecord \<Rightarrow> bool" where
  succeeds: "apply_lineage_op op l = Inr l' \<Longrightarrow> lineage_step l op l'"
| refused: "apply_lineage_op op l = Inl e \<Longrightarrow> lineage_step l op l"

inductive lineage_run :: "LineageRecord \<Rightarrow> lineage_op list \<Rightarrow> LineageRecord \<Rightarrow> bool" where
  start: "lineage_run l [] l"
| more: "lineage_run l ops l' \<Longrightarrow> lineage_step l' op l'' \<Longrightarrow> lineage_run l (ops @ [op]) l''"

lemma identifiers_unchanged: "map_result (\<lambda>s. identifier_of (JStr s) n) xs = Inr ys \<Longrightarrow> ys = xs"
  by (induction xs arbitrary: ys) (auto simp: rbind_Inr_iff identifier_ok)

lemma make_LineageRecord_ok:
  "make_LineageRecord a used sups = Inr l \<Longrightarrow>
     l = \<lparr>li_artifact_ref = a, li_was_used = used, li_supports_for_use = sups\<rparr> \<and> distinct used"
  by (auto simp: make_LineageRecord_def rbind_Inr_iff bounded_items_ok dest!: identifiers_unchanged
      split: if_splits)

text \<open>Every operation moves at most one compartment.\<close>

lemma lineage_step_effect:
  assumes "lineage_step l op l'"
  shows "l' = l \<or> (\<exists>r. op = RecordUse r \<and> r \<notin> set (li_was_used l) \<and> l' = l\<lparr>li_was_used := li_was_used l @ [r]\<rparr>) \<or>
    (\<exists>s. op = ChooseSupports s \<and> l' = l\<lparr>li_supports_for_use := s\<rparr>)"
  using assms
proof (induction rule: lineage_step.induct)
  case (succeeds op l l')
  then show ?case
    by (cases op) (auto simp: with_recorded_use_def with_supports_def adopt_history_as_support_def
        rewrite_history_from_supports_def dest!: make_LineageRecord_ok split: if_splits)
qed simp

lemma lineage_run_history:
  assumes "lineage_run l ops l'"
  shows "prefix (li_was_used l) (li_was_used l') \<and> li_artifact_ref l' = li_artifact_ref l \<and>
    (distinct (li_was_used l) \<longrightarrow> distinct (li_was_used l')) \<and>
    set (li_was_used l') \<subseteq> set (li_was_used l) \<union> {r. RecordUse r \<in> set ops} \<and>
    (li_supports_for_use l' = li_supports_for_use l \<or> ChooseSupports (li_supports_for_use l') \<in> set ops)"
  using assms
proof (induction rule: lineage_run.induct)
  case (more l ops l' op l'')
  from lineage_step_effect[OF more(2)] more(3) show ?case
    by (elim disjE exE conjE) (auto intro: prefix_order.trans)
qed simp

section \<open>Properties\<close>

text \<open>A re-evaluation keeps a use only when nothing it depends on moved. Comparing one
  consumer's use of one conclusion before and after never raises; the use stays UNCHANGED or has
  its support rebound exactly when the material is readable, requirements and inputs are the same,
  the conclusion is currently TRUE, no withdrawn source is cited where citations bind, and either
  the reasons are the same or rebinding is allowed; it is INVALID exactly when the requirements
  changed or the conclusion is currently denied or contested; and losing permission alone never
  reports the content as wrong.\<close>

theorem reevaluation_outcomes:
  assumes "us_conclusion u = us_conclusion v" and "us_polarity u = us_polarity v"
    and "r_id (us_consumer_ref u) = r_id (us_consumer_ref v)" and "us_purpose u = us_purpose v"
  shows "\<exists>out. reevaluate_consumer u v = Inr out \<and>
    (out = RC_UNAVAILABLE \<longleftrightarrow> us_availability v \<noteq> AV_READABLE) \<and>
    (out = RC_INVALID \<longleftrightarrow> us_availability v = AV_READABLE \<and>
       (us_requirements_digest u \<noteq> us_requirements_digest v \<or>
        (us_validity v = VA_CURRENT \<and> us_truth v \<in> {TV_FALSE, TV_CONFLICT}))) \<and>
    (out \<in> {RC_UNCHANGED, RC_REBOUND_SUPPORT} \<longleftrightarrow>
       us_availability v = AV_READABLE \<and> us_requirements_digest u = us_requirements_digest v \<and>
       us_validity v = VA_CURRENT \<and> us_truth v = TV_TRUE \<and> us_inputs_digest u = us_inputs_digest v \<and>
       (us_citation_binding_required v \<longrightarrow> us_withdrawn_citations v = []) \<and>
       (set (us_support_signatures u) = set (us_support_signatures v) \<or> us_rebinding_allowed v)) \<and>
    (out = RC_UNCHANGED \<longrightarrow> set (us_support_signatures u) = set (us_support_signatures v))"
  using assms by (cases "us_truth v") (auto simp: reevaluate_consumer_def effective_truth_def Let_def)

definition sample_use :: "string list \<Rightarrow> ConsumerUse" where
  "sample_use sigs =
     \<lparr>us_consumer_ref = \<lparr>r_kind = TR_ARTIFACT, r_id = ''report'', r_revision = 1,
        r_content_hash = replicate 64 (CHR ''0''), r_produced_by = None\<rparr>,
      us_purpose = WP_ACCEPT, us_conclusion = ''c'', us_polarity = POSITIVE, us_truth = TV_TRUE,
      us_validity = VA_CURRENT, us_availability = AV_READABLE, us_support_signatures = sigs,
      us_literal_citations = [], us_withdrawn_citations = [], us_citation_binding_required = True,
      us_rebinding_allowed = True, us_requirements_digest = None, us_inputs_digest = None\<rparr>"

theorem reevaluation_outcomes_witness:
  "\<exists>out. reevaluate_consumer (sample_use [''s1'']) (sample_use [''s2'']) = Inr out \<and>
     out \<in> {RC_UNCHANGED, RC_REBOUND_SUPPORT}"
  using reevaluation_outcomes[of "sample_use [''s1'']" "sample_use [''s2'']"]
  by (auto simp: sample_use_def)

text \<open>History is not rewritten and not laundered into reasons. Along any sequence of lineage
  operations, refused ones included, what an artifact was recorded to have read only grows at the
  end and without repetition, it grows only by recorded uses, the artifact stays the same, and the
  current reasons are either the initial ones or ones explicitly chosen.\<close>

theorem lineage_history_append_only:
  assumes "lineage_run l ops l'" and "distinct (li_was_used l)"
  shows "prefix (li_was_used l) (li_was_used l') \<and> distinct (li_was_used l') \<and>
    li_artifact_ref l' = li_artifact_ref l \<and>
    set (li_was_used l') \<subseteq> set (li_was_used l) \<union> {r. RecordUse r \<in> set ops} \<and>
    (li_supports_for_use l' = li_supports_for_use l \<or> ChooseSupports (li_supports_for_use l') \<in> set ops)"
  using lineage_run_history[OF assms(1)] assms(2) by blast

definition sample_lineage :: LineageRecord where
  "sample_lineage = \<lparr>li_artifact_ref = us_consumer_ref (sample_use []), li_was_used = [],
     li_supports_for_use = [''s1'']\<rparr>"

theorem lineage_history_append_only_witness:
  "\<exists>l. lineage_run sample_lineage [RewriteHistory, ChooseSupports [''s2'']] l \<and>
     li_supports_for_use l = [''s2''] \<and> prefix (li_was_used sample_lineage) (li_was_used l)"
proof -
  let ?l = "sample_lineage\<lparr>li_supports_for_use := [''s2'']\<rparr>"
  have "lineage_step sample_lineage RewriteHistory sample_lineage"
    by (rule refused) (simp add: rewrite_history_from_supports_def)
  moreover have "apply_lineage_op (ChooseSupports [''s2'']) sample_lineage = Inr ?l" by code_simp
  then have "lineage_step sample_lineage (ChooseSupports [''s2'']) ?l" by (rule succeeds)
  ultimately have run: "lineage_run sample_lineage ([] @ [RewriteHistory] @ [ChooseSupports [''s2'']]) ?l"
    by (metis append.assoc lineage_run.intros)
  from lineage_history_append_only[OF this] run show ?thesis
    by (intro exI[of _ ?l]) (auto simp: sample_lineage_def)
qed

end
