(* ===== verification/Model_Fields.thy ===== *)
theory Model_Fields
  imports Semantic_Base
begin

text \<open>
  The field validators of \<open>contracts/models.py\<close>, and \<open>validate_json_value\<close> of
  \<open>simple_harness/contracts/json.py\<close>, which \<open>_object\<close> runs over the whole document. They differ from the
  validators of \<open>semantic_base\<close>: text may hold control characters, objects have no depth bound, and an
  enumeration refuses every value that spells no member. A number becomes the rational of the same value;
  an integer too large for a float is the \<open>OverflowError\<close> of \<open>float(v)\<close>.
\<close>

fun json_valid :: "json \<Rightarrow> bool" where
  "json_valid (JFloat x) = (case x of PyFinite _ \<Rightarrow> True | _ \<Rightarrow> False)"
| "json_valid (JList xs) = (\<forall>x\<in>set xs. json_valid x)"
| "json_valid (JObj kvs) = (\<forall>kv\<in>set kvs. json_valid (snd kv))"
| "json_valid _ = True"

definition text_of :: "bool \<Rightarrow> nat \<Rightarrow> json \<Rightarrow> string \<Rightarrow> contract_error + string" where
  "text_of allow_blank limit v name =
     (case v of
        JStr s \<Rightarrow>
          if \<not> allow_blank \<and> strip s = [] then Inl (CE_blank name)
          else if limit < length s then Inl (CE_too_long name)
          else Inr s
      | _ \<Rightarrow> Inl (CE_type name))"

abbreviation text_within :: "nat \<Rightarrow> json \<Rightarrow> string \<Rightarrow> contract_error + string" where
  "text_within \<equiv> text_of False"

definition texts_of :: "json \<Rightarrow> string \<Rightarrow> contract_error + string list" where
  "texts_of v name =
     (case v of
        JList xs \<Rightarrow>
          rbind (map_result (\<lambda>x. text_within MAX_TEXT x (name @ ''[]'')) xs) (\<lambda>items.
          if MAX_LIST < length items then Inl (CE_count name)
          else if \<not> distinct items then Inl (CE_duplicate name)
          else Inr items)
      | _ \<Rightarrow> Inl (CE_type name))"

definition MAX_FLOAT_INT :: int where
  "MAX_FLOAT_INT = 2 ^ 1024 - 2 ^ 970"

definition number_of :: "json \<Rightarrow> string \<Rightarrow> contract_error + rat" where
  "number_of v name =
     (case v of
        JInt n \<Rightarrow> if MAX_FLOAT_INT \<le> \<bar>n\<bar> then Inl (PyValueError ''float'') else Inr (of_int n)
      | JFloat x \<Rightarrow> (case x of PyFinite r \<Rightarrow> Inr r | _ \<Rightarrow> Inl (CE_not_finite name))
      | _ \<Rightarrow> Inl (CE_type name))"

definition object_of :: "json \<Rightarrow> string \<Rightarrow> contract_error + (string \<times> json) list" where
  "object_of v name =
     (case v of
        JObj d \<Rightarrow> if json_valid v then Inr d else Inl (CE_not_finite name)
      | _ \<Rightarrow> Inl (CE_type name))"

definition objects_of :: "json \<Rightarrow> string \<Rightarrow> contract_error + (string \<times> json) list list" where
  "objects_of v name =
     (case v of
        JList xs \<Rightarrow> map_result (\<lambda>x. object_of x (name @ ''[]'')) xs
      | _ \<Rightarrow> Inl (CE_type name))"

definition member_of :: "'a list \<Rightarrow> ('a \<Rightarrow> string) \<Rightarrow> json \<Rightarrow> string \<Rightarrow> contract_error + 'a" where
  "member_of members spell v name =
     (case v of
        JStr s \<Rightarrow> (case enum_of members spell s of None \<Rightarrow> Inl (CE_enum name) | Some x \<Rightarrow> Inr x)
      | _ \<Rightarrow> Inl (CE_enum name))"

definition positive_int :: "int \<Rightarrow> json \<Rightarrow> string \<Rightarrow> contract_error + int" where
  "positive_int minimum v name =
     (case v of JInt n \<Rightarrow> if n < minimum then Inl (CE_minimum name) else Inr n | _ \<Rightarrow> Inl (CE_type name))"

text \<open>\<open>data[k]\<close>.\<close>

definition item_of :: "(string \<times> json) list \<Rightarrow> string \<Rightarrow> contract_error + json" where
  "item_of d k = (case map_of d k of None \<Rightarrow> Inl (PyKeyError k) | Some v \<Rightarrow> Inr v)"

text \<open>\<open>v or default\<close>.\<close>

definition or_default :: "json \<Rightarrow> json \<Rightarrow> json" where
  "or_default v dflt = (if truthy v then v else dflt)"

text \<open>A field that \<open>None\<close> leaves unchecked.\<close>

definition unless_null :: "(json \<Rightarrow> contract_error + 'a) \<Rightarrow> json \<Rightarrow> contract_error + 'a option" where
  "unless_null f v = (if v = JNull then Inr None else rbind (f v) (\<lambda>x. Inr (Some x)))"

definition json_texts :: "string list \<Rightarrow> json" where
  "json_texts xs = JList (map JStr xs)"

definition json_text_opt :: "string option \<Rightarrow> json" where
  "json_text_opt x = (case x of None \<Rightarrow> JNull | Some s \<Rightarrow> JStr s)"

section \<open>Facts\<close>

lemma text_of_ok [result_simps]:
  "text_of b l v name = Inr s \<longleftrightarrow> v = JStr s \<and> (b \<or> strip s \<noteq> []) \<and> length s \<le> l"
  by (auto simp: text_of_def split: json.splits if_splits)

lemma texts_of_ok [result_simps]:
  "texts_of v name = Inr xs \<longleftrightarrow>
     v = json_texts xs \<and> length xs \<le> MAX_LIST \<and> distinct xs \<and> (\<forall>x\<in>set xs. strip x \<noteq> [] \<and> length x \<le> MAX_TEXT)"
proof -
  have "list_all2 (\<lambda>j s. text_within MAX_TEXT j (name @ ''[]'') = Inr s) js xs \<longleftrightarrow>
      js = map JStr xs \<and> (\<forall>x\<in>set xs. strip x \<noteq> [] \<and> length x \<le> MAX_TEXT)" for js
    by (induction js arbitrary: xs) (auto simp: list_all2_Cons1 text_of_ok)
  then show ?thesis
    by (cases v) (auto simp: texts_of_def rbind_Inr_iff map_result_ok guard_Inr_iff json_texts_def)
qed

lemma number_of_again: "number_of v name = Inr r \<Longrightarrow> number_of (JFloat (PyFinite r)) name' = Inr r"
  by (simp add: number_of_def)

lemma object_of_ok [result_simps]: "object_of v name = Inr d \<longleftrightarrow> v = JObj d \<and> json_valid v"
  by (auto simp: object_of_def split: json.splits if_splits)

lemma objects_of_ok [result_simps]:
  "objects_of v name = Inr ds \<longleftrightarrow> v = JList (map JObj ds) \<and> (\<forall>d\<in>set ds. json_valid (JObj d))"
proof -
  have "list_all2 (\<lambda>j d. object_of j (name @ ''[]'') = Inr d) js ds \<longleftrightarrow> js = map JObj ds \<and> (\<forall>d\<in>set ds. json_valid (JObj d))" for js
    by (induction js arbitrary: ds) (auto simp: list_all2_Cons1 object_of_ok simp del: json_valid.simps)
  then show ?thesis by (cases v) (auto simp: objects_of_def map_result_ok simp del: json_valid.simps)
qed

lemma member_of_ok [result_simps]:
  "member_of ms sp v name = Inr x \<longleftrightarrow> (\<exists>s. v = JStr s \<and> enum_of ms sp s = Some x)"
  by (auto simp: member_of_def split: json.splits option.splits)

lemma positive_int_ok [result_simps]: "positive_int m v name = Inr n \<longleftrightarrow> v = JInt n \<and> m \<le> n"
  by (auto simp: positive_int_def split: json.splits if_splits)

lemma item_of_ok [result_simps]: "item_of d k = Inr v \<longleftrightarrow> map_of d k = Some v"
  by (auto simp: item_of_def split: option.splits)

lemma unless_null_ok [result_simps]:
  "unless_null f v = Inr x \<longleftrightarrow> (case x of None \<Rightarrow> v = JNull | Some y \<Rightarrow> v \<noteq> JNull \<and> f v = Inr y)"
  by (auto simp: unless_null_def rbind_Inr_iff split: option.splits)

lemma json_valid_field: "json_valid (JObj d) \<Longrightarrow> map_of d k = Some v \<Longrightarrow> json_valid v"
  by (force dest: map_of_SomeD)

lemma json_valid_get: "json_valid (JObj d) \<Longrightarrow> json_valid x \<Longrightarrow> json_valid (dict_get d k x)"
  by (auto simp: dict_get_def split: option.splits intro: json_valid_field)

lemma json_valid_texts [simp]: "json_valid (json_texts xs)" "json_valid (json_text_opt t)"
  by (auto simp: json_texts_def json_text_opt_def split: option.splits)

end
