(* ===== verification/Budgets.thy ===== *)
theory Budgets
  imports Model_Fields
begin

text \<open>
  The multi-dimensional budget of \<open>contracts/models.py\<close> (\<open>Budget\<close>): six optional non-negative
  limits, the child-fits-parent test and the JSON codec. \<open>None\<close> means not limited at this level.
\<close>

record Budget =
  max_tokens :: "int option"
  max_cost_micros :: "int option"
  max_attempts :: "int option"
  max_runtime_seconds :: "int option"
  max_concurrency :: "int option"
  max_tool_calls :: "int option"

definition no_budget :: Budget where
  "no_budget = \<lparr>max_tokens = None, max_cost_micros = None, max_attempts = None,
     max_runtime_seconds = None, max_concurrency = None, max_tool_calls = None\<rparr>"

definition optional_int :: "json \<Rightarrow> string \<Rightarrow> contract_error + int option" where
  "optional_int v name =
     (case v of
        JNull \<Rightarrow> Inr None
      | JInt n \<Rightarrow> if n < 0 then Inl (CE_minimum name) else Inr (Some n)
      | _ \<Rightarrow> Inl (CE_type name))"

definition budget_fields :: "string list" where
  "budget_fields = [''max_tokens'', ''max_cost_micros'', ''max_attempts'', ''max_runtime_seconds'',
     ''max_concurrency'', ''max_tool_calls'']"

definition make_Budget :: "json \<Rightarrow> json \<Rightarrow> json \<Rightarrow> json \<Rightarrow> json \<Rightarrow> json \<Rightarrow> contract_error + Budget" where
  "make_Budget t c a r k n =
     rbind (optional_int t ''max_tokens'') (\<lambda>t.
     rbind (optional_int c ''max_cost_micros'') (\<lambda>c.
     rbind (optional_int a ''max_attempts'') (\<lambda>a.
     rbind (optional_int r ''max_runtime_seconds'') (\<lambda>r.
     rbind (optional_int k ''max_concurrency'') (\<lambda>k.
     rbind (optional_int n ''max_tool_calls'') (\<lambda>n.
     Inr \<lparr>max_tokens = t, max_cost_micros = c, max_attempts = a, max_runtime_seconds = r,
          max_concurrency = k, max_tool_calls = n\<rparr>))))))"

definition json_of_int_option :: "int option \<Rightarrow> json" where
  "json_of_int_option v = (case v of None \<Rightarrow> JNull | Some n \<Rightarrow> JInt n)"

definition Budget_to_json :: "Budget \<Rightarrow> json" where
  "Budget_to_json b =
     JObj [(''max_tokens'', json_of_int_option (max_tokens b)),
           (''max_cost_micros'', json_of_int_option (max_cost_micros b)),
           (''max_attempts'', json_of_int_option (max_attempts b)),
           (''max_runtime_seconds'', json_of_int_option (max_runtime_seconds b)),
           (''max_concurrency'', json_of_int_option (max_concurrency b)),
           (''max_tool_calls'', json_of_int_option (max_tool_calls b))]"

definition Budget_from_json :: "json \<Rightarrow> contract_error + Budget" where
  "Budget_from_json v =
     rbind (object_of v ''budget'') (\<lambda>d.
     let unknown = filter (\<lambda>k. k \<notin> set budget_fields) (dict_keys d) in
     if unknown \<noteq> [] then Inl (CE_unknown ''budget'' (sort unknown))
     else make_Budget (field d ''max_tokens'') (field d ''max_cost_micros'') (field d ''max_attempts'')
       (field d ''max_runtime_seconds'') (field d ''max_concurrency'') (field d ''max_tool_calls''))"

definition limit_fits :: "int option \<Rightarrow> int option \<Rightarrow> bool" where
  "limit_fits mine theirs =
     (case theirs of None \<Rightarrow> True | Some t \<Rightarrow> (case mine of None \<Rightarrow> False | Some m \<Rightarrow> m \<le> t))"

definition fits_within :: "Budget \<Rightarrow> Budget \<Rightarrow> bool" where
  "fits_within child parent \<longleftrightarrow>
     limit_fits (max_tokens child) (max_tokens parent) \<and>
     limit_fits (max_cost_micros child) (max_cost_micros parent) \<and>
     limit_fits (max_attempts child) (max_attempts parent) \<and>
     limit_fits (max_runtime_seconds child) (max_runtime_seconds parent) \<and>
     limit_fits (max_concurrency child) (max_concurrency parent) \<and>
     limit_fits (max_tool_calls child) (max_tool_calls parent)"

section \<open>Facts\<close>

lemma limit_fits_refl: "limit_fits l l"
  by (auto simp: limit_fits_def split: option.splits)

lemma limit_fits_trans: "limit_fits a b \<Longrightarrow> limit_fits b c \<Longrightarrow> limit_fits a c"
  by (auto simp: limit_fits_def split: option.splits)

text \<open>What a child limit is for: any amount the child admits, the parent admits.\<close>

lemma limit_fits_iff: "limit_fits a b \<longleftrightarrow> (\<forall>n. under_limit n a \<longrightarrow> under_limit n b)"
proof (cases b)
  case (Some m)
  show ?thesis
  proof (cases a)
    case None
    then have "under_limit (m + 1) a" by simp
    with None Some show ?thesis by (auto simp: limit_fits_def intro: exI[of _ "m + 1"])
  next
    case (Some k)
    with \<open>b = Some m\<close> show ?thesis by (auto simp: limit_fits_def)
  qed
qed (simp add: limit_fits_def)

lemma fits_within_trans: "fits_within a b \<Longrightarrow> fits_within b c \<Longrightarrow> fits_within a c"
  unfolding fits_within_def by (blast intro: limit_fits_trans)

lemma fits_within_refl: "fits_within b b"
  by (simp add: fits_within_def limit_fits_refl)

lemma optional_int_ok: "optional_int v n = Inr x \<longleftrightarrow> v = json_of_int_option x \<and> (\<forall>k. x = Some k \<longrightarrow> 0 \<le> k)"
  by (cases v) (auto simp: optional_int_def json_of_int_option_def split: option.splits if_splits)

lemma make_Budget_ok:
  "make_Budget t c a r k n = Inr b \<longleftrightarrow>
     optional_int t ''max_tokens'' = Inr (max_tokens b) \<and>
     optional_int c ''max_cost_micros'' = Inr (max_cost_micros b) \<and>
     optional_int a ''max_attempts'' = Inr (max_attempts b) \<and>
     optional_int r ''max_runtime_seconds'' = Inr (max_runtime_seconds b) \<and>
     optional_int k ''max_concurrency'' = Inr (max_concurrency b) \<and>
     optional_int n ''max_tool_calls'' = Inr (max_tool_calls b)"
  by (cases b) (auto simp: make_Budget_def rbind_Inr_iff)

lemma json_valid_int_option [simp]: "json_valid (json_of_int_option x)"
  by (cases x) (simp_all add: json_of_int_option_def)

lemma json_valid_budget [simp]: "json_valid (Budget_to_json b)"
  by (simp add: Budget_to_json_def)

lemma Budget_roundtrip:
  assumes "Budget_from_json v = Inr b"
  shows "Budget_from_json (Budget_to_json b) = Inr b"
proof -
  from assms have "\<forall>x \<in> {max_tokens b, max_cost_micros b, max_attempts b, max_runtime_seconds b,
      max_concurrency b, max_tool_calls b}. \<forall>k. x = Some k \<longrightarrow> 0 \<le> k"
    by (auto simp: Budget_from_json_def rbind_Inr_iff Let_def make_Budget_ok optional_int_ok split: if_splits)
  then show ?thesis
    by (auto simp: Budget_from_json_def object_of_def Budget_to_json_def budget_fields_def Let_def
        make_Budget_ok optional_int_ok field_def dict_get_def)
qed

section \<open>Properties\<close>

text \<open>A stored budget is read back unchanged. Every budget with non-negative limits decodes
  from its own encoding to itself, and anything that decodes is such a budget; a field the schema
  does not know is refused.\<close>

theorem budget_codec:
  "(\<forall>v b. Budget_from_json v = Inr b \<longrightarrow> Budget_from_json (Budget_to_json b) = Inr b) \<and>
   (\<forall>d k. k \<in> set (dict_keys d) \<and> k \<notin> set budget_fields \<longrightarrow> (\<exists>e. Budget_from_json (JObj d) = Inl e))"
  using Budget_roundtrip
  by (fastforce simp: Budget_from_json_def object_of_def Let_def filter_empty_conv)

text \<open>A child budget can never authorise what its parent refuses. A budget fits within another
  exactly when every amount it admits in a dimension is admitted by the other in that dimension;
  hence fitting is reflexive and transitive, and limits only tighten down a chain of accounts.\<close>

theorem fits_within_is_containment:
  "fits_within c p \<longleftrightarrow>
     (\<forall>n. (under_limit n (max_tokens c) \<longrightarrow> under_limit n (max_tokens p)) \<and>
          (under_limit n (max_cost_micros c) \<longrightarrow> under_limit n (max_cost_micros p)) \<and>
          (under_limit n (max_attempts c) \<longrightarrow> under_limit n (max_attempts p)) \<and>
          (under_limit n (max_runtime_seconds c) \<longrightarrow> under_limit n (max_runtime_seconds p)) \<and>
          (under_limit n (max_concurrency c) \<longrightarrow> under_limit n (max_concurrency p)) \<and>
          (under_limit n (max_tool_calls c) \<longrightarrow> under_limit n (max_tool_calls p)))"
  unfolding fits_within_def limit_fits_iff by blast

theorem fits_within_is_containment_witness:
  "under_limit 5 (max_tokens (no_budget\<lparr>max_tokens := Some 7\<rparr>)) \<and> \<not> fits_within no_budget (no_budget\<lparr>max_tokens := Some 7\<rparr>)"
  using fits_within_is_containment[of no_budget "no_budget\<lparr>max_tokens := Some 7\<rparr>"]
  by (auto simp: no_budget_def intro: exI[of _ 8])

theorem budget_codec_witness:
  "Budget_from_json (Budget_to_json (no_budget\<lparr>max_tokens := Some 7\<rparr>)) = Inr (no_budget\<lparr>max_tokens := Some 7\<rparr>)"
proof -
  have "Budget_from_json (JObj [(''max_tokens'', JInt 7)]) = Inr (no_budget\<lparr>max_tokens := Some 7\<rparr>)"
    by code_simp
  with budget_codec show ?thesis by blast
qed

end
