(* ===== verification/Ledger.thy ===== *)
theory Ledger
  imports Budgets
begin

text \<open>
  The budget ledger (\<open>governance/budgets.py\<close>): accounts that form a tree Mission, Task, Attempt,
  reservations per dispatch subject, and imported usage facts. The three SQL tables are the three
  dictionaries of the state, keyed by their primary or unique column; the columns \<open>created_at\<close>,
  \<open>updated_at\<close> and \<open>imported_at\<close>, which no decision reads, are left out. Every method runs inside a
  transaction of the caller, so an exception leaves the tables as they were: a step returns the
  new state or the error. \<open>provider_token_grants\<close> belongs to another component and is read only.

  \<open>_chain\<close> follows \<open>parent_id\<close> until there is none. Its fuel is the number of accounts;
  \<open>Diverges\<close> stands for a loop that does not end, which \<open>chain_returns\<close> excludes for every ledger
  that \<open>open_account\<close> can build.
\<close>

datatype ledger_error =
    BudgetError string
  | BudgetExhausted string string int int
  | Diverges

record UsageFact =
  uf_usage_ref :: string
  uf_input_tokens :: int
  uf_output_tokens :: int
  uf_cost_micros :: "int option"
  uf_unknown :: bool

definition uf_tokens :: "UsageFact \<Rightarrow> int" where
  "uf_tokens f = uf_input_tokens f + uf_output_tokens f"

record AccountSnapshot =
  ac_scope :: string
  ac_parent_id :: "string option"
  ac_mission_id :: string
  ac_limits :: Budget
  ac_reserved_tokens :: int
  ac_settled_tokens :: int
  ac_reserved_cost_micros :: int
  ac_settled_cost_micros :: int
  ac_unpriced_settlements :: int
  ac_attempts_created :: int
  ac_version :: int
  ac_reserved_tool_calls :: int
  ac_settled_tool_calls :: int
  ac_reserved_attempts :: int

definition remaining_tool_calls :: "AccountSnapshot \<Rightarrow> int option" where
  "remaining_tool_calls a =
     map_option (\<lambda>m. m - ac_reserved_tool_calls a - ac_settled_tool_calls a) (max_tool_calls (ac_limits a))"

definition remaining_tokens :: "AccountSnapshot \<Rightarrow> int option" where
  "remaining_tokens a =
     map_option (\<lambda>m. m - ac_reserved_tokens a - ac_settled_tokens a) (max_tokens (ac_limits a))"

definition remaining_cost_micros :: "AccountSnapshot \<Rightarrow> int option" where
  "remaining_cost_micros a =
     map_option (\<lambda>m. m - ac_reserved_cost_micros a - ac_settled_cost_micros a) (max_cost_micros (ac_limits a))"

definition remaining_attempts :: "AccountSnapshot \<Rightarrow> int option" where
  "remaining_attempts a =
     map_option (\<lambda>m. m - ac_attempts_created a - ac_reserved_attempts a) (max_attempts (ac_limits a))"

datatype ReservationState = RESERVED | SETTLED

record Reservation =
  rv_reservation_id :: string
  rv_account_id :: string
  rv_mission_id :: string
  rv_state :: ReservationState
  rv_reserved_tokens :: int
  rv_reserved_cost_micros :: int
  rv_reserved_tool_calls :: int
  rv_settled_tokens :: "int option"
  rv_settled_cost_micros :: "int option"
  rv_settled_tool_calls :: int
  rv_unpriced :: bool

record UsageRow =
  ur_subject_id :: string
  ur_mission_id :: string
  ur_input_tokens :: int
  ur_output_tokens :: int
  ur_cost_micros :: "int option"
  ur_unpriced :: bool
  ur_unknown :: bool

record Grant =
  gr_subject_id :: string
  gr_mission_id :: string
  gr_state :: string

record Ledger =
  lg_accounts :: "(string \<times> AccountSnapshot) list"
  lg_reservations :: "(string \<times> Reservation) list"
  lg_usage :: "(string \<times> UsageRow) list"
  lg_grants :: "Grant list"

section \<open>Accounts\<close>

definition account :: "Ledger \<Rightarrow> string \<Rightarrow> ledger_error + AccountSnapshot" where
  "account L i = (case map_of (lg_accounts L) i of
     None \<Rightarrow> Inl (BudgetError ''unknown budget account'') | Some a \<Rightarrow> Inr a)"

definition open_account ::
  "Ledger \<Rightarrow> string \<Rightarrow> string \<Rightarrow> string option \<Rightarrow> string \<Rightarrow> Budget \<Rightarrow> ledger_error + Ledger" where
  "open_account L i scope parent mission limits =
     rbind (case parent of
              None \<Rightarrow> Inr ()
            | Some p \<Rightarrow> rbind (account L p) (\<lambda>pa.
                if \<not> fits_within limits (ac_limits pa) then Inl (BudgetError ''exceeds parent'') else Inr ())) (\<lambda>_.
     Inr (if map_of (lg_accounts L) i \<noteq> None then L
          else L\<lparr>lg_accounts := dict_set i
            \<lparr>ac_scope = scope, ac_parent_id = parent, ac_mission_id = mission, ac_limits = limits,
             ac_reserved_tokens = 0, ac_settled_tokens = 0, ac_reserved_cost_micros = 0,
             ac_settled_cost_micros = 0, ac_unpriced_settlements = 0, ac_attempts_created = 0,
             ac_version = 1, ac_reserved_tool_calls = 0, ac_settled_tool_calls = 0,
             ac_reserved_attempts = 0\<rparr> (lg_accounts L)\<rparr>))"

fun chain_fuel :: "nat \<Rightarrow> Ledger \<Rightarrow> string option \<Rightarrow> ledger_error + (string \<times> AccountSnapshot) list" where
  "chain_fuel n L None = Inr []"
| "chain_fuel 0 L (Some i) = Inl Diverges"
| "chain_fuel (Suc n) L (Some i) =
     rbind (account L i) (\<lambda>a.
     rbind (chain_fuel n L (ac_parent_id a)) (\<lambda>rest. Inr ((i, a) # rest)))"

definition chain :: "Ledger \<Rightarrow> string \<Rightarrow> ledger_error + (string \<times> AccountSnapshot) list" where
  "chain L i = chain_fuel (Suc (length (lg_accounts L))) L (Some i)"

definition apply_delta ::
  "string \<Rightarrow> (AccountSnapshot \<Rightarrow> AccountSnapshot) \<Rightarrow> Ledger \<Rightarrow> ledger_error + Ledger" where
  "apply_delta i f L =
     (case map_of (lg_accounts L) i of
        None \<Rightarrow> Inl (BudgetError ''unknown budget account'')
      | Some a \<Rightarrow> Inr (L\<lparr>lg_accounts :=
          dict_set i ((f a)\<lparr>ac_version := ac_version a + 1\<rparr>) (lg_accounts L)\<rparr>))"

fun apply_chain ::
  "(string \<times> AccountSnapshot) list \<Rightarrow> (AccountSnapshot \<Rightarrow> AccountSnapshot) \<Rightarrow> Ledger \<Rightarrow> ledger_error + Ledger" where
  "apply_chain [] f L = Inr L"
| "apply_chain ((i, a) # rest) f L = rbind (apply_delta i f L) (apply_chain rest f)"

section \<open>Reserve\<close>

definition exceeds :: "int \<Rightarrow> int option \<Rightarrow> bool" where
  "exceeds n remaining = (case remaining of None \<Rightarrow> False | Some r \<Rightarrow> r < n)"

definition check_account ::
  "int \<Rightarrow> int \<Rightarrow> bool \<Rightarrow> int \<Rightarrow> string \<times> AccountSnapshot \<Rightarrow> ledger_error + unit" where
  "check_account tokens cost counts calls ia =
     (let i = fst ia; a = snd ia in
      if exceeds tokens (remaining_tokens a)
      then Inl (BudgetExhausted i ''tokens'' tokens (the (remaining_tokens a)))
      else if exceeds cost (remaining_cost_micros a)
      then Inl (BudgetExhausted i ''cost_micros'' cost (the (remaining_cost_micros a)))
      else if counts \<and> exceeds 1 (remaining_attempts a)
      then Inl (BudgetExhausted i ''attempts'' 1 (the (remaining_attempts a)))
      else if exceeds calls (remaining_tool_calls a)
      then Inl (BudgetExhausted i ''tool_calls'' calls (the (remaining_tool_calls a)))
      else Inr ())"

definition removeprefix :: "string \<Rightarrow> string \<Rightarrow> string" where
  "removeprefix p s = (if take (length p) s = p then drop (length p) s else s)"

definition reservation_mission :: "string option \<Rightarrow> (string \<times> AccountSnapshot) list \<Rightarrow> string" where
  "reservation_mission mission ch =
     (case mission of
        Some m \<Rightarrow> m
      | None \<Rightarrow> (case find (\<lambda>(i, a). ac_scope a = ''mission'') ch of
          Some (i, a) \<Rightarrow> removeprefix ''budget:'' i
        | None \<Rightarrow> removeprefix ''budget:'' (fst (last ch))))"

definition reserve ::
  "Ledger \<Rightarrow> string \<Rightarrow> string \<Rightarrow> int \<Rightarrow> int \<Rightarrow> bool \<Rightarrow> int \<Rightarrow> string option
    \<Rightarrow> ledger_error + (string \<times> Ledger)" where
  "reserve L acc subject tokens cost counts calls mission =
     (case map_of (lg_reservations L) subject of
        Some r \<Rightarrow> Inr (rv_reservation_id r, L)
      | None \<Rightarrow>
          rbind (chain L acc) (\<lambda>ch.
          rbind (for_each (check_account tokens cost counts calls) ch) (\<lambda>_.
          rbind (apply_chain ch (\<lambda>a. a\<lparr>
              ac_reserved_tokens := ac_reserved_tokens a + tokens,
              ac_reserved_cost_micros := ac_reserved_cost_micros a + cost,
              ac_reserved_tool_calls := ac_reserved_tool_calls a + calls,
              ac_attempts_created := ac_attempts_created a + (if counts then 1 else 0)\<rparr>) L) (\<lambda>L.
          let rid = ''reservation-'' @ subject in
          Inr (rid, L\<lparr>lg_reservations := dict_set subject
            \<lparr>rv_reservation_id = rid, rv_account_id = acc, rv_mission_id = reservation_mission mission ch,
             rv_state = RESERVED, rv_reserved_tokens = tokens, rv_reserved_cost_micros = cost,
             rv_reserved_tool_calls = calls, rv_settled_tokens = None, rv_settled_cost_micros = None,
             rv_settled_tool_calls = 0, rv_unpriced = False\<rparr> (lg_reservations L)\<rparr>)))))"

definition release_attempt :: "bool \<Rightarrow> Ledger \<Rightarrow> string \<Rightarrow> ledger_error + Ledger" where
  "release_attempt in_transaction L acc =
     (if \<not> in_transaction then Inl (BudgetError ''attempt release requires a Commit transaction'')
      else rbind (chain L acc) (\<lambda>ch.
        if list_ex (\<lambda>(i, a). ac_attempts_created a < 1) ch
        then Inl (BudgetError ''no attempt to release'')
        else apply_chain ch (\<lambda>a. a\<lparr>ac_attempts_created := ac_attempts_created a + - 1\<rparr>) L))"

definition reservation :: "Ledger \<Rightarrow> string \<Rightarrow> Reservation option" where
  "reservation L subject = map_of (lg_reservations L) subject"

definition check_growth :: "int \<Rightarrow> int \<Rightarrow> string \<times> AccountSnapshot \<Rightarrow> ledger_error + unit" where
  "check_growth tokens cost ia =
     (let i = fst ia; a = snd ia in
      if exceeds tokens (remaining_tokens a)
      then Inl (BudgetExhausted i ''tokens'' tokens (the (remaining_tokens a)))
      else if exceeds cost (remaining_cost_micros a)
      then Inl (BudgetExhausted i ''cost_micros'' cost (the (remaining_cost_micros a)))
      else Inr ())"

definition grow :: "bool \<Rightarrow> Ledger \<Rightarrow> string \<Rightarrow> int \<Rightarrow> int \<Rightarrow> ledger_error + Ledger" where
  "grow in_transaction L subject tokens cost =
     (if \<not> in_transaction then Inl (BudgetError ''reservation grow requires a Commit transaction'')
      else if tokens < 0 \<or> cost < 0
      then Inl (BudgetError ''reservation allowance must be nonnegative integers'')
      else case reservation L subject of
        None \<Rightarrow> Inl (BudgetError ''reservation grow requires a live original subject'')
      | Some r \<Rightarrow>
          if rv_state r \<noteq> RESERVED
          then Inl (BudgetError ''reservation grow requires a live original subject'')
          else
            let dt = max 0 (tokens - rv_reserved_tokens r);
                dc = max 0 (cost - rv_reserved_cost_micros r) in
            if dt = 0 \<and> dc = 0 then Inr L
            else
              rbind (chain L (rv_account_id r)) (\<lambda>ch.
              rbind (for_each (check_growth dt dc) ch) (\<lambda>_.
              rbind (apply_chain ch (\<lambda>a. a\<lparr>
                  ac_reserved_tokens := ac_reserved_tokens a + dt,
                  ac_reserved_cost_micros := ac_reserved_cost_micros a + dc\<rparr>) L) (\<lambda>L.
              Inr (L\<lparr>lg_reservations := dict_set subject
                (r\<lparr>rv_reserved_tokens := rv_reserved_tokens r + dt,
                   rv_reserved_cost_micros := rv_reserved_cost_micros r + dc\<rparr>) (lg_reservations L)\<rparr>)))))"

section \<open>Usage facts\<close>

definition usage_row :: "string \<Rightarrow> string \<Rightarrow> UsageFact \<Rightarrow> UsageRow" where
  "usage_row subject mission f =
     \<lparr>ur_subject_id = subject, ur_mission_id = mission, ur_input_tokens = uf_input_tokens f,
      ur_output_tokens = uf_output_tokens f, ur_cost_micros = uf_cost_micros f,
      ur_unpriced = (\<not> (uf_cost_micros f \<noteq> None \<or> uf_unknown f)), ur_unknown = uf_unknown f\<rparr>"

text \<open>The upsert: a conflicting row is updated only from unknown to known, and keeps its subject and
  mission; the returned number is the row count of the statement.\<close>

definition import_fact :: "string \<Rightarrow> string \<Rightarrow> UsageFact \<Rightarrow> (string \<times> UsageRow) list \<Rightarrow> (string \<times> UsageRow) list \<times> nat" where
  "import_fact subject mission f rows =
     (let new = usage_row subject mission f in
      case map_of rows (uf_usage_ref f) of
        None \<Rightarrow> (dict_set (uf_usage_ref f) new rows, 1)
      | Some old \<Rightarrow>
          if ur_unknown old \<and> \<not> ur_unknown new
          then (dict_set (uf_usage_ref f)
                 (new\<lparr>ur_subject_id := ur_subject_id old, ur_mission_id := ur_mission_id old\<rparr>) rows, 1)
          else (rows, 0))"

fun import_usage :: "Ledger \<Rightarrow> string \<Rightarrow> string \<Rightarrow> UsageFact list \<Rightarrow> Ledger \<times> nat" where
  "import_usage L subject mission [] = (L, 0)"
| "import_usage L subject mission (f # fs) =
     (let (rows, n) = import_fact subject mission f (lg_usage L);
          (L', m) = import_usage (L\<lparr>lg_usage := rows\<rparr>) subject mission fs
      in (L', n + m))"

definition usage_totals :: "UsageRow list \<Rightarrow> int \<times> int option \<times> bool" where
  "usage_totals rows =
     (let tokens = sum_list (map (\<lambda>r. ur_input_tokens r + ur_output_tokens r) rows);
          costs = List.map_filter ur_cost_micros rows;
          unpriced = list_ex ur_unpriced rows
      in (tokens, if unpriced \<or> costs = [] then None else Some (sum_list costs), unpriced))"

definition usage_for :: "Ledger \<Rightarrow> string \<Rightarrow> int \<times> int option \<times> bool" where
  "usage_for L subject = usage_totals (filter (\<lambda>r. ur_subject_id r = subject) (map snd (lg_usage L)))"

definition known_usage_for :: "Ledger \<Rightarrow> string \<Rightarrow> int \<times> int option \<times> bool" where
  "known_usage_for L subject =
     usage_totals (filter (\<lambda>r. ur_subject_id r = subject \<and> \<not> ur_unknown r) (map snd (lg_usage L)))"

definition imported_unknown_count :: "Ledger \<Rightarrow> string \<Rightarrow> nat" where
  "imported_unknown_count L subject =
     length (filter (\<lambda>r. ur_subject_id r = subject \<and> ur_unknown r) (map snd (lg_usage L)))"

definition held_state :: "string \<Rightarrow> bool" where
  "held_state s \<longleftrightarrow> s \<in> {''RESERVED'', ''HANDED_OFF'', ''UNKNOWN''}"

definition has_unknown_usage :: "Ledger \<Rightarrow> string \<Rightarrow> bool" where
  "has_unknown_usage L subject \<longleftrightarrow>
     0 < imported_unknown_count L subject \<or>
     list_ex (\<lambda>g. gr_subject_id g = subject \<and> held_state (gr_state g)) (lg_grants L)"

section \<open>Settle\<close>

definition settle_reservation ::
  "Ledger \<Rightarrow> string \<Rightarrow> Reservation \<Rightarrow> int \<Rightarrow> int \<Rightarrow> int option \<Rightarrow> int \<Rightarrow> bool \<Rightarrow> ledger_error + (Reservation \<times> Ledger)" where
  "settle_reservation L subject r tokens cost cost_column calls unpriced =
     rbind (chain L (rv_account_id r)) (\<lambda>ch.
     rbind (apply_chain ch (\<lambda>a. a\<lparr>
         ac_reserved_tokens := ac_reserved_tokens a + - rv_reserved_tokens r,
         ac_reserved_cost_micros := ac_reserved_cost_micros a + - rv_reserved_cost_micros r,
         ac_reserved_tool_calls := ac_reserved_tool_calls a + - rv_reserved_tool_calls r,
         ac_settled_tokens := ac_settled_tokens a + tokens,
         ac_settled_cost_micros := ac_settled_cost_micros a + cost,
         ac_settled_tool_calls := ac_settled_tool_calls a + calls,
         ac_unpriced_settlements := ac_unpriced_settlements a + (if unpriced then 1 else 0)\<rparr>) L) (\<lambda>L.
     let r' = r\<lparr>rv_state := SETTLED, rv_settled_tokens := Some tokens, rv_settled_cost_micros := cost_column,
                rv_settled_tool_calls := calls, rv_unpriced := unpriced\<rparr> in
     Inr (r', L\<lparr>lg_reservations := dict_set subject r' (lg_reservations L)\<rparr>)))"

definition settle :: "Ledger \<Rightarrow> string \<Rightarrow> int \<Rightarrow> ledger_error + (Reservation \<times> Ledger)" where
  "settle L subject calls =
     (case reservation L subject of
        None \<Rightarrow> Inl (BudgetError ''no reservation'')
      | Some r \<Rightarrow>
          if rv_state r = SETTLED then Inr (r, L)
          else if has_unknown_usage L subject then Inl (BudgetError ''unknown provider charge; reservation held'')
          else let (tokens, cost, unpriced) = usage_for L subject in
            settle_reservation L subject r tokens (case cost of None \<Rightarrow> 0 | Some c \<Rightarrow> c) cost calls unpriced)"

definition settle_known :: "Ledger \<Rightarrow> string \<Rightarrow> int \<Rightarrow> ledger_error + (Reservation \<times> Ledger)" where
  "settle_known L subject calls =
     (case reservation L subject of
        None \<Rightarrow> Inl (BudgetError ''no reservation'')
      | Some r \<Rightarrow>
          if rv_state r = SETTLED then Inr (r, L)
          else let (tokens, cost, unpriced) = known_usage_for L subject in
            settle_reservation L subject r tokens (case cost of None \<Rightarrow> 0 | Some c \<Rightarrow> c) cost calls unpriced)"

definition settle_at_upper_bound :: "Ledger \<Rightarrow> string \<Rightarrow> ledger_error + (Reservation \<times> Ledger)" where
  "settle_at_upper_bound L subject =
     (case reservation L subject of
        None \<Rightarrow> Inl (BudgetError ''no reservation'')
      | Some r \<Rightarrow>
          if rv_state r = SETTLED then Inr (r, L)
          else let (known_tokens, known_cost, unpriced) = known_usage_for L subject;
                   tokens = max (rv_reserved_tokens r) known_tokens;
                   cost = max (rv_reserved_cost_micros r) (case known_cost of None \<Rightarrow> 0 | Some c \<Rightarrow> c) in
            settle_reservation L subject r tokens cost (Some cost) 0 unpriced)"

section \<open>Report flags\<close>

definition usage_fully_known :: "Ledger \<Rightarrow> string \<Rightarrow> bool" where
  "usage_fully_known L mission =
     (if list_ex (\<lambda>r. ur_mission_id r = mission \<and> ur_unknown r) (map snd (lg_usage L)) then False
      else \<not> list_ex (\<lambda>g. gr_mission_id g = mission \<and> held_state (gr_state g)) (lg_grants L))"

fun budget_conserved :: "Ledger \<Rightarrow> string list \<Rightarrow> ledger_error + bool" where
  "budget_conserved L [] = Inr True"
| "budget_conserved L (i # is) =
     rbind (account L i) (\<lambda>a.
     if ac_scope a \<noteq> ''mission'' then budget_conserved L is
     else case (remaining_tokens a, max_tokens (ac_limits a)) of
       (Some remaining, Some pool) \<Rightarrow>
         if remaining + ac_reserved_tokens a + ac_settled_tokens a \<noteq> pool then Inr False
         else budget_conserved L is
     | _ \<Rightarrow> budget_conserved L is)"

definition usage_flags :: "Ledger \<Rightarrow> string \<Rightarrow> ledger_error + (bool \<times> bool)" where
  "usage_flags L mission =
     rbind (budget_conserved L (sort (map fst (filter (\<lambda>(i, a). ac_mission_id a = mission) (lg_accounts L)))))
       (\<lambda>c. Inr (usage_fully_known L mission, c))"

end
