(* ===== verification/Domains.thy ===== *)
theory Domains
  imports Budgets "HOL-Library.List_Lexorder" "HOL-Library.Char_ord"
begin

text \<open>
  Domain profiles (\<open>governance/domains.py\<close>), the gate that one proposed Task passes under a profile,
  the budget helpers of the system templates (\<open>planning/manager.py\<close>) and the verification layers of
  \<open>contracts/models.py\<close>. The record keeps the fields of a profile that a gate reads; prompt
  templates, wording and adapters are left out. Problems are structured values in place of messages.
\<close>

section \<open>Verification layers\<close>

definition VERIFICATION_LAYERS :: "string list" where
  "VERIFICATION_LAYERS = [''format_check'', ''rule_check'', ''critic_review'', ''code_test'', ''formal_check'', ''human_review'']"

definition STEP2_IMPLEMENTED_LAYERS :: "string list" where
  "STEP2_IMPLEMENTED_LAYERS = [''format_check'', ''rule_check'', ''critic_review'', ''code_test'', ''human_review'']"

definition SYSTEM_DEFAULT_POLICY :: "string list" where
  "SYSTEM_DEFAULT_POLICY = [''format_check'', ''rule_check'', ''code_test'']"

definition default_change_policy :: "string list \<Rightarrow> string list" where
  "default_change_policy deployed =
     (if ''code_test'' \<in> set deployed then SYSTEM_DEFAULT_POLICY
      else [''format_check'', ''rule_check'', ''critic_review''])"

section \<open>Profiles\<close>

record ConflictTemplate =
  ct_policy :: "string list"
  ct_decides_with :: string
  ct_probe :: "string option"

definition criteria_for :: "ConflictTemplate \<Rightarrow> string \<Rightarrow> string \<Rightarrow> string list" where
  "criteria_for t key directory =
     (''arbitration:'' @ key) #
     (case ct_probe t of None \<Rightarrow> [] | Some probe \<Rightarrow> [''pytest:'' @ directory @ ''/'' @ probe])"

record DomainProfile =
  dp_id :: string
  dp_version :: string
  dp_allowed_evidence_kinds :: "string list"
  dp_criterion_kinds :: "string list"
  dp_runs_layers :: "string list"
  dp_planner_floor :: "string list"
  dp_default_policy :: "string list"
  dp_conflict_template :: ConflictTemplate
  dp_synthesis_default_policy :: "string list"

definition DOC_DOMAIN :: string where "DOC_DOMAIN = ''doc-research-v1''"

definition supports_document_assessments :: "DomainProfile \<Rightarrow> bool" where
  "supports_document_assessments d \<longleftrightarrow>
     dp_id d = DOC_DOMAIN \<and> dp_version d \<in> {''3'', ''4'', ''5'', ''6'', ''7'', ''8'', ''9''}"

definition requires_mission_source_binding :: "DomainProfile \<Rightarrow> bool" where
  "requires_mission_source_binding d \<longleftrightarrow>
     dp_id d = DOC_DOMAIN \<and> dp_version d \<in> {''4'', ''5'', ''6'', ''7'', ''8'', ''9''}"

definition requires_document_critic_proof :: "DomainProfile \<Rightarrow> bool" where
  "requires_document_critic_proof d \<longleftrightarrow>
     dp_id d = DOC_DOMAIN \<and> dp_version d \<in> {''5'', ''6'', ''7'', ''8'', ''9''}"

definition CODE_PROFILE_V1 :: DomainProfile where
  "CODE_PROFILE_V1 =
     \<lparr>dp_id = ''code-v1'', dp_version = ''1'',
      dp_allowed_evidence_kinds = [''pytest'', ''file'', ''artifact'', ''tool-run'', ''knowledge''],
      dp_criterion_kinds = [''pytest'', ''file'', ''action'', ''arbitration'', ''free''],
      dp_runs_layers = VERIFICATION_LAYERS, dp_planner_floor = [], dp_default_policy = SYSTEM_DEFAULT_POLICY,
      dp_conflict_template = \<lparr>ct_policy = [''format_check'', ''rule_check'', ''critic_review'', ''code_test''],
        ct_decides_with = ''code_test'', ct_probe = Some ''test_probe.py''\<rparr>,
      dp_synthesis_default_policy = [''format_check'', ''rule_check'', ''code_test'']\<rparr>"

definition DOC_PROFILE_V3 :: DomainProfile where
  "DOC_PROFILE_V3 =
     \<lparr>dp_id = DOC_DOMAIN, dp_version = ''3'',
      dp_allowed_evidence_kinds = [''source'', ''file'', ''artifact'', ''knowledge''],
      dp_criterion_kinds = [''file'', ''cite'', ''action'', ''arbitration'', ''free''],
      dp_runs_layers = [''format_check'', ''rule_check'', ''critic_review'', ''human_review''],
      dp_planner_floor = [''format_check'', ''rule_check''],
      dp_default_policy = [''format_check'', ''rule_check'', ''critic_review''],
      dp_conflict_template = \<lparr>ct_policy = [''format_check'', ''rule_check'', ''critic_review'', ''human_review''],
        ct_decides_with = ''human_review'', ct_probe = None\<rparr>,
      dp_synthesis_default_policy = [''format_check'', ''rule_check'', ''critic_review'']\<rparr>"

section \<open>The gate of one Task\<close>

definition CRITERION_KINDS :: "string list" where
  "CRITERION_KINDS = [''pytest'', ''file'', ''action'', ''arbitration'', ''cite'', ''free'']"

definition criterion_kind :: "string \<Rightarrow> string" where
  "criterion_kind c =
     (let head = takeWhile (\<lambda>x. x \<noteq> CHR '':'') c in
      if CHR '':'' \<in> set c \<and> head \<in> set CRITERION_KINDS then head else ''free'')"

datatype domain_problem =
    Criterion_not_allowed string string
  | Unknown_layers "string list"
  | Below_floor "string list"
  | Layer_not_run "string list"
  | Evidence_not_allowed string

definition check_against_domain ::
  "DomainProfile \<Rightarrow> string list \<Rightarrow> string list option \<Rightarrow> string list \<Rightarrow> domain_problem list" where
  "check_against_domain d criteria verification_policy evidence_kinds =
     (let policy = (case verification_policy of None \<Rightarrow> [] | Some p \<Rightarrow> p);
          unknown = filter (\<lambda>l. l \<notin> set VERIFICATION_LAYERS) policy;
          missing = filter (\<lambda>l. l \<notin> set policy) (dp_planner_floor d);
          strict_policy = (requires_document_critic_proof d \<and> verification_policy \<noteq> None);
          replaced = filter (\<lambda>l. l \<notin> set (dp_runs_layers d)) (filter (\<lambda>l. l \<in> set VERIFICATION_LAYERS) policy) in
      map (\<lambda>c. Criterion_not_allowed c (criterion_kind c))
        (filter (\<lambda>c. criterion_kind c \<notin> set (dp_criterion_kinds d)) criteria) @
      (if unknown \<noteq> [] then [Unknown_layers (sort unknown)] else []) @
      (if missing \<noteq> [] \<and> (policy \<noteq> [] \<or> strict_policy) then [Below_floor (sort missing)] else []) @
      (if replaced \<noteq> [] then [Layer_not_run (sort replaced)] else []) @
      map Evidence_not_allowed (filter (\<lambda>k. k \<notin> set (dp_allowed_evidence_kinds d)) evidence_kinds))"

section \<open>Budgets of the system templates\<close>

definition or_parent :: "int option \<Rightarrow> int option \<Rightarrow> int option" where
  "or_parent mine parent = (case mine of None \<Rightarrow> parent | Some n \<Rightarrow> Some n)"

definition inherit_limits :: "Budget \<Rightarrow> Budget \<Rightarrow> Budget" where
  "inherit_limits b parent = b\<lparr>
     max_tokens := or_parent (max_tokens b) (max_tokens parent),
     max_cost_micros := or_parent (max_cost_micros b) (max_cost_micros parent),
     max_attempts := or_parent (max_attempts b) (max_attempts parent),
     max_concurrency := or_parent (max_concurrency b) (max_concurrency parent),
     max_runtime_seconds := or_parent (max_runtime_seconds b) (max_runtime_seconds parent),
     max_tool_calls := or_parent (max_tool_calls b) (max_tool_calls parent)\<rparr>"

text \<open>\<open>int(v)\<close>: decimal text may have a sign, surrounding blanks and single underscores between
  digits; a float is truncated.\<close>

definition is_digit :: "char \<Rightarrow> bool" where
  "is_digit c = (let n = of_char c :: int in 48 \<le> n \<and> n \<le> 57)"

fun digits_value :: "int \<Rightarrow> string \<Rightarrow> int option" where
  "digits_value acc [] = Some acc"
| "digits_value acc (c # cs) =
     (if is_digit c then digits_value (acc * 10 + (of_char c - 48)) cs
      else if c = CHR ''_'' then
        (case cs of [] \<Rightarrow> None | d # ds \<Rightarrow> if is_digit d then digits_value acc cs else None)
      else None)"

definition unsigned_value :: "string \<Rightarrow> int option" where
  "unsigned_value s = (case s of [] \<Rightarrow> None | c # cs \<Rightarrow> if is_digit c then digits_value 0 s else None)"

definition parse_int :: "string \<Rightarrow> int option" where
  "parse_int s =
     (case strip s of
        [] \<Rightarrow> None
      | c # cs \<Rightarrow>
          if c = CHR ''-'' then map_option uminus (unsigned_value cs)
          else if c = CHR ''+'' then unsigned_value cs
          else unsigned_value (c # cs))"

definition trunc_rat :: "rat \<Rightarrow> int" where
  "trunc_rat r = (if r < 0 then - floor (- r) else floor r)"

definition py_int :: "json \<Rightarrow> contract_error + int" where
  "py_int v =
     (case v of
        JInt n \<Rightarrow> Inr n
      | JBool b \<Rightarrow> Inr (if b then 1 else 0)
      | JFloat (PyFinite r) \<Rightarrow> Inr (trunc_rat r)
      | JStr s \<Rightarrow> (case parse_int s of None \<Rightarrow> Inl (PyValueError ''int'') | Some n \<Rightarrow> Inr n)
      | JFloat _ \<Rightarrow> Inl (PyValueError ''int'')
      | _ \<Rightarrow> Inl (PyTypeError ''int''))"

text \<open>\<open>v or {}\<close> and \<open>v or 0\<close>; \<open>.get\<close> on anything that is not a mapping raises.\<close>

definition or_empty :: "json \<Rightarrow> contract_error + (string \<times> json) list" where
  "or_empty v = (if truthy v then (case v of JObj d \<Rightarrow> Inr d | _ \<Rightarrow> Inl (PyTypeError ''get'')) else Inr [])"

definition or_zero :: "json \<Rightarrow> json" where
  "or_zero v = (if truthy v then v else JInt 0)"

definition system_reserve_tokens :: "(string \<times> json) list option \<Rightarrow> contract_error + int" where
  "system_reserve_tokens final_report =
     (let report = (case final_report of None \<Rightarrow> [] | Some d \<Rightarrow> d) in
      rbind (or_empty (dict_get report ''synthesis'' JNull)) (\<lambda>synthesis.
      rbind (or_empty (dict_get synthesis ''budget'' JNull)) (\<lambda>budget.
      rbind (py_int (or_zero (dict_get budget ''max_tokens'' JNull))) (\<lambda>synth_tokens.
      rbind (py_int (or_zero (dict_get report ''conflict_reserve_tokens'' JNull))) (\<lambda>reserve.
      Inr (synth_tokens + reserve))))))"

section \<open>Facts\<close>

lemma limit_fits_or_parent: "limit_fits (or_parent a b) b \<longleftrightarrow> (\<forall>m n. a = Some m \<longrightarrow> b = Some n \<longrightarrow> m \<le> n)"
  by (auto simp: limit_fits_def or_parent_def split: option.splits)

text \<open>An inherited budget fits exactly when no named limit exceeds the parent's.\<close>

lemma inherit_limits_fits:
  "fits_within (inherit_limits b parent) parent \<longleftrightarrow>
     (\<forall>f\<in>{max_tokens, max_cost_micros, max_attempts, max_runtime_seconds, max_concurrency, max_tool_calls}.
        \<forall>m n. f b = Some m \<longrightarrow> f parent = Some n \<longrightarrow> m \<le> n)"
  by (simp add: fits_within_def inherit_limits_def limit_fits_or_parent)

lemma domain_gate_passed:
  "check_against_domain d criteria (Some policy) [] = [] \<longleftrightarrow>
     (\<forall>c\<in>set criteria. criterion_kind c \<in> set (dp_criterion_kinds d)) \<and>
     set policy \<subseteq> set VERIFICATION_LAYERS \<and> set policy \<subseteq> set (dp_runs_layers d) \<and>
     (set (dp_planner_floor d) \<subseteq> set policy \<or> (policy = [] \<and> \<not> requires_document_critic_proof d))"
  by (auto simp: check_against_domain_def Let_def filter_empty_conv)

end
