(* ===== verification/Contracts.thy ===== *)
theory Contracts
  imports Lifecycle Domains
begin

text \<open>
  The Mission, Task and Attempt records of \<open>contracts/models.py\<close>. A \<open>from_json\<close> reads the keyword
  arguments of the constructor from the document, in the order of the source and with its defaults, and the
  constructor (\<open>make_\<close>) checks them as \<open>__post_init__\<close> does. Fields that the constructor does not check keep
  the JSON value they were given; \<open>created_at\<close> is checked to be a number and kept as written.
\<close>

datatype arg_kind =
    Required
  | Optional json
  | Tuple
  | OrElse json
  | Truth
  | Budgeted
  | Text json

text \<open>How one keyword argument is read: \<open>data[k]\<close>, \<open>data.get(k, v)\<close>, \<open>tuple(data.get(k, ()))\<close>,
  \<open>data.get(k, v) or v\<close>, \<open>bool(data.get(k, False))\<close>, \<open>Budget.from_json(data.get(k, {}))\<close>, and
  \<open>str(data.get(k, v))\<close>, which leaves text alone.\<close>

fun read_arg :: "(json \<Rightarrow> string) \<Rightarrow> (string \<times> json) list \<Rightarrow> string \<times> arg_kind \<Rightarrow> contract_error + (string \<times> json)" where
  "read_arg str d (k, Required) = rbind (item_of d k) (\<lambda>v. Inr (k, v))"
| "read_arg str d (k, Optional v) = Inr (k, dict_get d k v)"
| "read_arg str d (k, Tuple) = rbind (tuple_of (dict_get d k (JList []))) (\<lambda>xs. Inr (k, JList xs))"
| "read_arg str d (k, OrElse v) = Inr (k, or_default (dict_get d k v) v)"
| "read_arg str d (k, Truth) = Inr (k, JBool (truthy (dict_get d k (JBool False))))"
| "read_arg str d (k, Budgeted) = rbind (Budget_from_json (dict_get d k (JObj []))) (\<lambda>b. Inr (k, Budget_to_json b))"
| "read_arg str d (k, Text v) =
     Inr (k, JStr (case dict_get d k v of JStr s \<Rightarrow> s | w \<Rightarrow> str w))"

definition read_args ::
  "(json \<Rightarrow> string) \<Rightarrow> (string \<times> json) list \<Rightarrow> (string \<times> arg_kind) list \<Rightarrow> contract_error + (string \<times> json) list" where
  "read_args str d spec = map_result (read_arg str d) spec"

section \<open>Missions\<close>

record Mission =
  ms_id :: string
  ms_goal :: string
  ms_success_criteria :: "string list"
  ms_stop_conditions :: "string list"
  ms_allowed_tools :: "string list"
  ms_risk_level :: string
  ms_budget :: Budget
  ms_tenant_id :: string
  ms_status :: MissionStatus
  ms_created_at :: json
  ms_version :: int
  ms_idempotency_key :: string
  ms_stop_reason :: "string option"
  ms_final_report :: "(string \<times> json) list option"

definition make_Mission :: "(string \<times> json) list \<Rightarrow> contract_error + Mission" where
  "make_Mission a =
     rbind (text_within 256 (field a ''id'') ''mission.id'') (\<lambda>i.
     rbind (text_within MAX_TEXT (field a ''goal'') ''mission.goal'') (\<lambda>goal.
     rbind (texts_of (field a ''success_criteria'') ''mission.success_criteria'') (\<lambda>criteria.
     if criteria = [] then Inl (CE_count ''mission.success_criteria'')
     else
       rbind (texts_of (field a ''stop_conditions'') ''mission.stop_conditions'') (\<lambda>stop.
       rbind (texts_of (field a ''allowed_tools'') ''mission.allowed_tools'') (\<lambda>tools.
       rbind (text_within 64 (field a ''risk_level'') ''mission.risk_level'') (\<lambda>risk.
       rbind (Budget_from_json (field a ''budget'')) (\<lambda>budget.
       rbind (text_within 256 (field a ''tenant_id'') ''mission.tenant_id'') (\<lambda>tenant.
       rbind (member_of all_MissionStatus str_MissionStatus (field a ''status'') ''mission.status'') (\<lambda>status.
       rbind (number_of (field a ''created_at'') ''mission.created_at'') (\<lambda>_.
       rbind (positive_int 1 (field a ''version'') ''mission.version'') (\<lambda>version.
       rbind (text_within 512 (field a ''idempotency_key'') ''mission.idempotency_key'') (\<lambda>key.
       rbind (unless_null (\<lambda>v. text_within 128 v ''mission.stop_reason'') (field a ''stop_reason'')) (\<lambda>reason.
       rbind (unless_null (\<lambda>v. object_of v ''mission.final_report'') (field a ''final_report'')) (\<lambda>report.
       Inr \<lparr>ms_id = i, ms_goal = goal, ms_success_criteria = criteria, ms_stop_conditions = stop, ms_allowed_tools = tools,
         ms_risk_level = risk, ms_budget = budget, ms_tenant_id = tenant, ms_status = status,
         ms_created_at = field a ''created_at'', ms_version = version, ms_idempotency_key = key, ms_stop_reason = reason,
         ms_final_report = report\<rparr>))))))))))))))"

definition Mission_to_json :: "Mission \<Rightarrow> json" where
  "Mission_to_json m =
     JObj [(''id'', JStr (ms_id m)), (''goal'', JStr (ms_goal m)), (''success_criteria'', json_texts (ms_success_criteria m)),
       (''stop_conditions'', json_texts (ms_stop_conditions m)), (''allowed_tools'', json_texts (ms_allowed_tools m)),
       (''risk_level'', JStr (ms_risk_level m)), (''budget'', Budget_to_json (ms_budget m)),
       (''tenant_id'', JStr (ms_tenant_id m)), (''status'', JStr (str_MissionStatus (ms_status m))),
       (''created_at'', ms_created_at m), (''version'', JInt (ms_version m)),
       (''idempotency_key'', JStr (ms_idempotency_key m)), (''stop_reason'', json_text_opt (ms_stop_reason m)),
       (''final_report'', (case ms_final_report m of None \<Rightarrow> JNull | Some d \<Rightarrow> JObj d))]"

definition mission_args :: "(string \<times> arg_kind) list" where
  "mission_args =
     [(''id'', Required), (''goal'', Required), (''success_criteria'', Tuple), (''stop_conditions'', Tuple),
      (''allowed_tools'', Tuple), (''risk_level'', Required), (''budget'', Budgeted), (''tenant_id'', Required),
      (''status'', Required), (''created_at'', Required), (''version'', Required), (''idempotency_key'', Required),
      (''stop_reason'', Optional JNull), (''final_report'', Optional JNull)]"

definition Mission_from_json :: "(json \<Rightarrow> string) \<Rightarrow> json \<Rightarrow> contract_error + Mission" where
  "Mission_from_json str v =
     rbind (object_of v ''mission'') (\<lambda>d. rbind (read_args str d mission_args) make_Mission)"

section \<open>Tasks\<close>

definition TASK_KINDS :: "string list" where
  "TASK_KINDS = [''work'', ''conflict'', ''synthesis'']"

record Task =
  tk_id :: string
  tk_mission_id :: string
  tk_parent_task_ids :: "string list"
  tk_dependency_ids :: "string list"
  tk_goal :: string
  tk_rationale :: string
  tk_success_criteria :: "string list"
  tk_verification_policy :: "string list"
  tk_allowed_tools :: "string list"
  tk_budget :: Budget
  tk_priority :: rat
  tk_status :: TaskStatus
  tk_version :: int
  tk_root_goal :: string
  tk_created_at :: json
  tk_accepted_result_id :: json
  tk_accepted_artifacts :: "string list"
  tk_attempt_count :: int
  tk_failure_reason :: json
  tk_outputs :: "string list"
  tk_kind :: string
  tk_context :: "(string \<times> json) list"
  tk_ready_at :: json
  tk_paused :: bool
  tk_pause_reason :: json

definition task_kind :: "json \<Rightarrow> contract_error + string" where
  "task_kind v = (case v of JStr k \<Rightarrow> if k \<in> set TASK_KINDS then Inr k else Inl (CE_enum ''task.kind'') | _ \<Rightarrow> Inl (CE_enum ''task.kind''))"

definition make_Task :: "(string \<times> json) list \<Rightarrow> contract_error + Task" where
  "make_Task a =
     rbind (text_within 256 (field a ''id'') ''task.id'') (\<lambda>i.
     rbind (texts_of (field a ''outputs'') ''task.outputs'') (\<lambda>outputs.
     rbind (task_kind (field a ''kind'')) (\<lambda>kind.
     rbind (object_of (field a ''context'') ''task.context'') (\<lambda>ctx.
     rbind (text_within 256 (field a ''mission_id'') ''task.mission_id'') (\<lambda>mission.
     rbind (texts_of (field a ''parent_task_ids'') ''task.parent_task_ids'') (\<lambda>parents.
     rbind (texts_of (field a ''dependency_ids'') ''task.dependency_ids'') (\<lambda>deps.
     rbind (text_within MAX_TEXT (field a ''goal'') ''task.goal'') (\<lambda>goal.
     rbind (text_within MAX_TEXT (field a ''rationale'') ''task.rationale'') (\<lambda>rationale.
     rbind (texts_of (field a ''success_criteria'') ''task.success_criteria'') (\<lambda>criteria.
     if criteria = [] then Inl (CE_count ''task.success_criteria'')
     else
       rbind (texts_of (field a ''verification_policy'') ''task.verification_policy'') (\<lambda>policy.
       if \<not> set policy \<subseteq> set VERIFICATION_LAYERS then Inl (CE_enum ''task.verification_policy'')
       else if policy = [] then Inl (CE_count ''task.verification_policy'')
       else
         rbind (texts_of (field a ''allowed_tools'') ''task.allowed_tools'') (\<lambda>tools.
         rbind (Budget_from_json (field a ''budget'')) (\<lambda>budget.
         rbind (number_of (field a ''priority'') ''task.priority'') (\<lambda>priority.
         rbind (member_of all_TaskStatus str_TaskStatus (field a ''status'') ''task.status'') (\<lambda>status.
         rbind (positive_int 1 (field a ''version'') ''task.version'') (\<lambda>version.
         rbind (text_of True MAX_TEXT (field a ''root_goal'') ''task.root_goal'') (\<lambda>root.
         rbind (number_of (field a ''created_at'') ''task.created_at'') (\<lambda>_.
         rbind (texts_of (field a ''accepted_artifacts'') ''task.accepted_artifacts'') (\<lambda>artifacts.
         rbind (positive_int 0 (field a ''attempt_count'') ''task.attempt_count'') (\<lambda>count.
         Inr \<lparr>tk_id = i, tk_mission_id = mission, tk_parent_task_ids = parents, tk_dependency_ids = deps, tk_goal = goal,
           tk_rationale = rationale, tk_success_criteria = criteria, tk_verification_policy = policy, tk_allowed_tools = tools,
           tk_budget = budget, tk_priority = priority, tk_status = status, tk_version = version, tk_root_goal = root,
           tk_created_at = field a ''created_at'', tk_accepted_result_id = field a ''accepted_result_id'',
           tk_accepted_artifacts = artifacts, tk_attempt_count = count, tk_failure_reason = field a ''failure_reason'',
           tk_outputs = outputs, tk_kind = kind, tk_context = ctx, tk_ready_at = field a ''ready_at'',
           tk_paused = truthy (field a ''paused''), tk_pause_reason = field a ''pause_reason''\<rparr>))))))))))))))))))))"

definition Task_to_json :: "Task \<Rightarrow> json" where
  "Task_to_json t =
     JObj [(''id'', JStr (tk_id t)), (''mission_id'', JStr (tk_mission_id t)),
       (''parent_task_ids'', json_texts (tk_parent_task_ids t)), (''dependency_ids'', json_texts (tk_dependency_ids t)),
       (''goal'', JStr (tk_goal t)), (''rationale'', JStr (tk_rationale t)),
       (''success_criteria'', json_texts (tk_success_criteria t)), (''verification_policy'', json_texts (tk_verification_policy t)),
       (''allowed_tools'', json_texts (tk_allowed_tools t)), (''budget'', Budget_to_json (tk_budget t)),
       (''priority'', JFloat (PyFinite (tk_priority t))), (''status'', JStr (str_TaskStatus (tk_status t))),
       (''version'', JInt (tk_version t)), (''root_goal'', JStr (tk_root_goal t)), (''created_at'', tk_created_at t),
       (''accepted_result_id'', tk_accepted_result_id t), (''accepted_artifacts'', json_texts (tk_accepted_artifacts t)),
       (''attempt_count'', JInt (tk_attempt_count t)), (''failure_reason'', tk_failure_reason t),
       (''outputs'', json_texts (tk_outputs t)), (''kind'', JStr (tk_kind t)), (''context'', JObj (tk_context t)),
       (''ready_at'', tk_ready_at t), (''paused'', JBool (tk_paused t)), (''pause_reason'', tk_pause_reason t)]"

definition task_args :: "(string \<times> arg_kind) list" where
  "task_args =
     [(''id'', Required), (''mission_id'', Required), (''parent_task_ids'', Tuple), (''dependency_ids'', Tuple),
      (''goal'', Required), (''rationale'', Required), (''success_criteria'', Tuple), (''verification_policy'', Tuple),
      (''allowed_tools'', Tuple), (''budget'', Budgeted), (''priority'', Optional (JFloat (PyFinite 0))), (''status'', Required),
      (''version'', Required), (''root_goal'', Optional (JStr '''')), (''created_at'', Optional (JFloat (PyFinite 0))),
      (''accepted_result_id'', Optional JNull), (''accepted_artifacts'', Tuple), (''attempt_count'', Optional (JInt 0)),
      (''failure_reason'', Optional JNull), (''outputs'', Tuple), (''kind'', OrElse (JStr ''work'')),
      (''context'', OrElse (JObj [])), (''ready_at'', Optional JNull), (''paused'', Truth), (''pause_reason'', Optional JNull)]"

definition Task_from_json :: "(json \<Rightarrow> string) \<Rightarrow> json \<Rightarrow> contract_error + Task" where
  "Task_from_json str v = rbind (object_of v ''task'') (\<lambda>d. rbind (read_args str d task_args) make_Task)"

section \<open>Attempts\<close>

record Attempt =
  at_id :: string
  at_task_id :: string
  at_mission_id :: string
  at_role :: string
  at_model :: string
  at_prompt_version :: string
  at_context_version :: string
  at_budget_reserved :: Budget
  at_lease_owner :: json
  at_lease_expires_at :: json
  at_status :: AttemptStatus
  at_retry_of :: json
  at_created_at :: json
  at_version :: int
  at_ordinal :: int
  at_creation_key :: string
  at_input_id :: string
  at_task_version :: int
  at_runtime_profile_id :: json
  at_agent_id :: json
  at_turn_id :: json
  at_input_hash :: json
  at_feedback :: "string list"
  at_failure :: "(string \<times> json) list option"
  at_result_id :: json
  at_progress_marker :: json
  at_progress_at :: json

definition feedback_of :: "json \<Rightarrow> contract_error + string list" where
  "feedback_of v = rbind (tuple_of v) (map_result (\<lambda>x. text_within MAX_TEXT x ''attempt.feedback[]''))"

definition make_Attempt :: "(string \<times> json) list \<Rightarrow> contract_error + Attempt" where
  "make_Attempt a =
     rbind (text_within 512 (field a ''id'') ''attempt.id'') (\<lambda>i.
     rbind (text_within 512 (field a ''task_id'') ''attempt.task_id'') (\<lambda>task.
     rbind (text_within 512 (field a ''mission_id'') ''attempt.mission_id'') (\<lambda>mission.
     rbind (text_within 512 (field a ''role'') ''attempt.role'') (\<lambda>role.
     rbind (text_within 512 (field a ''model'') ''attempt.model'') (\<lambda>model.
     rbind (text_within 512 (field a ''prompt_version'') ''attempt.prompt_version'') (\<lambda>prompt.
     rbind (text_within 512 (field a ''context_version'') ''attempt.context_version'') (\<lambda>ctx.
     rbind (text_within 512 (field a ''creation_key'') ''attempt.creation_key'') (\<lambda>key.
     rbind (text_within 512 (field a ''input_id'') ''attempt.input_id'') (\<lambda>input.
     rbind (Budget_from_json (field a ''budget_reserved'')) (\<lambda>budget.
     rbind (member_of all_AttemptStatus str_AttemptStatus (field a ''status'') ''attempt.status'') (\<lambda>status.
     rbind (number_of (field a ''created_at'') ''attempt.created_at'') (\<lambda>_.
     rbind (positive_int 1 (field a ''version'') ''attempt.version'') (\<lambda>version.
     rbind (positive_int 1 (field a ''ordinal'') ''attempt.ordinal'') (\<lambda>ord.
     rbind (positive_int 1 (field a ''task_version'') ''attempt.task_version'') (\<lambda>task_version.
     rbind (unless_null (\<lambda>v. number_of v ''attempt.lease_expires_at'') (field a ''lease_expires_at'')) (\<lambda>_.
     rbind (feedback_of (field a ''feedback'')) (\<lambda>feedback.
     rbind (unless_null (\<lambda>v. object_of v ''attempt.failure'') (field a ''failure'')) (\<lambda>failure.
     Inr \<lparr>at_id = i, at_task_id = task, at_mission_id = mission, at_role = role, at_model = model, at_prompt_version = prompt,
       at_context_version = ctx, at_budget_reserved = budget, at_lease_owner = field a ''lease_owner'',
       at_lease_expires_at = field a ''lease_expires_at'', at_status = status, at_retry_of = field a ''retry_of'',
       at_created_at = field a ''created_at'', at_version = version, at_ordinal = ord, at_creation_key = key,
       at_input_id = input, at_task_version = task_version, at_runtime_profile_id = field a ''runtime_profile_id'',
       at_agent_id = field a ''agent_id'', at_turn_id = field a ''turn_id'', at_input_hash = field a ''input_hash'',
       at_feedback = feedback, at_failure = failure, at_result_id = field a ''result_id'',
       at_progress_marker = field a ''progress_marker'', at_progress_at = field a ''progress_at''\<rparr>))))))))))))))))))"

definition Attempt_to_json :: "Attempt \<Rightarrow> json" where
  "Attempt_to_json t =
     JObj [(''id'', JStr (at_id t)), (''task_id'', JStr (at_task_id t)), (''mission_id'', JStr (at_mission_id t)),
       (''role'', JStr (at_role t)), (''model'', JStr (at_model t)), (''prompt_version'', JStr (at_prompt_version t)),
       (''context_version'', JStr (at_context_version t)), (''budget_reserved'', Budget_to_json (at_budget_reserved t)),
       (''lease_owner'', at_lease_owner t), (''lease_expires_at'', at_lease_expires_at t),
       (''status'', JStr (str_AttemptStatus (at_status t))), (''retry_of'', at_retry_of t), (''created_at'', at_created_at t),
       (''version'', JInt (at_version t)), (''ordinal'', JInt (at_ordinal t)), (''creation_key'', JStr (at_creation_key t)),
       (''input_id'', JStr (at_input_id t)), (''task_version'', JInt (at_task_version t)),
       (''runtime_profile_id'', at_runtime_profile_id t), (''agent_id'', at_agent_id t), (''turn_id'', at_turn_id t),
       (''input_hash'', at_input_hash t), (''feedback'', json_texts (at_feedback t)),
       (''progress_marker'', at_progress_marker t), (''progress_at'', at_progress_at t),
       (''failure'', (case at_failure t of None \<Rightarrow> JNull | Some d \<Rightarrow> JObj d)), (''result_id'', at_result_id t)]"

definition attempt_args :: "(string \<times> arg_kind) list" where
  "attempt_args =
     [(''id'', Required), (''task_id'', Required), (''mission_id'', Required), (''role'', Required), (''model'', Required),
      (''prompt_version'', Required), (''context_version'', Required), (''budget_reserved'', Budgeted),
      (''lease_owner'', Optional JNull), (''lease_expires_at'', Optional JNull), (''status'', Required),
      (''retry_of'', Optional JNull), (''created_at'', Required), (''version'', Required), (''ordinal'', Required),
      (''creation_key'', Required), (''input_id'', Required), (''task_version'', Optional (JInt 1)),
      (''runtime_profile_id'', Text (JStr ''default'')), (''agent_id'', Optional JNull), (''turn_id'', Optional JNull),
      (''input_hash'', Optional JNull), (''feedback'', Tuple), (''progress_marker'', Optional JNull),
      (''progress_at'', Optional JNull), (''failure'', Optional JNull), (''result_id'', Optional JNull)]"

definition Attempt_from_json :: "(json \<Rightarrow> string) \<Rightarrow> json \<Rightarrow> contract_error + Attempt" where
  "Attempt_from_json str v = rbind (object_of v ''attempt'') (\<lambda>d. rbind (read_args str d attempt_args) make_Attempt)"

section \<open>The codec law of the records\<close>

lemma read_arg_key: "read_arg str d (k, kind) = Inr (k', v) \<Longrightarrow> k' = k"
  by (cases kind) (auto simp: result_simps)

lemma json_valid_tuple: "json_valid v \<Longrightarrow> tuple_of v = Inr xs \<Longrightarrow> json_valid (JList xs)"
  by (cases v) auto

definition kind_valid :: "arg_kind \<Rightarrow> bool" where
  "kind_valid kind = (case kind of Optional v \<Rightarrow> json_valid v | OrElse v \<Rightarrow> json_valid v | Text v \<Rightarrow> json_valid v | _ \<Rightarrow> True)"

lemma read_arg_valid:
  assumes "json_valid (JObj d)" and "kind_valid kind" and "read_arg str d (k, kind) = Inr (k', v)"
  shows "json_valid v"
proof (cases kind)
  case Tuple
  with assms show ?thesis using json_valid_tuple[OF json_valid_get[OF assms(1), of "JList []" k]] by (auto simp: rbind_Inr_iff)
next
  case Required
  with assms show ?thesis by (auto simp: result_simps simp del: json_valid.simps intro: json_valid_field)
next
  case (OrElse w)
  with assms show ?thesis
    by (auto simp: or_default_def kind_valid_def simp del: json_valid.simps intro: json_valid_get)
qed (use assms in \<open>auto simp: result_simps kind_valid_def simp del: json_valid.simps(3) intro: json_valid_get\<close>)

lemma read_args_valid:
  assumes "json_valid (JObj d)" and "list_all (\<lambda>(k, kind). kind_valid kind) spec" and "read_args str d spec = Inr a"
  shows "json_valid (JObj a)"
proof -
  have "list_all2 (\<lambda>s kv. read_arg str d s = Inr kv) spec a" using assms(3) by (simp add: read_args_def map_result_ok)
  then have "\<forall>kv\<in>set a. json_valid (snd kv)" using assms(2)
    by (induction rule: list_all2_induct) (auto dest: read_arg_valid[OF assms(1)])
  then show ?thesis by simp
qed

lemma read_args_text:
  assumes "read_args str d spec = Inr a" and "(k, Text v) \<in> set spec" and "distinct (map fst spec)"
  shows "\<exists>s. field a k = JStr s"
proof -
  have "list_all2 (\<lambda>s kv. read_arg str d s = Inr kv) spec a" using assms(1) by (simp add: read_args_def map_result_ok)
  then show ?thesis using assms(2,3)
  proof (induction rule: list_all2_induct)
    case (Cons s spec kv a)
    obtain k' kind k'' w where s: "s = (k', kind)" "kv = (k'', w)" by (cases s, cases kv)
    with Cons(1) read_arg_key have "k'' = k'" by blast
    with Cons s show ?case by (cases "k' = k") (auto simp: field_def dict_get_def image_iff)
  qed simp
qed

fun the_obj :: "json \<Rightarrow> (string \<times> json) list" where
  "the_obj (JObj d) = d"
| "the_obj _ = []"

text \<open>What a record type owes for its codec: the constructor accepts the fields of what it built, the
  reader finds them all in the encoding, and the encoding is a JSON document.\<close>

locale record_codec =
  fixes spec :: "(string \<times> arg_kind) list" and make :: "(string \<times> json) list \<Rightarrow> contract_error + 'r"
    and encode :: "'r \<Rightarrow> json" and name :: string
  assumes spec_valid: "list_all (\<lambda>(k, kind). kind_valid kind) spec"
    and encodes: "encode x = JObj (the_obj (encode x))"
    and make_again: "make a = Inr x \<Longrightarrow> make (the_obj (encode x)) = Inr x"
    and reads_back: "read_args str d spec = Inr a \<Longrightarrow> make a = Inr x \<Longrightarrow> read_args str (the_obj (encode x)) spec = Inr (the_obj (encode x))"
    and encode_valid: "json_valid (JObj a) \<Longrightarrow> make a = Inr x \<Longrightarrow> json_valid (encode x)"
begin

definition decode :: "(json \<Rightarrow> string) \<Rightarrow> json \<Rightarrow> contract_error + 'r" where
  "decode str v = rbind (object_of v name) (\<lambda>d. rbind (read_args str d spec) make)"

lemma roundtrip:
  assumes "decode str v = Inr x"
  shows "decode str (encode x) = Inr x"
proof -
  from assms obtain d a where d: "json_valid (JObj d)" and a: "read_args str d spec = Inr a" and x: "make a = Inr x"
    by (auto simp: decode_def result_simps simp del: json_valid.simps)
  have "json_valid (encode x)" using encode_valid[OF read_args_valid[OF d spec_valid a] x] .
  then have "object_of (encode x) name = Inr (the_obj (encode x))" unfolding object_of_ok using encodes by simp
  with reads_back[OF a x] make_again[OF x] show ?thesis by (simp add: decode_def)
qed

end

lemma field_Cons [simp]: "field ((k, v) # d) k' = (if k = k' then v else field d k')" "field [] k' = JNull"
  by (simp_all add: field_def dict_get_def)

lemma dict_get_Cons [simp]: "dict_get ((k, v) # d) k' x = (if k = k' then v else dict_get d k' x)"
  by (simp add: dict_get_def)

lemma item_of_Cons [simp]: "item_of ((k, v) # d) k' = (if k = k' then Inr v else item_of d k')"
  by (simp add: item_of_def)

lemma json_valid_Cons: "json_valid (JObj ((k, v) # d)) \<longleftrightarrow> json_valid v \<and> json_valid (JObj d)" "json_valid (JObj [])"
  by simp_all

lemma json_valid_arg: "json_valid (JObj a) \<Longrightarrow> json_valid (field a k)"
  unfolding field_def by (rule json_valid_get) simp_all

lemma tuple_of_texts [simp]: "tuple_of (json_texts xs) = Inr (map JStr xs)"
  by (simp add: json_texts_def)

lemma object_valid: "object_of v n = Inr d \<Longrightarrow> json_valid (JObj d)"
  by (auto simp only: object_of_ok)

lemma task_kind_ok [result_simps]: "task_kind v = Inr k \<longleftrightarrow> v = JStr k \<and> k \<in> set TASK_KINDS"
  by (auto simp: task_kind_def split: json.splits if_splits)

lemma feedback_of_ok: "feedback_of v = Inr xs \<Longrightarrow> feedback_of (json_texts xs) = Inr xs"
proof -
  have "list_all2 (\<lambda>v s. text_within l v n = Inr s) vs xs \<Longrightarrow> list_all2 (\<lambda>v s. text_within l v n = Inr s) (map JStr xs) xs" for l n vs
    by (induction rule: list_all2_induct) (auto simp: text_of_ok)
  then show "feedback_of v = Inr xs \<Longrightarrow> ?thesis" by (auto simp: feedback_of_def rbind_Inr_iff map_result_ok)
qed

lemma text_opt_again:
  "unless_null (\<lambda>v. text_of b l v n) v = Inr x \<Longrightarrow> unless_null (\<lambda>v. text_of b l v n) (json_text_opt x) = Inr x"
  by (cases x) (auto simp: unless_null_ok text_of_ok json_text_opt_def)

lemma object_opt_again:
  "unless_null (\<lambda>v. object_of v n) v = Inr x \<Longrightarrow>
     unless_null (\<lambda>v. object_of v n) (case x of None \<Rightarrow> JNull | Some d \<Rightarrow> JObj d) = Inr x \<and>
     json_valid (case x of None \<Rightarrow> JNull | Some d \<Rightarrow> JObj d)"
  by (cases x) (auto simp: unless_null_ok object_of_ok simp del: json_valid.simps(3))

text \<open>The validators whose results are characterised by equations, without the optional ones.\<close>

lemmas checked = rbind_Inr_iff guard_Inr_iff text_of_ok texts_of_ok member_of_ok positive_int_ok task_kind_ok

interpretation mission_codec: record_codec mission_args make_Mission Mission_to_json "''mission''"
proof unfold_locales
  show "list_all (\<lambda>(k, kind). kind_valid kind) mission_args" by (simp add: mission_args_def kind_valid_def)
  show "Mission_to_json x = JObj (the_obj (Mission_to_json x))" for x by (simp add: Mission_to_json_def)
  fix a x assume x: "make_Mission a = Inr x"
  then show "make_Mission (the_obj (Mission_to_json x)) = Inr x"
    by (clarsimp simp: make_Mission_def Mission_to_json_def checked mission_enum.decode_iff Budget_roundtrip text_opt_again object_opt_again)
  from x show "read_args str (the_obj (Mission_to_json x)) mission_args = Inr (the_obj (Mission_to_json x))" for str
    by (clarsimp simp: read_args_def mission_args_def make_Mission_def Mission_to_json_def checked Budget_roundtrip json_texts_def)
  from x show "json_valid (Mission_to_json x)" if "json_valid (JObj a)"
    using json_valid_arg[OF that] by (clarsimp simp: make_Mission_def Mission_to_json_def checked object_opt_again)
qed

interpretation task_codec: record_codec task_args make_Task Task_to_json "''task''"
proof unfold_locales
  show "list_all (\<lambda>(k, kind). kind_valid kind) task_args" by (simp add: task_args_def kind_valid_def)
  show "Task_to_json x = JObj (the_obj (Task_to_json x))" for x by (simp add: Task_to_json_def)
  fix a x assume x: "make_Task a = Inr x"
  then show "make_Task (the_obj (Task_to_json x)) = Inr x"
    by (clarsimp simp: make_Task_def Task_to_json_def checked object_of_ok task_enum.decode_iff Budget_roundtrip number_of_again)
  from x show "read_args str (the_obj (Task_to_json x)) task_args = Inr (the_obj (Task_to_json x))" for str
    by (clarsimp simp: read_args_def task_args_def make_Task_def Task_to_json_def checked Budget_roundtrip json_texts_def
        or_default_def TASK_KINDS_def)
  from x show "json_valid (Task_to_json x)" if "json_valid (JObj a)"
    using json_valid_arg[OF that]
    by (clarsimp simp: make_Task_def Task_to_json_def checked json_valid_Cons simp del: json_valid.simps(3) dest!: object_valid)
qed

interpretation attempt_codec: record_codec attempt_args make_Attempt Attempt_to_json "''attempt''"
proof unfold_locales
  show "list_all (\<lambda>(k, kind). kind_valid kind) attempt_args" by (simp add: attempt_args_def kind_valid_def)
  show "Attempt_to_json x = JObj (the_obj (Attempt_to_json x))" for x by (simp add: Attempt_to_json_def)
  fix a x assume x: "make_Attempt a = Inr x"
  then show "make_Attempt (the_obj (Attempt_to_json x)) = Inr x"
    by (clarsimp simp: make_Attempt_def Attempt_to_json_def checked attempt_enum.decode_iff Budget_roundtrip feedback_of_ok object_opt_again)
  from x show "json_valid (Attempt_to_json x)" if "json_valid (JObj a)"
    using json_valid_arg[OF that] by (clarsimp simp: make_Attempt_def Attempt_to_json_def checked object_opt_again)
  fix str d assume "read_args str d attempt_args = Inr a"
  from read_args_text[OF this, of "''runtime_profile_id''" "JStr ''default''"]
  obtain s where "field a ''runtime_profile_id'' = JStr s" by (auto simp: attempt_args_def)
  with x show "read_args str (the_obj (Attempt_to_json x)) attempt_args = Inr (the_obj (Attempt_to_json x))"
    by (clarsimp simp: read_args_def attempt_args_def make_Attempt_def Attempt_to_json_def checked Budget_roundtrip json_texts_def)
qed

text \<open>Records to build concrete examples from.\<close>

definition blank_mission :: Mission where
  "blank_mission = \<lparr>ms_id = ''m'', ms_goal = ''g'', ms_success_criteria = [''file:a''], ms_stop_conditions = [], ms_allowed_tools = [],
     ms_risk_level = ''low'', ms_budget = no_budget, ms_tenant_id = ''t'', ms_status = M_CREATED, ms_created_at = JInt 0, ms_version = 1,
     ms_idempotency_key = ''k'', ms_stop_reason = None, ms_final_report = None\<rparr>"

definition blank_task :: Task where
  "blank_task = \<lparr>tk_id = ''t'', tk_mission_id = ''m'', tk_parent_task_ids = [], tk_dependency_ids = [], tk_goal = ''g'',
     tk_rationale = ''r'', tk_success_criteria = [''file:a''], tk_verification_policy = [''rule_check''], tk_allowed_tools = [],
     tk_budget = no_budget, tk_priority = 1, tk_status = T_READY, tk_version = 1, tk_root_goal = [], tk_created_at = JInt 0,
     tk_accepted_result_id = JNull, tk_accepted_artifacts = [], tk_attempt_count = 0, tk_failure_reason = JNull, tk_outputs = [],
     tk_kind = ''work'', tk_context = [], tk_ready_at = JNull, tk_paused = False, tk_pause_reason = JNull\<rparr>"

text \<open>C40. The stored control records are read back unchanged. Whatever decodes to a Mission, a Task or an
  Attempt is re-encoded to a document that decodes to the same record.\<close>

theorem control_records_roundtrip:
  "(Mission_from_json str v = Inr m \<longrightarrow> Mission_from_json str (Mission_to_json m) = Inr m) \<and>
   (Task_from_json str v = Inr t \<longrightarrow> Task_from_json str (Task_to_json t) = Inr t) \<and>
   (Attempt_from_json str v = Inr a \<longrightarrow> Attempt_from_json str (Attempt_to_json a) = Inr a)"
  unfolding Mission_from_json_def Task_from_json_def Attempt_from_json_def
    mission_codec.decode_def[symmetric] task_codec.decode_def[symmetric] attempt_codec.decode_def[symmetric]
  by (intro conjI impI mission_codec.roundtrip task_codec.roundtrip attempt_codec.roundtrip)

definition sample_task_doc :: "(string \<times> json) list" where
  "sample_task_doc =
     [(''id'', JStr ''t-1''), (''mission_id'', JStr ''m''), (''goal'', JStr ''g''), (''rationale'', JStr ''r''),
      (''success_criteria'', JList [JStr ''file:a'']), (''verification_policy'', JList [JStr ''rule_check'']),
      (''priority'', JFloat (PyFinite 2)), (''status'', JStr ''READY''), (''version'', JInt 1), (''kind'', JStr [])]"

lemma control_records_roundtrip_witness:
  "\<exists>t. Task_from_json (\<lambda>_. []) (JObj sample_task_doc) = Inr t \<and> tk_kind t = ''work'' \<and> tk_priority t = 2 \<and>
     Task_from_json (\<lambda>_. []) (Task_to_json t) = Inr t"
proof -
  have budget: "Budget_from_json (Budget_to_json no_budget) = Inr no_budget" by code_simp
  have args: "Task_from_json (\<lambda>_. []) (JObj sample_task_doc) =
      make_Task [(''id'', JStr ''t-1''), (''mission_id'', JStr ''m''), (''parent_task_ids'', JList []), (''dependency_ids'', JList []),
        (''goal'', JStr ''g''), (''rationale'', JStr ''r''), (''success_criteria'', JList [JStr ''file:a'']),
        (''verification_policy'', JList [JStr ''rule_check'']), (''allowed_tools'', JList []), (''budget'', Budget_to_json no_budget),
        (''priority'', JFloat (PyFinite 2)), (''status'', JStr ''READY''), (''version'', JInt 1), (''root_goal'', JStr []),
        (''created_at'', JFloat (PyFinite 0)), (''accepted_result_id'', JNull), (''accepted_artifacts'', JList []),
        (''attempt_count'', JInt 0), (''failure_reason'', JNull), (''outputs'', JList []), (''kind'', JStr ''work''),
        (''context'', JObj []), (''ready_at'', JNull), (''paused'', JBool False), (''pause_reason'', JNull)]"
    by (simp add: Task_from_json_def object_of_def sample_task_doc_def read_args_def task_args_def or_default_def
        Budget_from_json_def make_Budget_def optional_int_def no_budget_def)
  have "\<exists>t. Task_from_json (\<lambda>_. []) (JObj sample_task_doc) = Inr t \<and> tk_kind t = ''work'' \<and> tk_priority t = 2"
    unfolding args
    by (simp add: make_Task_def text_of_def texts_of_def strip_def is_space_def MAX_TEXT_def MAX_LIST_def VERIFICATION_LAYERS_def
        TASK_KINDS_def task_kind_def object_of_def number_of_def member_of_def enum_of_def all_TaskStatus_def positive_int_def
        budget)
  then show ?thesis using control_records_roundtrip[of "\<lambda>_. []" "JObj sample_task_doc"] by blast
qed

end
