(* ===== verification/Tail.thy ===== *)
theory Tail
  imports Ledger Contracts
begin

text \<open>
  Tail reservations on the account chain (\<open>governance/tail_budget.py\<close>): a hold keeps tokens, cost, tool calls and
  Attempts of a Task for the Critic, the conflict and the synthesis work that follows it; a transfer turns part of a hold
  into reservations of real subjects, a growth moves part of it to a Worker of the same account, a release gives
  the rest back. The tables \<open>budget_tail_holds\<close> and \<open>budget_tail_transfers\<close> are dictionaries keyed by their primary
  key, without the time columns; Tasks and Missions are read only. A request is compared through its canonical
  JSON text, which is equal exactly when the contents are: it is the record of the contents here. Of the
  commit receipts only those of growths are kept, so a growth under the id of another commit is not refused. As in \<open>Ledger\<close>, a call that raises changes nothing.
\<close>

section \<open>Amounts\<close>

record TailReserve =
  tr_tokens :: int
  tr_cost_micros :: int
  tr_tool_calls :: int
  tr_attempts :: int

definition make_TailReserve :: "int \<Rightarrow> int \<Rightarrow> int \<Rightarrow> int \<Rightarrow> ledger_error + TailReserve" where
  "make_TailReserve tokens cost calls attempts =
     (if tokens < 0 \<or> cost < 0 \<or> calls < 0 \<or> attempts < 0 then Inl (BudgetError ''tail amount must be nonnegative'')
      else Inr \<lparr>tr_tokens = tokens, tr_cost_micros = cost, tr_tool_calls = calls, tr_attempts = attempts\<rparr>)"

definition tail_text :: "string \<Rightarrow> ledger_error + unit" where
  "tail_text s = (if strip s = [] then Inl (BudgetError ''tail text must be nonempty'') else Inr ())"

record TailAllocation =
  al_subject_id :: string
  al_account_id :: string
  al_role :: string
  al_tokens :: int
  al_cost_micros :: int
  al_tool_calls :: int
  al_counts_attempt :: bool

definition check_TailAllocation :: "TailAllocation \<Rightarrow> ledger_error + unit" where
  "check_TailAllocation a =
     rbind (tail_text (al_subject_id a)) (\<lambda>_.
     rbind (tail_text (al_account_id a)) (\<lambda>_.
     if al_role a \<notin> {''critic'', ''conflict'', ''synthesis''} then Inl (BudgetError ''tail allocation role is not a protected role'')
     else
       rbind (make_TailReserve (al_tokens a) (al_cost_micros a) (al_tool_calls a) 0) (\<lambda>_.
       if al_counts_attempt a \<noteq> (al_role a \<noteq> ''critic'') then Inl (BudgetError ''every Attempt must count'') else Inr ())))"

section \<open>The tables\<close>

datatype HoldState = HELD | RELEASED

record HoldRequest =
  hr_hold_id :: string
  hr_account_id :: string
  hr_mission_id :: string
  hr_task_revision :: string
  hr_purpose :: string
  hr_reserve :: TailReserve

record TailHold =
  th_mission_id :: string
  th_account_id :: string
  th_subject_id :: string
  th_task_revision :: string
  th_purpose :: string
  th_request :: HoldRequest
  th_remaining_attempts :: int
  th_state :: HoldState
  th_release_reason :: "string option"

record TransferRequest =
  tq_hold_id :: string
  tq_transfer_id :: string
  tq_task_revision :: string
  tq_allocations :: "TailAllocation list"

record TransferReceipt =
  tp_request :: TransferRequest
  tp_reservations :: "string list"

record tail_store =
  ts_ledger :: Ledger
  ts_tasks :: "(string \<times> Task) list"
  ts_missions :: "(string \<times> Mission) list"
  ts_holds :: "(string \<times> TailHold) list"
  ts_transfers :: "((string \<times> string) \<times> TransferReceipt) list"
  ts_growths :: "string list"

definition tail_account :: "tail_store \<Rightarrow> string \<Rightarrow> string \<Rightarrow> ledger_error + Task" where
  "tail_account S account_id mission_id =
     rbind (account (ts_ledger S) account_id) (\<lambda>a.
     if ac_mission_id a \<noteq> mission_id \<or> ac_scope a \<noteq> ''task'' then Inl (BudgetError ''tail must stay on a real Task'')
     else
       case map_of (ts_tasks S) (removeprefix ''budget:'' account_id) of
         None \<Rightarrow> Inl (BudgetError ''tail Task account has no matching Task'')
       | Some t \<Rightarrow>
           if tk_mission_id t \<noteq> mission_id then Inl (BudgetError ''tail Task account has no matching Task'')
           else
             case map_of (ts_missions S) mission_id of
               None \<Rightarrow> Inl (BudgetError ''tail Mission is terminal'')
             | Some m \<Rightarrow>
                 if ms_status m \<in> set TERMINAL_MISSION then Inl (BudgetError ''tail Mission is terminal'')
                 else if tk_status t \<in> set TERMINAL_TASK then Inl (BudgetError ''tail Task is terminal'')
                 else Inr t)"

section \<open>Holding\<close>

definition check_attempts :: "int \<Rightarrow> string \<times> AccountSnapshot \<Rightarrow> ledger_error + unit" where
  "check_attempts n ia =
     (if exceeds n (remaining_attempts (snd ia))
      then Inl (BudgetExhausted (fst ia) ''attempts'' n (the (remaining_attempts (snd ia)))) else Inr ())"

definition hold_attempts :: "int \<Rightarrow> string \<Rightarrow> Ledger \<Rightarrow> ledger_error + Ledger" where
  "hold_attempts n acc L =
     rbind (chain L acc) (\<lambda>ch.
     if n = 0 then Inr L else apply_chain ch (\<lambda>a. a\<lparr>ac_reserved_attempts := ac_reserved_attempts a + n\<rparr>) L)"

definition reserve_tail ::
  "bool \<Rightarrow> tail_store \<Rightarrow> string \<Rightarrow> string \<Rightarrow> TailReserve \<Rightarrow> string \<Rightarrow> string \<Rightarrow> string \<Rightarrow> ledger_error + (TailHold \<times> tail_store)" where
  "reserve_tail in_transaction S hold_id acc res mission revision purpose =
     (if \<not> in_transaction then Inl (BudgetError ''tail mutation requires a Commit transaction'')
      else
        rbind (tail_text hold_id) (\<lambda>_.
        rbind (tail_text revision) (\<lambda>_.
        if purpose \<notin> {''selection'', ''critic'', ''conflict'', ''synthesis''} then Inl (BudgetError ''unknown tail purpose'')
        else
          let request = \<lparr>hr_hold_id = hold_id, hr_account_id = acc, hr_mission_id = mission, hr_task_revision = revision,
                hr_purpose = purpose, hr_reserve = res\<rparr> in
          case map_of (ts_holds S) hold_id of
            Some prior \<Rightarrow>
              if th_request prior \<noteq> request then Inl (BudgetError ''tail reserve replay changed its frozen contract'')
              else Inr (prior, S)
          | None \<Rightarrow>
              rbind (tail_account S acc mission) (\<lambda>_.
              rbind (chain (ts_ledger S) acc) (\<lambda>ch.
              rbind (for_each (check_attempts (tr_attempts res)) ch) (\<lambda>_.
              let subject = ''tail:'' @ hold_id in
              if reservation (ts_ledger S) subject \<noteq> None then Inl (BudgetError ''tail subject already belongs to another reservation'')
              else
                rbind (reserve (ts_ledger S) acc subject (tr_tokens res) (tr_cost_micros res) False (tr_tool_calls res) (Some mission)) (\<lambda>(rid, L).
                rbind (hold_attempts (tr_attempts res) acc L) (\<lambda>L.
                let hold = \<lparr>th_mission_id = mission, th_account_id = acc, th_subject_id = subject, th_task_revision = revision,
                      th_purpose = purpose, th_request = request, th_remaining_attempts = tr_attempts res,
                      th_state = HELD, th_release_reason = None\<rparr> in
                Inr (hold, S\<lparr>ts_ledger := L, ts_holds := dict_set hold_id hold (ts_holds S)\<rparr>)))))))))"

definition reserve_selection_tail ::
  "bool \<Rightarrow> tail_store \<Rightarrow> string \<Rightarrow> string \<Rightarrow> TailReserve \<Rightarrow> string \<Rightarrow> string \<Rightarrow> ledger_error + (TailHold \<times> tail_store)" where
  "reserve_selection_tail in_transaction S round_id acc res mission revision =
     (if tr_attempts res < 1 then Inl (BudgetError ''selection tail must protect at least one real synthesis Attempt'')
      else reserve_tail in_transaction S round_id acc res mission revision ''selection'')"

section \<open>Transfers\<close>

record amounts =
  am_tokens :: int
  am_cost_micros :: int
  am_tool_calls :: int
  am_attempts :: int

definition no_amounts :: amounts where
  "no_amounts = \<lparr>am_tokens = 0, am_cost_micros = 0, am_tool_calls = 0, am_attempts = 0\<rparr>"

definition plus_amounts :: "amounts \<Rightarrow> amounts \<Rightarrow> amounts" where
  "plus_amounts x y = \<lparr>am_tokens = am_tokens x + am_tokens y, am_cost_micros = am_cost_micros x + am_cost_micros y,
     am_tool_calls = am_tool_calls x + am_tool_calls y, am_attempts = am_attempts x + am_attempts y\<rparr>"

definition minus_amounts :: "amounts \<Rightarrow> amounts" where
  "minus_amounts x = \<lparr>am_tokens = - am_tokens x, am_cost_micros = - am_cost_micros x,
     am_tool_calls = - am_tool_calls x, am_attempts = - am_attempts x\<rparr>"

definition amounts_of :: "TailAllocation \<Rightarrow> amounts" where
  "amounts_of a = \<lparr>am_tokens = al_tokens a, am_cost_micros = al_cost_micros a, am_tool_calls = al_tool_calls a,
     am_attempts = (if al_counts_attempt a then 1 else 0)\<rparr>"

definition total_amounts :: "TailAllocation list \<Rightarrow> amounts" where
  "total_amounts as = foldr (\<lambda>a. plus_amounts (amounts_of a)) as no_amounts"

type_synonym deltas = "(string \<times> amounts) list"

definition add_deltas :: "(string \<times> AccountSnapshot) list \<Rightarrow> amounts \<Rightarrow> deltas \<Rightarrow> deltas" where
  "add_deltas ch x ds = fold (\<lambda>ia d. dict_set (fst ia) (plus_amounts (dict_get d (fst ia) no_amounts) x) d) ch ds"

definition allowed_roles :: "string \<Rightarrow> string list" where
  "allowed_roles purpose =
     (if purpose = ''selection'' then [''synthesis'', ''critic'']
      else if purpose = ''critic'' then [''critic'']
      else if purpose = ''conflict'' then [''conflict'', ''critic'']
      else [''synthesis'', ''critic''])"

definition check_allocation ::
  "tail_store \<Rightarrow> TailHold \<Rightarrow> Task \<Rightarrow> TailAllocation \<Rightarrow> deltas \<Rightarrow> ledger_error + deltas" where
  "check_allocation S hold origin a ds =
     (if reservation (ts_ledger S) (al_subject_id a) \<noteq> None then Inl (BudgetError ''tail destination already has a reservation'')
      else
        rbind (tail_account S (al_account_id a) (th_mission_id hold)) (\<lambda>target.
        if al_account_id a \<noteq> th_account_id hold \<and>
           (tk_kind target \<notin> {''conflict'', ''synthesis''} \<or> (al_role a \<noteq> ''critic'' \<and> tk_kind target \<noteq> al_role a) \<or>
            tk_id origin \<notin> set (tk_parent_task_ids target @ tk_dependency_ids target))
        then Inl (BudgetError ''tail cannot be diverted to an unrelated Task'')
        else if al_role a \<notin> set (allowed_roles (th_purpose hold)) then Inl (BudgetError ''tail allocation changed its protected purpose'')
        else rbind (chain (ts_ledger S) (al_account_id a)) (\<lambda>ch. Inr (add_deltas ch (amounts_of a) ds))))"

fun check_allocations ::
  "tail_store \<Rightarrow> TailHold \<Rightarrow> Task \<Rightarrow> TailAllocation list \<Rightarrow> deltas \<Rightarrow> ledger_error + deltas" where
  "check_allocations S hold origin [] ds = Inr ds"
| "check_allocations S hold origin (a # as) ds = rbind (check_allocation S hold origin a ds) (check_allocations S hold origin as)"

definition over :: "string \<Rightarrow> string \<Rightarrow> int \<Rightarrow> int option \<Rightarrow> ledger_error + unit" where
  "over i what amount remaining = (if exceeds amount remaining then Inl (BudgetExhausted i what amount (the remaining)) else Inr ())"

definition check_delta :: "Ledger \<Rightarrow> string \<times> amounts \<Rightarrow> ledger_error + unit" where
  "check_delta L ix =
     rbind (account L (fst ix)) (\<lambda>a.
     rbind (over (fst ix) ''tokens'' (am_tokens (snd ix)) (remaining_tokens a)) (\<lambda>_.
     rbind (over (fst ix) ''cost_micros'' (am_cost_micros (snd ix)) (remaining_cost_micros a)) (\<lambda>_.
     rbind (over (fst ix) ''tool_calls'' (am_tool_calls (snd ix)) (remaining_tool_calls a)) (\<lambda>_.
     over (fst ix) ''attempts'' (am_attempts (snd ix)) (remaining_attempts a)))))"

definition live_hold :: "tail_store \<Rightarrow> string \<Rightarrow> string \<Rightarrow> ledger_error + (TailHold \<times> Task \<times> Reservation)" where
  "live_hold S hold_id revision =
     (case map_of (ts_holds S) hold_id of
        None \<Rightarrow> Inl (BudgetError ''tail hold missing'')
      | Some hold \<Rightarrow>
          if th_state hold \<noteq> HELD \<or> th_task_revision hold \<noteq> revision then Inl (BudgetError ''tail hold released or bound to another Task revision'')
          else
            rbind (tail_account S (th_account_id hold) (th_mission_id hold)) (\<lambda>origin.
            case reservation (ts_ledger S) (th_subject_id hold) of
              None \<Rightarrow> Inl (BudgetError ''tail reservation is not live'')
            | Some r \<Rightarrow>
                if rv_state r \<noteq> RESERVED then Inl (BudgetError ''tail reservation is not live'')
                else if has_unknown_usage (ts_ledger S) (th_subject_id hold) \<or> fst (usage_for (ts_ledger S) (th_subject_id hold)) \<noteq> 0
                then Inl (BudgetError ''tail is not an unused hold'')
                else Inr (hold, origin, r)))"

text \<open>Everything \<open>transfer_tail\<close> checks before its first write.\<close>

definition transfer_preflight ::
  "tail_store \<Rightarrow> string \<Rightarrow> string \<Rightarrow> TailAllocation list \<Rightarrow> ledger_error + (TailHold \<times> Reservation)" where
  "transfer_preflight S hold_id revision ordered =
     rbind (live_hold S hold_id revision) (\<lambda>(hold, origin, r).
     let totals = total_amounts ordered; acc = th_account_id hold in
     rbind (over acc ''attempts'' (am_attempts totals) (Some (th_remaining_attempts hold))) (\<lambda>_.
     rbind (over acc ''tokens'' (am_tokens totals) (Some (rv_reserved_tokens r))) (\<lambda>_.
     rbind (over acc ''cost_micros'' (am_cost_micros totals) (Some (rv_reserved_cost_micros r))) (\<lambda>_.
     rbind (over acc ''tool_calls'' (am_tool_calls totals) (Some (rv_reserved_tool_calls r))) (\<lambda>_.
     rbind (chain (ts_ledger S) acc) (\<lambda>ch.
     rbind (check_allocations S hold origin ordered (add_deltas ch (minus_amounts totals) [])) (\<lambda>ds.
     rbind (for_each (check_delta (ts_ledger S)) ds) (\<lambda>_. Inr (hold, r)))))))))"

definition take_from_hold :: "Ledger \<Rightarrow> TailHold \<Rightarrow> Reservation \<Rightarrow> amounts \<Rightarrow> ledger_error + Ledger" where
  "take_from_hold L hold r x =
     rbind (chain L (th_account_id hold)) (\<lambda>ch.
     rbind (apply_chain ch (\<lambda>a. a\<lparr>
         ac_reserved_tokens := ac_reserved_tokens a + - am_tokens x,
         ac_reserved_cost_micros := ac_reserved_cost_micros a + - am_cost_micros x,
         ac_reserved_tool_calls := ac_reserved_tool_calls a + - am_tool_calls x,
         ac_reserved_attempts := ac_reserved_attempts a + - am_attempts x\<rparr>) L) (\<lambda>L.
     Inr (L\<lparr>lg_reservations := dict_set (th_subject_id hold)
       (r\<lparr>rv_reserved_tokens := rv_reserved_tokens r - am_tokens x,
          rv_reserved_cost_micros := rv_reserved_cost_micros r - am_cost_micros x,
          rv_reserved_tool_calls := rv_reserved_tool_calls r - am_tool_calls x\<rparr>) (lg_reservations L)\<rparr>)))"

fun reserve_all :: "string \<Rightarrow> TailAllocation list \<Rightarrow> Ledger \<Rightarrow> ledger_error + (string list \<times> Ledger)" where
  "reserve_all mission [] L = Inr ([], L)"
| "reserve_all mission (a # as) L =
     rbind (reserve L (al_account_id a) (al_subject_id a) (al_tokens a) (al_cost_micros a) (al_counts_attempt a)
       (al_tool_calls a) (Some mission)) (\<lambda>(rid, L).
     rbind (reserve_all mission as L) (\<lambda>(rids, L). Inr (rid # rids, L)))"

definition transfer_tail ::
  "bool \<Rightarrow> tail_store \<Rightarrow> string \<Rightarrow> string \<Rightarrow> TailAllocation list \<Rightarrow> string \<Rightarrow> ledger_error + (TransferReceipt \<times> tail_store)" where
  "transfer_tail in_transaction S hold_id transfer_id allocations revision =
     (if \<not> in_transaction then Inl (BudgetError ''tail mutation requires a Commit transaction'')
      else
        rbind (tail_text transfer_id) (\<lambda>_.
        if allocations = [] \<or> \<not> distinct (map al_subject_id allocations)
        then Inl (BudgetError ''tail transfer requires distinct actual subjects'')
        else
          let ordered = sort_key al_subject_id allocations;
              request = \<lparr>tq_hold_id = hold_id, tq_transfer_id = transfer_id, tq_task_revision = revision, tq_allocations = ordered\<rparr> in
          case map_of (ts_transfers S) (hold_id, transfer_id) of
            Some prior \<Rightarrow>
              if tp_request prior \<noteq> request then Inl (BudgetError ''tail transfer replay changed allocations'') else Inr (prior, S)
          | None \<Rightarrow>
              rbind (transfer_preflight S hold_id revision ordered) (\<lambda>(hold, r).
              let totals = total_amounts ordered in
              rbind (take_from_hold (ts_ledger S) hold r totals) (\<lambda>L.
              let holds = dict_set hold_id (hold\<lparr>th_remaining_attempts := th_remaining_attempts hold - am_attempts totals\<rparr>) (ts_holds S) in
              rbind (reserve_all (th_mission_id hold) ordered L) (\<lambda>(rids, L).
              let receipt = \<lparr>tp_request = request, tp_reservations = rids\<rparr> in
              Inr (receipt, S\<lparr>ts_ledger := L, ts_holds := holds,
                ts_transfers := dict_set (hold_id, transfer_id) receipt (ts_transfers S)\<rparr>))))))"

definition transfer_selection_reserve ::
  "bool \<Rightarrow> tail_store \<Rightarrow> string \<Rightarrow> string \<Rightarrow> TailAllocation list \<Rightarrow> string \<Rightarrow> ledger_error + (TransferReceipt \<times> tail_store)" where
  "transfer_selection_reserve in_transaction S round_id attempt_subject allocations revision =
     (if \<not> (\<exists>a\<in>set allocations. al_subject_id a = attempt_subject \<and> al_counts_attempt a)
      then Inl (BudgetError ''selection transfer must include its real synthesis Attempt'')
      else transfer_tail in_transaction S round_id attempt_subject allocations revision)"

section \<open>Growth and release\<close>

definition growth_key :: "string \<Rightarrow> string \<Rightarrow> int \<Rightarrow> int \<Rightarrow> string" where
  "growth_key hold_id subject tokens cost =
     ''growth:'' @ hold_id @ '':'' @ subject @ '':'' @ decimal tokens @ '':'' @ decimal cost"

definition growth_target :: "tail_store \<Rightarrow> string \<Rightarrow> TailHold \<Rightarrow> string \<Rightarrow> ledger_error + (Reservation \<times> Reservation)" where
  "growth_target S hold_id hold subject =
     (case (reservation (ts_ledger S) (th_subject_id hold), reservation (ts_ledger S) subject) of
        (Some source, Some target) \<Rightarrow>
          if rv_state source \<noteq> RESERVED \<or> rv_state target \<noteq> RESERVED \<or> rv_account_id target \<noteq> th_account_id hold \<or>
             rv_mission_id target \<noteq> th_mission_id hold \<or> subject = th_subject_id hold
          then Inl (BudgetError ''system growth destination is not its original live reservation'')
          else
            let allocations = (case map_of (ts_transfers S) (hold_id, subject) of
                  None \<Rightarrow> [] | Some receipt \<Rightarrow> tq_allocations (tp_request receipt)) in
            if \<not> (\<exists>a\<in>set allocations. al_subject_id a = subject \<and> al_account_id a = th_account_id hold \<and>
                  al_role a = th_purpose hold \<and> al_counts_attempt a)
            then Inl (BudgetError ''system growth has no original Worker transfer receipt'')
            else if has_unknown_usage (ts_ledger S) subject \<or> has_unknown_usage (ts_ledger S) (th_subject_id hold) \<or>
                fst (usage_for (ts_ledger S) (th_subject_id hold)) \<noteq> 0
            then Inl (BudgetError ''system growth cannot move unresolved or spent allowance'')
            else Inr (source, target)
      | _ \<Rightarrow> Inl (BudgetError ''system growth destination is not its original live reservation''))"

definition check_solvent :: "string \<times> AccountSnapshot \<Rightarrow> ledger_error + unit" where
  "check_solvent ia =
     rbind (over (fst ia) ''tokens'' 0 (remaining_tokens (snd ia))) (\<lambda>_.
     over (fst ia) ''cost_micros'' 0 (remaining_cost_micros (snd ia)))"

definition grown :: "Ledger \<Rightarrow> TailHold \<Rightarrow> Reservation \<Rightarrow> Reservation \<Rightarrow> string \<Rightarrow> int \<Rightarrow> int \<Rightarrow> Ledger" where
  "grown L hold source target subject tokens cost =
     L\<lparr>lg_reservations := dict_set subject (target\<lparr>rv_reserved_tokens := tokens, rv_reserved_cost_micros := cost\<rparr>)
       (dict_set (th_subject_id hold)
         (source\<lparr>rv_reserved_tokens := rv_reserved_tokens source - (tokens - rv_reserved_tokens target),
                 rv_reserved_cost_micros := rv_reserved_cost_micros source - (cost - rv_reserved_cost_micros target)\<rparr>)
         (lg_reservations L))\<rparr>"

definition grow_tail_allocation ::
  "bool \<Rightarrow> tail_store \<Rightarrow> string \<Rightarrow> string \<Rightarrow> string \<Rightarrow> int \<Rightarrow> int \<Rightarrow> TailReserve \<Rightarrow> ledger_error + tail_store" where
  "grow_tail_allocation in_transaction S hold_id subject revision tokens cost minimum =
     (if \<not> in_transaction then Inl (BudgetError ''tail mutation requires a Commit transaction'')
      else
        rbind (make_TailReserve tokens cost 0 0) (\<lambda>_.
        case map_of (ts_holds S) hold_id of
          None \<Rightarrow> Inl (BudgetError ''system growth requires its original live Task hold'')
        | Some hold \<Rightarrow>
            if th_state hold \<noteq> HELD \<or> th_task_revision hold \<noteq> revision \<or> th_purpose hold \<notin> {''synthesis'', ''conflict''}
            then Inl (BudgetError ''system growth requires its original live Task hold'')
            else
              rbind (tail_account S (th_account_id hold) (th_mission_id hold)) (\<lambda>_.
              rbind (growth_target S hold_id hold subject) (\<lambda>(source, target).
              let t_tokens = max tokens (rv_reserved_tokens target); t_cost = max cost (rv_reserved_cost_micros target);
                  d_tokens = t_tokens - rv_reserved_tokens target; d_cost = t_cost - rv_reserved_cost_micros target;
                  acc = th_account_id hold; key = growth_key hold_id subject t_tokens t_cost in
              if d_tokens = 0 \<and> d_cost = 0 then Inr S
              else
                rbind (over acc ''tokens'' d_tokens (Some (max 0 (rv_reserved_tokens source - tr_tokens minimum)))) (\<lambda>_.
                rbind (over acc ''cost_micros'' d_cost (Some (max 0 (rv_reserved_cost_micros source - tr_cost_micros minimum)))) (\<lambda>_.
                rbind (chain (ts_ledger S) acc) (\<lambda>ch.
                rbind (for_each check_solvent ch) (\<lambda>_.
                if key \<in> set (ts_growths S) then Inl (BudgetError ''system growth receipt conflicts with current reservation'')
                else
                  Inr (S\<lparr>ts_ledger := grown (ts_ledger S) hold source target subject t_tokens t_cost, ts_growths := key # ts_growths S\<rparr>)))))))))"

definition release_tail ::
  "bool \<Rightarrow> tail_store \<Rightarrow> string \<Rightarrow> string \<Rightarrow> string \<Rightarrow> ledger_error + (Reservation \<times> tail_store)" where
  "release_tail in_transaction S hold_id revision reason =
     (if \<not> in_transaction then Inl (BudgetError ''tail mutation requires a Commit transaction'')
      else
        rbind (tail_text reason) (\<lambda>_.
        case map_of (ts_holds S) hold_id of
          None \<Rightarrow> Inl (BudgetError ''tail release identity differs'')
        | Some hold \<Rightarrow>
            if th_task_revision hold \<noteq> revision then Inl (BudgetError ''tail release identity differs'')
            else if th_state hold = RELEASED then
              if th_release_reason hold \<noteq> Some reason then Inl (BudgetError ''tail release replay changed reason'')
              else (case reservation (ts_ledger S) (th_subject_id hold) of
                      None \<Rightarrow> Inl (BudgetError ''AssertionError'') | Some r \<Rightarrow> Inr (r, S))
            else
              rbind (settle (ts_ledger S) (th_subject_id hold) 0) (\<lambda>(r, L).
              rbind (hold_attempts (- th_remaining_attempts hold) (th_account_id hold) L) (\<lambda>L.
              Inr (r, S\<lparr>ts_ledger := L, ts_holds := dict_set hold_id (hold\<lparr>th_state := RELEASED, th_remaining_attempts := 0,
                th_release_reason := Some reason\<rparr>) (ts_holds S)\<rparr>)))))"

end
