(* ===== verification/Ledger_Correct.thy ===== *)
theory Ledger_Correct
  imports Ledger
begin

text \<open>
  Conservation in the budget ledger. \<open>under\<close> is the account tree as a relation; \<open>ledger_inv\<close> says
  that every account's reserved and settled columns are the sums over the reservations below it.
  The properties hold for every ledger reachable from the empty one by the ledger's operations.
\<close>

section \<open>The account tree\<close>

type_synonym accounts = "(string \<times> AccountSnapshot) list"

inductive under :: "accounts \<Rightarrow> string \<Rightarrow> string \<Rightarrow> bool" for accs where
  self: "map_of accs i = Some a \<Longrightarrow> under accs i i"
| up: "map_of accs i = Some a \<Longrightarrow> ac_parent_id a = Some p \<Longrightarrow> under accs p k \<Longrightarrow> under accs i k"

definition wf_accounts :: "accounts \<Rightarrow> bool" where
  "wf_accounts accs \<longleftrightarrow> distinct (dict_keys accs) \<and>
     (\<exists>rank :: string \<Rightarrow> nat. \<forall>i a. map_of accs i = Some a \<longrightarrow> rank i < length accs \<and>
        (\<forall>p. ac_parent_id a = Some p \<longrightarrow> map_of accs p \<noteq> None \<and> rank p < rank i))"

definition parents :: "accounts \<Rightarrow> string \<Rightarrow> string option option" where
  "parents accs i = map_option ac_parent_id (map_of accs i)"

lemma under_parents_imp: "under accs i k \<Longrightarrow> parents accs = parents accs' \<Longrightarrow> under accs' i k"
proof (induction rule: under.induct)
  case (self i a)
  then have "parents accs' i = Some (ac_parent_id a)" by (metis map_option_eq_Some parents_def)
  then show ?case by (auto simp: parents_def intro: under.self)
next
  case (up i a p k)
  then have "parents accs' i = Some (Some p)" by (metis map_option_eq_Some parents_def)
  then obtain a' where "map_of accs' i = Some a'" "ac_parent_id a' = Some p" by (auto simp: parents_def)
  with up show ?case by (auto intro: under.up)
qed

lemma under_parents: "parents accs = parents accs' \<Longrightarrow> under accs i k \<longleftrightarrow> under accs' i k"
  using under_parents_imp by metis

lemma under_unfold:
  "map_of accs i = Some a \<Longrightarrow>
     under accs i k \<longleftrightarrow> k = i \<or> (\<exists>p. ac_parent_id a = Some p \<and> under accs p k)"
  by (auto intro: under.intros elim: under.cases)

lemma under_rank:
  assumes "under accs i k"
    and "\<forall>i a. map_of accs i = Some a \<longrightarrow> rank i < n \<and>
      (\<forall>p. ac_parent_id a = Some p \<longrightarrow> map_of accs p \<noteq> None \<and> rank p < (rank i :: nat))"
  shows "k = i \<or> rank k < rank i"
  using assms(1) by (induction rule: under.induct) (use assms(2) in fastforce)+

lemma chain_fuel_result:
  assumes rank: "\<forall>i a. map_of (lg_accounts L) i = Some a \<longrightarrow> rank i < N \<and>
      (\<forall>p. ac_parent_id a = Some p \<longrightarrow> map_of (lg_accounts L) p \<noteq> None \<and> rank p < (rank i :: nat))"
    and "map_of (lg_accounts L) i = Some a" and "rank i < n"
  shows "\<exists>ch. chain_fuel n L (Some i) = Inr ch \<and> set (map fst ch) = {k. under (lg_accounts L) i k} \<and>
    distinct (map fst ch) \<and> (\<forall>(k, b)\<in>set ch. map_of (lg_accounts L) k = Some b)"
  using assms(2,3)
proof (induction n arbitrary: i a)
  case (Suc n)
  note i = Suc.prems(1)
  have acc: "account L i = Inr a" using i by (simp add: account_def)
  show ?case
  proof (cases "ac_parent_id a")
    case None
    with acc i under_unfold[OF i] show ?thesis by auto
  next
    case (Some p)
    with rank i obtain pa where pa: "map_of (lg_accounts L) p = Some pa" "rank p < rank i" by blast
    with Suc.IH[OF pa(1)] Suc.prems(2) obtain ch where ch: "chain_fuel n L (Some p) = Inr ch"
      "set (map fst ch) = {k. under (lg_accounts L) p k}" "distinct (map fst ch)"
      "\<forall>(k, b)\<in>set ch. map_of (lg_accounts L) k = Some b" by auto
    have "i \<notin> set (map fst ch)"
      using ch(2) under_rank[OF _ rank, of p i] pa(2) by auto
    moreover have "set (map fst ((i, a) # ch)) = {k. under (lg_accounts L) i k}"
      using under_unfold[OF i] Some ch(2) by auto
    ultimately show ?thesis using ch acc Some i by (intro exI[of _ "(i, a) # ch"]) auto
  qed
qed simp

lemma chain_returns:
  assumes "wf_accounts (lg_accounts L)" and "map_of (lg_accounts L) i = Some a"
  shows "\<exists>ch. chain L i = Inr ch \<and> set (map fst ch) = {k. under (lg_accounts L) i k} \<and>
    distinct (map fst ch) \<and> (\<forall>(k, b)\<in>set ch. map_of (lg_accounts L) k = Some b)"
proof -
  from assms(1) obtain rank :: "string \<Rightarrow> nat" where rank:
    "\<forall>i a. map_of (lg_accounts L) i = Some a \<longrightarrow> rank i < length (lg_accounts L) \<and>
      (\<forall>p. ac_parent_id a = Some p \<longrightarrow> map_of (lg_accounts L) p \<noteq> None \<and> rank p < rank i)"
    unfolding wf_accounts_def by blast
  show ?thesis unfolding chain_def
    by (rule chain_fuel_result[OF rank assms(2)]) (use rank assms(2) in \<open>meson less_SucI\<close>)
qed

lemma chain_unknown: "map_of (lg_accounts L) i = None \<Longrightarrow> chain L i = Inl (BudgetError ''unknown budget account'')"
  by (simp add: chain_def account_def)

section \<open>Updating a chain\<close>

lemma apply_chain_result:
  assumes "distinct (map fst ch)" and "\<forall>(k, b)\<in>set ch. map_of (lg_accounts L) k \<noteq> None"
  shows "\<exists>L'. apply_chain ch f L = Inr L' \<and> dict_keys (lg_accounts L') = dict_keys (lg_accounts L) \<and>
    (\<forall>k. map_of (lg_accounts L') k =
       (if k \<in> set (map fst ch) then map_option (\<lambda>a. (f a)\<lparr>ac_version := ac_version a + 1\<rparr>) (map_of (lg_accounts L) k)
        else map_of (lg_accounts L) k)) \<and>
    lg_reservations L' = lg_reservations L \<and> lg_usage L' = lg_usage L \<and> lg_grants L' = lg_grants L"
  using assms
proof (induction ch arbitrary: L)
  case (Cons x ch)
  obtain i b where x: "x = (i, b)" by (cases x)
  with Cons.prems(2) obtain a where a: "map_of (lg_accounts L) i = Some a" by auto
  let ?L = "L\<lparr>lg_accounts := dict_set i ((f a)\<lparr>ac_version := ac_version a + 1\<rparr>) (lg_accounts L)\<rparr>"
  have keys: "dict_keys (lg_accounts ?L) = dict_keys (lg_accounts L)"
  proof -
    have "i \<in> set (dict_keys (lg_accounts L))" using a by (metis list.set_map map_of_eq_None_iff option.distinct(1))
    then show ?thesis by (simp add: update_keys)
  qed
  have "\<exists>L'. apply_chain ch f ?L = Inr L' \<and> dict_keys (lg_accounts L') = dict_keys (lg_accounts ?L) \<and>
    (\<forall>k. map_of (lg_accounts L') k =
       (if k \<in> set (map fst ch) then map_option (\<lambda>a. (f a)\<lparr>ac_version := ac_version a + 1\<rparr>) (map_of (lg_accounts ?L) k)
        else map_of (lg_accounts ?L) k)) \<and>
    lg_reservations L' = lg_reservations ?L \<and> lg_usage L' = lg_usage ?L \<and> lg_grants L' = lg_grants ?L"
    by (rule Cons.IH) (use Cons.prems in auto)
  with a x keys Cons.prems(1) show ?case by (auto simp: apply_delta_def)
qed simp

section \<open>The invariant\<close>

datatype dimension = D_tokens | D_cost | D_calls

fun reserved_dim :: "dimension \<Rightarrow> AccountSnapshot \<Rightarrow> int" where
  "reserved_dim D_tokens a = ac_reserved_tokens a"
| "reserved_dim D_cost a = ac_reserved_cost_micros a"
| "reserved_dim D_calls a = ac_reserved_tool_calls a"

fun settled_dim :: "dimension \<Rightarrow> AccountSnapshot \<Rightarrow> int" where
  "settled_dim D_tokens a = ac_settled_tokens a"
| "settled_dim D_cost a = ac_settled_cost_micros a"
| "settled_dim D_calls a = ac_settled_tool_calls a"

fun held_dim :: "dimension \<Rightarrow> Reservation \<Rightarrow> int" where
  "held_dim D_tokens r = rv_reserved_tokens r"
| "held_dim D_cost r = rv_reserved_cost_micros r"
| "held_dim D_calls r = rv_reserved_tool_calls r"

fun charged_dim :: "dimension \<Rightarrow> Reservation \<Rightarrow> int" where
  "charged_dim D_tokens r = (case rv_settled_tokens r of None \<Rightarrow> 0 | Some n \<Rightarrow> n)"
| "charged_dim D_cost r = (case rv_settled_cost_micros r of None \<Rightarrow> 0 | Some n \<Rightarrow> n)"
| "charged_dim D_calls r = rv_settled_tool_calls r"

text \<open>What one reservation contributes to the reserved and to the settled column of the accounts
  above it.\<close>

definition live_part :: "dimension \<Rightarrow> Reservation \<Rightarrow> int" where
  "live_part d r = (if rv_state r = RESERVED then held_dim d r else 0)"

definition settled_part :: "dimension \<Rightarrow> Reservation \<Rightarrow> int" where
  "settled_part d r = (if rv_state r = SETTLED then charged_dim d r else 0)"

definition total_below ::
  "(Reservation \<Rightarrow> int) \<Rightarrow> accounts \<Rightarrow> (string \<times> Reservation) list \<Rightarrow> string \<Rightarrow> int" where
  "total_below part accs rs k =
     sum_list (map (\<lambda>(s, r). if under accs (rv_account_id r) k then part r else 0) rs)"

definition ledger_inv :: "Ledger \<Rightarrow> bool" where
  "ledger_inv L \<longleftrightarrow> wf_accounts (lg_accounts L) \<and> distinct (dict_keys (lg_reservations L)) \<and>
     (\<forall>s r. map_of (lg_reservations L) s = Some r \<longrightarrow> map_of (lg_accounts L) (rv_account_id r) \<noteq> None) \<and>
     (\<forall>k a d. map_of (lg_accounts L) k = Some a \<longrightarrow>
        reserved_dim d a = total_below (live_part d) (lg_accounts L) (lg_reservations L) k \<and>
        settled_dim d a = total_below (settled_part d) (lg_accounts L) (lg_reservations L) k)"

lemma total_dict_set:
  assumes "distinct (dict_keys rs)"
  shows "total_below part accs (dict_set s r rs) k =
    total_below part accs rs k + (if under accs (rv_account_id r) k then part r else 0)
      - (case map_of rs s of None \<Rightarrow> 0 | Some old \<Rightarrow> if under accs (rv_account_id old) k then part old else 0)"
  unfolding total_below_def by (subst sum_dict_set[OF assms]) (simp split: option.splits)

lemma total_below_parents: "parents accs = parents accs' \<Longrightarrow> total_below part accs = total_below part accs'"
proof (intro ext)
  fix rs k
  assume p: "parents accs = parents accs'"
  have "(\<lambda>(s :: string, r). if under accs (rv_account_id r) k then part r else 0) =
      (\<lambda>(s, r). if under accs' (rv_account_id r) k then part r else 0)"
    by (intro ext) (simp add: under_parents[OF p] split: prod.split)
  then show "total_below part accs rs k = total_below part accs' rs k" by (simp only: total_below_def)
qed

definition same_tree :: "(AccountSnapshot \<Rightarrow> AccountSnapshot) \<Rightarrow> bool" where
  "same_tree f \<longleftrightarrow> (\<forall>a. ac_parent_id (f a) = ac_parent_id a)"

lemma wf_accounts_update:
  assumes "wf_accounts accs" and "dict_keys accs' = dict_keys accs" and "parents accs' = parents accs"
  shows "wf_accounts accs'"
proof -
  from assms(1) obtain rank :: "string \<Rightarrow> nat" where rank:
    "\<forall>i a. map_of accs i = Some a \<longrightarrow> rank i < length accs \<and>
      (\<forall>p. ac_parent_id a = Some p \<longrightarrow> map_of accs p \<noteq> None \<and> rank p < rank i)"
    unfolding wf_accounts_def by blast
  have len: "length accs' = length accs" using assms(2) by (metis length_map)
  have "rank i < length accs' \<and> (\<forall>p. ac_parent_id a = Some p \<longrightarrow> map_of accs' p \<noteq> None \<and> rank p < rank i)"
    if "map_of accs' i = Some a" for i a
  proof -
    have "parents accs i = Some (ac_parent_id a)" using that assms(3) by (metis map_option_eq_Some parents_def)
    then obtain b where "map_of accs i = Some b" "ac_parent_id b = ac_parent_id a" by (auto simp: parents_def)
    moreover have "map_of accs p \<noteq> None \<longleftrightarrow> map_of accs' p \<noteq> None" for p
      using assms(3) by (metis option.map_disc_iff parents_def)
    ultimately show ?thesis using rank len by metis
  qed
  then show ?thesis using assms(1,2) unfolding wf_accounts_def by auto
qed

text \<open>The common shape of every operation that moves money: the same amounts are added to each
  account of one chain, and one reservation of that account changes by the same amounts.\<close>

lemma ledger_inv_chain_columns:
  assumes inv: "ledger_inv L" and ch: "chain L acc = Inr ch" and up: "apply_chain ch f L = Inr L1"
    and acc: "map_of (lg_accounts L) acc \<noteq> None" and tree: "same_tree f"
    and f: "\<And>a d. reserved_dim d (f a) = reserved_dim d a + dr d \<and> settled_dim d (f a) = settled_dim d a + ds d"
    and dist: "distinct (dict_keys R)"
    and known: "\<forall>s r. map_of R s = Some r \<longrightarrow> map_of (lg_accounts L) (rv_account_id r) \<noteq> None"
    and change: "\<And>d k. total_below (live_part d) (lg_accounts L) R k =
        total_below (live_part d) (lg_accounts L) (lg_reservations L) k + (if under (lg_accounts L) acc k then dr d else 0)"
      "\<And>d k. total_below (settled_part d) (lg_accounts L) R k =
        total_below (settled_part d) (lg_accounts L) (lg_reservations L) k + (if under (lg_accounts L) acc k then ds d else 0)"
  shows "ledger_inv (L1\<lparr>lg_reservations := R\<rparr>)" and "lg_reservations L1 = lg_reservations L"
proof -
  let ?A = "lg_accounts L" and ?R = "lg_reservations L"
  have wf: "wf_accounts ?A" using inv by (auto simp: ledger_inv_def)
  from acc obtain a0 where "map_of ?A acc = Some a0" by auto
  from chain_returns[OF wf this] ch have ids: "set (map fst ch) = {k. under ?A acc k}" "distinct (map fst ch)"
    "\<forall>(k, b)\<in>set ch. map_of ?A k \<noteq> None" by fastforce+
  from apply_chain_result[OF ids(2,3), of f] up have A1: "dict_keys (lg_accounts L1) = dict_keys ?A"
    "\<And>k. map_of (lg_accounts L1) k =
       (if under ?A acc k then map_option (\<lambda>a. (f a)\<lparr>ac_version := ac_version a + 1\<rparr>) (map_of ?A k) else map_of ?A k)"
    and R1: "lg_reservations L1 = ?R" using ids(1) by auto
  have par: "parents (lg_accounts L1) = parents ?A"
    by (intro ext) (auto simp: parents_def A1(2) same_tree_def[THEN iffD1, OF tree, rule_format]
        option.map_comp comp_def)
  have tot: "total_below part (lg_accounts L1) = total_below part ?A" for part
    by (rule total_below_parents[OF par])
  have dims: "reserved_dim d ((f a)\<lparr>ac_version := v\<rparr>) = reserved_dim d a + dr d"
    "settled_dim d ((f a)\<lparr>ac_version := v\<rparr>) = settled_dim d a + ds d" for d a v
    using f[of d a] by (cases d; simp)+
  have "reserved_dim d a = total_below (live_part d) ?A R k \<and>
      settled_dim d a = total_below (settled_part d) ?A R k"
    if a: "map_of (lg_accounts L1) k = Some a" for k a d
  proof -
    obtain b where b: "map_of ?A k = Some b"
      and ab: "a = (if under ?A acc k then (f b)\<lparr>ac_version := ac_version b + 1\<rparr> else b)"
      using a A1(2)[of k] by (auto split: if_splits)
    have "reserved_dim d b = total_below (live_part d) ?A ?R k"
      "settled_dim d b = total_below (settled_part d) ?A ?R k"
      using inv b by (auto simp: ledger_inv_def)
    with ab change[of d k] dims[where d = d and a = b] show ?thesis by auto
  qed
  moreover have "map_of (lg_accounts L1) i \<noteq> None \<longleftrightarrow> map_of ?A i \<noteq> None" for i
    by (simp add: A1(2))
  ultimately show "ledger_inv (L1\<lparr>lg_reservations := R\<rparr>)"
    using known dist wf_accounts_update[OF wf A1(1) par] unfolding ledger_inv_def by (auto simp: tot)
  show "lg_reservations L1 = ?R" by (rule R1)
qed

lemma ledger_inv_chain_update:
  assumes inv: "ledger_inv L" and ch: "chain L acc = Inr ch" and up: "apply_chain ch f L = Inr L1"
    and acc: "map_of (lg_accounts L) acc \<noteq> None" and tree: "same_tree f"
    and f: "\<And>a d. reserved_dim d (f a) = reserved_dim d a + dr d \<and> settled_dim d (f a) = settled_dim d a + ds d"
    and new: "rv_account_id r = acc"
    and old: "case map_of (lg_reservations L) s of
        None \<Rightarrow> (\<forall>d. live_part d r = dr d \<and> settled_part d r = ds d)
      | Some q \<Rightarrow> rv_account_id q = acc \<and>
          (\<forall>d. live_part d r = live_part d q + dr d \<and> settled_part d r = settled_part d q + ds d)"
  shows "ledger_inv (L1\<lparr>lg_reservations := dict_set s r (lg_reservations L1)\<rparr>)"
proof -
  let ?A = "lg_accounts L" and ?R = "lg_reservations L"
  have dist: "distinct (dict_keys ?R)"
    and known: "\<And>s r. map_of ?R s = Some r \<Longrightarrow> map_of ?A (rv_account_id r) \<noteq> None"
    using inv by (auto simp: ledger_inv_def)
  have change: "total_below (live_part d) ?A (dict_set s r ?R) k = total_below (live_part d) ?A ?R k +
      (if under ?A acc k then dr d else 0)"
    "total_below (settled_part d) ?A (dict_set s r ?R) k = total_below (settled_part d) ?A ?R k +
      (if under ?A acc k then ds d else 0)" for d k
    using old new by (auto simp: total_dict_set[OF dist] split: option.splits)
  have "\<forall>s' r'. map_of (dict_set s r ?R) s' = Some r' \<longrightarrow> map_of ?A (rv_account_id r') \<noteq> None"
    using known new acc by (auto split: if_splits)
  note main = ledger_inv_chain_columns[OF inv ch up acc tree f distinct_dict_set[OF dist] this change]
  show ?thesis using main(1) unfolding main(2) .
qed

section \<open>Ledgers that the operations can build\<close>

definition empty_ledger :: Ledger where
  "empty_ledger = \<lparr>lg_accounts = [], lg_reservations = [], lg_usage = [], lg_grants = []\<rparr>"

text \<open>A call that raises leaves the transaction rolled back, so it is not a step. \<open>provider_token_grants\<close>
  may change in any way between two calls.\<close>

inductive ledger_step :: "Ledger \<Rightarrow> Ledger \<Rightarrow> bool" where
  Open: "open_account L i scope parent mission limits = Inr L' \<Longrightarrow> ledger_step L L'"
| Reserve: "reserve L acc subject tokens cost counts calls mission = Inr (rid, L') \<Longrightarrow> ledger_step L L'"
| ReleaseAttempt: "release_attempt in_tx L acc = Inr L' \<Longrightarrow> ledger_step L L'"
| Grow: "grow in_tx L subject tokens cost = Inr L' \<Longrightarrow> ledger_step L L'"
| ImportUsage: "import_usage L subject mission facts = (L', n) \<Longrightarrow> ledger_step L L'"
| Settle: "settle L subject calls = Inr (r, L') \<Longrightarrow> ledger_step L L'"
| SettleKnown: "settle_known L subject calls = Inr (r, L') \<Longrightarrow> ledger_step L L'"
| SettleUpper: "settle_at_upper_bound L subject = Inr (r, L') \<Longrightarrow> ledger_step L L'"
| Grants: "ledger_step L (L\<lparr>lg_grants := gs\<rparr>)"

inductive ledger_reachable :: "Ledger \<Rightarrow> bool" where
  Start: "ledger_reachable empty_ledger"
| Step: "ledger_reachable L \<Longrightarrow> ledger_step L L' \<Longrightarrow> ledger_reachable L'"

lemma ledger_inv_tables:
  "ledger_inv L \<Longrightarrow> lg_accounts L' = lg_accounts L \<Longrightarrow> lg_reservations L' = lg_reservations L \<Longrightarrow> ledger_inv L'"
  by (simp add: ledger_inv_def)

lemma chain_Inr_account: "chain L i = Inr ch \<Longrightarrow> map_of (lg_accounts L) i \<noteq> None"
  using chain_unknown[of L i] by (metis sum.distinct(1))

lemma import_usage_tables:
  "import_usage L subject mission fs = (L', n) \<Longrightarrow>
     lg_accounts L' = lg_accounts L \<and> lg_reservations L' = lg_reservations L \<and> lg_grants L' = lg_grants L"
  by (induction fs arbitrary: L n) (fastforce split: prod.splits)+

text \<open>A new account is a leaf: nothing is below it, and nobody else's chain changes.\<close>

lemma under_new:
  assumes "map_of accs i = None" and "wf_accounts accs"
    and "case ac_parent_id a of None \<Rightarrow> True | Some p \<Rightarrow> map_of accs p \<noteq> None" and "j \<noteq> i"
  shows "under (dict_set i a accs) j k \<longleftrightarrow> under accs j k"
proof
  assume "under (dict_set i a accs) j k"
  then show "under accs j k" using \<open>j \<noteq> i\<close>
  proof (induction rule: under.induct)
    case (up j b p k)
    then have b: "map_of accs j = Some b" by simp
    with \<open>wf_accounts accs\<close> up(2) have "map_of accs p \<noteq> None" unfolding wf_accounts_def by blast
    then have "p \<noteq> i" using assms(1) by auto
    with up b show ?case by (auto intro: under.up)
  qed (auto intro: under.self)
next
  assume "under accs j k"
  then show "under (dict_set i a accs) j k" using \<open>j \<noteq> i\<close>
  proof (induction rule: under.induct)
    case (up j b p k)
    with \<open>wf_accounts accs\<close> have "map_of accs p \<noteq> None" unfolding wf_accounts_def by blast
    then have "p \<noteq> i" using assms(1) by auto
    with up show ?case by (auto intro: under.up)
  qed (auto intro: under.self)
qed

lemma under_known: "under accs j k \<Longrightarrow> map_of accs k \<noteq> None"
  by (induction rule: under.induct) auto

lemma wf_accounts_new:
  assumes "map_of accs i = None" and wf: "wf_accounts accs"
    and par: "case ac_parent_id a of None \<Rightarrow> True | Some p \<Rightarrow> map_of accs p \<noteq> None"
  shows "wf_accounts (dict_set i a accs)"
proof -
  from wf obtain rank :: "string \<Rightarrow> nat" where rank:
    "\<forall>i a. map_of accs i = Some a \<longrightarrow> rank i < length accs \<and>
      (\<forall>p. ac_parent_id a = Some p \<longrightarrow> map_of accs p \<noteq> None \<and> rank p < rank i)"
    unfolding wf_accounts_def by blast
  let ?rank = "rank(i := length accs)"
  have len: "length (dict_set i a accs) = Suc (length accs)"
    using assms(1) by (induction accs) (auto split: if_splits)
  have "?rank j < length (dict_set i a accs) \<and>
      (\<forall>p. ac_parent_id b = Some p \<longrightarrow> map_of (dict_set i a accs) p \<noteq> None \<and> ?rank p < ?rank j)"
    if "map_of (dict_set i a accs) j = Some b" for j b
  proof (cases "j = i")
    case True
    with that par rank assms(1) len show ?thesis by (auto split: option.splits if_splits)
  next
    case False
    with that have "map_of accs j = Some b" by simp
    with rank False len assms(1) show ?thesis
      by (auto simp: less_Suc_eq split: if_splits) (metis option.distinct(1))+
  qed
  then show ?thesis using wf distinct_dict_set[of accs i a] unfolding wf_accounts_def by blast
qed

lemma ledger_inv_open:
  assumes inv: "ledger_inv L" and "open_account L i scope parent mission limits = Inr L'"
  shows "ledger_inv L'"
proof (cases "map_of (lg_accounts L) i")
  case (Some a)
  with assms show ?thesis by (auto simp: open_account_def rbind_Inr_iff)
next
  case None
  let ?A = "lg_accounts L" and ?R = "lg_reservations L"
  from assms(2) None obtain a where L': "L' = L\<lparr>lg_accounts := dict_set i a ?A\<rparr>"
    and par_a: "ac_parent_id a = parent"
    and new: "ac_reserved_tokens a = 0" "ac_reserved_cost_micros a = 0" "ac_reserved_tool_calls a = 0"
      "ac_settled_tokens a = 0" "ac_settled_cost_micros a = 0" "ac_settled_tool_calls a = 0"
    by (auto simp: open_account_def rbind_Inr_iff)
  have zeros: "reserved_dim d a = 0" "settled_dim d a = 0" for d using new by (cases d; simp)+
  have wf: "wf_accounts ?A" using inv by (simp add: ledger_inv_def)
  have par: "case ac_parent_id a of None \<Rightarrow> True | Some p \<Rightarrow> map_of ?A p \<noteq> None"
    using assms(2) par_a
    by (auto simp: open_account_def account_def rbind_Inr_iff split: option.splits)
  have same: "total_below part (dict_set i a ?A) ?R k = total_below part ?A ?R k" for part k
  proof -
    have "map (\<lambda>(s, r). if under (dict_set i a ?A) (rv_account_id r) k then part r else 0) ?R =
        map (\<lambda>(s, r). if under ?A (rv_account_id r) k then part r else 0) ?R"
    proof (rule map_cong)
      fix x assume x: "x \<in> set ?R"
      obtain s r where sr: "x = (s, r)" "map_of ?R s = Some r"
        using x inv by (metis ledger_inv_def map_of_is_SomeI surj_pair)
      then have "rv_account_id r \<noteq> i" using inv None unfolding ledger_inv_def by metis
      then show "(case x of (s, r) \<Rightarrow> if under (dict_set i a ?A) (rv_account_id r) k then part r else 0) =
          (case x of (s, r) \<Rightarrow> if under ?A (rv_account_id r) k then part r else 0)"
        using sr(1) under_new[OF None wf par] by simp
    qed simp
    then show ?thesis by (simp only: total_below_def)
  qed
  have zero: "total_below part ?A ?R i = 0" for part
  proof -
    have "\<not> under ?A j i" for j using under_known None by blast
    then show ?thesis by (simp add: total_below_def case_prod_unfold)
  qed
  have "reserved_dim d b = total_below (live_part d) ?A ?R k \<and> settled_dim d b = total_below (settled_part d) ?A ?R k"
    if "map_of (dict_set i a ?A) k = Some b" for k b d
    using that inv zero zeros by (cases "k = i") (auto simp: ledger_inv_def)
  then show ?thesis
    using inv wf_accounts_new[OF None wf par] unfolding ledger_inv_def L' by (simp add: same)
qed

lemma ledger_inv_reserve:
  assumes inv: "ledger_inv L" and "reserve L acc s tokens cost counts calls mission = Inr (rid, L')"
  shows "ledger_inv L'"
proof (cases "map_of (lg_reservations L) s")
  case (Some r)
  with assms show ?thesis by (simp add: reserve_def)
next
  case None
  let ?f = "\<lambda>a. a\<lparr>ac_reserved_tokens := ac_reserved_tokens a + tokens,
              ac_reserved_cost_micros := ac_reserved_cost_micros a + cost,
              ac_reserved_tool_calls := ac_reserved_tool_calls a + calls,
              ac_attempts_created := ac_attempts_created a + (if counts then 1 else 0)\<rparr>"
  from assms(2) None obtain ch L1 r where ch: "chain L acc = Inr ch" and up: "apply_chain ch ?f L = Inr L1"
    and L': "L' = L1\<lparr>lg_reservations := dict_set s r (lg_reservations L1)\<rparr>"
    and r: "rv_account_id r = acc" "rv_state r = RESERVED" "rv_reserved_tokens r = tokens"
      "rv_reserved_cost_micros r = cost" "rv_reserved_tool_calls r = calls"
    by (auto simp: reserve_def Let_def rbind_Inr_iff)
  show ?thesis unfolding L'
  proof (rule ledger_inv_chain_update[OF inv ch up chain_Inr_account[OF ch],
        where dr = "\<lambda>d. held_dim d r" and ds = "\<lambda>d. 0"])
    show "same_tree ?f" by (simp add: same_tree_def)
    show "reserved_dim d (?f a) = reserved_dim d a + held_dim d r \<and> settled_dim d (?f a) = settled_dim d a + 0" for a d
      using r by (cases d) auto
  qed (use None r in \<open>auto simp: live_part_def settled_part_def\<close>)
qed

lemma ledger_inv_release:
  assumes inv: "ledger_inv L" and "release_attempt tx L acc = Inr L'"
  shows "ledger_inv L'"
proof -
  let ?f = "\<lambda>a. a\<lparr>ac_attempts_created := ac_attempts_created a + - 1\<rparr>"
  from assms(2) obtain ch where ch: "chain L acc = Inr ch" and up: "apply_chain ch ?f L = Inr L'"
    by (auto simp: release_attempt_def rbind_Inr_iff split: if_splits)
  have tree: "same_tree ?f" by (simp add: same_tree_def)
  have f: "reserved_dim d (?f a) = reserved_dim d a + 0 \<and> settled_dim d (?f a) = settled_dim d a + 0" for a d
    by (cases d) auto
  have "ledger_inv (L'\<lparr>lg_reservations := lg_reservations L\<rparr>)" "lg_reservations L' = lg_reservations L"
    by (rule ledger_inv_chain_columns[OF inv ch up chain_Inr_account[OF ch] tree f];
        use inv in \<open>auto simp: ledger_inv_def\<close>)+
  then show ?thesis by (metis Ledger.unfold_congs(2) Ledger.surjective Ledger.update_convs(2))
qed

lemma grow_cases:
  assumes "grow tx L s tokens cost = Inr L'" and "map_of (lg_reservations L) s = Some r"
  defines "dt \<equiv> max 0 (tokens - rv_reserved_tokens r)" and "dc \<equiv> max 0 (cost - rv_reserved_cost_micros r)"
  shows "L' = L \<or> (\<exists>ch L1. chain L (rv_account_id r) = Inr ch \<and>
      apply_chain ch (\<lambda>a. a\<lparr>ac_reserved_tokens := ac_reserved_tokens a + dt,
                  ac_reserved_cost_micros := ac_reserved_cost_micros a + dc\<rparr>) L = Inr L1 \<and>
      L' = L1\<lparr>lg_reservations := dict_set s (r\<lparr>rv_reserved_tokens := rv_reserved_tokens r + dt,
              rv_reserved_cost_micros := rv_reserved_cost_micros r + dc\<rparr>) (lg_reservations L1)\<rparr>)"
  using assms(1,2) unfolding grow_def reservation_def Let_def dt_def[symmetric] dc_def[symmetric]
  by (auto simp: rbind_Inr_iff guard_Inr_iff dt_def[symmetric] dc_def[symmetric] split: if_splits)

lemma ledger_inv_grow:
  assumes inv: "ledger_inv L" and "grow tx L s tokens cost = Inr L'"
  shows "ledger_inv L'"
proof -
  from assms(2) obtain r where r: "map_of (lg_reservations L) s = Some r" "rv_state r = RESERVED"
    by (auto simp: grow_def reservation_def split: if_splits option.splits)
  define dt where "dt = max 0 (tokens - rv_reserved_tokens r)"
  define dc where "dc = max 0 (cost - rv_reserved_cost_micros r)"
  let ?f = "\<lambda>a. a\<lparr>ac_reserved_tokens := ac_reserved_tokens a + dt,
                  ac_reserved_cost_micros := ac_reserved_cost_micros a + dc\<rparr>"
  let ?r = "r\<lparr>rv_reserved_tokens := rv_reserved_tokens r + dt,
              rv_reserved_cost_micros := rv_reserved_cost_micros r + dc\<rparr>"
  have "L' = L \<or> (\<exists>ch L1. chain L (rv_account_id r) = Inr ch \<and> apply_chain ch ?f L = Inr L1 \<and>
      L' = L1\<lparr>lg_reservations := dict_set s ?r (lg_reservations L1)\<rparr>)"
    unfolding dt_def dc_def by (rule grow_cases[OF assms(2) r(1)])
  then show ?thesis
  proof
    assume "\<exists>ch L1. chain L (rv_account_id r) = Inr ch \<and> apply_chain ch ?f L = Inr L1 \<and>
      L' = L1\<lparr>lg_reservations := dict_set s ?r (lg_reservations L1)\<rparr>"
    then obtain ch L1 where ch: "chain L (rv_account_id r) = Inr ch" and up: "apply_chain ch ?f L = Inr L1"
      and L': "L' = L1\<lparr>lg_reservations := dict_set s ?r (lg_reservations L1)\<rparr>" by blast
    let ?dr = "\<lambda>d. case d of D_tokens \<Rightarrow> dt | D_cost \<Rightarrow> dc | D_calls \<Rightarrow> 0"
    show ?thesis unfolding L'
    proof (rule ledger_inv_chain_update[OF inv ch up chain_Inr_account[OF ch], where dr = ?dr and ds = "\<lambda>d. 0"])
      show "same_tree ?f" by (simp add: same_tree_def)
      show "reserved_dim d (?f a) = reserved_dim d a + ?dr d \<and> settled_dim d (?f a) = settled_dim d a + 0" for a d
        by (cases d) auto
    qed (use r in \<open>auto simp: live_part_def settled_part_def split: dimension.splits\<close>)
  qed (use inv in simp)
qed

text \<open>The three ways to settle share \<open>settle_reservation\<close>; what the accounts are charged is what the
  reservation row records, an absent cost counting as 0.\<close>

lemma ledger_inv_settle_reservation:
  assumes inv: "ledger_inv L" and r: "map_of (lg_reservations L) s = Some r" "rv_state r = RESERVED"
    and "settle_reservation L s r tokens cost col calls unpriced = Inr (r', L')"
    and col: "cost = (case col of None \<Rightarrow> 0 | Some c \<Rightarrow> c)"
  shows "ledger_inv L'"
proof -
  let ?f = "\<lambda>a. a\<lparr>ac_reserved_tokens := ac_reserved_tokens a + - rv_reserved_tokens r,
         ac_reserved_cost_micros := ac_reserved_cost_micros a + - rv_reserved_cost_micros r,
         ac_reserved_tool_calls := ac_reserved_tool_calls a + - rv_reserved_tool_calls r,
         ac_settled_tokens := ac_settled_tokens a + tokens,
         ac_settled_cost_micros := ac_settled_cost_micros a + cost,
         ac_settled_tool_calls := ac_settled_tool_calls a + calls,
         ac_unpriced_settlements := ac_unpriced_settlements a + (if unpriced then 1 else 0)\<rparr>"
  from assms(4) obtain ch L1 where ch: "chain L (rv_account_id r) = Inr ch" and up: "apply_chain ch ?f L = Inr L1"
    and L': "L' = L1\<lparr>lg_reservations := dict_set s r' (lg_reservations L1)\<rparr>"
    and r': "r' = r\<lparr>rv_state := SETTLED, rv_settled_tokens := Some tokens, rv_settled_cost_micros := col,
                rv_settled_tool_calls := calls, rv_unpriced := unpriced\<rparr>"
    by (auto simp: settle_reservation_def Let_def rbind_Inr_iff)
  show ?thesis unfolding L'
  proof (rule ledger_inv_chain_update[OF inv ch up chain_Inr_account[OF ch],
        where dr = "\<lambda>d. - held_dim d r" and ds = "\<lambda>d. charged_dim d r'"])
    show "same_tree ?f" by (simp add: same_tree_def)
    show "reserved_dim d (?f a) = reserved_dim d a + - held_dim d r \<and>
        settled_dim d (?f a) = settled_dim d a + charged_dim d r'" for a d
      using r' col by (cases d) auto
  qed (use r r' in \<open>auto simp: live_part_def settled_part_def\<close>)
qed

lemma not_settled: "rv_state r \<noteq> SETTLED \<longleftrightarrow> rv_state r = RESERVED"
  by (cases "rv_state r") auto

lemmas settle_defs = settle_def settle_known_def settle_at_upper_bound_def reservation_def

lemma ledger_inv_settle:
  assumes "ledger_inv L"
  shows "settle L s calls = Inr (r, L') \<Longrightarrow> ledger_inv L'"
    and "settle_known L s calls = Inr (r, L') \<Longrightarrow> ledger_inv L'"
    and "settle_at_upper_bound L s = Inr (r, L') \<Longrightarrow> ledger_inv L'"
  using assms
  by (auto simp: settle_defs not_settled Let_def split: option.splits if_splits prod.splits
      intro: ledger_inv_settle_reservation)

lemma ledger_inv_step:
  assumes "ledger_step L L'" and "ledger_inv L"
  shows "ledger_inv L'"
  using assms
proof (cases rule: ledger_step.cases)
  case (ImportUsage subject mission facts n)
  with assms(2) import_usage_tables show ?thesis by (blast intro: ledger_inv_tables)
next
  case (Grants gs)
  with assms(2) show ?thesis by (auto intro: ledger_inv_tables)
qed (use assms(2) in \<open>blast intro: ledger_inv_open ledger_inv_reserve ledger_inv_release ledger_inv_grow ledger_inv_settle\<close>)+

lemma ledger_inv_reachable: "ledger_reachable L \<Longrightarrow> ledger_inv L"
proof (induction rule: ledger_reachable.induct)
  case Start
  show ?case by (simp add: ledger_inv_def empty_ledger_def wf_accounts_def)
qed (rule ledger_inv_step)

section \<open>Conservation\<close>

text \<open>C4. Conservation. In every ledger that the operations can build, each account's reserved column
  is the sum over the live reservations of the accounts below it (itself included), and its settled
  column the sum of what the settled reservations below it were charged, in tokens, cost and tool
  calls.\<close>

theorem ledger_conserves:
  assumes "ledger_reachable L" and "account L k = Inr a"
  shows "reserved_dim d a = total_below (live_part d) (lg_accounts L) (lg_reservations L) k \<and>
    settled_dim d a = total_below (settled_part d) (lg_accounts L) (lg_reservations L) k"
  using ledger_inv_reachable[OF assms(1)] assms(2)
  by (auto simp: ledger_inv_def account_def split: option.splits)

text \<open>A run: the owner's pool, a mission of 100 tokens below it, a task of 60 tokens below the
  mission; 40 tokens are reserved, 25 used, and the reservation is settled.\<close>

definition sample_limits :: "int \<Rightarrow> Budget" where
  "sample_limits n = no_budget\<lparr>max_tokens := Some n, max_attempts := Some 2\<rparr>"

definition sample_open :: "ledger_error + Ledger" where
  "sample_open =
     rbind (open_account empty_ledger ''global'' ''global'' None ''m'' (sample_limits 1000)) (\<lambda>L.
     rbind (open_account L ''budget:m'' ''mission'' (Some ''global'') ''m'' (sample_limits 100)) (\<lambda>L.
     open_account L ''budget:t'' ''task'' (Some ''budget:m'') ''m'' (sample_limits 60)))"

definition sample_fact :: UsageFact where
  "sample_fact = \<lparr>uf_usage_ref = ''u1'', uf_input_tokens = 20, uf_output_tokens = 5,
     uf_cost_micros = Some 7, uf_unknown = False\<rparr>"

definition sample_run :: "ledger_error + Ledger" where
  "sample_run =
     rbind sample_open (\<lambda>L.
     rbind (reserve L ''budget:t'' ''s1'' 40 0 True 1 None) (\<lambda>(rid, L).
     rbind (reserve L ''budget:m'' ''s2'' 30 0 True 0 None) (\<lambda>(rid, L).
     Inr (fst (import_usage L ''s1'' ''m'' [sample_fact])))))"

definition sample_ledger :: Ledger where
  "sample_ledger = (case sample_run of Inl e \<Rightarrow> empty_ledger | Inr L \<Rightarrow> L)"

lemma import_step: "ledger_step L (fst (import_usage L subject mission facts))"
  by (rule ledger_step.ImportUsage[OF prod.collapse[symmetric]])

lemma sample_ledger_reachable: "ledger_reachable sample_ledger"
proof -
  have "sample_run = Inr L \<Longrightarrow> ledger_reachable L" for L
    unfolding sample_run_def sample_open_def
    by (auto simp: rbind_Inr_iff simp del: import_usage.simps
        intro!: ledger_reachable.Step[OF _ import_step])
      (meson ledger_reachable.Start ledger_reachable.Step[OF _ ledger_step.Open]
        ledger_reachable.Step[OF _ ledger_step.Reserve])
  then show ?thesis unfolding sample_ledger_def
    by (auto intro: ledger_reachable.Start split: sum.split)
qed

lemma sample_accounts:
  "map_option ac_reserved_tokens (map_of (lg_accounts sample_ledger) ''budget:m'') = Some 70"
  "map_option ac_reserved_tokens (map_of (lg_accounts sample_ledger) ''budget:t'') = Some 40"
  "map_option ac_parent_id (map_of (lg_accounts sample_ledger) ''budget:t'') = Some (Some ''budget:m'')"
  "map_option rv_state (map_of (lg_reservations sample_ledger) ''s1'') = Some RESERVED"
  by code_simp+

lemma ledger_conserves_witness:
  "\<exists>a. account sample_ledger ''budget:m'' = Inr a \<and> reserved_dim D_tokens a = 70 \<and>
     total_below (live_part D_tokens) (lg_accounts sample_ledger) (lg_reservations sample_ledger) ''budget:m'' = 70"
proof -
  obtain a where a: "account sample_ledger ''budget:m'' = Inr a" "ac_reserved_tokens a = 70"
    using sample_accounts(1) by (auto simp: account_def)
  with ledger_conserves[OF sample_ledger_reachable a(1), of D_tokens] show ?thesis by simp
qed

section \<open>Admission\<close>

text \<open>What an account has room for, in the four dimensions that \<open>reserve\<close> checks.\<close>

definition has_room :: "int \<Rightarrow> int \<Rightarrow> bool \<Rightarrow> int \<Rightarrow> AccountSnapshot \<Rightarrow> bool" where
  "has_room tokens cost counts calls a \<longleftrightarrow>
     (\<forall>m. max_tokens (ac_limits a) = Some m \<longrightarrow> ac_reserved_tokens a + ac_settled_tokens a + tokens \<le> m) \<and>
     (\<forall>m. max_cost_micros (ac_limits a) = Some m \<longrightarrow> ac_reserved_cost_micros a + ac_settled_cost_micros a + cost \<le> m) \<and>
     (\<forall>m. counts \<longrightarrow> max_attempts (ac_limits a) = Some m \<longrightarrow> ac_attempts_created a + ac_reserved_attempts a + 1 \<le> m) \<and>
     (\<forall>m. max_tool_calls (ac_limits a) = Some m \<longrightarrow> ac_reserved_tool_calls a + ac_settled_tool_calls a + calls \<le> m)"

lemma check_account_room: "check_account tokens cost counts calls (i, a) = Inr () \<longleftrightarrow> has_room tokens cost counts calls a"
  by (auto simp: check_account_def has_room_def Let_def exceeds_def remaining_tokens_def
      remaining_cost_micros_def remaining_attempts_def remaining_tool_calls_def
      split: option.splits if_splits)

lemma chain_reachable:
  assumes "ledger_reachable L" and "map_of (lg_accounts L) acc = Some a"
  shows "\<exists>ch. chain L acc = Inr ch \<and> set (map fst ch) = {k. under (lg_accounts L) acc k} \<and>
    distinct (map fst ch) \<and> (\<forall>(k, b)\<in>set ch. map_of (lg_accounts L) k = Some b)"
  using chain_returns ledger_inv_reachable[OF assms(1)] assms(2) by (simp add: ledger_inv_def)

text \<open>On a reachable ledger the update of a chain always succeeds and touches exactly the accounts above.\<close>

lemma chain_update_reachable:
  assumes "ledger_reachable L" and "map_of (lg_accounts L) acc = Some a" and "chain L acc = Inr ch"
  shows "\<exists>L1. apply_chain ch f L = Inr L1 \<and> lg_reservations L1 = lg_reservations L \<and>
    lg_usage L1 = lg_usage L \<and> lg_grants L1 = lg_grants L \<and>
    (\<forall>k. map_of (lg_accounts L1) k = (if under (lg_accounts L) acc k
       then map_option (\<lambda>a. (f a)\<lparr>ac_version := ac_version a + 1\<rparr>) (map_of (lg_accounts L) k)
       else map_of (lg_accounts L) k))"
proof -
  from chain_reachable[OF assms(1,2)] assms(3) have ch: "set (map fst ch) = {k. under (lg_accounts L) acc k}"
    "distinct (map fst ch)" "\<forall>(k, b)\<in>set ch. map_of (lg_accounts L) k \<noteq> None" by fastforce+
  from apply_chain_result[OF ch(2,3), of f] show ?thesis unfolding ch(1) by auto
qed

text \<open>C6. Admission is exact and fails closed: on a reachable ledger a reservation for a new subject
  succeeds if and only if the account and every account above it has room in every dimension; when it
  succeeds exactly those accounts hold the amounts more, and when it fails it raises \<open>BudgetExhausted\<close>.\<close>

theorem reserve_admission_exact:
  assumes "ledger_reachable L" and "account L acc = Inr a" and "reservation L subject = None"
  shows "case reserve L acc subject tokens cost counts calls mission of
      Inr (rid, L') \<Rightarrow>
        (\<forall>k b. under (lg_accounts L) acc k \<longrightarrow> map_of (lg_accounts L) k = Some b \<longrightarrow> has_room tokens cost counts calls b) \<and>
        (\<forall>k. map_of (lg_accounts L') k = (if under (lg_accounts L) acc k
           then map_option (\<lambda>b. b\<lparr>ac_reserved_tokens := ac_reserved_tokens b + tokens,
              ac_reserved_cost_micros := ac_reserved_cost_micros b + cost,
              ac_reserved_tool_calls := ac_reserved_tool_calls b + calls,
              ac_attempts_created := ac_attempts_created b + (if counts then 1 else 0),
              ac_version := ac_version b + 1\<rparr>) (map_of (lg_accounts L) k)
           else map_of (lg_accounts L) k)) \<and>
        map_option rv_state (reservation L' subject) = Some RESERVED
    | Inl e \<Rightarrow>
        (\<exists>k b. under (lg_accounts L) acc k \<and> map_of (lg_accounts L) k = Some b \<and> \<not> has_room tokens cost counts calls b) \<and>
        (\<exists>k dim need left. e = BudgetExhausted k dim need left)"
proof -
  from assms(2) have a: "map_of (lg_accounts L) acc = Some a" by (simp add: account_def split: option.splits)
  from chain_reachable[OF assms(1) a] obtain ch where ch: "chain L acc = Inr ch"
    "set (map fst ch) = {k. under (lg_accounts L) acc k}" "\<forall>(k, b)\<in>set ch. map_of (lg_accounts L) k = Some b" by auto
  have mem: "(k, b) \<in> set ch \<longleftrightarrow> under (lg_accounts L) acc k \<and> map_of (lg_accounts L) k = Some b" for k b
  proof
    assume "under (lg_accounts L) acc k \<and> map_of (lg_accounts L) k = Some b"
    then have "k \<in> fst ` set ch" using ch(2) by auto
    then obtain c where "(k, c) \<in> set ch" by force
    with ch(3) \<open>_ \<and> map_of (lg_accounts L) k = Some b\<close> show "(k, b) \<in> set ch" by fastforce
  qed (use ch(2,3) in force)
  show ?thesis
  proof (cases "for_each (check_account tokens cost counts calls) ch")
    case (Inr u)
    then have room: "has_room tokens cost counts calls b"
      if "under (lg_accounts L) acc k" "map_of (lg_accounts L) k = Some b" for k b
      using mem[of k b] that by (auto simp: for_each_ok check_account_room)
    obtain L1 where "apply_chain ch (\<lambda>b. b\<lparr>ac_reserved_tokens := ac_reserved_tokens b + tokens,
              ac_reserved_cost_micros := ac_reserved_cost_micros b + cost,
              ac_reserved_tool_calls := ac_reserved_tool_calls b + calls,
              ac_attempts_created := ac_attempts_created b + (if counts then 1 else 0)\<rparr>) L = Inr L1"
      "lg_reservations L1 = lg_reservations L"
      "\<forall>k. map_of (lg_accounts L1) k = (if under (lg_accounts L) acc k
           then map_option (\<lambda>b. b\<lparr>ac_reserved_tokens := ac_reserved_tokens b + tokens,
              ac_reserved_cost_micros := ac_reserved_cost_micros b + cost,
              ac_reserved_tool_calls := ac_reserved_tool_calls b + calls,
              ac_attempts_created := ac_attempts_created b + (if counts then 1 else 0),
              ac_version := ac_version b + 1\<rparr>) (map_of (lg_accounts L) k)
           else map_of (lg_accounts L) k)"
      using chain_update_reachable[OF assms(1) a ch(1)] by fastforce
    with Inr ch(1) assms(3) room show ?thesis by (simp add: reserve_def reservation_def Let_def)
  next
    case (Inl e)
    then obtain k b where kb: "(k, b) \<in> set ch" "check_account tokens cost counts calls (k, b) = Inl e"
      by (fastforce simp: for_each_error)
    then have "\<not> has_room tokens cost counts calls b" using check_account_room[of tokens cost counts calls k b] by simp
    moreover have "\<exists>k dim need left. e = BudgetExhausted k dim need left"
      using kb(2) by (auto simp: check_account_def Let_def split: if_splits)
    ultimately show ?thesis using Inl kb(1) mem ch(1) assms(3) by (auto simp: reserve_def reservation_def)
  qed
qed

lemma under_sample: "under (lg_accounts sample_ledger) ''budget:t'' ''budget:m''"
proof -
  obtain a where a: "map_of (lg_accounts sample_ledger) ''budget:t'' = Some a" "ac_parent_id a = Some ''budget:m''"
    using sample_accounts(3) by auto
  obtain b where "map_of (lg_accounts sample_ledger) ''budget:m'' = Some b" using sample_accounts(1) by auto
  then show ?thesis by (intro under.up[OF a] under.self)
qed

text \<open>The mission has 30 tokens left and the task 20: 15 tokens pass, 25 do not.\<close>

lemma reserve_admission_exact_witness:
  "\<not> isl (reserve sample_ledger ''budget:t'' ''s3'' 15 0 False 0 None) \<and>
   isl (reserve sample_ledger ''budget:t'' ''s3'' 25 0 False 0 None) \<and>
   (\<exists>k b. under (lg_accounts sample_ledger) ''budget:t'' k \<and> map_of (lg_accounts sample_ledger) k = Some b \<and>
      \<not> has_room 25 0 False 0 b)"
proof -
  obtain a where a: "account sample_ledger ''budget:t'' = Inr a"
    using sample_accounts(2) by (auto simp: account_def)
  have none: "reservation sample_ledger ''s3'' = None" by code_simp
  have ok: "\<not> isl (reserve sample_ledger ''budget:t'' ''s3'' 15 0 False 0 None)"
    and no: "isl (reserve sample_ledger ''budget:t'' ''s3'' 25 0 False 0 None)" by code_simp+
  from no obtain e where "reserve sample_ledger ''budget:t'' ''s3'' 25 0 False 0 None = Inl e"
    by (cases "reserve sample_ledger ''budget:t'' ''s3'' 25 0 False 0 None") auto
  with reserve_admission_exact[OF sample_ledger_reachable a none, of 25 0 False 0 None] ok no
  show ?thesis by auto
qed

section \<open>Settlement\<close>

text \<open>A reservation is idempotent per subject and a settlement final: asking again for the same
  subject returns the first reservation and changes nothing, whatever the new amounts; settling a
  settled subject again, in any of the three ways, returns it and changes nothing.\<close>

theorem reservation_idempotent:
  assumes "reserve L acc subject tokens cost counts calls mission = Inr (rid, L1)"
    and "settle L1 subject n = Inr (r, L2)"
  shows "reserve L1 acc' subject tokens' cost' counts' calls' mission' = Inr (rid, L1) \<and>
    reserve L2 acc' subject tokens' cost' counts' calls' mission' = Inr (rid, L2) \<and>
    settle L2 subject n' = Inr (r, L2) \<and> settle_known L2 subject n' = Inr (r, L2) \<and>
    settle_at_upper_bound L2 subject = Inr (r, L2)"
proof -
  obtain q where q: "map_of (lg_reservations L1) subject = Some q" "rv_reservation_id q = rid"
    using assms(1) by (auto simp: reserve_def Let_def rbind_Inr_iff split: option.splits)
  have "map_of (lg_reservations L2) subject = Some r \<and> rv_state r = SETTLED \<and> rv_reservation_id r = rid"
    using assms(2) q
    by (auto simp: settle_defs settle_reservation_def Let_def rbind_Inr_iff split: if_splits prod.splits)
  with q show ?thesis by (simp add: reserve_def settle_defs)
qed

lemma reservation_idempotent_witness:
  "\<exists>L1 r L2. reserve sample_ledger ''budget:t'' ''s3'' 15 0 False 0 None = Inr (''reservation-s3'', L1) \<and>
     settle L1 ''s3'' 0 = Inr (r, L2) \<and> settle_at_upper_bound L2 ''s3'' = Inr (r, L2)"
proof -
  let ?res = "reserve sample_ledger ''budget:t'' ''s3'' 15 0 False 0 None"
  have "case ?res of Inl e \<Rightarrow> False | Inr (rid, L1) \<Rightarrow> rid = ''reservation-s3'' \<and> \<not> isl (settle L1 ''s3'' 0)"
    by code_simp
  then obtain L1 where L1: "?res = Inr (''reservation-s3'', L1)" and "\<not> isl (settle L1 ''s3'' 0)"
    by (auto split: sum.splits)
  then obtain r L2 where L2: "settle L1 ''s3'' 0 = Inr (r, L2)" by (cases "settle L1 ''s3'' 0") auto
  from reservation_idempotent[OF L1 L2] L1 L2 show ?thesis by blast
qed

text \<open>Every account after a settlement: the accounts above the reservation give back what it held and are
  charged what the reservation row records; the others are untouched.\<close>

definition settles :: "Ledger \<Rightarrow> Reservation \<Rightarrow> Reservation \<Rightarrow> Ledger \<Rightarrow> bool" where
  "settles L r r' L' \<longleftrightarrow>
     rv_state r' = SETTLED \<and> lg_usage L' = lg_usage L \<and> lg_grants L' = lg_grants L \<and>
     (\<forall>k a. map_of (lg_accounts L) k = Some a \<longrightarrow>
        (\<exists>a'. map_of (lg_accounts L') k = Some a' \<and> (\<forall>d.
           reserved_dim d a' = reserved_dim d a - (if under (lg_accounts L) (rv_account_id r) k then held_dim d r else 0) \<and>
           settled_dim d a' = settled_dim d a + (if under (lg_accounts L) (rv_account_id r) k then charged_dim d r' else 0))))"

lemma settle_reservation_effect:
  assumes "ledger_reachable L" and "reservation L s = Some r"
    and "cost = (case col of None \<Rightarrow> 0 | Some c \<Rightarrow> c)"
    and r': "r' = r\<lparr>rv_state := SETTLED, rv_settled_tokens := Some tokens, rv_settled_cost_micros := col,
      rv_settled_tool_calls := calls, rv_unpriced := unpriced\<rparr>"
  shows "\<exists>L'. settle_reservation L s r tokens cost col calls unpriced = Inr (r', L') \<and> settles L r r' L'"
proof -
  let ?f = "\<lambda>a. a\<lparr>ac_reserved_tokens := ac_reserved_tokens a + - rv_reserved_tokens r,
         ac_reserved_cost_micros := ac_reserved_cost_micros a + - rv_reserved_cost_micros r,
         ac_reserved_tool_calls := ac_reserved_tool_calls a + - rv_reserved_tool_calls r,
         ac_settled_tokens := ac_settled_tokens a + tokens,
         ac_settled_cost_micros := ac_settled_cost_micros a + cost,
         ac_settled_tool_calls := ac_settled_tool_calls a + calls,
         ac_unpriced_settlements := ac_unpriced_settlements a + (if unpriced then 1 else 0)\<rparr>"
  from assms(1,2) obtain a where a: "map_of (lg_accounts L) (rv_account_id r) = Some a"
    using ledger_inv_reachable by (fastforce simp: ledger_inv_def reservation_def)
  from chain_reachable[OF assms(1) a] obtain ch where ch: "chain L (rv_account_id r) = Inr ch" by auto
  from chain_update_reachable[OF assms(1) a ch, of ?f] obtain L1 where L1:
    "apply_chain ch ?f L = Inr L1" "lg_usage L1 = lg_usage L" "lg_grants L1 = lg_grants L"
    and acc: "\<forall>k. map_of (lg_accounts L1) k = (if under (lg_accounts L) (rv_account_id r) k
       then map_option (\<lambda>a. (?f a)\<lparr>ac_version := ac_version a + 1\<rparr>) (map_of (lg_accounts L) k)
       else map_of (lg_accounts L) k)" by blast
  let ?L = "L1\<lparr>lg_reservations := dict_set s r' (lg_reservations L1)\<rparr>"
  have dims: "reserved_dim d ((?f b)\<lparr>ac_version := v\<rparr>) = reserved_dim d b - held_dim d r"
    "settled_dim d ((?f b)\<lparr>ac_version := v\<rparr>) = settled_dim d b + charged_dim d r'" for d b v
    using assms(3) r' by (cases d; simp)+
  have "settle_reservation L s r tokens cost col calls unpriced = Inr (r', ?L)"
    by (simp add: settle_reservation_def ch L1(1)[simplified] r' Let_def)
  moreover have "settles L r r' ?L"
    unfolding settles_def
  proof (intro conjI allI impI)
    fix k b assume b: "map_of (lg_accounts L) k = Some b"
    show "\<exists>a'. map_of (lg_accounts ?L) k = Some a' \<and> (\<forall>d.
           reserved_dim d a' = reserved_dim d b - (if under (lg_accounts L) (rv_account_id r) k then held_dim d r else 0) \<and>
           settled_dim d a' = settled_dim d b + (if under (lg_accounts L) (rv_account_id r) k then charged_dim d r' else 0))"
    proof (cases "under (lg_accounts L) (rv_account_id r) k")
      case True
      with acc[rule_format, of k] b have new: "map_of (lg_accounts ?L) k = Some ((?f b)\<lparr>ac_version := ac_version b + 1\<rparr>)"
        by simp
      show ?thesis
        by (rule exI[of _ "(?f b)\<lparr>ac_version := ac_version b + 1\<rparr>"]) (simp only: new True if_True dims simp_thms)
    next
      case False
      with acc[rule_format, of k] b show ?thesis by simp
    qed
  qed (use L1 r' in auto)
  ultimately show ?thesis by blast
qed

text \<open>\<open>settle\<close> on a live reservation of a reachable ledger: while a charge of the subject is unknown,
  or a provider grant of it is still held, the reservation is kept and the call raises; otherwise the
  call succeeds, the subject's tokens are charged exactly as imported, and every account above gives
  back what it held.\<close>

theorem settle_replaces_reservation:
  assumes "ledger_reachable L" and "reservation L s = Some r" and "rv_state r = RESERVED"
  shows "if has_unknown_usage L s
    then settle L s calls = Inl (BudgetError ''unknown provider charge; reservation held'')
    else \<exists>r' L'. settle L s calls = Inr (r', L') \<and> settles L r r' L' \<and>
      charged_dim D_tokens r' = fst (usage_for L s) \<and> charged_dim D_calls r' = calls"
proof (cases "has_unknown_usage L s")
  case False
  obtain tokens cost unpriced where u: "usage_for L s = (tokens, cost, unpriced)" by (cases "usage_for L s")
  from settle_reservation_effect[OF assms(1,2) refl refl, where col = cost and tokens = tokens and calls = calls and unpriced = unpriced] False assms u
  show ?thesis by (auto simp: settle_def)
qed (use assms in \<open>simp add: settle_def\<close>)

lemma settle_replaces_reservation_witness:
  "\<exists>r r' L'. reservation sample_ledger ''s1'' = Some r \<and> settle sample_ledger ''s1'' 1 = Inr (r', L') \<and>
     settles sample_ledger r r' L' \<and> charged_dim D_tokens r' = 25"
proof -
  obtain r where r: "reservation sample_ledger ''s1'' = Some r" "rv_state r = RESERVED"
    using sample_accounts(4) by (auto simp: reservation_def)
  have "\<not> has_unknown_usage sample_ledger ''s1''" "fst (usage_for sample_ledger ''s1'') = 25" by code_simp+
  with settle_replaces_reservation[OF sample_ledger_reachable r, of 1] r show ?thesis by auto
qed

text \<open>C35. \<open>settle_at_upper_bound\<close> never undercounts tokens and cost: on a live reservation of a reachable
  ledger it succeeds, even while charges are unknown; on every account the sum of reserved and settled
  tokens, and of cost, does not fall, and the charge covers both what was held and the known facts.
  Tool calls are the exception: what was held is given back and none are charged. The unknown usage
  rows stay as they are.\<close>

theorem upper_bound_never_undercounts:
  assumes "ledger_reachable L" and "reservation L s = Some r" and "rv_state r = RESERVED"
  shows "\<exists>r' L'. settle_at_upper_bound L s = Inr (r', L') \<and> settles L r r' L' \<and>
    held_dim D_tokens r \<le> charged_dim D_tokens r' \<and> fst (known_usage_for L s) \<le> charged_dim D_tokens r' \<and>
    held_dim D_cost r \<le> charged_dim D_cost r' \<and>
    (case fst (snd (known_usage_for L s)) of None \<Rightarrow> True | Some c \<Rightarrow> c \<le> charged_dim D_cost r') \<and>
    charged_dim D_calls r' = 0 \<and> lg_usage L' = lg_usage L"
proof -
  obtain tokens cost unpriced where u: "known_usage_for L s = (tokens, cost, unpriced)" by (cases "known_usage_for L s")
  define c where "c = max (rv_reserved_cost_micros r) (case cost of None \<Rightarrow> 0 | Some c \<Rightarrow> c)"
  define r' where "r' = r\<lparr>rv_state := SETTLED, rv_settled_tokens := Some (max (rv_reserved_tokens r) tokens),
        rv_settled_cost_micros := Some c, rv_settled_tool_calls := 0, rv_unpriced := unpriced\<rparr>"
  have "c = (case Some c of None \<Rightarrow> 0 | Some c \<Rightarrow> c)" by simp
  from settle_reservation_effect[OF assms(1,2) this r'_def] obtain L' where L':
    "settle_reservation L s r (max (rv_reserved_tokens r) tokens) c (Some c) 0 unpriced = Inr (r', L')"
    "settles L r r' L'" by auto
  have "settle_at_upper_bound L s = Inr (r', L')"
    using assms(2,3) u L'(1) by (simp add: settle_at_upper_bound_def c_def Let_def)
  moreover have "lg_usage L' = lg_usage L" using L'(2) by (simp add: settles_def)
  moreover have "charged_dim D_tokens r' = max (rv_reserved_tokens r) tokens" "charged_dim D_cost r' = c" "charged_dim D_calls r' = 0"
    by (simp_all add: r'_def)
  ultimately show ?thesis using L'(2) u
    by (intro exI[of _ r'] exI[of _ L']) (simp add: c_def split: option.splits)
qed

lemma upper_bound_never_undercounts_witness:
  "\<exists>r r' L'. reservation sample_ledger ''s1'' = Some r \<and> held_dim D_calls r = 1 \<and>
     settle_at_upper_bound sample_ledger ''s1'' = Inr (r', L') \<and> settles sample_ledger r r' L' \<and>
     40 \<le> charged_dim D_tokens r' \<and> charged_dim D_calls r' = 0"
proof -
  obtain r where r: "reservation sample_ledger ''s1'' = Some r" "rv_state r = RESERVED"
    using sample_accounts(4) by (auto simp: reservation_def)
  moreover have "map_option (held_dim D_tokens) (reservation sample_ledger ''s1'') = Some 40"
    "map_option (held_dim D_calls) (reservation sample_ledger ''s1'') = Some 1" by code_simp+
  ultimately show ?thesis using upper_bound_never_undercounts[OF sample_ledger_reachable r] by fastforce
qed

section \<open>Usage facts\<close>

definition usage_extends :: "(string \<times> UsageRow) list \<Rightarrow> (string \<times> UsageRow) list \<Rightarrow> bool" where
  "usage_extends rows rows' \<longleftrightarrow>
     (\<forall>ref row. map_of rows ref = Some row \<longrightarrow>
        (\<exists>row'. map_of rows' ref = Some row' \<and> ur_subject_id row' = ur_subject_id row \<and>
           ur_mission_id row' = ur_mission_id row \<and> (\<not> ur_unknown row \<longrightarrow> row' = row)))"

definition usage_covers :: "(string \<times> UsageRow) list \<Rightarrow> UsageFact \<Rightarrow> bool" where
  "usage_covers rows f \<longleftrightarrow>
     (\<exists>row. map_of rows (uf_usage_ref f) = Some row \<and> (\<not> uf_unknown f \<longrightarrow> \<not> ur_unknown row))"

lemma usage_extends_refl: "usage_extends rows rows"
  by (simp add: usage_extends_def)

lemma usage_extends_trans: "usage_extends r1 r2 \<Longrightarrow> usage_extends r2 r3 \<Longrightarrow> usage_extends r1 r3"
  unfolding usage_extends_def by metis

lemma usage_covers_extends: "usage_covers rows f \<Longrightarrow> usage_extends rows rows' \<Longrightarrow> usage_covers rows' f"
  unfolding usage_covers_def usage_extends_def by metis

lemma import_fact_extends: "usage_extends rows (fst (import_fact subject mission f rows))"
  by (auto simp: usage_extends_def import_fact_def Let_def split: option.splits)

lemma import_fact_covers: "usage_covers (fst (import_fact subject mission f rows)) f"
  by (auto simp: usage_covers_def import_fact_def Let_def usage_row_def split: option.splits)

lemma import_fact_covered: "usage_covers rows f \<Longrightarrow> import_fact subject mission f rows = (rows, 0)"
  by (auto simp: usage_covers_def import_fact_def Let_def usage_row_def)

lemma import_usage_rows:
  "import_usage L subject mission fs = (L', n) \<Longrightarrow>
     usage_extends (lg_usage L) (lg_usage L') \<and> (\<forall>f\<in>set fs. usage_covers (lg_usage L') f)"
proof (induction fs arbitrary: L n)
  case (Cons f fs)
  define rows where "rows = fst (import_fact subject mission f (lg_usage L))"
  from Cons.prems obtain m where "import_usage (L\<lparr>lg_usage := rows\<rparr>) subject mission fs = (L', m)"
    by (auto simp: rows_def split: prod.splits)
  from Cons.IH[OF this] have rest: "usage_extends rows (lg_usage L')" "\<forall>f\<in>set fs. usage_covers (lg_usage L') f" by auto
  have "usage_extends (lg_usage L) rows" "usage_covers rows f"
    unfolding rows_def by (rule import_fact_extends import_fact_covers)+
  with rest show ?case by (auto intro: usage_extends_trans usage_covers_extends)
qed (simp add: usage_extends_refl)

lemma import_usage_covered: "\<forall>f\<in>set fs. usage_covers (lg_usage L) f \<Longrightarrow> import_usage L subject mission fs = (L, 0)"
  by (induction fs) (auto simp: import_fact_covered)

text \<open>Imported usage: a known row never changes and an unknown one keeps its subject and mission;
  every imported fact has a row, a known one if the fact is known; and importing the same facts again,
  for any subject, changes nothing and reports 0.\<close>

theorem usage_import_append_only:
  assumes "import_usage L subject mission facts = (L', n)"
  shows "usage_extends (lg_usage L) (lg_usage L') \<and> (\<forall>f\<in>set facts. usage_covers (lg_usage L') f) \<and>
    import_usage L' subject' mission' facts = (L', 0)"
  using import_usage_rows[OF assms] import_usage_covered by blast

lemma usage_import_append_only_witness:
  "\<exists>L'. import_usage sample_ledger ''s1'' ''m'' [sample_fact\<lparr>uf_usage_ref := ''u2''\<rparr>] = (L', 1) \<and>
     usage_extends (lg_usage sample_ledger) (lg_usage L') \<and>
     import_usage L' ''s2'' ''m'' [sample_fact\<lparr>uf_usage_ref := ''u2''\<rparr>] = (L', 0)"
proof -
  let ?f = "[sample_fact\<lparr>uf_usage_ref := ''u2''\<rparr>]"
  have "snd (import_usage sample_ledger ''s1'' ''m'' ?f) = 1" by code_simp
  then obtain L' where "import_usage sample_ledger ''s1'' ''m'' ?f = (L', 1)"
    by (cases "import_usage sample_ledger ''s1'' ''m'' ?f") auto
  with usage_import_append_only[OF this] show ?thesis by blast
qed

section \<open>The conservation flag\<close>

text \<open>C38. The flag \<open>budget_conserved\<close> of the cost report cannot be false: whatever the ledger holds, conserved
  or not, \<open>_budget_conserved\<close> answers true for known accounts, because the remaining amount it adds up is
  computed as the pool less the same two columns. \<open>usage_flags\<close> therefore always returns true there.\<close>

theorem budget_conserved_is_constant:
  "usage_flags L mission = Inr (usage_fully_known L mission, True)"
proof -
  have "budget_conserved L is = Inr True" if "\<forall>i\<in>set is. map_of (lg_accounts L) i \<noteq> None" for "is"
    using that
    by (induction "is")
      (auto simp: account_def remaining_tokens_def split: option.splits)
  moreover have "\<forall>i\<in>set (sort (map fst (filter (\<lambda>(i, a). ac_mission_id a = mission) (lg_accounts L)))).
      map_of (lg_accounts L) i \<noteq> None"
    by (auto simp: map_of_eq_None_iff)
  ultimately show ?thesis by (simp add: usage_flags_def)
qed

end
