(* ===== verification/Tail_Correct.thy ===== *)
theory Tail_Correct
  imports Tail Ledger_Correct
begin

text \<open>
  What the tail ledger promises over any sequence of ledger and tail calls: the account columns stay the sums of the
  reservations below them, the held Attempts of an account are the sum of what the holds below it still keep, and a
  transfer that passes its checks completes.
\<close>

section \<open>Chain updates\<close>

lemma chain_applied:
  assumes inv: "ledger_inv L" and ch: "chain L acc = Inr ch" and up: "apply_chain ch f L = Inr L1" and tree: "same_tree f"
  shows "map_of (lg_accounts L1) k = (if under (lg_accounts L) acc k
      then map_option (\<lambda>a. (f a)\<lparr>ac_version := ac_version a + 1\<rparr>) (map_of (lg_accounts L) k) else map_of (lg_accounts L) k)"
    and "under (lg_accounts L1) = under (lg_accounts L)" and "lg_reservations L1 = lg_reservations L"
    and "lg_usage L1 = lg_usage L" and "lg_grants L1 = lg_grants L" and "length (lg_accounts L1) = length (lg_accounts L)"
proof -
  let ?A = "lg_accounts L"
  have wf: "wf_accounts ?A" using inv by (auto simp: ledger_inv_def)
  from chain_Inr_account[OF ch] obtain a0 where "map_of ?A acc = Some a0" by auto
  from chain_returns[OF wf this] ch have ids: "set (map fst ch) = {k. under ?A acc k}" "distinct (map fst ch)"
    "\<forall>(k, b)\<in>set ch. map_of ?A k \<noteq> None" by fastforce+
  from apply_chain_result[OF ids(2,3), of f] up have A1: "dict_keys (lg_accounts L1) = dict_keys ?A"
    "\<And>k. map_of (lg_accounts L1) k =
       (if under ?A acc k then map_option (\<lambda>a. (f a)\<lparr>ac_version := ac_version a + 1\<rparr>) (map_of ?A k) else map_of ?A k)"
    and rest: "lg_reservations L1 = lg_reservations L" "lg_usage L1 = lg_usage L" "lg_grants L1 = lg_grants L"
    using ids(1) by auto
  show "map_of (lg_accounts L1) k = (if under ?A acc k
      then map_option (\<lambda>a. (f a)\<lparr>ac_version := ac_version a + 1\<rparr>) (map_of ?A k) else map_of ?A k)" by (rule A1(2))
  have "parents (lg_accounts L1) = parents ?A"
    by (intro ext) (auto simp: parents_def A1(2) same_tree_def[THEN iffD1, OF tree, rule_format] option.map_comp comp_def)
  then show "under (lg_accounts L1) = under ?A" by (intro ext) (rule under_parents)
  show "lg_reservations L1 = lg_reservations L" "lg_usage L1 = lg_usage L" "lg_grants L1 = lg_grants L" by (fact rest)+
  show "length (lg_accounts L1) = length ?A" using A1(1) by (metis length_map)
qed

section \<open>What ordinary ledger calls leave alone\<close>

definition attempts_kept :: "Ledger \<Rightarrow> Ledger \<Rightarrow> bool" where
  "attempts_kept L L' \<longleftrightarrow>
     (\<forall>k a'. map_of (lg_accounts L') k = Some a' \<longrightarrow>
        ac_reserved_attempts a' = (case map_of (lg_accounts L) k of None \<Rightarrow> 0 | Some a \<Rightarrow> ac_reserved_attempts a)) \<and>
     (\<forall>j. map_of (lg_accounts L) j \<noteq> None \<longrightarrow> map_of (lg_accounts L') j \<noteq> None \<and>
        under (lg_accounts L') j = under (lg_accounts L) j) \<and>
     (\<forall>s r. map_of (lg_reservations L) s = Some r \<longrightarrow>
        (\<exists>r'. map_of (lg_reservations L') s = Some r' \<and> rv_account_id r' = rv_account_id r))"

lemma attempts_kept_refl: "attempts_kept L L"
  by (auto simp: attempts_kept_def)

lemma attempts_kept_tables:
  "lg_accounts L' = lg_accounts L \<Longrightarrow> lg_reservations L' = lg_reservations L \<Longrightarrow> attempts_kept L L'"
  by (auto simp: attempts_kept_def)

lemma attempts_kept_chain:
  assumes "ledger_inv L" and "chain L acc = Inr ch" and "apply_chain ch f L = Inr L1" and "same_tree f"
    and f: "\<And>a. ac_reserved_attempts (f a) = ac_reserved_attempts a"
    and R: "\<And>s r. map_of (lg_reservations L) s = Some r \<Longrightarrow> \<exists>r'. map_of R s = Some r' \<and> rv_account_id r' = rv_account_id r"
  shows "attempts_kept L (L1\<lparr>lg_reservations := R\<rparr>)"
  unfolding attempts_kept_def using R
  by (auto simp: chain_applied[OF assms(1-4)] f split: if_splits option.splits)

lemma attempts_kept_set:
  "map_of rs s = None \<or> (\<exists>q. map_of rs s = Some q \<and> rv_account_id r = rv_account_id q) \<Longrightarrow> map_of rs s' = Some r' \<Longrightarrow>
    \<exists>r''. map_of (dict_set s r rs) s' = Some r'' \<and> rv_account_id r'' = rv_account_id r'"
  by auto

lemma attempts_kept_open:
  assumes inv: "ledger_inv L" and op: "open_account L i scope parent mission limits = Inr L'"
  shows "attempts_kept L L'"
proof (cases "map_of (lg_accounts L) i")
  case (Some a)
  with op have "L' = L" by (auto simp: open_account_def rbind_Inr_iff)
  then show ?thesis by (simp add: attempts_kept_refl)
next
  case None
  from op None obtain a where L': "L' = L\<lparr>lg_accounts := dict_set i a (lg_accounts L)\<rparr>"
    and a: "ac_parent_id a = parent" "ac_reserved_attempts a = 0"
    by (auto simp: open_account_def rbind_Inr_iff)
  have wf: "wf_accounts (lg_accounts L)" using inv by (simp add: ledger_inv_def)
  have par: "case ac_parent_id a of None \<Rightarrow> True | Some p \<Rightarrow> map_of (lg_accounts L) p \<noteq> None"
    using op a by (auto simp: open_account_def account_def rbind_Inr_iff split: option.splits)
  have "under (dict_set i a (lg_accounts L)) j = under (lg_accounts L) j" if "map_of (lg_accounts L) j \<noteq> None" for j
  proof -
    have "j \<noteq> i" using that None by auto
    then show ?thesis using under_new[OF None wf par] by (intro ext) blast
  qed
  then show ?thesis using None a unfolding attempts_kept_def L' by auto
qed

lemma attempts_kept_reserve:
  assumes inv: "ledger_inv L" and "reserve L acc s tokens cost counts calls mission = Inr (rid, L')"
  shows "attempts_kept L L'"
proof (cases "map_of (lg_reservations L) s")
  case (Some r)
  with assms show ?thesis by (simp add: reserve_def attempts_kept_refl)
next
  case None
  let ?f = "\<lambda>a. a\<lparr>ac_reserved_tokens := ac_reserved_tokens a + tokens,
              ac_reserved_cost_micros := ac_reserved_cost_micros a + cost,
              ac_reserved_tool_calls := ac_reserved_tool_calls a + calls,
              ac_attempts_created := ac_attempts_created a + (if counts then 1 else 0)\<rparr>"
  from assms(2) None obtain ch L1 r where ch: "chain L acc = Inr ch" and up: "apply_chain ch ?f L = Inr L1"
    and L': "L' = L1\<lparr>lg_reservations := dict_set s r (lg_reservations L1)\<rparr>"
    by (auto simp: reserve_def Let_def rbind_Inr_iff)
  have tree: "same_tree ?f" by (simp add: same_tree_def)
  show ?thesis unfolding L' chain_applied(3)[OF inv ch up tree]
    by (rule attempts_kept_chain[OF inv ch up tree]) (use None in \<open>auto intro: attempts_kept_set\<close>)
qed

lemma attempts_kept_release:
  assumes inv: "ledger_inv L" and "release_attempt tx L acc = Inr L'"
  shows "attempts_kept L L'"
proof -
  let ?f = "\<lambda>a. a\<lparr>ac_attempts_created := ac_attempts_created a + - 1\<rparr>"
  from assms(2) obtain ch where ch: "chain L acc = Inr ch" and up: "apply_chain ch ?f L = Inr L'"
    by (auto simp: release_attempt_def rbind_Inr_iff split: if_splits)
  have tree: "same_tree ?f" by (simp add: same_tree_def)
  have "attempts_kept L (L'\<lparr>lg_reservations := lg_reservations L\<rparr>)" by (rule attempts_kept_chain[OF inv ch up tree]) auto
  then show ?thesis using chain_applied(3)[OF inv ch up tree] by (simp add: attempts_kept_def)
qed

lemma attempts_kept_grow:
  assumes inv: "ledger_inv L" and "grow tx L s tokens cost = Inr L'"
  shows "attempts_kept L L'"
proof -
  from assms(2) obtain r where r: "map_of (lg_reservations L) s = Some r"
    by (auto simp: grow_def reservation_def split: if_splits option.splits)
  from grow_cases[OF assms(2) r] show ?thesis
  proof (elim disjE exE conjE)
    fix ch L1
    let ?dt = "max 0 (tokens - rv_reserved_tokens r)" and ?dc = "max 0 (cost - rv_reserved_cost_micros r)"
    let ?f = "\<lambda>a. a\<lparr>ac_reserved_tokens := ac_reserved_tokens a + ?dt, ac_reserved_cost_micros := ac_reserved_cost_micros a + ?dc\<rparr>"
    let ?r = "r\<lparr>rv_reserved_tokens := rv_reserved_tokens r + ?dt, rv_reserved_cost_micros := rv_reserved_cost_micros r + ?dc\<rparr>"
    assume ch: "chain L (rv_account_id r) = Inr ch" and up: "apply_chain ch ?f L = Inr L1"
      and L': "L' = L1\<lparr>lg_reservations := dict_set s ?r (lg_reservations L1)\<rparr>"
    have tree: "same_tree ?f" by (simp add: same_tree_def)
    have kept: "\<exists>r''. map_of (dict_set s ?r (lg_reservations L)) s' = Some r'' \<and> rv_account_id r'' = rv_account_id r'"
      if "map_of (lg_reservations L) s' = Some r'" for s' r' using that r by (cases "s' = s") simp_all
    show ?thesis unfolding L' chain_applied(3)[OF inv ch up tree]
      by (rule attempts_kept_chain[OF inv ch up tree _ kept]) simp
  qed (simp add: attempts_kept_refl)
qed

lemma attempts_kept_settle_reservation:
  assumes inv: "ledger_inv L" and r: "map_of (lg_reservations L) s = Some r"
    and "settle_reservation L s r tokens cost col calls unpriced = Inr (r', L')"
  shows "attempts_kept L L'"
proof -
  let ?f = "\<lambda>a. a\<lparr>ac_reserved_tokens := ac_reserved_tokens a + - rv_reserved_tokens r,
         ac_reserved_cost_micros := ac_reserved_cost_micros a + - rv_reserved_cost_micros r,
         ac_reserved_tool_calls := ac_reserved_tool_calls a + - rv_reserved_tool_calls r,
         ac_settled_tokens := ac_settled_tokens a + tokens,
         ac_settled_cost_micros := ac_settled_cost_micros a + cost,
         ac_settled_tool_calls := ac_settled_tool_calls a + calls,
         ac_unpriced_settlements := ac_unpriced_settlements a + (if unpriced then 1 else 0)\<rparr>"
  from assms(3) obtain ch L1 where ch: "chain L (rv_account_id r) = Inr ch" and up: "apply_chain ch ?f L = Inr L1"
    and L': "L' = L1\<lparr>lg_reservations := dict_set s r' (lg_reservations L1)\<rparr>" and r': "rv_account_id r' = rv_account_id r"
    by (auto simp: settle_reservation_def Let_def rbind_Inr_iff)
  have tree: "same_tree ?f" by (simp add: same_tree_def)
  show ?thesis unfolding L' chain_applied(3)[OF inv ch up tree]
    by (rule attempts_kept_chain[OF inv ch up tree]) (use r r' in \<open>auto intro: attempts_kept_set\<close>)
qed

lemma attempts_kept_settle:
  assumes "ledger_inv L"
  shows "settle L s calls = Inr (r, L') \<Longrightarrow> attempts_kept L L'"
    and "settle_known L s calls = Inr (r, L') \<Longrightarrow> attempts_kept L L'"
    and "settle_at_upper_bound L s = Inr (r, L') \<Longrightarrow> attempts_kept L L'"
  using assms
  by (auto simp: settle_defs not_settled Let_def attempts_kept_refl split: option.splits if_splits prod.splits
      intro: attempts_kept_settle_reservation)

lemma attempts_kept_step:
  assumes "ledger_step L L'" and "ledger_inv L"
  shows "attempts_kept L L'"
  using assms
proof (cases rule: ledger_step.cases)
  case (ImportUsage subject mission facts n)
  with import_usage_tables show ?thesis by (blast intro: attempts_kept_tables)
next
  case (Grants gs)
  then show ?thesis by (auto intro: attempts_kept_tables)
qed (use assms(2) in \<open>blast intro: attempts_kept_open attempts_kept_reserve attempts_kept_release attempts_kept_grow attempts_kept_settle\<close>)+


section \<open>Held Attempts\<close>

definition attempts_moved :: "string \<Rightarrow> int \<Rightarrow> Ledger \<Rightarrow> Ledger \<Rightarrow> bool" where
  "attempts_moved acc n L L' \<longleftrightarrow>
     (\<forall>k a'. map_of (lg_accounts L') k = Some a' \<longrightarrow>
        ac_reserved_attempts a' = (case map_of (lg_accounts L) k of None \<Rightarrow> 0 | Some a \<Rightarrow> ac_reserved_attempts a) +
          (if under (lg_accounts L) acc k then n else 0)) \<and>
     (\<forall>j. map_of (lg_accounts L) j \<noteq> None \<longrightarrow> map_of (lg_accounts L') j \<noteq> None \<and>
        under (lg_accounts L') j = under (lg_accounts L) j) \<and>
     (\<forall>s r. map_of (lg_reservations L) s = Some r \<longrightarrow>
        (\<exists>r'. map_of (lg_reservations L') s = Some r' \<and> rv_account_id r' = rv_account_id r))"

lemma attempts_kept_moved: "attempts_kept L L' \<longleftrightarrow> attempts_moved acc 0 L L'"
  by (simp add: attempts_kept_def attempts_moved_def)

lemma attempts_moved_trans:
  assumes 1: "attempts_moved acc n L L1" and 2: "attempts_moved acc m L1 L2" and acc: "map_of (lg_accounts L) acc \<noteq> None"
  shows "attempts_moved acc (n + m) L L2"
  unfolding attempts_moved_def
proof (intro conjI allI impI)
  fix k a' assume k: "map_of (lg_accounts L2) k = Some a'"
  have u: "under (lg_accounts L1) acc = under (lg_accounts L) acc" using 1 acc by (auto simp: attempts_moved_def)
  show "ac_reserved_attempts a' = (case map_of (lg_accounts L) k of None \<Rightarrow> 0 | Some a \<Rightarrow> ac_reserved_attempts a) +
      (if under (lg_accounts L) acc k then n + m else 0)"
  proof (cases "map_of (lg_accounts L1) k")
    case None
    then have "map_of (lg_accounts L) k = None" using 1 unfolding attempts_moved_def by metis
    moreover have "\<not> under (lg_accounts L) acc k" using under_known calculation by blast
    ultimately show ?thesis using 2 k None u by (auto simp: attempts_moved_def)
  next
    case (Some a1)
    with 1 2 k u show ?thesis by (auto simp: attempts_moved_def)
  qed
next
  fix s r assume "map_of (lg_reservations L) s = Some r"
  with 1 obtain r1 where "map_of (lg_reservations L1) s = Some r1" "rv_account_id r1 = rv_account_id r"
    unfolding attempts_moved_def by metis
  with 2 show "\<exists>r'. map_of (lg_reservations L2) s = Some r' \<and> rv_account_id r' = rv_account_id r"
    unfolding attempts_moved_def by metis
qed (use 1 2 in \<open>simp_all add: attempts_moved_def\<close>)

definition held_below :: "accounts \<Rightarrow> (string \<times> TailHold) list \<Rightarrow> string \<Rightarrow> int" where
  "held_below accs holds k =
     sum_list (map (\<lambda>(h, hd). if under accs (th_account_id hd) k then th_remaining_attempts hd else 0) holds)"

lemma held_below_set:
  assumes "distinct (dict_keys holds)"
  shows "held_below accs (dict_set h hold holds) k =
    held_below accs holds k + (if under accs (th_account_id hold) k then th_remaining_attempts hold else 0)
      - (case map_of holds h of None \<Rightarrow> 0 | Some old \<Rightarrow> if under accs (th_account_id old) k then th_remaining_attempts old else 0)"
  unfolding held_below_def by (subst sum_dict_set[OF assms]) (simp split: option.splits)

definition tail_inv :: "tail_store \<Rightarrow> bool" where
  "tail_inv S \<longleftrightarrow> ledger_inv (ts_ledger S) \<and> distinct (dict_keys (ts_holds S)) \<and>
     (\<forall>h hold. map_of (ts_holds S) h = Some hold \<longrightarrow> 0 \<le> th_remaining_attempts hold \<and>
        (\<exists>r. map_of (lg_reservations (ts_ledger S)) (th_subject_id hold) = Some r \<and> rv_account_id r = th_account_id hold)) \<and>
     (\<forall>k a. map_of (lg_accounts (ts_ledger S)) k = Some a \<longrightarrow>
        ac_reserved_attempts a = held_below (lg_accounts (ts_ledger S)) (ts_holds S) k)"

lemma tail_hold_account:
  assumes "tail_inv S" and "map_of (ts_holds S) h = Some hold"
  shows "map_of (lg_accounts (ts_ledger S)) (th_account_id hold) \<noteq> None"
  using assms unfolding tail_inv_def ledger_inv_def by metis

lemma held_below_kept:
  assumes inv: "tail_inv S" and moved: "attempts_moved acc n (ts_ledger S) L'"
  shows "held_below (lg_accounts L') (ts_holds S) k = held_below (lg_accounts (ts_ledger S)) (ts_holds S) k"
proof -
  have "under (lg_accounts L') (th_account_id (snd x)) k = under (lg_accounts (ts_ledger S)) (th_account_id (snd x)) k"
    if "x \<in> set (ts_holds S)" for x
  proof -
    have "map_of (ts_holds S) (fst x) = Some (snd x)"
      using that inv unfolding tail_inv_def by (intro map_of_is_SomeI) auto
    from tail_hold_account[OF inv this] moved show ?thesis by (auto simp: attempts_moved_def)
  qed
  then show ?thesis unfolding held_below_def by (intro arg_cong[of _ _ sum_list] map_cong) (auto simp: case_prod_unfold)
qed

lemma held_below_unknown:
  assumes "map_of accs k = None"
  shows "held_below accs holds k = 0"
proof -
  have "\<not> under accs j k" for j using under_known assms by blast
  then show ?thesis by (simp add: held_below_def case_prod_unfold)
qed

lemma attempts_after_move:
  assumes inv: "tail_inv S" and moved: "attempts_moved acc n (ts_ledger S) L'" and "map_of (lg_accounts L') k = Some a"
  shows "ac_reserved_attempts a = held_below (lg_accounts L') (ts_holds S) k + (if under (lg_accounts (ts_ledger S)) acc k then n else 0)"
  using assms held_below_kept[OF inv moved, of k] held_below_unknown[of "lg_accounts (ts_ledger S)" k "ts_holds S"]
  unfolding tail_inv_def attempts_moved_def by (auto split: option.splits)

lemma holds_after_move:
  assumes "tail_inv S" and "attempts_moved acc n (ts_ledger S) L'" and "map_of (ts_holds S) h = Some hold"
  shows "0 \<le> th_remaining_attempts hold \<and>
    (\<exists>r. map_of (lg_reservations L') (th_subject_id hold) = Some r \<and> rv_account_id r = th_account_id hold)"
  using assms unfolding tail_inv_def attempts_moved_def by metis

lemma tail_inv_ledger:
  assumes inv: "tail_inv S" and L': "ledger_inv L'" and kept: "attempts_kept (ts_ledger S) L'"
    and S': "ts_ledger S' = L'" "ts_holds S' = ts_holds S"
  shows "tail_inv S'"
proof -
  note moved = kept[unfolded attempts_kept_moved[where acc = "[]"]]
  from inv L' holds_after_move[OF inv moved] attempts_after_move[OF inv moved] show ?thesis
    unfolding tail_inv_def S' by simp
qed

text \<open>A tail operation changes one hold and moves as many held Attempts along the chain of its account.\<close>

lemma tail_inv_move:
  assumes inv: "tail_inv S" and L': "ledger_inv L'" and moved: "attempts_moved acc n (ts_ledger S) L'"
    and acc: "map_of (lg_accounts (ts_ledger S)) acc \<noteq> None"
    and hold: "th_account_id hold = acc" "0 \<le> th_remaining_attempts hold"
      "\<exists>r. map_of (lg_reservations L') (th_subject_id hold) = Some r \<and> rv_account_id r = acc"
      "case map_of (ts_holds S) h of None \<Rightarrow> th_remaining_attempts hold = n
       | Some old \<Rightarrow> th_account_id old = acc \<and> th_remaining_attempts hold = th_remaining_attempts old + n"
    and S': "ts_ledger S' = L'" "ts_holds S' = dict_set h hold (ts_holds S)"
  shows "tail_inv S'"
proof -
  have dist: "distinct (dict_keys (ts_holds S))" using inv by (simp add: tail_inv_def)
  have u: "under (lg_accounts L') acc = under (lg_accounts (ts_ledger S)) acc" using moved acc by (auto simp: attempts_moved_def)
  have "ac_reserved_attempts a = held_below (lg_accounts L') (dict_set h hold (ts_holds S)) k"
    if "map_of (lg_accounts L') k = Some a" for k a
    using attempts_after_move[OF inv moved that] hold(1,4) u by (auto simp: held_below_set[OF dist] split: option.splits)
  then show ?thesis
    using L' distinct_update[OF dist] holds_after_move[OF inv moved] hold unfolding tail_inv_def S' by auto
qed

section \<open>The operations\<close>

lemma hold_attempts_moves:
  assumes inv: "ledger_inv L" and "hold_attempts n acc L = Inr L'"
  shows "ledger_inv L' \<and> attempts_moved acc n L L' \<and> lg_reservations L' = lg_reservations L"
proof (cases "n = 0")
  case True
  with assms show ?thesis using attempts_kept_refl[unfolded attempts_kept_moved[where acc = acc]]
    by (auto simp: hold_attempts_def rbind_Inr_iff)
next
  case False
  let ?f = "\<lambda>a. a\<lparr>ac_reserved_attempts := ac_reserved_attempts a + n\<rparr>"
  from assms(2) False obtain ch where ch: "chain L acc = Inr ch" and up: "apply_chain ch ?f L = Inr L'"
    by (auto simp: hold_attempts_def rbind_Inr_iff)
  have tree: "same_tree ?f" by (simp add: same_tree_def)
  note app = chain_applied[OF inv ch up tree]
  have f: "reserved_dim d (?f a) = reserved_dim d a + 0 \<and> settled_dim d (?f a) = settled_dim d a + 0" for a d
    by (cases d) auto
  have "ledger_inv (L'\<lparr>lg_reservations := lg_reservations L\<rparr>)"
    by (rule ledger_inv_chain_columns[OF inv ch up chain_Inr_account[OF ch] tree f]; use inv in \<open>auto simp: ledger_inv_def\<close>)
  then have "ledger_inv L'" using app(3) by (simp add: ledger_inv_def)
  moreover have "attempts_moved acc n L L'"
    unfolding attempts_moved_def by (auto simp: app dest: under_known split: if_splits option.splits)
  ultimately show ?thesis using app(3) by simp
qed

lemma take_from_hold_moves:
  assumes inv: "ledger_inv L" and r: "map_of (lg_reservations L) (th_subject_id hold) = Some r" "rv_state r = RESERVED"
      "rv_account_id r = th_account_id hold"
    and "take_from_hold L hold r x = Inr L'"
  shows "ledger_inv L' \<and> attempts_moved (th_account_id hold) (- am_attempts x) L L'"
proof -
  let ?f = "\<lambda>a. a\<lparr>ac_reserved_tokens := ac_reserved_tokens a + - am_tokens x,
         ac_reserved_cost_micros := ac_reserved_cost_micros a + - am_cost_micros x,
         ac_reserved_tool_calls := ac_reserved_tool_calls a + - am_tool_calls x,
         ac_reserved_attempts := ac_reserved_attempts a + - am_attempts x\<rparr>"
  let ?r = "r\<lparr>rv_reserved_tokens := rv_reserved_tokens r - am_tokens x,
          rv_reserved_cost_micros := rv_reserved_cost_micros r - am_cost_micros x,
          rv_reserved_tool_calls := rv_reserved_tool_calls r - am_tool_calls x\<rparr>"
  from assms(5) obtain ch L1 where ch: "chain L (th_account_id hold) = Inr ch" and up: "apply_chain ch ?f L = Inr L1"
    and L': "L' = L1\<lparr>lg_reservations := dict_set (th_subject_id hold) ?r (lg_reservations L1)\<rparr>"
    by (auto simp: take_from_hold_def rbind_Inr_iff)
  have tree: "same_tree ?f" by (simp add: same_tree_def)
  note app = chain_applied[OF inv ch up tree]
  let ?dr = "\<lambda>d. case d of D_tokens \<Rightarrow> - am_tokens x | D_cost \<Rightarrow> - am_cost_micros x | D_calls \<Rightarrow> - am_tool_calls x"
  have "ledger_inv L'" unfolding L'
  proof (rule ledger_inv_chain_update[OF inv ch up chain_Inr_account[OF ch], where dr = ?dr and ds = "\<lambda>d. 0"])
    show "same_tree ?f" by (rule tree)
    show "reserved_dim d (?f a) = reserved_dim d a + ?dr d \<and> settled_dim d (?f a) = settled_dim d a + 0" for a d
      by (cases d) auto
  qed (use r in \<open>auto simp: live_part_def settled_part_def split: dimension.splits\<close>)
  moreover have "attempts_moved (th_account_id hold) (- am_attempts x) L L'"
    unfolding attempts_moved_def L' using r(1) by (auto simp: app dest: under_known split: if_splits option.splits)
  ultimately show ?thesis by blast
qed

lemma reserve_all_length: "reserve_all mission as L = Inr (rids, L') \<Longrightarrow> length rids = length as"
  by (induction as arbitrary: L rids) (auto simp: rbind_Inr_iff)

lemma reserve_all_kept:
  "reserve_all mission as L = Inr (rids, L') \<Longrightarrow> ledger_inv L \<Longrightarrow> map_of (lg_accounts L) acc \<noteq> None \<Longrightarrow>
    ledger_inv L' \<and> attempts_moved acc 0 L L'"
proof (induction as arbitrary: L rids)
  case Nil
  then show ?case using attempts_kept_refl[unfolded attempts_kept_moved[where acc = acc]] by simp
next
  case (Cons a as)
  then obtain rid L1 rids' where step: "reserve L (al_account_id a) (al_subject_id a) (al_tokens a) (al_cost_micros a)
      (al_counts_attempt a) (al_tool_calls a) (Some mission) = Inr (rid, L1)" and rest: "reserve_all mission as L1 = Inr (rids', L')"
    by (auto simp: rbind_Inr_iff)
  have inv1: "ledger_inv L1" by (rule ledger_inv_reserve[OF Cons.prems(2) step])
  have kept: "attempts_moved acc 0 L L1"
    using attempts_kept_reserve[OF Cons.prems(2) step] by (simp add: attempts_kept_moved[where acc = acc])
  then have "map_of (lg_accounts L1) acc \<noteq> None" using Cons.prems(3) by (simp add: attempts_moved_def)
  from Cons.IH[OF rest inv1 this] have "ledger_inv L'" "attempts_moved acc 0 L1 L'" by auto
  with attempts_moved_trans[OF kept _ Cons.prems(3)] show ?case by fastforce
qed


lemma reserve_new_row:
  assumes "ledger_inv L" and "reserve L acc s tokens cost counts calls mission = Inr (rid, L')" and "map_of (lg_reservations L) s = None"
  shows "\<exists>r. map_of (lg_reservations L') s = Some r \<and> rv_account_id r = acc"
  using assms(2,3) by (auto simp: reserve_def Let_def rbind_Inr_iff)

lemma reserve_tail_inv:
  assumes inv: "tail_inv S" and "0 \<le> tr_attempts res" and "reserve_tail tx S h acc res mission revision purpose = Inr (hold, S')"
  shows "tail_inv S'"
proof (cases "map_of (ts_holds S) h")
  case (Some prior)
  with assms show ?thesis by (auto simp: reserve_tail_def rbind_Inr_iff Let_def split: if_splits)
next
  case None
  let ?L = "ts_ledger S" and ?n = "tr_attempts res"
  from assms(3) None obtain rid L1 L2 ch where ch: "chain ?L acc = Inr ch"
    and fresh: "map_of (lg_reservations ?L) (''tail:'' @ h) = None"
    and res: "reserve ?L acc (''tail:'' @ h) (tr_tokens res) (tr_cost_micros res) False (tr_tool_calls res) (Some mission) = Inr (rid, L1)"
    and att: "hold_attempts ?n acc L1 = Inr L2"
    and hold: "th_account_id hold = acc" "th_remaining_attempts hold = ?n" "th_subject_id hold = ''tail:'' @ h"
    and S': "ts_ledger S' = L2" "ts_holds S' = dict_set h hold (ts_holds S)"
    by (auto simp: reserve_tail_def rbind_Inr_iff Let_def reservation_def split: if_splits)
  have inv0: "ledger_inv ?L" using inv by (simp add: tail_inv_def)
  have inv1: "ledger_inv L1" by (rule ledger_inv_reserve[OF inv0 res])
  note moves = hold_attempts_moves[OF inv1 att]
  have "attempts_moved acc (0 + ?n) ?L L2"
    using attempts_moved_trans[OF attempts_kept_reserve[OF inv0 res, unfolded attempts_kept_moved[where acc = acc]] _ chain_Inr_account[OF ch]]
      moves by blast
  moreover have "\<exists>r. map_of (lg_reservations L2) (th_subject_id hold) = Some r \<and> rv_account_id r = acc"
    using reserve_new_row[OF inv0 res fresh] moves hold(3) by simp
  ultimately show ?thesis
    using tail_inv_move[OF inv _ _ chain_Inr_account[OF ch] hold(1) _ _ _ S'] moves hold(2) assms(2) None by simp
qed

lemma over_Inr: "over i what n remaining = Inr u \<longleftrightarrow> (case remaining of None \<Rightarrow> True | Some m \<Rightarrow> n \<le> m)"
  by (auto simp: over_def exceeds_def split: option.splits)

lemma live_hold_Inr:
  assumes "live_hold S h revision = Inr (hold, origin, r)"
  shows "map_of (ts_holds S) h = Some hold" "th_state hold = HELD"
    "map_of (lg_reservations (ts_ledger S)) (th_subject_id hold) = Some r" "rv_state r = RESERVED"
  using assms by (auto simp: live_hold_def rbind_Inr_iff reservation_def split: option.splits if_splits)

lemma transfer_preflight_Inr:
  assumes "transfer_preflight S h revision as = Inr (hold, r)"
  obtains origin ch ds where "live_hold S h revision = Inr (hold, origin, r)" "chain (ts_ledger S) (th_account_id hold) = Inr ch"
    "am_attempts (total_amounts as) \<le> th_remaining_attempts hold" "am_tokens (total_amounts as) \<le> rv_reserved_tokens r"
    "am_cost_micros (total_amounts as) \<le> rv_reserved_cost_micros r" "am_tool_calls (total_amounts as) \<le> rv_reserved_tool_calls r"
    "check_allocations S hold origin as (add_deltas ch (minus_amounts (total_amounts as)) []) = Inr ds"
    "\<forall>x\<in>set ds. check_delta (ts_ledger S) x = Inr ()"
  using assms by (auto simp: transfer_preflight_def rbind_Inr_iff Let_def over_Inr for_each_ok)

lemma tail_hold_row:
  assumes "tail_inv S" and "map_of (ts_holds S) h = Some hold" and "map_of (lg_reservations (ts_ledger S)) (th_subject_id hold) = Some r"
  shows "rv_account_id r = th_account_id hold"
  using assms unfolding tail_inv_def by (metis option.inject)

lemma transfer_tail_inv:
  assumes inv: "tail_inv S" and "transfer_tail tx S h tid as revision = Inr (receipt, S')"
  shows "tail_inv S'"
proof (cases "map_of (ts_transfers S) (h, tid)")
  case (Some prior)
  with assms show ?thesis by (auto simp: transfer_tail_def rbind_Inr_iff Let_def split: if_splits)
next
  case None
  let ?L = "ts_ledger S" and ?x = "total_amounts (sort_key al_subject_id as)"
  from assms(2) None obtain hold r L1 rids L2 where pre: "transfer_preflight S h revision (sort_key al_subject_id as) = Inr (hold, r)"
    and take: "take_from_hold ?L hold r ?x = Inr L1"
    and res: "reserve_all (th_mission_id hold) (sort_key al_subject_id as) L1 = Inr (rids, L2)"
    and S': "ts_ledger S' = L2"
      "ts_holds S' = dict_set h (hold\<lparr>th_remaining_attempts := th_remaining_attempts hold - am_attempts ?x\<rparr>) (ts_holds S)"
    by (auto simp: transfer_tail_def rbind_Inr_iff Let_def split: if_splits)
  from transfer_preflight_Inr[OF pre] obtain origin where live: "live_hold S h revision = Inr (hold, origin, r)"
    and att: "am_attempts ?x \<le> th_remaining_attempts hold" by blast
  note row = live_hold_Inr[OF live]
  note acc = tail_hold_row[OF inv row(1,3)] and known = tail_hold_account[OF inv row(1)]
  have inv0: "ledger_inv ?L" using inv by (simp add: tail_inv_def)
  note moves = take_from_hold_moves[OF inv0 row(3,4) acc take]
  have "map_of (lg_accounts L1) (th_account_id hold) \<noteq> None" using moves known by (simp add: attempts_moved_def)
  note kept = reserve_all_kept[OF res _ this]
  have moved: "attempts_moved (th_account_id hold) (- am_attempts ?x + 0) ?L L2"
    using attempts_moved_trans[OF _ _ known] moves kept by blast
  moreover have "\<exists>r'. map_of (lg_reservations L2) (th_subject_id hold) = Some r' \<and> rv_account_id r' = th_account_id hold"
    using moved row(3) acc unfolding attempts_moved_def by metis
  ultimately show ?thesis
    using tail_inv_move[OF inv _ _ known _ _ _ _ S'] moves kept row(1) att by simp
qed

lemma release_tail_inv:
  assumes inv: "tail_inv S" and "release_tail tx S h revision reason = Inr (r, S')"
  shows "tail_inv S'"
proof -
  let ?L = "ts_ledger S"
  from assms(2) obtain hold where hold: "map_of (ts_holds S) h = Some hold"
    by (auto simp: release_tail_def rbind_Inr_iff split: option.splits if_splits)
  show ?thesis
  proof (cases "th_state hold = RELEASED")
    case True
    with assms hold show ?thesis by (auto simp: release_tail_def rbind_Inr_iff split: option.splits if_splits)
  next
    case False
    let ?n = "- th_remaining_attempts hold" and ?acc = "th_account_id hold"
    from assms(2) hold False obtain L1 L2 where set: "settle ?L (th_subject_id hold) 0 = Inr (r, L1)"
      and att: "hold_attempts ?n ?acc L1 = Inr L2"
      and S': "ts_ledger S' = L2" "ts_holds S' = dict_set h (hold\<lparr>th_state := RELEASED, th_remaining_attempts := 0,
                th_release_reason := Some reason\<rparr>) (ts_holds S)"
      by (auto simp: release_tail_def rbind_Inr_iff split: if_splits)
    have inv0: "ledger_inv ?L" using inv by (simp add: tail_inv_def)
    note known = tail_hold_account[OF inv hold]
    have inv1: "ledger_inv L1" by (rule ledger_inv_settle(1)[OF inv0 set])
    note moves = hold_attempts_moves[OF inv1 att]
    have moved: "attempts_moved ?acc (0 + ?n) ?L L2"
      using attempts_moved_trans[OF attempts_kept_settle(1)[OF inv0 set, unfolded attempts_kept_moved[where acc = ?acc]] _ known]
        moves by blast
    moreover have "\<exists>r'. map_of (lg_reservations L2) (th_subject_id hold) = Some r' \<and> rv_account_id r' = ?acc"
      using holds_after_move[OF inv moved hold] by blast
    ultimately show ?thesis using tail_inv_move[OF inv _ _ known _ _ _ _ S'] moves hold by simp
  qed
qed


text \<open>Growth moves an amount between two live reservations of one account and touches no account.\<close>

lemma growth_target_Inr:
  assumes "growth_target S h hold subject = Inr (source, target)"
  shows "subject \<noteq> th_subject_id hold" "map_of (lg_reservations (ts_ledger S)) (th_subject_id hold) = Some source"
    "rv_state source = RESERVED" "map_of (lg_reservations (ts_ledger S)) subject = Some target" "rv_state target = RESERVED"
    "rv_account_id target = th_account_id hold"
  using assms by (simp_all add: growth_target_def reservation_def Let_def split: option.splits if_splits)

lemma growth_effect:
  assumes "grow_tail_allocation tx S h subject revision tokens cost minimum = Inr S'"
  shows "\<exists>hold source target. map_of (ts_holds S) h = Some hold \<and> growth_target S h hold subject = Inr (source, target) \<and>
    (S' = S \<and> tokens \<le> rv_reserved_tokens target \<and> cost \<le> rv_reserved_cost_micros target \<or>
     max tokens (rv_reserved_tokens target) - rv_reserved_tokens target \<le> max 0 (rv_reserved_tokens source - tr_tokens minimum) \<and>
     max cost (rv_reserved_cost_micros target) - rv_reserved_cost_micros target \<le> max 0 (rv_reserved_cost_micros source - tr_cost_micros minimum) \<and>
     ts_holds S' = ts_holds S \<and>
     ts_ledger S' = grown (ts_ledger S) hold source target subject (max tokens (rv_reserved_tokens target)) (max cost (rv_reserved_cost_micros target)))"
proof -
  from assms obtain hold where h: "map_of (ts_holds S) h = Some hold"
    by (cases "map_of (ts_holds S) h") (auto simp: grow_tail_allocation_def rbind_Inr_iff split: if_splits)
  from assms h obtain source target where g: "growth_target S h hold subject = Inr (source, target)"
    by (auto simp: grow_tail_allocation_def rbind_Inr_iff split: if_splits)
  let ?t = "max tokens (rv_reserved_tokens target)" and ?c = "max cost (rv_reserved_cost_micros target)"
  have "S' = S \<and> ?t - rv_reserved_tokens target = 0 \<and> ?c - rv_reserved_cost_micros target = 0 \<or>
      ?t - rv_reserved_tokens target \<le> max 0 (rv_reserved_tokens source - tr_tokens minimum) \<and>
      ?c - rv_reserved_cost_micros target \<le> max 0 (rv_reserved_cost_micros source - tr_cost_micros minimum) \<and>
      S' = S\<lparr>ts_ledger := grown (ts_ledger S) hold source target subject ?t ?c, ts_growths := growth_key h subject ?t ?c # ts_growths S\<rparr>"
    using assms unfolding grow_tail_allocation_def Let_def
    by (simp only: h g rbind_Inr_iff over_Inr option.case prod.case rbind.simps sum.inject split: if_split_asm) blast+
  then show ?thesis by - (rule_tac x = hold in exI, rule_tac x = source in exI, rule_tac x = target in exI, elim disjE; simp add: h g max_def split: if_splits)
qed

lemma grow_tail_inv:
  assumes inv: "tail_inv S" and "grow_tail_allocation tx S h subject revision tokens cost minimum = Inr S'"
  shows "tail_inv S'"
  using growth_effect[OF assms(2)]
proof (elim disjE exE conjE)
  fix hold source target
  assume hold: "map_of (ts_holds S) h = Some hold" and "growth_target S h hold subject = Inr (source, target)"
    and S': "ts_holds S' = ts_holds S"
      "ts_ledger S' = grown (ts_ledger S) hold source target subject (max tokens (rv_reserved_tokens target)) (max cost (rv_reserved_cost_micros target))"
  note t = growth_target_Inr[OF this(2)] and R = S'(2)[unfolded grown_def]
  let ?L = "ts_ledger S"
  note acc = tail_hold_row[OF inv hold t(2)]
  have inv0: "ledger_inv ?L" using inv by (simp add: tail_inv_def)
  then have dist: "distinct (dict_keys (lg_reservations ?L))" by (simp add: ledger_inv_def)
  have live: "total_below (live_part d) (lg_accounts ?L) (lg_reservations (ts_ledger S')) k =
      total_below (live_part d) (lg_accounts ?L) (lg_reservations ?L) k" for d k
    using t acc by (cases d) (simp_all add: R total_dict_set distinct_update dist live_part_def)
  have settled: "total_below (settled_part d) (lg_accounts ?L) (lg_reservations (ts_ledger S')) k =
      total_below (settled_part d) (lg_accounts ?L) (lg_reservations ?L) k" for d k
    using t acc by (cases d) (simp_all add: R total_dict_set distinct_update dist settled_part_def)
  have accs: "lg_accounts (ts_ledger S') = lg_accounts ?L" by (simp add: R)
  have "ledger_inv (ts_ledger S')"
  proof -
    have "map_of (lg_accounts ?L) (th_account_id hold) \<noteq> None" by (rule tail_hold_account[OF inv hold])
    with inv0 t acc show ?thesis unfolding ledger_inv_def accs live settled by (auto simp: R distinct_update split: if_splits)
  qed
  moreover have "attempts_kept ?L (ts_ledger S')"
    unfolding attempts_kept_def accs using t by (auto simp: R)
  ultimately show ?thesis by (rule tail_inv_ledger[OF inv _ _ refl S'(1)])
qed (use inv in simp)

section \<open>Every reachable store\<close>

definition empty_tail_store :: tail_store where
  "empty_tail_store = \<lparr>ts_ledger = empty_ledger, ts_tasks = [], ts_missions = [], ts_holds = [], ts_transfers = [], ts_growths = []\<rparr>"

text \<open>Tasks and Missions change in any way between two calls.\<close>

inductive tail_step :: "tail_store \<Rightarrow> tail_store \<Rightarrow> bool" where
  Money: "ledger_step (ts_ledger S) L \<Longrightarrow> tail_step S (S\<lparr>ts_ledger := L\<rparr>)"
| Records: "tail_step S (S\<lparr>ts_tasks := tasks, ts_missions := missions\<rparr>)"
| ReserveTail: "make_TailReserve t c u n = Inr res \<Longrightarrow> reserve_tail tx S h acc res mission revision purpose = Inr (hold, S') \<Longrightarrow> tail_step S S'"
| TransferTail: "transfer_tail tx S h tid as revision = Inr (receipt, S') \<Longrightarrow> tail_step S S'"
| GrowTail: "grow_tail_allocation tx S h subject revision tokens cost minimum = Inr S' \<Longrightarrow> tail_step S S'"
| ReleaseTail: "release_tail tx S h revision reason = Inr (r, S') \<Longrightarrow> tail_step S S'"

inductive tail_reachable :: "tail_store \<Rightarrow> bool" where
  Start: "tail_reachable empty_tail_store"
| Step: "tail_reachable S \<Longrightarrow> tail_step S S' \<Longrightarrow> tail_reachable S'"

lemma make_TailReserve_nonneg: "make_TailReserve t c u n = Inr res \<Longrightarrow> 0 \<le> tr_attempts res"
  by (auto simp: make_TailReserve_def split: if_splits)

lemma tail_inv_step:
  assumes "tail_step S S'" and inv: "tail_inv S"
  shows "tail_inv S'"
  using assms(1)
proof (cases rule: tail_step.cases)
  case (Money L)
  have inv0: "ledger_inv (ts_ledger S)" using inv by (simp add: tail_inv_def)
  show ?thesis
    by (rule tail_inv_ledger[OF inv ledger_inv_step[OF Money(2) inv0] attempts_kept_step[OF Money(2) inv0]])
      (simp_all add: Money(1))
next
  case (Records tasks missions)
  with inv show ?thesis by (simp add: tail_inv_def)
next
  case (ReserveTail t c u n res tx h acc mission revision purpose hold)
  with inv make_TailReserve_nonneg show ?thesis by (blast intro: reserve_tail_inv)
qed (use inv in \<open>blast intro: transfer_tail_inv grow_tail_inv release_tail_inv\<close>)+

lemma tail_inv_reachable: "tail_reachable S \<Longrightarrow> tail_inv S"
proof (induction rule: tail_reachable.induct)
  case Start
  show ?case by (simp add: tail_inv_def empty_tail_store_def ledger_inv_def empty_ledger_def wf_accounts_def)
qed (rule tail_inv_step)

text \<open>C20. Whatever sequence of ledger and tail calls has run, every account still adds up: its reserved and settled columns
  are the sums over the reservations below it, holds included, and the Attempts it keeps back are exactly those that
  the holds below it have not yet spent or released. In particular that number is never negative, so the check constraint of
  the table never fires.\<close>

theorem tail_conserves:
  assumes "tail_reachable S" and "account (ts_ledger S) k = Inr a"
  shows "reserved_dim d a = total_below (live_part d) (lg_accounts (ts_ledger S)) (lg_reservations (ts_ledger S)) k \<and>
    settled_dim d a = total_below (settled_part d) (lg_accounts (ts_ledger S)) (lg_reservations (ts_ledger S)) k \<and>
    ac_reserved_attempts a = held_below (lg_accounts (ts_ledger S)) (ts_holds S) k \<and> 0 \<le> ac_reserved_attempts a"
proof -
  note inv = tail_inv_reachable[OF assms(1)]
  have a: "map_of (lg_accounts (ts_ledger S)) k = Some a" using assms(2) by (auto simp: account_def split: option.splits)
  have "0 \<le> th_remaining_attempts (snd x)" if "x \<in> set (ts_holds S)" for x
  proof -
    have "map_of (ts_holds S) (fst x) = Some (snd x)" using that inv unfolding tail_inv_def by (intro map_of_is_SomeI) auto
    with inv show ?thesis unfolding tail_inv_def by blast
  qed
  then have "0 \<le> held_below (lg_accounts (ts_ledger S)) (ts_holds S) k"
    unfolding held_below_def by (intro sum_list_nonneg) (auto simp: case_prod_unfold)
  with inv a show ?thesis by (simp add: tail_inv_def ledger_inv_def)
qed


section \<open>A transfer that passes its checks completes\<close>

text \<open>One of the four dimensions of an amount.\<close>

definition linear :: "(amounts \<Rightarrow> int) \<Rightarrow> bool" where
  "linear c \<longleftrightarrow> c no_amounts = 0 \<and> (\<forall>x y. c (plus_amounts x y) = c x + c y) \<and> (\<forall>x. c (minus_amounts x) = - c x)"

lemma linear_dims: "linear am_tokens" "linear am_cost_micros" "linear am_tool_calls" "linear am_attempts"
  by (simp_all add: linear_def no_amounts_def plus_amounts_def minus_amounts_def)

definition asked :: "accounts \<Rightarrow> (amounts \<Rightarrow> int) \<Rightarrow> TailAllocation list \<Rightarrow> string \<Rightarrow> int" where
  "asked accs c as k = sum_list (map (\<lambda>a. if under accs (al_account_id a) k then c (amounts_of a) else 0) as)"

definition touched :: "accounts \<Rightarrow> TailAllocation list \<Rightarrow> string \<Rightarrow> bool" where
  "touched accs as k \<longleftrightarrow> (\<exists>a\<in>set as. under accs (al_account_id a) k)"

lemma add_deltas_get:
  assumes "linear c" and "distinct (map fst ch)"
  shows "c (dict_get (add_deltas ch x ds) k no_amounts) = c (dict_get ds k no_amounts) + (if k \<in> fst ` set ch then c x else 0)"
  using assms(2) unfolding add_deltas_def
proof (induction ch arbitrary: ds)
  case (Cons ia ch)
  then have "fst ia \<notin> fst ` set ch" by simp
  with Cons assms(1) show ?case by (auto simp: linear_def)
qed simp

lemma add_deltas_keys:
  "fst ` set (add_deltas ch x ds) = fst ` set ds \<union> fst ` set ch" "distinct (dict_keys ds) \<Longrightarrow> distinct (dict_keys (add_deltas ch x ds))"
proof -
  show "fst ` set (add_deltas ch x ds) = fst ` set ds \<union> fst ` set ch"
    unfolding add_deltas_def by (induction ch arbitrary: ds) (auto simp flip: dom_map_of_conv_image_fst)
  show "distinct (dict_keys ds) \<Longrightarrow> distinct (dict_keys (add_deltas ch x ds))"
    unfolding add_deltas_def by (induction ch arbitrary: ds) (simp_all add: distinct_update)
qed

lemma chain_ids:
  assumes "ledger_inv L" and "chain L acc = Inr ch"
  shows "fst ` set ch = {k. under (lg_accounts L) acc k}" "distinct (map fst ch)" "\<forall>(k, b)\<in>set ch. map_of (lg_accounts L) k = Some b"
proof -
  from chain_Inr_account[OF assms(2)] obtain a0 where a0: "map_of (lg_accounts L) acc = Some a0" by auto
  have wf: "wf_accounts (lg_accounts L)" using assms(1) by (simp add: ledger_inv_def)
  from chain_returns[OF wf a0] obtain ch' where "chain L acc = Inr ch'" "set (map fst ch') = {k. under (lg_accounts L) acc k}"
    "distinct (map fst ch')" "\<forall>(k, b)\<in>set ch'. map_of (lg_accounts L) k = Some b" by blast
  with assms(2) show "fst ` set ch = {k. under (lg_accounts L) acc k}" "distinct (map fst ch)" "\<forall>(k, b)\<in>set ch. map_of (lg_accounts L) k = Some b"
    by simp_all
qed

lemma check_allocation_Inr:
  assumes "check_allocation S hold origin a ds = Inr ds'"
  shows "map_of (lg_reservations (ts_ledger S)) (al_subject_id a) = None \<and>
    (\<exists>ch. chain (ts_ledger S) (al_account_id a) = Inr ch \<and> ds' = add_deltas ch (amounts_of a) ds)"
  using assms by (auto simp: check_allocation_def reservation_def rbind_Inr_iff split: if_splits)

lemma check_allocations_Inr:
  assumes inv: "ledger_inv (ts_ledger S)" and "linear c"
  shows "check_allocations S hold origin as ds = Inr ds' \<Longrightarrow>
    c (dict_get ds' k no_amounts) = c (dict_get ds k no_amounts) + asked (lg_accounts (ts_ledger S)) c as k \<and>
    fst ` set ds \<subseteq> fst ` set ds' \<and> (touched (lg_accounts (ts_ledger S)) as k \<longrightarrow> k \<in> fst ` set ds') \<and>
    (distinct (dict_keys ds) \<longrightarrow> distinct (dict_keys ds')) \<and>
    (\<forall>a\<in>set as. map_of (lg_reservations (ts_ledger S)) (al_subject_id a) = None \<and> map_of (lg_accounts (ts_ledger S)) (al_account_id a) \<noteq> None)"
proof (induction as arbitrary: ds)
  case Nil
  then show ?case by (simp add: asked_def touched_def)
next
  case (Cons a as)
  then obtain ds1 where step: "check_allocation S hold origin a ds = Inr ds1" and rest: "check_allocations S hold origin as ds1 = Inr ds'"
    by (auto simp: rbind_Inr_iff)
  from check_allocation_Inr[OF step] obtain ch where ch: "chain (ts_ledger S) (al_account_id a) = Inr ch"
    and ds1: "ds1 = add_deltas ch (amounts_of a) ds" and fresh: "map_of (lg_reservations (ts_ledger S)) (al_subject_id a) = None" by blast
  note ids = chain_ids[OF inv ch]
  have "c (dict_get ds1 k no_amounts) = c (dict_get ds k no_amounts) + (if under (lg_accounts (ts_ledger S)) (al_account_id a) k then c (amounts_of a) else 0)"
    unfolding ds1 add_deltas_get[OF assms(2) ids(2)] ids(1) by simp
  moreover have "fst ` set ds1 = fst ` set ds \<union> {k. under (lg_accounts (ts_ledger S)) (al_account_id a) k}"
    unfolding ds1 add_deltas_keys(1) ids(1) by simp
  moreover have "distinct (dict_keys ds) \<Longrightarrow> distinct (dict_keys ds1)" unfolding ds1 by (rule add_deltas_keys(2))
  ultimately show ?case using Cons.IH[OF rest] fresh chain_Inr_account[OF ch] by (auto simp: asked_def touched_def)
qed

definition room_for :: "Ledger \<Rightarrow> TailAllocation list \<Rightarrow> bool" where
  "room_for L as \<longleftrightarrow> (\<forall>k a. map_of (lg_accounts L) k = Some a \<longrightarrow> touched (lg_accounts L) as k \<longrightarrow>
     under_limit (asked (lg_accounts L) am_tokens as k) (remaining_tokens a) \<and>
     under_limit (asked (lg_accounts L) am_cost_micros as k) (remaining_cost_micros a) \<and>
     under_limit (asked (lg_accounts L) am_tool_calls as k) (remaining_tool_calls a) \<and>
     under_limit (asked (lg_accounts L) am_attempts as k) (remaining_attempts a))"

lemma exceeds_limit: "\<not> exceeds n l \<longleftrightarrow> under_limit n l"
  by (cases l) (auto simp: exceeds_def)

lemma under_limit_taken:
  "under_limit ((if u then n else 0) + m) l \<Longrightarrow> l' = (if u then map_option (\<lambda>x. x - n) l else l) \<Longrightarrow> under_limit m l'"
  by (cases l) (auto split: if_splits)

definition valid_allocation :: "TailAllocation \<Rightarrow> bool" where
  "valid_allocation a \<longleftrightarrow> 0 \<le> al_tokens a \<and> 0 \<le> al_cost_micros a \<and> 0 \<le> al_tool_calls a"

lemma check_TailAllocation_valid: "check_TailAllocation a = Inr u \<Longrightarrow> valid_allocation a"
  by (auto simp: check_TailAllocation_def valid_allocation_def make_TailReserve_def rbind_Inr_iff split: if_splits)

lemma asked_nonneg: "\<forall>a\<in>set as. 0 \<le> c (amounts_of a) \<Longrightarrow> 0 \<le> asked accs c as k"
  unfolding asked_def by (intro sum_list_nonneg) auto

lemma valid_amounts:
  assumes "\<forall>a\<in>set as. valid_allocation a"
  shows "0 \<le> asked accs am_tokens as k" "0 \<le> asked accs am_cost_micros as k" "0 \<le> asked accs am_tool_calls as k"
    "0 \<le> asked accs am_attempts as k"
  using assms by (auto intro!: asked_nonneg simp: amounts_of_def valid_allocation_def)

definition charged :: "int \<Rightarrow> int \<Rightarrow> bool \<Rightarrow> int \<Rightarrow> AccountSnapshot \<Rightarrow> AccountSnapshot" where
  "charged tokens cost counts calls a = a\<lparr>ac_reserved_tokens := ac_reserved_tokens a + tokens,
     ac_reserved_cost_micros := ac_reserved_cost_micros a + cost, ac_reserved_tool_calls := ac_reserved_tool_calls a + calls,
     ac_attempts_created := ac_attempts_created a + (if counts then 1 else 0), ac_version := ac_version a + 1\<rparr>"

definition charged_chain :: "Ledger \<Rightarrow> string \<Rightarrow> (AccountSnapshot \<Rightarrow> AccountSnapshot) \<Rightarrow> Ledger \<Rightarrow> bool" where
  "charged_chain L acc f L' \<longleftrightarrow> under (lg_accounts L') = under (lg_accounts L) \<and>
     (\<forall>k. map_of (lg_accounts L') k =
        (if under (lg_accounts L) acc k then map_option f (map_of (lg_accounts L) k) else map_of (lg_accounts L) k))"

lemma reserve_succeeds:
  assumes inv: "ledger_inv L" and acc: "map_of (lg_accounts L) acc \<noteq> None" and fresh: "map_of (lg_reservations L) s = None"
    and room: "\<And>k a. map_of (lg_accounts L) k = Some a \<Longrightarrow> under (lg_accounts L) acc k \<Longrightarrow>
      under_limit tokens (remaining_tokens a) \<and> under_limit cost (remaining_cost_micros a) \<and>
      (counts \<longrightarrow> under_limit 1 (remaining_attempts a)) \<and> under_limit calls (remaining_tool_calls a)"
  shows "\<exists>rid L1 r. reserve L acc s tokens cost counts calls mission = Inr (rid, L1) \<and>
    lg_reservations L1 = dict_set s r (lg_reservations L) \<and> charged_chain L acc (charged tokens cost counts calls) L1"
proof -
  let ?f = "\<lambda>a. a\<lparr>ac_reserved_tokens := ac_reserved_tokens a + tokens,
              ac_reserved_cost_micros := ac_reserved_cost_micros a + cost,
              ac_reserved_tool_calls := ac_reserved_tool_calls a + calls,
              ac_attempts_created := ac_attempts_created a + (if counts then 1 else 0)\<rparr>"
  from acc obtain a0 where "map_of (lg_accounts L) acc = Some a0" by auto
  with chain_returns inv obtain ch where ch: "chain L acc = Inr ch" unfolding ledger_inv_def by blast
  note ids = chain_ids[OF inv ch]
  have "\<forall>(k, b)\<in>set ch. map_of (lg_accounts L) k \<noteq> None" using ids(3) by auto
  from apply_chain_result[OF ids(2) this, of ?f] obtain L0 where up: "apply_chain ch ?f L = Inr L0" by blast
  have tree: "same_tree ?f" by (simp add: same_tree_def)
  have "check_account tokens cost counts calls x = Inr ()" if "x \<in> set ch" for x
  proof -
    have "map_of (lg_accounts L) (fst x) = Some (snd x)" "under (lg_accounts L) acc (fst x)" using that ids(1,3) by auto
    from room[OF this] show ?thesis by (simp add: check_account_def Let_def exceeds_limit)
  qed
  then have "for_each (check_account tokens cost counts calls) ch = Inr ()" by (simp add: for_each_ok)
  with ch up fresh chain_applied[OF inv ch up tree] show ?thesis
    by (simp add: reserve_def Let_def charged_chain_def charged_def[abs_def]) blast
qed

lemma reserve_all_completes:
  "ledger_inv L \<Longrightarrow> room_for L as \<Longrightarrow> \<forall>a\<in>set as. valid_allocation a \<Longrightarrow> distinct (map al_subject_id as) \<Longrightarrow>
    \<forall>a\<in>set as. map_of (lg_reservations L) (al_subject_id a) = None \<and> map_of (lg_accounts L) (al_account_id a) \<noteq> None \<Longrightarrow>
    \<exists>rids L'. reserve_all mission as L = Inr (rids, L')"
proof (induction as arbitrary: L)
  case (Cons a as)
  let ?A = "lg_accounts L"
  have valid: "\<forall>x\<in>set as. valid_allocation x" "valid_allocation a" using Cons.prems(3) by auto
  note nonneg = valid_amounts[OF valid(1), of ?A]
  have split: "asked ?A c (a # as) k = (if under ?A (al_account_id a) k then c (amounts_of a) else 0) + asked ?A c as k" for c k
    by (simp add: asked_def)
  have room: "under_limit (al_tokens a) (remaining_tokens b) \<and> under_limit (al_cost_micros a) (remaining_cost_micros b) \<and>
      (al_counts_attempt a \<longrightarrow> under_limit 1 (remaining_attempts b)) \<and> under_limit (al_tool_calls a) (remaining_tool_calls b)"
    if "map_of ?A k = Some b" "under ?A (al_account_id a) k" for k b
  proof -
    have "touched ?A (a # as) k" using that(2) by (simp add: touched_def)
    with Cons.prems(2) that(1) show ?thesis
      using nonneg[of k] that(2) unfolding room_for_def split
      by (auto simp: amounts_of_def elim!: under_limit_mono dest!: spec[of _ k])
  qed
  have acc: "map_of ?A (al_account_id a) \<noteq> None" and fresh: "map_of (lg_reservations L) (al_subject_id a) = None"
    using Cons.prems(5) by auto
  let ?f = "charged (al_tokens a) (al_cost_micros a) (al_counts_attempt a) (al_tool_calls a)"
  have "\<exists>rid L1 r. reserve L (al_account_id a) (al_subject_id a) (al_tokens a) (al_cost_micros a) (al_counts_attempt a)
      (al_tool_calls a) (Some mission) = Inr (rid, L1) \<and> lg_reservations L1 = dict_set (al_subject_id a) r (lg_reservations L) \<and>
      charged_chain L (al_account_id a) ?f L1"
    by (rule reserve_succeeds[OF Cons.prems(1) acc fresh]) (rule room)
  then obtain rid L1 r where res: "reserve L (al_account_id a) (al_subject_id a) (al_tokens a) (al_cost_micros a) (al_counts_attempt a)
      (al_tool_calls a) (Some mission) = Inr (rid, L1)"
    and rows: "lg_reservations L1 = dict_set (al_subject_id a) r (lg_reservations L)"
    and ch: "charged_chain L (al_account_id a) ?f L1" by blast
  have u: "under (lg_accounts L1) = under ?A" and accs: "map_of (lg_accounts L1) k = (if under ?A (al_account_id a) k then
        map_option ?f (map_of ?A k) else map_of ?A k)" for k
    using ch unfolding charged_chain_def by blast+
  have "room_for L1 as"
    unfolding room_for_def u
  proof (intro allI impI)
    fix k b assume b: "map_of (lg_accounts L1) k = Some b" and t: "touched (lg_accounts L1) as k"
    have same: "asked (lg_accounts L1) c as k = asked ?A c as k" for c by (simp add: asked_def u)
    obtain b0 where b0: "map_of ?A k = Some b0" using b accs by (auto split: if_splits)
    have "touched ?A (a # as) k" using t by (auto simp: touched_def u)
    with Cons.prems(2) b0 have r: "under_limit (asked ?A am_tokens (a # as) k) (remaining_tokens b0)"
      "under_limit (asked ?A am_cost_micros (a # as) k) (remaining_cost_micros b0)"
      "under_limit (asked ?A am_tool_calls (a # as) k) (remaining_tool_calls b0)"
      "under_limit (asked ?A am_attempts (a # as) k) (remaining_attempts b0)" by (auto simp: room_for_def)
    show "under_limit (asked (lg_accounts L1) am_tokens as k) (remaining_tokens b) \<and>
      under_limit (asked (lg_accounts L1) am_cost_micros as k) (remaining_cost_micros b) \<and>
      under_limit (asked (lg_accounts L1) am_tool_calls as k) (remaining_tool_calls b) \<and>
      under_limit (asked (lg_accounts L1) am_attempts as k) (remaining_attempts b)"
      unfolding same
    proof (intro conjI)
      let ?u = "under ?A (al_account_id a) k"
      have b: "b = (if ?u then charged (al_tokens a) (al_cost_micros a) (al_counts_attempt a) (al_tool_calls a) b0 else b0)"
        using b b0 accs[of k] by (simp split: if_splits)
      show "under_limit (asked ?A am_tokens as k) (remaining_tokens b)"
        by (rule under_limit_taken[OF r(1)[unfolded split]]) (simp add: b charged_def remaining_tokens_def amounts_of_def option.map_comp comp_def algebra_simps)
      show "under_limit (asked ?A am_cost_micros as k) (remaining_cost_micros b)"
        by (rule under_limit_taken[OF r(2)[unfolded split]]) (simp add: b charged_def remaining_cost_micros_def amounts_of_def option.map_comp comp_def algebra_simps)
      show "under_limit (asked ?A am_tool_calls as k) (remaining_tool_calls b)"
        by (rule under_limit_taken[OF r(3)[unfolded split]]) (simp add: b charged_def remaining_tool_calls_def amounts_of_def option.map_comp comp_def algebra_simps)
      show "under_limit (asked ?A am_attempts as k) (remaining_attempts b)"
        by (rule under_limit_taken[OF r(4)[unfolded split]]) (simp add: b charged_def remaining_attempts_def amounts_of_def option.map_comp comp_def algebra_simps)
    qed
  qed
  moreover have "\<forall>x\<in>set as. map_of (lg_reservations L1) (al_subject_id x) = None \<and> map_of (lg_accounts L1) (al_account_id x) \<noteq> None"
    using Cons.prems(4,5) by (auto simp: rows accs) (metis imageI)
  moreover have "ledger_inv L1" by (rule ledger_inv_reserve[OF Cons.prems(1) res])
  ultimately obtain rids L' where "reserve_all mission as L1 = Inr (rids, L')"
    using Cons.IH[of L1] valid(1) Cons.prems(4) by auto
  with res show ?case by simp
qed simp


definition drawn :: "amounts \<Rightarrow> AccountSnapshot \<Rightarrow> AccountSnapshot" where
  "drawn x a = a\<lparr>ac_reserved_tokens := ac_reserved_tokens a + - am_tokens x,
     ac_reserved_cost_micros := ac_reserved_cost_micros a + - am_cost_micros x,
     ac_reserved_tool_calls := ac_reserved_tool_calls a + - am_tool_calls x,
     ac_reserved_attempts := ac_reserved_attempts a + - am_attempts x, ac_version := ac_version a + 1\<rparr>"

lemma take_from_hold_succeeds:
  assumes inv: "ledger_inv L" and ch: "chain L (th_account_id hold) = Inr ch"
  shows "\<exists>L1 r'. take_from_hold L hold r x = Inr L1 \<and> lg_reservations L1 = dict_set (th_subject_id hold) r' (lg_reservations L) \<and>
    charged_chain L (th_account_id hold) (drawn x) L1"
proof -
  let ?f = "\<lambda>a. a\<lparr>ac_reserved_tokens := ac_reserved_tokens a + - am_tokens x,
         ac_reserved_cost_micros := ac_reserved_cost_micros a + - am_cost_micros x,
         ac_reserved_tool_calls := ac_reserved_tool_calls a + - am_tool_calls x,
         ac_reserved_attempts := ac_reserved_attempts a + - am_attempts x\<rparr>"
  note ids = chain_ids[OF inv ch]
  have "\<forall>(k, b)\<in>set ch. map_of (lg_accounts L) k \<noteq> None" using ids(3) by auto
  from apply_chain_result[OF ids(2) this, of ?f] obtain L0 where up: "apply_chain ch ?f L = Inr L0" by blast
  have tree: "same_tree ?f" by (simp add: same_tree_def)
  from chain_applied[OF inv ch up tree] up ch show ?thesis
    by (simp add: take_from_hold_def charged_chain_def drawn_def[abs_def]) blast
qed

lemma delta_room:
  assumes inv: "ledger_inv (ts_ledger S)" and ch: "chain (ts_ledger S) acc = Inr ch"
    and ds: "check_allocations S hold origin as (add_deltas ch (minus_amounts x) []) = Inr ds"
    and ok: "\<forall>x\<in>set ds. check_delta (ts_ledger S) x = Inr ()"
    and t: "touched (lg_accounts (ts_ledger S)) as k" and b0: "map_of (lg_accounts (ts_ledger S)) k = Some b0"
  defines "d c \<equiv> (if under (lg_accounts (ts_ledger S)) acc k then - c x else 0) + asked (lg_accounts (ts_ledger S)) c as k"
  shows "under_limit (d am_tokens) (remaining_tokens b0)" "under_limit (d am_cost_micros) (remaining_cost_micros b0)"
    "under_limit (d am_tool_calls) (remaining_tool_calls b0)" "under_limit (d am_attempts) (remaining_attempts b0)"
proof -
  note ids = chain_ids[OF inv ch]
  let ?v = "dict_get ds k no_amounts"
  have val: "c ?v = d c" if "linear c" for c
  proof -
    have "c (minus_amounts x) = - c x" "c no_amounts = 0" using that by (simp_all add: linear_def)
    with check_allocations_Inr[OF inv that ds, of k] add_deltas_get[OF that ids(2), of "minus_amounts x" "[]" k] ids(1)
    show ?thesis by (simp add: d_def)
  qed
  have "k \<in> fst ` set ds" using check_allocations_Inr[OF inv linear_dims(1) ds, of k] t by blast
  then have "map_of ds k \<noteq> None" by (simp add: map_of_eq_None_iff)
  then have "(k, ?v) \<in> set ds" by (auto simp: dict_get_def dest: map_of_SomeD)
  with ok have "check_delta (ts_ledger S) (k, ?v) = Inr ()" by blast
  with b0 have "under_limit (am_tokens ?v) (remaining_tokens b0)" "under_limit (am_cost_micros ?v) (remaining_cost_micros b0)"
    "under_limit (am_tool_calls ?v) (remaining_tool_calls b0)" "under_limit (am_attempts ?v) (remaining_attempts b0)"
    by (auto simp: check_delta_def account_def rbind_Inr_iff over_def exceeds_limit split: if_splits)
  then show "under_limit (d am_tokens) (remaining_tokens b0)" "under_limit (d am_cost_micros) (remaining_cost_micros b0)"
    "under_limit (d am_tool_calls) (remaining_tool_calls b0)" "under_limit (d am_attempts) (remaining_attempts b0)"
    by (simp_all add: val linear_dims)
qed

lemma room_after_draw:
  assumes inv: "ledger_inv (ts_ledger S)" and ch: "chain (ts_ledger S) acc = Inr ch"
    and ds: "check_allocations S hold origin as (add_deltas ch (minus_amounts x) []) = Inr ds"
    and ok: "\<forall>x\<in>set ds. check_delta (ts_ledger S) x = Inr ()"
    and L1: "charged_chain (ts_ledger S) acc (drawn x) L1"
  shows "room_for L1 as"
  unfolding room_for_def
proof (intro allI impI)
  let ?A = "lg_accounts (ts_ledger S)"
  fix k b assume b: "map_of (lg_accounts L1) k = Some b" and t: "touched (lg_accounts L1) as k"
  have u: "under (lg_accounts L1) = under ?A" using L1 by (simp add: charged_chain_def)
  have same: "asked (lg_accounts L1) c as k = asked ?A c as k" for c by (simp add: asked_def u)
  have t0: "touched ?A as k" using t by (simp add: touched_def u)
  obtain b0 where b0: "map_of ?A k = Some b0" and b: "b = (if under ?A acc k then drawn x b0 else b0)"
    using b L1 unfolding charged_chain_def by (auto split: if_splits)
  note r = delta_room[OF inv ch ds ok t0 b0]
  show "under_limit (asked (lg_accounts L1) am_tokens as k) (remaining_tokens b) \<and>
      under_limit (asked (lg_accounts L1) am_cost_micros as k) (remaining_cost_micros b) \<and>
      under_limit (asked (lg_accounts L1) am_tool_calls as k) (remaining_tool_calls b) \<and>
      under_limit (asked (lg_accounts L1) am_attempts as k) (remaining_attempts b)"
    unfolding same
  proof (intro conjI)
    show "under_limit (asked ?A am_tokens as k) (remaining_tokens b)"
      by (rule under_limit_taken[OF r(1)]) (simp add: b drawn_def remaining_tokens_def option.map_comp comp_def algebra_simps)
    show "under_limit (asked ?A am_cost_micros as k) (remaining_cost_micros b)"
      by (rule under_limit_taken[OF r(2)]) (simp add: b drawn_def remaining_cost_micros_def option.map_comp comp_def algebra_simps)
    show "under_limit (asked ?A am_tool_calls as k) (remaining_tool_calls b)"
      by (rule under_limit_taken[OF r(3)]) (simp add: b drawn_def remaining_tool_calls_def option.map_comp comp_def algebra_simps)
    show "under_limit (asked ?A am_attempts as k) (remaining_attempts b)"
      by (rule under_limit_taken[OF r(4)]) (simp add: b drawn_def remaining_attempts_def option.map_comp comp_def algebra_simps)
  qed
qed

text \<open>C21. A tail transfer is all or nothing, and its checks are complete: in every reachable store, once the checks made
  before the first write accept the transfer (hold live and large enough, destinations related to its Task, every account of
  every chain with room for the net change), all of its writes succeed: the draw from the hold and the reservation of every
  destination, in the order of the subject ids. No destination can fail halfway for lack of budget.\<close>

theorem transfer_completes:
  assumes "tail_reachable S" and "\<forall>a\<in>set as. check_TailAllocation a = Inr ()" and "as \<noteq> []" and "distinct (map al_subject_id as)"
    and "tail_text tid = Inr ()" and "map_of (ts_transfers S) (h, tid) = None"
    and pre: "transfer_preflight S h revision (sort_key al_subject_id as) = Inr (hold, r)"
  shows "\<exists>receipt S'. transfer_tail True S h tid as revision = Inr (receipt, S') \<and>
    length (tp_reservations receipt) = length as \<and> map_of (ts_transfers S') (h, tid) = Some receipt"
proof -
  let ?os = "sort_key al_subject_id as" and ?L = "ts_ledger S"
  let ?x = "total_amounts ?os"
  note inv = tail_inv_reachable[OF assms(1)]
  have inv0: "ledger_inv ?L" using inv by (simp add: tail_inv_def)
  from pre obtain origin ch ds where live: "live_hold S h revision = Inr (hold, origin, r)"
    and ch: "chain ?L (th_account_id hold) = Inr ch"
    and bounds: "am_attempts ?x \<le> th_remaining_attempts hold" "am_tokens ?x \<le> rv_reserved_tokens r"
      "am_cost_micros ?x \<le> rv_reserved_cost_micros r" "am_tool_calls ?x \<le> rv_reserved_tool_calls r"
    and ds: "check_allocations S hold origin ?os (add_deltas ch (minus_amounts ?x) []) = Inr ds"
    and ok: "\<forall>x\<in>set ds. check_delta ?L x = Inr ()" by (rule transfer_preflight_Inr)
  note row = live_hold_Inr[OF live]
  from take_from_hold_succeeds[OF inv0 ch] obtain L1 r' where take: "take_from_hold ?L hold r ?x = Inr L1"
    and rows: "lg_reservations L1 = dict_set (th_subject_id hold) r' (lg_reservations ?L)"
    and accs: "charged_chain ?L (th_account_id hold) (drawn ?x) L1" by blast
  have inv1: "ledger_inv L1" using take_from_hold_moves[OF inv0 row(3,4) tail_hold_row[OF inv row(1,3)] take] by blast
  have "\<forall>a\<in>set ?os. valid_allocation a" using assms(2) by (auto intro: check_TailAllocation_valid)
  moreover have "distinct (map al_subject_id ?os)" using assms(4) by (simp add: distinct_map)
  moreover have "map_of (lg_reservations L1) (al_subject_id a) = None \<and> map_of (lg_accounts L1) (al_account_id a) \<noteq> None"
    if "a \<in> set ?os" for a
  proof -
    have "map_of (lg_reservations ?L) (al_subject_id a) = None" "map_of (lg_accounts ?L) (al_account_id a) \<noteq> None"
      using check_allocations_Inr[OF inv0 linear_dims(1) ds] that by blast+
    moreover from this(1) row(3) have "al_subject_id a \<noteq> th_subject_id hold" by auto
    ultimately show ?thesis using accs by (simp add: charged_chain_def rows)
  qed
  ultimately obtain rids L2 where res: "reserve_all (th_mission_id hold) ?os L1 = Inr (rids, L2)"
    using reserve_all_completes[OF inv1 room_after_draw[OF inv0 ch ds ok accs]] by blast
  have "length rids = length as" using reserve_all_length[OF res] by simp
  with assms(3-6) pre take res show ?thesis by (simp add: transfer_tail_def Let_def)
qed


text \<open>Growth moves money only between a hold and the Worker it was held for. A successful call leaves every account as it is;
  the hold's and the Worker's reservations add up to what they added up to before, in tokens and in cost; the Worker ends with at
  least what it asked for and never with less than it had; the hold keeps the protected minimum (or all it had, when it had
  less); and no other reservation changes.\<close>

theorem growth_stays_inside_the_hold:
  assumes "grow_tail_allocation tx S h subject revision tokens cost minimum = Inr S'"
  shows "\<exists>hold s t s' t'. map_of (ts_holds S) h = Some hold \<and> rv_account_id t = th_account_id hold \<and>
    reservation (ts_ledger S) (th_subject_id hold) = Some s \<and> reservation (ts_ledger S) subject = Some t \<and>
    reservation (ts_ledger S') (th_subject_id hold) = Some s' \<and> reservation (ts_ledger S') subject = Some t' \<and>
    lg_accounts (ts_ledger S') = lg_accounts (ts_ledger S) \<and>
    rv_reserved_tokens s' + rv_reserved_tokens t' = rv_reserved_tokens s + rv_reserved_tokens t \<and>
    rv_reserved_cost_micros s' + rv_reserved_cost_micros t' = rv_reserved_cost_micros s + rv_reserved_cost_micros t \<and>
    max tokens (rv_reserved_tokens t) = rv_reserved_tokens t' \<and> max cost (rv_reserved_cost_micros t) = rv_reserved_cost_micros t' \<and>
    min (rv_reserved_tokens s) (tr_tokens minimum) \<le> rv_reserved_tokens s' \<and>
    min (rv_reserved_cost_micros s) (tr_cost_micros minimum) \<le> rv_reserved_cost_micros s' \<and>
    (\<forall>x. x \<noteq> subject \<longrightarrow> x \<noteq> th_subject_id hold \<longrightarrow> reservation (ts_ledger S') x = reservation (ts_ledger S) x)"
  using growth_effect[OF assms]
proof (elim exE conjE)
  fix hold source target
  assume hold: "map_of (ts_holds S) h = Some hold" and g: "growth_target S h hold subject = Inr (source, target)"
    and eff: "S' = S \<and> tokens \<le> rv_reserved_tokens target \<and> cost \<le> rv_reserved_cost_micros target \<or>
     max tokens (rv_reserved_tokens target) - rv_reserved_tokens target \<le> max 0 (rv_reserved_tokens source - tr_tokens minimum) \<and>
     max cost (rv_reserved_cost_micros target) - rv_reserved_cost_micros target \<le> max 0 (rv_reserved_cost_micros source - tr_cost_micros minimum) \<and>
     ts_holds S' = ts_holds S \<and>
     ts_ledger S' = grown (ts_ledger S) hold source target subject (max tokens (rv_reserved_tokens target)) (max cost (rv_reserved_cost_micros target))"
  note t = growth_target_Inr[OF g]
  from eff show ?thesis
  proof (elim disjE conjE)
    assume "S' = S" "tokens \<le> rv_reserved_tokens target" "cost \<le> rv_reserved_cost_micros target"
    with t hold show ?thesis
      by (rule_tac x = hold in exI, rule_tac x = source in exI, rule_tac x = target in exI) (simp add: reservation_def)
  next
    let ?t = "max tokens (rv_reserved_tokens target)" and ?c = "max cost (rv_reserved_cost_micros target)"
    let ?s' = "source\<lparr>rv_reserved_tokens := rv_reserved_tokens source - (?t - rv_reserved_tokens target),
      rv_reserved_cost_micros := rv_reserved_cost_micros source - (?c - rv_reserved_cost_micros target)\<rparr>"
    let ?t' = "target\<lparr>rv_reserved_tokens := ?t, rv_reserved_cost_micros := ?c\<rparr>"
    assume "?t - rv_reserved_tokens target \<le> max 0 (rv_reserved_tokens source - tr_tokens minimum)"
      "?c - rv_reserved_cost_micros target \<le> max 0 (rv_reserved_cost_micros source - tr_cost_micros minimum)"
      and L: "ts_ledger S' = grown (ts_ledger S) hold source target subject ?t ?c"
    then have "min (rv_reserved_tokens source) (tr_tokens minimum) \<le> rv_reserved_tokens ?s'"
      "min (rv_reserved_cost_micros source) (tr_cost_micros minimum) \<le> rv_reserved_cost_micros ?s'"
      by (simp_all add: min_def max_def split: if_splits)
    with t hold L show ?thesis
      by (rule_tac x = hold in exI, rule_tac x = source in exI, rule_tac x = target in exI, rule_tac x = ?s' in exI, rule_tac x = ?t' in exI)
        (simp add: reservation_def grown_def)
  qed
qed

section \<open>A run\<close>

text \<open>A hold of 20 tokens, one tool call and one Attempt for the synthesis of a Task; a Worker of 8 tokens and a Critic of 4
  are carved out of it, and the Worker then grows to 12.\<close>

lemma tail_reachable_ledger: "ledger_reachable L \<Longrightarrow> tail_reachable (empty_tail_store\<lparr>ts_ledger := L\<rparr>)"
proof (induction rule: ledger_reachable.induct)
  case Start
  have "empty_tail_store\<lparr>ts_ledger := empty_ledger\<rparr> = empty_tail_store" by (simp add: empty_tail_store_def)
  then show ?case using tail_reachable.Start by simp
next
  case (Step L L')
  from tail_reachable.Step[OF Step.IH tail_step.Money] Step.hyps(2) show ?case by fastforce
qed

definition sample_reserve :: TailReserve where
  "sample_reserve = \<lparr>tr_tokens = 20, tr_cost_micros = 0, tr_tool_calls = 1, tr_attempts = 1\<rparr>"

definition sample_hold :: "ledger_error + (TailHold \<times> tail_store)" where
  "sample_hold =
     rbind sample_open (\<lambda>L.
     reserve_tail True (empty_tail_store\<lparr>ts_ledger := L, ts_tasks := [(''t'', blank_task)], ts_missions := [(''m'', blank_mission)]\<rparr>)
       ''h'' ''budget:t'' sample_reserve ''m'' ''r1'' ''synthesis'')"

definition sample_store :: tail_store where
  "sample_store = (case sample_hold of Inl e \<Rightarrow> empty_tail_store | Inr (hold, S) \<Rightarrow> S)"

definition sample_allocations :: "TailAllocation list" where
  "sample_allocations =
     [\<lparr>al_subject_id = ''w1'', al_account_id = ''budget:t'', al_role = ''synthesis'', al_tokens = 8, al_cost_micros = 0,
       al_tool_calls = 1, al_counts_attempt = True\<rparr>,
      \<lparr>al_subject_id = ''c1'', al_account_id = ''budget:t'', al_role = ''critic'', al_tokens = 4, al_cost_micros = 0,
       al_tool_calls = 0, al_counts_attempt = False\<rparr>]"

lemma sample_open_reachable: "sample_open = Inr L \<Longrightarrow> ledger_reachable L"
  unfolding sample_open_def
  by (auto simp: rbind_Inr_iff) (meson ledger_reachable.Start ledger_reachable.Step[OF _ ledger_step.Open])

lemma sample_store_reachable: "tail_reachable sample_store"
proof (cases sample_hold)
  case (Inr p)
  obtain hold S where p: "p = (hold, S)" by fastforce
  with Inr obtain L where L: "sample_open = Inr L" and res: "reserve_tail True (empty_tail_store\<lparr>ts_ledger := L,
      ts_tasks := [(''t'', blank_task)], ts_missions := [(''m'', blank_mission)]\<rparr>) ''h'' ''budget:t'' sample_reserve ''m'' ''r1'' ''synthesis'' = Inr (hold, S)"
    by (auto simp: sample_hold_def rbind_Inr_iff)
  note base = tail_reachable.Step[OF tail_reachable_ledger[OF sample_open_reachable[OF L]] tail_step.Records]
  have "make_TailReserve 20 0 1 1 = Inr sample_reserve" by (simp add: make_TailReserve_def sample_reserve_def)
  from tail_reachable.Step[OF base tail_step.ReserveTail[OF this res]] show ?thesis by (simp add: sample_store_def Inr p)
next
  case (Inl e)
  show ?thesis unfolding sample_store_def Inl by (simp add: tail_reachable.Start)
qed

lemma sample_store_account:
  "map_option ac_reserved_attempts (map_of (lg_accounts (ts_ledger sample_store)) ''budget:m'') = Some 1"
  "map_option ac_reserved_tokens (map_of (lg_accounts (ts_ledger sample_store)) ''budget:m'') = Some 20"
  by code_simp+

lemma tail_conserves_witness:
  "\<exists>a. account (ts_ledger sample_store) ''budget:m'' = Inr a \<and> ac_reserved_attempts a = 1 \<and>
     held_below (lg_accounts (ts_ledger sample_store)) (ts_holds sample_store) ''budget:m'' = 1 \<and>
     total_below (live_part D_tokens) (lg_accounts (ts_ledger sample_store)) (lg_reservations (ts_ledger sample_store)) ''budget:m'' = 20"
proof -
  obtain a where a: "account (ts_ledger sample_store) ''budget:m'' = Inr a" "ac_reserved_attempts a = 1" "ac_reserved_tokens a = 20"
    using sample_store_account by (auto simp: account_def)
  with tail_conserves[OF sample_store_reachable a(1), of D_tokens] show ?thesis by simp
qed

lemma sample_order: "sort_key al_subject_id sample_allocations = rev sample_allocations"
  by code_simp

lemma sample_transfer_checks:
  "for_each check_TailAllocation sample_allocations = Inr ()" "tail_text ''w1'' = Inr ()" "ts_transfers sample_store = []"
  by code_simp+

definition the_hold :: TailHold where
  "the_hold = the (map_of (ts_holds sample_store) ''h'')"

definition the_row :: Reservation where
  "the_row = the (map_of (lg_reservations (ts_ledger sample_store)) ''tail:h'')"

definition the_chain :: "(string \<times> AccountSnapshot) list" where
  "the_chain = (case chain (ts_ledger sample_store) ''budget:t'' of Inl e \<Rightarrow> [] | Inr ch \<Rightarrow> ch)"

lemma tail_stages:
  "live_hold sample_store ''h'' ''r1'' = Inr (the_hold, blank_task, the_row)"
  "total_amounts (rev sample_allocations) = \<lparr>am_tokens = 12, am_cost_micros = 0, am_tool_calls = 1, am_attempts = 1\<rparr>"
  "th_account_id the_hold = ''budget:t''" "th_remaining_attempts the_hold = 1" "rv_reserved_tokens the_row = 20"
  "rv_reserved_cost_micros the_row = 0" "rv_reserved_tool_calls the_row = 1"
  "chain (ts_ledger sample_store) ''budget:t'' = Inr the_chain"
  "map fst the_chain = [''budget:t'', ''budget:m'', ''global'']"
  "for_each (check_delta (ts_ledger sample_store)) [(''budget:t'', no_amounts), (''budget:m'', no_amounts), (''global'', no_amounts)] = Inr ()"
  by code_simp+

definition sample_drawn :: deltas where
  "sample_drawn = map (\<lambda>k. (k, \<lparr>am_tokens = - 12, am_cost_micros = 0, am_tool_calls = - 1, am_attempts = - 1\<rparr>))
     [''budget:t'', ''budget:m'', ''global'']"

lemma sample_deltas:
  "add_deltas the_chain (minus_amounts \<lparr>am_tokens = 12, am_cost_micros = 0, am_tool_calls = 1, am_attempts = 1\<rparr>) [] = sample_drawn"
  "check_allocations sample_store the_hold blank_task (rev sample_allocations) sample_drawn =
     Inr [(''budget:t'', no_amounts), (''budget:m'', no_amounts), (''global'', no_amounts)]"
  by code_simp+

lemma sample_preflight: "transfer_preflight sample_store ''h'' ''r1'' (rev sample_allocations) = Inr (the_hold, the_row)"
  using tail_stages by (simp add: transfer_preflight_def Let_def over_def exceeds_def sample_deltas)

lemma transfer_completes_witness:
  "\<exists>receipt S'. transfer_tail True sample_store ''h'' ''w1'' sample_allocations ''r1'' = Inr (receipt, S') \<and>
     length (tp_reservations receipt) = 2"
proof -
  have pre: "transfer_preflight sample_store ''h'' ''r1'' (sort_key al_subject_id sample_allocations) = Inr (the_hold, the_row)"
    by (simp only: sample_order sample_preflight)
  have all: "\<forall>a\<in>set sample_allocations. check_TailAllocation a = Inr ()" using sample_transfer_checks(1) by (simp add: for_each_ok)
  have "sample_allocations \<noteq> []" "distinct (map al_subject_id sample_allocations)" "length sample_allocations = 2"
    by (simp_all add: sample_allocations_def)
  with transfer_completes[OF sample_store_reachable all _ _ sample_transfer_checks(2) _ pre] sample_transfer_checks(3)
  show ?thesis by fastforce
qed

text \<open>The store after the Worker has been carved out: 12 tokens are left in the hold.\<close>

definition sample_carved :: tail_store where
  "sample_carved = sample_store\<lparr>ts_ledger := (ts_ledger sample_store)\<lparr>lg_reservations :=
       [(''tail:h'', the_row\<lparr>rv_reserved_tokens := 12\<rparr>), (''w1'', the_row\<lparr>rv_reserved_tokens := 8\<rparr>)]\<rparr>,
     ts_transfers := [((''h'', ''w1''), \<lparr>tp_request = \<lparr>tq_hold_id = ''h'', tq_transfer_id = ''w1'', tq_task_revision = ''r1'',
       tq_allocations = [hd sample_allocations]\<rparr>, tp_reservations = [''reservation-w1'']\<rparr>)]\<rparr>"

lemma sample_growth_stages:
  "growth_target sample_carved ''h'' the_hold ''w1'' = Inr (the_row\<lparr>rv_reserved_tokens := 12\<rparr>, the_row\<lparr>rv_reserved_tokens := 8\<rparr>)"
  "map_of (ts_holds sample_carved) ''h'' = Some the_hold" "isl (tail_account sample_carved ''budget:t'' ''m'') = False"
  "th_mission_id the_hold = ''m''" "th_state the_hold = HELD" "th_task_revision the_hold = ''r1''" "th_purpose the_hold = ''synthesis''"
  "for_each check_solvent the_chain = Inr ()" "ts_growths sample_carved = []" "chain (ts_ledger sample_carved) ''budget:t'' = Inr the_chain"
  by code_simp+

lemma sample_growth:
  "\<exists>S'. grow_tail_allocation True sample_carved ''h'' ''w1'' ''r1'' 11 0 \<lparr>tr_tokens = 4, tr_cost_micros = 0, tr_tool_calls = 0, tr_attempts = 0\<rparr> = Inr S'"
proof -
  obtain t where "tail_account sample_carved ''budget:t'' ''m'' = Inr t"
    using sample_growth_stages(3) by (cases "tail_account sample_carved ''budget:t'' ''m''") auto
  with sample_growth_stages tail_stages(3-7) show ?thesis
    by (simp add: grow_tail_allocation_def Let_def make_TailReserve_def over_def exceeds_def)
qed

lemma growth_stays_inside_the_hold_witness:
  "\<exists>S' t'. grow_tail_allocation True sample_carved ''h'' ''w1'' ''r1'' 11 0
       \<lparr>tr_tokens = 4, tr_cost_micros = 0, tr_tool_calls = 0, tr_attempts = 0\<rparr> = Inr S' \<and>
     reservation (ts_ledger S') ''w1'' = Some t' \<and> 11 \<le> rv_reserved_tokens t' \<and>
     lg_accounts (ts_ledger S') = lg_accounts (ts_ledger sample_carved)"
proof -
  from sample_growth obtain S' where S': "grow_tail_allocation True sample_carved ''h'' ''w1'' ''r1'' 11 0
       \<lparr>tr_tokens = 4, tr_cost_micros = 0, tr_tool_calls = 0, tr_attempts = 0\<rparr> = Inr S'" by blast
  show ?thesis using growth_stays_inside_the_hold[OF S']
  proof (elim exE conjE)
    fix t t'
    assume t': "reservation (ts_ledger S') ''w1'' = Some t'" "lg_accounts (ts_ledger S') = lg_accounts (ts_ledger sample_carved)"
      and m: "max 11 (rv_reserved_tokens t) = rv_reserved_tokens t'"
    from m have "11 \<le> rv_reserved_tokens t'" by linarith
    with S' t' show ?thesis by (intro exI conjI)
  qed
qed

end
