(* ===== verification/Dependencies.thy ===== *)
theory Dependencies
  imports Prelude
begin

text \<open>
  The dependency checks of a task graph proposal (\<open>graph/dependency_checker.py\<close>). \<open>edges\<close> is a
  dictionary, an association list in insertion order. \<open>check_dependencies\<close> is Kahn's algorithm
  with the bookkeeping of the source: in-degrees, dependents lists, and a ready list that is sorted
  by proposal order after every step. The reference \<open>greedy_order\<close> takes, again and again, the first
  key of the proposal whose dependencies are all placed.
\<close>

datatype dependency_error =
    Self_dependency string
  | Missing_dependency string string
  | Duplicate_dependency string
  | Cycle "string list"
  | Edge_KeyError string

type_synonym edges = "(string \<times> string list) list"

section \<open>Proposal checks\<close>

definition check_dependency :: "string list \<Rightarrow> string \<Rightarrow> string \<Rightarrow> dependency_error + unit" where
  "check_dependency known key d =
     (if d = key then Inl (Self_dependency key)
      else if d \<notin> set known then Inl (Missing_dependency key d)
      else Inr ())"

definition check_node :: "string list \<Rightarrow> string \<times> string list \<Rightarrow> dependency_error + unit" where
  "check_node known node =
     rbind (for_each (check_dependency known (fst node)) (snd node)) (\<lambda>_.
     if length (remdups (snd node)) \<noteq> length (snd node) then Inl (Duplicate_dependency (fst node)) else Inr ())"

section \<open>The ready loop\<close>

definition initial_indegree :: "edges \<Rightarrow> (string \<times> int) list" where
  "initial_indegree edges = map (\<lambda>(k, ds). (k, int (length (remdups ds)))) edges"

fun add_dependent :: "string \<Rightarrow> string list \<Rightarrow> (string \<times> string list) list \<Rightarrow> dependency_error + (string \<times> string list) list" where
  "add_dependent key [] dependents = Inr dependents"
| "add_dependent key (d # ds) dependents =
     (case map_of dependents d of
        None \<Rightarrow> Inl (Edge_KeyError d)
      | Some ks \<Rightarrow> add_dependent key ds (dict_set d (ks @ [key]) dependents))"

fun add_dependents :: "edges \<Rightarrow> (string \<times> string list) list \<Rightarrow> dependency_error + (string \<times> string list) list" where
  "add_dependents [] dependents = Inr dependents"
| "add_dependents ((key, ds) # rest) dependents = rbind (add_dependent key ds dependents) (add_dependents rest)"

fun relax :: "string list \<Rightarrow> (string \<times> int) list \<Rightarrow> string list \<Rightarrow> dependency_error + ((string \<times> int) list \<times> string list)" where
  "relax [] indegree ready = Inr (indegree, ready)"
| "relax (k # ks) indegree ready =
     (case map_of indegree k of
        None \<Rightarrow> Inl (Edge_KeyError k)
      | Some n \<Rightarrow> relax ks (dict_set k (n - 1) indegree) (if n - 1 = 0 then ready @ [k] else ready))"

definition index_of :: "string list \<Rightarrow> string \<Rightarrow> nat" where
  "index_of keys k = length (takeWhile (\<lambda>x. x \<noteq> k) keys)"

definition blocked :: "(string \<times> int) list \<Rightarrow> nat" where
  "blocked indegree = length (filter (\<lambda>(k, n). 0 < n) indegree)"

lemma blocked_set:
  "map_of indegree k = Some n \<Longrightarrow>
     blocked (dict_set k (n - 1) indegree) + (if n - 1 = 0 then 1 else 0) \<le> blocked indegree"
  by (induction indegree) (auto simp: blocked_def split: if_splits)

lemma relax_measure:
  "relax ks indegree ready = Inr (indegree', ready') \<Longrightarrow>
     length ready' + blocked indegree' \<le> length ready + blocked indegree"
proof (induction ks arbitrary: indegree ready)
  case (Cons k ks)
  then obtain n where n: "map_of indegree k = Some n"
    and "relax ks (dict_set k (n - 1) indegree) (if n - 1 = 0 then ready @ [k] else ready) = Inr (indegree', ready')"
    by (auto split: option.splits)
  from Cons.IH[OF this(2)] blocked_set[OF n] show ?case by (auto split: if_splits)
qed simp

function kahn ::
  "string list \<Rightarrow> (string \<times> string list) list \<Rightarrow> (string \<times> int) list \<Rightarrow> string list \<Rightarrow> string list
    \<Rightarrow> dependency_error + string list" where
  "kahn keys dependents indegree [] order = Inr order"
| "kahn keys dependents indegree (current # ready) order =
     (case map_of dependents current of
        None \<Rightarrow> Inl (Edge_KeyError current)
      | Some ks \<Rightarrow>
          (case relax ks indegree ready of
             Inl e \<Rightarrow> Inl e
           | Inr (indegree', ready') \<Rightarrow>
               kahn keys dependents indegree' (sort_key (index_of keys) ready') (order @ [current])))"
  by pat_completeness auto
termination
  by (relation "measure (\<lambda>(keys, dependents, indegree, ready, order). length ready + blocked indegree)")
    (auto dest!: relax_measure)

section \<open>The cycle named in the rejection\<close>

definition deps_of :: "edges \<Rightarrow> string \<Rightarrow> string list" where
  "deps_of edges k = dict_get edges k []"

text \<open>\<open>seen\<close> of the source holds the elements of \<open>path\<close>.\<close>

function cycle_from :: "edges \<Rightarrow> string list \<Rightarrow> string list \<Rightarrow> string \<Rightarrow> string list" where
  "cycle_from edges remaining path current =
     (case find (\<lambda>d. d \<in> set remaining) (deps_of edges current) of
        None \<Rightarrow> path
      | Some nxt \<Rightarrow>
          if nxt \<in> set path then dropWhile (\<lambda>x. x \<noteq> nxt) path @ [nxt]
          else cycle_from edges remaining (path @ [nxt]) nxt)"
  by pat_completeness auto
termination
proof (relation "measure (\<lambda>(edges, remaining, path, current). card (set remaining - set path))")
  fix edges :: edges and remaining path :: "string list" and current nxt
  assume "find (\<lambda>d. d \<in> set remaining) (deps_of edges current) = Some nxt" and new: "nxt \<notin> set path"
  then have "nxt \<in> set remaining" by (auto simp: find_Some_iff)
  with new have "set remaining - set (path @ [nxt]) \<subset> set remaining - set path" by auto
  then show "((edges, remaining, path @ [nxt], nxt), edges, remaining, path, current)
      \<in> measure (\<lambda>(edges, remaining, path, current). card (set remaining - set path))"
    by (simp add: psubset_card_mono)
qed simp

declare cycle_from.simps [simp del]

definition cycle_path :: "edges \<Rightarrow> string list \<Rightarrow> string list" where
  "cycle_path edges remaining = cycle_from edges remaining [hd remaining] (hd remaining)"

definition check_dependencies :: "edges \<Rightarrow> dependency_error + string list" where
  "check_dependencies edges =
     (let keys = map fst edges in
      rbind (for_each (check_node keys) edges) (\<lambda>_.
      let indegree = initial_indegree edges in
      rbind (add_dependents edges (map (\<lambda>k. (k, [])) keys)) (\<lambda>dependents.
      let ready = filter (\<lambda>k. map_of indegree k = Some 0) keys in
      rbind (kahn keys dependents indegree ready []) (\<lambda>order.
      if length order \<noteq> length keys
      then Inl (Cycle (cycle_path edges (filter (\<lambda>k. k \<notin> set order) keys)))
      else Inr order))))"

section \<open>Roots and leaves\<close>

fun count_dependents :: "string list \<Rightarrow> (string \<times> int) list \<Rightarrow> dependency_error + (string \<times> int) list" where
  "count_dependents [] counts = Inr counts"
| "count_dependents (d # ds) counts =
     (case map_of counts d of
        None \<Rightarrow> Inl (Edge_KeyError d)
      | Some n \<Rightarrow> count_dependents ds (dict_set d (n + 1) counts))"

definition roots_and_leaves :: "edges \<Rightarrow> dependency_error + (string list \<times> string list)" where
  "roots_and_leaves edges =
     rbind (count_dependents (concat (map snd edges)) (map (\<lambda>(k, ds). (k, 0)) edges)) (\<lambda>counts.
     Inr (map fst (filter (\<lambda>(k, ds). ds = []) edges), map fst (filter (\<lambda>(k, n). n = 0) counts)))"

section \<open>The reference order\<close>

definition wf_proposal :: "edges \<Rightarrow> bool" where
  "wf_proposal edges \<longleftrightarrow> distinct (map fst edges) \<and>
     (\<forall>(k, ds)\<in>set edges. k \<notin> set ds \<and> set ds \<subseteq> fst ` set edges \<and> distinct ds)"

definition available :: "edges \<Rightarrow> string set \<Rightarrow> string \<Rightarrow> bool" where
  "available edges placed k \<longleftrightarrow> k \<notin> placed \<and> set (deps_of edges k) \<subseteq> placed"

fun greedy_order :: "nat \<Rightarrow> edges \<Rightarrow> string list \<Rightarrow> string list" where
  "greedy_order 0 edges order = order"
| "greedy_order (Suc n) edges order =
     (case find (available edges (set order)) (map fst edges) of
        None \<Rightarrow> order
      | Some k \<Rightarrow> greedy_order n edges (order @ [k]))"

definition deps_first :: "edges \<Rightarrow> string list \<Rightarrow> bool" where
  "deps_first edges order \<longleftrightarrow> (\<forall>i<length order. set (deps_of edges (order ! i)) \<subseteq> set (take i order))"

lemma deps_of_in: "wf_proposal edges \<Longrightarrow> (k, ds) \<in> set edges \<Longrightarrow> deps_of edges k = ds"
  by (auto simp: wf_proposal_def deps_of_def dict_get_def map_of_is_SomeI)

lemma wf_deps:
  assumes "wf_proposal edges" and "k \<in> set (map fst edges)"
  shows "k \<notin> set (deps_of edges k)" "set (deps_of edges k) \<subseteq> set (map fst edges)" "distinct (deps_of edges k)"
  using assms deps_of_in[OF assms(1)] by (fastforce simp: wf_proposal_def)+

lemma check_node_ok:
  "check_node known (k, ds) = Inr u \<longleftrightarrow> k \<notin> set ds \<and> set ds \<subseteq> set known \<and> distinct ds"
proof -
  have "length (remdups ds) \<noteq> length ds \<longleftrightarrow> \<not> distinct ds"
    using length_remdups_card_conv[of ds] card_distinct[of ds] distinct_card[of ds] by auto
  then show ?thesis
    by (auto simp: check_node_def check_dependency_def rbind_Inr_iff for_each_ok split: if_splits)
qed

lemma proposal_checked:
  "distinct (map fst edges) \<Longrightarrow> for_each (check_node (map fst edges)) edges = Inr () \<longleftrightarrow> wf_proposal edges"
  by (simp add: for_each_ok wf_proposal_def) (metis (mono_tags, lifting) case_prodI2 case_prodD check_node_ok image_set surj_pair)

section \<open>The ready loop follows the reference\<close>

lemma index_of_nth: "z \<in> set keys \<Longrightarrow> keys ! index_of keys z = z \<and> index_of keys z < length keys"
  unfolding index_of_def by (induction keys) auto

lemma index_of_inj: "inj_on (index_of keys) (set keys)"
  by (rule inj_onI) (metis index_of_nth)

lemma index_of_Cons: "index_of (k # keys) x = (if x = k then 0 else Suc (index_of keys x))"
  by (simp add: index_of_def)

lemma index_of_sorted: "distinct keys \<Longrightarrow> sorted (map (index_of keys) keys)"
proof (induction keys)
  case (Cons k keys)
  then have "map (index_of (k # keys)) keys = map Suc (map (index_of keys) keys)"
    by (auto simp: index_of_Cons)
  moreover have "sorted (map Suc (map (index_of keys) keys))"
    using Cons by (simp add: sorted_map sorted_wrt_map)
  ultimately have "sorted (map (index_of (k # keys)) keys)" by (simp only:)
  moreover have "index_of (k # keys) k = 0" by (simp add: index_of_Cons)
  ultimately show ?case by simp
qed simp

lemma sort_by_position:
  assumes "distinct keys" and "distinct xs" and "set xs = {k \<in> set keys. P k}"
  shows "sort_key (index_of keys) xs = filter P keys"
proof (rule map_sorted_distinct_set_unique[of "index_of keys"])
  show "inj_on (index_of keys) (set (sort_key (index_of keys) xs) \<union> set (filter P keys))"
    using assms(3) by (auto intro: inj_on_subset[OF index_of_inj])
  show "sorted (map (index_of keys) (filter P keys))"
    using index_of_sorted[OF assms(1)] sorted_filter by blast
qed (use assms in \<open>auto simp: distinct_map intro: inj_on_subset[OF index_of_inj]\<close>)

lemma relax_result:
  assumes "distinct ks" and "\<forall>k\<in>set ks. map_of indegree k \<noteq> None"
  shows "\<exists>indegree'. relax ks indegree ready = Inr (indegree', ready @ filter (\<lambda>k. map_of indegree k = Some 1) ks) \<and>
    map_of indegree' = (\<lambda>k. if k \<in> set ks then map_option (\<lambda>n. n - 1) (map_of indegree k) else map_of indegree k)"
  using assms
proof (induction ks arbitrary: indegree ready)
  case (Cons k ks)
  then obtain n where n: "map_of indegree k = Some n" by auto
  let ?I = "dict_set k (n - 1) indegree" and ?r = "if n - 1 = 0 then ready @ [k] else ready"
  have "\<forall>j\<in>set ks. map_of ?I j \<noteq> None" "distinct ks" using Cons.prems by auto
  from Cons.IH[OF this(2,1), of ?r] obtain I' where
    I': "relax ks ?I ?r = Inr (I', ?r @ filter (\<lambda>k. map_of ?I k = Some 1) ks)"
      "map_of I' = (\<lambda>j. if j \<in> set ks then map_option (\<lambda>n. n - 1) (map_of ?I j) else map_of ?I j)" by blast
  have "filter (\<lambda>j. map_of ?I j = Some 1) ks = filter (\<lambda>j. map_of indegree j = Some 1) ks"
    using Cons.prems(1) by (auto intro: filter_cong)
  with I' n Cons.prems(1) show ?case by (auto simp: fun_eq_iff)
qed (auto simp: fun_eq_iff)

lemma add_dependent_result:
  assumes "distinct ds" and "\<forall>d\<in>set ds. map_of dependents d \<noteq> None"
  shows "\<exists>dependents'. add_dependent key ds dependents = Inr dependents' \<and>
    map_of dependents' = (\<lambda>d. if d \<in> set ds then map_option (\<lambda>ks. ks @ [key]) (map_of dependents d) else map_of dependents d)"
  using assms
proof (induction ds arbitrary: dependents)
  case (Cons d ds)
  then obtain ks where ks: "map_of dependents d = Some ks" by auto
  have "\<forall>d\<in>set ds. map_of (dict_set d (ks @ [key]) dependents) d \<noteq> None" "distinct ds"
    using Cons.prems by auto
  with Cons.IH[of "dict_set d (ks @ [key]) dependents"] Cons.prems ks show ?case by (fastforce simp: fun_eq_iff)
qed (simp add: fun_eq_iff)

lemma add_dependents_result:
  assumes "\<forall>(k, ds)\<in>set rest. distinct ds \<and> (\<forall>d\<in>set ds. map_of dependents d \<noteq> None)"
  shows "\<exists>dependents'. add_dependents rest dependents = Inr dependents' \<and>
    (\<forall>d. map_of dependents' d = map_option (\<lambda>ks. ks @ map fst (filter (\<lambda>(k, ds). d \<in> set ds) rest)) (map_of dependents d))"
  using assms
proof (induction rest arbitrary: dependents)
  case (Cons node rest)
  obtain k ds where node: "node = (k, ds)" by (cases node)
  from Cons.prems node have "distinct ds" "\<forall>d\<in>set ds. map_of dependents d \<noteq> None" by auto
  from add_dependent_result[OF this, of k] obtain D where D: "add_dependent k ds dependents = Inr D"
    "map_of D = (\<lambda>d. if d \<in> set ds then map_option (\<lambda>ks. ks @ [k]) (map_of dependents d) else map_of dependents d)" by blast
  have "\<forall>(k, ds)\<in>set rest. distinct ds \<and> (\<forall>d\<in>set ds. map_of D d \<noteq> None)"
    using Cons.prems D(2) by (auto split: prod.splits)
  from Cons.IH[OF this] obtain D' where D': "add_dependents rest D = Inr D'"
    "\<forall>d. map_of D' d = map_option (\<lambda>ks. ks @ map fst (filter (\<lambda>(k, ds). d \<in> set ds) rest)) (map_of D d)" by blast
  have "map_of D' d = map_option (\<lambda>ks. ks @ map fst (filter (\<lambda>(k, ds). d \<in> set ds) (node # rest))) (map_of dependents d)" for d
    using D'(2) D(2) node by (cases "map_of dependents d") auto
  with D(1) D'(1) node show ?case by auto
qed (simp add: option.map_id[unfolded id_def])

definition kahn_inv ::
  "edges \<Rightarrow> (string \<times> string list) list \<Rightarrow> (string \<times> int) list \<Rightarrow> string list \<Rightarrow> string list \<Rightarrow> bool" where
  "kahn_inv edges dependents indegree ready order \<longleftrightarrow>
     distinct order \<and> set order \<subseteq> set (map fst edges) \<and>
     (\<forall>k\<in>set order. set (deps_of edges k) \<subseteq> set order) \<and>
     ready = filter (available edges (set order)) (map fst edges) \<and>
     (\<forall>k\<in>set (map fst edges).
        map_of indegree k = Some (int (card (set (deps_of edges k) - set order))) \<and>
        map_of dependents k = Some (filter (\<lambda>j. k \<in> set (deps_of edges j)) (map fst edges)))"

lemma card_remove_one:
  "finite A \<Longrightarrow> x \<in> A - B \<Longrightarrow> card (A - insert x B) + 1 = card (A - B)"
  using card_Suc_Diff1[of "A - B" x] by (simp add: Diff_insert[of A x B])

lemma available_after:
  assumes wf: "wf_proposal edges" and k: "k \<in> set (map fst edges)" and cur: "available edges placed current"
    and current: "current \<in> set (map fst edges)"
  shows "available edges (insert current placed) k \<longleftrightarrow>
    k \<noteq> current \<and> (available edges placed k \<or>
      (current \<in> set (deps_of edges k) \<and> card (set (deps_of edges k) - placed) = 1 \<and> k \<notin> placed))"
proof (cases "current \<in> set (deps_of edges k)")
  case True
  have notin: "current \<notin> placed" using cur by (simp add: available_def)
  have "set (deps_of edges k) \<subseteq> insert current placed \<longleftrightarrow> card (set (deps_of edges k) - placed) = 1"
  proof
    assume "set (deps_of edges k) \<subseteq> insert current placed"
    with True notin have "set (deps_of edges k) - placed = {current}" by auto
    then show "card (set (deps_of edges k) - placed) = 1" by simp
  next
    assume "card (set (deps_of edges k) - placed) = 1"
    then obtain x where x: "set (deps_of edges k) - placed = {x}" by (rule card_1_singletonE)
    have "current \<in> set (deps_of edges k) - placed" using True notin by simp
    then have "x = current" unfolding x by simp
    then show "set (deps_of edges k) \<subseteq> insert current placed" using x by blast
  qed
  with True notin show ?thesis by (auto simp: available_def)
next
  case False
  then show ?thesis by (auto simp: available_def)
qed

lemma kahn_inv_step:
  assumes wf: "wf_proposal edges" and inv: "kahn_inv edges dependents indegree (current # ready) order"
  shows "\<exists>ks indegree' ready'. map_of dependents current = Some ks \<and> relax ks indegree ready = Inr (indegree', ready') \<and>
    kahn_inv edges dependents indegree' (sort_key (index_of (map fst edges)) ready') (order @ [current])"
proof -
  let ?K = "map fst edges" and ?D = "\<lambda>k. set (deps_of edges k)"
  have distK: "distinct ?K" using wf by (simp add: wf_proposal_def)
  have ready: "current # ready = filter (available edges (set order)) ?K"
    and deg: "\<And>k. k \<in> set ?K \<Longrightarrow> map_of indegree k = Some (int (card (?D k - set order)))"
    and dep: "\<And>k. k \<in> set ?K \<Longrightarrow> map_of dependents k = Some (filter (\<lambda>j. k \<in> ?D j) ?K)"
    using inv unfolding kahn_inv_def by auto
  have mem: "x \<in> set (current # ready) \<longleftrightarrow> x \<in> set ?K \<and> available edges (set order) x" for x
    unfolding ready by auto
  have cur: "current \<in> set ?K" "available edges (set order) current" using mem[of current] by auto
  have rdist: "distinct (current # ready)" unfolding ready using distK by simp
  let ?ks = "filter (\<lambda>j. current \<in> ?D j) ?K"
  have "distinct ?ks" "\<forall>k\<in>set ?ks. map_of indegree k \<noteq> None" using distK deg by auto
  from relax_result[OF this, of ready] obtain I' where relax:
      "relax ?ks indegree ready = Inr (I', ready @ filter (\<lambda>k. map_of indegree k = Some 1) ?ks)"
    and I': "map_of I' = (\<lambda>k. if k \<in> set ?ks then map_option (\<lambda>n. n - 1) (map_of indegree k) else map_of indegree k)" by blast
  let ?new = "filter (\<lambda>k. map_of indegree k = Some 1) ?ks"
  have new: "x \<in> set ?new \<longleftrightarrow> x \<in> set ?K \<and> current \<in> ?D x \<and> card (?D x - set order) = 1" for x
    using deg[of x] by (cases "x \<in> set ?K") auto
  have notplaced: "x \<notin> set order" if "current \<in> ?D x" for x
    using inv cur(2) that by (auto simp: kahn_inv_def available_def)
  have set_ready: "set (ready @ ?new) = {k \<in> set ?K. available edges (set (order @ [current])) k}"
  proof (rule set_eqI)
    fix x
    have "x \<in> set ready \<longleftrightarrow> x \<in> set ?K \<and> available edges (set order) x \<and> x \<noteq> current"
      using mem[of x] rdist by auto
    moreover have "x \<noteq> current" if "current \<in> ?D x" using wf_deps(1)[OF wf cur(1)] that by auto
    ultimately show "x \<in> set (ready @ ?new) \<longleftrightarrow> x \<in> {k \<in> set ?K. available edges (set (order @ [current])) k}"
      using new[of x] notplaced[of x] available_after[OF wf _ cur(2,1), of x] by auto
  qed
  have "distinct (ready @ ?new)"
  proof -
    have "\<not> available edges (set order) x" if "current \<in> ?D x" for x
      using that cur(2) by (auto simp: available_def)
    then have "set ready \<inter> set ?new = {}" using new mem by auto
    then show ?thesis using rdist distK by auto
  qed
  from sort_by_position[OF distK this set_ready]
  have "sort_key (index_of ?K) (ready @ ?new) = filter (available edges (set (order @ [current]))) ?K" .
  moreover have "map_of I' k = Some (int (card (?D k - set (order @ [current]))))" if "k \<in> set ?K" for k
    using that deg[OF that] card_remove_one[of "?D k" current "set order"] cur(2)
    by (auto simp: I' available_def Diff_insert0)
  moreover have "distinct (order @ [current])" "set (order @ [current]) \<subseteq> set ?K"
    "\<forall>k\<in>set (order @ [current]). ?D k \<subseteq> set (order @ [current])"
    using inv cur by (auto simp: kahn_inv_def available_def)
  ultimately have "kahn_inv edges dependents I' (sort_key (index_of ?K) (ready @ ?new)) (order @ [current])"
    using dep unfolding kahn_inv_def by blast
  with dep[OF cur(1)] relax show ?thesis by blast
qed

lemma find_filter_hd: "find P xs = (case filter P xs of [] \<Rightarrow> None | x # _ \<Rightarrow> Some x)"
  by (induction xs) auto

lemma kahn_greedy:
  assumes "wf_proposal edges" and "kahn_inv edges dependents indegree ready order"
    and "length edges \<le> n + length order"
  shows "kahn (map fst edges) dependents indegree ready order = Inr (greedy_order n edges order)"
  using assms(2,3)
proof (induction n arbitrary: indegree ready order)
  case 0
  have "set order = set (map fst edges)"
  proof (rule card_subset_eq)
    show "card (set order) = card (set (map fst edges))"
      using 0 assms(1) card_mono[of "set (map fst edges)" "set order"]
      by (simp add: kahn_inv_def wf_proposal_def distinct_card)
        (metis List.finite_set card_mono distinct_card le_antisym length_map list.set_map)
  qed (use 0 in \<open>auto simp: kahn_inv_def\<close>)
  then have "filter (available edges (set order)) (map fst edges) = []"
    by (simp add: filter_empty_conv available_def)
  then have "ready = []" using 0(1) by (simp add: kahn_inv_def)
  then show ?case by simp
next
  case (Suc n)
  have ready: "ready = filter (available edges (set order)) (map fst edges)" using Suc.prems by (simp add: kahn_inv_def)
  show ?case
  proof (cases ready)
    case Nil
    with ready have "find (available edges (set order)) (map fst edges) = None"
      by (simp add: find_filter_hd[of "available edges (set order)"])
    with Nil show ?thesis by simp
  next
    case (Cons current rest)
    then have "filter (available edges (set order)) (map fst edges) = current # rest" using ready by simp
    then have "find (available edges (set order)) (map fst edges) = Some current"
      by (simp add: find_filter_hd[of "available edges (set order)"])
    moreover from kahn_inv_step[OF assms(1)] Suc.prems(1) Cons obtain ks I' ready' where
      "map_of dependents current = Some ks" "relax ks indegree rest = Inr (I', ready')"
      "kahn_inv edges dependents I' (sort_key (index_of (map fst edges)) ready') (order @ [current])" by metis
    ultimately show ?thesis using Suc.IH Suc.prems(2) Cons by simp
  qed
qed

lemma deps_first_snoc:
  "deps_first edges order \<Longrightarrow> set (deps_of edges k) \<subseteq> set order \<Longrightarrow> deps_first edges (order @ [k])"
  by (auto simp: deps_first_def nth_append less_Suc_eq)

lemma greedy_order_facts:
  assumes "distinct order" and "set order \<subseteq> set (map fst edges)" and "deps_first edges order"
    and "length edges \<le> n + length order"
  shows "distinct (greedy_order n edges order) \<and> set (greedy_order n edges order) \<subseteq> set (map fst edges) \<and>
    deps_first edges (greedy_order n edges order) \<and>
    (\<forall>k\<in>set (map fst edges). \<not> available edges (set (greedy_order n edges order)) k)"
  using assms
proof (induction n arbitrary: order)
  case 0
  then have "length (map fst edges) \<le> card (set order)" by (simp add: distinct_card)
  with 0(2) have "set order = set (map fst edges)"
    by (metis List.finite_set card_length card_seteq order_trans)
  with 0 show ?case by (auto simp: available_def)
next
  case (Suc n)
  show ?case
  proof (cases "find (available edges (set order)) (map fst edges)")
    case None
    then have "\<forall>k\<in>set (map fst edges). \<not> available edges (set order) k" by (simp add: find_None_iff)
    with None Suc.prems show ?thesis by simp
  next
    case (Some k)
    then have k: "k \<in> set (map fst edges)" "available edges (set order) k"
      by (auto simp: find_Some_iff)
    have "distinct (order @ [k])" "set (order @ [k]) \<subseteq> set (map fst edges)" "deps_first edges (order @ [k])"
      using Suc.prems k by (auto simp: available_def intro: deps_first_snoc)
    with Suc.IH[of "order @ [k]"] Suc.prems(4) Some show ?thesis by simp
  qed
qed

section \<open>The named cycle\<close>

definition dependency_cycle :: "edges \<Rightarrow> string list \<Rightarrow> bool" where
  "dependency_cycle edges p \<longleftrightarrow>
     2 \<le> length p \<and> hd p = last p \<and> successively (\<lambda>k d. d \<in> set (deps_of edges k)) p"

lemma cycle_from_is_cycle:
  assumes "\<forall>k\<in>set remaining. \<exists>d\<in>set (deps_of edges k). d \<in> set remaining"
    and "path \<noteq> []" and "last path = current" and "set path \<subseteq> set remaining"
    and "successively (\<lambda>k d. d \<in> set (deps_of edges k)) path"
  shows "dependency_cycle edges (cycle_from edges remaining path current) \<and>
    set (cycle_from edges remaining path current) \<subseteq> set remaining"
  using assms
proof (induction edges remaining path current rule: cycle_from.induct)
  case (1 edges remaining path current)
  have "current \<in> set remaining" using 1(3,4,5) by auto
  with 1(2) obtain nxt where nxt: "find (\<lambda>d. d \<in> set remaining) (deps_of edges current) = Some nxt"
    by (cases "find (\<lambda>d. d \<in> set remaining) (deps_of edges current)") (auto simp: find_None_iff)
  then have nxt': "nxt \<in> set remaining" "nxt \<in> set (deps_of edges current)" by (auto simp: find_Some_iff)
  show ?case
  proof (cases "nxt \<in> set path")
    case True
    let ?q = "dropWhile (\<lambda>x. x \<noteq> nxt) path"
    obtain a where a: "path = takeWhile (\<lambda>x. x \<noteq> nxt) path @ ?q" by simp
    have ne: "?q \<noteq> []" using True by (auto simp: dropWhile_eq_Nil_conv)
    then have "hd ?q = nxt" using hd_dropWhile[OF ne] by simp
    moreover have "last ?q = current" using a ne 1(4) by (metis last_appendR)
    moreover have "successively (\<lambda>k d. d \<in> set (deps_of edges k)) ?q"
      using 1(6) a successively_append_iff by metis
    ultimately have "dependency_cycle edges (?q @ [nxt])"
      using ne nxt'(2) by (auto simp: dependency_cycle_def successively_append_iff Suc_le_eq)
    moreover have "set ?q \<subseteq> set path" by (meson set_dropWhileD subsetI)
    ultimately show ?thesis using nxt nxt' True 1(5) by (subst (1 2) cycle_from.simps) auto
  next
    case False
    have "successively (\<lambda>k d. d \<in> set (deps_of edges k)) (path @ [nxt])"
      using 1(3,4,6) nxt'(2) by (auto simp: successively_append_iff)
    with 1(1)[OF nxt False 1(2)] nxt' 1(5) False nxt show ?thesis by (subst (1 2) cycle_from.simps) auto
  qed
qed

lemma cycle_path_is_cycle:
  assumes "\<forall>k\<in>set remaining. \<exists>d\<in>set (deps_of edges k). d \<in> set remaining" and "remaining \<noteq> []"
  shows "dependency_cycle edges (cycle_path edges remaining) \<and> set (cycle_path edges remaining) \<subseteq> set remaining"
  unfolding cycle_path_def by (rule cycle_from_is_cycle) (use assms in auto)

section \<open>What the checker decides\<close>

lemma kahn_start:
  assumes "wf_proposal edges"
  shows "\<exists>dependents. add_dependents edges (map (\<lambda>k. (k, [])) (map fst edges)) = Inr dependents \<and>
    kahn_inv edges dependents (initial_indegree edges)
      (filter (\<lambda>k. map_of (initial_indegree edges) k = Some 0) (map fst edges)) []"
proof -
  let ?K = "map fst edges"
  have empty: "map_of (map (\<lambda>k. (k, [])) ?K) d = (if d \<in> set ?K then Some ([] :: string list) else None)" for d
    by (simp add: map_of_map_restrict restrict_map_def del: map_map)
  have "\<forall>(k, ds)\<in>set edges. distinct ds \<and> (\<forall>d\<in>set ds. map_of (map (\<lambda>k. (k, [] :: string list)) ?K) d \<noteq> None)"
    unfolding empty using assms by (fastforce simp: wf_proposal_def)
  from add_dependents_result[OF this] obtain D where D: "add_dependents edges (map (\<lambda>k. (k, [])) ?K) = Inr D"
    "\<forall>d. map_of D d = map_option (\<lambda>ks. ks @ map fst (filter (\<lambda>(k, ds). d \<in> set ds) edges)) (map_of (map (\<lambda>k. (k, [])) ?K) d)"
    by blast
  have dep: "map fst (filter (\<lambda>(k, ds). d \<in> set ds) edges) = filter (\<lambda>j. d \<in> set (deps_of edges j)) ?K" for d
    unfolding filter_map comp_def
    by (rule arg_cong[where f = "map fst"], rule filter_cong) (use deps_of_in[OF assms] in \<open>auto\<close>)
  have deg: "map_of (initial_indegree edges) k = Some (int (card (set (deps_of edges k))))" if "k \<in> set ?K" for k
  proof -
    from that obtain ds where ds: "(k, ds) \<in> set edges" by auto
    have "(k, int (length (remdups ds))) \<in> set (initial_indegree edges)" using ds by (force simp: initial_indegree_def)
    moreover have "distinct (map fst (initial_indegree edges))"
      using assms by (simp add: wf_proposal_def initial_indegree_def comp_def case_prod_unfold)
    ultimately show ?thesis using deps_of_in[OF assms ds] by (simp add: length_remdups_card_conv)
  qed
  have "filter (\<lambda>k. map_of (initial_indegree edges) k = Some 0) ?K = filter (available edges {}) ?K"
    by (rule filter_cong) (use deg in \<open>auto simp: available_def\<close>)
  with D empty dep deg have "kahn_inv edges D (initial_indegree edges)
      (filter (\<lambda>k. map_of (initial_indegree edges) k = Some 0) ?K) []"
    by (simp add: kahn_inv_def)
  with D(1) show ?thesis by blast
qed

lemma check_dependencies_wf:
  assumes wf: "wf_proposal edges"
  defines "order \<equiv> greedy_order (length edges) edges []"
  shows "check_dependencies edges =
    (if length order = length edges then Inr order
     else Inl (Cycle (cycle_path edges (filter (\<lambda>k. k \<notin> set order) (map fst edges)))))"
proof -
  have "for_each (check_node (map fst edges)) edges = Inr ()"
    using proposal_checked wf by (simp add: wf_proposal_def)
  moreover from kahn_start[OF wf] obtain D where D: "add_dependents edges (map (\<lambda>k. (k, [])) (map fst edges)) = Inr D"
    "kahn_inv edges D (initial_indegree edges) (filter (\<lambda>k. map_of (initial_indegree edges) k = Some 0) (map fst edges)) []" by blast
  moreover have "kahn (map fst edges) D (initial_indegree edges)
      (filter (\<lambda>k. map_of (initial_indegree edges) k = Some 0) (map fst edges)) [] = Inr order"
    unfolding order_def by (rule kahn_greedy[OF wf D(2)]) simp
  ultimately show ?thesis by (simp add: check_dependencies_def Let_def del: map_map)
qed

lemma order_facts:
  assumes "wf_proposal edges"
  defines "order \<equiv> greedy_order (length edges) edges []"
  shows "distinct order" "set order \<subseteq> set (map fst edges)" "deps_first edges order"
    "\<And>k. k \<in> set (map fst edges) \<Longrightarrow> \<not> available edges (set order) k"
    "length order = length edges \<longleftrightarrow> set order = set (map fst edges)"
proof -
  from greedy_order_facts[of "[]" edges "length edges"]
  show facts: "distinct order" "set order \<subseteq> set (map fst edges)" "deps_first edges order"
    "\<And>k. k \<in> set (map fst edges) \<Longrightarrow> \<not> available edges (set order) k"
    unfolding order_def by (auto simp: deps_first_def)
  have "card (set (map fst edges)) = length edges" using assms(1) distinct_card by (fastforce simp: wf_proposal_def)
  moreover have "card (set order) = length order" using facts(1) by (rule distinct_card)
  ultimately show "length order = length edges \<longleftrightarrow> set order = set (map fst edges)"
    using facts(2) by (metis List.finite_set card_subset_eq)
qed

lemma remaining_blocked:
  assumes "wf_proposal edges"
  defines "order \<equiv> greedy_order (length edges) edges []"
  defines "remaining \<equiv> filter (\<lambda>k. k \<notin> set order) (map fst edges)"
  shows "\<forall>k\<in>set remaining. \<exists>d\<in>set (deps_of edges k). d \<in> set remaining"
proof
  fix k assume "k \<in> set remaining"
  then have k: "k \<in> set (map fst edges)" "k \<notin> set order" by (auto simp: remaining_def)
  with order_facts(4)[OF assms(1)] obtain d where "d \<in> set (deps_of edges k)" "d \<notin> set order"
    by (auto simp: available_def order_def)
  with wf_deps(2)[OF assms(1) k(1)] show "\<exists>d\<in>set (deps_of edges k). d \<in> set remaining"
    by (auto simp: remaining_def)
qed

lemma check_node_error:
  "check_node known (k, ds) = Inl e \<Longrightarrow>
     case e of Self_dependency j \<Rightarrow> j = k \<and> k \<in> set ds
     | Missing_dependency j d \<Rightarrow> j = k \<and> d \<in> set ds \<and> d \<notin> set known
     | Duplicate_dependency j \<Rightarrow> j = k \<and> \<not> distinct ds
     | _ \<Rightarrow> False"
  by (auto simp: check_node_def check_dependency_def rbind_Inl_iff for_each_error split: if_splits)

lemma check_dependencies_ill_formed:
  assumes "distinct (map fst edges)" and "\<not> wf_proposal edges"
  shows "\<exists>node\<in>set edges. \<exists>e. check_node (map fst edges) node = Inl e \<and> check_dependencies edges = Inl e"
proof -
  have "for_each (check_node (map fst edges)) edges \<noteq> Inr ()" using proposal_checked assms by blast
  then obtain e where e: "for_each (check_node (map fst edges)) edges = Inl e"
    by (cases "for_each (check_node (map fst edges)) edges") auto
  then obtain ys node zs where "edges = ys @ node # zs" "check_node (map fst edges) node = Inl e"
    unfolding for_each_error by blast
  then have "node \<in> set edges" "check_node (map fst edges) node = Inl e" by simp_all
  with e show ?thesis by (auto simp: check_dependencies_def)
qed

lemma check_dependencies_Inr:
  assumes "distinct (map fst edges)" and "check_dependencies edges = Inr order"
  shows "wf_proposal edges" "distinct order" "set order = set (map fst edges)" "deps_first edges order"
proof -
  show wf: "wf_proposal edges"
  proof (rule ccontr)
    assume "\<not> wf_proposal edges"
    from check_dependencies_ill_formed[OF assms(1) this] assms(2) show False by auto
  qed
  from check_dependencies_wf[OF wf] assms(2) have "order = greedy_order (length edges) edges []"
    and "length order = length edges" by (auto split: if_splits)
  with order_facts[OF wf] show "distinct order" "set order = set (map fst edges)" "deps_first edges order" by auto
qed

text \<open>C7. The dependency checker is Kahn's algorithm in proposal order. For any proposal with distinct
  keys it returns the order that takes, step by step, the first key whose dependencies are all
  placed: a permutation of the keys in which every dependency comes before its dependents. Otherwise
  it names a real defect: a key that depends on itself, a dependency that is not a key, a dependency
  listed twice, or a closed path of dependencies among the keys. No other error is possible.\<close>

theorem check_dependencies_exact:
  assumes "distinct (map fst edges)"
  shows "case check_dependencies edges of
      Inr order \<Rightarrow> order = greedy_order (length edges) edges [] \<and> distinct order \<and>
        set order = set (map fst edges) \<and> deps_first edges order
    | Inl (Cycle p) \<Rightarrow> dependency_cycle edges p \<and> set p \<subseteq> set (map fst edges)
    | Inl (Self_dependency k) \<Rightarrow> \<exists>ds. (k, ds) \<in> set edges \<and> k \<in> set ds
    | Inl (Missing_dependency k d) \<Rightarrow> (\<exists>ds. (k, ds) \<in> set edges \<and> d \<in> set ds) \<and> d \<notin> set (map fst edges)
    | Inl (Duplicate_dependency k) \<Rightarrow> \<exists>ds. (k, ds) \<in> set edges \<and> \<not> distinct ds
    | Inl (Edge_KeyError k) \<Rightarrow> False"
proof (cases "wf_proposal edges")
  case True
  let ?order = "greedy_order (length edges) edges []"
  let ?rem = "filter (\<lambda>k. k \<notin> set ?order) (map fst edges)"
  show ?thesis
  proof (cases "length ?order = length edges")
    case full: True
    with order_facts[OF True] check_dependencies_wf[OF True] show ?thesis by simp
  next
    case False
    then have "?rem \<noteq> []" using order_facts(2,5)[OF True] by (auto simp: filter_empty_conv)
    from cycle_path_is_cycle[OF remaining_blocked[OF True] this]
    have "dependency_cycle edges (cycle_path edges ?rem)" "set (cycle_path edges ?rem) \<subseteq> set (map fst edges)" by auto
    with False check_dependencies_wf[OF True] show ?thesis by simp
  qed
next
  case False
  from check_dependencies_ill_formed[OF assms False] obtain k ds e where
    "(k, ds) \<in> set edges" "check_node (map fst edges) (k, ds) = Inl e" "check_dependencies edges = Inl e" by auto
  with check_node_error[OF this(2)] show ?thesis by (auto split: dependency_error.splits)
qed

definition sample_edges :: edges where
  "sample_edges = [(''report'', [''merge'', ''check'']), (''check'', [''fetch'']), (''merge'', [''fetch'']), (''fetch'', [])]"

definition sample_cyclic :: edges where
  "sample_cyclic = [(''a'', [''c'']), (''b'', [''a'']), (''c'', [''b'', ''d'']), (''d'', [])]"

lemma check_dependencies_exact_witness:
  "check_dependencies sample_edges = Inr [''fetch'', ''check'', ''merge'', ''report''] \<and>
   deps_first sample_edges [''fetch'', ''check'', ''merge'', ''report''] \<and>
   check_dependencies sample_cyclic = Inl (Cycle [''a'', ''c'', ''b'', ''a'']) \<and>
   dependency_cycle sample_cyclic [''a'', ''c'', ''b'', ''a'']"
proof -
  have d: "distinct (map fst sample_edges)" "distinct (map fst sample_cyclic)" by code_simp+
  have r: "check_dependencies sample_edges = Inr [''fetch'', ''check'', ''merge'', ''report'']"
    "check_dependencies sample_cyclic = Inl (Cycle [''a'', ''c'', ''b'', ''a''])" by code_simp+
  have "deps_first sample_edges [''fetch'', ''check'', ''merge'', ''report'']"
    using check_dependencies_exact[OF d(1)] unfolding r(1) sum.case by blast
  moreover have "dependency_cycle sample_cyclic [''a'', ''c'', ''b'', ''a'']"
    using check_dependencies_exact[OF d(2)] unfolding r(2) sum.case dependency_error.case by blast
  ultimately show ?thesis using r by blast
qed

section \<open>Acyclic proposals\<close>

definition depends :: "edges \<Rightarrow> (string \<times> string) set" where
  "depends edges = {(k, d). k \<in> set (map fst edges) \<and> d \<in> set (deps_of edges k)}"

lemma deps_first_index:
  assumes "deps_first edges order" and "set order = set (map fst edges)" and "distinct order"
    and "(k, d) \<in> depends edges"
  shows "index_of order d < index_of order k"
proof -
  have k: "k \<in> set order" "d \<in> set (deps_of edges k)" using assms(2,4) by (auto simp: depends_def)
  from k(1) obtain i where i: "i < length order" "order ! i = k" by (auto simp: in_set_conv_nth)
  with assms(1) k(2) have "d \<in> set (take i order)" by (auto simp: deps_first_def)
  then obtain j where j: "j < i" "order ! j = d" using i(1) by (auto simp: in_set_conv_nth)
  have pos: "index_of order (order ! m) = m" if "m < length order" for m
    using index_of_nth[of "order ! m" order] that assms(3) by (metis nth_eq_iff_index_eq nth_mem)
  show ?thesis using pos[of i] pos[of j] i j by simp
qed

lemma deps_first_acyclic:
  assumes "deps_first edges order" and "set order = set (map fst edges)" and "distinct order"
  shows "acyclic (depends edges)"
  by (rule acyclicI_order[where f = "index_of order"]) (rule deps_first_index[OF assms])

lemma cycle_not_acyclic:
  assumes "dependency_cycle edges p" and "set p \<subseteq> set (map fst edges)"
  shows "\<not> acyclic (depends edges)"
proof -
  have path: "(hd q, last q) \<in> (depends edges)\<^sup>*"
    if "successively (\<lambda>k d. d \<in> set (deps_of edges k)) q" "set q \<subseteq> set (map fst edges)" "q \<noteq> []" for q
    using that
  proof (induction q rule: induct_list012)
    case (3 x y zs)
    then have "(x, y) \<in> depends edges" by (auto simp: depends_def)
    with 3 show ?case by (auto intro: converse_rtrancl_into_rtrancl)
  qed auto
  from assms(1) obtain x y zs where p: "p = x # y # zs"
    by (cases p; cases "tl p") (auto simp: dependency_cycle_def)
  with assms have "(x, y) \<in> depends edges" "successively (\<lambda>k d. d \<in> set (deps_of edges k)) (y # zs)"
    by (auto simp: dependency_cycle_def depends_def)
  with path[of "y # zs"] assms p have "(x, x) \<in> (depends edges)\<^sup>+"
    by (auto simp: dependency_cycle_def intro: rtrancl_into_trancl2)
  then show ?thesis by (auto simp: acyclic_def)
qed

text \<open>A proposal is accepted if and only if it is well formed and acyclic: for distinct keys,
  \<open>check_dependencies\<close> returns an order exactly when no key lists itself, an unknown key or a key twice,
  and the dependency relation has no cycle of any length.\<close>

theorem proposal_accepted_iff_acyclic:
  assumes "distinct (map fst edges)"
  shows "(\<exists>order. check_dependencies edges = Inr order) \<longleftrightarrow> wf_proposal edges \<and> acyclic (depends edges)"
proof (cases "wf_proposal edges")
  case True
  let ?order = "greedy_order (length edges) edges []"
  show ?thesis
  proof (cases "length ?order = length edges")
    case full: True
    with order_facts[OF True] deps_first_acyclic[of edges ?order] check_dependencies_wf[OF True] True
    show ?thesis by simp
  next
    case False
    let ?rem = "filter (\<lambda>k. k \<notin> set ?order) (map fst edges)"
    have "?rem \<noteq> []" using order_facts(2,5)[OF True] False by (auto simp: filter_empty_conv)
    from cycle_path_is_cycle[OF remaining_blocked[OF True] this] have "\<not> acyclic (depends edges)"
      by (intro cycle_not_acyclic[of edges "cycle_path edges ?rem"]) auto
    with False check_dependencies_wf[OF True] show ?thesis by simp
  qed
next
  case False
  with check_dependencies_ill_formed[OF assms False] show ?thesis by auto
qed

lemma proposal_accepted_iff_acyclic_witness:
  "wf_proposal sample_edges \<and> acyclic (depends sample_edges) \<and> \<not> (wf_proposal sample_cyclic \<and> acyclic (depends sample_cyclic))"
proof -
  have d: "distinct (map fst sample_edges)" "distinct (map fst sample_cyclic)" by code_simp+
  have "\<not> isl (check_dependencies sample_edges)" "isl (check_dependencies sample_cyclic)" by code_simp+
  with proposal_accepted_iff_acyclic[OF d(1)] proposal_accepted_iff_acyclic[OF d(2)] show ?thesis
    by (metis sum.collapse(2) sum.disc(2))
qed

end
