(* ===== verification/Task_Graph.thy ===== *)
theory Task_Graph
  imports Contracts Dependencies
begin

text \<open>
  The admission gate of a task graph proposal: duplicate detection (\<open>graph/deduplicator.py\<close>), budget
  completion, sibling outputs, per-node checks and the two whole-graph gates \<open>validate_graph\<close> and
  \<open>validate_graph_v2\<close> (\<open>graph/task_graph.py\<close>). Unicode normalisation (\<open>unicodedata.normalize\<close>) is the
  parameter \<open>nfkc\<close>. A Mission is read through its budget, its tools and its report; the decoding of a
  proposal from JSON is left out. \<open>GraphRejected\<close> carries a structured reason.
\<close>

section \<open>Duplicates\<close>

text \<open>The separators of \<open>normalise_goal\<close> below code point 256.\<close>

definition is_separator :: "char \<Rightarrow> bool" where
  "is_separator c \<longleftrightarrow> is_space c \<or> c \<in> {CHR ''-'', CHR ''_'', CHR '':'', CHR '','', CHR ''.'', CHR '';'',
     CHR ''('', CHR '')'', CHR ''['', CHR '']'', CHR 0x22, CHR 0x27, CHR 0x60}"

definition normalise_goal :: "(string \<Rightarrow> string) \<Rightarrow> string \<Rightarrow> string" where
  "normalise_goal nfkc goal = filter (\<lambda>c. \<not> is_separator c) (map lower_char (nfkc goal))"

datatype duplicate_problem = Duplicate_key string | Duplicate_task string string

record DuplicateReport =
  dr_problems :: "duplicate_problem list"
  dr_suspected :: "(string \<times> string) list"

record dup_item =
  di_key :: string
  di_goal :: string
  di_dependencies :: "string list"
  di_criteria :: "string list"

type_synonym goal_table = "(string \<times> (string \<times> string set \<times> string list)) list"

fun find_duplicates_loop ::
  "(string \<Rightarrow> string) \<Rightarrow> dup_item list \<Rightarrow> string list \<Rightarrow> goal_table \<Rightarrow> DuplicateReport \<Rightarrow> DuplicateReport" where
  "find_duplicates_loop nfkc [] seen_keys seen_goals report = report"
| "find_duplicates_loop nfkc (x # items) seen_keys seen_goals report =
     (let key = di_key x;
          report = (if key \<in> set seen_keys then report\<lparr>dr_problems := dr_problems report @ [Duplicate_key key]\<rparr> else report);
          norm = normalise_goal nfkc (di_goal x);
          signature = (set (di_dependencies x), sort (di_criteria x)) in
      case map_of seen_goals norm of
        None \<Rightarrow> find_duplicates_loop nfkc items (key # seen_keys) (dict_set norm (key, signature) seen_goals) report
      | Some (other_key, other_signature) \<Rightarrow>
          find_duplicates_loop nfkc items (key # seen_keys) seen_goals
            (if other_signature = signature
             then report\<lparr>dr_problems := dr_problems report @ [Duplicate_task key other_key]\<rparr>
             else report\<lparr>dr_suspected := dr_suspected report @ [(key, other_key)]\<rparr>))"

definition find_duplicates :: "(string \<Rightarrow> string) \<Rightarrow> dup_item list \<Rightarrow> DuplicateReport" where
  "find_duplicates nfkc items = find_duplicates_loop nfkc items [] [] \<lparr>dr_problems = [], dr_suspected = []\<rparr>"

section \<open>Proposals\<close>

definition MAX_TASKS :: nat where "MAX_TASKS = 32"
definition MAX_GRAPH_DEPTH :: int where "MAX_GRAPH_DEPTH = 6"

record TaskNode =
  tn_key :: string
  tn_goal :: string
  tn_rationale :: string
  tn_dependencies :: "string list"
  tn_success_criteria :: "string list"
  tn_verification_policy :: "string list"
  tn_allowed_tools :: "string list"
  tn_budget :: Budget
  tn_priority :: rat
  tn_outputs :: "string list"

text \<open>A \<open>TaskGraphProposal\<close> is its \<open>tasks\<close>.\<close>

type_synonym proposal = "TaskNode list"

definition edges_of :: "proposal \<Rightarrow> edges" where
  "edges_of tasks = fold (\<lambda>n d. dict_set (tn_key n) (tn_dependencies n) d) tasks []"

record ValidatedGraph =
  vg_proposal :: proposal
  vg_order :: "string list"
  vg_roots :: "string list"
  vg_leaves :: "string list"
  vg_warnings :: "(string \<times> string) list"

datatype node_reason =
    Blank_goal | No_rationale | No_criteria | No_policy | Unknown_layer | Undeployed_layer
  | Pytest_needs_code | Tools_outside_mission | Budget_exceeds_mission | Below_budget_floor int

datatype drift =
    Repeats_dependency string
  | Untyped_dependency string "string list"
  | Unprojected_relation string "string list"
  | Unknown_typed_key string

datatype graph_error =
    GR_empty
  | GR_too_large nat
  | GR_bound_reached string int
  | GR_duplicate "duplicate_problem list"
  | GR_dependency dependency_error
  | GR_drift "drift list"
  | GR_artifact_conflict "(string \<times> string) list"
  | GR_depth int
  | GR_domain string "domain_problem list"
  | GR_node string node_reason
  | GR_sum_unbounded string
  | GR_sum_exceeds string int
  | GR_synthesis_budget
  | GR_shape
  | GR_python contract_error
  | GR_recursion

definition lift_py :: "contract_error + 'a \<Rightarrow> graph_error + 'a" where
  "lift_py r = (case r of Inl e \<Rightarrow> Inl (GR_python e) | Inr x \<Rightarrow> Inr x)"

definition lift_dep :: "dependency_error + 'a \<Rightarrow> graph_error + 'a" where
  "lift_dep r = (case r of Inl e \<Rightarrow> Inl (GR_dependency e) | Inr x \<Rightarrow> Inr x)"

section \<open>Budgets of the nodes\<close>

fun sum_dimension :: "(Budget \<Rightarrow> int option) \<Rightarrow> proposal \<Rightarrow> int option" where
  "sum_dimension f [] = Some 0"
| "sum_dimension f (n # ns) =
     (case f (tn_budget n) of None \<Rightarrow> None | Some v \<Rightarrow> map_option (\<lambda>t. v + t) (sum_dimension f ns))"

record TaskBudgetFloor =
  fl_base :: int
  fl_critic :: int

definition floor_for :: "TaskBudgetFloor \<Rightarrow> string list \<Rightarrow> int \<Rightarrow> int" where
  "floor_for fl policy candidates =
     (if fl_base fl \<le> 0 then 0
      else max 1 candidates * (fl_base fl + (if ''critic_review'' \<in> set policy then fl_critic fl else 0)))"

definition floor_refusal :: "TaskBudgetFloor option \<Rightarrow> string list \<Rightarrow> int option \<Rightarrow> int \<Rightarrow> int option" where
  "floor_refusal fl policy granted candidates =
     (case (fl, granted) of
        (Some fl, Some granted) \<Rightarrow>
          if floor_for fl policy candidates \<le> granted then None else Some (floor_for fl policy candidates)
      | _ \<Rightarrow> None)"

text \<open>A share of the Mission pool for a dimension the node leaves open.\<close>

definition complete_budget :: "Budget \<Rightarrow> int \<Rightarrow> int \<Rightarrow> Budget \<Rightarrow> Budget" where
  "complete_budget mission reserve count b = b\<lparr>
     max_tokens := (case (max_tokens b, max_tokens mission) of
        (None, Some p) \<Rightarrow> Some (max 0 (p - reserve) div count) | _ \<Rightarrow> max_tokens b),
     max_cost_micros := (case (max_cost_micros b, max_cost_micros mission) of
        (None, Some p) \<Rightarrow> Some (p div count) | _ \<Rightarrow> max_cost_micros b),
     max_tool_calls := (case (max_tool_calls b, max_tool_calls mission) of
        (None, Some p) \<Rightarrow> Some (max 1 (p div count)) | _ \<Rightarrow> max_tool_calls b),
     max_attempts := or_parent (max_attempts b) (max_attempts mission),
     max_concurrency := or_parent (max_concurrency b) (max_concurrency mission),
     max_runtime_seconds := or_parent (max_runtime_seconds b) (max_runtime_seconds mission)\<rparr>"

definition normalise_budgets :: "Mission \<Rightarrow> proposal \<Rightarrow> graph_error + proposal" where
  "normalise_budgets mission tasks =
     rbind (lift_py (system_reserve_tokens (ms_final_report mission))) (\<lambda>reserve.
     Inr (map (\<lambda>n. n\<lparr>tn_budget := complete_budget (ms_budget mission) reserve (max 1 (int (length tasks))) (tn_budget n)\<rparr>) tasks))"

section \<open>Ancestors and sibling outputs\<close>

type_synonym memo = "(string \<times> string set) list"

fun collect_deps ::
  "(string \<Rightarrow> memo \<Rightarrow> (memo \<times> string set) option) \<Rightarrow> string list \<Rightarrow> memo \<Rightarrow> string set \<Rightarrow> (memo \<times> string set) option" where
  "collect_deps visit [] memo found = Some (memo, found)"
| "collect_deps visit (d # ds) memo found =
     (case visit d memo of
        None \<Rightarrow> None
      | Some (memo, s) \<Rightarrow> collect_deps visit ds memo (insert d found \<union> s))"

text \<open>The first argument is the depth of recursion still allowed; running out of it is the
  interpreter's \<open>RecursionError\<close>.\<close>

primrec visit_ancestors :: "nat \<Rightarrow> edges \<Rightarrow> string \<Rightarrow> memo \<Rightarrow> (memo \<times> string set) option" where
  "visit_ancestors 0 edges key memo = None"
| "visit_ancestors (Suc n) edges key memo =
     (case map_of memo key of
        Some s \<Rightarrow> Some (memo, s)
      | None \<Rightarrow>
          (case collect_deps (visit_ancestors n edges) (dict_get edges key []) memo {} of
             None \<Rightarrow> None
           | Some (memo, found) \<Rightarrow> Some (dict_set key found memo, found)))"

fun ancestors_loop :: "nat \<Rightarrow> edges \<Rightarrow> string list \<Rightarrow> memo \<Rightarrow> memo option" where
  "ancestors_loop n edges [] memo = Some memo"
| "ancestors_loop n edges (k # ks) memo =
     (case visit_ancestors n edges k memo of
        None \<Rightarrow> None
      | Some (memo, s) \<Rightarrow> ancestors_loop n edges ks memo)"

definition ancestors_of :: "edges \<Rightarrow> memo option" where
  "ancestors_of edges = ancestors_loop (Suc (length edges)) edges (map fst edges) []"

fun conflicts_with :: "memo \<Rightarrow> TaskNode \<Rightarrow> TaskNode list \<Rightarrow> graph_error + (string \<times> string) list" where
  "conflicts_with anc left [] = Inr []"
| "conflicts_with anc left (right # rest) =
     (case (map_of anc (tn_key right), map_of anc (tn_key left)) of
        (Some ra, Some la) \<Rightarrow>
          rbind (conflicts_with anc left rest) (\<lambda>cs.
          Inr (if tn_key left \<in> ra \<or> tn_key right \<in> la then cs
               else if set (tn_outputs left) \<inter> set (tn_outputs right) \<noteq> {}
               then (tn_key left, tn_key right) # cs else cs))
      | _ \<Rightarrow> Inl (GR_python (PyKeyError (tn_key right))))"

fun sibling_loop :: "memo \<Rightarrow> TaskNode list \<Rightarrow> graph_error + (string \<times> string) list" where
  "sibling_loop anc [] = Inr []"
| "sibling_loop anc (left # rest) =
     rbind (conflicts_with anc left rest) (\<lambda>cs.
     rbind (sibling_loop anc rest) (\<lambda>ds. Inr (cs @ ds)))"

definition sibling_output_conflicts :: "proposal \<Rightarrow> graph_error + (string \<times> string) list" where
  "sibling_output_conflicts tasks =
     (case ancestors_of (edges_of tasks) of
        None \<Rightarrow> Inl GR_recursion
      | Some anc \<Rightarrow> sibling_loop anc tasks)"

section \<open>Depth\<close>

fun depths :: "edges \<Rightarrow> string list \<Rightarrow> (string \<times> int) list \<Rightarrow> graph_error + (string \<times> int) list" where
  "depths edges [] depth = Inr depth"
| "depths edges (k # order) depth =
     rbind (map_result (\<lambda>d. case map_of depth d of
              None \<Rightarrow> Inl (GR_python (PyKeyError d)) | Some n \<Rightarrow> Inr n) (dict_get edges k [])) (\<lambda>ns.
     depths edges order (dict_set k (1 + fold max ns 0) depth))"

definition max_depth_of :: "(string \<times> int) list \<Rightarrow> int" where
  "max_depth_of depth = fold max (map snd depth) 0"

section \<open>Checks of one node\<close>

definition pytest_criteria :: "string list \<Rightarrow> string list" where
  "pytest_criteria criteria = filter (starts_with ''pytest:'') criteria"

record gate =
  gt_deployed_layers :: "string list"
  gt_task_floor :: "TaskBudgetFloor option"
  gt_candidates :: int
  gt_domain :: "DomainProfile option"

definition gate_profile :: "gate \<Rightarrow> DomainProfile" where
  "gate_profile g = (case gt_domain g of None \<Rightarrow> CODE_PROFILE_V1 | Some d \<Rightarrow> d)"

definition node_check :: "gate \<Rightarrow> Mission \<Rightarrow> TaskNode \<Rightarrow> graph_error + unit" where
  "node_check g mission n =
     (let problems = check_against_domain (gate_profile g) (tn_success_criteria n) (Some (tn_verification_policy n)) [];
          k = tn_key n in
      if problems \<noteq> [] then Inl (GR_domain k problems)
      else if strip (tn_goal n) = [] then Inl (GR_node k Blank_goal)
      else if strip (tn_rationale n) = [] then Inl (GR_node k No_rationale)
      else if tn_success_criteria n = [] then Inl (GR_node k No_criteria)
      else if tn_verification_policy n = [] then Inl (GR_node k No_policy)
      else if \<not> set (tn_verification_policy n) \<subseteq> set VERIFICATION_LAYERS then Inl (GR_node k Unknown_layer)
      else if \<not> set (tn_verification_policy n) \<subseteq> set (gt_deployed_layers g) then Inl (GR_node k Undeployed_layer)
      else if ''code_test'' \<notin> set (gt_deployed_layers g) \<and> pytest_criteria (tn_success_criteria n) \<noteq> []
      then Inl (GR_node k Pytest_needs_code)
      else if \<not> set (tn_allowed_tools n) \<subseteq> set (ms_allowed_tools mission) then Inl (GR_node k Tools_outside_mission)
      else if \<not> fits_within (tn_budget n) (ms_budget mission) then Inl (GR_node k Budget_exceeds_mission)
      else case floor_refusal (gt_task_floor g) (tn_verification_policy n) (max_tokens (tn_budget n)) (gt_candidates g) of
        Some need \<Rightarrow> Inl (GR_node k (Below_budget_floor need))
      | None \<Rightarrow> Inr ())"

definition node_checks :: "gate \<Rightarrow> Mission \<Rightarrow> proposal \<Rightarrow> graph_error + unit" where
  "node_checks g mission tasks = for_each (node_check g mission) tasks"

section \<open>Sums against the Mission\<close>

definition sum_check :: "string \<Rightarrow> (Budget \<Rightarrow> int option) \<Rightarrow> int \<Rightarrow> Mission \<Rightarrow> proposal \<Rightarrow> graph_error + unit" where
  "sum_check name f reserve mission tasks =
     (case f (ms_budget mission) of
        None \<Rightarrow> Inr ()
      | Some parent \<Rightarrow>
          (case sum_dimension f tasks of
             None \<Rightarrow> Inl (GR_sum_unbounded name)
           | Some used \<Rightarrow> if parent < used + reserve then Inl (GR_sum_exceeds name (used + reserve)) else Inr ()))"

definition sum_checks :: "Mission \<Rightarrow> proposal \<Rightarrow> graph_error + unit" where
  "sum_checks mission tasks =
     rbind (if max_tokens (ms_budget mission) = None then Inr 0
            else lift_py (system_reserve_tokens (ms_final_report mission))) (\<lambda>reserve.
     rbind (sum_check ''max_tokens'' max_tokens reserve mission tasks) (\<lambda>_.
     sum_check ''max_cost_micros'' max_cost_micros 0 mission tasks))"

definition synthesis_check :: "Mission \<Rightarrow> graph_error + unit" where
  "synthesis_check mission =
     (let report = (case ms_final_report mission of None \<Rightarrow> [] | Some d \<Rightarrow> d);
          template = dict_get report ''synthesis'' JNull in
      if \<not> truthy template then Inr ()
      else case template of
        JObj d \<Rightarrow>
          (case Budget_from_json (dict_get d ''budget'' (JObj [])) of
             Inl e \<Rightarrow> Inl GR_synthesis_budget
           | Inr b \<Rightarrow>
               if \<not> fits_within (inherit_limits b (ms_budget mission)) (ms_budget mission)
               then Inl GR_synthesis_budget else Inr ())
      | _ \<Rightarrow> Inl (GR_python (PyTypeError ''dict'')))"

section \<open>The two gates\<close>

definition dup_items :: "proposal \<Rightarrow> dup_item list" where
  "dup_items tasks = map (\<lambda>n. \<lparr>di_key = tn_key n, di_goal = tn_goal n, di_dependencies = tn_dependencies n,
     di_criteria = tn_success_criteria n\<rparr>) tasks"

definition shape_check :: "proposal \<Rightarrow> graph_error + (string list \<times> string list)" where
  "shape_check tasks =
     rbind (lift_dep (roots_and_leaves (edges_of tasks))) (\<lambda>(roots, leaves).
     if roots = [] \<or> leaves = [] then Inl GR_shape else Inr (roots, leaves))"

definition validate_graph ::
  "(string \<Rightarrow> string) \<Rightarrow> gate \<Rightarrow> Mission \<Rightarrow> proposal \<Rightarrow> graph_error + ValidatedGraph" where
  "validate_graph nfkc g mission tasks =
     (if tasks = [] then Inl GR_empty
      else if MAX_TASKS < length tasks then Inl (GR_too_large (length tasks))
      else
        rbind (normalise_budgets mission tasks) (\<lambda>tasks.
        let report = find_duplicates nfkc (dup_items tasks) in
        if dr_problems report \<noteq> [] then Inl (GR_duplicate (dr_problems report))
        else
          rbind (lift_dep (check_dependencies (edges_of tasks))) (\<lambda>order.
          rbind (sibling_output_conflicts tasks) (\<lambda>conflicts.
          if conflicts \<noteq> [] then Inl (GR_artifact_conflict conflicts)
          else
            rbind (depths (edges_of tasks) order []) (\<lambda>depth.
            if MAX_GRAPH_DEPTH < max_depth_of depth then Inl (GR_depth (max_depth_of depth))
            else
              rbind (node_checks g mission tasks) (\<lambda>_.
              rbind (sum_checks mission tasks) (\<lambda>_.
              rbind (synthesis_check mission) (\<lambda>_.
              rbind (shape_check tasks) (\<lambda>(roots, leaves).
              Inr \<lparr>vg_proposal = tasks, vg_order = order, vg_roots = roots, vg_leaves = leaves,
                   vg_warnings = dr_suspected report\<rparr>)))))))))"

definition node_drift :: "(string \<times> string list) list \<Rightarrow> TaskNode \<Rightarrow> drift list" where
  "node_drift typed_order n =
     (let declared = tn_dependencies n;
          typed = dict_get typed_order (tn_key n) [];
          untyped = sort (remdups (filter (\<lambda>d. d \<notin> set typed) declared));
          unprojected = sort (remdups (filter (\<lambda>d. d \<notin> set declared) typed)) in
      (if length (remdups declared) \<noteq> length declared then [Repeats_dependency (tn_key n)] else []) @
      (if untyped \<noteq> [] then [Untyped_dependency (tn_key n) untyped] else []) @
      (if unprojected \<noteq> [] then [Unprojected_relation (tn_key n) unprojected] else []))"

definition representation_drift :: "proposal \<Rightarrow> (string \<times> string list) list \<Rightarrow> drift list" where
  "representation_drift tasks typed_order =
     concat (map (node_drift typed_order) tasks) @
     map Unknown_typed_key (filter (\<lambda>k. k \<notin> tn_key ` set tasks) (map fst typed_order))"

record GraphStructureBudget =
  gs_budget_version :: int
  gs_max_live_tasks :: int
  gs_max_depth :: int
  gs_max_expanded_nodes :: int
  gs_max_candidates :: int
  gs_max_recursion_fuel :: int
  gs_max_nodes :: int
  gs_max_edges :: int
  gs_max_fan_out :: int

definition fan_out :: "edges \<Rightarrow> (string \<times> int) list" where
  "fan_out edges = fold (\<lambda>d counts. dict_set d (dict_get counts d 0 + 1) counts) (concat (map snd edges)) []"

definition widest :: "edges \<Rightarrow> int" where
  "widest edges = fold max (map snd (fan_out edges)) 0"

definition validate_graph_v2 ::
  "(string \<Rightarrow> string) \<Rightarrow> gate \<Rightarrow> GraphStructureBudget \<Rightarrow> (string \<times> string list) list \<Rightarrow> Mission \<Rightarrow> proposal
    \<Rightarrow> graph_error + ValidatedGraph" where
  "validate_graph_v2 nfkc g sb typed_order mission tasks =
     (if tasks = [] then Inl GR_empty
      else if gs_max_nodes sb < int (length tasks) then Inl (GR_bound_reached ''max_nodes'' (int (length tasks)))
      else if gs_max_live_tasks sb < int (length tasks) then Inl (GR_bound_reached ''max_live_tasks'' (int (length tasks)))
      else
        rbind (normalise_budgets mission tasks) (\<lambda>tasks.
        let report = find_duplicates nfkc (dup_items tasks) in
        if dr_problems report \<noteq> [] then Inl (GR_duplicate (dr_problems report))
        else
          rbind (lift_dep (check_dependencies (edges_of tasks))) (\<lambda>order.
          if representation_drift tasks typed_order \<noteq> [] then Inl (GR_drift (representation_drift tasks typed_order))
          else
            rbind (sibling_output_conflicts tasks) (\<lambda>conflicts.
            if conflicts \<noteq> [] then Inl (GR_artifact_conflict conflicts)
            else
              rbind (depths (edges_of tasks) order []) (\<lambda>depth.
              if gs_max_depth sb < max_depth_of depth then Inl (GR_bound_reached ''max_depth'' (max_depth_of depth))
              else if gs_max_edges sb < int (length (concat (map snd (edges_of tasks))))
              then Inl (GR_bound_reached ''max_edges'' (int (length (concat (map snd (edges_of tasks))))))
              else if gs_max_fan_out sb < widest (edges_of tasks)
              then Inl (GR_bound_reached ''max_fan_out'' (widest (edges_of tasks)))
              else
                rbind (node_checks g mission tasks) (\<lambda>_.
                rbind (sum_checks mission tasks) (\<lambda>_.
                rbind (shape_check tasks) (\<lambda>(roots, leaves).
                Inr \<lparr>vg_proposal = tasks, vg_order = order, vg_roots = roots, vg_leaves = leaves,
                     vg_warnings = dr_suspected report\<rparr>))))))))"

definition terminal_key :: "ValidatedGraph \<Rightarrow> string option" where
  "terminal_key v = (case filter (\<lambda>k. k \<in> set (vg_leaves v)) (vg_order v) of [] \<Rightarrow> None | ks \<Rightarrow> Some (last ks))"

definition graph_node :: "ValidatedGraph \<Rightarrow> string \<Rightarrow> TaskNode option" where
  "graph_node v key = find (\<lambda>n. tn_key n = key) (vg_proposal v)"

end
