(* ===== verification/Task_Graph_Correct.thy ===== *)
theory Task_Graph_Correct
  imports Task_Graph
begin

text \<open>
  What an admitted task graph guarantees. The lemmas follow the stages of the gates: duplicates,
  edges, ancestors, depth, node checks and sums; \<open>graph_promise\<close> collects what both gates promise.
\<close>

section \<open>Duplicates\<close>

definition signature_of :: "dup_item \<Rightarrow> string set \<times> string list" where
  "signature_of x = (set (di_dependencies x), sort (di_criteria x))"

definition same_goal :: "(string \<Rightarrow> string) \<Rightarrow> dup_item \<Rightarrow> dup_item \<Rightarrow> bool" where
  "same_goal nfkc x y \<longleftrightarrow> normalise_goal nfkc (di_goal x) = normalise_goal nfkc (di_goal y)"

text \<open>What the loop accepts of an item, given the items before it.\<close>

definition fresh_item :: "(string \<Rightarrow> string) \<Rightarrow> dup_item list \<Rightarrow> dup_item \<Rightarrow> bool" where
  "fresh_item nfkc before x \<longleftrightarrow> di_key x \<notin> di_key ` set before \<and>
     (case find (same_goal nfkc x) before of None \<Rightarrow> True | Some y \<Rightarrow> signature_of y \<noteq> signature_of x)"

definition table_of :: "(string \<Rightarrow> string) \<Rightarrow> dup_item list \<Rightarrow> goal_table \<Rightarrow> bool" where
  "table_of nfkc before table \<longleftrightarrow>
     (\<forall>g. map_of table g = map_option (\<lambda>y. (di_key y, signature_of y))
        (find (\<lambda>y. g = normalise_goal nfkc (di_goal y)) before))"

lemma find_append: "find P (xs @ ys) = (case find P xs of None \<Rightarrow> find P ys | Some x \<Rightarrow> Some x)"
  by (induction xs) auto

lemma find_duplicates_loop_problems:
  assumes "set seen = di_key ` set before" and "table_of nfkc before table"
  shows "dr_problems (find_duplicates_loop nfkc items seen table report) = [] \<longleftrightarrow>
    dr_problems report = [] \<and> (\<forall>ps x xs. items = ps @ x # xs \<longrightarrow> fresh_item nfkc (before @ ps) x)"
  using assms
proof (induction items arbitrary: before seen table report)
  case (Cons x items)
  have split: "(\<forall>ps y ys. x # items = ps @ y # ys \<longrightarrow> fresh_item nfkc (before @ ps) y) \<longleftrightarrow>
      fresh_item nfkc before x \<and> (\<forall>ps y ys. items = ps @ y # ys \<longrightarrow> fresh_item nfkc ((before @ [x]) @ ps) y)"
    (is "?all \<longleftrightarrow> ?one \<and> ?rest")
  proof
    assume all: ?all
    then have ?one by (metis append_Nil append_Nil2)
    moreover have ?rest using all by (metis append.assoc append_Cons append_Nil)
    ultimately show "?one \<and> ?rest" ..
  next
    assume r: "?one \<and> ?rest"
    show ?all
    proof (intro allI impI)
      fix ps y ys assume "x # items = ps @ y # ys"
      with r show "fresh_item nfkc (before @ ps) y" by (cases ps) auto
    qed
  qed
  have seen: "set (di_key x # seen) = di_key ` set (before @ [x])" using Cons.prems(1) by auto
  let ?g = "normalise_goal nfkc (di_goal x)"
  have look: "map_of table ?g = map_option (\<lambda>y. (di_key y, signature_of y)) (find (same_goal nfkc x) before)"
    using Cons.prems(2) by (simp add: table_of_def same_goal_def[abs_def])
  show ?case
  proof (cases "find (same_goal nfkc x) before")
    case None
    have "table_of nfkc (before @ [x]) (dict_set ?g (di_key x, signature_of x) table)"
      using Cons.prems(2) None by (auto simp: table_of_def find_append same_goal_def[abs_def] split: option.splits)
    with Cons.IH[OF seen] None look Cons.prems(1) show ?thesis
      unfolding split by (auto simp: Let_def fresh_item_def signature_of_def)
  next
    case (Some y)
    have "table_of nfkc (before @ [x]) table"
      using Cons.prems(2) Some by (auto simp: table_of_def find_append same_goal_def[abs_def] split: option.splits)
    with Cons.IH[OF seen] Some look Cons.prems(1) show ?thesis
      unfolding split by (auto simp: Let_def fresh_item_def signature_of_def)
  qed
qed simp

lemma no_problems_iff:
  "dr_problems (find_duplicates nfkc items) = [] \<longleftrightarrow>
     (\<forall>ps x xs. items = ps @ x # xs \<longrightarrow> fresh_item nfkc ps x)"
  unfolding find_duplicates_def
  by (subst find_duplicates_loop_problems[of _ "[]"]) (auto simp: table_of_def)

lemma no_problems_distinct:
  assumes "dr_problems (find_duplicates nfkc items) = []"
  shows "distinct (map di_key items)"
proof -
  from assms have "\<forall>ps x xs. items = ps @ x # xs \<longrightarrow> di_key x \<notin> di_key ` set ps"
    by (simp add: no_problems_iff fresh_item_def)
  then show ?thesis
  proof (induction items rule: rev_induct)
    case (snoc x xs)
    then have "distinct (map di_key xs)" by (metis append.assoc append_Cons)
    with snoc.prems show ?case by auto
  qed simp
qed

text \<open>C34. Duplicate detection, exactly: a proposal is free of problems if and only if no item repeats an
  earlier key and no item has the dependency set and sorted criteria of the first earlier item with
  its normalised goal. Later items with that goal are not compared: of three items with one goal, the
  second and third may be identical and the proposal still passes.\<close>

theorem duplicates_compare_with_first:
  "dr_problems (find_duplicates nfkc items) = [] \<longleftrightarrow>
     (\<forall>ps x xs. items = ps @ x # xs \<longrightarrow>
        di_key x \<notin> di_key ` set ps \<and>
        (case find (same_goal nfkc x) ps of None \<Rightarrow> True | Some y \<Rightarrow> signature_of y \<noteq> signature_of x))"
  by (simp add: no_problems_iff fresh_item_def)

definition sample_items :: "dup_item list" where
  "sample_items =
     [\<lparr>di_key = ''a'', di_goal = ''Prove X'', di_dependencies = [], di_criteria = [''file:a'']\<rparr>,
      \<lparr>di_key = ''b'', di_goal = ''prove x'', di_dependencies = [''a''], di_criteria = [''file:b'']\<rparr>,
      \<lparr>di_key = ''c'', di_goal = ''Prove-X'', di_dependencies = [''a''], di_criteria = [''file:b'']\<rparr>]"

lemma duplicates_compare_with_first_witness:
  "dr_problems (find_duplicates id sample_items) = [] \<and>
   signature_of (sample_items ! 1) = signature_of (sample_items ! 2) \<and>
   same_goal id (sample_items ! 2) (sample_items ! 1) \<and>
   (case find (same_goal id (sample_items ! 2)) (take 2 sample_items) of
      None \<Rightarrow> True | Some y \<Rightarrow> signature_of y \<noteq> signature_of (sample_items ! 2))"
proof -
  have "dr_problems (find_duplicates id sample_items) = []"
    "signature_of (sample_items ! 1) = signature_of (sample_items ! 2)"
    "same_goal id (sample_items ! 2) (sample_items ! 1)" by code_simp+
  moreover have "sample_items = take 2 sample_items @ sample_items ! 2 # []" by (simp add: sample_items_def)
  ultimately show ?thesis using duplicates_compare_with_first[of id sample_items] by blast
qed

section \<open>Edges\<close>

lemma edges_of_distinct:
  "distinct (map tn_key tasks) \<Longrightarrow> edges_of tasks = map (\<lambda>n. (tn_key n, tn_dependencies n)) tasks"
  unfolding edges_of_def by (subst dict_loop_fresh) simp_all

lemma edges_of_keys: "distinct (map tn_key tasks) \<Longrightarrow> map fst (edges_of tasks) = map tn_key tasks"
  by (simp add: edges_of_distinct)

lemma deps_of_edges_of:
  assumes "distinct (map tn_key tasks)" and "n \<in> set tasks"
  shows "deps_of (edges_of tasks) (tn_key n) = tn_dependencies n"
proof -
  have "distinct (map fst (edges_of tasks))" using assms(1) by (simp add: edges_of_keys)
  moreover have "(tn_key n, tn_dependencies n) \<in> set (edges_of tasks)"
    using assms by (auto simp: edges_of_distinct)
  ultimately show ?thesis by (simp add: deps_of_def dict_get_def)
qed

section \<open>Ancestors\<close>

definition ancestors :: "edges \<Rightarrow> string \<Rightarrow> string set" where
  "ancestors edges k = {a. (k, a) \<in> (depends edges)\<^sup>+}"

lemma ancestors_unfold:
  assumes "k \<in> set (map fst edges)"
  shows "ancestors edges k = (\<Union>d\<in>set (deps_of edges k). insert d (ancestors edges d))"
proof -
  have dep: "(k, d) \<in> depends edges \<longleftrightarrow> d \<in> set (deps_of edges k)" for d
    using assms by (auto simp: depends_def)
  have "a \<in> ancestors edges k \<longleftrightarrow> (\<exists>d\<in>set (deps_of edges k). a = d \<or> a \<in> ancestors edges d)" for a
    unfolding ancestors_def mem_Collect_eq
    by (subst trancl_unfold_left) (auto simp: dep rtrancl_eq_or_trancl relcomp_unfold)
  then show ?thesis by auto
qed

definition memo_ok :: "edges \<Rightarrow> memo \<Rightarrow> bool" where
  "memo_ok edges memo \<longleftrightarrow> (\<forall>k s. map_of memo k = Some s \<longrightarrow> s = ancestors edges k)"

lemma collect_deps_result:
  assumes "\<And>d memo. d \<in> set ds \<Longrightarrow> memo_ok edges memo \<Longrightarrow>
      \<exists>memo'. visit d memo = Some (memo', ancestors edges d) \<and> memo_ok edges memo' \<and> dom (map_of memo) \<subseteq> dom (map_of memo')"
    and "memo_ok edges memo"
  shows "\<exists>memo'. collect_deps visit ds memo found = Some (memo', found \<union> (\<Union>d\<in>set ds. insert d (ancestors edges d))) \<and>
    memo_ok edges memo' \<and> dom (map_of memo) \<subseteq> dom (map_of memo')"
  using assms
proof (induction ds arbitrary: memo found)
  case (Cons d ds)
  from Cons.prems(1)[of d memo] Cons.prems(2) obtain m1 where m1: "visit d memo = Some (m1, ancestors edges d)"
    "memo_ok edges m1" "dom (map_of memo) \<subseteq> dom (map_of m1)" by auto
  have "\<And>e memo. e \<in> set ds \<Longrightarrow> memo_ok edges memo \<Longrightarrow>
      \<exists>memo'. visit e memo = Some (memo', ancestors edges e) \<and> memo_ok edges memo' \<and> dom (map_of memo) \<subseteq> dom (map_of memo')"
    using Cons.prems(1) by auto
  from Cons.IH[OF this m1(2), of "insert d found \<union> ancestors edges d"] obtain m2 where
    "collect_deps visit ds m1 (insert d found \<union> ancestors edges d) =
      Some (m2, insert d found \<union> ancestors edges d \<union> (\<Union>d\<in>set ds. insert d (ancestors edges d)))"
    "memo_ok edges m2" "dom (map_of m1) \<subseteq> dom (map_of m2)" by blast
  moreover have "insert d found \<union> ancestors edges d \<union> (\<Union>d\<in>set ds. insert d (ancestors edges d)) =
      found \<union> (\<Union>d\<in>set (d # ds). insert d (ancestors edges d))" by auto
  ultimately show ?case using m1 by auto
qed simp

lemma visit_ancestors_result:
  assumes wf: "wf_proposal edges" and rank: "\<And>k d. (k, d) \<in> depends edges \<Longrightarrow> (rank d :: nat) < rank k"
  shows "k \<in> set (map fst edges) \<Longrightarrow> rank k < n \<Longrightarrow> memo_ok edges memo \<Longrightarrow>
    \<exists>memo'. visit_ancestors n edges k memo = Some (memo', ancestors edges k) \<and> memo_ok edges memo' \<and>
      insert k (dom (map_of memo)) \<subseteq> dom (map_of memo')"
proof (induction n arbitrary: k memo)
  case (Suc n)
  show ?case
  proof (cases "map_of memo k")
    case (Some s)
    with Suc.prems(3) show ?thesis by (auto simp: memo_ok_def)
  next
    case None
    have deps: "dict_get edges k [] = deps_of edges k" by (simp add: deps_of_def)
    have "\<exists>memo'. visit_ancestors n edges d memo = Some (memo', ancestors edges d) \<and> memo_ok edges memo' \<and>
        dom (map_of memo) \<subseteq> dom (map_of memo')" if d: "d \<in> set (deps_of edges k)" and mo: "memo_ok edges memo" for d memo
    proof -
      have "(k, d) \<in> depends edges" using d Suc.prems(1) by (simp add: depends_def)
      with rank[of k d] Suc.prems(2) have "rank d < n" by linarith
      moreover have "d \<in> set (map fst edges)" using wf_deps(2)[OF wf Suc.prems(1)] d by auto
      ultimately obtain m' where "visit_ancestors n edges d memo = Some (m', ancestors edges d)" "memo_ok edges m'"
        "insert d (dom (map_of memo)) \<subseteq> dom (map_of m')" using Suc.IH[of d memo] mo by blast
      then show ?thesis by blast
    qed
    from collect_deps_result[of "deps_of edges k" edges "visit_ancestors n edges" memo "{}", OF this Suc.prems(3)]
    obtain m where m: "collect_deps (visit_ancestors n edges) (deps_of edges k) memo {} =
        Some (m, {} \<union> (\<Union>d\<in>set (deps_of edges k). insert d (ancestors edges d)))"
      "memo_ok edges m" "dom (map_of memo) \<subseteq> dom (map_of m)" by blast
    note m' = m(1)[unfolded Un_empty_left, folded ancestors_unfold[OF Suc.prems(1)]]
    have "memo_ok edges (dict_set k (ancestors edges k) m)" using m(2) by (auto simp: memo_ok_def)
    with m' m(3) None deps show ?thesis by auto
  qed
qed simp

lemma ancestors_of_result:
  assumes wf: "wf_proposal edges" and order: "deps_first edges order" "set order = set (map fst edges)" "distinct order"
  shows "\<exists>memo. ancestors_of edges = Some memo \<and> (\<forall>k\<in>set (map fst edges). map_of memo k = Some (ancestors edges k))"
proof -
  have rank: "index_of order d < index_of order k" if "(k, d) \<in> depends edges" for k d
    by (rule deps_first_index[OF order that])
  have bound: "index_of order k < Suc (length edges)" if "k \<in> set (map fst edges)" for k
  proof -
    have "length order = length edges" using order(2,3) wf
      by (metis distinct_card length_map wf_proposal_def)
    with index_of_nth[of k order] that order(2) show ?thesis by auto
  qed
  have "\<exists>m. ancestors_loop (Suc (length edges)) edges ks memo = Some m \<and> memo_ok edges m \<and>
      set ks \<union> dom (map_of memo) \<subseteq> dom (map_of m)"
    if "set ks \<subseteq> set (map fst edges)" "memo_ok edges memo" for ks memo
    using that
  proof (induction ks arbitrary: memo)
    case (Cons k ks)
    have k: "k \<in> set (map fst edges)" using Cons.prems(1) by auto
    from visit_ancestors_result[where rank = "index_of order", OF wf rank k bound[OF k] Cons.prems(2)] obtain m where
      "visit_ancestors (Suc (length edges)) edges k memo = Some (m, ancestors edges k)" "memo_ok edges m"
      "insert k (dom (map_of memo)) \<subseteq> dom (map_of m)" by blast
    moreover from Cons.IH[of m] Cons.prems(1) this(2) obtain m' where
      "ancestors_loop (Suc (length edges)) edges ks m = Some m'" "memo_ok edges m'"
      "set ks \<union> dom (map_of m) \<subseteq> dom (map_of m')" by auto
    ultimately show ?case by (intro exI[of _ m']) (simp del: visit_ancestors.simps, blast)
  qed simp
  from this[of "map fst edges" "[]"] obtain m where m: "ancestors_of edges = Some m" "memo_ok edges m"
    "set (map fst edges) \<subseteq> dom (map_of m)" by (auto simp: ancestors_of_def memo_ok_def simp del: ancestors_loop.simps)
  have "map_of m k = Some (ancestors edges k)" if "k \<in> set (map fst edges)" for k
    using m(2,3) that by (auto simp: memo_ok_def dom_def)
  with m(1) show ?thesis by blast
qed

section \<open>Sibling outputs\<close>

definition apart :: "edges \<Rightarrow> TaskNode \<Rightarrow> TaskNode \<Rightarrow> bool" where
  "apart edges a b \<longleftrightarrow> tn_key a \<in> ancestors edges (tn_key b) \<or> tn_key b \<in> ancestors edges (tn_key a) \<or>
     set (tn_outputs a) \<inter> set (tn_outputs b) = {}"

lemma apart_sym: "apart edges a b \<longleftrightarrow> apart edges b a"
  by (auto simp: apart_def)

lemma conflicts_with_none:
  assumes "map_of anc (tn_key left) = Some (ancestors edges (tn_key left))"
    and "\<forall>n\<in>set rest. map_of anc (tn_key n) = Some (ancestors edges (tn_key n))"
  shows "\<exists>cs. conflicts_with anc left rest = Inr cs \<and> (cs = [] \<longleftrightarrow> (\<forall>n\<in>set rest. apart edges left n))"
  using assms
proof (induction rest)
  case (Cons n rest)
  then obtain cs where cs: "conflicts_with anc left rest = Inr cs" "cs = [] \<longleftrightarrow> (\<forall>n\<in>set rest. apart edges left n)" by auto
  have "conflicts_with anc left (n # rest) =
      Inr (if apart edges left n then cs else (tn_key left, tn_key n) # cs)"
    using Cons.prems cs(1) by (simp add: apart_def)
  with cs(2) show ?case by simp
qed simp

lemma sibling_loop_none:
  assumes "\<forall>n\<in>set tasks. map_of anc (tn_key n) = Some (ancestors edges (tn_key n))"
  shows "\<exists>cs. sibling_loop anc tasks = Inr cs \<and> (cs = [] \<longleftrightarrow> sorted_wrt (apart edges) tasks)"
  using assms
proof (induction tasks)
  case (Cons n tasks)
  from conflicts_with_none[of anc n edges tasks] Cons.prems obtain cs where
    "conflicts_with anc n tasks = Inr cs" "cs = [] \<longleftrightarrow> (\<forall>m\<in>set tasks. apart edges n m)" by auto
  moreover from Cons obtain ds where "sibling_loop anc tasks = Inr ds" "ds = [] \<longleftrightarrow> sorted_wrt (apart edges) tasks" by auto
  ultimately show ?case by simp
qed simp

lemma sorted_wrt_pairwise:
  assumes "sorted_wrt P xs" and "\<And>x y. P x y \<longleftrightarrow> P y x"
  shows "a \<in> set xs \<Longrightarrow> b \<in> set xs \<Longrightarrow> a \<noteq> b \<Longrightarrow> P a b"
  using assms(1) by (induction xs) (use assms(2) in auto)

section \<open>Depth\<close>

definition chain_in :: "edges \<Rightarrow> string list \<Rightarrow> bool" where
  "chain_in edges p \<longleftrightarrow> p \<noteq> [] \<and> set p \<subseteq> set (map fst edges) \<and> successively (\<lambda>k d. d \<in> set (deps_of edges k)) p"

definition depth_ok :: "edges \<Rightarrow> (string \<times> int) list \<Rightarrow> bool" where
  "depth_ok edges depth \<longleftrightarrow>
     (\<forall>k n. map_of depth k = Some n \<longrightarrow> (\<forall>p. chain_in edges p \<longrightarrow> hd p = k \<longrightarrow> int (length p) \<le> n))"

lemma fold_max_ge: "x \<in> set xs \<Longrightarrow> (x :: int) \<le> fold max xs m" and fold_max_init: "(m :: int) \<le> fold max xs m"
proof -
  have init: "m \<le> fold max xs m" for xs and m :: int
    by (induction xs arbitrary: m) (auto intro: order_trans[OF max.cobounded2])
  then show "m \<le> fold max xs m" .
  show "x \<in> set xs \<Longrightarrow> x \<le> fold max xs m"
    by (induction xs arbitrary: m) (auto intro: order_trans[OF max.cobounded1 init])
qed

lemma chain_step:
  assumes "chain_in edges p" and "hd p = k"
  shows "p = [k] \<or> (\<exists>d q. d \<in> set (deps_of edges k) \<and> p = k # q \<and> chain_in edges q \<and> hd q = d)"
proof (cases p)
  case (Cons x q)
  with assms show ?thesis by (cases q) (auto simp: chain_in_def)
qed (use assms in \<open>simp add: chain_in_def\<close>)

lemma depths_result:
  assumes "\<forall>i<length order. set (deps_of edges (order ! i)) \<subseteq> dom (map_of depth) \<union> set (take i order)"
    and "depth_ok edges depth" and "distinct (map fst depth)"
  shows "\<exists>depth'. depths edges order depth = Inr depth' \<and> depth_ok edges depth' \<and>
    dom (map_of depth') = dom (map_of depth) \<union> set order \<and> distinct (map fst depth')"
  using assms
proof (induction order arbitrary: depth)
  case (Cons k order)
  have deps: "set (deps_of edges k) \<subseteq> dom (map_of depth)" using Cons.prems(1)[rule_format, of 0] by simp
  define ns where "ns = map (\<lambda>d. the (map_of depth d)) (deps_of edges k)"
  have ns: "map_result (\<lambda>d. case map_of depth d of None \<Rightarrow> Inl (GR_python (PyKeyError d)) | Some n \<Rightarrow> Inr n)
      (dict_get edges k []) = Inr ns"
    unfolding ns_def deps_of_def[symmetric] by (rule map_result_map) (use deps in \<open>auto simp: dom_def split: option.splits\<close>)
  let ?D = "dict_set k (1 + fold max ns 0) depth"
  have "depth_ok edges ?D"
    unfolding depth_ok_def
  proof (intro allI impI)
    fix j n p assume n: "map_of ?D j = Some n" and p: "chain_in edges p" "hd p = j"
    show "int (length p) \<le> n"
    proof (cases "j = k")
      case True
      with n have n: "n = 1 + fold max ns 0" by simp
      from chain_step[OF p] show ?thesis
      proof
        assume "p = [j]"
        with n fold_max_init[of 0 ns] show ?thesis by simp
      next
        assume "\<exists>d q. d \<in> set (deps_of edges j) \<and> p = j # q \<and> chain_in edges q \<and> hd q = d"
        then obtain d q where d: "d \<in> set (deps_of edges k)" "p = j # q" "chain_in edges q" "hd q = d" using True by auto
        with deps obtain m where m: "map_of depth d = Some m" by auto
        with Cons.prems(2) d have "int (length q) \<le> m" by (auto simp: depth_ok_def)
        moreover have "m \<in> set ns" using d(1) m by (force simp: ns_def)
        ultimately show ?thesis using n d(2) fold_max_ge[of m ns 0] by simp
      qed
    next
      case False
      with n p Cons.prems(2) show ?thesis by (auto simp: depth_ok_def)
    qed
  qed
  moreover have dom: "dom (map_of ?D) = insert k (dom (map_of depth))" by simp
  moreover have "\<forall>i<length order. set (deps_of edges (order ! i)) \<subseteq> dom (map_of ?D) \<union> set (take i order)"
  proof (intro allI impI)
    fix i assume "i < length order"
    then show "set (deps_of edges (order ! i)) \<subseteq> dom (map_of ?D) \<union> set (take i order)"
      unfolding dom using Cons.prems(1)[rule_format, of "Suc i"] by auto
  qed
  moreover have "distinct (map fst ?D)" by (rule distinct_dict_set[OF Cons.prems(3)])
  ultimately obtain D' where "depths edges order ?D = Inr D'" "depth_ok edges D'"
    "dom (map_of D') = insert k (dom (map_of depth)) \<union> set order" "distinct (map fst D')"
    using Cons.IH[of ?D] by metis
  with ns show ?case by simp
qed simp

lemma max_depth_bounds:
  assumes "depth_ok edges depth" and "dom (map_of depth) = set (map fst edges)" and "chain_in edges p"
  shows "int (length p) \<le> max_depth_of depth"
proof -
  have "hd p \<in> set (map fst edges)" using assms(3) by (cases p) (auto simp: chain_in_def)
  then obtain n where n: "map_of depth (hd p) = Some n" using assms(2) by auto
  with assms(1,3) have "int (length p) \<le> n" by (auto simp: depth_ok_def)
  moreover have "n \<in> set (map snd depth)" using map_of_SomeD[OF n] by force
  ultimately show ?thesis using fold_max_ge[of n "map snd depth" 0] by (simp add: max_depth_of_def)
qed

section \<open>What an admitted graph promises\<close>

definition node_admissible :: "gate \<Rightarrow> Mission \<Rightarrow> TaskNode \<Rightarrow> bool" where
  "node_admissible g mission n \<longleftrightarrow>
     strip (tn_goal n) \<noteq> [] \<and> strip (tn_rationale n) \<noteq> [] \<and> tn_success_criteria n \<noteq> [] \<and>
     (\<forall>c\<in>set (tn_success_criteria n). criterion_kind c \<in> set (dp_criterion_kinds (gate_profile g))) \<and>
     tn_verification_policy n \<noteq> [] \<and>
     set (tn_verification_policy n) \<subseteq> set (gt_deployed_layers g) \<inter> set (dp_runs_layers (gate_profile g)) \<and>
     set (dp_planner_floor (gate_profile g)) \<subseteq> set (tn_verification_policy n) \<and>
     set (tn_allowed_tools n) \<subseteq> set (ms_allowed_tools mission) \<and>
     fits_within (tn_budget n) (ms_budget mission) \<and>
     (\<forall>fl granted. gt_task_floor g = Some fl \<longrightarrow> max_tokens (tn_budget n) = Some granted \<longrightarrow>
        floor_for fl (tn_verification_policy n) (gt_candidates g) \<le> granted)"

definition sum_fits :: "(Budget \<Rightarrow> int option) \<Rightarrow> int \<Rightarrow> Mission \<Rightarrow> proposal \<Rightarrow> bool" where
  "sum_fits f reserve mission tasks \<longleftrightarrow>
     (\<forall>m. f (ms_budget mission) = Some m \<longrightarrow>
        (\<forall>n\<in>set tasks. f (tn_budget n) \<noteq> None) \<and>
        sum_list (map (\<lambda>n. the (f (tn_budget n))) tasks) + reserve \<le> m)"

definition graph_promise :: "gate \<Rightarrow> Mission \<Rightarrow> ValidatedGraph \<Rightarrow> bool" where
  "graph_promise g mission v \<longleftrightarrow>
     (let tasks = vg_proposal v; E = edges_of tasks in
      distinct (map tn_key tasks) \<and>
      distinct (vg_order v) \<and> set (vg_order v) = tn_key ` set tasks \<and> deps_first E (vg_order v) \<and>
      acyclic (depends E) \<and>
      (\<forall>a\<in>set tasks. \<forall>b\<in>set tasks. a \<noteq> b \<longrightarrow> apart E a b) \<and>
      (\<forall>n\<in>set tasks. node_admissible g mission n) \<and>
      (\<exists>reserve. system_reserve_tokens (ms_final_report mission) = Inr reserve \<and> sum_fits max_tokens reserve mission tasks) \<and>
      sum_fits max_cost_micros 0 mission tasks \<and>
      vg_roots v \<noteq> [] \<and> vg_leaves v \<noteq> [])"

lemma node_check_ok: "node_check g mission n = Inr u \<Longrightarrow> node_admissible g mission n"
  by (auto simp: node_check_def node_admissible_def Let_def domain_gate_passed floor_refusal_def
      split: if_splits option.splits)

lemma sum_dimension_Some:
  "sum_dimension f tasks = Some t \<longleftrightarrow>
     (\<forall>n\<in>set tasks. f (tn_budget n) \<noteq> None) \<and> t = sum_list (map (\<lambda>n. the (f (tn_budget n))) tasks)"
  by (induction tasks arbitrary: t) (auto split: option.splits)

lemma sum_check_ok: "sum_check name f reserve mission tasks = Inr u \<longleftrightarrow> sum_fits f reserve mission tasks"
proof (cases "f (ms_budget mission)")
  case (Some m)
  show ?thesis
  proof (cases "sum_dimension f tasks")
    case None
    then have "\<not> (\<forall>n\<in>set tasks. f (tn_budget n) \<noteq> None)"
      using sum_dimension_Some[of f tasks "sum_list (map (\<lambda>n. the (f (tn_budget n))) tasks)"] by auto
    with None Some show ?thesis by (auto simp: sum_check_def sum_fits_def)
  next
    case (Some t)
    from Some[unfolded sum_dimension_Some] Some \<open>f (ms_budget mission) = Some m\<close> show ?thesis
      by (auto simp: sum_check_def sum_fits_def)
  qed
qed (simp add: sum_check_def sum_fits_def)

lemma sum_fits_unlimited: "f (ms_budget mission) = None \<Longrightarrow> sum_fits f reserve mission tasks"
  by (simp add: sum_fits_def)

lemma lift_py_Inr [result_simps]: "lift_py r = Inr x \<longleftrightarrow> r = Inr x"
  by (cases r) (auto simp: lift_py_def)

lemma lift_dep_Inr [result_simps]: "lift_dep r = Inr x \<longleftrightarrow> r = Inr x"
  by (cases r) (auto simp: lift_dep_def)

lemma normalise_budgets_result:
  assumes "normalise_budgets mission tasks = Inr tasks'"
  shows "\<exists>reserve. system_reserve_tokens (ms_final_report mission) = Inr reserve \<and>
    tasks' = map (\<lambda>n. n\<lparr>tn_budget := complete_budget (ms_budget mission) reserve (max 1 (int (length tasks))) (tn_budget n)\<rparr>) tasks"
  using assms by (auto simp: normalise_budgets_def result_simps)

text \<open>What the gates rely on in the dependency checker: an accepted proposal comes with an order of its keys in
  which dependencies stand first. It gives every ancestor set, a bound on every chain, and that there is no cycle.\<close>

locale topological_checker =
  fixes check :: "edges \<Rightarrow> 'e + string list"
  assumes check_order: "distinct (map fst E) \<Longrightarrow> check E = Inr order \<Longrightarrow>
    wf_proposal E \<and> distinct order \<and> set order = set (map fst E) \<and> deps_first E order"
begin

lemma memo_of_ancestors:
  assumes "distinct (map fst E)" and "check E = Inr order"
  shows "\<exists>memo. ancestors_of E = Some memo \<and> (\<forall>k\<in>set (map fst E). map_of memo k = Some (ancestors E k))"
  using check_order[OF assms] by (intro ancestors_of_result) auto

lemma depth_bounds_chains:
  assumes "distinct (map fst E)" and "check E = Inr order"
  shows "\<exists>depth. depths E order [] = Inr depth \<and> (\<forall>p. chain_in E p \<longrightarrow> int (length p) \<le> max_depth_of depth)"
proof -
  note facts = check_order[OF assms]
  have first: "\<forall>i<length order. set (deps_of E (order ! i)) \<subseteq> dom (map_of ([] :: (string \<times> int) list)) \<union> set (take i order)"
    using facts by (simp add: deps_first_def)
  from depths_result[OF first] obtain depth where depth: "depths E order [] = Inr depth" "depth_ok E depth"
    "dom (map_of depth) = set order" by (auto simp: depth_ok_def)
  with max_depth_bounds[OF depth(2)] facts show ?thesis by auto
qed

lemma checked_acyclic:
  assumes "distinct (map fst E)" and "check E = Inr order"
  shows "acyclic (depends E)"
  using check_order[OF assms] deps_first_acyclic by blast

end

interpretation kahn_checker: topological_checker check_dependencies
proof
  fix E order
  assume "distinct (map fst E)" and "check_dependencies E = Inr order"
  from check_dependencies_Inr[OF this]
  show "wf_proposal E \<and> distinct order \<and> set order = set (map fst E) \<and> deps_first E order" by simp
qed

lemma structure_checked:
  assumes keys: "distinct (map tn_key tasks)" and order: "check_dependencies (edges_of tasks) = Inr order"
  shows "\<exists>cs. sibling_output_conflicts tasks = Inr cs \<and>
      (cs = [] \<longrightarrow> (\<forall>a\<in>set tasks. \<forall>b\<in>set tasks. a \<noteq> b \<longrightarrow> apart (edges_of tasks) a b))"
    and "\<exists>depth. depths (edges_of tasks) order [] = Inr depth \<and>
      (\<forall>p. chain_in (edges_of tasks) p \<longrightarrow> int (length p) \<le> max_depth_of depth)"
    and "distinct order" "set order = tn_key ` set tasks" "deps_first (edges_of tasks) order" "acyclic (depends (edges_of tasks))"
proof -
  let ?E = "edges_of tasks"
  have dist: "distinct (map fst ?E)" using keys by (simp add: edges_of_keys)
  note facts = check_dependencies_Inr[OF dist order]
  from kahn_checker.memo_of_ancestors[OF dist order] obtain memo where memo: "ancestors_of ?E = Some memo"
    "\<forall>k\<in>set (map fst ?E). map_of memo k = Some (ancestors ?E k)" by blast
  have "\<forall>n\<in>set tasks. map_of memo (tn_key n) = Some (ancestors ?E (tn_key n))"
    using memo(2) keys by (simp add: edges_of_keys)
  from sibling_loop_none[OF this] memo(1)
  show "\<exists>cs. sibling_output_conflicts tasks = Inr cs \<and>
      (cs = [] \<longrightarrow> (\<forall>a\<in>set tasks. \<forall>b\<in>set tasks. a \<noteq> b \<longrightarrow> apart ?E a b))"
    using sorted_wrt_pairwise[where P = "apart ?E", OF _ apart_sym] by (auto simp: sibling_output_conflicts_def)
  show "\<exists>depth. depths ?E order [] = Inr depth \<and> (\<forall>p. chain_in ?E p \<longrightarrow> int (length p) \<le> max_depth_of depth)"
    by (rule kahn_checker.depth_bounds_chains[OF dist order])
  show "distinct order" "set order = tn_key ` set tasks" "deps_first ?E order" "acyclic (depends ?E)"
    using facts keys kahn_checker.checked_acyclic[OF dist order] by (auto simp: edges_of_keys)
qed

lemma dup_keys: "map di_key (dup_items tasks) = map tn_key tasks"
  by (simp add: dup_items_def)

lemma promise_from_checks:
  assumes keys: "distinct (map tn_key tasks)" and order: "check_dependencies (edges_of tasks) = Inr order"
    and sib: "sibling_output_conflicts tasks = Inr []" and nodes: "node_checks g mission tasks = Inr u"
    and reserve: "system_reserve_tokens (ms_final_report mission) = Inr reserve"
    and sums: "sum_checks mission tasks = Inr u'" and shape: "shape_check tasks = Inr (roots, leaves)"
    and v: "vg_proposal v = tasks" "vg_order v = order" "vg_roots v = roots" "vg_leaves v = leaves"
  shows "graph_promise g mission v"
proof -
  note str = structure_checked[OF keys order]
  have "\<forall>n\<in>set tasks. node_admissible g mission n"
    using nodes node_check_ok by (auto simp: node_checks_def for_each_ok)
  moreover have "sum_fits max_tokens reserve mission tasks" "sum_fits max_cost_micros 0 mission tasks"
    using sums reserve
    by (auto simp: sum_checks_def result_simps sum_check_ok intro: sum_fits_unlimited split: if_splits)
  moreover have "roots \<noteq> []" "leaves \<noteq> []"
    using shape by (auto simp: shape_check_def result_simps split: if_splits)
  moreover have "\<forall>a\<in>set tasks. \<forall>b\<in>set tasks. a \<noteq> b \<longrightarrow> apart (edges_of tasks) a b"
    using str(1) sib by auto
  ultimately show ?thesis using keys str(3-) reserve v by (auto simp: graph_promise_def Let_def)
qed

text \<open>C5. An admitted task graph keeps its promises. When \<open>validate_graph\<close> accepts a proposal, the graph it
  returns is the proposal with completed budgets, of at most 32 tasks with distinct keys; its order is a
  permutation in which dependencies come first, no dependency chain is longer than six tasks; two tasks
  that share an output path are ordered by the dependencies; every task has goal, rationale, criteria and
  layers that the deployment and the domain run, tools and budget inside the Mission's; the token budgets
  together with the system reserve, and the cost budgets, fit the Mission in sum.\<close>

theorem validated_graph_sound:
  assumes "validate_graph nfkc g mission tasks = Inr v"
  shows "graph_promise g mission v \<and> normalise_budgets mission tasks = Inr (vg_proposal v) \<and>
    map tn_key (vg_proposal v) = map tn_key tasks \<and> 1 \<le> length tasks \<and> length tasks \<le> 32 \<and>
    (\<forall>p. chain_in (edges_of (vg_proposal v)) p \<longrightarrow> length p \<le> 6)"
proof -
  from assms obtain tasks' where norm: "normalise_budgets mission tasks = Inr tasks'"
    and size: "tasks \<noteq> []" "length tasks \<le> MAX_TASKS"
    by (auto simp: validate_graph_def rbind_Inr_iff split: if_splits)
  with assms have dup: "dr_problems (find_duplicates nfkc (dup_items tasks')) = []"
    by (auto simp: validate_graph_def Let_def split: if_splits)
  with assms norm size obtain order cs depth u u' u'' roots leaves where
    checks: "check_dependencies (edges_of tasks') = Inr order" "sibling_output_conflicts tasks' = Inr []"
      "depths (edges_of tasks') order [] = Inr depth" "max_depth_of depth \<le> MAX_GRAPH_DEPTH"
      "node_checks g mission tasks' = Inr u" "sum_checks mission tasks' = Inr u'" "shape_check tasks' = Inr (roots, leaves)"
    and v: "v = \<lparr>vg_proposal = tasks', vg_order = order, vg_roots = roots, vg_leaves = leaves,
                   vg_warnings = dr_suspected (find_duplicates nfkc (dup_items tasks'))\<rparr>"
    by (auto simp: validate_graph_def Let_def rbind_Inr_iff lift_dep_Inr not_less guard_Inr_iff split: if_splits)
  have keys: "distinct (map tn_key tasks')" using no_problems_distinct[OF dup] by (simp add: dup_keys)
  from normalise_budgets_result[OF norm] obtain reserve where
    reserve: "system_reserve_tokens (ms_final_report mission) = Inr reserve" and same: "map tn_key tasks' = map tn_key tasks"
    by auto
  have "graph_promise g mission v"
    by (rule promise_from_checks[OF keys checks(1,2,5) reserve checks(6,7)]) (simp_all add: v)
  moreover have "length p \<le> 6" if "chain_in (edges_of tasks') p" for p
    using structure_checked(2)[OF keys checks(1)] checks(3,4) that by (fastforce simp: MAX_GRAPH_DEPTH_def)
  moreover have "1 \<le> length tasks" "length tasks \<le> 32" using size by (simp_all add: MAX_TASKS_def Suc_le_eq)
  ultimately show ?thesis using norm same v by simp
qed

definition sample_node :: "string \<Rightarrow> string list \<Rightarrow> string \<Rightarrow> TaskNode" where
  "sample_node k ds out = \<lparr>tn_key = k, tn_goal = k, tn_rationale = ''because'', tn_dependencies = ds,
     tn_success_criteria = [''file:'' @ out], tn_verification_policy = [''format_check''], tn_allowed_tools = [],
     tn_budget = no_budget, tn_priority = 1, tn_outputs = [out]\<rparr>"

definition sample_proposal :: proposal where
  "sample_proposal = [sample_node ''b'' [''a''] ''out.txt'', sample_node ''a'' [] ''out.txt'']"

definition sample_mission :: Mission where
  "sample_mission = blank_mission\<lparr>ms_budget := no_budget\<lparr>max_tokens := Some 100\<rparr>,
     ms_final_report := Some [(''conflict_reserve_tokens'', JInt 20)]\<rparr>"

definition sample_gate :: gate where
  "sample_gate = \<lparr>gt_deployed_layers = STEP2_IMPLEMENTED_LAYERS, gt_task_floor = None, gt_candidates = 1, gt_domain = None\<rparr>"

lemma validated_graph_sound_witness:
  "\<exists>v. validate_graph id sample_gate sample_mission sample_proposal = Inr v \<and> vg_order v = [''a'', ''b''] \<and>
     graph_promise sample_gate sample_mission v"
proof -
  let ?r = "validate_graph id sample_gate sample_mission sample_proposal"
  have "case ?r of Inl e \<Rightarrow> False | Inr v \<Rightarrow> vg_order v = [''a'', ''b'']" by code_simp
  then obtain v where v: "?r = Inr v" "vg_order v = [''a'', ''b'']" by (auto split: sum.splits)
  with validated_graph_sound[OF v(1)] show ?thesis by blast
qed

section \<open>The hierarchical gate\<close>

lemma fan_out_counts:
  "dict_get (fold (\<lambda>d counts. dict_set d (dict_get counts d 0 + 1) counts) ds counts) k (0 :: int) =
     dict_get counts k 0 + int (count_list ds k)"
  by (induction ds arbitrary: counts) auto

lemma count_dependents_le:
  "length (filter (\<lambda>n. k \<in> set (tn_dependencies n)) tasks) \<le> count_list (concat (map tn_dependencies tasks)) k"
proof (induction tasks)
  case (Cons n tasks)
  have "k \<in> set (tn_dependencies n) \<Longrightarrow> 1 \<le> count_list (tn_dependencies n) k"
    using count_list_0_iff[of "tn_dependencies n" k] by (simp add: Suc_le_eq)
  with Cons show ?case by (auto simp: count_list_append)
qed simp

lemma widest_bounds:
  assumes "distinct (map tn_key tasks)"
  shows "int (length (filter (\<lambda>n. k \<in> set (tn_dependencies n)) tasks)) \<le> widest (edges_of tasks)"
proof -
  let ?c = "fan_out (edges_of tasks)"
  have count: "dict_get ?c k 0 = int (count_list (concat (map tn_dependencies tasks)) k)"
    using fan_out_counts[of "concat (map snd (edges_of tasks))" "[]" k] assms
    by (simp add: fan_out_def edges_of_distinct comp_def)
  have "dict_get ?c k 0 \<le> widest (edges_of tasks)"
  proof (cases "map_of ?c k")
    case None
    then show ?thesis using fold_max_init[of 0] by (simp add: dict_get_def widest_def)
  next
    case (Some m)
    then have "m \<in> set (map snd ?c)" by (force dest: map_of_SomeD)
    from fold_max_ge[OF this, of 0] Some show ?thesis by (simp add: dict_get_def widest_def)
  qed
  with count count_dependents_le[of k tasks] show ?thesis by linarith
qed

lemma no_drift:
  assumes "representation_drift tasks typed = []"
  shows "\<forall>n\<in>set tasks. set (tn_dependencies n) = set (dict_get typed (tn_key n) [])"
    and "fst ` set typed \<subseteq> tn_key ` set tasks"
proof -
  have sorted_none: "sort (remdups (filter P xs)) = [] \<longleftrightarrow> (\<forall>x\<in>set xs. \<not> P x)" for P and xs :: "string list"
    by (metis filter_empty_conv remdups_eq_nil_iff set_empty set_sort)
  have "\<forall>n\<in>set tasks. node_drift typed n = []" using assms by (simp add: representation_drift_def)
  then show "\<forall>n\<in>set tasks. set (tn_dependencies n) = set (dict_get typed (tn_key n) [])"
    by (auto simp: node_drift_def Let_def sorted_none split: if_splits)
  show "fst ` set typed \<subseteq> tn_key ` set tasks"
    using assms by (auto simp: representation_drift_def filter_empty_conv)
qed

text \<open>The checks an accepted proposal of the hierarchical gate has passed, in one fact.\<close>

lemma v2_checks:
  assumes "validate_graph_v2 nfkc g sb typed mission tasks = Inr v"
  obtains tasks' order depth u u' roots leaves where
    "normalise_budgets mission tasks = Inr tasks'"
    "int (length tasks) \<le> gs_max_nodes sb" "int (length tasks) \<le> gs_max_live_tasks sb" "tasks \<noteq> []"
    "dr_problems (find_duplicates nfkc (dup_items tasks')) = []"
    "check_dependencies (edges_of tasks') = Inr order" "sibling_output_conflicts tasks' = Inr []"
    "depths (edges_of tasks') order [] = Inr depth" "max_depth_of depth \<le> gs_max_depth sb"
    "node_checks g mission tasks' = Inr u" "sum_checks mission tasks' = Inr u'" "shape_check tasks' = Inr (roots, leaves)"
    "representation_drift tasks' typed = []"
    "int (length (concat (map snd (edges_of tasks')))) \<le> gs_max_edges sb" "widest (edges_of tasks') \<le> gs_max_fan_out sb"
    "v = \<lparr>vg_proposal = tasks', vg_order = order, vg_roots = roots, vg_leaves = leaves,
          vg_warnings = dr_suspected (find_duplicates nfkc (dup_items tasks'))\<rparr>"
proof -
  from assms obtain tasks' where norm: "normalise_budgets mission tasks = Inr tasks'"
    and size: "int (length tasks) \<le> gs_max_nodes sb" "int (length tasks) \<le> gs_max_live_tasks sb" "tasks \<noteq> []"
    by (auto simp: validate_graph_v2_def rbind_Inr_iff split: if_splits)
  with assms have dup: "dr_problems (find_duplicates nfkc (dup_items tasks')) = []"
    by (auto simp: validate_graph_v2_def Let_def split: if_splits)
  with assms norm size show ?thesis
    by (auto simp: validate_graph_v2_def Let_def rbind_Inr_iff lift_dep_Inr not_less guard_Inr_iff split: if_splits intro: that)
qed

text \<open>The hierarchical gate promises the same and more: when \<open>validate_graph_v2\<close> accepts, the recorded
  dependencies of every task are exactly the typed relations the plan holds for it and no relation names an
  unknown task; and the size, the number of edges, every dependency chain and the number of direct
  dependents of every task are within the versioned structure budget.\<close>

theorem validated_graph_v2_sound:
  assumes "validate_graph_v2 nfkc g sb typed mission tasks = Inr v"
  shows "graph_promise g mission v \<and> map tn_key (vg_proposal v) = map tn_key tasks \<and>
    (\<forall>n\<in>set (vg_proposal v). set (tn_dependencies n) = set (dict_get typed (tn_key n) [])) \<and>
    fst ` set typed \<subseteq> tn_key ` set tasks \<and>
    int (length tasks) \<le> gs_max_nodes sb \<and> int (length tasks) \<le> gs_max_live_tasks sb \<and>
    int (sum_list (map (\<lambda>n. length (tn_dependencies n)) (vg_proposal v))) \<le> gs_max_edges sb \<and>
    (\<forall>p. chain_in (edges_of (vg_proposal v)) p \<longrightarrow> int (length p) \<le> gs_max_depth sb) \<and>
    (\<forall>k. int (length (filter (\<lambda>n. k \<in> set (tn_dependencies n)) (vg_proposal v))) \<le> gs_max_fan_out sb)"
proof -
  obtain tasks' order depth u u' roots leaves where norm: "normalise_budgets mission tasks = Inr tasks'"
    and size: "int (length tasks) \<le> gs_max_nodes sb" "int (length tasks) \<le> gs_max_live_tasks sb" "tasks \<noteq> []"
    and dup: "dr_problems (find_duplicates nfkc (dup_items tasks')) = []"
    and checks: "check_dependencies (edges_of tasks') = Inr order" "sibling_output_conflicts tasks' = Inr []"
      "depths (edges_of tasks') order [] = Inr depth" "max_depth_of depth \<le> gs_max_depth sb"
      "node_checks g mission tasks' = Inr u" "sum_checks mission tasks' = Inr u'" "shape_check tasks' = Inr (roots, leaves)"
    and drift: "representation_drift tasks' typed = []"
    and bounds: "int (length (concat (map snd (edges_of tasks')))) \<le> gs_max_edges sb" "widest (edges_of tasks') \<le> gs_max_fan_out sb"
    and v: "v = \<lparr>vg_proposal = tasks', vg_order = order, vg_roots = roots, vg_leaves = leaves,
                   vg_warnings = dr_suspected (find_duplicates nfkc (dup_items tasks'))\<rparr>"
    by (rule v2_checks[OF assms])
  have keys: "distinct (map tn_key tasks')" using no_problems_distinct[OF dup] by (simp add: dup_keys)
  from normalise_budgets_result[OF norm] obtain reserve where
    reserve: "system_reserve_tokens (ms_final_report mission) = Inr reserve" and same: "map tn_key tasks' = map tn_key tasks"
    by auto
  have "graph_promise g mission v"
    by (rule promise_from_checks[OF keys checks(1,2,5) reserve checks(6,7)]) (simp_all add: v)
  moreover have "int (length p) \<le> gs_max_depth sb" if "chain_in (edges_of tasks') p" for p
    using structure_checked(2)[OF keys checks(1)] checks(3,4) that by fastforce
  moreover have "int (sum_list (map (\<lambda>n. length (tn_dependencies n)) tasks')) \<le> gs_max_edges sb"
    using bounds(1) keys by (simp add: edges_of_distinct length_concat comp_def)
  moreover have "int (length (filter (\<lambda>n. k \<in> set (tn_dependencies n)) tasks')) \<le> gs_max_fan_out sb" for k
    using widest_bounds[OF keys, of k] bounds(2) by linarith
  moreover have "tn_key ` set tasks' = tn_key ` set tasks" using same by (metis list.set_map)
  ultimately show ?thesis using no_drift[OF drift] size same v by simp
qed

definition sample_structure :: GraphStructureBudget where
  "sample_structure = \<lparr>gs_budget_version = 1, gs_max_live_tasks = 4, gs_max_depth = 3, gs_max_expanded_nodes = 4,
     gs_max_candidates = 1, gs_max_recursion_fuel = 8, gs_max_nodes = 4, gs_max_edges = 4, gs_max_fan_out = 2\<rparr>"

lemma validated_graph_v2_sound_witness:
  "\<exists>v. validate_graph_v2 id sample_gate sample_structure [(''b'', [''a''])] sample_mission sample_proposal = Inr v \<and>
     graph_promise sample_gate sample_mission v \<and>
     isl (validate_graph_v2 id sample_gate sample_structure [] sample_mission sample_proposal)"
proof -
  let ?r = "\<lambda>typed. validate_graph_v2 id sample_gate sample_structure typed sample_mission sample_proposal"
  have "\<not> isl (?r [(''b'', [''a''])])" "isl (?r [])" by code_simp+
  then obtain v where v: "?r [(''b'', [''a''])] = Inr v" by (cases "?r [(''b'', [''a''])]") auto
  with validated_graph_v2_sound[OF v] \<open>isl (?r [])\<close> show ?thesis by blast
qed

text \<open>C33. The two gates differ by the synthesis check. Under a structure budget no looser than the constants
  of \<open>validate_graph\<close>, whatever \<open>validate_graph_v2\<close> accepts is accepted by \<open>validate_graph\<close> with the same
  validated graph, if the budget of the synthesis template fits the Mission; otherwise \<open>validate_graph\<close>
  rejects it with the error of that check.\<close>

theorem gates_differ_by_synthesis:
  assumes "validate_graph_v2 nfkc g sb typed mission tasks = Inr v"
    and "gs_max_nodes sb \<le> int MAX_TASKS" and "gs_max_depth sb \<le> MAX_GRAPH_DEPTH"
  shows "validate_graph nfkc g mission tasks = (case synthesis_check mission of Inl e \<Rightarrow> Inl e | Inr _ \<Rightarrow> Inr v)"
proof (rule v2_checks[OF assms(1)])
  fix tasks' order depth u u' roots leaves
  assume checks: "normalise_budgets mission tasks = Inr tasks'"
    "int (length tasks) \<le> gs_max_nodes sb" "tasks \<noteq> []"
    "dr_problems (find_duplicates nfkc (dup_items tasks')) = []"
    "check_dependencies (edges_of tasks') = Inr order" "sibling_output_conflicts tasks' = Inr []"
    "depths (edges_of tasks') order [] = Inr depth" "max_depth_of depth \<le> gs_max_depth sb"
    "node_checks g mission tasks' = Inr u" "sum_checks mission tasks' = Inr u'" "shape_check tasks' = Inr (roots, leaves)"
    and v: "v = \<lparr>vg_proposal = tasks', vg_order = order, vg_roots = roots, vg_leaves = leaves,
          vg_warnings = dr_suspected (find_duplicates nfkc (dup_items tasks'))\<rparr>"
  from checks(2,8) assms(2,3) have "\<not> MAX_TASKS < length tasks" "\<not> MAX_GRAPH_DEPTH < max_depth_of depth" by linarith+
  with checks v show ?thesis
    by (cases "synthesis_check mission") (simp_all add: validate_graph_def lift_dep_def)
qed

definition greedy_mission :: Mission where
  "greedy_mission = sample_mission
     \<lparr>ms_budget := no_budget\<lparr>max_tokens := Some 100, max_tool_calls := Some 10\<rparr>,
      ms_final_report := Some [(''synthesis'', JObj [(''budget'', JObj [(''max_tool_calls'', JInt 11)])])]\<rparr>"

lemma gates_differ_by_synthesis_witness:
  "\<exists>v. validate_graph_v2 id sample_gate sample_structure [(''b'', [''a''])] greedy_mission sample_proposal = Inr v \<and>
     validate_graph id sample_gate greedy_mission sample_proposal = Inl GR_synthesis_budget"
proof -
  let ?r = "validate_graph_v2 id sample_gate sample_structure [(''b'', [''a''])] greedy_mission sample_proposal"
  have s: "\<not> isl ?r" "synthesis_check greedy_mission = Inl GR_synthesis_budget"
    "gs_max_nodes sample_structure \<le> int MAX_TASKS" "gs_max_depth sample_structure \<le> MAX_GRAPH_DEPTH" by code_simp+
  then obtain v where v: "?r = Inr v" by (cases ?r) auto
  with gates_differ_by_synthesis[OF v s(3,4)] s(2) show ?thesis by simp
qed

end
