(* ===== verification/Changes.thy ===== *)
theory Changes
  imports Task_Graph
begin

text \<open>
  Change proposals of an admitted task graph (\<open>graph/changes.py\<close>): the wire form of a proposal and
  \<open>validate_change\<close>, which merges it with the Tasks of the Mission and checks the whole. \<open>str\<close>
  is Python's \<open>str\<close> on a value that is not text, \<open>float_text\<close> its \<open>float\<close> on text (a decoded proposal
  never reaches it), \<open>nfkc\<close> Unicode normalisation and \<open>sha256_hex\<close> the content hash. \<open>GraphChangeRejected\<close> and
  every exception of the interpreter is a value of \<open>change_error\<close>.
\<close>

section \<open>Vocabulary\<close>

definition OPERATIONS :: "string list" where
  "OPERATIONS = [''add_task'', ''supersede_task'', ''retarget_dependencies'', ''set_priority'', ''pause_task'',
     ''resume_task'', ''cancel_task'', ''set_role'']"

definition TASK_ROLES :: "string list" where
  "TASK_ROLES = [''worker'', ''explorer'', ''exploiter'', ''simplifier'', ''connector'', ''failure_analyst'']"

definition SUPERSEDABLE :: "TaskStatus list" where
  "SUPERSEDABLE = [T_READY, T_ACTIVE, T_VERIFYING]"

datatype change_error =
    CH_backpressure
  | CH_duplicate_keys "string list"
  | CH_missing_task string string
  | CH_illegal_transition string string
  | CH_supersede_chain string int
  | CH_conflicting_operations "string list"
  | CH_missing_dependency string string
  | CH_dependency dependency_error
  | CH_too_large nat
  | CH_depth int
  | CH_proposals string int
  | CH_duplicate "duplicate_problem list"
  | CH_artifact_conflict string string "string list"
  | CH_domain string "domain_problem list"
  | CH_contract string
  | CH_undeployed string "string list"
  | CH_tools string "string list"
  | CH_goal_drift string
  | CH_reserve
  | CH_budget int
  | CH_floor string int
  | CH_python contract_error
  | CH_graph graph_error

definition py :: "contract_error + 'a \<Rightarrow> change_error + 'a" where
  "py r = (case r of Inl e \<Rightarrow> Inl (CH_python e) | Inr x \<Rightarrow> Inr x)"

record ChangeLimits =
  cl_max_graph_depth :: int
  cl_max_proposals_per_agent :: int
  cl_max_tasks :: int
  cl_max_supersede_chain :: int
  cl_admit_new_tasks :: bool

definition default_change_limits :: ChangeLimits where
  "default_change_limits = \<lparr>cl_max_graph_depth = 6, cl_max_proposals_per_agent = 3, cl_max_tasks = int MAX_TASKS,
     cl_max_supersede_chain = 2, cl_admit_new_tasks = True\<rparr>"

section \<open>New nodes\<close>

text \<open>\<open>str(v)\<close>, and \<open>float(v)\<close> on a number.\<close>

definition py_str :: "(json \<Rightarrow> string) \<Rightarrow> json \<Rightarrow> string" where
  "py_str str v = (case v of JStr s \<Rightarrow> s | _ \<Rightarrow> str v)"

definition float_number :: "json \<Rightarrow> contract_error + pyfloat" where
  "float_number v =
     (case v of
        JInt n \<Rightarrow> if MAX_FLOAT_INT \<le> \<bar>n\<bar> then Inl (PyValueError ''float'') else Inr (PyFinite (of_int n))
      | JFloat x \<Rightarrow> Inr x
      | _ \<Rightarrow> Inl (PyTypeError ''float''))"

definition is_number :: "json \<Rightarrow> bool" where
  "is_number v = (case v of JInt _ \<Rightarrow> True | JFloat _ \<Rightarrow> True | _ \<Rightarrow> False)"

definition is_list :: "json \<Rightarrow> bool" where
  "is_list v = (case v of JList _ \<Rightarrow> True | _ \<Rightarrow> False)"

text \<open>\<open>tuple(str(x) for x in v)\<close>.\<close>

definition strs :: "(json \<Rightarrow> string) \<Rightarrow> json \<Rightarrow> contract_error + string list" where
  "strs str v = rbind (tuple_of v) (\<lambda>xs. Inr (map (py_str str) xs))"

record NewTaskNode =
  nn_key :: string
  nn_goal :: string
  nn_rationale :: string
  nn_dependencies :: "string list"
  nn_success_criteria :: "string list"
  nn_verification_policy :: "string list"
  nn_allowed_tools :: "string list"
  nn_budget :: Budget
  nn_priority :: pyfloat
  nn_outputs :: "string list"
  nn_parent_task_ids :: "string list"
  nn_role :: string

definition NewTaskNode_to_json :: "NewTaskNode \<Rightarrow> json" where
  "NewTaskNode_to_json n =
     JObj [(''key'', JStr (nn_key n)), (''goal'', JStr (nn_goal n)), (''rationale'', JStr (nn_rationale n)),
       (''dependencies'', json_texts (nn_dependencies n)), (''success_criteria'', json_texts (nn_success_criteria n)),
       (''verification_policy'', json_texts (nn_verification_policy n)), (''allowed_tools'', json_texts (nn_allowed_tools n)),
       (''budget'', Budget_to_json (nn_budget n)), (''priority'', JFloat (nn_priority n)),
       (''outputs'', json_texts (nn_outputs n)), (''parent_task_ids'', json_texts (nn_parent_task_ids n)),
       (''role'', JStr (nn_role n))]"

definition node_fields :: "string list" where
  "node_fields = [''key'', ''goal'', ''rationale'', ''dependencies'', ''success_criteria'', ''verification_policy'',
     ''allowed_tools'', ''budget'', ''priority'', ''outputs'', ''parent_task_ids'', ''role'']"

definition node_lists :: "string list" where
  "node_lists = [''dependencies'', ''success_criteria'', ''verification_policy'', ''allowed_tools'', ''outputs'', ''parent_task_ids'']"

definition NewTaskNode_from_json ::
  "(json \<Rightarrow> string) \<Rightarrow> string list \<Rightarrow> json \<Rightarrow> contract_error + NewTaskNode" where
  "NewTaskNode_from_json str default_policy v =
     (case v of
        JObj d \<Rightarrow>
          let unknown = filter (\<lambda>k. k \<notin> set node_fields) (dict_keys d);
              missing = filter (\<lambda>k. k \<notin> set (dict_keys d)) [''key'', ''goal'', ''rationale'', ''success_criteria''];
              key = strip (py_str str (field d ''key''));
              priority = dict_get d ''priority'' (JFloat (PyFinite 1));
              role = py_str str (or_default (dict_get d ''role'' (JStr ''worker'')) (JStr ''worker'')) in
          if unknown \<noteq> [] then Inl (CE_unknown ''add_task'' (sort unknown))
          else if missing \<noteq> [] then Inl (CE_missing ''add_task'' (sort missing))
          else if key = [] then Inl (CE_blank ''add_task.key'')
          else
            rbind (for_each (\<lambda>name. if is_list (dict_get d name (JList [])) then Inr () else Inl (CE_type name)) node_lists) (\<lambda>_.
            if \<not> is_number priority then Inl (CE_type ''priority'')
            else if role \<notin> set TASK_ROLES then Inl (CE_enum ''role'')
            else
              rbind (strs str (dict_get d ''dependencies'' (JList []))) (\<lambda>deps.
              rbind (strs str (field d ''success_criteria'')) (\<lambda>criteria.
              rbind (strs str (dict_get d ''verification_policy'' (json_texts default_policy))) (\<lambda>policy.
              rbind (strs str (dict_get d ''allowed_tools'' (JList []))) (\<lambda>tools.
              rbind (Budget_from_json (dict_get d ''budget'' (JObj []))) (\<lambda>budget.
              rbind (float_number priority) (\<lambda>p.
              rbind (strs str (dict_get d ''outputs'' (JList []))) (\<lambda>outputs.
              rbind (strs str (dict_get d ''parent_task_ids'' (JList []))) (\<lambda>parents.
              Inr \<lparr>nn_key = key, nn_goal = py_str str (field d ''goal''), nn_rationale = py_str str (field d ''rationale''),
                nn_dependencies = deps, nn_success_criteria = criteria, nn_verification_policy = policy,
                nn_allowed_tools = tools, nn_budget = budget, nn_priority = p, nn_outputs = outputs,
                nn_parent_task_ids = parents, nn_role = role\<rparr>)))))))))
      | _ \<Rightarrow> Inl (CE_type ''add_task''))"

section \<open>Operations\<close>

record Operation =
  op_op :: string
  op_args :: "(string \<times> json) list"

definition Operation_to_json :: "Operation \<Rightarrow> json" where
  "Operation_to_json o' = JObj (fold (\<lambda>(k, v). dict_set k v) (op_args o') [(''op'', JStr (op_op o'))])"

definition blank_arg :: "(json \<Rightarrow> string) \<Rightarrow> (string \<times> json) list \<Rightarrow> string \<Rightarrow> bool" where
  "blank_arg str args k \<longleftrightarrow> strip (py_str str (dict_get args k (JStr ''''))) = []"

definition check_operation :: "(json \<Rightarrow> string) \<Rightarrow> string \<Rightarrow> (string \<times> json) list \<Rightarrow> contract_error + unit" where
  "check_operation str op args =
     (if op \<notin> set OPERATIONS then Inl (CE_enum ''op'')
      else
        rbind (if op = ''add_task'' then rbind (NewTaskNode_from_json str SYSTEM_DEFAULT_POLICY (JObj args)) (\<lambda>_. Inr ())
               else if blank_arg str args ''task_id'' then Inl (CE_blank ''task_id'') else Inr ()) (\<lambda>_.
        if op = ''supersede_task'' \<and> blank_arg str args ''replacement_key'' then Inl (CE_blank ''replacement_key'')
        else if op = ''retarget_dependencies'' \<and> \<not> is_list (dict_get args ''dependencies'' JNull) then Inl (CE_type ''dependencies'')
        else if op = ''set_priority'' \<and> \<not> is_number (dict_get args ''priority'' JNull) then Inl (CE_type ''priority'')
        else if op = ''set_role'' \<and> py_str str (dict_get args ''role'' JNull) \<notin> set TASK_ROLES then Inl (CE_enum ''role'')
        else Inr ()))"

definition Operation_from_json :: "(json \<Rightarrow> string) \<Rightarrow> json \<Rightarrow> contract_error + Operation" where
  "Operation_from_json str v =
     (case v of
        JObj d \<Rightarrow>
          (case map_of d ''op'' of
             None \<Rightarrow> Inl (CE_type ''operation'')
           | Some w \<Rightarrow>
               let op = py_str str w; args = filter (\<lambda>kv. fst kv \<noteq> ''op'') d in
               rbind (check_operation str op args) (\<lambda>_. Inr \<lparr>op_op = op, op_args = args\<rparr>))
      | _ \<Rightarrow> Inl (CE_type ''operation''))"

section \<open>Proposals\<close>

record TaskGraphChange =
  gc_base_graph_version :: int
  gc_basis :: "(string \<times> json) list"
  gc_rationale :: string
  gc_operations :: "Operation list"

definition TaskGraphChange_to_json :: "TaskGraphChange \<Rightarrow> json" where
  "TaskGraphChange_to_json c =
     JObj [(''base_graph_version'', JInt (gc_base_graph_version c)), (''basis'', JObj (gc_basis c)),
       (''rationale'', JStr (gc_rationale c)), (''operations'', JList (map Operation_to_json (gc_operations c)))]"

definition proposal_hash :: "(json \<Rightarrow> string) \<Rightarrow> TaskGraphChange \<Rightarrow> string" where
  "proposal_hash sha256_hex c =
     sha256_hex (JObj [(''basis'', JObj (gc_basis c)), (''rationale'', JStr (gc_rationale c)),
       (''operations'', JList (map Operation_to_json (gc_operations c)))])"

definition TaskGraphChange_from_json :: "(json \<Rightarrow> string) \<Rightarrow> json \<Rightarrow> contract_error + TaskGraphChange" where
  "TaskGraphChange_from_json str v =
     (case v of
        JObj d \<Rightarrow>
          let unknown = filter (\<lambda>k. k \<notin> {''base_graph_version'', ''basis'', ''rationale'', ''operations''}) (dict_keys d) in
          if unknown \<noteq> [] then Inl (CE_unknown ''graph_change'' (sort unknown))
          else
            rbind (positive_int 1 (field d ''base_graph_version'') ''base_graph_version'') (\<lambda>base.
            case dict_get d ''operations'' (JList []) of
              JList raw_ops \<Rightarrow>
                (case dict_get d ''basis'' (JObj []) of
                   JObj basis \<Rightarrow>
                     rbind (map_result (Operation_from_json str) raw_ops) (\<lambda>ops.
                     Inr \<lparr>gc_base_graph_version = base, gc_basis = basis,
                       gc_rationale = py_str str (dict_get d ''rationale'' (JStr '''')), gc_operations = ops\<rparr>)
                 | _ \<Rightarrow> Inl (CE_type ''basis''))
            | _ \<Rightarrow> Inl (CE_type ''operations''))
      | _ \<Rightarrow> Inl (CE_type ''graph_change''))"

definition add_tasks :: "(json \<Rightarrow> string) \<Rightarrow> string list \<Rightarrow> TaskGraphChange \<Rightarrow> contract_error + NewTaskNode list" where
  "add_tasks str default_policy c =
     map_result (\<lambda>o'. NewTaskNode_from_json str default_policy (JObj (op_args o')))
       (filter (\<lambda>o'. op_op o' = ''add_task'') (gc_operations c))"

definition referenced_by :: "(json \<Rightarrow> string) \<Rightarrow> Operation \<Rightarrow> contract_error + string list" where
  "referenced_by str o' =
     (if op_op o' = ''add_task'' then
        rbind (strs str (dict_get (op_args o') ''dependencies'' (JList []))) (\<lambda>deps.
        rbind (strs str (dict_get (op_args o') ''parent_task_ids'' (JList []))) (\<lambda>parents. Inr (deps @ parents)))
      else if truthy (dict_get (op_args o') ''task_id'' JNull) then Inr [py_str str (dict_get (op_args o') ''task_id'' JNull)]
      else Inr [])"

definition referenced_task_ids :: "(json \<Rightarrow> string) \<Rightarrow> TaskGraphChange \<Rightarrow> contract_error + string set" where
  "referenced_task_ids str c = rbind (map_result (referenced_by str) (gc_operations c)) (\<lambda>idss. Inr (\<Union>ids\<in>set idss. set ids))"


section \<open>The operations of a proposal\<close>

record op_state =
  cs_superseded :: "(string \<times> string) list"
  cs_retargets :: "(string \<times> string list) list"
  cs_priorities :: "(string \<times> pyfloat) list"
  cs_pauses :: "(string \<times> string) list"
  cs_resumes :: "string list"
  cs_cancels :: "(string \<times> string) list"
  cs_roles :: "(string \<times> string) list"

definition no_operations :: op_state where
  "no_operations = \<lparr>cs_superseded = [], cs_retargets = [], cs_priorities = [], cs_pauses = [], cs_resumes = [],
     cs_cancels = [], cs_roles = []\<rparr>"

text \<open>\<open>float(v)\<close> of any argument.\<close>

definition py_float :: "(string \<Rightarrow> pyfloat option) \<Rightarrow> json \<Rightarrow> contract_error + pyfloat" where
  "py_float float_text v =
     (case v of
        JStr s \<Rightarrow> (case float_text s of None \<Rightarrow> Inl (PyValueError ''float'') | Some x \<Rightarrow> Inr x)
      | JBool b \<Rightarrow> Inr (PyFinite (if b then 1 else 0))
      | _ \<Rightarrow> float_number v)"

record change_env =
  ce_str :: "json \<Rightarrow> string"
  ce_float_text :: "string \<Rightarrow> pyfloat option"
  ce_nfkc :: "string \<Rightarrow> string"

definition supersede_operation ::
  "change_env \<Rightarrow> ChangeLimits \<Rightarrow> string list \<Rightarrow> Task \<Rightarrow> string \<Rightarrow> (string \<times> json) list \<Rightarrow> op_state \<Rightarrow> change_error + op_state" where
  "supersede_operation env limits keys task task_id args st =
     (if tk_status task \<notin> set SUPERSEDABLE then Inl (CH_illegal_transition ''supersede_task'' task_id)
      else
        rbind (py (item_of args ''replacement_key'')) (\<lambda>v.
        let replacement = py_str (ce_str env) v in
        if replacement \<notin> set keys then Inl (CH_missing_task ''supersede_task'' replacement)
        else if tk_kind task \<noteq> ''work'' then Inl (CH_illegal_transition ''supersede_task'' task_id)
        else
          rbind (py (py_int (dict_get (tk_context task) ''supersede_depth'' (JInt 0)))) (\<lambda>depth.
          if cl_max_supersede_chain limits < depth + 1 then Inl (CH_supersede_chain task_id depth)
          else Inr (st\<lparr>cs_superseded := dict_set task_id replacement (cs_superseded st)\<rparr>))))"

definition retarget_operation ::
  "change_env \<Rightarrow> Task \<Rightarrow> string \<Rightarrow> (string \<times> json) list \<Rightarrow> op_state \<Rightarrow> change_error + op_state" where
  "retarget_operation env task task_id args st =
     (if tk_status task \<noteq> T_BLOCKED then Inl (CH_illegal_transition ''retarget_dependencies'' task_id)
      else if tk_kind task = ''synthesis'' then Inl (CH_illegal_transition ''retarget_dependencies'' task_id)
      else
        rbind (py (item_of args ''dependencies'')) (\<lambda>v.
        rbind (py (strs (ce_str env) v)) (\<lambda>deps.
        Inr (st\<lparr>cs_retargets := dict_set task_id deps (cs_retargets st)\<rparr>))))"

definition terminal_task :: "Task \<Rightarrow> bool" where
  "terminal_task task \<longleftrightarrow> tk_status task \<in> {T_COMPLETED, T_FAILED, T_CANCELLED}"

definition priority_operation ::
  "change_env \<Rightarrow> Task \<Rightarrow> string \<Rightarrow> (string \<times> json) list \<Rightarrow> op_state \<Rightarrow> change_error + op_state" where
  "priority_operation env task task_id args st =
     (if terminal_task task then Inl (CH_illegal_transition ''set_priority'' task_id)
      else
        rbind (py (item_of args ''priority'')) (\<lambda>v.
        rbind (py (py_float (ce_float_text env) v)) (\<lambda>p.
        Inr (st\<lparr>cs_priorities := dict_set task_id p (cs_priorities st)\<rparr>))))"

definition pause_operation ::
  "change_env \<Rightarrow> Task \<Rightarrow> string \<Rightarrow> (string \<times> json) list \<Rightarrow> op_state \<Rightarrow> change_error + op_state" where
  "pause_operation env task task_id args st =
     (if terminal_task task then Inl (CH_illegal_transition ''pause_task'' task_id)
      else if tk_status task \<notin> {T_READY, T_BLOCKED} then Inl (CH_illegal_transition ''pause_task'' task_id)
      else Inr (st\<lparr>cs_pauses := dict_set task_id (py_str (ce_str env) (dict_get args ''reason'' (JStr ''''))) (cs_pauses st)\<rparr>))"

definition resume_operation :: "Task \<Rightarrow> string \<Rightarrow> op_state \<Rightarrow> change_error + op_state" where
  "resume_operation task task_id st =
     (if terminal_task task then Inl (CH_illegal_transition ''resume_task'' task_id)
      else Inr (st\<lparr>cs_resumes := cs_resumes st @ [task_id]\<rparr>))"

definition cancel_operation ::
  "change_env \<Rightarrow> Task \<Rightarrow> string \<Rightarrow> (string \<times> json) list \<Rightarrow> op_state \<Rightarrow> change_error + op_state" where
  "cancel_operation env task task_id args st =
     (if tk_status task \<notin> set SUPERSEDABLE then Inl (CH_illegal_transition ''cancel_task'' task_id)
      else if tk_kind task \<noteq> ''work'' then Inl (CH_illegal_transition ''cancel_task'' task_id)
      else Inr (st\<lparr>cs_cancels := dict_set task_id (py_str (ce_str env) (dict_get args ''reason'' (JStr ''''))) (cs_cancels st)\<rparr>))"

definition role_operation ::
  "change_env \<Rightarrow> Task \<Rightarrow> string \<Rightarrow> (string \<times> json) list \<Rightarrow> op_state \<Rightarrow> change_error + op_state" where
  "role_operation env task task_id args st =
     (if terminal_task task then Inl (CH_illegal_transition ''set_role'' task_id)
      else
        rbind (py (item_of args ''role'')) (\<lambda>v.
        Inr (st\<lparr>cs_roles := dict_set task_id (py_str (ce_str env) v) (cs_roles st)\<rparr>)))"

definition tasks_by_id :: "Task list \<Rightarrow> (string \<times> Task) list" where
  "tasks_by_id tasks = fold (\<lambda>t. dict_set (tk_id t) t) tasks []"

definition dispatch_operation ::
  "change_env \<Rightarrow> ChangeLimits \<Rightarrow> string list \<Rightarrow> string \<Rightarrow> Task \<Rightarrow> string \<Rightarrow> (string \<times> json) list \<Rightarrow> op_state \<Rightarrow> change_error + op_state" where
  "dispatch_operation env limits keys op task task_id args st =
     (if op = ''supersede_task'' then supersede_operation env limits keys task task_id args st
      else if op = ''retarget_dependencies'' then retarget_operation env task task_id args st
      else if op = ''set_priority'' then priority_operation env task task_id args st
      else if op = ''pause_task'' then pause_operation env task task_id args st
      else if op = ''resume_task'' then resume_operation task task_id st
      else if op = ''cancel_task'' then cancel_operation env task task_id args st
      else if op = ''set_role'' then role_operation env task task_id args st
      else Inr st)"

definition apply_operation ::
  "change_env \<Rightarrow> ChangeLimits \<Rightarrow> (string \<times> Task) list \<Rightarrow> string list \<Rightarrow> Operation \<Rightarrow> op_state \<Rightarrow> change_error + op_state" where
  "apply_operation env limits by_id keys o' st =
     (if op_op o' = ''add_task'' then Inr st
      else
        rbind (py (item_of (op_args o') ''task_id'')) (\<lambda>v.
        let task_id = py_str (ce_str env) v in
        case map_of by_id task_id of
          None \<Rightarrow> Inl (CH_missing_task (op_op o') task_id)
        | Some task \<Rightarrow> dispatch_operation env limits keys (op_op o') task task_id (op_args o') st))"

fun apply_operations ::
  "change_env \<Rightarrow> ChangeLimits \<Rightarrow> (string \<times> Task) list \<Rightarrow> string list \<Rightarrow> Operation list \<Rightarrow> op_state \<Rightarrow> change_error + op_state" where
  "apply_operations env limits by_id keys [] st = Inr st"
| "apply_operations env limits by_id keys (o' # ops) st =
     rbind (apply_operation env limits by_id keys o' st) (apply_operations env limits by_id keys ops)"

definition clash :: "string list \<Rightarrow> string list \<Rightarrow> change_error + unit" where
  "clash left right =
     (let common = filter (\<lambda>k. k \<in> set right) left in
      if common \<noteq> [] then Inl (CH_conflicting_operations (sort common)) else Inr ())"

definition structural_check :: "op_state \<Rightarrow> change_error + unit" where
  "structural_check st =
     rbind (clash (dict_keys (cs_superseded st)) (dict_keys (cs_retargets st))) (\<lambda>_.
     rbind (clash (dict_keys (cs_superseded st)) (dict_keys (cs_cancels st))) (\<lambda>_.
     clash (dict_keys (cs_retargets st)) (dict_keys (cs_cancels st))))"

section \<open>The merged graph\<close>

definition removed_ids :: "op_state \<Rightarrow> string set" where
  "removed_ids st = fst ` set (cs_superseded st) \<union> fst ` set (cs_cancels st)"

definition live_tasks :: "Task list \<Rightarrow> Task list" where
  "live_tasks tasks = map snd (tasks_by_id (filter (\<lambda>t. tk_status t \<noteq> T_CANCELLED) tasks))"

definition surviving :: "Task list \<Rightarrow> op_state \<Rightarrow> Task list" where
  "surviving tasks st = filter (\<lambda>t. tk_id t \<notin> removed_ids st) (live_tasks tasks)"

definition merged_deps :: "op_state \<Rightarrow> Task \<Rightarrow> string list" where
  "merged_deps st t = map (\<lambda>d. dict_get (cs_superseded st) d d) (dict_get (cs_retargets st) (tk_id t) (tk_dependency_ids t))"

definition merged_edges :: "Task list \<Rightarrow> op_state \<Rightarrow> NewTaskNode list \<Rightarrow> edges" where
  "merged_edges tasks st nodes =
     fold (\<lambda>n. dict_set (nn_key n) (nn_dependencies n)) nodes
       (fold (\<lambda>t. dict_set (tk_id t) (merged_deps st t)) (surviving tasks st) [])"

definition merged_dependency ::
  "(string \<times> Task) list \<Rightarrow> op_state \<Rightarrow> string list \<Rightarrow> edges \<Rightarrow> string \<Rightarrow> string \<Rightarrow> change_error + unit" where
  "merged_dependency by_id st keys edges key dep =
     (if dep \<in> removed_ids st \<and> dep \<notin> set keys then Inl (CH_missing_dependency key dep)
      else if dep \<notin> fst ` set edges then Inl (CH_missing_dependency key dep)
      else case map_of by_id dep of
        Some t \<Rightarrow> if tk_status t = T_CANCELLED then Inl (CH_missing_dependency key dep) else Inr ()
      | None \<Rightarrow> Inr ())"

definition merged_dependencies ::
  "(string \<times> Task) list \<Rightarrow> op_state \<Rightarrow> string list \<Rightarrow> edges \<Rightarrow> change_error + unit" where
  "merged_dependencies by_id st keys edges =
     for_each (\<lambda>(key, deps). for_each (merged_dependency by_id st keys edges key) deps) edges"

definition change_depth :: "edges \<Rightarrow> string list \<Rightarrow> change_error + int" where
  "change_depth edges order =
     (case depths edges order [] of Inl e \<Rightarrow> Inl (CH_graph e) | Inr depth \<Rightarrow> Inr (max_depth_of depth))"

definition proposals_check ::
  "change_env \<Rightarrow> ChangeLimits \<Rightarrow> (string \<times> int) list \<Rightarrow> TaskGraphChange \<Rightarrow> NewTaskNode list \<Rightarrow> change_error + unit" where
  "proposals_check env limits proposals_by_attempt c nodes =
     (let source_attempt = py_str (ce_str env) (or_default (dict_get (gc_basis c) ''attempt_id'' JNull) (JStr ''''));
          asked = dict_get proposals_by_attempt source_attempt 0 + int (length nodes) in
      if source_attempt \<noteq> [] \<and> nodes \<noteq> [] \<and> cl_max_proposals_per_agent limits < asked
      then Inl (CH_proposals source_attempt asked) else Inr ())"

definition merged_items :: "Task list \<Rightarrow> op_state \<Rightarrow> NewTaskNode list \<Rightarrow> edges \<Rightarrow> dup_item list" where
  "merged_items tasks st nodes edges =
     map (\<lambda>t. \<lparr>di_key = tk_id t, di_goal = tk_goal t, di_dependencies = deps_of edges (tk_id t),
       di_criteria = tk_success_criteria t\<rparr>) (surviving tasks st) @
     map (\<lambda>n. \<lparr>di_key = nn_key n, di_goal = nn_goal n, di_dependencies = nn_dependencies n,
       di_criteria = nn_success_criteria n\<rparr>) nodes"

definition outputs_of :: "Task list \<Rightarrow> op_state \<Rightarrow> NewTaskNode list \<Rightarrow> (string \<times> string list) list" where
  "outputs_of tasks st nodes =
     fold (\<lambda>n. dict_set (nn_key n) (nn_outputs n)) nodes
       (fold (\<lambda>t. dict_set (tk_id t) (tk_outputs t)) (surviving tasks st) [])"

definition output_conflict ::
  "memo \<Rightarrow> (string \<times> string list) list \<Rightarrow> NewTaskNode \<Rightarrow> string \<times> string list \<Rightarrow> change_error + unit" where
  "output_conflict anc outputs n other =
     (if fst other = nn_key n \<or> fst other \<in> dict_get anc (nn_key n) {} \<or> nn_key n \<in> dict_get anc (fst other) {} then Inr ()
      else
        let shared = filter (\<lambda>p. p \<in> set (snd other)) (remdups (dict_get outputs (nn_key n) [])) in
        if shared \<noteq> [] then Inl (CH_artifact_conflict (nn_key n) (fst other) (sort shared)) else Inr ())"

definition output_conflicts :: "edges \<Rightarrow> (string \<times> string list) list \<Rightarrow> NewTaskNode list \<Rightarrow> change_error + unit" where
  "output_conflicts edges outputs nodes =
     (case ancestors_of edges of
        None \<Rightarrow> Inl (CH_graph GR_recursion)
      | Some anc \<Rightarrow> for_each (\<lambda>n. for_each (output_conflict anc outputs n) outputs) nodes)"


section \<open>Contracts of the new nodes\<close>

definition change_node_check ::
  "gate \<Rightarrow> Mission \<Rightarrow> (string \<times> Task) list \<Rightarrow> NewTaskNode \<Rightarrow> change_error + unit" where
  "change_node_check g mission by_id n =
     (let problems = check_against_domain (gate_profile g) (nn_success_criteria n) (Some (nn_verification_policy n)) [];
          k = nn_key n;
          undeployed = filter (\<lambda>l. l \<notin> set (gt_deployed_layers g)) (remdups (nn_verification_policy n));
          extra = filter (\<lambda>t. t \<notin> set (ms_allowed_tools mission)) (remdups (nn_allowed_tools n)) in
      if problems \<noteq> [] then Inl (CH_domain k problems)
      else if strip (nn_goal n) = [] \<or> nn_success_criteria n = [] then Inl (CH_contract k)
      else if strip (nn_rationale n) = [] then Inl (CH_goal_drift k)
      else if \<not> set (nn_verification_policy n) \<subseteq> set VERIFICATION_LAYERS \<or> nn_verification_policy n = [] then Inl (CH_contract k)
      else if ''code_test'' \<notin> set (gt_deployed_layers g) \<and> pytest_criteria (nn_success_criteria n) \<noteq> []
      then Inl (CH_undeployed k (pytest_criteria (nn_success_criteria n)))
      else if undeployed \<noteq> [] then Inl (CH_undeployed k (sort undeployed))
      else if extra \<noteq> [] then Inl (CH_tools k (sort extra))
      else for_each (\<lambda>parent. if parent \<in> fst ` set by_id then Inr () else Inl (CH_missing_task k parent)) (nn_parent_task_ids n))"

definition drift_check :: "op_state \<Rightarrow> edges \<Rightarrow> NewTaskNode \<Rightarrow> change_error + unit" where
  "drift_check st edges n =
     (if nn_key n \<in> (\<Union>e\<in>set edges. set (snd e)) \<or> nn_key n \<in> snd ` set (cs_superseded st) \<or> nn_parent_task_ids n \<noteq> []
      then Inr () else Inl (CH_goal_drift (nn_key n)))"

section \<open>The token pool\<close>

definition or_none :: "int option \<Rightarrow> int" where
  "or_none x = (case x of None \<Rightarrow> 0 | Some n \<Rightarrow> n)"

definition unmaterialized_system_reserve :: "Mission \<Rightarrow> Task list \<Rightarrow> change_error + int" where
  "unmaterialized_system_reserve mission tasks =
     (let report = (case ms_final_report mission of None \<Rightarrow> [] | Some d \<Rightarrow> d) in
      rbind (py (py_int (or_zero (dict_get report ''conflict_reserve_tokens'' JNull)))) (\<lambda>original_conflict.
      case dict_get report ''conflict_reserve_remaining'' (JInt original_conflict) of
        JInt remaining \<Rightarrow>
          if remaining < 0 \<or> original_conflict < remaining then Inl CH_reserve
          else
            let allocated = sum_list (map (\<lambda>t. or_none (max_tokens (tk_budget t))) (filter (\<lambda>t. tk_kind t = ''conflict'') tasks)) in
            if ''conflict_reserve_remaining'' \<in> fst ` set report \<and> remaining + allocated \<noteq> original_conflict then Inl CH_reserve
            else
              rbind (py (system_reserve_tokens (ms_final_report mission))) (\<lambda>reserve.
              Inr ((if \<exists>t\<in>set tasks. tk_kind t = ''synthesis'' then 0 else reserve - original_conflict) + remaining))
      | _ \<Rightarrow> Inl CH_reserve))"

definition task_commitment :: "op_state \<Rightarrow> (string \<times> int) list \<Rightarrow> Task \<Rightarrow> int" where
  "task_commitment st committed t =
     (if tk_status t = T_CANCELLED \<or> tk_id t \<in> removed_ids st then dict_get committed (tk_id t) 0
      else or_none (max_tokens (tk_budget t)))"

definition default_share :: "int \<Rightarrow> int \<Rightarrow> nat \<Rightarrow> nat \<Rightarrow> int" where
  "default_share pool remaining n_tasks n_nodes =
     (if n_nodes = 0 then 0
      else max 1 (min (remaining div max 1 (int n_nodes)) (pool div max 4 (int (n_tasks + n_nodes)))))"

definition pool_budgets ::
  "Mission \<Rightarrow> Task list \<Rightarrow> op_state \<Rightarrow> (string \<times> int) list \<Rightarrow> NewTaskNode list \<Rightarrow> change_error + (string \<times> int) list" where
  "pool_budgets mission tasks st committed nodes =
     (case max_tokens (ms_budget mission) of
        None \<Rightarrow> Inr []
      | Some pool \<Rightarrow>
          rbind (unmaterialized_system_reserve mission tasks) (\<lambda>reserve.
          let remaining = pool - reserve - sum_list (map (task_commitment st committed) tasks);
              share = default_share pool remaining (length tasks) (length nodes);
              budgets = fold (\<lambda>n. dict_set (nn_key n)
                (case max_tokens (nn_budget n) of None \<Rightarrow> share | Some wanted \<Rightarrow> wanted)) nodes [];
              total_new = sum_list (map snd budgets) in
          if remaining < total_new then Inl (CH_budget total_new) else Inr budgets))"

definition granted_tokens :: "(string \<times> int) list \<Rightarrow> NewTaskNode \<Rightarrow> int option" where
  "granted_tokens budgets n =
     (case map_of budgets (nn_key n) of None \<Rightarrow> max_tokens (nn_budget n) | Some t \<Rightarrow> Some t)"

definition change_floor_check :: "gate \<Rightarrow> (string \<times> int) list \<Rightarrow> NewTaskNode \<Rightarrow> change_error + unit" where
  "change_floor_check g budgets n =
     (case floor_refusal (gt_task_floor g) (nn_verification_policy n) (granted_tokens budgets n) (gt_candidates g) of
        Some least \<Rightarrow> Inl (CH_floor (nn_key n) least)
      | None \<Rightarrow> Inr ())"

section \<open>The whole check\<close>

record ValidatedChange =
  vc_change :: TaskGraphChange
  vc_new_nodes :: "NewTaskNode list"
  vc_order :: "string list"
  vc_operations :: op_state
  vc_affected_task_ids :: "string list"
  vc_warnings :: "(string \<times> string) list"
  vc_depth :: int
  vc_budget_pool :: "(string \<times> int) list"

definition affected_ids :: "op_state \<Rightarrow> string list \<Rightarrow> string list" where
  "affected_ids st keys =
     sort (remdups (dict_keys (cs_superseded st) @ dict_keys (cs_retargets st) @ dict_keys (cs_priorities st) @
       dict_keys (cs_pauses st) @ cs_resumes st @ dict_keys (cs_cancels st) @ dict_keys (cs_roles st) @ keys))"

text \<open>The stages of \<open>validate_change\<close>: reading the operations, the checks of the merged graph, the contracts of
  the new nodes.\<close>

definition read_operations ::
  "change_env \<Rightarrow> gate \<Rightarrow> ChangeLimits \<Rightarrow> Task list \<Rightarrow> TaskGraphChange \<Rightarrow> change_error + (NewTaskNode list \<times> op_state)" where
  "read_operations env g limits tasks c =
     (if \<not> cl_admit_new_tasks limits \<and> (\<exists>o'\<in>set (gc_operations c). op_op o' = ''add_task'') then Inl CH_backpressure
      else
        rbind (py (add_tasks (ce_str env) (default_change_policy (gt_deployed_layers g)) c)) (\<lambda>nodes.
        let keys = map nn_key nodes in
        if \<not> distinct keys then Inl (CH_duplicate_keys keys)
        else
          rbind (apply_operations env limits (tasks_by_id tasks) keys (gc_operations c) no_operations) (\<lambda>st.
          rbind (structural_check st) (\<lambda>_. Inr (nodes, st)))))"

definition check_merged ::
  "change_env \<Rightarrow> ChangeLimits \<Rightarrow> Task list \<Rightarrow> (string \<times> int) list \<Rightarrow> TaskGraphChange \<Rightarrow> NewTaskNode list \<Rightarrow> op_state
    \<Rightarrow> change_error + (string list \<times> int \<times> (string \<times> string) list)" where
  "check_merged env limits tasks proposals_by_attempt c nodes st =
     (let edges = merged_edges tasks st nodes in
      rbind (merged_dependencies (tasks_by_id tasks) st (map nn_key nodes) edges) (\<lambda>_.
      rbind (case check_dependencies edges of Inl e \<Rightarrow> Inl (CH_dependency e) | Inr order \<Rightarrow> Inr order) (\<lambda>order.
      if cl_max_tasks limits < int (length edges) then Inl (CH_too_large (length edges))
      else
        rbind (change_depth edges order) (\<lambda>depth.
        if cl_max_graph_depth limits < depth then Inl (CH_depth depth)
        else
          rbind (proposals_check env limits proposals_by_attempt c nodes) (\<lambda>_.
          let report = find_duplicates (ce_nfkc env) (merged_items tasks st nodes edges) in
          if dr_problems report \<noteq> [] then Inl (CH_duplicate (dr_problems report))
          else
            rbind (output_conflicts edges (outputs_of tasks st nodes) nodes) (\<lambda>_.
            Inr (order, depth, dr_suspected report)))))))"

definition validate_change ::
  "change_env \<Rightarrow> gate \<Rightarrow> ChangeLimits \<Rightarrow> (string \<times> int) list \<Rightarrow> (string \<times> int) list \<Rightarrow> Mission \<Rightarrow> Task list
    \<Rightarrow> TaskGraphChange \<Rightarrow> change_error + ValidatedChange" where
  "validate_change env g limits proposals_by_attempt committed mission tasks c =
     rbind (read_operations env g limits tasks c) (\<lambda>(nodes, st).
     let keys = map nn_key nodes; edges = merged_edges tasks st nodes in
     rbind (check_merged env limits tasks proposals_by_attempt c nodes st) (\<lambda>(order, depth, warnings).
     rbind (for_each (change_node_check g mission (tasks_by_id tasks)) nodes) (\<lambda>_.
     rbind (for_each (drift_check st edges) nodes) (\<lambda>_.
     rbind (pool_budgets mission tasks st committed nodes) (\<lambda>budgets.
     rbind (for_each (change_floor_check g budgets) nodes) (\<lambda>_.
     Inr \<lparr>vc_change = c, vc_new_nodes = nodes, vc_order = filter (\<lambda>k. k \<in> set keys) order, vc_operations = st,
       vc_affected_task_ids = affected_ids st keys, vc_warnings = warnings, vc_depth = depth, vc_budget_pool = budgets\<rparr>))))))"

definition node_budget :: "NewTaskNode \<Rightarrow> ValidatedChange \<Rightarrow> Mission \<Rightarrow> contract_error + Budget" where
  "node_budget n v mission =
     rbind (case Budget_to_json (nn_budget n) of
         JObj d \<Rightarrow>
           Budget_from_json (JObj (dict_set ''max_tokens''
             (case granted_tokens (vc_budget_pool v) n of None \<Rightarrow> JNull | Some t \<Rightarrow> JInt t) d))
       | w \<Rightarrow> Budget_from_json w) (\<lambda>b.
     Inr (inherit_limits b (ms_budget mission)))"

end
