(* ===== verification/Changes_Correct.thy ===== *)
theory Changes_Correct
  imports Changes Task_Graph_Correct
begin

text \<open>
  What an accepted change proposal promises: the operations respect the state machine of a Task, the merged
  graph is well-formed and acyclic and within its bounds, new Tasks stay inside the token pool of the Mission,
  nothing grows under backpressure, and the wire form of a proposal is stable.
\<close>

lemma py_Inr [result_simps]: "py r = Inr x \<longleftrightarrow> r = Inr x"
  by (cases r) (simp_all add: py_def)

section \<open>Operations and the Task state machine\<close>

definition on_task :: "Task list \<Rightarrow> (Task \<Rightarrow> bool) \<Rightarrow> string \<Rightarrow> bool" where
  "on_task tasks P k \<longleftrightarrow> (\<exists>t. map_of (tasks_by_id tasks) k = Some t \<and> P t)"

definition removable :: "Task \<Rightarrow> bool" where
  "removable t \<longleftrightarrow> tk_status t \<in> set SUPERSEDABLE \<and> tk_kind t = ''work''"

definition replaceable :: "ChangeLimits \<Rightarrow> Task \<Rightarrow> bool" where
  "replaceable limits t \<longleftrightarrow> removable t \<and>
     (\<exists>n. py_int (dict_get (tk_context t) ''supersede_depth'' (JInt 0)) = Inr n \<and> n < cl_max_supersede_chain limits)"

definition rewirable :: "Task \<Rightarrow> bool" where
  "rewirable t \<longleftrightarrow> tk_status t = T_BLOCKED \<and> tk_kind t \<noteq> ''synthesis''"

definition pausable :: "Task \<Rightarrow> bool" where
  "pausable t \<longleftrightarrow> tk_status t \<in> {T_READY, T_BLOCKED}"

definition keys_on :: "Task list \<Rightarrow> (Task \<Rightarrow> bool) \<Rightarrow> (string \<times> 'v) list \<Rightarrow> bool" where
  "keys_on tasks P d \<longleftrightarrow> distinct (dict_keys d) \<and> (\<forall>k\<in>set (dict_keys d). on_task tasks P k)"

lemma keys_on_set: "keys_on tasks P d \<Longrightarrow> on_task tasks P k \<Longrightarrow> keys_on tasks P (dict_set k v d)"
  by (auto simp: keys_on_def distinct_update simp flip: dom_map_of_conv_image_fst)

lemma keys_on_Nil: "keys_on tasks P []"
  by (simp add: keys_on_def)

definition values_in :: "string list \<Rightarrow> (string \<times> string) list \<Rightarrow> bool" where
  "values_in keys d \<longleftrightarrow> snd ` set d \<subseteq> set keys"

lemma set_dict_set: "set (dict_set k v d) \<subseteq> insert (k, v) (set d)"
  by (induction d) auto

lemma values_in_set: "values_in keys d \<Longrightarrow> v \<in> set keys \<Longrightarrow> values_in keys (dict_set k v d)"
  using set_dict_set[of k v d] by (fastforce simp: values_in_def)

definition legal_operations :: "ChangeLimits \<Rightarrow> Task list \<Rightarrow> string list \<Rightarrow> op_state \<Rightarrow> bool" where
  "legal_operations limits tasks keys st \<longleftrightarrow>
     keys_on tasks (replaceable limits) (cs_superseded st) \<and> values_in keys (cs_superseded st) \<and>
     keys_on tasks rewirable (cs_retargets st) \<and>
     keys_on tasks (\<lambda>t. \<not> terminal_task t) (cs_priorities st) \<and>
     keys_on tasks pausable (cs_pauses st) \<and>
     (\<forall>k\<in>set (cs_resumes st). on_task tasks (\<lambda>t. \<not> terminal_task t) k) \<and>
     keys_on tasks removable (cs_cancels st) \<and>
     keys_on tasks (\<lambda>t. \<not> terminal_task t) (cs_roles st)"

lemmas operation_defs =
  supersede_operation_def retarget_operation_def priority_operation_def pause_operation_def resume_operation_def
  cancel_operation_def role_operation_def

lemma operation_legal:
  assumes "map_of (tasks_by_id tasks) k = Some t" and "legal_operations limits tasks keys st"
  shows "supersede_operation env limits keys t k args st = Inr st' \<Longrightarrow> legal_operations limits tasks keys st'"
    and "retarget_operation env t k args st = Inr st' \<Longrightarrow> legal_operations limits tasks keys st'"
    and "priority_operation env t k args st = Inr st' \<Longrightarrow> legal_operations limits tasks keys st'"
    and "pause_operation env t k args st = Inr st' \<Longrightarrow> legal_operations limits tasks keys st'"
    and "resume_operation t k st = Inr st' \<Longrightarrow> legal_operations limits tasks keys st'"
    and "cancel_operation env t k args st = Inr st' \<Longrightarrow> legal_operations limits tasks keys st'"
    and "role_operation env t k args st = Inr st' \<Longrightarrow> legal_operations limits tasks keys st'"
proof -
  have on: "on_task tasks P k \<longleftrightarrow> P t" for P using assms(1) by (simp add: on_task_def)
  note L = assms(2)[unfolded legal_operations_def]
  show "supersede_operation env limits keys t k args st = Inr st' \<Longrightarrow> legal_operations limits tasks keys st'"
    using L by (auto simp: operation_defs result_simps Let_def legal_operations_def on replaceable_def removable_def
        intro!: keys_on_set values_in_set split: if_splits)
  show "retarget_operation env t k args st = Inr st' \<Longrightarrow> legal_operations limits tasks keys st'"
    using L by (auto simp: operation_defs result_simps legal_operations_def on rewirable_def intro!: keys_on_set split: if_splits)
  show "priority_operation env t k args st = Inr st' \<Longrightarrow> legal_operations limits tasks keys st'"
    using L by (auto simp: operation_defs result_simps legal_operations_def on intro!: keys_on_set split: if_splits)
  show "pause_operation env t k args st = Inr st' \<Longrightarrow> legal_operations limits tasks keys st'"
    using L by (auto simp: operation_defs result_simps legal_operations_def on pausable_def intro!: keys_on_set split: if_splits)
  show "resume_operation t k st = Inr st' \<Longrightarrow> legal_operations limits tasks keys st'"
    using L by (auto simp: operation_defs legal_operations_def on split: if_splits)
  show "cancel_operation env t k args st = Inr st' \<Longrightarrow> legal_operations limits tasks keys st'"
    using L by (auto simp: operation_defs legal_operations_def on removable_def intro!: keys_on_set split: if_splits)
  show "role_operation env t k args st = Inr st' \<Longrightarrow> legal_operations limits tasks keys st'"
    using L by (auto simp: operation_defs result_simps legal_operations_def on intro!: keys_on_set split: if_splits)
qed

lemma dispatch_legal:
  assumes "map_of (tasks_by_id tasks) k = Some t" and "legal_operations limits tasks keys st"
  shows "dispatch_operation env limits keys op t k args st = Inr st' \<Longrightarrow> legal_operations limits tasks keys st'"
  unfolding dispatch_operation_def
  by (simp only: split: if_split_asm; (erule operation_legal[OF assms] | use assms(2) in simp))

lemma apply_operation_legal:
  "apply_operation env limits (tasks_by_id tasks) keys o' st = Inr st' \<Longrightarrow> legal_operations limits tasks keys st \<Longrightarrow>
    legal_operations limits tasks keys st'"
  by (auto simp: apply_operation_def result_simps Let_def split: if_splits option.splits intro: dispatch_legal)

lemma apply_operations_legal:
  "apply_operations env limits (tasks_by_id tasks) keys ops st = Inr st' \<Longrightarrow> legal_operations limits tasks keys st \<Longrightarrow>
    legal_operations limits tasks keys st'"
proof (induction ops arbitrary: st)
  case (Cons o' ops)
  then obtain st1 where "apply_operation env limits (tasks_by_id tasks) keys o' st = Inr st1"
    and "apply_operations env limits (tasks_by_id tasks) keys ops st1 = Inr st'" by (auto simp: result_simps)
  with Cons apply_operation_legal show ?case by blast
qed simp

lemma no_operations_legal: "legal_operations limits tasks keys no_operations"
  by (simp add: legal_operations_def no_operations_def keys_on_Nil values_in_def)

lemma clash_Inr: "clash xs ys = Inr u \<longleftrightarrow> set xs \<inter> set ys = {}"
  by (auto simp: clash_def Let_def filter_empty_conv)

lemma structural_Inr:
  "structural_check st = Inr u \<longleftrightarrow>
     fst ` set (cs_superseded st) \<inter> fst ` set (cs_retargets st) = {} \<and>
     fst ` set (cs_superseded st) \<inter> fst ` set (cs_cancels st) = {} \<and>
     fst ` set (cs_retargets st) \<inter> fst ` set (cs_cancels st) = {}"
  by (simp add: structural_check_def result_simps clash_Inr)

lemma read_operations_Inr:
  assumes "read_operations env g limits tasks c = Inr (nodes, st)"
  shows "add_tasks (ce_str env) (default_change_policy (gt_deployed_layers g)) c = Inr nodes"
    and "distinct (map nn_key nodes)" and "legal_operations limits tasks (map nn_key nodes) st"
    and "structural_check st = Inr ()"
    and "\<not> cl_admit_new_tasks limits \<Longrightarrow> \<forall>o'\<in>set (gc_operations c). op_op o' \<noteq> ''add_task''"
  using assms apply_operations_legal[OF _ no_operations_legal]
  by (auto simp: read_operations_def result_simps Let_def split: if_splits)

lemma validated_parts:
  assumes "validate_change env g limits asked committed mission tasks c = Inr v"
  obtains order where
    "read_operations env g limits tasks c = Inr (vc_new_nodes v, vc_operations v)"
    "check_merged env limits tasks asked c (vc_new_nodes v) (vc_operations v) = Inr (order, vc_depth v, vc_warnings v)"
    "vc_order v = filter (\<lambda>k. k \<in> nn_key ` set (vc_new_nodes v)) order"
    "\<forall>n\<in>set (vc_new_nodes v). change_node_check g mission (tasks_by_id tasks) n = Inr ()"
    "\<forall>n\<in>set (vc_new_nodes v). drift_check (vc_operations v) (merged_edges tasks (vc_operations v) (vc_new_nodes v)) n = Inr ()"
    "pool_budgets mission tasks (vc_operations v) committed (vc_new_nodes v) = Inr (vc_budget_pool v)"
    "\<forall>n\<in>set (vc_new_nodes v). change_floor_check g (vc_budget_pool v) n = Inr ()"
    "vc_change v = c"
  using assms by (auto simp: validate_change_def result_simps Let_def)


definition task_moves :: "(TaskStatus \<times> TaskStatus) set" where
  "task_moves = {(a, b). assert_task_transition a b = Inr ()}"

lemma removable_cancels: "removable t \<Longrightarrow> (tk_status t, T_CANCELLED) \<in> task_moves\<^sup>+"
proof -
  assume "removable t"
  moreover have step: "(T_READY, T_CANCELLED) \<in> task_moves" "(T_ACTIVE, T_CANCELLED) \<in> task_moves"
    "(T_VERIFYING, T_ACTIVE) \<in> task_moves"
    by (simp_all add: task_moves_def assert_task_transition_def)
  from step(3,2) have "(T_VERIFYING, T_CANCELLED) \<in> task_moves\<^sup>+" by (rule trancl.trancl_into_trancl[OF trancl.r_into_trancl])
  ultimately show ?thesis using step by (auto simp: removable_def SUPERSEDABLE_def)
qed

text \<open>C18. An accepted change respects the state machine of a Task. Every Task it supersedes or cancels is a work
  Task that is READY, ACTIVE or VERIFYING, so that legal transitions lead it to CANCELLED, and a superseded one has not
  used up its supersede chain and is replaced by a Task that the same proposal adds; only a BLOCKED Task other than the
  synthesis is rewired in place and only a READY or BLOCKED one is paused; no terminal Task is resumed, reprioritised
  or given a role; and no Task is subject to two structural operations.\<close>

theorem change_respects_lifecycle:
  assumes "validate_change env g limits asked committed mission tasks c = Inr v"
  shows "let st = vc_operations v in
    (\<forall>k\<in>removed_ids st. on_task tasks (\<lambda>t. removable t \<and> (tk_status t, T_CANCELLED) \<in> task_moves\<^sup>+) k) \<and>
    (\<forall>(k, r)\<in>set (cs_superseded st). on_task tasks (replaceable limits) k \<and> r \<in> nn_key ` set (vc_new_nodes v)) \<and>
    (\<forall>k\<in>fst ` set (cs_retargets st). on_task tasks rewirable k) \<and>
    (\<forall>k\<in>fst ` set (cs_pauses st). on_task tasks pausable k) \<and>
    (\<forall>k\<in>set (cs_resumes st) \<union> fst ` set (cs_priorities st) \<union> fst ` set (cs_roles st). on_task tasks (\<lambda>t. \<not> terminal_task t) k) \<and>
    fst ` set (cs_superseded st) \<inter> fst ` set (cs_retargets st) = {} \<and>
    fst ` set (cs_superseded st) \<inter> fst ` set (cs_cancels st) = {} \<and>
    fst ` set (cs_retargets st) \<inter> fst ` set (cs_cancels st) = {}"
proof -
  let ?st = "vc_operations v"
  obtain order where "read_operations env g limits tasks c = Inr (vc_new_nodes v, ?st)"
    using validated_parts[OF assms] by blast
  note parts = read_operations_Inr(3,4)[OF this]
  have apart: "fst ` set (cs_superseded ?st) \<inter> fst ` set (cs_retargets ?st) = {}"
    "fst ` set (cs_superseded ?st) \<inter> fst ` set (cs_cancels ?st) = {}"
    "fst ` set (cs_retargets ?st) \<inter> fst ` set (cs_cancels ?st) = {}"
    using parts(2) by (simp_all add: structural_Inr)
  have sup: "\<forall>k\<in>fst ` set (cs_superseded ?st). on_task tasks (replaceable limits) k"
    and can: "\<forall>k\<in>fst ` set (cs_cancels ?st). on_task tasks removable k"
    and vals: "snd ` set (cs_superseded ?st) \<subseteq> nn_key ` set (vc_new_nodes v)"
    and rest: "\<forall>k\<in>fst ` set (cs_retargets ?st). on_task tasks rewirable k"
      "\<forall>k\<in>fst ` set (cs_pauses ?st). on_task tasks pausable k"
    and alive: "\<forall>k\<in>set (cs_resumes ?st). on_task tasks (\<lambda>t. \<not> terminal_task t) k"
      "\<forall>k\<in>fst ` set (cs_priorities ?st). on_task tasks (\<lambda>t. \<not> terminal_task t) k"
      "\<forall>k\<in>fst ` set (cs_roles ?st). on_task tasks (\<lambda>t. \<not> terminal_task t) k"
    using parts(1) by (simp_all add: legal_operations_def keys_on_def values_in_def)
  have "\<forall>k\<in>set (cs_resumes ?st) \<union> fst ` set (cs_priorities ?st) \<union> fst ` set (cs_roles ?st). on_task tasks (\<lambda>t. \<not> terminal_task t) k"
    using alive by blast
  note rest = rest this
  have "\<forall>k\<in>removed_ids ?st. on_task tasks (\<lambda>t. removable t \<and> (tk_status t, T_CANCELLED) \<in> task_moves\<^sup>+) k"
    using sup can removable_cancels unfolding removed_ids_def on_task_def replaceable_def by blast
  moreover have "\<forall>(k, r)\<in>set (cs_superseded ?st). on_task tasks (replaceable limits) k \<and> r \<in> nn_key ` set (vc_new_nodes v)"
    using sup vals by (intro ballI) (metis (mono_tags, lifting) case_prodI2 image_eqI prod.sel subsetD)
  ultimately show ?thesis using rest apart by (simp add: Let_def)
qed

definition sample_tasks :: "Task list" where
  "sample_tasks =
     [blank_task\<lparr>tk_id := ''t1'', tk_goal := ''first'', tk_status := T_VERIFYING, tk_outputs := [''out'']\<rparr>,
      blank_task\<lparr>tk_id := ''t2'', tk_goal := ''second'', tk_status := T_BLOCKED, tk_dependency_ids := [''t1'']\<rparr>]"

definition sample_change :: TaskGraphChange where
  "sample_change =
     \<lparr>gc_base_graph_version = 1, gc_basis = [], gc_rationale = ''evidence'',
      gc_operations =
        [\<lparr>op_op = ''supersede_task'', op_args = [(''task_id'', JStr ''t1''), (''replacement_key'', JStr ''new'')]\<rparr>,
         \<lparr>op_op = ''add_task'', op_args = [(''key'', JStr ''new''), (''goal'', JStr ''third''), (''rationale'', JStr ''why''),
            (''success_criteria'', JList [JStr ''file:out'']), (''outputs'', JList [JStr ''out''])]\<rparr>,
         \<lparr>op_op = ''set_priority'', op_args = [(''task_id'', JStr ''t2''), (''priority'', JFloat (PyFinite 3))]\<rparr>]\<rparr>"

definition sample_env :: change_env where
  "sample_env = \<lparr>ce_str = (\<lambda>_. ''?''), ce_float_text = (\<lambda>_. None), ce_nfkc = id\<rparr>"

definition sample_validation :: "change_error + ValidatedChange" where
  "sample_validation = validate_change sample_env sample_gate default_change_limits [] [(''t1'', 10)] sample_mission sample_tasks sample_change"

definition sample_read :: "NewTaskNode list \<times> op_state" where
  "sample_read = (case read_operations sample_env sample_gate default_change_limits sample_tasks sample_change of
     Inr r \<Rightarrow> r | Inl _ \<Rightarrow> ([], no_operations))"

definition sample_merged :: edges where
  "sample_merged = merged_edges sample_tasks (snd sample_read) (fst sample_read)"

lemma sample_stages:
  "read_operations sample_env sample_gate default_change_limits sample_tasks sample_change = Inr sample_read"
  "merged_dependencies (tasks_by_id sample_tasks) (snd sample_read) (map nn_key (fst sample_read)) sample_merged = Inr ()"
  "check_dependencies sample_merged = Inr [''new'', ''t2'']"
  "length sample_merged = 2"
  "change_depth sample_merged [''new'', ''t2''] = Inr 2"
  "proposals_check sample_env default_change_limits [] sample_change (fst sample_read) = Inr ()"
  "find_duplicates id (merged_items sample_tasks (snd sample_read) (fst sample_read) sample_merged) = \<lparr>dr_problems = [], dr_suspected = []\<rparr>"
  "output_conflicts sample_merged (outputs_of sample_tasks (snd sample_read) (fst sample_read)) (fst sample_read) = Inr ()"
  "for_each (change_node_check sample_gate sample_mission (tasks_by_id sample_tasks)) (fst sample_read) = Inr ()"
  "for_each (drift_check (snd sample_read) sample_merged) (fst sample_read) = Inr ()"
  "pool_budgets sample_mission sample_tasks (snd sample_read) [(''t1'', 10)] (fst sample_read) = Inr [(''new'', 25)]"
  "for_each (change_floor_check sample_gate [(''new'', 25)]) (fst sample_read) = Inr ()"
  "map nn_key (fst sample_read) = [''new'']"
  "cs_superseded (snd sample_read) = [(''t1'', ''new'')]"
  by code_simp+

text \<open>The whole check of the sample, stage by stage.\<close>

lemma sample_validated:
  "\<exists>v. sample_validation = Inr v \<and> vc_new_nodes v = fst sample_read \<and> vc_operations v = snd sample_read \<and>
     vc_order v = [''new''] \<and> vc_budget_pool v = [(''new'', 25)]"
proof -
  obtain nodes st where read: "sample_read = (nodes, st)" by (cases sample_read)
  have nfkc: "ce_nfkc sample_env = id" by (simp add: sample_env_def)
  have lim: "cl_max_tasks default_change_limits = 32" "cl_max_graph_depth default_change_limits = 6"
    by (simp_all add: default_change_limits_def MAX_TASKS_def)
  have "check_merged sample_env default_change_limits sample_tasks [] sample_change nodes st = Inr ([''new'', ''t2''], 2, [])"
    using sample_stages(2-8) by (simp add: check_merged_def Let_def nfkc lim read sample_merged_def)
  moreover have "nn_key ` set nodes = {''new''}" using arg_cong[OF sample_stages(13), of set] by (simp add: read)
  ultimately show ?thesis
    using sample_stages(1,9-12) by (simp add: sample_validation_def validate_change_def Let_def read sample_merged_def)
qed

lemma change_respects_lifecycle_witness:
  "on_task sample_tasks (\<lambda>t. removable t \<and> (tk_status t, T_CANCELLED) \<in> task_moves\<^sup>+) ''t1''"
proof -
  obtain v where v: "sample_validation = Inr v" "vc_operations v = snd sample_read"
    using sample_validated by blast
  have "''t1'' \<in> removed_ids (vc_operations v)" using v(2) sample_stages(14) by (simp add: removed_ids_def)
  then show ?thesis
    by (rule change_respects_lifecycle[OF v(1)[unfolded sample_validation_def], unfolded Let_def, THEN conjunct1, THEN bspec])
qed


section \<open>The merged graph\<close>

lemma merged_items_keys: "map di_key (merged_items tasks st nodes edges) = map tk_id (surviving tasks st) @ map nn_key nodes"
  by (simp add: merged_items_def comp_def)

lemma two_loops:
  assumes "distinct (map f xs @ map h ys)"
  shows "fold (\<lambda>y. dict_set (h y) (i y)) ys (fold (\<lambda>x. dict_set (f x) (g x)) xs []) =
    map (\<lambda>x. (f x, g x)) xs @ map (\<lambda>y. (h y, i y)) ys"
proof -
  have first: "fold (\<lambda>x. dict_set (f x) (g x)) xs [] = map (\<lambda>x. (f x, g x)) xs"
    using assms dict_loop_fresh[of f xs "[]"] by simp
  have "h ` set ys \<inter> fst ` set (map (\<lambda>x. (f x, g x)) xs) = {}" using assms by (auto simp: image_image)
  then show ?thesis unfolding first using assms by (intro dict_loop_fresh) simp_all
qed

lemma merged_edges_distinct:
  assumes "distinct (map tk_id (surviving tasks st) @ map nn_key nodes)"
  shows "merged_edges tasks st nodes =
    map (\<lambda>t. (tk_id t, merged_deps st t)) (surviving tasks st) @ map (\<lambda>n. (nn_key n, nn_dependencies n)) nodes"
  using assms unfolding merged_edges_def by (rule two_loops)

lemma outputs_of_distinct:
  assumes "distinct (map tk_id (surviving tasks st) @ map nn_key nodes)"
  shows "outputs_of tasks st nodes =
    map (\<lambda>t. (tk_id t, tk_outputs t)) (surviving tasks st) @ map (\<lambda>n. (nn_key n, nn_outputs n)) nodes"
  using assms unfolding outputs_of_def by (rule two_loops)

lemma merged_keys_distinct: "distinct (map fst (merged_edges tasks st nodes))"
  unfolding merged_edges_def by (intro dict_loop_keys) simp

lemma filter_split:
  "filter P xs = as @ k # bs \<Longrightarrow> \<exists>us vs. xs = us @ k # vs \<and> filter P us = as \<and> P k"
proof (induction xs arbitrary: as)
  case (Cons x xs)
  show ?case
  proof (cases "P x \<and> as \<noteq> []")
    case True
    with Cons.prems obtain as' where as: "as = x # as'" "filter P xs = as' @ k # bs" by (cases as) auto
    from Cons.IH[OF as(2)] obtain us vs where "xs = us @ k # vs" "filter P us = as'" "P k" by blast
    with True as(1) show ?thesis by (intro exI[of _ "x # us"] exI[of _ vs]) auto
  next
    case False
    show ?thesis
    proof (cases "P x")
      case True
      with False Cons.prems show ?thesis by (intro exI[of _ "[]"] exI[of _ xs]) auto
    next
      case False
      with Cons.prems Cons.IH[of as] obtain us vs where "xs = us @ k # vs" "filter P us = as" "P k" by auto
      with \<open>\<not> P x\<close> show ?thesis by (intro exI[of _ "x # us"] exI[of _ vs]) auto
    qed
  qed
qed simp

lemma deps_first_split: "deps_first E (as @ k # bs) \<Longrightarrow> set (deps_of E k) \<subseteq> set as"
  by (fastforce simp: deps_first_def dest: spec[of _ "length as"])

text \<open>The order of the new keys is the restriction of a topological order of the merged graph.\<close>

lemma new_keys_topological:
  assumes "deps_first E order" and "filter (\<lambda>k. k \<in> K) order = as @ k # bs"
  shows "set (deps_of E k) \<inter> K \<subseteq> set as"
proof -
  from filter_split[OF assms(2)] obtain us vs where us: "order = us @ k # vs" "filter (\<lambda>k. k \<in> K) us = as" by blast
  from deps_first_split assms(1) us(1) have "set (deps_of E k) \<subseteq> set us" by blast
  with us(2) show ?thesis by auto
qed

lemma check_merged_Inr:
  assumes "check_merged env limits tasks asked c nodes st = Inr (order, depth, warnings)"
  defines "E \<equiv> merged_edges tasks st nodes"
  shows "merged_dependencies (tasks_by_id tasks) st (map nn_key nodes) E = Inr ()"
    and "check_dependencies E = Inr order" and "int (length E) \<le> cl_max_tasks limits"
    and "change_depth E order = Inr depth" and "depth \<le> cl_max_graph_depth limits"
    and "proposals_check env limits asked c nodes = Inr ()"
    and "distinct (map tk_id (surviving tasks st) @ map nn_key nodes)"
    and "output_conflicts E (outputs_of tasks st nodes) nodes = Inr ()"
proof -
  from assms have
    "merged_dependencies (tasks_by_id tasks) st (map nn_key nodes) E = Inr () \<and> check_dependencies E = Inr order \<and>
      int (length E) \<le> cl_max_tasks limits \<and> change_depth E order = Inr depth \<and> depth \<le> cl_max_graph_depth limits \<and>
      proposals_check env limits asked c nodes = Inr () \<and>
      dr_problems (find_duplicates (ce_nfkc env) (merged_items tasks st nodes E)) = [] \<and>
      output_conflicts E (outputs_of tasks st nodes) nodes = Inr ()"
    unfolding check_merged_def Let_def E_def
    by (clarsimp simp: rbind_Inr_iff split: if_split_asm sum.split_asm)
  with no_problems_distinct[of "ce_nfkc env" "merged_items tasks st nodes E"]
  show "merged_dependencies (tasks_by_id tasks) st (map nn_key nodes) E = Inr ()"
    and "check_dependencies E = Inr order" and "int (length E) \<le> cl_max_tasks limits"
    and "change_depth E order = Inr depth" and "depth \<le> cl_max_graph_depth limits"
    and "proposals_check env limits asked c nodes = Inr ()"
    and "distinct (map tk_id (surviving tasks st) @ map nn_key nodes)"
    and "output_conflicts E (outputs_of tasks st nodes) nodes = Inr ()"
    by (simp_all add: merged_items_keys)
qed

lemma change_depth_bounds:
  assumes "distinct (map fst E)" and "check_dependencies E = Inr order" and "change_depth E order = Inr depth" and "chain_in E p"
  shows "int (length p) \<le> depth"
  using kahn_checker.depth_bounds_chains[OF assms(1,2)] assms(3,4) by (auto simp: change_depth_def)

lemma merged_dependency_Inr:
  "merged_dependency (tasks_by_id tasks) st keys E k d = Inr u \<longleftrightarrow>
     (d \<in> removed_ids st \<longrightarrow> d \<in> set keys) \<and> d \<in> fst ` set E \<and> \<not> on_task tasks (\<lambda>t. tk_status t = T_CANCELLED) d"
  by (auto simp: merged_dependency_def on_task_def split: option.splits)

lemma output_conflicts_Inr:
  assumes "distinct (map fst E)" and "check_dependencies E = Inr order" and "output_conflicts E outputs nodes = Inr ()"
    and "n \<in> set nodes" and "(k, outs) \<in> set outputs" and "nn_key n \<in> fst ` set E" and "k \<in> fst ` set E" and "k \<noteq> nn_key n"
  shows "k \<in> ancestors E (nn_key n) \<or> nn_key n \<in> ancestors E k \<or> set (dict_get outputs (nn_key n) []) \<inter> set outs = {}"
proof -
  from kahn_checker.memo_of_ancestors[OF assms(1,2)] obtain anc where anc: "ancestors_of E = Some anc"
    "\<forall>k\<in>fst ` set E. map_of anc k = Some (ancestors E k)" by auto
  from assms(3) anc(1) assms(4) have "\<forall>other\<in>set outputs. output_conflict anc outputs n other = Inr ()"
    by (simp add: output_conflicts_def for_each_ok)
  with assms(5) have "output_conflict anc outputs n (k, outs) = Inr ()" by blast
  with assms(6-8) anc(2) show ?thesis
    by (auto simp: output_conflict_def Let_def dict_get_def filter_empty_conv split: if_splits)
qed


definition traced :: "op_state \<Rightarrow> edges \<Rightarrow> NewTaskNode \<Rightarrow> bool" where
  "traced st E n \<longleftrightarrow> (\<exists>(k, ds)\<in>set E. nn_key n \<in> set ds) \<or> nn_key n \<in> snd ` set (cs_superseded st) \<or> nn_parent_task_ids n \<noteq> []"

lemma drift_check_Inr: "drift_check st E n = Inr u \<longleftrightarrow> traced st E n"
  by (auto simp: drift_check_def traced_def)

definition graph_merged :: "Task list \<Rightarrow> op_state \<Rightarrow> NewTaskNode list \<Rightarrow> edges \<Rightarrow> bool" where
  "graph_merged tasks st nodes E \<longleftrightarrow>
     map fst E = map tk_id (surviving tasks st) @ map nn_key nodes \<and>
     (\<forall>t\<in>set (surviving tasks st). deps_of E (tk_id t) = merged_deps st t) \<and>
     (\<forall>n\<in>set nodes. deps_of E (nn_key n) = nn_dependencies n)"

lemma merged_edges_graph:
  assumes "distinct (map tk_id (surviving tasks st) @ map nn_key nodes)"
  shows "graph_merged tasks st nodes (merged_edges tasks st nodes)"
proof -
  let ?E = "merged_edges tasks st nodes"
  note E = merged_edges_distinct[OF assms]
  have entry: "deps_of ?E k = ds" if "(k, ds) \<in> set ?E" for k ds
    using map_of_is_SomeI[OF merged_keys_distinct that] by (simp add: deps_of_def dict_get_def)
  show ?thesis unfolding graph_merged_def by (intro conjI ballI entry) (simp_all add: E comp_def)
qed

lemma merged_keys:
  assumes "distinct (map tk_id (surviving tasks st) @ map nn_key nodes)"
  shows "fst ` set (merged_edges tasks st nodes) = tk_id ` set (surviving tasks st) \<union> nn_key ` set nodes"
  by (auto simp: merged_edges_distinct[OF assms] image_Un image_image)

lemma outputs_apart:
  fixes tasks st nodes
  defines "E \<equiv> merged_edges tasks st nodes" and "out \<equiv> outputs_of tasks st nodes"
  assumes keys: "distinct (map tk_id (surviving tasks st) @ map nn_key nodes)"
    and order: "check_dependencies E = Inr order" and none: "output_conflicts E out nodes = Inr ()"
    and n: "n \<in> set nodes" and out: "x \<in> set out"
  shows "fst x = nn_key n \<or> fst x \<in> ancestors E (nn_key n) \<or> nn_key n \<in> ancestors E (fst x) \<or> set (nn_outputs n) \<inter> set (snd x) = {}"
proof -
  note fstE = merged_keys[OF keys, folded E_def]
  note outs = outputs_of_distinct[OF keys, folded out_def]
  have dout: "distinct (map fst out)" using keys by (simp add: outs comp_def)
  have mem: "(nn_key n, nn_outputs n) \<in> set out" using n by (simp add: outs)
  have k: "fst x \<in> fst ` set E" "nn_key n \<in> fst ` set E" using out n by (auto simp: outs fstE)
  have get: "dict_get out (nn_key n) [] = nn_outputs n" using dout mem by (simp add: dict_get_def)
  have "(fst x, snd x) \<in> set out" using out by simp
  from output_conflicts_Inr[OF merged_keys_distinct order[unfolded E_def] none[unfolded E_def] n this, folded E_def, OF k(2,1)]
  show ?thesis unfolding get by blast
qed

text \<open>C19. The graph that an accepted change leads to: the Tasks it leaves (not cancelled, superseded or cancelled by the
  change), with their dependencies redirected to replacements, together with the new Tasks, whose keys differ from each
  other and from every Task that stays. It has no cycle and no missing dependency, nothing in it depends on a cancelled or
  removed Task, its size and every chain of dependencies are within the limits, a new Task and any other Task declare a
  common output only if one comes after the other, every new Task feeds, replaces or refines something, and the order of
  the new keys puts dependencies first.\<close>

theorem validated_change_sound:
  assumes "validate_change env g limits asked committed mission tasks c = Inr v"
  shows "let st = vc_operations v; nodes = vc_new_nodes v; E = merged_edges tasks st nodes; keys = nn_key ` set nodes in
    distinct (map fst E) \<and> graph_merged tasks st nodes E \<and> wf_proposal E \<and> acyclic (depends E) \<and>
    (\<forall>(k, ds)\<in>set E. \<forall>d\<in>set ds. \<not> on_task tasks (\<lambda>t. tk_status t = T_CANCELLED) d \<and> (d \<in> removed_ids st \<longrightarrow> d \<in> keys)) \<and>
    int (length E) \<le> cl_max_tasks limits \<and>
    (\<forall>p. chain_in E p \<longrightarrow> int (length p) \<le> cl_max_graph_depth limits) \<and>
    (\<forall>n\<in>set nodes. traced st E n \<and>
       (\<forall>(k, outs)\<in>set (outputs_of tasks st nodes). k = nn_key n \<or> k \<in> ancestors E (nn_key n) \<or> nn_key n \<in> ancestors E k \<or>
          set (nn_outputs n) \<inter> set outs = {})) \<and>
    set (vc_order v) = keys \<and> distinct (vc_order v) \<and>
    (\<forall>as k bs. vc_order v = as @ k # bs \<longrightarrow> set (deps_of E k) \<inter> keys \<subseteq> set as)"
proof -
  let ?st = "vc_operations v" and ?nodes = "vc_new_nodes v"
  let ?E = "merged_edges tasks ?st ?nodes" and ?out = "outputs_of tasks ?st ?nodes"
  obtain order where merged: "check_merged env limits tasks asked c ?nodes ?st = Inr (order, vc_depth v, vc_warnings v)"
    and vo: "vc_order v = filter (\<lambda>k. k \<in> nn_key ` set ?nodes) order"
    and drift: "\<forall>n\<in>set ?nodes. drift_check ?st ?E n = Inr ()"
    using validated_parts[OF assms] by blast
  note checks = check_merged_Inr[OF merged]
  note dist = merged_keys_distinct[of tasks ?st ?nodes] and keys = checks(7)
  note facts = check_dependencies_Inr[OF dist checks(2)]
  note graph = merged_edges_graph[OF keys]
  note fstE = merged_keys[OF keys]
  have deps: "\<forall>(k, ds)\<in>set ?E. \<forall>d\<in>set ds. \<not> on_task tasks (\<lambda>t. tk_status t = T_CANCELLED) d \<and>
      (d \<in> removed_ids ?st \<longrightarrow> d \<in> nn_key ` set ?nodes)"
    using checks(1) by (fastforce simp: merged_dependencies_def for_each_ok merged_dependency_Inr)
  have chains: "\<forall>p. chain_in ?E p \<longrightarrow> int (length p) \<le> cl_max_graph_depth limits"
    using change_depth_bounds[OF dist checks(2,4)] checks(5) by fastforce
  have topo: "\<forall>as k bs. vc_order v = as @ k # bs \<longrightarrow> set (deps_of ?E k) \<inter> nn_key ` set ?nodes \<subseteq> set as"
    using new_keys_topological[OF facts(4)] vo by auto
  have nodes: "\<forall>n\<in>set ?nodes. traced ?st ?E n \<and> (\<forall>(k, outs)\<in>set ?out. k = nn_key n \<or> k \<in> ancestors ?E (nn_key n) \<or>
      nn_key n \<in> ancestors ?E k \<or> set (nn_outputs n) \<inter> set outs = {})"
    using drift outputs_apart[OF keys checks(2,8)] by (simp add: drift_check_Inr case_prod_unfold)
  have "set (vc_order v) = nn_key ` set ?nodes" "distinct (vc_order v)" using vo facts(2,3) fstE by auto
  then show ?thesis unfolding Let_def
    using dist graph facts(1) kahn_checker.checked_acyclic[OF dist checks(2)] deps checks(3) chains topo nodes
    by (intro conjI) assumption+
qed

lemma validated_change_sound_witness:
  "\<exists>v. sample_validation = Inr v \<and> vc_order v = [''new''] \<and>
     acyclic (depends (merged_edges sample_tasks (vc_operations v) (vc_new_nodes v)))"
proof -
  obtain v where v: "sample_validation = Inr v" "vc_order v = [''new'']" using sample_validated by blast
  from validated_change_sound[OF v(1)[unfolded sample_validation_def], unfolded Let_def]
  have "acyclic (depends (merged_edges sample_tasks (vc_operations v) (vc_new_nodes v)))" by (elim conjE)
  with v show ?thesis by blast
qed


section \<open>The token pool\<close>

lemma default_share_bound: "default_share pool remaining m n \<le> max 1 (pool div 4)"
proof (cases "0 \<le> pool")
  case True
  then have "pool div max 4 (int (m + n)) \<le> pool div 4" by (intro zdiv_mono2) auto
  then show ?thesis by (auto simp: default_share_def)
next
  case False
  then have "pool div max 4 (int (m + n)) \<le> 0" using div_neg_pos_less0[of pool "max 4 (int (m + n))"] by linarith
  then show ?thesis by (auto simp: default_share_def)
qed

definition allotted :: "int \<Rightarrow> NewTaskNode \<Rightarrow> int" where
  "allotted share n = (case max_tokens (nn_budget n) of None \<Rightarrow> share | Some wanted \<Rightarrow> wanted)"

lemma pool_budgets_Inr:
  assumes "distinct (map nn_key nodes)" and "max_tokens (ms_budget mission) = Some pool"
    and "pool_budgets mission tasks st committed nodes = Inr budgets"
  shows "\<exists>reserve share. unmaterialized_system_reserve mission tasks = Inr reserve \<and> share \<le> max 1 (pool div 4) \<and>
    budgets = map (\<lambda>n. (nn_key n, allotted share n)) nodes \<and>
    sum_list (map (task_commitment st committed) tasks) + reserve + sum_list (map (allotted share) nodes) \<le> pool"
proof -
  from assms(2,3) obtain reserve where r: "unmaterialized_system_reserve mission tasks = Inr reserve"
    and b: "budgets = fold (\<lambda>n. dict_set (nn_key n) (allotted (default_share pool
        (pool - reserve - sum_list (map (task_commitment st committed) tasks)) (length tasks) (length nodes)) n)) nodes []"
    and s: "sum_list (map snd budgets) \<le> pool - reserve - sum_list (map (task_commitment st committed) tasks)"
    by (auto simp: pool_budgets_def Let_def result_simps allotted_def[abs_def] split: if_splits)
  let ?share = "default_share pool (pool - reserve - sum_list (map (task_commitment st committed) tasks)) (length tasks) (length nodes)"
  have eq: "budgets = map (\<lambda>n. (nn_key n, allotted ?share n)) nodes" using b assms(1) by (simp add: dict_loop_fresh)
  have "sum_list (map (allotted ?share) nodes) = sum_list (map snd budgets)" by (simp add: eq comp_def)
  with r s eq default_share_bound show ?thesis by (intro exI[of _ reserve] exI[of _ ?share]) (auto simp: algebra_simps)
qed

text \<open>C22. With a token limit on the Mission, an accepted change leaves the pool covered: what the existing Tasks hold (their
  limits, or for a cancelled or removed Task what it has settled and reserved), the system reserve not yet turned into
  Tasks and the tokens granted to the new Tasks stay together within the limit. Every new Task is granted what it names,
  or at most a quarter of the limit (at least one token) when it names nothing, and never less than the floor of its policy.\<close>

theorem change_within_pool:
  assumes "validate_change env g limits asked committed mission tasks c = Inr v"
    and pool: "max_tokens (ms_budget mission) = Some pool"
  shows "\<exists>reserve. unmaterialized_system_reserve mission tasks = Inr reserve \<and>
    sum_list (map (task_commitment (vc_operations v) committed) tasks) + reserve +
      sum_list (map (\<lambda>n. the (granted_tokens (vc_budget_pool v) n)) (vc_new_nodes v)) \<le> pool \<and>
    (\<forall>n\<in>set (vc_new_nodes v). \<exists>t. granted_tokens (vc_budget_pool v) n = Some t \<and>
       (case max_tokens (nn_budget n) of Some wanted \<Rightarrow> t = wanted | None \<Rightarrow> t \<le> max 1 (pool div 4)) \<and>
       (case gt_task_floor g of None \<Rightarrow> True | Some fl \<Rightarrow> floor_for fl (nn_verification_policy n) (gt_candidates g) \<le> t))"
proof -
  let ?nodes = "vc_new_nodes v"
  from validated_parts[OF assms(1)] have read: "read_operations env g limits tasks c = Inr (?nodes, vc_operations v)"
    and budgets: "pool_budgets mission tasks (vc_operations v) committed ?nodes = Inr (vc_budget_pool v)"
    and floors: "\<forall>n\<in>set ?nodes. change_floor_check g (vc_budget_pool v) n = Inr ()" by blast+
  note keys = read_operations_Inr(2)[OF read]
  from pool_budgets_Inr[OF keys pool budgets] obtain reserve share where
    r: "unmaterialized_system_reserve mission tasks = Inr reserve" "share \<le> max 1 (pool div 4)"
      "vc_budget_pool v = map (\<lambda>n. (nn_key n, allotted share n)) ?nodes"
      "sum_list (map (task_commitment (vc_operations v) committed) tasks) + reserve + sum_list (map (allotted share) ?nodes) \<le> pool"
    by blast
  have grant: "granted_tokens (vc_budget_pool v) n = Some (allotted share n)" if "n \<in> set ?nodes" for n
  proof -
    have "map_of (vc_budget_pool v) (nn_key n) = Some (allotted share n)"
      using keys that unfolding r(3) by (intro map_of_is_SomeI) (auto simp: comp_def)
    then show ?thesis by (simp add: granted_tokens_def)
  qed
  have total: "map (\<lambda>n. the (granted_tokens (vc_budget_pool v) n)) ?nodes = map (allotted share) ?nodes" using grant by simp
  have wish: "(case max_tokens (nn_budget n) of Some wanted \<Rightarrow> allotted share n = wanted | None \<Rightarrow> allotted share n \<le> max 1 (pool div 4))" for n
    using r(2) by (simp add: allotted_def split: option.splits)
  have least: "case gt_task_floor g of None \<Rightarrow> True | Some fl \<Rightarrow> floor_for fl (nn_verification_policy n) (gt_candidates g) \<le> allotted share n"
    if "n \<in> set ?nodes" for n
    using bspec[OF floors that] grant[OF that] by (auto simp: change_floor_check_def floor_refusal_def split: option.splits if_splits)
  have each: "\<exists>t. granted_tokens (vc_budget_pool v) n = Some t \<and>
      (case max_tokens (nn_budget n) of Some wanted \<Rightarrow> t = wanted | None \<Rightarrow> t \<le> max 1 (pool div 4)) \<and>
      (case gt_task_floor g of None \<Rightarrow> True | Some fl \<Rightarrow> floor_for fl (nn_verification_policy n) (gt_candidates g) \<le> t)"
    if "n \<in> set ?nodes" for n using grant[OF that] wish[of n] least[OF that] by blast
  show ?thesis by (rule exI[of _ reserve], intro conjI ballI) (simp_all only: total r(1,4) each)
qed

lemma change_within_pool_witness:
  "\<exists>v reserve. sample_validation = Inr v \<and> unmaterialized_system_reserve sample_mission sample_tasks = Inr reserve \<and>
     sum_list (map (task_commitment (vc_operations v) [(''t1'', 10)]) sample_tasks) + reserve +
       sum_list (map (\<lambda>n. the (granted_tokens (vc_budget_pool v) n)) (vc_new_nodes v)) \<le> 100"
proof -
  obtain v where v: "sample_validation = Inr v" using sample_validated by blast
  have "max_tokens (ms_budget sample_mission) = Some 100" by code_simp
  from change_within_pool[OF v[unfolded sample_validation_def] this] v show ?thesis by blast
qed

section \<open>Backpressure\<close>

lemma tasks_by_id_values: "map snd (tasks_by_id ts) = xs \<Longrightarrow> set xs \<subseteq> set ts"
proof -
  have "snd ` set (fold (\<lambda>t. dict_set (tk_id t) t) ts d) \<subseteq> set ts \<union> snd ` set d" for d
  proof (induction ts arbitrary: d)
    case (Cons t ts)
    have "snd ` set (dict_set (tk_id t) t d) \<subseteq> insert t (snd ` set d)"
      using image_mono[OF set_dict_set[of "tk_id t" t d], of snd] by simp
    with Cons.IH[of "dict_set (tk_id t) t d"] show ?case by auto
  qed simp
  from this[of "[]"] show "map snd (tasks_by_id ts) = xs \<Longrightarrow> set xs \<subseteq> set ts" by (auto simp: tasks_by_id_def)
qed

text \<open>C23. While new Tasks are not admitted, an accepted change cannot grow the graph: it adds and supersedes nothing, and
  every Task of the merged graph is one of the Tasks that were not cancelled.\<close>

theorem no_growth_under_pressure:
  assumes "validate_change env g limits asked committed mission tasks c = Inr v" and "\<not> cl_admit_new_tasks limits"
  shows "vc_new_nodes v = [] \<and> cs_superseded (vc_operations v) = [] \<and> vc_order v = [] \<and>
    fst ` set (merged_edges tasks (vc_operations v) (vc_new_nodes v)) \<subseteq> tk_id ` {t\<in>set tasks. tk_status t \<noteq> T_CANCELLED}"
proof -
  obtain order where read: "read_operations env g limits tasks c = Inr (vc_new_nodes v, vc_operations v)"
    and vo: "vc_order v = filter (\<lambda>k. k \<in> nn_key ` set (vc_new_nodes v)) order"
    using validated_parts[OF assms(1)] by blast
  note parts = read_operations_Inr[OF read]
  have none: "vc_new_nodes v = []"
    using parts(1) parts(5)[OF assms(2)] by (simp add: add_tasks_def filter_empty_conv[THEN iffD2])
  moreover have "cs_superseded (vc_operations v) = []" using parts(3) none by (simp add: legal_operations_def values_in_def)
  moreover have "set (surviving tasks (vc_operations v)) \<subseteq> {t\<in>set tasks. tk_status t \<noteq> T_CANCELLED}"
    using tasks_by_id_values[OF refl, of "filter (\<lambda>t. tk_status t \<noteq> T_CANCELLED) tasks"]
    by (auto simp: surviving_def live_tasks_def)
  moreover have "fst ` set (merged_edges tasks (vc_operations v) []) = tk_id ` set (surviving tasks (vc_operations v))"
    by (simp add: merged_edges_def dict_loop_dom)
  ultimately show ?thesis using vo by auto
qed

definition pressed_limits :: ChangeLimits where
  "pressed_limits = default_change_limits\<lparr>cl_admit_new_tasks := False\<rparr>"

definition calm_change :: TaskGraphChange where
  "calm_change = sample_change\<lparr>gc_operations := drop 2 (gc_operations sample_change)\<rparr>"

lemma no_growth_under_pressure_witness:
  "\<exists>v. validate_change sample_env sample_gate pressed_limits [] [] sample_mission sample_tasks calm_change = Inr v \<and>
     vc_new_nodes v = [] \<and>
     validate_change sample_env sample_gate pressed_limits [] [] sample_mission sample_tasks sample_change = Inl CH_backpressure"
proof -
  let ?r = "validate_change sample_env sample_gate pressed_limits [] [] sample_mission sample_tasks"
  have "\<not> isl (?r calm_change)" "\<not> cl_admit_new_tasks pressed_limits" by code_simp+
  then obtain v where v: "?r calm_change = Inr v" by (cases "?r calm_change") auto
  have "?r sample_change = Inl CH_backpressure"
    by (simp add: validate_change_def read_operations_def pressed_limits_def sample_change_def)
  with no_growth_under_pressure[OF v] v show ?thesis by (auto simp: pressed_limits_def)
qed


section \<open>The wire form\<close>

text \<open>A value that came from Python: every object has distinct keys.\<close>

fun python_value :: "json \<Rightarrow> bool" where
  "python_value (JList xs) = (\<forall>x\<in>set xs. python_value x)"
| "python_value (JObj d) = (distinct (dict_keys d) \<and> (\<forall>kv\<in>set d. python_value (snd kv)))"
| "python_value _ = True"

lemma Operation_roundtrip:
  assumes "Operation_from_json str v = Inr o'" and "python_value v"
  shows "Operation_from_json str (Operation_to_json o') = Inr o'"
proof -
  from assms(1) obtain d w where d: "v = JObj d" "map_of d ''op'' = Some w"
    and check: "check_operation str (op_op o') (op_args o') = Inr ()"
    and args: "op_args o' = filter (\<lambda>kv. fst kv \<noteq> ''op'') d"
    by (auto simp: Operation_from_json_def Let_def result_simps split: json.splits option.splits)
  have keys: "distinct (map fst (op_args o'))" using assms(2) by (simp add: d(1) args distinct_map_filter)
  have fresh: "fst ` set (op_args o') \<inter> fst ` set [(''op'', JStr (op_op o'))] = {}" by (auto simp: args)
  have "Operation_to_json o' = JObj ((''op'', JStr (op_op o')) # op_args o')"
    using dict_loop_fresh[of fst "op_args o'" "[(''op'', JStr (op_op o'))]" snd, OF keys fresh]
    by (simp add: Operation_to_json_def case_prod_unfold)
  moreover have "filter (\<lambda>kv. fst kv \<noteq> ''op'') (op_args o') = op_args o'" by (simp add: args)
  ultimately show ?thesis using check by (simp add: Operation_from_json_def Let_def py_str_def)
qed

lemma operations_roundtrip:
  assumes "list_all2 (\<lambda>x y. Operation_from_json str x = Inr y) raw ops" and "\<forall>x\<in>set raw. python_value x"
  shows "list_all2 (\<lambda>x y. Operation_from_json str x = Inr y) (map Operation_to_json ops) ops"
  using assms by (induction rule: list_all2_induct) (auto intro: Operation_roundtrip)

lemma TaskGraphChange_decoded:
  assumes "TaskGraphChange_from_json str (JObj d) = Inr c"
  shows "1 \<le> gc_base_graph_version c \<and> (\<exists>raw. dict_get d ''operations'' (JList []) = JList raw \<and>
    list_all2 (\<lambda>x y. Operation_from_json str x = Inr y) raw (gc_operations c))"
  using assms
  by (cases "dict_get d ''operations'' (JList [])"; cases "dict_get d ''basis'' (JObj [])")
    (auto simp: TaskGraphChange_from_json_def Let_def rbind_Inr_iff map_result_ok positive_int_def
      split: if_split_asm json.split_asm)

text \<open>C24. The wire form of a change proposal is stable: decoding what a decoded proposal encodes to gives the proposal again,
  with the operations, their arguments and their order. The hash that identifies a proposal is therefore the hash of what
  was decoded, and it does not depend on the graph version it was based on.\<close>

theorem change_codec_roundtrip:
  assumes "TaskGraphChange_from_json str v = Inr c" and "python_value v"
  shows "TaskGraphChange_from_json str (TaskGraphChange_to_json c) = Inr c \<and>
    proposal_hash sha (c\<lparr>gc_base_graph_version := n\<rparr>) = proposal_hash sha c"
proof -
  obtain d where d: "v = JObj d" using assms(1) by (cases v) (simp_all add: TaskGraphChange_from_json_def)
  with TaskGraphChange_decoded assms(1) obtain raw where base: "1 \<le> gc_base_graph_version c"
    and raw: "dict_get d ''operations'' (JList []) = JList raw"
    and ops: "list_all2 (\<lambda>x y. Operation_from_json str x = Inr y) raw (gc_operations c)" by blast
  have "\<forall>x\<in>set raw. python_value x"
  proof (cases "map_of d ''operations''")
    case (Some w)
    then have "(''operations'', w) \<in> set d" by (rule map_of_SomeD)
    with assms(2) d Some raw show ?thesis by (fastforce simp: dict_get_def)
  qed (use raw in \<open>simp add: dict_get_def\<close>)
  from operations_roundtrip[OF ops this]
  have "TaskGraphChange_from_json str (TaskGraphChange_to_json c) = Inr c"
    using base by (simp add: TaskGraphChange_from_json_def TaskGraphChange_to_json_def Let_def positive_int_def field_def
        dict_get_def map_result_ok[THEN iffD2] py_str_def)
  then show ?thesis by (simp add: proposal_hash_def)
qed

lemma change_codec_roundtrip_witness:
  "TaskGraphChange_from_json (\<lambda>_. ''?'') (TaskGraphChange_to_json sample_change) = Inr sample_change \<and>
   proposal_hash (\<lambda>_. ''h'') (sample_change\<lparr>gc_base_graph_version := 7\<rparr>) = proposal_hash (\<lambda>_. ''h'') sample_change"
proof (rule change_codec_roundtrip)
  show "TaskGraphChange_from_json (\<lambda>_. ''?'') (TaskGraphChange_to_json sample_change) = Inr sample_change" by code_simp
  show "python_value (TaskGraphChange_to_json sample_change)" by code_simp
qed

end
