(* ===== verification/Witness_Subject.thy ===== *)
theory Witness_Subject
  imports Evidence
begin

text \<open>
  The subject a validity witness licenses (\<open>knowledge/validity.py\<close>). The SHA-256 hex digest of a text is
  the parameter \<open>digest\<close>. A licence over preconditions is filed under the digest of their sorted set, a
  licence over one accepted output under its acceptance, and any other under the empty subject.
\<close>

definition CONDITION_REASON_PREFIX :: string where "CONDITION_REASON_PREFIX = ''condition:''"
definition ACCEPTANCE_SUBJECT :: string where "ACCEPTANCE_SUBJECT = ''acceptance:''"
definition CONDITION_SUBJECT :: string where "CONDITION_SUBJECT = ''conditions:''"
definition NO_SUBJECT :: string where "NO_SUBJECT = ''''"

definition condition_digests :: "ValidityWitness \<Rightarrow> string list" where
  "condition_digests w =
     sorted_list_of_set ((\<lambda>c. drop (length CONDITION_REASON_PREFIX) c) `
       {c \<in> set (vw_reason_codes w). starts_with CONDITION_REASON_PREFIX c})"

definition acceptance_subjects :: "ValidityWitness \<Rightarrow> string list" where
  "acceptance_subjects w = sorted_list_of_set (r_id ` {r \<in> set (vw_support_refs w). r_kind r = TR_ACCEPTANCE})"

fun join_bar :: "string list \<Rightarrow> string" where
  "join_bar [] = []"
| "join_bar [s] = s"
| "join_bar (s # ss) = s @ CHR 0x7C # join_bar ss"

definition witness_subject :: "(string \<Rightarrow> string) \<Rightarrow> ValidityWitness \<Rightarrow> string" where
  "witness_subject digest w =
     (let digests = condition_digests w; acceptances = acceptance_subjects w in
      if digests \<noteq> [] then CONDITION_SUBJECT @ digest (join_bar digests)
      else if length acceptances = 1 then ACCEPTANCE_SUBJECT @ hd acceptances
      else NO_SUBJECT)"

definition condition_subject :: "(string \<Rightarrow> string) \<Rightarrow> string list \<Rightarrow> string" where
  "condition_subject digest digests =
     (let ordered = sorted_list_of_set (set digests) in
      if ordered = [] then NO_SUBJECT else CONDITION_SUBJECT @ digest (join_bar ordered))"

definition acceptance_subject :: "string \<Rightarrow> string" where
  "acceptance_subject acceptance_id = ACCEPTANCE_SUBJECT @ acceptance_id"

section \<open>Facts\<close>

lemma join_bar_inj:
  assumes "\<forall>s\<in>set xs \<union> set ys. CHR 0x7C \<notin> set s" and "xs \<noteq> []" and "ys \<noteq> []" and "join_bar xs = join_bar ys"
  shows "xs = ys"
  using assms
proof (induction xs arbitrary: ys rule: join_bar.induct)
  case (2 s)
  then show ?case by (cases ys rule: join_bar.cases) auto
next
  case (3 s t ss)
  then obtain u us where ys: "ys = u # us" by (cases ys) auto
  have split: "s @ CHR 0x7C # a = u @ CHR 0x7C # b \<longleftrightarrow> s = u \<and> a = b" for a b
  proof -
    have "takeWhile (\<lambda>c. c \<noteq> CHR 0x7C) (v @ CHR 0x7C # x) = v" if "CHR 0x7C \<notin> set v" for v x
      using that by (induction v) auto
    then show ?thesis using 3(2) ys by (metis UnI1 UnI2 append_same_eq list.inject list.set_intros(1) same_append_eq)
  qed
  show ?case
  proof (cases us)
    case Nil
    with 3 ys show ?thesis by auto
  next
    case (Cons v vs)
    with 3(5) ys have "s = u" "join_bar (t # ss) = join_bar us" by (simp_all add: split)
    with 3(1)[of us] 3(2) ys Cons show ?thesis by simp
  qed
qed simp

text \<open>Two licences are filed under one subject only if they license the same thing. If the digest does
  not collide on the two sets, then for witnesses whose precondition digests contain no separator, equal non-empty subjects
  mean the same set of preconditions, or, where neither names a precondition, the same single acceptance;
  and the issuer that declares \<open>condition_subject\<close> or \<open>acceptance_subject\<close> for what the witness names agrees
  with the recomputation.\<close>

theorem subject_identifies_licence:
  assumes "digest (join_bar (condition_digests w)) = digest (join_bar (condition_digests v)) \<Longrightarrow>
      join_bar (condition_digests w) = join_bar (condition_digests v)"
    and "\<forall>d\<in>set (condition_digests w) \<union> set (condition_digests v). CHR 0x7C \<notin> set d"
    and "witness_subject digest w = witness_subject digest v" and "witness_subject digest w \<noteq> NO_SUBJECT"
  shows "condition_digests w = condition_digests v \<and>
    (condition_digests w = [] \<longrightarrow> acceptance_subjects w = acceptance_subjects v \<and> length (acceptance_subjects w) = 1) \<and>
    (if condition_digests w \<noteq> [] then witness_subject digest w = condition_subject digest (condition_digests w)
     else witness_subject digest w = acceptance_subject (hd (acceptance_subjects w)))"
proof -
  have lanes: "ACCEPTANCE_SUBJECT @ a \<noteq> CONDITION_SUBJECT @ b" for a b
    by (simp add: ACCEPTANCE_SUBJECT_def CONDITION_SUBJECT_def)
  have empty: "ACCEPTANCE_SUBJECT @ a \<noteq> NO_SUBJECT" "CONDITION_SUBJECT @ a \<noteq> NO_SUBJECT"
    "NO_SUBJECT \<noteq> ACCEPTANCE_SUBJECT @ a" "NO_SUBJECT \<noteq> CONDITION_SUBJECT @ a" for a
    by (simp_all add: ACCEPTANCE_SUBJECT_def CONDITION_SUBJECT_def NO_SUBJECT_def)
  have sorted: "sorted_list_of_set (set (condition_digests x)) = condition_digests x" for x
    by (simp add: condition_digests_def)
  have one: "length xs = Suc 0 \<longleftrightarrow> (\<exists>x. xs = [x])" for xs :: "string list" by (cases xs) auto
  show ?thesis
  proof (cases "condition_digests w = []")
    case True
    with assms(3,4) lanes empty show ?thesis
      by (auto simp: witness_subject_def Let_def one acceptance_subject_def split: if_splits)
  next
    case False
    with assms(3) lanes lanes[symmetric] empty have v: "condition_digests v \<noteq> []"
      and "digest (join_bar (condition_digests w)) = digest (join_bar (condition_digests v))"
      by (auto simp: witness_subject_def Let_def split: if_splits)
    with assms(1) have "join_bar (condition_digests w) = join_bar (condition_digests v)" by blast
    from join_bar_inj[OF assms(2) False v this] False show ?thesis
      by (simp add: witness_subject_def condition_subject_def sorted Let_def)
  qed
qed

definition sample_licence :: "string list \<Rightarrow> ValidityWitness" where
  "sample_licence codes =
     \<lparr>vw_witness_id = ''w'', vw_consumer_ref = \<lparr>r_kind = TR_TASK, r_id = ''t'', r_revision = 1, r_content_hash = '''', r_produced_by = None\<rparr>,
      vw_purpose = WP_START, vw_truth = TV_TRUE, vw_freshness = VA_CURRENT, vw_availability = AV_READABLE,
      vw_decision = WD_USABLE, vw_scope_id = ''s'', vw_scope_epoch = 0, vw_support_revision = 0, vw_as_of_ms = 0,
      vw_not_after_ms = None, vw_support_refs = [], vw_reason_codes = codes\<rparr>"

lemma subject_identifies_licence_witness:
  "witness_subject id (sample_licence [''condition:b'', ''x'', ''condition:a'', ''condition:b'']) = ''conditions:a|b'' \<and>
   condition_digests (sample_licence [''condition:b'', ''x'', ''condition:a'', ''condition:b'']) =
     condition_digests (sample_licence [''condition:a'', ''condition:b''])"
proof -
  let ?w = "sample_licence [''condition:b'', ''x'', ''condition:a'', ''condition:b'']" and ?v = "sample_licence [''condition:a'', ''condition:b'']"
  have s: "witness_subject id ?w = ''conditions:a|b''" "witness_subject id ?v = ''conditions:a|b''"
    "\<forall>d\<in>set (condition_digests ?w) \<union> set (condition_digests ?v). CHR 0x7C \<notin> set d" by code_simp+
  then have "witness_subject id ?w \<noteq> NO_SUBJECT" by (simp add: NO_SUBJECT_def)
  from subject_identifies_licence[of id ?w ?v, OF _ s(3) _ this] s show ?thesis by simp
qed

end
