(* ===== verification/Obligations.thy ===== *)
theory Obligations
  imports Semantic_Base
begin

text \<open>
  Obligations and the in-memory obligation ledger (\<open>contracts/obligations.py\<close>), with the records of
  \<open>contracts/htn.py\<close> that open a duty (\<open>GoalSignature\<close>, \<open>ObligationOpening\<close>).

  A constructor of the source is a \<open>make_\<close> function from unchecked fields to a validated record. The
  ledger is a value: an operation returns the refusal, or its answer and the ledger after it. The source
  validates before it writes, so a refused call leaves the ledger as it was, which is what \<open>submit\<close> says.
\<close>

section \<open>Vocabulary\<close>

datatype ObligationLifecycle = OL_UNSATISFIED | OL_SATISFIED | OL_CANCELLED | OL_SUPERSEDED

fun str_ObligationLifecycle :: "ObligationLifecycle \<Rightarrow> string" where
  "str_ObligationLifecycle OL_UNSATISFIED = ''UNSATISFIED''"
| "str_ObligationLifecycle OL_SATISFIED = ''SATISFIED''"
| "str_ObligationLifecycle OL_CANCELLED = ''CANCELLED''"
| "str_ObligationLifecycle OL_SUPERSEDED = ''SUPERSEDED''"

definition all_ObligationLifecycle :: "ObligationLifecycle list" where
  "all_ObligationLifecycle = [OL_UNSATISFIED, OL_SATISFIED, OL_CANCELLED, OL_SUPERSEDED]"

datatype FuelStatus = FS_GRANTED | FS_BOUND_REACHED | FS_REPEATED_EXPANSION

datatype ShapeChange =
  SC_TASK_RENAMED | SC_METHOD_SWITCHED | SC_AGENT_REASSIGNED | SC_PARAMETERS_REBOUND | SC_SUCCESSOR_TASK

fun str_ShapeChange :: "ShapeChange \<Rightarrow> string" where
  "str_ShapeChange SC_TASK_RENAMED = ''task_renamed''"
| "str_ShapeChange SC_METHOD_SWITCHED = ''method_switched''"
| "str_ShapeChange SC_AGENT_REASSIGNED = ''agent_reassigned''"
| "str_ShapeChange SC_PARAMETERS_REBOUND = ''parameters_rebound''"
| "str_ShapeChange SC_SUCCESSOR_TASK = ''successor_task''"

definition all_ShapeChange :: "ShapeChange list" where
  "all_ShapeChange =
     [SC_TASK_RENAMED, SC_METHOD_SWITCHED, SC_AGENT_REASSIGNED, SC_PARAMETERS_REBOUND, SC_SUCCESSOR_TASK]"

datatype AchieveOutcomeAdmission =
  AO_ADMISSIBLE | AO_FUEL_EXHAUSTED_NO_ESCAPE | AO_NOT_EXPLICITLY_SELECTED | AO_OBLIGATION_NOT_ACTIVE

datatype Selector = PLANNER_EXPLICIT | AUTOMATIC_FALLBACK

datatype Requiredness = RQ_REQUIRED | RQ_OPTIONAL_AUTHORIZED | RQ_CONDITIONAL

fun str_Requiredness :: "Requiredness \<Rightarrow> string" where
  "str_Requiredness RQ_REQUIRED = ''required''"
| "str_Requiredness RQ_OPTIONAL_AUTHORIZED = ''optional_authorized''"
| "str_Requiredness RQ_CONDITIONAL = ''conditional''"

definition all_Requiredness :: "Requiredness list" where
  "all_Requiredness = [RQ_REQUIRED, RQ_OPTIONAL_AUTHORIZED, RQ_CONDITIONAL]"

datatype ObligationRelation = RL_REFINES_PARENT | RL_INDEPENDENT_AUTHORIZED

fun str_ObligationRelation :: "ObligationRelation \<Rightarrow> string" where
  "str_ObligationRelation RL_REFINES_PARENT = ''refines_parent''"
| "str_ObligationRelation RL_INDEPENDENT_AUTHORIZED = ''independent_authorized''"

definition all_ObligationRelation :: "ObligationRelation list" where
  "all_ObligationRelation = [RL_REFINES_PARENT, RL_INDEPENDENT_AUTHORIZED]"

datatype BudgetInheritance = BI_INHERIT_PARENT_FUEL_SHARE | BI_SEPARATE_GRANT

fun str_BudgetInheritance :: "BudgetInheritance \<Rightarrow> string" where
  "str_BudgetInheritance BI_INHERIT_PARENT_FUEL_SHARE = ''inherit_parent_fuel_share''"
| "str_BudgetInheritance BI_SEPARATE_GRANT = ''separate_grant''"

definition all_BudgetInheritance :: "BudgetInheritance list" where
  "all_BudgetInheritance = [BI_INHERIT_PARENT_FUEL_SHARE, BI_SEPARATE_GRANT]"

section \<open>Satisfaction policies and obligations\<close>

definition json_opt :: "string option \<Rightarrow> json" where
  "json_opt x = (case x of None \<Rightarrow> JNull | Some s \<Rightarrow> JStr s)"

text \<open>\<open>None if raw is None else C.from_json(raw, name)\<close>.\<close>

definition decode_optional :: "json \<Rightarrow> (json \<Rightarrow> contract_error + 'a) \<Rightarrow> contract_error + 'a option" where
  "decode_optional v f = (if v = JNull then Inr None else rbind (f v) (\<lambda>x. Inr (Some x)))"

abbreviation ids_of :: "json \<Rightarrow> string \<Rightarrow> contract_error + string list" where
  "ids_of \<equiv> identifiers MAX_LIST"

record SatisfactionPolicy =
  sp_required_criterion_ids :: "string list"
  sp_independent_review_required :: bool
  sp_delivery_stage_required :: "string option"

definition make_SatisfactionPolicy :: "json \<Rightarrow> json \<Rightarrow> json \<Rightarrow> contract_error + SatisfactionPolicy" where
  "make_SatisfactionPolicy criteria review stage =
     rbind (ids_of criteria ''satisfaction_policy.required_criterion_ids'') (\<lambda>criteria'.
     rbind (flag review ''satisfaction_policy.independent_review_required'') (\<lambda>review'.
     rbind (optional_identifier stage ''satisfaction_policy.delivery_stage_required'') (\<lambda>stage'.
     Inr \<lparr>sp_required_criterion_ids = criteria', sp_independent_review_required = review',
          sp_delivery_stage_required = stage'\<rparr>)))"

definition SatisfactionPolicy_to_json :: "SatisfactionPolicy \<Rightarrow> json" where
  "SatisfactionPolicy_to_json p =
     JObj [(''required_criterion_ids'', JList (map JStr (sp_required_criterion_ids p))),
           (''independent_review_required'', JBool (sp_independent_review_required p)),
           (''delivery_stage_required'', json_opt (sp_delivery_stage_required p))]"

definition SatisfactionPolicy_from_json :: "json \<Rightarrow> string \<Rightarrow> contract_error + SatisfactionPolicy" where
  "SatisfactionPolicy_from_json v name =
     rbind (fields_of v name [''required_criterion_ids''] [''independent_review_required'', ''delivery_stage_required'']) (\<lambda>d.
     rbind (tuple_of (field d ''required_criterion_ids'')) (\<lambda>criteria.
     make_SatisfactionPolicy (JList criteria) (dict_get d ''independent_review_required'' (JBool True))
       (field d ''delivery_stage_required'')))"

record Obligation =
  og_obligation_id :: string
  og_mission_id :: string
  og_requirement_refs :: "string list"
  og_goal_signature_id :: string
  og_parameters :: "(string \<times> json) list"
  og_scope :: string
  og_authority_ref :: "string option"
  og_requiredness :: Requiredness
  og_budget_lineage_ref :: "string option"
  og_satisfaction_policy :: "SatisfactionPolicy option"
  og_lifecycle :: ObligationLifecycle
  og_resolution_ref :: "string option"
  og_parent_obligation_id :: "string option"

text \<open>\<open>obligation_id\<close> of \<open>htn.py\<close> is \<open>identifier\<close>. An absent parent is \<open>JNull\<close>.\<close>

definition make_Obligation ::
  "json \<Rightarrow> json \<Rightarrow> json \<Rightarrow> json \<Rightarrow> json \<Rightarrow> json \<Rightarrow> json \<Rightarrow> json \<Rightarrow> json \<Rightarrow> SatisfactionPolicy option \<Rightarrow> json \<Rightarrow> json \<Rightarrow> json
    \<Rightarrow> contract_error + Obligation" where
  "make_Obligation oid mission reqs goal params scope authority requiredness lineage policy lifecycle resolution parent =
     rbind (identifier_of oid ''obligation.obligation_id'') (\<lambda>oid'.
     rbind (identifier_of mission ''obligation.mission_id'') (\<lambda>mission'.
     rbind (ids_of reqs ''obligation.requirement_refs'') (\<lambda>reqs'.
     rbind (identifier_of goal ''obligation.goal_signature_id'') (\<lambda>goal'.
     rbind (json_object params ''obligation.parameters'') (\<lambda>params'.
     rbind (identifier_of scope ''obligation.scope'') (\<lambda>scope'.
     rbind (optional_identifier authority ''obligation.authority_ref'') (\<lambda>authority'.
     rbind (decode_enum all_Requiredness str_Requiredness requiredness ''obligation.requiredness'') (\<lambda>requiredness'.
     rbind (optional_identifier lineage ''obligation.budget_lineage_ref'') (\<lambda>lineage'.
     rbind (decode_enum all_ObligationLifecycle str_ObligationLifecycle lifecycle ''obligation.lifecycle'') (\<lambda>lifecycle'.
     rbind (optional_identifier resolution ''obligation.resolution_ref'') (\<lambda>resolution'.
     rbind (optional_identifier parent ''obligation.parent_obligation_id'') (\<lambda>parent'.
     if parent' = Some oid' then Inl (CE_rule ''an obligation may not be its own parent'')
     else if lifecycle' = OL_SATISFIED \<and> resolution' = None then Inl (CE_rule ''resolution_ref'')
     else Inr \<lparr>og_obligation_id = oid', og_mission_id = mission', og_requirement_refs = reqs',
       og_goal_signature_id = goal', og_parameters = params', og_scope = scope', og_authority_ref = authority',
       og_requiredness = requiredness', og_budget_lineage_ref = lineage', og_satisfaction_policy = policy,
       og_lifecycle = lifecycle', og_resolution_ref = resolution', og_parent_obligation_id = parent'\<rparr>))))))))))))"

definition Obligation_to_json :: "Obligation \<Rightarrow> json" where
  "Obligation_to_json o1 =
     JObj [(''obligation_id'', JStr (og_obligation_id o1)), (''mission_id'', JStr (og_mission_id o1)),
           (''requirement_refs'', JList (map JStr (og_requirement_refs o1))),
           (''goal_signature_id'', JStr (og_goal_signature_id o1)), (''parameters'', JObj (og_parameters o1)),
           (''scope'', JStr (og_scope o1)), (''authority_ref'', json_opt (og_authority_ref o1)),
           (''requiredness'', JStr (str_Requiredness (og_requiredness o1))),
           (''budget_lineage_ref'', json_opt (og_budget_lineage_ref o1)),
           (''satisfaction_policy'', (case og_satisfaction_policy o1 of None \<Rightarrow> JNull | Some p \<Rightarrow> SatisfactionPolicy_to_json p)),
           (''lifecycle'', JStr (str_ObligationLifecycle (og_lifecycle o1))),
           (''resolution_ref'', json_opt (og_resolution_ref o1)),
           (''parent_obligation_id'', json_opt (og_parent_obligation_id o1))]"

definition Obligation_from_json :: "json \<Rightarrow> string \<Rightarrow> contract_error + Obligation" where
  "Obligation_from_json v name =
     rbind (fields_of v name [''obligation_id'', ''mission_id'', ''requirement_refs'', ''goal_signature_id'']
       [''parameters'', ''scope'', ''authority_ref'', ''requiredness'', ''budget_lineage_ref'', ''satisfaction_policy'',
        ''lifecycle'', ''resolution_ref'', ''parent_obligation_id'']) (\<lambda>d.
     rbind (tuple_of (field d ''requirement_refs'')) (\<lambda>reqs.
     rbind (dict_of (dict_get d ''parameters'' (JObj [])) ''obligation.parameters'') (\<lambda>params.
     rbind (decode_optional (field d ''satisfaction_policy'')
       (\<lambda>raw. SatisfactionPolicy_from_json raw (name @ ''.satisfaction_policy''))) (\<lambda>policy.
     make_Obligation (field d ''obligation_id'') (field d ''mission_id'') (JList reqs) (field d ''goal_signature_id'')
       (JObj params) (dict_get d ''scope'' (JStr ''mission'')) (field d ''authority_ref'')
       (dict_get d ''requiredness'' (JStr ''required'')) (field d ''budget_lineage_ref'') policy
       (dict_get d ''lifecycle'' (JStr ''UNSATISFIED'')) (field d ''resolution_ref'') (field d ''parent_obligation_id'')))))"

section \<open>Openings\<close>

record GoalSignature =
  gl_signature_id :: string
  gl_version :: int
  gl_parameter_schema_ref :: VersionedRef
  gl_output_schema_ref :: VersionedRef
  gl_statement :: string
  gl_coverage_criteria :: "string list"

definition make_GoalSignature ::
  "json \<Rightarrow> json \<Rightarrow> VersionedRef \<Rightarrow> VersionedRef \<Rightarrow> json \<Rightarrow> json \<Rightarrow> contract_error + GoalSignature" where
  "make_GoalSignature sid version params output statement coverage =
     rbind (identifier_of sid ''goal_signature.signature_id'') (\<lambda>sid'.
     rbind (index_min 1 version ''goal_signature.version'') (\<lambda>version'.
     rbind (text_limit MAX_TEXT statement ''goal_signature.statement'') (\<lambda>statement'.
     rbind (ids_of coverage ''goal_signature.coverage_criteria'') (\<lambda>coverage'.
     Inr \<lparr>gl_signature_id = sid', gl_version = version', gl_parameter_schema_ref = params, gl_output_schema_ref = output,
          gl_statement = statement', gl_coverage_criteria = coverage'\<rparr>))))"

definition GoalSignature_to_json :: "GoalSignature \<Rightarrow> json" where
  "GoalSignature_to_json g =
     JObj [(''signature_id'', JStr (gl_signature_id g)), (''version'', JInt (gl_version g)),
           (''parameter_schema_ref'', VersionedRef_to_json (gl_parameter_schema_ref g)),
           (''output_schema_ref'', VersionedRef_to_json (gl_output_schema_ref g)),
           (''statement'', JStr (gl_statement g)),
           (''coverage_criteria'', JList (map JStr (gl_coverage_criteria g)))]"

definition GoalSignature_from_json :: "json \<Rightarrow> string \<Rightarrow> contract_error + GoalSignature" where
  "GoalSignature_from_json v name =
     rbind (fields_of v name [''signature_id'', ''version'', ''parameter_schema_ref'', ''output_schema_ref'', ''statement'']
       [''coverage_criteria'']) (\<lambda>d.
     rbind (VersionedRef_from_json (field d ''parameter_schema_ref'') (name @ ''.parameter_schema_ref'')) (\<lambda>params.
     rbind (VersionedRef_from_json (field d ''output_schema_ref'') (name @ ''.output_schema_ref'')) (\<lambda>output.
     rbind (tuple_of (dict_get d ''coverage_criteria'' (JList []))) (\<lambda>coverage.
     make_GoalSignature (field d ''signature_id'') (field d ''version'') params output (field d ''statement'') (JList coverage)))))"

record ObligationOpening =
  oo_obligation_id :: string
  oo_parent_obligation_id :: string
  oo_relation :: ObligationRelation
  oo_requirement_refs :: "string list"
  oo_goal_signature :: GoalSignature
  oo_budget_inheritance :: BudgetInheritance
  oo_fuel_share :: "int option"
  oo_grant_ref :: "string option"
  oo_authorization_ref :: "TypedRef option"
  oo_opened_by :: Provenance

text \<open>The rules between the fields, after each field has been decoded.\<close>

definition check_opening :: "ObligationOpening \<Rightarrow> contract_error + ObligationOpening" where
  "check_opening x =
     (if oo_relation x = RL_INDEPENDENT_AUTHORIZED \<and> oo_authorization_ref x = None
      then Inl (CE_rule ''authorization_ref'')
      else if oo_relation x \<noteq> RL_INDEPENDENT_AUTHORIZED \<and> oo_budget_inheritance x = BI_SEPARATE_GRANT
      then Inl (CE_rule ''separate grant for a refinement'')
      else if oo_budget_inheritance x = BI_INHERIT_PARENT_FUEL_SHARE \<and> oo_fuel_share x = None
      then Inl (CE_rule ''fuel_share'')
      else if oo_budget_inheritance x = BI_INHERIT_PARENT_FUEL_SHARE \<and> oo_grant_ref x \<noteq> None
      then Inl (CE_rule ''inherited allowance with a grant'')
      else if oo_budget_inheritance x = BI_SEPARATE_GRANT \<and> oo_grant_ref x = None
      then Inl (CE_rule ''grant_ref'')
      else if oo_budget_inheritance x = BI_SEPARATE_GRANT \<and> oo_fuel_share x \<noteq> None
      then Inl (CE_rule ''separate grant with a share'')
      else if oo_opened_by x \<notin> {PV_SYSTEM, PV_HUMAN} then Inl (CE_rule ''opened_by'')
      else Inr x)"

definition make_ObligationOpening ::
  "json \<Rightarrow> json \<Rightarrow> json \<Rightarrow> json \<Rightarrow> GoalSignature \<Rightarrow> json \<Rightarrow> json \<Rightarrow> json \<Rightarrow> TypedRef option \<Rightarrow> json \<Rightarrow> contract_error + ObligationOpening" where
  "make_ObligationOpening oid parent relation reqs goal inheritance share grant authorization opened =
     rbind (identifier_of oid ''opening.obligation_id'') (\<lambda>oid'.
     rbind (identifier_of parent ''opening.parent_obligation_id'') (\<lambda>parent'.
     if oid' = parent' then Inl (CE_rule ''an opening may not name its own parent'')
     else
       rbind (decode_enum all_ObligationRelation str_ObligationRelation relation ''opening.relation'') (\<lambda>relation'.
       rbind (ids_of reqs ''opening.requirement_refs'') (\<lambda>reqs'.
       if reqs' = [] then Inl (CE_rule ''opening.requirement_refs'')
       else
         rbind (decode_enum all_BudgetInheritance str_BudgetInheritance inheritance ''opening.budget_inheritance'') (\<lambda>inheritance'.
         rbind (optional_index_min 1 share ''opening.fuel_share'') (\<lambda>share'.
         rbind (optional_identifier grant ''opening.grant_ref'') (\<lambda>grant'.
         rbind (decode_enum all_Provenance str_Provenance opened ''opening.opened_by'') (\<lambda>opened'.
         check_opening \<lparr>oo_obligation_id = oid', oo_parent_obligation_id = parent', oo_relation = relation',
           oo_requirement_refs = reqs', oo_goal_signature = goal, oo_budget_inheritance = inheritance',
           oo_fuel_share = share', oo_grant_ref = grant', oo_authorization_ref = authorization,
           oo_opened_by = opened'\<rparr>))))))))"

definition ObligationOpening_to_json :: "ObligationOpening \<Rightarrow> json" where
  "ObligationOpening_to_json x =
     JObj [(''obligation_id'', JStr (oo_obligation_id x)), (''parent_obligation_id'', JStr (oo_parent_obligation_id x)),
           (''relation'', JStr (str_ObligationRelation (oo_relation x))),
           (''requirement_refs'', JList (map JStr (oo_requirement_refs x))),
           (''goal_signature'', GoalSignature_to_json (oo_goal_signature x)),
           (''budget_inheritance'', JStr (str_BudgetInheritance (oo_budget_inheritance x))),
           (''fuel_share'', (case oo_fuel_share x of None \<Rightarrow> JNull | Some n \<Rightarrow> JInt n)),
           (''grant_ref'', json_opt (oo_grant_ref x)),
           (''authorization_ref'', (case oo_authorization_ref x of None \<Rightarrow> JNull | Some r \<Rightarrow> TypedRef_to_json r)),
           (''opened_by'', JStr (str_Provenance (oo_opened_by x)))]"

definition ObligationOpening_from_json :: "json \<Rightarrow> string \<Rightarrow> contract_error + ObligationOpening" where
  "ObligationOpening_from_json v name =
     rbind (fields_of v name [''obligation_id'', ''parent_obligation_id'', ''relation'', ''requirement_refs'', ''goal_signature'']
       [''budget_inheritance'', ''fuel_share'', ''grant_ref'', ''authorization_ref'', ''opened_by'']) (\<lambda>d.
     rbind (tuple_of (field d ''requirement_refs'')) (\<lambda>reqs.
     rbind (GoalSignature_from_json (field d ''goal_signature'') (name @ ''.goal_signature'')) (\<lambda>goal.
     rbind (decode_optional (field d ''authorization_ref'')
       (\<lambda>raw. TypedRef_from_json raw (name @ ''.authorization_ref''))) (\<lambda>auth.
     make_ObligationOpening (field d ''obligation_id'') (field d ''parent_obligation_id'') (field d ''relation'') (JList reqs) goal
       (dict_get d ''budget_inheritance'' (JStr ''inherit_parent_fuel_share'')) (field d ''fuel_share'') (field d ''grant_ref'')
       auth (dict_get d ''opened_by'' (JStr ''system''))))))"

section \<open>Expansions and accounts\<close>

record ExpansionRecord =
  ex_method_id :: string
  ex_parameters_digest :: string
  ex_task_id :: "string option"

definition make_ExpansionRecord :: "json \<Rightarrow> json \<Rightarrow> json \<Rightarrow> contract_error + ExpansionRecord" where
  "make_ExpansionRecord m digest task =
     rbind (identifier_of m ''expansion.method_id'') (\<lambda>m'.
     rbind (identifier_of digest ''expansion.parameters_digest'') (\<lambda>digest'.
     rbind (optional_identifier task ''expansion.task_id'') (\<lambda>task'.
     Inr \<lparr>ex_method_id = m', ex_parameters_digest = digest', ex_task_id = task'\<rparr>)))"

definition expansion_key :: "ExpansionRecord \<Rightarrow> string \<times> string" where
  "expansion_key e = (ex_method_id e, ex_parameters_digest e)"

definition ExpansionRecord_to_json :: "ExpansionRecord \<Rightarrow> json" where
  "ExpansionRecord_to_json e =
     JObj [(''method_id'', JStr (ex_method_id e)), (''parameters_digest'', JStr (ex_parameters_digest e)),
           (''task_id'', json_opt (ex_task_id e))]"

definition ExpansionRecord_from_json :: "json \<Rightarrow> string \<Rightarrow> contract_error + ExpansionRecord" where
  "ExpansionRecord_from_json v name =
     rbind (fields_of v name [''method_id'', ''parameters_digest''] [''task_id'']) (\<lambda>d.
     make_ExpansionRecord (field d ''method_id'') (field d ''parameters_digest'') (field d ''task_id''))"

record ObligationAccountView =
  av_obligation_id :: string
  av_failure_count :: int
  av_consumed_cost_micros :: int
  av_consumed_attempts :: int
  av_consumed_tokens :: int
  av_has_admitted_demand :: bool
  av_fuel_limit :: int
  av_fuel_used :: int
  av_expansions :: nat
  av_shape_changes :: nat
  av_lifecycle :: ObligationLifecycle
  av_resolution_ref :: "string option"

definition av_remaining_fuel :: "ObligationAccountView \<Rightarrow> int" where
  "av_remaining_fuel a = max (av_fuel_limit a - av_fuel_used a) 0"

record FuelDecision =
  fd_status :: FuelStatus
  fd_remaining_fuel :: int

definition granted :: "FuelDecision \<Rightarrow> bool" where
  "granted d \<longleftrightarrow> fd_status d = FS_GRANTED"

definition achieve_outcome_admission :: "ObligationAccountView \<Rightarrow> Selector \<Rightarrow> AchieveOutcomeAdmission" where
  "achieve_outcome_admission a selected_by =
     (if av_lifecycle a \<noteq> OL_UNSATISFIED then AO_OBLIGATION_NOT_ACTIVE
      else if av_remaining_fuel a \<le> 0 then AO_FUEL_EXHAUSTED_NO_ESCAPE
      else if selected_by \<noteq> PLANNER_EXPLICIT then AO_NOT_EXPLICITLY_SELECTED
      else AO_ADMISSIBLE)"

definition outcome_allowed :: "AchieveOutcomeAdmission \<Rightarrow> bool" where
  "outcome_allowed a \<longleftrightarrow> a = AO_ADMISSIBLE"

section \<open>The ledger\<close>

record Account =
  oa_obligation :: Obligation
  oa_fuel_limit :: int
  oa_fuel_used :: int
  oa_failure_count :: int
  oa_consumed_cost_micros :: int
  oa_consumed_attempts :: int
  oa_consumed_tokens :: int
  oa_demand_admitted :: bool
  oa_expansion_keys :: "(string \<times> string) list"
  oa_shape_changes :: "(ShapeChange \<times> string) list"
  oa_lifecycle :: ObligationLifecycle
  oa_resolution_ref :: "string option"

definition new_account :: "Obligation \<Rightarrow> int \<Rightarrow> Account" where
  "new_account duty fuel_limit =
     \<lparr>oa_obligation = duty, oa_fuel_limit = fuel_limit, oa_fuel_used = 0, oa_failure_count = 0,
      oa_consumed_cost_micros = 0, oa_consumed_attempts = 0, oa_consumed_tokens = 0, oa_demand_admitted = False,
      oa_expansion_keys = [], oa_shape_changes = [], oa_lifecycle = og_lifecycle duty,
      oa_resolution_ref = og_resolution_ref duty\<rparr>"

record ObligationLedger =
  ol_default_fuel :: int
  ol_accounts :: "(string \<times> Account) list"

definition new_obligation_ledger :: "json \<Rightarrow> contract_error + ObligationLedger" where
  "new_obligation_ledger default_fuel =
     (case default_fuel of
        JInt n \<Rightarrow> if n < 0 then Inl (CE_minimum ''default_fuel'') else Inr \<lparr>ol_default_fuel = n, ol_accounts = []\<rparr>
      | _ \<Rightarrow> Inl (CE_type ''default_fuel''))"

definition require_account :: "ObligationLedger \<Rightarrow> string \<Rightarrow> contract_error + Account" where
  "require_account L target =
     (case map_of (ol_accounts L) target of None \<Rightarrow> Inl (CE_rule ''not registered'') | Some a \<Rightarrow> Inr a)"

definition put_account :: "string \<Rightarrow> Account \<Rightarrow> ObligationLedger \<Rightarrow> ObligationLedger" where
  "put_account target a L = L\<lparr>ol_accounts := dict_set target a (ol_accounts L)\<rparr>"

definition register_fuel :: "ObligationLedger \<Rightarrow> json \<Rightarrow> contract_error + int" where
  "register_fuel L recursion_fuel =
     (if recursion_fuel = JNull then Inr (ol_default_fuel L) else index_min 0 recursion_fuel ''fuel'')"

definition register :: "ObligationLedger \<Rightarrow> Obligation \<Rightarrow> json \<Rightarrow> contract_error + ObligationLedger" where
  "register L duty recursion_fuel =
     (if og_obligation_id duty \<in> set (dict_keys (ol_accounts L)) then Inl (CE_rule ''already registered'')
      else rbind (register_fuel L recursion_fuel) (\<lambda>fuel.
        Inr (put_account (og_obligation_id duty) (new_account duty fuel) L)))"

definition view_of :: "Account \<Rightarrow> ObligationAccountView" where
  "view_of a =
     \<lparr>av_obligation_id = og_obligation_id (oa_obligation a), av_failure_count = oa_failure_count a,
      av_consumed_cost_micros = oa_consumed_cost_micros a, av_consumed_attempts = oa_consumed_attempts a,
      av_consumed_tokens = oa_consumed_tokens a, av_has_admitted_demand = oa_demand_admitted a,
      av_fuel_limit = oa_fuel_limit a, av_fuel_used = oa_fuel_used a, av_expansions = length (oa_expansion_keys a),
      av_shape_changes = length (oa_shape_changes a), av_lifecycle = oa_lifecycle a,
      av_resolution_ref = oa_resolution_ref a\<rparr>"

definition obligation_account :: "ObligationLedger \<Rightarrow> string \<Rightarrow> contract_error + ObligationAccountView" where
  "obligation_account L target = rbind (require_account L target) (\<lambda>a. Inr (view_of a))"

definition obligation_of :: "ObligationLedger \<Rightarrow> string \<Rightarrow> contract_error + Obligation" where
  "obligation_of L target = rbind (require_account L target) (\<lambda>a. Inr (oa_obligation a))"

definition obligation_ids :: "ObligationLedger \<Rightarrow> string list" where
  "obligation_ids L = dict_keys (ol_accounts L)"

text \<open>The fuel of a new duty and the share its parent hands over.\<close>

definition opening_fuel :: "ObligationOpening \<Rightarrow> Account \<Rightarrow> json \<Rightarrow> contract_error + (int \<times> int)" where
  "opening_fuel opening parent granted_fuel =
     (if oo_budget_inheritance opening = BI_INHERIT_PARENT_FUEL_SHARE then
        if granted_fuel \<noteq> JNull then Inl (CE_rule ''granted_fuel'')
        else
          rbind (index_min 1 (case oo_fuel_share opening of None \<Rightarrow> JNull | Some n \<Rightarrow> JInt n) ''opening.fuel_share'') (\<lambda>share.
          if max (oa_fuel_limit parent - oa_fuel_used parent) 0 < share then Inl (CE_rule ''over-allocation'')
          else Inr (share, share))
      else if granted_fuel = JNull then Inl (CE_rule ''granted_fuel'')
      else rbind (index_min 0 granted_fuel ''granted_fuel'') (\<lambda>fuel. Inr (fuel, 0)))"

definition child_obligation :: "ObligationOpening \<Rightarrow> Account \<Rightarrow> contract_error + Obligation" where
  "child_obligation opening parent =
     make_Obligation (JStr (oo_obligation_id opening)) (JStr (og_mission_id (oa_obligation parent)))
       (JList (map JStr (oo_requirement_refs opening))) (JStr (gl_signature_id (oo_goal_signature opening))) (JObj [])
       (JStr (og_scope (oa_obligation parent)))
       (case oo_authorization_ref opening of
          None \<Rightarrow> json_opt (og_authority_ref (oa_obligation parent)) | Some r \<Rightarrow> JStr (r_id r))
       (JStr ''required'')
       (json_opt (if oo_budget_inheritance opening = BI_SEPARATE_GRANT then oo_grant_ref opening
                  else og_budget_lineage_ref (oa_obligation parent)))
       None (JStr ''UNSATISFIED'') JNull (JStr (oo_parent_obligation_id opening))"

definition open_from ::
  "ObligationLedger \<Rightarrow> ObligationOpening \<Rightarrow> ObligationAccountView \<Rightarrow> json
    \<Rightarrow> contract_error + (ObligationAccountView \<times> ObligationLedger)" where
  "open_from L opening parent_account granted_fuel =
     (if av_obligation_id parent_account \<noteq> oo_parent_obligation_id opening then Inl (CE_rule ''another account'')
      else
        rbind (require_account L (oo_parent_obligation_id opening)) (\<lambda>parent.
        if view_of parent \<noteq> parent_account then Inl (CE_rule ''stale account'')
        else if oo_obligation_id opening \<in> set (dict_keys (ol_accounts L)) then Inl (CE_rule ''already registered'')
        else if oa_lifecycle parent \<noteq> OL_UNSATISFIED then Inl (CE_rule ''parent is closed'')
        else
          rbind (opening_fuel opening parent granted_fuel) (\<lambda>(fuel, share).
          rbind (child_obligation opening parent) (\<lambda>child.
          let L1 = put_account (oo_parent_obligation_id opening) (parent\<lparr>oa_fuel_limit := oa_fuel_limit parent - share\<rparr>) L;
              L2 = put_account (oo_obligation_id opening) (new_account child fuel) L1
          in rbind (obligation_account L2 (oo_obligation_id opening)) (\<lambda>view. Inr (view, L2))))))"

definition update_account ::
  "ObligationLedger \<Rightarrow> string \<Rightarrow> (Account \<Rightarrow> contract_error + Account) \<Rightarrow> contract_error + (ObligationAccountView \<times> ObligationLedger)" where
  "update_account L target f =
     rbind (require_account L target) (\<lambda>a. rbind (f a) (\<lambda>a'. Inr (view_of a', put_account target a' L)))"

definition record_failure :: "ObligationLedger \<Rightarrow> string \<Rightarrow> json \<Rightarrow> contract_error + (int \<times> ObligationLedger)" where
  "record_failure L target count =
     rbind (update_account L target (\<lambda>a.
       rbind (index_min 1 count ''count'') (\<lambda>n. Inr (a\<lparr>oa_failure_count := oa_failure_count a + n\<rparr>)))) (\<lambda>(v, L').
     Inr (av_failure_count v, L'))"

definition record_spend ::
  "ObligationLedger \<Rightarrow> string \<Rightarrow> json \<Rightarrow> json \<Rightarrow> json \<Rightarrow> contract_error + (ObligationAccountView \<times> ObligationLedger)" where
  "record_spend L target cost_micros attempts tokens =
     update_account L target (\<lambda>a.
       rbind (index_min 0 cost_micros ''cost_micros'') (\<lambda>spent.
       rbind (index_min 0 attempts ''attempts'') (\<lambda>tries.
       rbind (index_min 0 tokens ''tokens'') (\<lambda>spent_tokens.
       Inr (a\<lparr>oa_consumed_cost_micros := oa_consumed_cost_micros a + spent,
              oa_consumed_attempts := oa_consumed_attempts a + tries,
              oa_consumed_tokens := oa_consumed_tokens a + spent_tokens\<rparr>)))))"

definition admit_demand :: "ObligationLedger \<Rightarrow> string \<Rightarrow> contract_error + (ObligationAccountView \<times> ObligationLedger)" where
  "admit_demand L target =
     update_account L target (\<lambda>a.
       if oa_lifecycle a \<noteq> OL_UNSATISFIED then Inl (CE_rule ''closed'')
       else if oa_demand_admitted a then Inl (CE_rule ''already admitted'')
       else Inr (a\<lparr>oa_demand_admitted := True\<rparr>))"

definition withdraw_demand :: "ObligationLedger \<Rightarrow> string \<Rightarrow> contract_error + (ObligationAccountView \<times> ObligationLedger)" where
  "withdraw_demand L target =
     update_account L target (\<lambda>a.
       if \<not> oa_demand_admitted a then Inl (CE_rule ''no demand'') else Inr (a\<lparr>oa_demand_admitted := False\<rparr>))"

definition note_shape_change ::
  "ObligationLedger \<Rightarrow> string \<Rightarrow> json \<Rightarrow> json \<Rightarrow> contract_error + (ObligationAccountView \<times> ObligationLedger)" where
  "note_shape_change L target change detail =
     update_account L target (\<lambda>a.
       rbind (decode_enum all_ShapeChange str_ShapeChange change ''shape_change'') (\<lambda>c.
       rbind (text_limit 512 detail ''detail'') (\<lambda>d.
       Inr (a\<lparr>oa_shape_changes := oa_shape_changes a @ [(c, d)]\<rparr>))))"

definition set_lifecycle ::
  "ObligationLedger \<Rightarrow> string \<Rightarrow> json \<Rightarrow> json \<Rightarrow> contract_error + (ObligationAccountView \<times> ObligationLedger)" where
  "set_lifecycle L target lifecycle resolution_ref =
     update_account L target (\<lambda>a.
       rbind (decode_enum all_ObligationLifecycle str_ObligationLifecycle lifecycle ''lifecycle'') (\<lambda>l.
       rbind (optional_identifier resolution_ref ''resolution_ref'') (\<lambda>reference.
       if l = OL_SATISFIED \<and> reference = None then Inl (CE_rule ''resolution_ref'')
       else Inr (a\<lparr>oa_lifecycle := l,
                    oa_resolution_ref := (case reference of None \<Rightarrow> oa_resolution_ref a | Some r \<Rightarrow> Some r)\<rparr>))))"

definition consume_fuel ::
  "ObligationLedger \<Rightarrow> string \<Rightarrow> ExpansionRecord \<Rightarrow> contract_error + (FuelDecision \<times> ObligationLedger)" where
  "consume_fuel L target expansion =
     rbind (require_account L target) (\<lambda>a.
     if expansion_key expansion \<in> set (oa_expansion_keys a)
     then Inr (\<lparr>fd_status = FS_REPEATED_EXPANSION, fd_remaining_fuel = max (oa_fuel_limit a - oa_fuel_used a) 0\<rparr>, L)
     else if oa_fuel_limit a \<le> oa_fuel_used a
     then Inr (\<lparr>fd_status = FS_BOUND_REACHED, fd_remaining_fuel = 0\<rparr>, L)
     else
       let a' = a\<lparr>oa_fuel_used := oa_fuel_used a + 1, oa_expansion_keys := oa_expansion_keys a @ [expansion_key expansion]\<rparr>
       in Inr (\<lparr>fd_status = FS_GRANTED, fd_remaining_fuel = max (oa_fuel_limit a' - oa_fuel_used a') 0\<rparr>, put_account target a' L))"

definition remaining_fuel :: "ObligationLedger \<Rightarrow> string \<Rightarrow> contract_error + int" where
  "remaining_fuel L target = rbind (require_account L target) (\<lambda>a. Inr (max (oa_fuel_limit a - oa_fuel_used a) 0))"

definition expansion_keys :: "ObligationLedger \<Rightarrow> string \<Rightarrow> contract_error + (string \<times> string) list" where
  "expansion_keys L target = rbind (require_account L target) (\<lambda>a. Inr (oa_expansion_keys a))"

definition shape_changes :: "ObligationLedger \<Rightarrow> string \<Rightarrow> contract_error + (ShapeChange \<times> string) list" where
  "shape_changes L target = rbind (require_account L target) (\<lambda>a. Inr (oa_shape_changes a))"

section \<open>Reports\<close>

record BoundReachedReport =
  br_obligation_id :: string
  br_expansions :: "(string \<times> string) list"
  br_open_child_obligation_ids :: "string list"
  br_reason :: string

definition make_BoundReachedReport ::
  "json \<Rightarrow> (string \<times> string) list \<Rightarrow> json \<Rightarrow> string \<Rightarrow> contract_error + BoundReachedReport" where
  "make_BoundReachedReport oid expansions children reason =
     rbind (identifier_of oid ''report.obligation_id'') (\<lambda>oid'.
     rbind (ids_of children ''report.open_child_obligation_ids'') (\<lambda>children'.
     Inr \<lparr>br_obligation_id = oid', br_expansions = expansions, br_open_child_obligation_ids = children', br_reason = reason\<rparr>))"

definition BoundReachedReport_to_json :: "BoundReachedReport \<Rightarrow> json" where
  "BoundReachedReport_to_json r =
     JObj [(''status'', JStr ''BOUND_REACHED''), (''obligation_id'', JStr (br_obligation_id r)),
           (''expansions'', JList (map (\<lambda>(m, d). JList [JStr m, JStr d]) (br_expansions r))),
           (''open_child_obligation_ids'', JList (map JStr (br_open_child_obligation_ids r))),
           (''reason'', JStr (br_reason r))]"

fun funding_loop :: "(string \<times> string) list \<Rightarrow> Obligation list \<Rightarrow> string list" where
  "funding_loop seen [] = []"
| "funding_loop seen (duty # duties) =
     (case og_budget_lineage_ref duty of
        None \<Rightarrow> funding_loop seen duties
      | Some lineage \<Rightarrow>
          let key = (og_goal_signature_id duty, lineage) in
          if key \<in> set seen then og_obligation_id duty # funding_loop seen duties
          else funding_loop (key # seen) duties)"

definition funding_owner_conflicts :: "Obligation list \<Rightarrow> string list" where
  "funding_owner_conflicts duties = funding_loop [] duties"

definition obligation_refs :: "json \<Rightarrow> string \<Rightarrow> contract_error + string list" where
  "obligation_refs = ids_of"

end
