(* ===== verification/Obligations_Correct.thy ===== *)
theory Obligations_Correct
  imports Obligations "HOL-Library.Sublist"
begin

text \<open>
  What the obligation ledger promises over any sequence of calls: fuel is handed around and never minted,
  no counter of a duty is ever reset, a duty that has reached its bound stays there, and the records decode
  to what was encoded.
\<close>

section \<open>Calls\<close>

datatype command =
    Register Obligation json
  | Open_from ObligationOpening ObligationAccountView json
  | Record_failure string json
  | Record_spend string json json json
  | Admit_demand string
  | Withdraw_demand string
  | Note_shape_change string json json
  | Set_lifecycle string json json
  | Consume_fuel string ExpansionRecord

definition keep_ledger :: "contract_error + ('a \<times> ObligationLedger) \<Rightarrow> contract_error + ObligationLedger" where
  "keep_ledger r = rbind r (\<lambda>(_, L). Inr L)"

fun apply_command :: "command \<Rightarrow> ObligationLedger \<Rightarrow> contract_error + ObligationLedger" where
  "apply_command (Register duty fuel) L = register L duty fuel"
| "apply_command (Open_from opening view fuel) L = keep_ledger (open_from L opening view fuel)"
| "apply_command (Record_failure t n) L = keep_ledger (record_failure L t n)"
| "apply_command (Record_spend t c a k) L = keep_ledger (record_spend L t c a k)"
| "apply_command (Admit_demand t) L = keep_ledger (admit_demand L t)"
| "apply_command (Withdraw_demand t) L = keep_ledger (withdraw_demand L t)"
| "apply_command (Note_shape_change t c d) L = keep_ledger (note_shape_change L t c d)"
| "apply_command (Set_lifecycle t l r) L = keep_ledger (set_lifecycle L t l r)"
| "apply_command (Consume_fuel t e) L = keep_ledger (consume_fuel L t e)"

text \<open>A refused call raises and leaves the ledger alone; the caller goes on.\<close>

definition submit :: "command \<Rightarrow> ObligationLedger \<Rightarrow> ObligationLedger" where
  "submit c L = (case apply_command c L of Inl _ \<Rightarrow> L | Inr L' \<Rightarrow> L')"

definition run_commands :: "command list \<Rightarrow> ObligationLedger \<Rightarrow> ObligationLedger" where
  "run_commands cs L = fold submit cs L"

text \<open>The fuel a call brings in from outside: a registration, or an opening under a separate grant.\<close>

fun json_int :: "json \<Rightarrow> int" where
  "json_int (JInt n) = n"
| "json_int _ = 0"

fun allowance :: "command \<Rightarrow> ObligationLedger \<Rightarrow> int" where
  "allowance (Register duty fuel) L = (if fuel = JNull then ol_default_fuel L else json_int fuel)"
| "allowance (Open_from opening view fuel) L = (if oo_budget_inheritance opening = BI_SEPARATE_GRANT then json_int fuel else 0)"
| "allowance _ L = 0"

fun fuel_brought_in :: "command list \<Rightarrow> ObligationLedger \<Rightarrow> int" where
  "fuel_brought_in [] L = 0"
| "fuel_brought_in (c # cs) L =
     (case apply_command c L of Inl _ \<Rightarrow> 0 | Inr _ \<Rightarrow> allowance c L) + fuel_brought_in cs (submit c L)"

definition limits_total :: "ObligationLedger \<Rightarrow> int" where
  "limits_total L = sum_list (map (\<lambda>(i, a). oa_fuel_limit a) (ol_accounts L))"

definition expansions_total :: "ObligationLedger \<Rightarrow> nat" where
  "expansions_total L = sum_list (map (\<lambda>(i, a). length (oa_expansion_keys a)) (ol_accounts L))"

section \<open>The effect of one call\<close>

text \<open>How an account may look after a call that names it.\<close>

definition succeeds :: "Account \<Rightarrow> Account \<Rightarrow> bool" where
  "succeeds a b \<longleftrightarrow>
     oa_obligation b = oa_obligation a \<and> oa_failure_count a \<le> oa_failure_count b \<and>
     oa_consumed_cost_micros a \<le> oa_consumed_cost_micros b \<and> oa_consumed_attempts a \<le> oa_consumed_attempts b \<and>
     oa_consumed_tokens a \<le> oa_consumed_tokens b \<and> prefix (oa_shape_changes a) (oa_shape_changes b) \<and>
     prefix (oa_expansion_keys a) (oa_expansion_keys b) \<and> oa_fuel_used a \<le> oa_fuel_used b \<and> oa_fuel_limit b \<le> oa_fuel_limit a"

lemma succeeds_refl: "succeeds a a"
  by (simp add: succeeds_def)

lemma succeeds_trans: "succeeds a b \<Longrightarrow> succeeds b c \<Longrightarrow> succeeds a c"
  by (auto simp: succeeds_def intro: prefix_order.trans)

definition same_fuel :: "Account \<Rightarrow> Account \<Rightarrow> bool" where
  "same_fuel a b \<longleftrightarrow> oa_fuel_limit b = oa_fuel_limit a \<and> oa_fuel_used b = oa_fuel_used a \<and> oa_expansion_keys b = oa_expansion_keys a"

inductive moved :: "int \<Rightarrow> ObligationLedger \<Rightarrow> ObligationLedger \<Rightarrow> bool" where
  opened: "i \<notin> set (dict_keys (ol_accounts L)) \<Longrightarrow> 0 \<le> fuel \<Longrightarrow> og_obligation_id duty = i \<Longrightarrow>
     moved fuel L (put_account i (new_account duty fuel) L)"
| opened_under: "map_of (ol_accounts L) p = Some a \<Longrightarrow> i \<notin> set (dict_keys (ol_accounts L)) \<Longrightarrow> 0 \<le> fuel \<Longrightarrow>
     og_obligation_id duty = i \<Longrightarrow> 0 \<le> share \<Longrightarrow> share \<le> max (oa_fuel_limit a - oa_fuel_used a) 0 \<Longrightarrow>
     moved (fuel - share) L (put_account i (new_account duty fuel) (put_account p (a\<lparr>oa_fuel_limit := oa_fuel_limit a - share\<rparr>) L))"
| updated: "map_of (ol_accounts L) t = Some a \<Longrightarrow> succeeds a b \<Longrightarrow> same_fuel a b \<Longrightarrow> moved 0 L (put_account t b L)"
| expanded: "map_of (ol_accounts L) t = Some a \<Longrightarrow> key \<notin> set (oa_expansion_keys a) \<Longrightarrow> oa_fuel_used a < oa_fuel_limit a \<Longrightarrow>
     moved 0 L (put_account t (a\<lparr>oa_fuel_used := oa_fuel_used a + 1, oa_expansion_keys := oa_expansion_keys a @ [key]\<rparr>) L)"
| unmoved: "moved 0 L L"

inductive_cases movedE: "moved g L L'"

lemma require_account_ok [result_simps]: "require_account L t = Inr a \<longleftrightarrow> map_of (ol_accounts L) t = Some a"
  by (auto simp: require_account_def split: option.splits)

lemma update_account_ok:
  "update_account L t f = Inr (v, L') \<longleftrightarrow>
     (\<exists>a b. map_of (ol_accounts L) t = Some a \<and> f a = Inr b \<and> v = view_of b \<and> L' = put_account t b L)"
  by (auto simp: update_account_def result_simps)

lemma update_moves:
  assumes "keep_ledger (update_account L t f) = Inr L'" and "\<And>a b. f a = Inr b \<Longrightarrow> succeeds a b \<and> same_fuel a b"
  shows "moved 0 L L'"
proof -
  from assms(1) obtain a b where "map_of (ol_accounts L) t = Some a" "f a = Inr b" "L' = put_account t b L"
    by (auto simp: keep_ledger_def rbind_Inr_iff update_account_ok)
  with assms(2) show ?thesis by (auto intro: moved.updated)
qed

lemma make_Obligation_id:
  "make_Obligation (JStr oid) m r g ps s au rq l pol lc res par = Inr x \<Longrightarrow> og_obligation_id x = oid"
  by (auto simp: make_Obligation_def rbind_Inr_iff identifier_ok guard_Inr_iff)

lemma opening_fuel_ok:
  "opening_fuel opening a granted_fuel = Inr (fuel, share) \<Longrightarrow>
     0 \<le> fuel \<and> 0 \<le> share \<and> share \<le> max (oa_fuel_limit a - oa_fuel_used a) 0 \<and>
     (oo_budget_inheritance opening = BI_SEPARATE_GRANT \<longrightarrow> fuel - share = json_int granted_fuel) \<and>
     (oo_budget_inheritance opening \<noteq> BI_SEPARATE_GRANT \<longrightarrow> fuel = share)"
  by (cases "oo_budget_inheritance opening")
    (auto simp: opening_fuel_def rbind_Inr_iff index_min_ok guard_Inr_iff split: if_splits option.splits)

lemma open_from_moves:
  assumes "keep_ledger (open_from L opening view granted_fuel) = Inr L'"
  shows "moved (allowance (Open_from opening view granted_fuel) L) L L'"
proof -
  from assms obtain a fuel share child where
    a: "map_of (ol_accounts L) (oo_parent_obligation_id opening) = Some a"
    and fresh: "oo_obligation_id opening \<notin> set (dict_keys (ol_accounts L))"
    and fuel: "opening_fuel opening a granted_fuel = Inr (fuel, share)"
    and child: "child_obligation opening a = Inr child"
    and L': "L' = put_account (oo_obligation_id opening) (new_account child fuel)
        (put_account (oo_parent_obligation_id opening) (a\<lparr>oa_fuel_limit := oa_fuel_limit a - share\<rparr>) L)"
    by (auto simp: keep_ledger_def open_from_def result_simps guard_Inr_iff Let_def)
  have "og_obligation_id child = oo_obligation_id opening"
    using child make_Obligation_id by (simp add: child_obligation_def)
  with opening_fuel_ok[OF fuel] moved.opened_under[OF a fresh, of fuel child share] L' show ?thesis
    by (auto split: if_splits)
qed

lemma consume_moves:
  assumes "keep_ledger (consume_fuel L t e) = Inr L'"
  shows "moved 0 L L'"
  using assms
  by (auto simp: keep_ledger_def consume_fuel_def result_simps Let_def split: if_splits intro: moved.unmoved moved.expanded)

lemma record_failure_update:
  "keep_ledger (record_failure L t n) =
     keep_ledger (update_account L t (\<lambda>a. rbind (index_min 1 n ''count'') (\<lambda>n. Inr (a\<lparr>oa_failure_count := oa_failure_count a + n\<rparr>))))"
  by (cases "update_account L t (\<lambda>a. rbind (index_min 1 n ''count'') (\<lambda>n. Inr (a\<lparr>oa_failure_count := oa_failure_count a + n\<rparr>)))")
    (auto simp: record_failure_def keep_ledger_def)

lemma command_moves:
  assumes "apply_command c L = Inr L'" and "0 \<le> ol_default_fuel L"
  shows "moved (allowance c L) L L'"
proof (cases c)
  case (Register duty fuel)
  with assms show ?thesis
    by (auto simp: register_def register_fuel_def result_simps split: if_splits intro!: moved.opened)
next
  case (Open_from op view fuel)
  with assms open_from_moves show ?thesis by simp
next
  case (Record_failure t n)
  with assms have "keep_ledger (record_failure L t n) = Inr L'" by simp
  then show ?thesis unfolding Record_failure record_failure_update
    by (auto elim!: update_moves simp: result_simps succeeds_def same_fuel_def)
next
  case (Record_spend t c a k)
  with assms show ?thesis
    by (auto simp: record_spend_def elim!: update_moves simp: result_simps succeeds_def same_fuel_def)
next
  case (Admit_demand t)
  with assms show ?thesis
    by (auto simp: admit_demand_def elim!: update_moves simp: succeeds_def same_fuel_def split: if_splits)
next
  case (Withdraw_demand t)
  with assms show ?thesis
    by (auto simp: withdraw_demand_def elim!: update_moves simp: succeeds_def same_fuel_def split: if_splits)
next
  case (Note_shape_change t c d)
  with assms show ?thesis
    by (auto simp: note_shape_change_def elim!: update_moves simp: result_simps succeeds_def same_fuel_def)
next
  case (Set_lifecycle t l r)
  with assms show ?thesis
    by (auto simp: set_lifecycle_def elim!: update_moves simp: result_simps succeeds_def same_fuel_def guard_Inr_iff)
next
  case (Consume_fuel t e)
  with assms consume_moves show ?thesis by simp
qed

section \<open>Invariant and progress\<close>

definition account_ok :: "string \<Rightarrow> Account \<Rightarrow> bool" where
  "account_ok i a \<longleftrightarrow>
     og_obligation_id (oa_obligation a) = i \<and> 0 \<le> oa_fuel_used a \<and> oa_fuel_used a \<le> oa_fuel_limit a \<and>
     int (length (oa_expansion_keys a)) = oa_fuel_used a \<and> distinct (oa_expansion_keys a)"

definition ledger_ok :: "ObligationLedger \<Rightarrow> bool" where
  "ledger_ok L \<longleftrightarrow> distinct (dict_keys (ol_accounts L)) \<and> 0 \<le> ol_default_fuel L \<and>
     (\<forall>i a. map_of (ol_accounts L) i = Some a \<longrightarrow> account_ok i a)"

lemma put_account_simps [simp]:
  "map_of (ol_accounts (put_account i a L)) = (map_of (ol_accounts L))(i \<mapsto> a)"
  "ol_default_fuel (put_account i a L) = ol_default_fuel L"
  by (simp_all add: put_account_def)

lemma put_account_distinct:
  "distinct (dict_keys (ol_accounts L)) \<Longrightarrow> distinct (dict_keys (ol_accounts (put_account i a L)))"
  by (simp add: put_account_def distinct_update)

lemma limits_total_put:
  "distinct (dict_keys (ol_accounts L)) \<Longrightarrow>
     limits_total (put_account i a L) =
       limits_total L + oa_fuel_limit a - (case map_of (ol_accounts L) i of None \<Rightarrow> 0 | Some old \<Rightarrow> oa_fuel_limit old)"
  by (simp add: limits_total_def put_account_def sum_dict_set split: option.splits)

lemma new_account_ok: "0 \<le> fuel \<Longrightarrow> og_obligation_id duty = i \<Longrightarrow> account_ok i (new_account duty fuel)"
  by (simp add: account_ok_def new_account_def)

lemma ledger_ok_put: "ledger_ok L \<Longrightarrow> account_ok i a \<Longrightarrow> ledger_ok (put_account i a L)"
  by (auto simp: ledger_ok_def put_account_distinct)

lemma moved_invariant:
  assumes "moved g L L'" and "ledger_ok L"
  shows "ledger_ok L' \<and> limits_total L' = limits_total L + g"
  using assms
proof cases
  case (opened i duty)
  then have "map_of (ol_accounts L) i = None" by (simp add: map_of_eq_None_iff)
  moreover have "ledger_ok L'" using opened assms(2) by (simp add: ledger_ok_put new_account_ok)
  ultimately show ?thesis
    using opened assms(2) by (simp add: limits_total_put ledger_ok_def new_account_def)
next
  case (opened_under p a i fuel duty share)
  let ?a = "a\<lparr>oa_fuel_limit := oa_fuel_limit a - share\<rparr>"
  from opened_under assms(2) have ok: "account_ok p a" and d: "distinct (dict_keys (ol_accounts L))" by (auto simp: ledger_ok_def)
  with opened_under have "account_ok p ?a" by (auto simp: account_ok_def)
  with assms(2) opened_under have "ledger_ok L'" by (simp add: ledger_ok_put new_account_ok)
  moreover from opened_under have none: "map_of (ol_accounts L) i = None" by (simp add: map_of_eq_None_iff)
  moreover from none opened_under have "i \<noteq> p" by auto
  ultimately show ?thesis
    using opened_under d by (simp add: limits_total_put put_account_distinct new_account_def)
next
  case (updated t a b)
  then show ?thesis using assms(2)
    by (auto simp: limits_total_put ledger_ok_def put_account_distinct same_fuel_def account_ok_def succeeds_def)
next
  case (expanded t a key)
  then show ?thesis using assms(2)
    by (auto simp: limits_total_put ledger_ok_def put_account_distinct account_ok_def)
next
  case unmoved
  with assms(2) show ?thesis by simp
qed

lemma moved_succeeds:
  assumes "moved g L L'" and "map_of (ol_accounts L) i = Some a"
  shows "\<exists>b. map_of (ol_accounts L') i = Some b \<and> succeeds a b"
  using assms
proof cases
  case (opened j duty)
  then have "map_of (ol_accounts L) j = None" by (simp add: map_of_eq_None_iff)
  with opened assms(2) show ?thesis by (auto simp: succeeds_refl)
next
  case (opened_under p a' j fuel duty share)
  from opened_under assms(2) have "j \<noteq> i" by (auto dest: map_of_SomeD intro: rev_image_eqI)
  with opened_under assms(2) show ?thesis by (auto simp: succeeds_def)
next
  case (updated t a' b)
  with assms(2) show ?thesis by (auto simp: succeeds_refl)
next
  case (expanded t a' key)
  with assms(2) show ?thesis by (auto simp: succeeds_def)
qed (use assms(2) succeeds_refl in auto)

lemma moved_default: "moved g L L' \<Longrightarrow> ol_default_fuel L' = ol_default_fuel L"
  by (erule moved.cases) simp_all

lemma submit_moves:
  assumes "0 \<le> ol_default_fuel L"
  shows "moved (case apply_command c L of Inl _ \<Rightarrow> 0 | Inr _ \<Rightarrow> allowance c L) L (submit c L)"
  using command_moves[OF _ assms] by (auto simp: submit_def moved.unmoved split: sum.splits)

lemma run_commands_simps [simp]:
  "run_commands [] L = L" "run_commands (c # cs) L = run_commands cs (submit c L)"
  "run_commands (cs @ ds) L = run_commands ds (run_commands cs L)"
  by (simp_all add: run_commands_def)

lemma run_invariant:
  "ledger_ok L \<Longrightarrow> ledger_ok (run_commands cs L) \<and> limits_total (run_commands cs L) = limits_total L + fuel_brought_in cs L"
proof (induction cs arbitrary: L)
  case (Cons c cs)
  then have "0 \<le> ol_default_fuel L" by (simp add: ledger_ok_def)
  from moved_invariant[OF submit_moves[OF this, of c] Cons.prems] Cons.IH[of "submit c L"] show ?case by simp
qed simp

lemma run_succeeds:
  "0 \<le> ol_default_fuel L \<Longrightarrow> map_of (ol_accounts L) i = Some a \<Longrightarrow>
     \<exists>b. map_of (ol_accounts (run_commands cs L)) i = Some b \<and> succeeds a b"
proof (induction cs arbitrary: L a)
  case (Cons c cs)
  note m = submit_moves[OF Cons.prems(1), of c]
  from moved_succeeds[OF m Cons.prems(2)] obtain b where b: "map_of (ol_accounts (submit c L)) i = Some b" "succeeds a b" by blast
  from Cons.IH[of "submit c L", OF _ b(1)] moved_default[OF m] Cons.prems(1) b(2) show ?case by (auto intro: succeeds_trans)
qed (simp add: succeeds_refl)

lemma new_ledger_ok: "new_obligation_ledger d = Inr L \<Longrightarrow> ledger_ok L \<and> limits_total L = 0"
  by (auto simp: new_obligation_ledger_def ledger_ok_def limits_total_def split: json.splits if_splits)

lemma expansions_within_limits: "ledger_ok L \<Longrightarrow> int (expansions_total L) \<le> limits_total L"
proof -
  assume ok: "ledger_ok L"
  have "int (sum_list (map (\<lambda>(i, a). length (oa_expansion_keys a)) xs)) \<le> sum_list (map (\<lambda>(i, a). oa_fuel_limit a) xs)"
    if "\<forall>(i, a)\<in>set xs. account_ok i a" for xs :: "(string \<times> Account) list"
    using that by (induction xs) (auto simp: account_ok_def)
  moreover from ok have "\<forall>(i, a)\<in>set (ol_accounts L). account_ok i a" by (auto simp: ledger_ok_def)
  ultimately show ?thesis unfolding expansions_total_def limits_total_def by blast
qed

text \<open>C25. Decomposition redistributes fuel and never creates any. After any sequence of calls on a new ledger,
  refused ones included, the fuel limits of all duties add up to what registrations and separate grants
  brought in, no more expansions have been granted in the whole ledger than that, and each duty has spent
  exactly one unit of its own limit per distinct expansion it was granted.\<close>

theorem obligation_fuel_conserved:
  assumes "new_obligation_ledger default_fuel = Inr L0" and "L = run_commands cs L0"
  shows "limits_total L = fuel_brought_in cs L0 \<and> int (expansions_total L) \<le> fuel_brought_in cs L0 \<and>
    (\<forall>i a. map_of (ol_accounts L) i = Some a \<longrightarrow>
       og_obligation_id (oa_obligation a) = i \<and> distinct (oa_expansion_keys a) \<and>
       oa_fuel_used a = int (length (oa_expansion_keys a)) \<and> oa_fuel_used a \<le> oa_fuel_limit a)"
proof -
  from new_ledger_ok[OF assms(1)] run_invariant[of L0 cs] assms(2)
  have ok: "ledger_ok L" and t: "limits_total L = fuel_brought_in cs L0" by auto
  from ok have "\<forall>i a. map_of (ol_accounts L) i = Some a \<longrightarrow> account_ok i a" by (simp add: ledger_ok_def)
  with t expansions_within_limits[OF ok] show ?thesis by (auto simp: account_ok_def)
qed

definition sample_duty :: "string \<Rightarrow> Obligation" where
  "sample_duty i = \<lparr>og_obligation_id = i, og_mission_id = ''m'', og_requirement_refs = [''r''], og_goal_signature_id = ''g'',
     og_parameters = [], og_scope = ''mission'', og_authority_ref = None, og_requiredness = RQ_REQUIRED,
     og_budget_lineage_ref = Some ''b'', og_satisfaction_policy = None, og_lifecycle = OL_UNSATISFIED,
     og_resolution_ref = None, og_parent_obligation_id = None\<rparr>"

definition sample_hash :: string where
  "sample_hash = replicate 64 (CHR ''a'')"

definition sample_opening :: ObligationOpening where
  "sample_opening = \<lparr>oo_obligation_id = ''c'', oo_parent_obligation_id = ''p'', oo_relation = RL_REFINES_PARENT,
     oo_requirement_refs = [''r''],
     oo_goal_signature = \<lparr>gl_signature_id = ''g2'', gl_version = 1,
       gl_parameter_schema_ref = \<lparr>vr_id = ''s'', vr_version = 1, vr_content_hash = sample_hash\<rparr>,
       gl_output_schema_ref = \<lparr>vr_id = ''s'', vr_version = 1, vr_content_hash = sample_hash\<rparr>,
       gl_statement = ''do it'', gl_coverage_criteria = []\<rparr>,
     oo_budget_inheritance = BI_INHERIT_PARENT_FUEL_SHARE, oo_fuel_share = Some 2, oo_grant_ref = None,
     oo_authorization_ref = None, oo_opened_by = PV_SYSTEM\<rparr>"

definition sample_expansion :: "string \<Rightarrow> ExpansionRecord" where
  "sample_expansion m = \<lparr>ex_method_id = m, ex_parameters_digest = ''d'', ex_task_id = None\<rparr>"

text \<open>Three units registered; two go to a child against the view read after the registration; the parent's
  second expansion finds no fuel.\<close>

definition sample_commands :: "command list" where
  "sample_commands =
     [Register (sample_duty ''p'') JNull, Open_from sample_opening (view_of (new_account (sample_duty ''p'') 3)) JNull,
      Consume_fuel ''p'' (sample_expansion ''m1''), Consume_fuel ''p'' (sample_expansion ''m2''),
      Consume_fuel ''c'' (sample_expansion ''m1''), Record_failure ''p'' (JInt 2)]"

definition sample_start :: ObligationLedger where
  "sample_start = \<lparr>ol_default_fuel = 3, ol_accounts = []\<rparr>"

lemma sample_started: "new_obligation_ledger (JInt 3) = Inr sample_start"
  by (simp add: new_obligation_ledger_def sample_start_def)

lemma obligation_fuel_conserved_witness:
  "limits_total (run_commands sample_commands sample_start) = 3 \<and> expansions_total (run_commands sample_commands sample_start) = 2 \<and>
   fuel_brought_in sample_commands sample_start = 3"
proof -
  have "fuel_brought_in sample_commands sample_start = 3" "expansions_total (run_commands sample_commands sample_start) = 2"
    by code_simp+
  with obligation_fuel_conserved[OF sample_started refl, of sample_commands] show ?thesis by simp
qed

text \<open>Re-planning never resets a duty. Whatever calls follow, a registered duty stays registered as the
  same obligation, its failures, spend and used fuel never decrease, its expansions and shape changes are
  only appended to, and its fuel limit never grows.\<close>

theorem replanning_never_resets:
  assumes "new_obligation_ledger default_fuel = Inr L0" and "map_of (ol_accounts (run_commands cs L0)) i = Some a"
  shows "\<exists>b. map_of (ol_accounts (run_commands (cs @ ds) L0)) i = Some b \<and> oa_obligation b = oa_obligation a \<and>
    oa_failure_count a \<le> oa_failure_count b \<and> oa_consumed_cost_micros a \<le> oa_consumed_cost_micros b \<and>
    oa_consumed_attempts a \<le> oa_consumed_attempts b \<and> oa_consumed_tokens a \<le> oa_consumed_tokens b \<and>
    prefix (oa_expansion_keys a) (oa_expansion_keys b) \<and> prefix (oa_shape_changes a) (oa_shape_changes b) \<and>
    oa_fuel_used a \<le> oa_fuel_used b \<and> oa_fuel_limit b \<le> oa_fuel_limit a"
proof -
  have "ledger_ok (run_commands cs L0)" using new_ledger_ok[OF assms(1)] run_invariant by blast
  then have "0 \<le> ol_default_fuel (run_commands cs L0)" by (simp add: ledger_ok_def)
  from run_succeeds[OF this assms(2), of ds] show ?thesis by (auto simp: succeeds_def)
qed

lemma replanning_never_resets_witness:
  "\<exists>b. map_of (ol_accounts (run_commands (sample_commands @ [Note_shape_change ''p'' (JStr ''method_switched'') (JStr ''retry'')]) sample_start))
       ''p'' = Some b \<and> 2 \<le> oa_failure_count b \<and> 1 \<le> oa_fuel_used b \<and> oa_fuel_limit b \<le> 1"
proof -
  have "case map_of (ol_accounts (run_commands sample_commands sample_start)) ''p'' of
      None \<Rightarrow> False | Some a \<Rightarrow> oa_failure_count a = 2 \<and> oa_fuel_used a = 1 \<and> oa_fuel_limit a = 1" by code_simp
  then obtain a where "map_of (ol_accounts (run_commands sample_commands sample_start)) ''p'' = Some a"
    and "oa_failure_count a = 2" "oa_fuel_used a = 1" "oa_fuel_limit a = 1" by (auto split: option.splits)
  with replanning_never_resets[OF sample_started this(1), of "[Note_shape_change ''p'' (JStr ''method_switched'') (JStr ''retry'')]"]
  show ?thesis by auto
qed

text \<open>A reached bound is final. Once \<open>consume_fuel\<close> has answered BOUND_REACHED for a duty, then after any
  further calls no expansion of it is granted again, its remaining fuel is zero, and the generic
  \<open>achieve_outcome\<close> capability is not admitted for it, whoever selects it.\<close>

theorem bound_reached_is_final:
  assumes "new_obligation_ledger default_fuel = Inr L0" and "consume_fuel (run_commands cs L0) i e = Inr (d, L)"
    and "fd_status d = FS_BOUND_REACHED"
  shows "let L' = run_commands ds L in
     remaining_fuel L' i = Inr 0 \<and>
     (\<exists>d'. consume_fuel L' i e' = Inr (d', L') \<and> \<not> granted d') \<and>
     (\<exists>v. obligation_account L' i = Inr v \<and> \<not> outcome_allowed (achieve_outcome_admission v selected_by))"
proof -
  from assms(2,3) obtain a where L: "L = run_commands cs L0" and a: "map_of (ol_accounts L) i = Some a"
    and out: "oa_fuel_limit a \<le> oa_fuel_used a"
    by (auto simp: consume_fuel_def result_simps Let_def split: if_splits)
  have "ledger_ok L" using new_ledger_ok[OF assms(1)] run_invariant L by blast
  then have "0 \<le> ol_default_fuel L" by (simp add: ledger_ok_def)
  from run_succeeds[OF this a, of ds] obtain b where
    b: "map_of (ol_accounts (run_commands ds L)) i = Some b" and s: "succeeds a b" by blast
  from s out have out': "oa_fuel_limit b \<le> oa_fuel_used b" by (auto simp: succeeds_def)
  have "require_account (run_commands ds L) i = Inr b" using b by (simp add: require_account_ok)
  with out' show ?thesis
    by (auto simp: Let_def remaining_fuel_def consume_fuel_def obligation_account_def granted_def outcome_allowed_def
        achieve_outcome_admission_def av_remaining_fuel_def view_of_def)
qed

lemma bound_reached_is_final_witness:
  "remaining_fuel (run_commands [Set_lifecycle ''p'' (JStr ''UNSATISFIED'') JNull] (run_commands sample_commands sample_start)) ''p'' = Inr 0"
proof -
  have "case consume_fuel (run_commands sample_commands sample_start) ''p'' (sample_expansion ''m3'') of
      Inl _ \<Rightarrow> False | Inr (d, L) \<Rightarrow> fd_status d = FS_BOUND_REACHED" by code_simp
  then obtain d L where c: "consume_fuel (run_commands sample_commands sample_start) ''p'' (sample_expansion ''m3'') = Inr (d, L)"
    and d: "fd_status d = FS_BOUND_REACHED" by (auto split: sum.splits)
  from c d have "L = run_commands sample_commands sample_start"
    by (auto simp: consume_fuel_def rbind_Inr_iff Let_def split: if_splits)
  with bound_reached_is_final[OF sample_started c d, of "[Set_lifecycle ''p'' (JStr ''UNSATISFIED'') JNull]"]
  show ?thesis by (simp add: Let_def)
qed

section \<open>Codecs\<close>

interpretation requiredness_enum: str_enum all_Requiredness str_Requiredness
proof unfold_locales
  show "x \<in> set all_Requiredness" for x by (cases x) (simp_all add: all_Requiredness_def)
  show "str_Requiredness x = str_Requiredness y \<Longrightarrow> x = y" for x y by (cases x; cases y) simp_all
qed

interpretation obligation_lifecycle_enum: str_enum all_ObligationLifecycle str_ObligationLifecycle
proof unfold_locales
  show "x \<in> set all_ObligationLifecycle" for x by (cases x) (simp_all add: all_ObligationLifecycle_def)
  show "str_ObligationLifecycle x = str_ObligationLifecycle y \<Longrightarrow> x = y" for x y by (cases x; cases y) simp_all
qed

interpretation relation_enum: str_enum all_ObligationRelation str_ObligationRelation
proof unfold_locales
  show "x \<in> set all_ObligationRelation" for x by (cases x) (simp_all add: all_ObligationRelation_def)
  show "str_ObligationRelation x = str_ObligationRelation y \<Longrightarrow> x = y" for x y by (cases x; cases y) simp_all
qed

interpretation inheritance_enum: str_enum all_BudgetInheritance str_BudgetInheritance
proof unfold_locales
  show "x \<in> set all_BudgetInheritance" for x by (cases x) (simp_all add: all_BudgetInheritance_def)
  show "str_BudgetInheritance x = str_BudgetInheritance y \<Longrightarrow> x = y" for x y by (cases x; cases y) simp_all
qed

lemmas decode_iffs = requiredness_enum.decode_iff obligation_lifecycle_enum.decode_iff relation_enum.decode_iff
  inheritance_enum.decode_iff provenance_enum.decode_iff

lemma decode_optional_ok [result_simps]:
  "decode_optional v f = Inr x \<longleftrightarrow> (case x of None \<Rightarrow> v = JNull | Some y \<Rightarrow> v \<noteq> JNull \<and> f v = Inr y)"
  by (auto simp: decode_optional_def rbind_Inr_iff split: option.splits)

lemma json_opt_roundtrip [simp]: "optional_identifier v name = Inr x \<Longrightarrow> optional_identifier (json_opt x) name = Inr x"
  by (cases x) (auto simp: optional_identifier_ok json_opt_def identifier_ok)

lemma identifier_again: "identifier_limit l v name = Inr s \<Longrightarrow> identifier_limit l (JStr s) name' = Inr s"
  by (simp add: identifier_ok)

lemma ids_roundtrip [simp]: "identifiers l v name = Inr xs \<Longrightarrow> identifiers l (JList (map JStr xs)) name = Inr xs"
  by (simp add: identifiers_ok)

lemma SatisfactionPolicy_roundtrip:
  "SatisfactionPolicy_from_json v name = Inr p \<Longrightarrow> SatisfactionPolicy_from_json (SatisfactionPolicy_to_json p) name' = Inr p"
  by (auto simp: SatisfactionPolicy_from_json_def SatisfactionPolicy_to_json_def make_SatisfactionPolicy_def result_simps
      field_def dict_get_def)

lemma VersionedRef_roundtrip:
  "VersionedRef_from_json v name = Inr r \<Longrightarrow> VersionedRef_from_json (VersionedRef_to_json r) name' = Inr r"
  by (auto simp: VersionedRef_from_json_def VersionedRef_to_json_def make_VersionedRef_def result_simps field_def dict_get_def)

lemma GoalSignature_roundtrip:
  assumes "GoalSignature_from_json v name = Inr g"
  shows "GoalSignature_from_json (GoalSignature_to_json g) name' = Inr g"
proof -
  from assms obtain d params result coverage where
    "VersionedRef_from_json (field d ''parameter_schema_ref'') (name @ ''.parameter_schema_ref'') = Inr params"
    "VersionedRef_from_json (field d ''output_schema_ref'') (name @ ''.output_schema_ref'') = Inr result"
    and make: "make_GoalSignature (field d ''signature_id'') (field d ''version'') params result (field d ''statement'') (JList coverage) = Inr g"
    by (auto simp: GoalSignature_from_json_def rbind_Inr_iff)
  from this(1,2)[THEN VersionedRef_roundtrip] make show ?thesis
    by (auto simp: GoalSignature_from_json_def GoalSignature_to_json_def make_GoalSignature_def result_simps field_def dict_get_def)
qed

text \<open>An obligation the constructor accepts is rebuilt from its own fields.\<close>

lemma make_Obligation_again:
  assumes "make_Obligation oid m r g ps s au rq l pol lc res par = Inr x"
  shows "make_Obligation (JStr (og_obligation_id x)) (JStr (og_mission_id x)) (JList (map JStr (og_requirement_refs x)))
    (JStr (og_goal_signature_id x)) (JObj (og_parameters x)) (JStr (og_scope x)) (json_opt (og_authority_ref x))
    (JStr (str_Requiredness (og_requiredness x))) (json_opt (og_budget_lineage_ref x)) (og_satisfaction_policy x)
    (JStr (str_ObligationLifecycle (og_lifecycle x))) (json_opt (og_resolution_ref x)) (json_opt (og_parent_obligation_id x)) = Inr x"
  using assms
  by (auto simp: make_Obligation_def result_simps guard_Inr_iff decode_iffs json_object_again)

lemma Obligation_roundtrip:
  assumes "Obligation_from_json v name = Inr x"
  shows "Obligation_from_json (Obligation_to_json x) name' = Inr x"
proof -
  from assms obtain d reqs params policy where
    policy: "decode_optional (field d ''satisfaction_policy'')
      (\<lambda>raw. SatisfactionPolicy_from_json raw (name @ ''.satisfaction_policy'')) = Inr policy"
    and make: "make_Obligation (field d ''obligation_id'') (field d ''mission_id'') (JList reqs) (field d ''goal_signature_id'')
       (JObj params) (dict_get d ''scope'' (JStr ''mission'')) (field d ''authority_ref'')
       (dict_get d ''requiredness'' (JStr ''required'')) (field d ''budget_lineage_ref'') policy
       (dict_get d ''lifecycle'' (JStr ''UNSATISFIED'')) (field d ''resolution_ref'') (field d ''parent_obligation_id'') = Inr x"
    by (auto simp: Obligation_from_json_def rbind_Inr_iff)
  from make have p: "og_satisfaction_policy x = policy" by (auto simp: make_Obligation_def rbind_Inr_iff guard_Inr_iff)
  have "decode_optional (case policy of None \<Rightarrow> JNull | Some p \<Rightarrow> SatisfactionPolicy_to_json p)
      (\<lambda>raw. SatisfactionPolicy_from_json raw n') = Inr policy" for n'
    using policy SatisfactionPolicy_roundtrip by (cases policy) (auto simp: decode_optional_ok SatisfactionPolicy_to_json_def)
  with make_Obligation_again[OF make] show ?thesis unfolding p
    by (simp add: Obligation_from_json_def Obligation_to_json_def fields_of_def field_def dict_get_def dict_of_def p)
qed

lemma check_opening_same: "check_opening x = Inr y \<Longrightarrow> y = x"
  by (auto simp: check_opening_def split: if_splits)

lemma make_opening_again:
  assumes "make_ObligationOpening oid par rel reqs goal inh share grant auth opened = Inr x"
  shows "make_ObligationOpening (JStr (oo_obligation_id x)) (JStr (oo_parent_obligation_id x))
    (JStr (str_ObligationRelation (oo_relation x))) (JList (map JStr (oo_requirement_refs x))) (oo_goal_signature x)
    (JStr (str_BudgetInheritance (oo_budget_inheritance x))) (case oo_fuel_share x of None \<Rightarrow> JNull | Some n \<Rightarrow> JInt n)
    (json_opt (oo_grant_ref x)) (oo_authorization_ref x) (JStr (str_Provenance (oo_opened_by x))) = Inr x \<and>
    oo_goal_signature x = goal \<and> oo_authorization_ref x = auth"
proof -
  from assms obtain oid' par' rel' reqs' inh' share' grant' opened' where
    fields: "identifier_of oid ''opening.obligation_id'' = Inr oid'" "identifier_of par ''opening.parent_obligation_id'' = Inr par'"
      "oid' \<noteq> par'" "decode_enum all_ObligationRelation str_ObligationRelation rel ''opening.relation'' = Inr rel'"
      "ids_of reqs ''opening.requirement_refs'' = Inr reqs'" "reqs' \<noteq> []"
      "decode_enum all_BudgetInheritance str_BudgetInheritance inh ''opening.budget_inheritance'' = Inr inh'"
      "optional_index_min 1 share ''opening.fuel_share'' = Inr share'" "optional_identifier grant ''opening.grant_ref'' = Inr grant'"
      "decode_enum all_Provenance str_Provenance opened ''opening.opened_by'' = Inr opened'"
    and check: "check_opening \<lparr>oo_obligation_id = oid', oo_parent_obligation_id = par', oo_relation = rel',
      oo_requirement_refs = reqs', oo_goal_signature = goal, oo_budget_inheritance = inh', oo_fuel_share = share',
      oo_grant_ref = grant', oo_authorization_ref = auth, oo_opened_by = opened'\<rparr> = Inr x"
    by (auto simp: make_ObligationOpening_def rbind_Inr_iff guard_Inr_iff)
  have "optional_index_min 1 (case share' of None \<Rightarrow> JNull | Some n \<Rightarrow> JInt n) ''opening.fuel_share'' = Inr share'"
    using fields(8) by (cases share') (auto simp: optional_index_min_def result_simps split: if_splits)
  moreover note identifier_again[OF fields(1)] identifier_again[OF fields(2)] json_opt_roundtrip[OF fields(9)] ids_roundtrip[OF fields(5)]
  ultimately show ?thesis
    using fields(3,6) check check_opening_same[OF check]
    by (simp add: make_ObligationOpening_def decode_enum_def relation_enum.decode_spell inheritance_enum.decode_spell
        provenance_enum.decode_spell)
qed

lemma ObligationOpening_roundtrip:
  assumes "ObligationOpening_from_json v name = Inr x"
  shows "ObligationOpening_from_json (ObligationOpening_to_json x) name' = Inr x"
proof -
  from assms obtain d reqs goal auth where
    goal: "GoalSignature_from_json (field d ''goal_signature'') (name @ ''.goal_signature'') = Inr goal"
    and auth: "decode_optional (field d ''authorization_ref'')
      (\<lambda>raw. TypedRef_from_json raw (name @ ''.authorization_ref'')) = Inr auth"
    and make: "make_ObligationOpening (field d ''obligation_id'') (field d ''parent_obligation_id'') (field d ''relation'') (JList reqs) goal
       (dict_get d ''budget_inheritance'' (JStr ''inherit_parent_fuel_share'')) (field d ''fuel_share'') (field d ''grant_ref'')
       auth (dict_get d ''opened_by'' (JStr ''system'')) = Inr x"
    by (auto simp: ObligationOpening_from_json_def rbind_Inr_iff)
  have "TypedRef_from_json (TypedRef_to_json r) n' = Inr r" if "auth = Some r" for r n'
    using auth that typed_ref_codec.decoded_roundtrip by (auto simp: decode_optional_ok TypedRef_from_json_def TypedRef_to_json_def)
  then have "decode_optional (case auth of None \<Rightarrow> JNull | Some r \<Rightarrow> TypedRef_to_json r) (\<lambda>raw. TypedRef_from_json raw n') = Inr auth" for n'
    by (cases auth) (auto simp: decode_optional_ok TypedRef_to_json_def ref_to_json_def)
  moreover from make_opening_again[OF make] have x: "oo_goal_signature x = goal" "oo_authorization_ref x = auth" by auto
  ultimately show ?thesis
    using make_opening_again[OF make, unfolded x] GoalSignature_roundtrip[OF goal] x
    by (simp add: ObligationOpening_from_json_def ObligationOpening_to_json_def fields_of_def field_def dict_get_def)
qed

text \<open>C39. A stored duty is read back unchanged. Whatever decodes to an obligation, or to an opening, is
  re-encoded to a document that decodes to the same record, under any field name.\<close>

theorem obligation_codec_roundtrip:
  "(Obligation_from_json v name = Inr x \<longrightarrow> Obligation_from_json (Obligation_to_json x) name' = Inr x) \<and>
   (ObligationOpening_from_json v name = Inr y \<longrightarrow> ObligationOpening_from_json (ObligationOpening_to_json y) name' = Inr y)"
  using Obligation_roundtrip ObligationOpening_roundtrip by blast

lemma obligation_codec_roundtrip_witness:
  "Obligation_from_json (Obligation_to_json (sample_duty ''p'')) ''o'' = Inr (sample_duty ''p'') \<and>
   ObligationOpening_from_json (ObligationOpening_to_json sample_opening) ''o'' = Inr sample_opening"
proof -
  have "Obligation_from_json (JObj [(''obligation_id'', JStr ''p''), (''mission_id'', JStr ''m''), (''requirement_refs'', JStr ''r''),
      (''goal_signature_id'', JStr ''g''), (''budget_lineage_ref'', JStr ''b'')]) [] = Inr (sample_duty ''p'')"
    "ObligationOpening_from_json (ObligationOpening_to_json sample_opening) [] = Inr sample_opening" by code_simp+
  with obligation_codec_roundtrip show ?thesis by blast
qed

end
