(* ===== verification/Backpressure.thy ===== *)
theory Backpressure
  imports Domains
begin

text \<open>
  The watermark state machine of \<open>scheduling/backpressure.py\<close>. A dimension is raised when its
  observation reaches the cap and cleared when it has fallen to the low watermark. Ratios are
  rationals in place of binary floats; the clock reading of an observation is an argument.
\<close>

datatype level = NORMAL | RAISED
datatype pressure_dimension = Running_attempts | Pending_dispatch | Pending_verifications

definition OBSERVED_DIMENSIONS :: "pressure_dimension list" where
  "OBSERVED_DIMENSIONS = [Running_attempts, Pending_dispatch, Pending_verifications]"

record BackpressureLimits =
  bl_max_running_attempts :: int
  bl_max_pending_dispatch :: int
  bl_max_pending_verifications :: int
  bl_max_graph_depth :: int
  bl_max_attempts_per_task :: "int option"
  bl_max_proposals_per_agent :: int
  bl_low_watermark_ratio :: rat

definition default_pressure_limits :: BackpressureLimits where
  "default_pressure_limits =
     \<lparr>bl_max_running_attempts = 8, bl_max_pending_dispatch = 8, bl_max_pending_verifications = 4,
      bl_max_graph_depth = 6, bl_max_attempts_per_task = None, bl_max_proposals_per_agent = 3,
      bl_low_watermark_ratio = 1 / 2\<rparr>"

definition check_BackpressureLimits :: "BackpressureLimits \<Rightarrow> contract_error + BackpressureLimits" where
  "check_BackpressureLimits l =
     (if bl_max_running_attempts l < 1 then Inl (CE_minimum ''max_running_attempts'')
      else if bl_max_pending_dispatch l < 1 then Inl (CE_minimum ''max_pending_dispatch'')
      else if bl_max_pending_verifications l < 1 then Inl (CE_minimum ''max_pending_verifications'')
      else if \<not> (0 \<le> bl_low_watermark_ratio l \<and> bl_low_watermark_ratio l < 1)
      then Inl (CE_rule ''low_watermark_ratio'')
      else Inr l)"

fun high :: "BackpressureLimits \<Rightarrow> pressure_dimension \<Rightarrow> int" where
  "high l Running_attempts = bl_max_running_attempts l"
| "high l Pending_dispatch = bl_max_pending_dispatch l"
| "high l Pending_verifications = bl_max_pending_verifications l"

definition low :: "BackpressureLimits \<Rightarrow> pressure_dimension \<Rightarrow> int" where
  "low l d = trunc_rat (of_int (high l d) * bl_low_watermark_ratio l)"

record Observation =
  obs_running_attempts :: int
  obs_pending_dispatch :: int
  obs_pending_verifications :: int
  obs_at :: rat

fun observed_value :: "Observation \<Rightarrow> pressure_dimension \<Rightarrow> int" where
  "observed_value ob Running_attempts = obs_running_attempts ob"
| "observed_value ob Pending_dispatch = obs_pending_dispatch ob"
| "observed_value ob Pending_verifications = obs_pending_verifications ob"

record Transition =
  tr_dimension :: pressure_dimension
  tr_to_level :: level
  tr_observed :: int
  tr_high :: int
  tr_low :: int

definition event_type :: "Transition \<Rightarrow> string" where
  "event_type t = (if tr_to_level t = RAISED then ''BackpressureRaised'' else ''BackpressureCleared'')"

record raised_entry =
  re_observed :: int
  re_high :: int
  re_low :: int
  re_since :: rat

record BackpressureState =
  bp_level :: level
  bp_raised :: "(pressure_dimension \<times> raised_entry) list"
  bp_since :: "rat option"
  bp_observation :: "Observation option"
  bp_changes :: int

definition initial_pressure :: BackpressureState where
  "initial_pressure = \<lparr>bp_level = NORMAL, bp_raised = [], bp_since = None, bp_observation = None, bp_changes = 0\<rparr>"

definition is_raised :: "BackpressureState \<Rightarrow> bool" where
  "is_raised s \<longleftrightarrow> bp_level s = RAISED"

definition evaluate_dimension ::
  "BackpressureLimits \<Rightarrow> Observation \<Rightarrow> pressure_dimension
    \<Rightarrow> (pressure_dimension \<times> raised_entry) list \<times> Transition list
    \<Rightarrow> (pressure_dimension \<times> raised_entry) list \<times> Transition list" where
  "evaluate_dimension l ob d acc =
     (let (raised, transitions) = acc; observed = observed_value ob d; h = high l d; w = low l d in
      case map_of raised d of
        None \<Rightarrow>
          if h \<le> observed
          then (dict_set d \<lparr>re_observed = observed, re_high = h, re_low = w, re_since = obs_at ob\<rparr> raised,
                transitions @ [\<lparr>tr_dimension = d, tr_to_level = RAISED, tr_observed = observed, tr_high = h, tr_low = w\<rparr>])
          else (raised, transitions)
      | Some e \<Rightarrow>
          if observed \<le> w
          then (AList.delete d raised,
                transitions @ [\<lparr>tr_dimension = d, tr_to_level = NORMAL, tr_observed = observed, tr_high = h, tr_low = w\<rparr>])
          else (dict_set d (e\<lparr>re_observed := observed\<rparr>) raised, transitions))"

definition evaluate ::
  "BackpressureState \<Rightarrow> Observation \<Rightarrow> BackpressureLimits \<Rightarrow> BackpressureState \<times> Transition list" where
  "evaluate previous ob l =
     (let (raised, transitions) = fold (evaluate_dimension l ob) OBSERVED_DIMENSIONS (bp_raised previous, []);
          new_level = (if raised \<noteq> [] then RAISED else NORMAL) in
      (\<lparr>bp_level = new_level, bp_raised = raised,
        bp_since = (if new_level \<noteq> bp_level previous then Some (obs_at ob) else bp_since previous),
        bp_observation = Some ob, bp_changes = bp_changes previous + int (length transitions)\<rparr>, transitions))"

section \<open>One step\<close>

definition is_up :: "BackpressureState \<Rightarrow> pressure_dimension \<Rightarrow> bool" where
  "is_up s d \<longleftrightarrow> map_of (bp_raised s) d \<noteq> None"

text \<open>The reference: a two-threshold switch per dimension.\<close>

definition switch :: "BackpressureLimits \<Rightarrow> Observation \<Rightarrow> pressure_dimension \<Rightarrow> bool \<Rightarrow> bool" where
  "switch l ob d up = (if up then low l d < observed_value ob d else high l d \<le> observed_value ob d)"

lemma evaluate_dimension_raised:
  "map_of (fst (evaluate_dimension l ob d acc)) d' \<noteq> None \<longleftrightarrow>
     (if d' = d then switch l ob d (map_of (fst acc) d \<noteq> None) else map_of (fst acc) d' \<noteq> None)"
  by (auto simp: evaluate_dimension_def Let_def switch_def delete_conv' split: prod.splits option.splits)

lemma evaluate_dimension_transitions:
  "length (snd (evaluate_dimension l ob d acc)) =
     length (snd acc) + (if (map_of (fst (evaluate_dimension l ob d acc)) d \<noteq> None) = (map_of (fst acc) d \<noteq> None) then 0 else 1)"
  by (auto simp: evaluate_dimension_def Let_def delete_conv' split: prod.splits option.splits)

lemma evaluate_raised: "is_up (fst (evaluate s ob l)) d \<longleftrightarrow> switch l ob d (is_up s d)"
  by (cases d) (simp_all add: evaluate_def Let_def is_up_def OBSERVED_DIMENSIONS_def evaluate_dimension_raised
      case_prod_unfold del: not_None_eq)

lemma no_dimension_up: "raised = [] \<longleftrightarrow> (\<forall>d. map_of raised d = None)"
  for raised :: "(pressure_dimension \<times> raised_entry) list"
  by (cases raised) auto

lemma evaluate_level: "bp_level (fst (evaluate s ob l)) = RAISED \<longleftrightarrow> (\<exists>d. is_up (fst (evaluate s ob l)) d)"
  by (auto simp: evaluate_def Let_def is_up_def case_prod_unfold no_dimension_up)

lemma evaluate_transitions:
  "map (\<lambda>t. (tr_dimension t, tr_to_level t)) (snd (evaluate s ob l)) =
     map (\<lambda>d. (d, if is_up (fst (evaluate s ob l)) d then RAISED else NORMAL))
       (filter (\<lambda>d. is_up (fst (evaluate s ob l)) d \<noteq> is_up s d) OBSERVED_DIMENSIONS)"
proof -
  have one: "map (\<lambda>t. (tr_dimension t, tr_to_level t)) (snd (evaluate_dimension l ob d acc)) =
      map (\<lambda>t. (tr_dimension t, tr_to_level t)) (snd acc) @
      (if switch l ob d (map_of (fst acc) d \<noteq> None) \<noteq> (map_of (fst acc) d \<noteq> None)
       then [(d, if switch l ob d (map_of (fst acc) d \<noteq> None) then RAISED else NORMAL)] else [])" for d acc
    by (auto simp: evaluate_dimension_def Let_def switch_def split: prod.splits option.splits)
  let ?a1 = "evaluate_dimension l ob Running_attempts (bp_raised s, [])"
  let ?a2 = "evaluate_dimension l ob Pending_dispatch ?a1"
  have snd: "snd (evaluate s ob l) = snd (evaluate_dimension l ob Pending_verifications ?a2)"
    by (simp add: evaluate_def Let_def OBSERVED_DIMENSIONS_def case_prod_unfold)
  have up: "(map_of (fst ?a1) Pending_dispatch \<noteq> None) = is_up s Pending_dispatch"
    "(map_of (fst ?a2) Pending_verifications \<noteq> None) = is_up s Pending_verifications"
    by (simp_all add: evaluate_dimension_raised is_up_def del: not_None_eq)
  show ?thesis unfolding snd one up evaluate_raised
    by (simp add: OBSERVED_DIMENSIONS_def is_up_def del: not_None_eq)
qed

section \<open>Runs\<close>

definition run_pressure :: "BackpressureLimits \<Rightarrow> Observation list \<Rightarrow> BackpressureState \<Rightarrow> BackpressureState" where
  "run_pressure l obs s = fold (\<lambda>ob s. fst (evaluate s ob l)) obs s"

definition held_up :: "BackpressureLimits \<Rightarrow> pressure_dimension \<Rightarrow> Observation list \<Rightarrow> bool" where
  "held_up l d obs \<longleftrightarrow> (\<exists>i<length obs. high l d \<le> observed_value (obs ! i) d \<and>
     (\<forall>j. i < j \<and> j < length obs \<longrightarrow> low l d < observed_value (obs ! j) d))"

lemma low_below_high:
  assumes "check_BackpressureLimits l = Inr l'"
  shows "low l d < high l d"
proof -
  have r: "0 \<le> bl_low_watermark_ratio l" "bl_low_watermark_ratio l < 1" and h: "1 \<le> high l d"
    using assms by (cases d; auto simp: check_BackpressureLimits_def not_less split: if_splits)+
  let ?x = "of_int (high l d) * bl_low_watermark_ratio l"
  have "0 \<le> ?x" using r h by simp
  moreover have "?x < of_int (high l d)" using r h by (simp add: mult_less_cancel_left2)
  ultimately show ?thesis by (simp add: low_def trunc_rat_def floor_less_iff)
qed

lemma held_up_snoc:
  assumes "low l d < high l d"
  shows "held_up l d (obs @ [ob]) \<longleftrightarrow> switch l ob d (held_up l d obs)"
proof
  assume "held_up l d (obs @ [ob])"
  then obtain i where i: "i < Suc (length obs)" "high l d \<le> observed_value ((obs @ [ob]) ! i) d"
    "\<forall>j. i < j \<and> j < Suc (length obs) \<longrightarrow> low l d < observed_value ((obs @ [ob]) ! j) d" by (auto simp: held_up_def)
  show "switch l ob d (held_up l d obs)"
  proof (cases "i = length obs")
    case True
    with i assms show ?thesis by (simp add: switch_def)
  next
    case False
    with i(1) have lt: "i < length obs" by simp
    have "held_up l d obs" unfolding held_up_def
    proof (intro exI[of _ i] conjI allI impI)
      show "high l d \<le> observed_value (obs ! i) d" using i(2) lt by (simp add: nth_append)
      show "low l d < observed_value (obs ! j) d" if "i < j \<and> j < length obs" for j
        using i(3)[rule_format, of j] that by (simp add: nth_append)
    qed (rule lt)
    moreover have "low l d < observed_value ob d" using i(3)[rule_format, of "length obs"] lt by simp
    ultimately show ?thesis by (simp add: switch_def)
  qed
next
  assume sw: "switch l ob d (held_up l d obs)"
  show "held_up l d (obs @ [ob])"
  proof (cases "held_up l d obs")
    case True
    then obtain i where i: "i < length obs" "high l d \<le> observed_value (obs ! i) d"
      "\<forall>j. i < j \<and> j < length obs \<longrightarrow> low l d < observed_value (obs ! j) d" by (auto simp: held_up_def)
    with sw True show ?thesis unfolding held_up_def
      by (intro exI[of _ i]) (auto simp: nth_append switch_def less_Suc_eq)
  next
    case False
    with sw show ?thesis unfolding held_up_def by (intro exI[of _ "length obs"]) (simp add: switch_def)
  qed
qed

lemma run_pressure_up:
  assumes "\<And>d. low l d < high l d"
  shows "is_up (run_pressure l obs initial_pressure) d \<longleftrightarrow> held_up l d obs"
  using assms
proof (induction obs rule: rev_induct)
  case Nil
  then show ?case by (simp add: run_pressure_def is_up_def initial_pressure_def held_up_def)
next
  case (snoc ob obs)
  then show ?case by (simp add: run_pressure_def evaluate_raised held_up_snoc)
qed

text \<open>C32. Backpressure has hysteresis. For valid limits the low watermark of each dimension is below its
  cap, and after any sequence of observations a dimension is raised exactly when some observation reached
  the cap and every later one stayed above the low watermark; the signal is RAISED exactly when some
  dimension is. Each step reports exactly the dimensions that flipped, in order, with their new level.\<close>

theorem backpressure_hysteresis:
  assumes "check_BackpressureLimits l = Inr l'"
  shows "low l d < high l d \<and>
    (is_up (run_pressure l obs initial_pressure) d \<longleftrightarrow> held_up l d obs) \<and>
    (is_raised (run_pressure l obs initial_pressure) \<longleftrightarrow> (\<exists>d. held_up l d obs)) \<and>
    map (\<lambda>t. (tr_dimension t, tr_to_level t)) (snd (evaluate s ob l)) =
      map (\<lambda>d. (d, if is_up (fst (evaluate s ob l)) d then RAISED else NORMAL))
        (filter (\<lambda>d. is_up (fst (evaluate s ob l)) d \<noteq> is_up s d) OBSERVED_DIMENSIONS)"
proof -
  note lh = low_below_high[OF assms]
  have "is_raised (run_pressure l obs initial_pressure) \<longleftrightarrow> (\<exists>d. is_up (run_pressure l obs initial_pressure) d)"
  proof (cases obs rule: rev_cases)
    case Nil
    then show ?thesis by (simp add: run_pressure_def is_raised_def is_up_def initial_pressure_def)
  next
    case (snoc xs ob)
    then show ?thesis by (simp add: run_pressure_def is_raised_def evaluate_level)
  qed
  with run_pressure_up[OF lh] lh evaluate_transitions show ?thesis by auto
qed

definition sample_obs :: "int \<Rightarrow> Observation" where
  "sample_obs n = \<lparr>obs_running_attempts = n, obs_pending_dispatch = 0, obs_pending_verifications = 0, obs_at = 0\<rparr>"

lemma backpressure_hysteresis_witness:
  "held_up default_pressure_limits Running_attempts (map sample_obs [3, 8, 5]) \<and>
   \<not> held_up default_pressure_limits Running_attempts (map sample_obs [3, 8, 5, 4, 7])"
proof -
  have ok: "check_BackpressureLimits default_pressure_limits = Inr default_pressure_limits"
    by (simp add: check_BackpressureLimits_def default_pressure_limits_def)
  have "is_up (run_pressure default_pressure_limits (map sample_obs [3, 8, 5]) initial_pressure) Running_attempts"
    "\<not> is_up (run_pressure default_pressure_limits (map sample_obs [3, 8, 5, 4, 7]) initial_pressure) Running_attempts"
    by code_simp+
  with backpressure_hysteresis[OF ok, of Running_attempts] show ?thesis by blast
qed

end
