(* ===== verification/Network_Contracts.thy ===== *)
theory Network_Contracts
  imports Obligations Evidence
begin

text \<open>
  The records of the task network (\<open>contracts/htn.py\<close>): occurrences, semantic bindings, method instances with their child
  slots, order and data constraints, typed edges, and the entries of a semantic read set. Records are those the constructors
  accept; their wire form is given where a content hash is taken over it.
\<close>

section \<open>Enumerations\<close>

datatype TaskForm = COMPOUND | PRIMITIVE

datatype RelationKind =
  RK_REFINEMENT | RK_SATISFIES | RK_ORDER | RK_DATA | RK_SUPPORT | RK_ASSUMPTION | RK_SUPERVISION | RK_FUNDING | RK_SUPERSEDES

datatype ReleaseCondition = RC_ACCEPTED | RC_SETTLED_TERMINAL

fun str_ReleaseCondition :: "ReleaseCondition \<Rightarrow> string" where
  "str_ReleaseCondition RC_ACCEPTED = ''accepted''"
| "str_ReleaseCondition RC_SETTLED_TERMINAL = ''settled_terminal''"

datatype ReusePolicy = RP_NEW_WORK | RP_REUSE_ACCEPTED | RP_SHARE_ACTIVE

fun str_ReusePolicy :: "ReusePolicy \<Rightarrow> string" where
  "str_ReusePolicy RP_NEW_WORK = ''new_work''"
| "str_ReusePolicy RP_REUSE_ACCEPTED = ''reuse_accepted''"
| "str_ReusePolicy RP_SHARE_ACTIVE = ''share_active''"

datatype SourceRevisionPolicy = SP_PINNED | SP_FOLLOW_AUTHORIZED_REVISION

fun str_SourceRevisionPolicy :: "SourceRevisionPolicy \<Rightarrow> string" where
  "str_SourceRevisionPolicy SP_PINNED = ''PINNED''"
| "str_SourceRevisionPolicy SP_FOLLOW_AUTHORIZED_REVISION = ''FOLLOW_AUTHORIZED_REVISION''"

datatype PortCardinality = PC_SINGLE | PC_SET

datatype PortOrdering = PO_BY_PRODUCER_ORDINAL | PO_BY_KEY | PO_EXPLICIT

datatype SideEffectKind = SE_NONE | SE_LOCAL_WRITE | SE_EXTERNAL_READ | SE_EXTERNAL_STATE_WRITE | SE_EXTERNAL_EVENT_WRITE

datatype ApplicabilityCheckPolicy = AC_SELECT_ONLY | AC_SELECT_AND_ACCEPT | AC_MAINTAIN_CONTINUOUS

datatype EndpointKind = EK_OCCURRENCE | EK_TASK | EK_METHOD_INSTANCE | EK_OBLIGATION | EK_EVIDENCE | EK_SUPERVISOR

datatype ReadItemKind =
  RI_REQUIREMENTS | RI_OBLIGATION | RI_TASK | RI_METHOD | RI_FACT | RI_ACCEPTANCE | RI_OPERATION | RI_AUTHORITY | RI_CAPABILITY

fun str_TruthValue :: "TruthValue \<Rightarrow> string" where
  "str_TruthValue TV_TRUE = ''TRUE''"
| "str_TruthValue TV_FALSE = ''FALSE''"
| "str_TruthValue TV_UNKNOWN = ''UNKNOWN''"
| "str_TruthValue TV_CONFLICT = ''CONFLICT''"

section \<open>Methods\<close>

record MethodRef =
  mr_method_id :: string
  mr_version :: int
  mr_content_hash :: string

definition MethodRef_to_json :: "MethodRef \<Rightarrow> json" where
  "MethodRef_to_json m =
     JObj [(''method_id'', JStr (mr_method_id m)), (''version'', JInt (mr_version m)), (''content_hash'', JStr (mr_content_hash m))]"

record Binding =
  bn_name :: string
  bn_value :: json

definition Binding_to_json :: "Binding \<Rightarrow> json" where
  "Binding_to_json b = JObj [(''name'', JStr (bn_name b)), (''value'', bn_value b)]"

record PreconditionWitnessRecord =
  pw_condition_digest :: string
  pw_phase :: PreconditionPhase
  pw_truth :: TruthValue
  pw_witness_ref :: "TypedRef option"

definition json_ref :: "TypedRef option \<Rightarrow> json" where
  "json_ref r = (case r of None \<Rightarrow> JNull | Some x \<Rightarrow> TypedRef_to_json x)"

definition PreconditionWitnessRecord_to_json :: "PreconditionWitnessRecord \<Rightarrow> json" where
  "PreconditionWitnessRecord_to_json w =
     JObj [(''condition_digest'', JStr (pw_condition_digest w)), (''phase'', JStr (str_PreconditionPhase (pw_phase w))),
           (''truth'', JStr (str_TruthValue (pw_truth w))), (''witness_ref'', json_ref (pw_witness_ref w))]"

record ChildBinding =
  cb_instance_id :: string
  cb_slot_key :: string
  cb_occurrence_id :: string
  cb_obligation_id :: string
  cb_requiredness :: Requiredness
  cb_reuse_policy :: ReusePolicy
  cb_goal_occurrence_id :: "string option"
  cb_acceptance_ref :: "TypedRef option"
  cb_resolution_ref :: "TypedRef option"

text \<open>An optional entry of a wire form, left out when it is unset.\<close>

definition unless_none :: "string \<Rightarrow> ('a \<Rightarrow> json) \<Rightarrow> 'a option \<Rightarrow> (string \<times> json) list" where
  "unless_none k f x = (case x of None \<Rightarrow> [] | Some y \<Rightarrow> [(k, f y)])"

definition ChildBinding_to_json :: "ChildBinding \<Rightarrow> json" where
  "ChildBinding_to_json b =
     JObj ([(''instance_id'', JStr (cb_instance_id b)), (''slot_key'', JStr (cb_slot_key b)),
           (''occurrence_id'', JStr (cb_occurrence_id b)), (''obligation_id'', JStr (cb_obligation_id b)),
           (''requiredness'', JStr (str_Requiredness (cb_requiredness b))),
           (''reuse_policy'', JStr (str_ReusePolicy (cb_reuse_policy b)))] @
           unless_none ''goal_occurrence_id'' JStr (cb_goal_occurrence_id b) @
           unless_none ''acceptance_ref'' TypedRef_to_json (cb_acceptance_ref b) @
           unless_none ''resolution_ref'' TypedRef_to_json (cb_resolution_ref b))"

record MethodInstanceDraft =
  md_instance_id :: string
  md_goal_id :: string
  md_obligation_id :: string
  md_method_ref :: MethodRef
  md_grounded_parameters :: "Binding list"
  md_world_snapshot_id :: "string option"
  md_precondition_witnesses :: "PreconditionWitnessRecord list"
  md_assumption_refs :: "EvidenceRef list"
  md_child_bindings :: "ChildBinding list"
  md_plan_revision :: int
  md_goal_occurrence_id :: "string option"

definition effective_goal_occurrence_id :: "MethodInstanceDraft \<Rightarrow> string" where
  "effective_goal_occurrence_id d = (case md_goal_occurrence_id d of Some i \<Rightarrow> i | None \<Rightarrow> md_goal_id d)"

definition MethodInstanceDraft_to_json :: "(json \<Rightarrow> string) \<Rightarrow> MethodInstanceDraft \<Rightarrow> json" where
  "MethodInstanceDraft_to_json content_hash_of d =
     JObj ([(''instance_id'', JStr (md_instance_id d)),
           (''goal_id'', JObj [(''kind'', JStr (str_TypedRefKind TR_TASK)), (''id'', JStr (md_goal_id d)), (''revision'', JInt 0),
             (''content_hash'', JStr (content_hash_of (JStr (md_goal_id d))))]),
           (''obligation_id'', JStr (md_obligation_id d)), (''method_ref'', MethodRef_to_json (md_method_ref d)),
           (''grounded_parameters'', JList (map Binding_to_json (md_grounded_parameters d))),
           (''world_snapshot_id'', json_opt (md_world_snapshot_id d)),
           (''precondition_witnesses'', JList (map PreconditionWitnessRecord_to_json (md_precondition_witnesses d))),
           (''assumption_refs'', JList (map EvidenceRef_to_json (md_assumption_refs d))),
           (''child_bindings'', JList (map ChildBinding_to_json (md_child_bindings d))),
           (''plan_revision'', JInt (md_plan_revision d))] @
           unless_none ''goal_occurrence_id'' JStr (md_goal_occurrence_id d))"

section \<open>Bindings and constraints\<close>

record PortSpec =
  po_port_key :: string
  po_schema_ref :: VersionedRef
  po_cardinality :: PortCardinality
  po_required :: bool
  po_ordering :: "PortOrdering option"
  po_order_key :: "string option"

record ResourceRef =
  rr_namespace :: string
  rr_object_id :: string

record PreconditionRef =
  pf_condition_digest :: string
  pf_phase :: "PreconditionPhase option"

record MethodOccurrenceBinding =
  mo_method_instance_id :: string
  mo_occurrence_id :: string
  mo_slot_key :: string

record TaskSemanticBindingV1 =
  sb_task_id :: string
  sb_obligation_id :: string
  sb_contract_revision :: int
  sb_contract_hash :: string
  sb_form :: TaskForm
  sb_goal_signature :: GoalSignature
  sb_typed_parameters :: "(string \<times> json) list"
  sb_requirement_refs :: "string list"
  sb_input_ports :: "PortSpec list"
  sb_output_ports :: "PortSpec list"
  sb_operator_ref :: "VersionedRef option"
  sb_semantic_scope :: string
  sb_capability_requirements :: "string list"
  sb_precondition_refs :: "PreconditionRef list"
  sb_applicability_check_policy :: ApplicabilityCheckPolicy
  sb_occurrence_binding :: "MethodOccurrenceBinding option"
  sb_adopted_method_instance_id :: "string option"
  sb_input_binding_revision :: int
  sb_dispatch_generation :: int
  sb_resource_reads :: "ResourceRef list"
  sb_resource_writes :: "ResourceRef list"
  sb_side_effect_kind :: "SideEffectKind option"

record OccurrenceSpec =
  oc_occurrence_id :: string
  oc_task_id :: string
  oc_obligation_id :: string
  oc_form :: TaskForm
  oc_requiredness :: Requiredness

record OrderConstraint =
  or_before :: string
  or_after :: string
  or_release_condition :: ReleaseCondition

record DataRequirement =
  dr_requirement_id :: string
  dr_producer_occurrence :: string
  dr_output_port :: string
  dr_consumer_occurrence :: string
  dr_input_port :: string
  dr_schema_ref :: VersionedRef
  dr_assurance_policy_ref :: string
  dr_freshness_policy_ref :: string
  dr_source_revision_policy :: SourceRevisionPolicy

record ObligationCoverage =
  cv_obligation_id :: string
  cv_criterion_ids :: "string list"
  cv_covered_by :: "string list"

record NetworkEndpoint =
  ne_kind :: EndpointKind
  ne_id :: string

record TypedEdge =
  te_relation :: RelationKind
  te_source :: NetworkEndpoint
  te_target :: NetworkEndpoint
  te_label :: string

definition assert_method_instance :: "OccurrenceSpec list \<Rightarrow> MethodInstanceDraft \<Rightarrow> contract_error + unit" where
  "assert_method_instance occurrences d =
     (case map_of (rev (map (\<lambda>s. (oc_occurrence_id s, s)) occurrences)) (effective_goal_occurrence_id d) of
        None \<Rightarrow> Inr ()
      | Some s \<Rightarrow>
          if oc_task_id s \<noteq> md_goal_id d then Inl (CE_rule ''a method instance refines an occurrence of another task'')
          else if oc_form s \<noteq> COMPOUND then Inl (CE_rule ''only a compound task is refined by a method'')
          else Inr ())"

definition assert_method_instances_match_occurrences ::
  "MethodInstanceDraft list \<Rightarrow> OccurrenceSpec list \<Rightarrow> contract_error + unit" where
  "assert_method_instances_match_occurrences drafts occurrences = for_each (assert_method_instance occurrences) drafts"

section \<open>Read sets\<close>

record ReadItem =
  rdi_kind :: ReadItemKind
  rdi_id :: string
  rdi_semantic_revision :: int
  rdi_content_hash :: string

record SupportSetRead =
  su_support_set_id :: string
  su_revision :: int
  su_member_digest :: string

record ScopeEpochRead =
  sr_scope_id :: string
  sr_validity_epoch :: int

record AbsenceRead =
  ar_predicate :: string
  ar_scope_id :: string
  ar_range_revision :: int

record SemanticReadSet =
  rs_requirements_revision :: int
  rs_goal_revisions :: "ReadItem list"
  rs_method_revisions :: "ReadItem list"
  rs_observation_revisions :: "ReadItem list"
  rs_acceptance_revisions :: "ReadItem list"
  rs_obligation_revisions :: "ReadItem list"
  rs_authority_revisions :: "ReadItem list"
  rs_manager_epoch :: int
  rs_budget_grant_revision :: int
  rs_support_sets :: "SupportSetRead list"
  rs_scope_epochs :: "ScopeEpochRead list"
  rs_absences :: "AbsenceRead list"

end
