(* ===== verification/Task_Network.thy ===== *)
theory Task_Network
  imports Network_Contracts
begin

text \<open>
  The task network of a Mission at one plan revision (\<open>graph/task_network.py\<close>): the snapshot with its referential checks, the
  lookups, the refinement, support and supervision views, and the compilation of the adopted methods into the completion
  dependency graph. The private indexes of the snapshot are functions of its fields; a constructor that raises is a left value,
  and so is a missing key of one of the dictionaries that the compilation builds.
\<close>

section \<open>The snapshot\<close>

record TaskNetworkSnapshot =
  nw_mission_id :: string
  nw_plan_revision :: int
  nw_occurrences :: "OccurrenceSpec list"
  nw_task_bindings :: "TaskSemanticBindingV1 list"
  nw_method_instances :: "MethodInstanceDraft list"
  nw_adopted_instance_ids :: "string list"
  nw_root_occurrence_ids :: "string list"
  nw_order_constraints :: "OrderConstraint list"
  nw_data_requirements :: "DataRequirement list"
  nw_typed_edges :: "TypedEdge list"
  nw_obligation_coverage :: "ObligationCoverage list"
  nw_required_obligations :: "string list"

definition by_occurrence :: "TaskNetworkSnapshot \<Rightarrow> string \<Rightarrow> OccurrenceSpec option" where
  "by_occurrence S = map_of (map (\<lambda>s. (oc_occurrence_id s, s)) (nw_occurrences S))"

definition by_task :: "TaskNetworkSnapshot \<Rightarrow> string \<Rightarrow> TaskSemanticBindingV1 option" where
  "by_task S = map_of (map (\<lambda>b. (sb_task_id b, b)) (nw_task_bindings S))"

definition by_instance :: "TaskNetworkSnapshot \<Rightarrow> string \<Rightarrow> MethodInstanceDraft option" where
  "by_instance S = map_of (map (\<lambda>d. (md_instance_id d, d)) (nw_method_instances S))"

definition is_adopted :: "TaskNetworkSnapshot \<Rightarrow> string \<Rightarrow> bool" where
  "is_adopted S i \<longleftrightarrow> i \<in> set (nw_adopted_instance_ids S)"

definition adopted_drafts :: "TaskNetworkSnapshot \<Rightarrow> MethodInstanceDraft list" where
  "adopted_drafts S = filter (\<lambda>d. is_adopted S (md_instance_id d)) (nw_method_instances S)"

definition adopted_instance_for :: "TaskNetworkSnapshot \<Rightarrow> string \<Rightarrow> MethodInstanceDraft option" where
  "adopted_instance_for S = map_of (map (\<lambda>d. (effective_goal_occurrence_id d, d)) (adopted_drafts S))"

section \<open>Referential checks\<close>

definition unique_ids :: "string list \<Rightarrow> string \<Rightarrow> contract_error + unit" where
  "unique_ids ids what = (if distinct ids then Inr () else Inl (CE_duplicate what))"

definition known_occurrence :: "TaskNetworkSnapshot \<Rightarrow> string \<Rightarrow> string \<Rightarrow> contract_error + unit" where
  "known_occurrence S place i = (if by_occurrence S i = None then Inl (CE_unknown place [i]) else Inr ())"

definition check_occurrence :: "TaskNetworkSnapshot \<Rightarrow> OccurrenceSpec \<Rightarrow> contract_error + unit" where
  "check_occurrence S s =
     (case by_task S (oc_task_id s) of
        None \<Rightarrow> Inl (CE_unknown ''occurrence names a task without a semantic binding'' [oc_task_id s])
      | Some b \<Rightarrow>
          if sb_form b \<noteq> oc_form s then Inl (CE_rule ''occurrence and binding disagree on the form'')
          else if sb_obligation_id b \<noteq> oc_obligation_id s then Inl (CE_rule ''occurrence and binding disagree on the obligation'')
          else Inr ())"

text \<open>The loop over the method instances; \<open>parents\<close> are the occurrences that already have an adopted instance.\<close>

fun check_instances :: "TaskNetworkSnapshot \<Rightarrow> MethodInstanceDraft list \<Rightarrow> string list \<Rightarrow> contract_error + unit" where
  "check_instances S [] parents = Inr ()"
| "check_instances S (d # ds) parents =
     (let parent = effective_goal_occurrence_id d; adopted = is_adopted S (md_instance_id d) in
      if by_task S (md_goal_id d) = None then Inl (CE_unknown ''method instance refines an unknown task'' [md_goal_id d])
      else if by_occurrence S parent = None then Inl (CE_unknown ''method instance refines an unknown occurrence'' [parent])
      else if adopted \<and> parent \<in> set parents then Inl (CE_rule ''occurrence has two adopted method instances'')
      else
        rbind (for_each (known_occurrence S ''method instance binds a slot to an unknown occurrence'')
            (map cb_occurrence_id (md_child_bindings d))) (\<lambda>_.
        check_instances S ds (if adopted then parent # parents else parents)))"

definition check_claim :: "TaskNetworkSnapshot \<Rightarrow> TaskSemanticBindingV1 \<Rightarrow> contract_error + unit" where
  "check_claim S b =
     (case sb_adopted_method_instance_id b of
        None \<Rightarrow> Inr ()
      | Some i \<Rightarrow>
          if by_instance S i = None then Inl (CE_unknown ''task adopts an unknown method instance'' [i])
          else if \<not> is_adopted S i then Inl (CE_rule ''task adopts a method instance outside the active membership'')
          else Inr ())"

fun check_requirements :: "TaskNetworkSnapshot \<Rightarrow> DataRequirement list \<Rightarrow> string list \<Rightarrow> contract_error + unit" where
  "check_requirements S [] ids = Inr ()"
| "check_requirements S (r # rs) ids =
     rbind (for_each (known_occurrence S ''data requirement names an unknown occurrence'')
         [dr_producer_occurrence r, dr_consumer_occurrence r]) (\<lambda>_.
     if dr_requirement_id r \<in> set ids then Inl (CE_duplicate ''data requirement'')
     else check_requirements S rs (dr_requirement_id r # ids))"

definition check_endpoint :: "TaskNetworkSnapshot \<Rightarrow> NetworkEndpoint \<Rightarrow> contract_error + unit" where
  "check_endpoint S e =
     (case ne_kind e of
        EK_OCCURRENCE \<Rightarrow> if by_occurrence S (ne_id e) = None then Inl (CE_unknown ''edge names an unknown occurrence'' [ne_id e]) else Inr ()
      | EK_TASK \<Rightarrow> if by_task S (ne_id e) = None then Inl (CE_unknown ''edge names an unknown task'' [ne_id e]) else Inr ()
      | EK_METHOD_INSTANCE \<Rightarrow>
          if by_instance S (ne_id e) = None then Inl (CE_unknown ''edge names an unknown method instance'' [ne_id e]) else Inr ()
      | _ \<Rightarrow> Inr ())"

definition check_TaskNetworkSnapshot :: "TaskNetworkSnapshot \<Rightarrow> contract_error + TaskNetworkSnapshot" where
  "check_TaskNetworkSnapshot S =
     rbind (unique_ids (map oc_occurrence_id (nw_occurrences S)) ''occurrence'') (\<lambda>_.
     rbind (unique_ids (map sb_task_id (nw_task_bindings S)) ''semantic binding'') (\<lambda>_.
     rbind (unique_ids (map md_instance_id (nw_method_instances S)) ''method instance'') (\<lambda>_.
     rbind (for_each (check_occurrence S) (nw_occurrences S)) (\<lambda>_.
     rbind (for_each (\<lambda>i. if by_instance S i = None then Inl (CE_unknown ''adopted method instance'' [i]) else Inr ())
         (nw_adopted_instance_ids S)) (\<lambda>_.
     rbind (assert_method_instances_match_occurrences (nw_method_instances S) (nw_occurrences S)) (\<lambda>_.
     rbind (check_instances S (nw_method_instances S) []) (\<lambda>_.
     rbind (for_each (check_claim S) (nw_task_bindings S)) (\<lambda>_.
     rbind (for_each (\<lambda>c. for_each (known_occurrence S ''order constraint names an unknown occurrence'') [or_before c, or_after c])
         (nw_order_constraints S)) (\<lambda>_.
     rbind (check_requirements S (nw_data_requirements S) []) (\<lambda>_.
     rbind (for_each (known_occurrence S ''root occurrence does not exist'') (nw_root_occurrence_ids S)) (\<lambda>_.
     rbind (for_each (\<lambda>c. for_each (known_occurrence S ''obligation coverage names an unknown occurrence'') (cv_covered_by c))
         (nw_obligation_coverage S)) (\<lambda>_.
     rbind (for_each (\<lambda>e. for_each (check_endpoint S) [te_source e, te_target e]) (nw_typed_edges S)) (\<lambda>_.
     Inr S)))))))))))))"

section \<open>Lookups\<close>

definition lookup :: "'a option \<Rightarrow> string \<Rightarrow> contract_error + 'a" where
  "lookup x k = (case x of None \<Rightarrow> Inl (PyKeyError k) | Some y \<Rightarrow> Inr y)"

definition occurrence :: "TaskNetworkSnapshot \<Rightarrow> string \<Rightarrow> contract_error + OccurrenceSpec" where
  "occurrence S i = lookup (by_occurrence S i) i"

definition binding_for_task :: "TaskNetworkSnapshot \<Rightarrow> string \<Rightarrow> contract_error + TaskSemanticBindingV1" where
  "binding_for_task S i = lookup (by_task S i) i"

definition binding_for_occurrence :: "TaskNetworkSnapshot \<Rightarrow> string \<Rightarrow> contract_error + TaskSemanticBindingV1" where
  "binding_for_occurrence S i = rbind (occurrence S i) (\<lambda>s. binding_for_task S (oc_task_id s))"

definition instance_of :: "TaskNetworkSnapshot \<Rightarrow> string \<Rightarrow> contract_error + MethodInstanceDraft" where
  "instance_of S i = lookup (by_instance S i) i"

definition adopted_children :: "TaskNetworkSnapshot \<Rightarrow> string \<Rightarrow> contract_error + ChildBinding list" where
  "adopted_children S i =
     rbind (occurrence S i) (\<lambda>s.
     if oc_form s \<noteq> COMPOUND then Inr []
     else Inr (case adopted_instance_for S i of None \<Rightarrow> [] | Some d \<Rightarrow> md_child_bindings d))"

section \<open>Relations and views\<close>

record RelationRow =
  rw_relation :: RelationKind
  rw_source :: NetworkEndpoint
  rw_target :: NetworkEndpoint
  rw_label :: string

definition endpoint :: "EndpointKind \<Rightarrow> string \<Rightarrow> NetworkEndpoint" where
  "endpoint k i = \<lparr>ne_kind = k, ne_id = i\<rparr>"

definition row :: "RelationKind \<Rightarrow> NetworkEndpoint \<Rightarrow> NetworkEndpoint \<Rightarrow> string \<Rightarrow> RelationRow" where
  "row k s t l = \<lparr>rw_relation = k, rw_source = s, rw_target = t, rw_label = l\<rparr>"

definition sorted_instances :: "TaskNetworkSnapshot \<Rightarrow> MethodInstanceDraft list" where
  "sorted_instances S = sort_key md_instance_id (nw_method_instances S)"

definition refinement_rows :: "TaskNetworkSnapshot \<Rightarrow> MethodInstanceDraft \<Rightarrow> RelationRow list" where
  "refinement_rows S d =
     row RK_REFINEMENT (endpoint EK_TASK (md_goal_id d)) (endpoint EK_METHOD_INSTANCE (md_instance_id d))
       (if is_adopted S (md_instance_id d) then ''adopted'' else ''alternative'') #
     map (\<lambda>c. row RK_REFINEMENT (endpoint EK_METHOD_INSTANCE (md_instance_id d)) (endpoint EK_OCCURRENCE (cb_occurrence_id c)) (cb_slot_key c))
       (md_child_bindings d)"

definition relations :: "TaskNetworkSnapshot \<Rightarrow> RelationKind \<Rightarrow> RelationRow list" where
  "relations S k =
     (if k = RK_REFINEMENT then concat (map (refinement_rows S) (sorted_instances S))
      else if k = RK_ORDER then
        map (\<lambda>c. row RK_ORDER (endpoint EK_OCCURRENCE (or_before c)) (endpoint EK_OCCURRENCE (or_after c))
            (str_ReleaseCondition (or_release_condition c))) (nw_order_constraints S)
      else if k = RK_DATA then
        map (\<lambda>r. row RK_DATA (endpoint EK_OCCURRENCE (dr_producer_occurrence r)) (endpoint EK_OCCURRENCE (dr_consumer_occurrence r))
            (dr_requirement_id r)) (nw_data_requirements S)
      else map (\<lambda>e. row (te_relation e) (te_source e) (te_target e) (te_label e)) (filter (\<lambda>e. te_relation e = k) (nw_typed_edges S)))"

definition GATING_REQUIREDNESS :: "Requiredness list" where
  "GATING_REQUIREDNESS = [RQ_REQUIRED, RQ_CONDITIONAL]"

definition gating :: "ChildBinding \<Rightarrow> bool" where
  "gating c \<longleftrightarrow> cb_requiredness c \<in> set GATING_REQUIREDNESS"

record MethodAlternative =
  ma_instance_id :: string
  ma_goal_task_id :: string
  ma_goal_occurrence_id :: string
  ma_adopted :: bool
  ma_slots :: "(string \<times> string) list"
  ma_required_children :: "string list"
  ma_optional_children :: "string list"

record RefinementView =
  rf_alternatives :: "(string \<times> MethodAlternative list) list"
  rf_parents_of :: "(string \<times> string list) list"

definition alternative :: "TaskNetworkSnapshot \<Rightarrow> MethodInstanceDraft \<Rightarrow> MethodAlternative" where
  "alternative S d =
     \<lparr>ma_instance_id = md_instance_id d, ma_goal_task_id = md_goal_id d, ma_goal_occurrence_id = effective_goal_occurrence_id d,
      ma_adopted = is_adopted S (md_instance_id d),
      ma_slots = fold (\<lambda>c. dict_set (cb_slot_key c) (cb_occurrence_id c)) (md_child_bindings d) [],
      ma_required_children = map cb_occurrence_id (filter gating (md_child_bindings d)),
      ma_optional_children = map cb_occurrence_id (filter (\<lambda>c. \<not> gating c) (md_child_bindings d))\<rparr>"

definition add_alternative :: "TaskNetworkSnapshot \<Rightarrow> MethodInstanceDraft \<Rightarrow> RefinementView \<Rightarrow> RefinementView" where
  "add_alternative S d v =
     \<lparr>rf_alternatives = dict_append (md_goal_id d) (alternative S d) (rf_alternatives v),
      rf_parents_of = (if is_adopted S (md_instance_id d)
        then fold (\<lambda>c. dict_append (cb_occurrence_id c) (effective_goal_occurrence_id d)) (md_child_bindings d) (rf_parents_of v)
        else rf_parents_of v)\<rparr>"

definition refinement_view :: "TaskNetworkSnapshot \<Rightarrow> RefinementView" where
  "refinement_view S = fold (add_alternative S) (sorted_instances S) \<lparr>rf_alternatives = [], rf_parents_of = []\<rparr>"

definition alternatives_for :: "RefinementView \<Rightarrow> string \<Rightarrow> MethodAlternative list" where
  "alternatives_for v i = dict_get (rf_alternatives v) i []"

definition adopted_for :: "RefinementView \<Rightarrow> string \<Rightarrow> MethodAlternative option" where
  "adopted_for v i = find ma_adopted (alternatives_for v i)"

text \<open>Every parent the loop can push is a value of \<open>parents_of\<close>, which is the universe of the exploration.\<close>

definition view_ancestors :: "RefinementView \<Rightarrow> string \<Rightarrow> string list" where
  "view_ancestors v i =
     explore (concat (map snd (rf_parents_of v))) (\<lambda>j. dict_get (rf_parents_of v) j []) (rev (dict_get (rf_parents_of v) i [])) []"

definition support_view :: "TaskNetworkSnapshot \<Rightarrow> (string \<times> TypedEdge list) list \<times> (string \<times> TypedEdge list) list" where
  "support_view S =
     (let es = filter (\<lambda>e. te_relation e \<in> {RK_SUPPORT, RK_ASSUMPTION}) (nw_typed_edges S) in
      (fold (\<lambda>e. dict_append (ne_id (te_target e)) e) es [], fold (\<lambda>e. dict_append (te_label e) e) es []))"

definition supervision_view :: "TaskNetworkSnapshot \<Rightarrow> (string \<times> string list) list \<times> (string \<times> string list) list" where
  "supervision_view S =
     (let es = filter (\<lambda>e. te_relation e = RK_SUPERVISION) (nw_typed_edges S) in
      (fold (\<lambda>e. dict_append (ne_id (te_source e)) (ne_id (te_target e))) es [],
       fold (\<lambda>e. dict_append (ne_id (te_target e)) (ne_id (te_source e))) es []))"

section \<open>The execution projection\<close>

datatype ProjectionNodeKind = PN_OCCURRENCE | PN_COMPOUND_ENTRY | PN_COMPOUND_EXIT

datatype ProjectionEdgeKind = PE_REFINEMENT_OPEN | PE_REFINEMENT_CLOSE | PE_COMPOUND_SPAN | PE_ORDER | PE_DATA

fun str_ProjectionEdgeKind :: "ProjectionEdgeKind \<Rightarrow> string" where
  "str_ProjectionEdgeKind PE_REFINEMENT_OPEN = ''refinement_open''"
| "str_ProjectionEdgeKind PE_REFINEMENT_CLOSE = ''refinement_close''"
| "str_ProjectionEdgeKind PE_COMPOUND_SPAN = ''compound_span''"
| "str_ProjectionEdgeKind PE_ORDER = ''order''"
| "str_ProjectionEdgeKind PE_DATA = ''data''"

definition node_id :: "string \<Rightarrow> string \<Rightarrow> string" where
  "node_id occ suffix = decimal_nat (length occ) @ '':'' @ occ @ '':'' @ suffix"

record ProjectionNode =
  pn_node_id :: string
  pn_kind :: ProjectionNodeKind
  pn_occurrence_id :: string
  pn_task_id :: string
  pn_obligation_id :: string
  pn_ordinal :: nat
  pn_billable :: bool

definition is_gate :: "ProjectionNode \<Rightarrow> bool" where
  "is_gate n \<longleftrightarrow> pn_kind n \<noteq> PN_OCCURRENCE"

record ProjectionEdge =
  pe_source :: string
  pe_target :: string
  pe_kind :: ProjectionEdgeKind
  pe_origin :: string

record ExecutionProjection =
  pj_mission_id :: string
  pj_plan_revision :: int
  pj_nodes :: "ProjectionNode list"
  pj_edges :: "ProjectionEdge list"
  pj_occurrences :: "string list"
  pj_unprojected :: "(string \<times> string) list"

definition successors_of :: "TaskNetworkSnapshot \<Rightarrow> string \<Rightarrow> string list" where
  "successors_of S i = (case adopted_children S i of Inl e \<Rightarrow> [] | Inr cs \<Rightarrow> map cb_occurrence_id cs)"

definition reachable_occurrences :: "TaskNetworkSnapshot \<Rightarrow> string list" where
  "reachable_occurrences S =
     explore (map oc_occurrence_id (nw_occurrences S)) (successors_of S) (rev (nw_root_occurrence_ids S)) []"

definition raw_nodes :: "OccurrenceSpec \<Rightarrow> (string \<times> ProjectionNodeKind \<times> OccurrenceSpec) list" where
  "raw_nodes s =
     (let i = oc_occurrence_id s in
      if oc_form s = COMPOUND then [(node_id i ''entry'', PN_COMPOUND_ENTRY, s), (node_id i ''exit'', PN_COMPOUND_EXIT, s)]
      else [(node_id i ''node'', PN_OCCURRENCE, s)])"

definition compile_node :: "nat \<Rightarrow> string \<times> ProjectionNodeKind \<times> OccurrenceSpec \<Rightarrow> ProjectionNode" where
  "compile_node n x =
     (case x of (i, k, s) \<Rightarrow>
        \<lparr>pn_node_id = i, pn_kind = k, pn_occurrence_id = oc_occurrence_id s, pn_task_id = oc_task_id s,
         pn_obligation_id = oc_obligation_id s, pn_ordinal = n, pn_billable = (k = PN_OCCURRENCE)\<rparr>)"

definition compile_nodes :: "TaskNetworkSnapshot \<Rightarrow> string list \<Rightarrow> contract_error + ProjectionNode list" where
  "compile_nodes S reachable =
     rbind (map_result (occurrence S) reachable) (\<lambda>specs.
     let raw = sort_key fst (concat (map raw_nodes specs)) in
     Inr (map (\<lambda>(n, x). compile_node n x) (zip [0..<length raw] raw)))"

definition entry_index :: "ProjectionNode list \<Rightarrow> (string \<times> string) list" where
  "entry_index nodes =
     fold (\<lambda>n. if pn_kind n \<noteq> PN_COMPOUND_EXIT then dict_set (pn_occurrence_id n) (pn_node_id n) else (\<lambda>d. d)) nodes []"

definition exit_index :: "ProjectionNode list \<Rightarrow> (string \<times> string) list" where
  "exit_index nodes =
     fold (\<lambda>n. if pn_kind n \<noteq> PN_COMPOUND_ENTRY then dict_set (pn_occurrence_id n) (pn_node_id n) else (\<lambda>d. d)) nodes []"

definition make_edge :: "(string \<times> string) list \<Rightarrow> string \<Rightarrow> (string \<times> string) list \<Rightarrow> string \<Rightarrow> ProjectionEdgeKind \<Rightarrow> string \<Rightarrow>
    contract_error + ProjectionEdge" where
  "make_edge froms x tos y k origin =
     rbind (lookup (map_of froms x) x) (\<lambda>s. rbind (lookup (map_of tos y) y) (\<lambda>t.
     Inr \<lparr>pe_source = s, pe_target = t, pe_kind = k, pe_origin = origin\<rparr>))"

definition child_edges ::
  "(string \<times> string) list \<Rightarrow> (string \<times> string) list \<Rightarrow> string \<Rightarrow> ChildBinding \<Rightarrow> contract_error + ProjectionEdge list" where
  "child_edges entries exits i c =
     rbind (make_edge entries i entries (cb_occurrence_id c) PE_REFINEMENT_OPEN (''slot:'' @ cb_slot_key c)) (\<lambda>e.
     if gating c then
       rbind (make_edge exits (cb_occurrence_id c) exits i PE_REFINEMENT_CLOSE (''slot:'' @ cb_slot_key c)) (\<lambda>e'. Inr [e, e'])
     else Inr [e])"

definition refinement_edges ::
  "TaskNetworkSnapshot \<Rightarrow> (string \<times> string) list \<Rightarrow> (string \<times> string) list \<Rightarrow> string \<Rightarrow> contract_error + ProjectionEdge list" where
  "refinement_edges S entries exits i =
     rbind (occurrence S i) (\<lambda>s.
     if oc_form s \<noteq> COMPOUND then Inr []
     else
       rbind (adopted_children S i) (\<lambda>children.
       rbind (if \<exists>c\<in>set children. gating c then Inr []
              else rbind (make_edge entries i exits i PE_COMPOUND_SPAN
                  (''span:'' @ i @ '':'' @ (if children = [] then ''unexpanded'' else ''no_gating_children''))) (\<lambda>e. Inr [e])) (\<lambda>span.
       rbind (map_result (child_edges entries exits i) children) (\<lambda>es.
       Inr (span @ concat es)))))"

text \<open>The edge of a constraint between two projected occurrences, or the endpoints that are not projected.\<close>

definition link ::
  "string list \<Rightarrow> (string \<times> string) list \<Rightarrow> (string \<times> string) list \<Rightarrow> string \<Rightarrow> string \<Rightarrow> ProjectionEdgeKind \<Rightarrow> string \<Rightarrow> string \<Rightarrow>
    contract_error + ProjectionEdge list \<times> (string \<times> string) list" where
  "link reachable entries exits x y k origin who =
     (if x \<in> set reachable \<and> y \<in> set reachable
      then rbind (make_edge exits x entries y k origin) (\<lambda>e. Inr ([e], []))
      else Inr ([], map (\<lambda>z. (who, z)) (filter (\<lambda>z. z \<notin> set reachable) [x, y])))"

definition order_link ::
  "string list \<Rightarrow> (string \<times> string) list \<Rightarrow> (string \<times> string) list \<Rightarrow> OrderConstraint \<Rightarrow> contract_error + ProjectionEdge list \<times> (string \<times> string) list" where
  "order_link reachable entries exits c =
     (let who = ''order:'' @ or_before c @ ''->'' @ or_after c in
      link reachable entries exits (or_before c) (or_after c) PE_ORDER (who @ '':'' @ str_ReleaseCondition (or_release_condition c)) who)"

definition data_link ::
  "string list \<Rightarrow> (string \<times> string) list \<Rightarrow> (string \<times> string) list \<Rightarrow> DataRequirement \<Rightarrow> contract_error + ProjectionEdge list \<times> (string \<times> string) list" where
  "data_link reachable entries exits r =
     (let who = ''data:'' @ dr_requirement_id r in
      link reachable entries exits (dr_producer_occurrence r) (dr_consumer_occurrence r) PE_DATA who who)"

definition edge_key :: "ProjectionEdge \<Rightarrow> string \<times> string \<times> string \<times> string" where
  "edge_key e = (pe_source e, pe_target e, str_ProjectionEdgeKind (pe_kind e), pe_origin e)"

definition execution_projection :: "TaskNetworkSnapshot \<Rightarrow> contract_error + ExecutionProjection" where
  "execution_projection S =
     (let reachable = reachable_occurrences S in
      rbind (compile_nodes S reachable) (\<lambda>nodes.
      let entries = entry_index nodes; exits = exit_index nodes in
      rbind (map_result (refinement_edges S entries exits) (sort_key (\<lambda>i. i) reachable)) (\<lambda>refs.
      rbind (map_result (order_link reachable entries exits) (nw_order_constraints S)) (\<lambda>orders.
      rbind (map_result (data_link reachable entries exits) (nw_data_requirements S)) (\<lambda>datas.
      Inr \<lparr>pj_mission_id = nw_mission_id S, pj_plan_revision = nw_plan_revision S, pj_nodes = nodes,
           pj_edges = sort_key edge_key (concat refs @ concat (map fst orders) @ concat (map fst datas)),
           pj_occurrences = reachable,
           pj_unprojected = sort_key (\<lambda>x. x) (concat (map snd orders) @ concat (map snd datas))\<rparr>)))))"

section \<open>Queries of the projection\<close>

definition node_ids :: "ExecutionProjection \<Rightarrow> string list" where
  "node_ids P = map pn_node_id (pj_nodes P)"

definition projection_node :: "ExecutionProjection \<Rightarrow> string \<Rightarrow> contract_error + ProjectionNode" where
  "projection_node P i = lookup (map_of (rev (map (\<lambda>n. (pn_node_id n, n)) (pj_nodes P))) i) i"

definition entry_node_id :: "ExecutionProjection \<Rightarrow> string \<Rightarrow> contract_error + string" where
  "entry_node_id P i = lookup (map_of (entry_index (pj_nodes P)) i) i"

definition exit_node_id :: "ExecutionProjection \<Rightarrow> string \<Rightarrow> contract_error + string" where
  "exit_node_id P i = lookup (map_of (exit_index (pj_nodes P)) i) i"

definition dict_default :: "'k \<Rightarrow> ('k \<times> 'v list) list \<Rightarrow> ('k \<times> 'v list) list" where
  "dict_default k d = (if map_of d k = None then dict_set k [] d else d)"

definition successors :: "ExecutionProjection \<Rightarrow> (string \<times> string list) list" where
  "successors P =
     fold (\<lambda>e d. dict_default (pe_target e) (dict_append (pe_source e) (pe_target e) d)) (pj_edges P)
       (fold dict_default (node_ids P) [])"

definition predecessors :: "ExecutionProjection \<Rightarrow> (string \<times> string list) list" where
  "predecessors P =
     fold (\<lambda>e d. dict_default (pe_source e) (dict_append (pe_target e) (pe_source e) d)) (pj_edges P)
       (fold dict_default (node_ids P) [])"

definition flip_edge :: "string \<times> string \<Rightarrow> (string \<times> string list) list \<Rightarrow> (string \<times> string list) list" where
  "flip_edge e d =
     (let d' = dict_default (snd e) (dict_default (fst e) d) in
      if fst e \<in> set (dict_get d' (snd e) []) then d' else dict_append (snd e) (fst e) d')"

definition flip_to_dependency_map :: "(string \<times> string) list \<Rightarrow> (string \<times> string list) list" where
  "flip_to_dependency_map es = fold flip_edge es []"

definition flip_from_dependency_map :: "(string \<times> string list) list \<Rightarrow> (string \<times> string) list" where
  "flip_from_dependency_map d = concat (map (\<lambda>(t, ss). map (\<lambda>s. (s, t)) ss) d)"

definition to_dependency_map :: "ExecutionProjection \<Rightarrow> (string \<times> string list) list" where
  "to_dependency_map P =
     fold dict_default (node_ids P) (flip_to_dependency_map (map (\<lambda>e. (pe_source e, pe_target e)) (pj_edges P)))"

definition ordinals :: "ExecutionProjection \<Rightarrow> (string \<times> nat) list" where
  "ordinals P = fold (\<lambda>n. dict_set (pn_node_id n) (pn_ordinal n)) (pj_nodes P) []"

end
