(* ===== verification/Plan_Checks.thy ===== *)
theory Plan_Checks
  imports Task_Network Topology Task_Graph
begin

text \<open>
  The structural checks on a compiled projection (\<open>graph/projection_validation.py\<close>): size bounds, dangling edges, cycles, depth,
  refinement wiring, duplicate slots, ports, orphans, root coverage and resource conflicts, each reported as its own kind of
  problem, and the acyclicity of instantiated refinement per configuration. The projection of the source carries its snapshot;
  here the snapshot is an argument. A message of the report is a structured value, and its rendering, which only decides the
  order of problems of one kind, is a parameter. A missing key is a left value.
\<close>

section \<open>The report\<close>

datatype ProblemKind =
    PK_CYCLE | PK_DANGLING_ENDPOINT | PK_MISSING_EDGE | PK_NO_GATING_CHILDREN | PK_DUPLICATE_SLOT | PK_UNBOUND_PORT
  | PK_SINGLE_PORT_OVERBOUND | PK_SET_PORT_UNORDERED | PK_ORPHAN_OBLIGATION | PK_UNREACHED_REQUIRED_OCCURRENCE
  | PK_ROOT_COVERAGE_GAP | PK_RESOURCE_CONFLICT | PK_BOUND_REACHED | PK_PARTIAL_CHECK

fun str_ProblemKind :: "ProblemKind \<Rightarrow> string" where
  "str_ProblemKind PK_CYCLE = ''cycle''"
| "str_ProblemKind PK_DANGLING_ENDPOINT = ''dangling_endpoint''"
| "str_ProblemKind PK_MISSING_EDGE = ''missing_edge''"
| "str_ProblemKind PK_NO_GATING_CHILDREN = ''no_gating_children''"
| "str_ProblemKind PK_DUPLICATE_SLOT = ''duplicate_slot''"
| "str_ProblemKind PK_UNBOUND_PORT = ''unbound_port''"
| "str_ProblemKind PK_SINGLE_PORT_OVERBOUND = ''single_port_overbound''"
| "str_ProblemKind PK_SET_PORT_UNORDERED = ''set_port_unordered''"
| "str_ProblemKind PK_ORPHAN_OBLIGATION = ''orphan_obligation''"
| "str_ProblemKind PK_UNREACHED_REQUIRED_OCCURRENCE = ''unreached_required_occurrence''"
| "str_ProblemKind PK_ROOT_COVERAGE_GAP = ''root_coverage_gap''"
| "str_ProblemKind PK_RESOURCE_CONFLICT = ''resource_conflict''"
| "str_ProblemKind PK_BOUND_REACHED = ''bound_reached''"
| "str_ProblemKind PK_PARTIAL_CHECK = ''partial_check''"

datatype Configuration = AdoptedConfiguration | SwappedConfiguration string string

datatype ProblemDetail =
    TooManyNodes nat int int
  | TooManyEdges nat int int
  | FanOut int int int
  | TooDeep int int int
  | DanglingEdge string string
  | NotADag "string list" nat
  | CheckedInPart nat nat nat
  | AllSlotsOptional string nat
  | SlotNotProjected string string string
  | SlotNotOpened string string string
  | SlotDoesNotGate string string string
  | EndpointNotProjected string string
  | SlotsShareOccurrence string "string list" string
  | UndeclaredOutput string string string
  | UndeclaredInput string string string
  | InputWithoutRequirement string string
  | InputOverbound string string "string list"
  | SetPortWithoutOrder string string string
  | ObligationWithoutOccurrence string
  | OccurrenceWithoutMethod string
  | CriteriaUncovered string "string list" string
  | UnorderedTouch string string "string \<times> string"
  | ListingStopped "string \<times> string" nat nat
  | RefinementCycle Configuration "string list"

record ProjectionProblem =
  pp_kind :: ProblemKind
  pp_detail :: ProblemDetail
  pp_nodes :: "string list"
  pp_path :: "string list"

record ProjectionReport =
  pr_budget_version :: int
  pr_problems :: "ProjectionProblem list"
  pr_topological_order :: "string list option"

definition report_ok :: "ProjectionReport \<Rightarrow> bool" where
  "report_ok R \<longleftrightarrow> pr_problems R = []"

definition of_kind :: "ProjectionReport \<Rightarrow> ProblemKind \<Rightarrow> ProjectionProblem list" where
  "of_kind R k = filter (\<lambda>p. pp_kind p = k) (pr_problems R)"

definition problem :: "ProblemKind \<Rightarrow> ProblemDetail \<Rightarrow> string list \<Rightarrow> ProjectionProblem" where
  "problem k d nodes = \<lparr>pp_kind = k, pp_detail = d, pp_nodes = nodes, pp_path = []\<rparr>"

definition sorted_problems :: "(ProblemDetail \<Rightarrow> string) \<Rightarrow> ProjectionProblem list \<Rightarrow> ProjectionProblem list" where
  "sorted_problems render = sort_key (\<lambda>p. (str_ProblemKind (pp_kind p), render (pp_detail p), pp_nodes p))"

section \<open>The execution-path entry point\<close>

datatype integrity_error = GraphIntegrityError "string list" "string list" | Contract_failure contract_error

definition declared_successors :: "ExecutionProjection \<Rightarrow> adjacency" where
  "declared_successors P =
     fold (\<lambda>e. if pe_source e \<in> set (node_ids P) \<and> pe_target e \<in> set (node_ids P) then dict_append (pe_source e) (pe_target e) else (\<lambda>d. d))
       (pj_edges P) (map (\<lambda>i. (i, [])) (remdups (node_ids P)))"

definition require_topological_order :: "ExecutionProjection \<Rightarrow> integrity_error + string list" where
  "require_topological_order P =
     (let succ = declared_successors P in
      case kahn_order succ (ordinals P) of
        Inl e \<Rightarrow> Inl (Contract_failure e)
      | Inr (placed, remaining) \<Rightarrow>
          if remaining \<noteq> [] then Inl (GraphIntegrityError remaining (find_cycle succ remaining)) else Inr placed)"

section \<open>Sizes and edges\<close>

definition edge_fan_out :: "ExecutionProjection \<Rightarrow> (string \<times> int) list" where
  "edge_fan_out P = fold (\<lambda>e d. dict_set (pe_source e) (dict_get d (pe_source e) 0 + 1) d) (pj_edges P) []"

definition check_bounds :: "ExecutionProjection \<Rightarrow> GraphStructureBudget \<Rightarrow> ProjectionProblem list" where
  "check_bounds P B =
     (let version = gs_budget_version B; n = length (pj_nodes P); m = length (pj_edges P); counts = edge_fan_out P;
          widest = fold max (map snd counts) 0; limit = gs_max_fan_out B in
      (if int n > gs_max_nodes B then [problem PK_BOUND_REACHED (TooManyNodes n version (gs_max_nodes B)) []] else []) @
      (if int m > gs_max_edges B then [problem PK_BOUND_REACHED (TooManyEdges m version (gs_max_edges B)) []] else []) @
      (if widest > limit
       then [problem PK_BOUND_REACHED (FanOut widest version limit) (sort (map fst (filter (\<lambda>(k, n). n > limit) counts)))] else []))"

definition check_depth :: "adjacency \<Rightarrow> string list \<Rightarrow> GraphStructureBudget \<Rightarrow> ProjectionProblem list" where
  "check_depth succ order B =
     (let depth = longest_path_depth succ order in
      if depth \<le> gs_max_depth B then []
      else [problem PK_BOUND_REACHED (TooDeep depth (gs_budget_version B) (gs_max_depth B)) []])"

definition check_dangling :: "ExecutionProjection \<Rightarrow> ProjectionProblem list" where
  "check_dangling P =
     concat (map (\<lambda>e. map (\<lambda>i. problem PK_DANGLING_ENDPOINT (DanglingEdge (pe_origin e) i) [i])
       (filter (\<lambda>i. i \<notin> set (node_ids P)) [pe_source e, pe_target e])) (pj_edges P))"

section \<open>Refinement wiring\<close>

definition has_edge :: "ExecutionProjection \<Rightarrow> string \<Rightarrow> string \<Rightarrow> bool" where
  "has_edge P s t \<longleftrightarrow> (s, t) \<in> set (map (\<lambda>e. (pe_source e, pe_target e)) (pj_edges P))"

definition check_slot ::
  "ExecutionProjection \<Rightarrow> string \<Rightarrow> string \<Rightarrow> string \<Rightarrow> ChildBinding \<Rightarrow> contract_error + ProjectionProblem list" where
  "check_slot P i entry leave c =
     (let j = cb_occurrence_id c in
      if j \<notin> set (pj_occurrences P) then Inr [problem PK_MISSING_EDGE (SlotNotProjected (cb_slot_key c) i j) []]
      else
        rbind (entry_node_id P j) (\<lambda>child_entry.
        rbind (exit_node_id P j) (\<lambda>child_exit.
        Inr ((if has_edge P entry child_entry then []
              else [problem PK_MISSING_EDGE (SlotNotOpened i (cb_slot_key c) j) [entry, child_entry]]) @
             (if gating c \<and> \<not> has_edge P child_exit leave
              then [problem PK_MISSING_EDGE (SlotDoesNotGate (cb_slot_key c) j i) [child_exit, leave]] else [])))))"

definition check_wiring_at :: "TaskNetworkSnapshot \<Rightarrow> ExecutionProjection \<Rightarrow> string \<Rightarrow> contract_error + ProjectionProblem list" where
  "check_wiring_at S P i =
     rbind (occurrence S i) (\<lambda>s.
     if oc_form s \<noteq> COMPOUND then Inr []
     else
       rbind (adopted_children S i) (\<lambda>children.
       if children = [] then Inr []
       else
         rbind (entry_node_id P i) (\<lambda>entry.
         rbind (exit_node_id P i) (\<lambda>leave.
         rbind (map_result (check_slot P i entry leave) children) (\<lambda>ps.
         Inr ((if \<exists>c\<in>set children. gating c then []
               else [problem PK_NO_GATING_CHILDREN (AllSlotsOptional i (length children)) [entry, leave]]) @ concat ps))))))"

definition check_refinement_wiring :: "TaskNetworkSnapshot \<Rightarrow> ExecutionProjection \<Rightarrow> contract_error + ProjectionProblem list" where
  "check_refinement_wiring S P =
     rbind (map_result (check_wiring_at S P) (sort (pj_occurrences P))) (\<lambda>ps.
     Inr (concat ps @ map (\<lambda>(who, i). problem PK_MISSING_EDGE (EndpointNotProjected who i) []) (pj_unprojected P)))"

definition slots_by_occurrence :: "MethodInstanceDraft \<Rightarrow> (string \<times> string list) list" where
  "slots_by_occurrence d = fold (\<lambda>c. dict_append (cb_occurrence_id c) (cb_slot_key c)) (md_child_bindings d) []"

definition check_duplicate_slots :: "TaskNetworkSnapshot \<Rightarrow> ProjectionProblem list" where
  "check_duplicate_slots S =
     concat (map (\<lambda>d. concat (map (\<lambda>i.
         let slots = sort (dict_get (slots_by_occurrence d) i []) in
         if length slots > 1 then [problem PK_DUPLICATE_SLOT (SlotsShareOccurrence (md_instance_id d) slots i) []] else [])
       (sort (dict_keys (slots_by_occurrence d)))))
     (filter (\<lambda>d. is_adopted S (md_instance_id d)) (sorted_instances S)))"

section \<open>Ports\<close>

definition set_order_declared :: "PortSpec \<Rightarrow> bool" where
  "set_order_declared p \<longleftrightarrow> po_cardinality p \<noteq> PC_SET \<or> po_ordering p \<noteq> None"

definition undeclared_set_ports :: "PortSpec list \<Rightarrow> string list" where
  "undeclared_set_ports ports = map po_port_key (filter (\<lambda>p. \<not> set_order_declared p) ports)"

definition bound_ports :: "TaskNetworkSnapshot \<Rightarrow> ((string \<times> string) \<times> string list) list" where
  "bound_ports S =
     fold (\<lambda>r. dict_append (dr_consumer_occurrence r, dr_input_port r) (dr_requirement_id r)) (nw_data_requirements S) []"

definition check_requirement_ports ::
  "TaskNetworkSnapshot \<Rightarrow> ExecutionProjection \<Rightarrow> DataRequirement \<Rightarrow> contract_error + ProjectionProblem list" where
  "check_requirement_ports S P r =
     (let producer = dr_producer_occurrence r; consumer = dr_consumer_occurrence r in
      rbind (if producer \<in> set (pj_occurrences P)
             then rbind (binding_for_occurrence S producer) (\<lambda>b.
               Inr (if dr_output_port r \<in> set (map po_port_key (sb_output_ports b)) then []
                    else [problem PK_UNBOUND_PORT (UndeclaredOutput (dr_requirement_id r) (dr_output_port r) producer) []]))
             else Inr []) (\<lambda>outs.
      rbind (if consumer \<in> set (pj_occurrences P)
             then rbind (binding_for_occurrence S consumer) (\<lambda>b.
               Inr (if dr_input_port r \<in> set (map po_port_key (sb_input_ports b)) then []
                    else [problem PK_UNBOUND_PORT (UndeclaredInput (dr_requirement_id r) (dr_input_port r) consumer) []]))
             else Inr []) (\<lambda>ins.
      Inr (outs @ ins))))"

definition check_input_port :: "TaskNetworkSnapshot \<Rightarrow> string \<Rightarrow> PortSpec \<Rightarrow> ProjectionProblem list" where
  "check_input_port S i p =
     (let requirements = sort (dict_get (bound_ports S) (i, po_port_key p) []) in
      if requirements = [] then
        (if po_required p then [problem PK_UNBOUND_PORT (InputWithoutRequirement (po_port_key p) i) []] else [])
      else if po_cardinality p = PC_SINGLE \<and> length requirements > 1
      then [problem PK_SINGLE_PORT_OVERBOUND (InputOverbound (po_port_key p) i requirements) []] else [])"

definition check_set_port_ordering :: "TaskNetworkSnapshot \<Rightarrow> ExecutionProjection \<Rightarrow> contract_error + ProjectionProblem list" where
  "check_set_port_ordering S P =
     rbind (map_result (binding_for_occurrence S) (sort (pj_occurrences P))) (\<lambda>bs.
     Inr (concat (map (\<lambda>(i, b). concat (map (\<lambda>(label, ports).
         map (\<lambda>k. problem PK_SET_PORT_UNORDERED (SetPortWithoutOrder label k i) []) (undeclared_set_ports ports))
       [(''input'', sb_input_ports b), (''output'', sb_output_ports b)])) (zip (sort (pj_occurrences P)) bs))))"

definition check_ports :: "TaskNetworkSnapshot \<Rightarrow> ExecutionProjection \<Rightarrow> contract_error + ProjectionProblem list" where
  "check_ports S P =
     rbind (map_result (check_requirement_ports S P) (nw_data_requirements S)) (\<lambda>rs.
     rbind (map_result (\<lambda>i. rbind (binding_for_occurrence S i) (\<lambda>b. Inr (concat (map (check_input_port S i) (sb_input_ports b)))))
         (sort (pj_occurrences P))) (\<lambda>is.
     rbind (check_set_port_ordering S P) (\<lambda>os.
     Inr (concat rs @ concat is @ os))))"

section \<open>Orphans and coverage\<close>

definition check_orphans :: "TaskNetworkSnapshot \<Rightarrow> ExecutionProjection \<Rightarrow> contract_error + ProjectionProblem list" where
  "check_orphans S P =
     rbind (map_result (occurrence S) (pj_occurrences P)) (\<lambda>specs.
     let covered = map oc_obligation_id specs;
         held = map cb_occurrence_id (concat (map md_child_bindings (nw_method_instances S))) in
     Inr (map (\<lambda>ob. problem PK_ORPHAN_OBLIGATION (ObligationWithoutOccurrence ob) [])
            (filter (\<lambda>ob. ob \<notin> set covered) (nw_required_obligations S)) @
          map (\<lambda>s. problem PK_UNREACHED_REQUIRED_OCCURRENCE (OccurrenceWithoutMethod (oc_occurrence_id s)) [])
            (filter (\<lambda>s. oc_requiredness s = RQ_REQUIRED \<and>
                \<not> (oc_occurrence_id s \<in> set (pj_occurrences P) \<or> oc_occurrence_id s \<in> set held)) (nw_occurrences S))))"

definition covered_criteria :: "TaskNetworkSnapshot \<Rightarrow> ExecutionProjection \<Rightarrow> string \<Rightarrow> string list" where
  "covered_criteria S P ob =
     concat (map cv_criterion_ids (filter (\<lambda>c. cv_obligation_id c = ob \<and> (\<forall>i\<in>set (cv_covered_by c). i \<in> set (pj_occurrences P)))
       (nw_obligation_coverage S)))"

definition check_root :: "TaskNetworkSnapshot \<Rightarrow> ExecutionProjection \<Rightarrow> string \<Rightarrow> contract_error + ProjectionProblem list" where
  "check_root S P i =
     rbind (occurrence S i) (\<lambda>s.
     rbind (binding_for_task S (oc_task_id s)) (\<lambda>b.
     let wanted = gl_coverage_criteria (sb_goal_signature b);
         missing = sort (remdups (filter (\<lambda>c. c \<notin> set (covered_criteria S P (oc_obligation_id s))) wanted)) in
     Inr (if missing = [] then [] else [problem PK_ROOT_COVERAGE_GAP (CriteriaUncovered i missing (oc_obligation_id s)) [i]])))"

definition check_root_coverage :: "TaskNetworkSnapshot \<Rightarrow> ExecutionProjection \<Rightarrow> contract_error + ProjectionProblem list" where
  "check_root_coverage S P = rbind (map_result (check_root S P) (nw_root_occurrence_ids S)) (\<lambda>ps. Inr (concat ps))"

section \<open>Resource conflicts\<close>

definition resource_key :: "ResourceRef \<Rightarrow> string \<times> string" where
  "resource_key r = (rr_namespace r, rr_object_id r)"

definition resource_conflicts ::
  "ResourceRef list \<Rightarrow> ResourceRef list \<Rightarrow> ResourceRef list \<Rightarrow> ResourceRef list \<Rightarrow> ResourceRef list" where
  "resource_conflicts left_reads left_writes right_reads right_writes =
     (let keys = (\<lambda>rs. set (map resource_key rs));
          clashing = (keys left_writes \<inter> keys right_writes) \<union> (keys left_writes \<inter> keys right_reads) \<union> (keys right_writes \<inter> keys left_reads);
          refs = left_reads @ left_writes @ right_reads @ right_writes;
          by_key = fold (\<lambda>r. dict_set (resource_key r) r) refs [] in
      map (\<lambda>k. the (map_of by_key k)) (sort (remdups (filter (\<lambda>k. k \<in> clashing) (map resource_key refs)))))"

definition MAX_CONFLICTS_PER_RESOURCE :: nat where
  "MAX_CONFLICTS_PER_RESOURCE = 32"

definition is_ordered :: "ExecutionProjection \<Rightarrow> adjacency \<Rightarrow> string \<Rightarrow> string \<Rightarrow> contract_error + bool" where
  "is_ordered P succ first second =
     rbind (exit_node_id P first) (\<lambda>source.
     rbind (entry_node_id P second) (\<lambda>target.
     Inr (source \<in> set (dict_keys succ) \<and> target \<in> set (reachable_from succ source))))"

fun later_pairs :: "'a list \<Rightarrow> ('a \<times> 'a) list" where
  "later_pairs [] = []"
| "later_pairs (x # xs) = map (Pair x) xs @ later_pairs xs"

definition unordered_pair ::
  "TaskNetworkSnapshot \<Rightarrow> ExecutionProjection \<Rightarrow> adjacency \<Rightarrow> string \<times> string \<Rightarrow> string \<times> string \<Rightarrow> contract_error + bool" where
  "unordered_pair S P succ key pair =
     (case pair of (left, right) \<Rightarrow>
      if left = right then Inr False
      else
        rbind (binding_for_occurrence S left) (\<lambda>lb.
        rbind (binding_for_occurrence S right) (\<lambda>rb.
        if key \<notin> set (map resource_key (resource_conflicts (sb_resource_reads lb) (sb_resource_writes lb) (sb_resource_reads rb) (sb_resource_writes rb)))
        then Inr False
        else if right \<in> set (view_ancestors (refinement_view S) left) \<or> left \<in> set (view_ancestors (refinement_view S) right) then Inr False
        else
          rbind (is_ordered P succ left right) (\<lambda>a.
          if a then Inr False else rbind (is_ordered P succ right left) (\<lambda>b. Inr (\<not> b))))))"

fun filter_result :: "('a \<Rightarrow> 'e + bool) \<Rightarrow> 'a list \<Rightarrow> 'e + 'a list" where
  "filter_result f [] = Inr []"
| "filter_result f (x # xs) = rbind (f x) (\<lambda>b. rbind (filter_result f xs) (\<lambda>ys. Inr (if b then x # ys else ys)))"

definition resource_buckets ::
  "TaskNetworkSnapshot \<Rightarrow> ExecutionProjection \<Rightarrow> contract_error + ((string \<times> string) \<times> string list) list" where
  "resource_buckets S P =
     rbind (map_result (binding_for_occurrence S) (sort (pj_occurrences P))) (\<lambda>bs.
     Inr (fold (\<lambda>(i, b). fold (\<lambda>r. dict_append (resource_key r) i) (sb_resource_reads b @ sb_resource_writes b))
       (zip (sort (pj_occurrences P)) bs) []))"

text \<open>The first \<open>MAX_CONFLICTS_PER_RESOURCE\<close> unordered pairs of a resource are listed, and the report says when there are more.\<close>

definition check_bucket ::
  "TaskNetworkSnapshot \<Rightarrow> ExecutionProjection \<Rightarrow> adjacency \<Rightarrow> (string \<times> string) \<times> string list \<Rightarrow> contract_error + ProjectionProblem list" where
  "check_bucket S P succ bucket =
     (case bucket of (key, members) \<Rightarrow>
      rbind (filter_result (unordered_pair S P succ key) (later_pairs members)) (\<lambda>found.
      let listed = take MAX_CONFLICTS_PER_RESOURCE found in
      Inr (map (\<lambda>(left, right). problem PK_RESOURCE_CONFLICT (UnorderedTouch left right key) []) listed @
           (if length found > length listed
            then [problem PK_BOUND_REACHED (ListingStopped key (length found) (length listed)) []] else []))))"

definition check_resource_conflicts ::
  "TaskNetworkSnapshot \<Rightarrow> ExecutionProjection \<Rightarrow> adjacency \<Rightarrow> contract_error + ProjectionProblem list" where
  "check_resource_conflicts S P succ =
     rbind (resource_buckets S P) (\<lambda>buckets.
     rbind (map_result (check_bucket S P succ) (sort_key fst buckets)) (\<lambda>ps. Inr (concat ps)))"

section \<open>The two validations\<close>

definition cycle_problems :: "ExecutionProjection \<Rightarrow> adjacency \<Rightarrow> string list \<Rightarrow> string list \<Rightarrow> ProjectionProblem list" where
  "cycle_problems P succ placed remaining =
     (if remaining = [] then []
      else
        let cyc = find_cycle succ remaining in
        [(problem PK_CYCLE (NotADag cyc (length remaining)) remaining)\<lparr>pp_path := cyc\<rparr>,
         problem PK_PARTIAL_CHECK (CheckedInPart (length placed) (length (pj_nodes P)) (length remaining)) remaining])"

definition validate_execution_projection ::
  "(ProblemDetail \<Rightarrow> string) \<Rightarrow> TaskNetworkSnapshot \<Rightarrow> ExecutionProjection \<Rightarrow> GraphStructureBudget \<Rightarrow> contract_error + ProjectionReport" where
  "validate_execution_projection render S P B =
     (let succ = declared_successors P in
      rbind (kahn_order succ (ordinals P)) (\<lambda>(placed, remaining).
      let healthy = induced succ placed in
      rbind (check_refinement_wiring S P) (\<lambda>wiring.
      rbind (check_ports S P) (\<lambda>ports.
      rbind (check_orphans S P) (\<lambda>orphans.
      rbind (check_root_coverage S P) (\<lambda>coverage.
      rbind (check_resource_conflicts S P healthy) (\<lambda>conflicts.
      Inr \<lparr>pr_budget_version = gs_budget_version B,
           pr_problems = sorted_problems render
             (check_bounds P B @ check_dangling P @ cycle_problems P succ placed remaining @ check_depth healthy placed B @
              wiring @ check_duplicate_slots S @ ports @ orphans @ coverage @ conflicts),
           pr_topological_order = (if remaining = [] then Some placed else None)\<rparr>)))))))"

definition candidates :: "TaskNetworkSnapshot \<Rightarrow> (string \<times> string list) list" where
  "candidates S = fold (\<lambda>d. dict_append (effective_goal_occurrence_id d) (md_instance_id d)) (sorted_instances S) []"

definition base_choice :: "TaskNetworkSnapshot \<Rightarrow> (string \<times> string) list" where
  "base_choice S =
     map (\<lambda>(i, offered). (i, case filter (is_adopted S) offered of a # as \<Rightarrow> a | [] \<Rightarrow> hd offered)) (candidates S)"

definition configurations :: "TaskNetworkSnapshot \<Rightarrow> (Configuration \<times> string list) list" where
  "configurations S =
     (let base = base_choice S in
      if base = [] then []
      else (AdoptedConfiguration, sort (map snd base)) #
        concat (map (\<lambda>(i, offered). map (\<lambda>a. (SwappedConfiguration i a, sort (map snd (dict_set i a base))))
          (filter (\<lambda>a. map_of base i \<noteq> Some a) offered)) (candidates S)))"

definition add_draft :: "MethodInstanceDraft \<Rightarrow> adjacency \<Rightarrow> adjacency" where
  "add_draft d succ =
     (let parent = effective_goal_occurrence_id d in
      if parent \<notin> set (dict_keys succ) then succ
      else fold (\<lambda>c. dict_append parent (cb_occurrence_id c)) (md_child_bindings d) succ)"

definition configuration_successors :: "TaskNetworkSnapshot \<Rightarrow> string list \<Rightarrow> contract_error + adjacency" where
  "configuration_successors S chosen =
     rbind (map_result (instance_of S) chosen) (\<lambda>drafts.
     Inr (fold add_draft drafts (map (\<lambda>s. (oc_occurrence_id s, [])) (nw_occurrences S))))"

definition check_configuration :: "TaskNetworkSnapshot \<Rightarrow> Configuration \<times> string list \<Rightarrow> contract_error + ProjectionProblem list" where
  "check_configuration S config =
     rbind (configuration_successors S (snd config)) (\<lambda>succ.
     rbind (kahn_order succ (zip (sort (dict_keys succ)) [0..<length succ])) (\<lambda>(placed, remaining).
     Inr (if remaining = [] then []
          else let cyc = find_cycle succ remaining in
            [(problem PK_CYCLE (RefinementCycle (fst config) cyc) remaining)\<lparr>pp_path := cyc\<rparr>])))"

definition validate_refinement_acyclic ::
  "(ProblemDetail \<Rightarrow> string) \<Rightarrow> TaskNetworkSnapshot \<Rightarrow> contract_error + ProjectionReport" where
  "validate_refinement_acyclic render S =
     rbind (map_result (check_configuration S) (configurations S)) (\<lambda>ps.
     Inr \<lparr>pr_budget_version = 1, pr_problems = sorted_problems render (concat ps), pr_topological_order = None\<rparr>)"

end
