(* ===== verification/Dispatch_Inputs.thy ===== *)
theory Dispatch_Inputs
  imports Network_Contracts
begin

text \<open>
  What a dispatch reads besides the plan: the frozen input manifest (\<open>artifacts/input_bindings.py\<close>), approvals and the effect
  of external operations (\<open>contracts/resolution.py\<close>), settlements (\<open>graph/settlement.py\<close>), and the validated constructors of
  the read-set entries (\<open>contracts/htn.py\<close>). SHA-256 over canonical JSON is a parameter. Of an operation only the columns that
  the readiness gates read are kept.
\<close>

section \<open>Bound inputs\<close>

definition json_int :: "int option \<Rightarrow> json" where
  "json_int x = (case x of None \<Rightarrow> JNull | Some n \<Rightarrow> JInt n)"

record BoundInput =
  bi_requirement_id :: string
  bi_producer_result_id :: string
  bi_acceptance_id :: string
  bi_artifact_id :: string
  bi_content_hash :: string
  bi_schema_ref :: VersionedRef
  bi_source_revision :: string

definition check_BoundInput :: "BoundInput \<Rightarrow> contract_error + BoundInput" where
  "check_BoundInput b =
     rbind (identifier_of (JStr (bi_requirement_id b)) ''bound_input.requirement_id'') (\<lambda>_.
     rbind (identifier_of (JStr (bi_producer_result_id b)) ''bound_input.producer_result_id'') (\<lambda>_.
     rbind (identifier_of (JStr (bi_acceptance_id b)) ''bound_input.acceptance_id'') (\<lambda>_.
     rbind (identifier_of (JStr (bi_artifact_id b)) ''bound_input.artifact_id'') (\<lambda>_.
     rbind (hash_hex (JStr (bi_content_hash b)) ''bound_input.content_hash'') (\<lambda>_.
     rbind (identifier_of (JStr (bi_source_revision b)) ''bound_input.source_revision'') (\<lambda>_.
     Inr b))))))"

definition BoundInput_to_json :: "BoundInput \<Rightarrow> json" where
  "BoundInput_to_json b =
     JObj [(''requirement_id'', JStr (bi_requirement_id b)), (''producer_result_id'', JStr (bi_producer_result_id b)),
           (''acceptance_id'', JStr (bi_acceptance_id b)), (''artifact_id'', JStr (bi_artifact_id b)),
           (''content_hash'', JStr (bi_content_hash b)), (''schema_ref'', VersionedRef_to_json (bi_schema_ref b)),
           (''source_revision'', JStr (bi_source_revision b))]"

record ResourceIdentity =
  ri_namespace :: string
  ri_path :: string

record ResolvedInputBinding =
  rb_binding_id :: string
  rb_bound :: BoundInput
  rb_producer_task_ref :: string
  rb_producer_occurrence :: string
  rb_output_port :: string
  rb_support_revision :: int
  rb_consumer_task_ref :: string
  rb_input_port :: string
  rb_port_ordinal :: int
  rb_source_identity :: ResourceIdentity
  rb_produced_schema_ref :: VersionedRef
  rb_read_policy :: string
  rb_freshness_policy :: string
  rb_disclosure_scope :: string
  rb_source_revision_policy :: SourceRevisionPolicy
  rb_converter_ref :: "string option"
  rb_requires_reacceptance :: bool
  rb_provisional :: bool
  rb_witness_id :: "string option"

definition ResolvedInputBinding_to_json :: "ResolvedInputBinding \<Rightarrow> json" where
  "ResolvedInputBinding_to_json b =
     JObj [(''binding_id'', JStr (rb_binding_id b)), (''bound_input'', BoundInput_to_json (rb_bound b)),
           (''producer_task_ref'', JStr (rb_producer_task_ref b)), (''producer_occurrence'', JStr (rb_producer_occurrence b)),
           (''output_port'', JStr (rb_output_port b)), (''support_revision'', JInt (rb_support_revision b)),
           (''consumer_task_ref'', JStr (rb_consumer_task_ref b)), (''input_port'', JStr (rb_input_port b)),
           (''port_ordinal'', JInt (rb_port_ordinal b)),
           (''source_identity'', JObj [(''namespace'', JStr (ri_namespace (rb_source_identity b))), (''path'', JStr (ri_path (rb_source_identity b)))]),
           (''produced_schema_ref'', VersionedRef_to_json (rb_produced_schema_ref b)),
           (''read_policy'', JStr (rb_read_policy b)), (''freshness_policy'', JStr (rb_freshness_policy b)),
           (''disclosure_scope'', JStr (rb_disclosure_scope b)),
           (''source_revision_policy'', JStr (str_SourceRevisionPolicy (rb_source_revision_policy b))),
           (''converter_ref'', json_opt (rb_converter_ref b)), (''requires_reacceptance'', JBool (rb_requires_reacceptance b)),
           (''provisional'', JBool (rb_provisional b)), (''witness_id'', json_opt (rb_witness_id b))]"

record SymbolicBinding =
  sy_requirement_id :: string
  sy_producer_occurrence :: string
  sy_output_port :: string
  sy_consumer_task_ref :: string
  sy_input_port :: string

section \<open>The manifest\<close>

record InputManifest =
  im_consumer_task_ref :: string
  im_bindings :: "ResolvedInputBinding list"
  im_pending :: "SymbolicBinding list"

definition make_InputManifest :: "string \<Rightarrow> ResolvedInputBinding list \<Rightarrow> SymbolicBinding list \<Rightarrow> contract_error + InputManifest" where
  "make_InputManifest consumer bindings pending =
     (let ordered = sort_key (\<lambda>b. (rb_input_port b, rb_port_ordinal b, rb_binding_id b)) bindings in
      if \<not> distinct (map rb_binding_id ordered) then Inl (CE_duplicate ''manifest must not repeat a binding_id'')
      else Inr \<lparr>im_consumer_task_ref = consumer, im_bindings = ordered,
                im_pending = sort_key (\<lambda>s. (sy_input_port s, sy_requirement_id s)) pending\<rparr>)"

definition is_frozen :: "InputManifest \<Rightarrow> bool" where
  "is_frozen m \<longleftrightarrow> im_pending m = []"

definition for_port :: "InputManifest \<Rightarrow> string \<Rightarrow> ResolvedInputBinding list" where
  "for_port m k = filter (\<lambda>b. rb_input_port b = k) (im_bindings m)"

definition required_ports_satisfied :: "InputManifest \<Rightarrow> TaskSemanticBindingV1 \<Rightarrow> bool" where
  "required_ports_satisfied m consumer \<longleftrightarrow>
     (\<forall>p\<in>set (sb_input_ports consumer). po_required p \<longrightarrow> (\<exists>b\<in>set (for_port m (po_port_key p)). \<not> rb_provisional b))"

definition manifest_payload :: "InputManifest \<Rightarrow> json" where
  "manifest_payload m =
     JObj [(''consumer_task_ref'', JStr (im_consumer_task_ref m)), (''bindings'', JList (map ResolvedInputBinding_to_json (im_bindings m)))]"

text \<open>\<open>None\<close> is \<open>ManifestNotFrozen\<close>.\<close>

definition manifest_hash :: "(json \<Rightarrow> string) \<Rightarrow> InputManifest \<Rightarrow> string option" where
  "manifest_hash sha256_hex m = (if \<not> is_frozen m then None else Some (sha256_hex (manifest_payload m)))"

datatype ResolutionProblemKind =
    RPK_AMBIGUOUS_SINGLE_PORT | RPK_SET_PORT_UNORDERED | RPK_SET_PORT_ORDER_INCOMPLETE | RPK_UNDECLARED_PORT
  | RPK_FOREIGN_REQUIREMENT | RPK_UNBOUND_REQUIRED_PORT | RPK_SCHEMA_MISMATCH | RPK_NOT_DISCLOSABLE | RPK_WITNESS_MISSING
  | RPK_WITNESS_NOT_USABLE | RPK_WITNESS_PURPOSE_MISMATCH | RPK_WITNESS_CONSUMER_MISMATCH | RPK_WITNESS_SUPPORT_MISMATCH
  | RPK_WITNESS_EPOCH_UNKNOWN | RPK_PENDING_PRODUCER | RPK_PROVISIONAL_NOT_AUTHORIZED | RPK_REVISION_NOT_AVAILABLE
  | RPK_TARGET_PATH_CONFLICT | RPK_TARGET_PATH_INVALID

fun str_ResolutionProblemKind :: "ResolutionProblemKind \<Rightarrow> string" where
  "str_ResolutionProblemKind RPK_AMBIGUOUS_SINGLE_PORT = ''ambiguous_single_port''"
| "str_ResolutionProblemKind RPK_SET_PORT_UNORDERED = ''set_port_unordered''"
| "str_ResolutionProblemKind RPK_SET_PORT_ORDER_INCOMPLETE = ''set_port_order_incomplete''"
| "str_ResolutionProblemKind RPK_UNDECLARED_PORT = ''undeclared_port''"
| "str_ResolutionProblemKind RPK_FOREIGN_REQUIREMENT = ''foreign_requirement''"
| "str_ResolutionProblemKind RPK_UNBOUND_REQUIRED_PORT = ''unbound_required_port''"
| "str_ResolutionProblemKind RPK_SCHEMA_MISMATCH = ''schema_mismatch''"
| "str_ResolutionProblemKind RPK_NOT_DISCLOSABLE = ''not_disclosable''"
| "str_ResolutionProblemKind RPK_WITNESS_MISSING = ''witness_missing''"
| "str_ResolutionProblemKind RPK_WITNESS_NOT_USABLE = ''witness_not_usable''"
| "str_ResolutionProblemKind RPK_WITNESS_PURPOSE_MISMATCH = ''witness_purpose_mismatch''"
| "str_ResolutionProblemKind RPK_WITNESS_CONSUMER_MISMATCH = ''witness_consumer_mismatch''"
| "str_ResolutionProblemKind RPK_WITNESS_SUPPORT_MISMATCH = ''witness_support_mismatch''"
| "str_ResolutionProblemKind RPK_WITNESS_EPOCH_UNKNOWN = ''witness_epoch_unknown''"
| "str_ResolutionProblemKind RPK_PENDING_PRODUCER = ''pending_producer''"
| "str_ResolutionProblemKind RPK_PROVISIONAL_NOT_AUTHORIZED = ''provisional_not_authorized''"
| "str_ResolutionProblemKind RPK_REVISION_NOT_AVAILABLE = ''revision_not_available''"
| "str_ResolutionProblemKind RPK_TARGET_PATH_CONFLICT = ''target_path_conflict''"
| "str_ResolutionProblemKind RPK_TARGET_PATH_INVALID = ''target_path_invalid''"

text \<open>The message of a problem, as the values it is made of.\<close>

datatype ResolutionDetail =
    RD_foreign string string string
  | RD_undeclared string string string
  | RD_pending string string
  | RD_revision string string string
  | RD_port_schema string VersionedRef string VersionedRef
  | RD_artifact_schema string VersionedRef VersionedRef
  | RD_disclosure string string
  | RD_provisional string string
  | RD_no_witness string
  | RD_purpose string WitnessPurpose "WitnessPurpose list"
  | RD_consumer string TypedRef string
  | RD_support string int string int
  | RD_decision string WitnessDecision
  | RD_epoch string string
  | RD_stale string int int "int option"
  | RD_ambiguous string nat
  | RD_unordered string nat
  | RD_no_order_key string string nat
  | RD_no_explicit_order string
  | RD_explicit_order string "string list" "string list"
  | RD_shared_position string string
  | RD_unbound string string
  | RD_target_escapes string string
  | RD_target_conflict nat string string

record ResolutionProblem =
  rp_kind :: ResolutionProblemKind
  rp_detail :: ResolutionDetail
  rp_input_port :: "string option"
  rp_requirement_ids :: "string list"
  rp_candidates :: "string list"
  rp_input_ports :: "string list"

definition make_ResolutionProblem ::
  "ResolutionProblemKind \<Rightarrow> ResolutionDetail \<Rightarrow> string option \<Rightarrow> string list \<Rightarrow> string list \<Rightarrow> string list \<Rightarrow> ResolutionProblem" where
  "make_ResolutionProblem k d port ids found ports =
     \<lparr>rp_kind = k, rp_detail = d, rp_input_port = port, rp_requirement_ids = ids, rp_candidates = found,
      rp_input_ports = (case port of Some p \<Rightarrow> if ports = [] then [p] else ports | None \<Rightarrow> ports)\<rparr>"

record ResolutionResult =
  rr_manifest :: "InputManifest option"
  rr_problems :: "ResolutionProblem list"

section \<open>Approvals\<close>

datatype ApprovalDecision = AD_NOT_REQUIRED | AD_PENDING | AD_GRANTED | AD_DENIED | AD_EXPIRED

fun str_ApprovalDecision :: "ApprovalDecision \<Rightarrow> string" where
  "str_ApprovalDecision AD_NOT_REQUIRED = ''NOT_REQUIRED''"
| "str_ApprovalDecision AD_PENDING = ''PENDING''"
| "str_ApprovalDecision AD_GRANTED = ''GRANTED''"
| "str_ApprovalDecision AD_DENIED = ''DENIED''"
| "str_ApprovalDecision AD_EXPIRED = ''EXPIRED''"

record ApprovalState =
  ap_decision :: ApprovalDecision
  ap_granted_by :: "string option"
  ap_granted_at_ms :: "int option"
  ap_expires_at_ms :: "int option"

definition check_ApprovalState :: "ApprovalState \<Rightarrow> contract_error + ApprovalState" where
  "check_ApprovalState a =
     rbind (optional_identifier (json_opt (ap_granted_by a)) ''approval.granted_by'') (\<lambda>_.
     rbind (optional_index_min 0 (json_int (ap_granted_at_ms a)) ''approval.granted_at_ms'') (\<lambda>_.
     rbind (optional_index_min 0 (json_int (ap_expires_at_ms a)) ''approval.expires_at_ms'') (\<lambda>_.
     if ap_decision a = AD_GRANTED \<and> (ap_granted_by a = None \<or> ap_granted_at_ms a = None)
     then Inl (CE_rule ''a GRANTED approval must name who granted it and when'')
     else if ap_decision a \<in> {AD_NOT_REQUIRED, AD_PENDING} \<and> (ap_granted_by a \<noteq> None \<or> ap_granted_at_ms a \<noteq> None)
     then Inl (CE_rule ''an approval that is not granted may not carry a grantor or a grant time'')
     else if (case (ap_expires_at_ms a, ap_granted_at_ms a) of (Some e, Some g) \<Rightarrow> e < g | _ \<Rightarrow> False)
     then Inl (CE_rule ''approval.expires_at_ms precedes granted_at_ms'')
     else Inr a)))"

definition is_effective :: "ApprovalState \<Rightarrow> int \<Rightarrow> bool" where
  "is_effective a now_ms \<longleftrightarrow>
     ap_decision a = AD_GRANTED \<and> (case ap_expires_at_ms a of None \<Rightarrow> True | Some e \<Rightarrow> now_ms < e)"

definition ApprovalState_to_json :: "ApprovalState \<Rightarrow> json" where
  "ApprovalState_to_json a =
     JObj [(''decision'', JStr (str_ApprovalDecision (ap_decision a))), (''granted_by'', json_opt (ap_granted_by a)),
           (''granted_at_ms'', json_int (ap_granted_at_ms a)), (''expires_at_ms'', json_int (ap_expires_at_ms a))]"

definition no_approval_required :: ApprovalState where
  "no_approval_required = \<lparr>ap_decision = AD_NOT_REQUIRED, ap_granted_by = None, ap_granted_at_ms = None, ap_expires_at_ms = None\<rparr>"

section \<open>Operations and settlements\<close>

datatype EffectOutcome = EO_NOT_HANDED_OFF | EO_PENDING | EO_APPLIED | EO_NOT_APPLIED | EO_PARTIAL | EO_UNKNOWN

fun str_EffectOutcome :: "EffectOutcome \<Rightarrow> string" where
  "str_EffectOutcome EO_NOT_HANDED_OFF = ''NOT_HANDED_OFF''"
| "str_EffectOutcome EO_PENDING = ''PENDING''"
| "str_EffectOutcome EO_APPLIED = ''APPLIED''"
| "str_EffectOutcome EO_NOT_APPLIED = ''NOT_APPLIED''"
| "str_EffectOutcome EO_PARTIAL = ''PARTIAL''"
| "str_EffectOutcome EO_UNKNOWN = ''UNKNOWN''"

record SettledTerminalOccurrence =
  so_mission_id :: string
  so_plan_revision :: int
  so_occurrence_id :: string
  so_contract_revision :: int
  so_dispatch_generation :: int
  so_outcome :: string
  so_source_digest :: string

section \<open>Witnesses on the wire\<close>

fun str_Validity :: "Validity \<Rightarrow> string" where
  "str_Validity VA_CURRENT = ''CURRENT''"
| "str_Validity VA_STALE = ''STALE''"
| "str_Validity VA_REVOKED = ''REVOKED''"

fun str_Availability :: "Availability \<Rightarrow> string" where
  "str_Availability AV_READABLE = ''READABLE''"
| "str_Availability AV_REDACTED = ''REDACTED''"
| "str_Availability AV_UNAVAILABLE = ''UNAVAILABLE''"

fun str_WitnessPurpose :: "WitnessPurpose \<Rightarrow> string" where
  "str_WitnessPurpose WP_PLAN = ''PLAN''"
| "str_WitnessPurpose WP_START = ''START''"
| "str_WitnessPurpose WP_MAINTAIN = ''MAINTAIN''"
| "str_WitnessPurpose WP_ACCEPT = ''ACCEPT''"
| "str_WitnessPurpose WP_CONTEXT = ''CONTEXT''"
| "str_WitnessPurpose WP_DISCLOSE = ''DISCLOSE''"
| "str_WitnessPurpose WP_RECOVERY = ''RECOVERY''"

fun str_WitnessDecision :: "WitnessDecision \<Rightarrow> string" where
  "str_WitnessDecision WD_USABLE = ''USABLE''"
| "str_WitnessDecision WD_NEEDS_REVIEW = ''NEEDS_REVIEW''"
| "str_WitnessDecision WD_BLOCKED = ''BLOCKED''"
| "str_WitnessDecision WD_UNAVAILABLE = ''UNAVAILABLE''"

definition ValidityWitness_to_json :: "ValidityWitness \<Rightarrow> json" where
  "ValidityWitness_to_json w =
     JObj [(''schema_version'', JInt 1), (''witness_id'', JStr (vw_witness_id w)), (''consumer_ref'', TypedRef_to_json (vw_consumer_ref w)),
           (''purpose'', JStr (str_WitnessPurpose (vw_purpose w))), (''truth'', JStr (str_TruthValue (vw_truth w))),
           (''freshness'', JStr (str_Validity (vw_freshness w))), (''availability'', JStr (str_Availability (vw_availability w))),
           (''decision'', JStr (str_WitnessDecision (vw_decision w))), (''scope_id'', JStr (vw_scope_id w)),
           (''scope_epoch'', JInt (vw_scope_epoch w)), (''support_revision'', JInt (vw_support_revision w)),
           (''as_of_ms'', JInt (vw_as_of_ms w)), (''not_after_ms'', json_int (vw_not_after_ms w)),
           (''support_refs'', JList (map TypedRef_to_json (vw_support_refs w))), (''reason_codes'', JList (map JStr (vw_reason_codes w)))]"

section \<open>Read-set entries\<close>

definition make_ReadItem :: "ReadItemKind \<Rightarrow> string \<Rightarrow> int \<Rightarrow> string \<Rightarrow> contract_error + ReadItem" where
  "make_ReadItem k i revision hash =
     rbind (identifier_of (JStr i) ''read_item.id'') (\<lambda>_.
     rbind (index_min 0 (JInt revision) ''read_item.semantic_revision'') (\<lambda>_.
     rbind (hash_hex (JStr hash) ''read_item.content_hash'') (\<lambda>_.
     Inr \<lparr>rdi_kind = k, rdi_id = i, rdi_semantic_revision = revision, rdi_content_hash = hash\<rparr>)))"

definition make_ScopeEpochRead :: "string \<Rightarrow> int \<Rightarrow> contract_error + ScopeEpochRead" where
  "make_ScopeEpochRead scope epoch =
     rbind (identifier_of (JStr scope) ''scope_epoch.scope_id'') (\<lambda>_.
     rbind (index_min 0 (JInt epoch) ''scope_epoch.validity_epoch'') (\<lambda>_.
     Inr \<lparr>sr_scope_id = scope, sr_validity_epoch = epoch\<rparr>))"

definition make_AbsenceRead :: "string \<Rightarrow> string \<Rightarrow> int \<Rightarrow> contract_error + AbsenceRead" where
  "make_AbsenceRead predicate scope range_revision =
     rbind (identifier_of (JStr predicate) ''absence.predicate'') (\<lambda>_.
     rbind (identifier_of (JStr scope) ''absence.scope_id'') (\<lambda>_.
     rbind (index_min 0 (JInt range_revision) ''absence.range_revision'') (\<lambda>_.
     Inr \<lparr>ar_predicate = predicate, ar_scope_id = scope, ar_range_revision = range_revision\<rparr>)))"

definition check_SemanticReadSet :: "SemanticReadSet \<Rightarrow> contract_error + SemanticReadSet" where
  "check_SemanticReadSet r =
     rbind (index_min 0 (JInt (rs_requirements_revision r)) ''read_set.requirements_revision'') (\<lambda>_.
     rbind (index_min 0 (JInt (rs_manager_epoch r)) ''read_set.manager_epoch'') (\<lambda>_.
     rbind (index_min 0 (JInt (rs_budget_grant_revision r)) ''read_set.budget_grant_revision'') (\<lambda>_.
     rbind (for_each (\<lambda>(label, items, k). for_each (\<lambda>x. if rdi_kind x \<noteq> k then Inl (CE_rule label) else Inr ()) items)
       [(''read_set.goal_revisions'', rs_goal_revisions r, RI_TASK), (''read_set.method_revisions'', rs_method_revisions r, RI_METHOD),
        (''read_set.observation_revisions'', rs_observation_revisions r, RI_FACT),
        (''read_set.acceptance_revisions'', rs_acceptance_revisions r, RI_ACCEPTANCE),
        (''read_set.obligation_revisions'', rs_obligation_revisions r, RI_OBLIGATION),
        (''read_set.authority_revisions'', rs_authority_revisions r, RI_AUTHORITY)]) (\<lambda>_.
     Inr r))))"

end
