(* ===== verification/Readiness.thy ===== *)
theory Readiness
  imports Plan_Checks Dispatch_Inputs
begin

text \<open>
  Readiness of one occurrence as a pure judgement and the one gate that builds a dispatch record (\<open>graph/eligibility.py\<close>): the
  nine gates in the order they run, the read set a verdict is made over, the cache test, the admission and the frontiers.
  \<open>content_hash_of\<close> and \<open>sha256_hex\<close> are parameters; the prose of a detail is left out, its code and subject are kept. The
  admission mark of a record, which the source hides behind a module-private token, is the field \<open>el_gate_passed\<close>.
\<close>

section \<open>Vocabulary\<close>

datatype ReadinessReason =
    NOT_SELECTED | NEEDS_REFINEMENT | WAITING_ORDER | WAITING_DATA | WAITING_EVIDENCE | WAITING_APPROVAL
  | STALE_BINDING | READY_CANDIDATE | WAITING_OPERATION_UNKNOWN | OBSERVER_UNAVAILABLE | GRAPH_INTEGRITY
  | VALIDITY_RECHECK_PENDING

definition PLANNING_REASONS :: "ReadinessReason list" where
  "PLANNING_REASONS = [NEEDS_REFINEMENT, WAITING_EVIDENCE, OBSERVER_UNAVAILABLE, VALIDITY_RECHECK_PENDING, WAITING_APPROVAL]"

definition EXECUTION_REASONS :: "ReadinessReason list" where
  "EXECUTION_REASONS = [READY_CANDIDATE]"

definition UNSETTLED_EFFECTS :: "EffectOutcome list" where
  "UNSETTLED_EFFECTS = [EO_PENDING, EO_PARTIAL, EO_UNKNOWN]"

datatype OccurrenceOutcome = OO_RUNNING | OO_ACCEPTED | OO_FAILED | OO_CANCELLED | OO_SETTLED_OTHER | OO_UNKNOWN

fun str_OccurrenceOutcome :: "OccurrenceOutcome \<Rightarrow> string" where
  "str_OccurrenceOutcome OO_RUNNING = ''RUNNING''"
| "str_OccurrenceOutcome OO_ACCEPTED = ''ACCEPTED''"
| "str_OccurrenceOutcome OO_FAILED = ''FAILED''"
| "str_OccurrenceOutcome OO_CANCELLED = ''CANCELLED''"
| "str_OccurrenceOutcome OO_SETTLED_OTHER = ''SETTLED_OTHER''"
| "str_OccurrenceOutcome OO_UNKNOWN = ''UNKNOWN''"

definition TERMINAL_OUTCOMES :: "OccurrenceOutcome list" where
  "TERMINAL_OUTCOMES = [OO_ACCEPTED, OO_FAILED, OO_CANCELLED, OO_SETTLED_OTHER]"

datatype DispatchCandidacy = DC_ALLOWS_DISPATCH | DC_RUNNING_WORK_EXISTS | DC_ATTEMPTS_EXHAUSTED | DC_WITHDRAWN

fun str_DispatchCandidacy :: "DispatchCandidacy \<Rightarrow> string" where
  "str_DispatchCandidacy DC_ALLOWS_DISPATCH = ''ALLOWS_DISPATCH''"
| "str_DispatchCandidacy DC_RUNNING_WORK_EXISTS = ''RUNNING_WORK_EXISTS''"
| "str_DispatchCandidacy DC_ATTEMPTS_EXHAUSTED = ''ATTEMPTS_EXHAUSTED''"
| "str_DispatchCandidacy DC_WITHDRAWN = ''WITHDRAWN''"

definition order_released :: "OccurrenceOutcome \<Rightarrow> ReleaseCondition \<Rightarrow> bool" where
  "order_released outcome condition =
     (if outcome = OO_ACCEPTED then True
      else if outcome = OO_UNKNOWN then False
      else if condition = RC_SETTLED_TERMINAL then outcome \<in> set TERMINAL_OUTCOMES
      else False)"

section \<open>Inputs\<close>

record TaskView =
  tv_occurrence_id :: string
  tv_task_id :: string
  tv_binding :: "TaskSemanticBindingV1 option"
  tv_legacy_status :: string
  tv_approval :: ApprovalState
  tv_approval_revision :: int
  tv_dispatch_candidacy :: DispatchCandidacy

definition check_TaskView :: "TaskView \<Rightarrow> contract_error + TaskView" where
  "check_TaskView v =
     rbind (identifier_of (JStr (tv_occurrence_id v)) ''view.occurrence_id'') (\<lambda>_.
     rbind (identifier_of (JStr (tv_task_id v)) ''view.task_id'') (\<lambda>_.
     rbind (index_min 0 (JInt (tv_approval_revision v)) ''view.approval_revision'') (\<lambda>_.
     Inr v)))"

record ActivePlanView =
  pv_snapshot :: TaskNetworkSnapshot
  pv_mission_admits_work :: bool
  pv_requirements_revision :: int
  pv_manager_epoch :: int
  pv_budget_grant_revision :: int
  pv_scope_epochs :: "(string \<times> int) list"
  pv_dispatch_generations :: "(string \<times> int) list"
  pv_input_binding_revisions :: "(string \<times> int) list"
  pv_obligation_accounts :: "(string \<times> ObligationAccountView) list"
  pv_integrity_error :: "(string list \<times> string list) option"
  pv_projected :: "string list"

text \<open>The constructor compiles the snapshot and keeps the occurrences it projects.\<close>

definition make_ActivePlanView :: "ActivePlanView \<Rightarrow> contract_error + ActivePlanView" where
  "make_ActivePlanView p =
     rbind (index_min 0 (JInt (pv_requirements_revision p)) ''plan.requirements_revision'') (\<lambda>_.
     rbind (index_min 0 (JInt (pv_manager_epoch p)) ''plan.manager_epoch'') (\<lambda>_.
     rbind (index_min 0 (JInt (pv_budget_grant_revision p)) ''plan.budget_grant_revision'') (\<lambda>_.
     rbind (execution_projection (pv_snapshot p)) (\<lambda>P.
     Inr (p\<lparr>pv_projected := pj_occurrences P\<rparr>)))))"

definition plan_adopts :: "ActivePlanView \<Rightarrow> string \<Rightarrow> bool" where
  "plan_adopts p i \<longleftrightarrow> i \<in> set (pv_projected p)"

record PendingOperation =
  op_operation_id :: string
  op_effect_outcome :: EffectOutcome
  op_conflicts_with :: "string list"

definition effect_settled :: "PendingOperation \<Rightarrow> bool" where
  "effect_settled x \<longleftrightarrow> op_effect_outcome x \<notin> set UNSETTLED_EFFECTS"

record EvidenceView =
  ev_witnesses :: "(string \<times> ValidityWitness) list"
  ev_observer_available :: bool
  ev_pending_operations :: "PendingOperation list"
  ev_support_sets :: "SupportSetRead list"
  ev_operation_range_revision :: int

section \<open>Output\<close>

record ReadinessDetail =
  rd_code :: string
  rd_subject :: string

record ReadinessReport =
  rt_reason :: ReadinessReason
  rt_occurrence_id :: string
  rt_task_id :: string
  rt_read_set :: SemanticReadSet
  rt_mission_id :: string
  rt_plan_revision :: int
  rt_details :: "ReadinessDetail list"
  rt_evaluated_at_ms :: int
  rt_input_manifest_hash :: "string option"

definition ready :: "ReadinessReport \<Rightarrow> bool" where
  "ready r \<longleftrightarrow> rt_reason r = READY_CANDIDATE"

section \<open>The gates\<close>

record Context =
  cx_view :: TaskView
  cx_plan :: ActivePlanView
  cx_resolutions :: "(string \<times> OccurrenceOutcome) list"
  cx_evidence :: EvidenceView
  cx_input_result :: "ResolutionResult option"
  cx_now_ms :: int
  cx_settlements :: "(string \<times> SettledTerminalOccurrence) list option"

type_synonym gate_result = "contract_error + (ReadinessReason \<times> ReadinessDetail list) option"

definition detail :: "string \<Rightarrow> string \<Rightarrow> ReadinessDetail" where
  "detail code subject = \<lparr>rd_code = code, rd_subject = subject\<rparr>"

definition refused :: "ReadinessReason \<Rightarrow> ReadinessDetail list \<Rightarrow> gate_result" where
  "refused r ds = Inr (Some (r, ds))"

definition passed :: gate_result where
  "passed = Inr None"

definition refuse_any :: "ReadinessReason \<Rightarrow> ReadinessDetail list \<Rightarrow> gate_result" where
  "refuse_any r ds = (if ds = [] then passed else refused r ds)"

definition integrity_gate :: "Context \<Rightarrow> gate_result" where
  "integrity_gate c =
     (let v = cx_view c; p = cx_plan c in
      if pv_integrity_error p \<noteq> None
      then refused GRAPH_INTEGRITY [detail ''projection_not_orderable'' (nw_mission_id (pv_snapshot p))]
      else
        case occurrence (pv_snapshot p) (tv_occurrence_id v) of
          Inl e \<Rightarrow> refused GRAPH_INTEGRITY [detail ''unknown_occurrence'' (tv_occurrence_id v)]
        | Inr s \<Rightarrow>
            (case tv_binding v of
               None \<Rightarrow> refused GRAPH_INTEGRITY [detail ''semantic_binding_missing'' (tv_task_id v)]
             | Some b \<Rightarrow>
                 if sb_task_id b \<noteq> tv_task_id v \<or> oc_task_id s \<noteq> tv_task_id v
                 then refused GRAPH_INTEGRITY [detail ''binding_task_mismatch'' (tv_task_id v)]
                 else if oc_form s \<noteq> sb_form b then refused GRAPH_INTEGRITY [detail ''form_mismatch'' (tv_task_id v)]
                 else passed))"

definition refinement_gate :: "Context \<Rightarrow> gate_result" where
  "refinement_gate c =
     (case tv_binding (cx_view c) of
        None \<Rightarrow> passed
      | Some b \<Rightarrow> if sb_form b \<noteq> COMPOUND then passed else refused NEEDS_REFINEMENT [detail ''form_compound'' (sb_task_id b)])"

definition selection_gate :: "Context \<Rightarrow> gate_result" where
  "selection_gate c =
     (let v = cx_view c; p = cx_plan c;
          candidacy = (if tv_dispatch_candidacy v \<noteq> DC_ALLOWS_DISPATCH
            then refused NOT_SELECTED [detail (''dispatch_candidacy_'' @ str_DispatchCandidacy (tv_dispatch_candidacy v)) (tv_occurrence_id v)]
            else passed) in
      if \<not> pv_mission_admits_work p then refused NOT_SELECTED [detail ''mission_does_not_admit_work'' (nw_mission_id (pv_snapshot p))]
      else if \<not> plan_adopts p (tv_occurrence_id v) then refused NOT_SELECTED [detail ''not_in_adopted_plan'' (tv_occurrence_id v)]
      else
        case tv_binding v of
          None \<Rightarrow> candidacy
        | Some b \<Rightarrow>
            (case map_of (pv_obligation_accounts p) (sb_obligation_id b) of
               None \<Rightarrow> refused NOT_SELECTED [detail ''obligation_account_missing'' (sb_obligation_id b)]
             | Some a \<Rightarrow>
                 if av_lifecycle a \<noteq> OL_UNSATISFIED
                 then refused NOT_SELECTED [detail (''obligation_'' @ str_ObligationLifecycle (av_lifecycle a)) (sb_obligation_id b)]
                 else if \<not> av_has_admitted_demand a
                 then refused NOT_SELECTED [detail ''obligation_demand_not_admitted'' (sb_obligation_id b)]
                 else candidacy))"

definition settles :: "ActivePlanView \<Rightarrow> OrderConstraint \<Rightarrow> OccurrenceOutcome \<Rightarrow> TaskSemanticBindingV1 \<Rightarrow> SettledTerminalOccurrence \<Rightarrow> bool" where
  "settles p k outcome b settled \<longleftrightarrow>
     so_mission_id settled = nw_mission_id (pv_snapshot p) \<and> so_plan_revision settled = nw_plan_revision (pv_snapshot p) \<and>
     so_occurrence_id settled = or_before k \<and> so_contract_revision settled = sb_contract_revision b \<and>
     so_dispatch_generation settled = sb_dispatch_generation b \<and> so_outcome settled = str_OccurrenceOutcome outcome"

definition order_problem :: "Context \<Rightarrow> OrderConstraint \<Rightarrow> contract_error + ReadinessDetail list" where
  "order_problem c k =
     (if or_after k \<noteq> tv_occurrence_id (cx_view c) then Inr []
      else
        case map_of (cx_resolutions c) (or_before k) of
          None \<Rightarrow> Inr [detail ''order_outcome_unobserved'' (or_before k)]
        | Some outcome \<Rightarrow>
            let judged = Inr (if order_released outcome (or_release_condition k) then []
                else [detail (if outcome = OO_UNKNOWN then ''order_outcome_unknown'' else ''order_not_released'') (or_before k)]) in
            (case cx_settlements c of
               None \<Rightarrow> judged
             | Some settlements \<Rightarrow>
                 if or_release_condition k \<noteq> RC_SETTLED_TERMINAL then judged
                 else
                   rbind (binding_for_occurrence (pv_snapshot (cx_plan c)) (or_before k)) (\<lambda>b.
                   case map_of settlements (or_before k) of
                     None \<Rightarrow> Inr [detail ''order_settlement_pending'' (or_before k)]
                   | Some settled \<Rightarrow>
                       if settles (cx_plan c) k outcome b settled then judged else Inr [detail ''order_settlement_pending'' (or_before k)])))"

definition order_gate :: "Context \<Rightarrow> gate_result" where
  "order_gate c =
     rbind (map_result (order_problem c) (nw_order_constraints (pv_snapshot (cx_plan c)))) (\<lambda>ds. refuse_any WAITING_ORDER (concat ds))"

fun join_commas :: "string list \<Rightarrow> string" where
  "join_commas [] = []"
| "join_commas [x] = x"
| "join_commas (x # xs) = x @ '','' @ join_commas xs"

definition problem_subject :: "ResolutionProblem \<Rightarrow> string" where
  "problem_subject q = (case rp_input_port q of Some i \<Rightarrow> if i \<noteq> [] then i else join_commas (rp_input_ports q) | None \<Rightarrow> join_commas (rp_input_ports q))"

definition manifest_problems :: "TaskSemanticBindingV1 \<Rightarrow> InputManifest option \<Rightarrow> ReadinessDetail list" where
  "manifest_problems b m =
     (case m of
        None \<Rightarrow> [detail ''manifest_absent'' (sb_task_id b)]
      | Some m \<Rightarrow>
          (if is_frozen m then [] else [detail ''manifest_not_frozen'' (sb_task_id b)]) @
          (if required_ports_satisfied m b then [] else [detail ''required_port_not_firmly_bound'' (sb_task_id b)]))"

definition data_gate :: "Context \<Rightarrow> gate_result" where
  "data_gate c =
     (case tv_binding (cx_view c) of
        None \<Rightarrow> passed
      | Some b \<Rightarrow>
          (case cx_input_result c of
             None \<Rightarrow> refused WAITING_DATA [detail ''input_resolution_missing'' (sb_task_id b)]
           | Some r \<Rightarrow>
               refuse_any WAITING_DATA
                 (map (\<lambda>q. detail (str_ResolutionProblemKind (rp_kind q)) (problem_subject q)) (rr_problems r) @
                  manifest_problems b (rr_manifest r))))"

definition freshness_code :: "ValidityWitness \<Rightarrow> int \<Rightarrow> int \<Rightarrow> string" where
  "freshness_code w current_epoch now_ms =
     (if vw_scope_epoch w \<noteq> current_epoch then ''witness_epoch_stale''
      else if (case vw_not_after_ms w of Some d \<Rightarrow> d \<le> now_ms | None \<Rightarrow> False) then ''witness_deadline_passed''
      else if vw_freshness w \<noteq> VA_CURRENT then ''witness_freshness_'' @ str_Validity (vw_freshness w)
      else ''witness_not_fresh'')"

definition witness_verdict ::
  "ValidityWitness option \<Rightarrow> string \<Rightarrow> string \<Rightarrow> (string \<times> int) list \<Rightarrow> int \<Rightarrow> (ReadinessReason \<times> ReadinessDetail) option" where
  "witness_verdict witness digest consumer_task scope_epochs now_ms =
     (case witness of
        None \<Rightarrow> Some (WAITING_EVIDENCE, detail ''witness_missing'' digest)
      | Some w \<Rightarrow>
          if vw_purpose w \<noteq> WP_START then Some (WAITING_EVIDENCE, detail ''witness_purpose_not_start'' digest)
          else if r_kind (vw_consumer_ref w) \<noteq> TR_TASK \<or> r_id (vw_consumer_ref w) \<noteq> consumer_task
          then Some (WAITING_EVIDENCE, detail ''witness_consumer_mismatch'' (vw_witness_id w))
          else
            (case map_of scope_epochs (vw_scope_id w) of
               None \<Rightarrow> Some (VALIDITY_RECHECK_PENDING, detail ''witness_epoch_unknown'' (vw_scope_id w))
             | Some current_epoch \<Rightarrow>
                 if \<not> is_fresh_for w now_ms current_epoch
                 then Some (VALIDITY_RECHECK_PENDING, detail (freshness_code w current_epoch now_ms) (vw_witness_id w))
                 else if vw_decision w = WD_UNAVAILABLE \<or> vw_availability w = AV_UNAVAILABLE
                 then Some (OBSERVER_UNAVAILABLE, detail ''witness_unavailable'' (vw_witness_id w))
                 else if vw_truth w \<noteq> TV_TRUE
                 then Some (WAITING_EVIDENCE, detail (''witness_truth_'' @ str_TruthValue (vw_truth w)) (vw_witness_id w))
                 else if vw_decision w \<noteq> WD_USABLE
                 then Some (WAITING_EVIDENCE, detail (''witness_decision_'' @ str_WitnessDecision (vw_decision w)) (vw_witness_id w))
                 else None))"

definition EVIDENCE_PRECEDENCE :: "ReadinessReason list" where
  "EVIDENCE_PRECEDENCE = [OBSERVER_UNAVAILABLE, VALIDITY_RECHECK_PENDING, WAITING_EVIDENCE]"

definition start_preconditions :: "TaskSemanticBindingV1 \<Rightarrow> string list" where
  "start_preconditions b =
     map pf_condition_digest (filter (\<lambda>r. PH_SELECT \<in> set (phase_check_points (pf_phase r))) (sb_precondition_refs b))"

definition witness_findings :: "Context \<Rightarrow> TaskSemanticBindingV1 \<Rightarrow> (ReadinessReason \<times> ReadinessDetail list) list" where
  "witness_findings c b =
     fold (\<lambda>digest. case witness_verdict (map_of (ev_witnesses (cx_evidence c)) digest) digest (sb_task_id b)
             (pv_scope_epochs (cx_plan c)) (cx_now_ms c) of
           None \<Rightarrow> (\<lambda>d. d) | Some (r, x) \<Rightarrow> dict_append r x)
       (start_preconditions b) []"

definition evidence_gate :: "Context \<Rightarrow> gate_result" where
  "evidence_gate c =
     (if \<not> ev_observer_available (cx_evidence c)
      then refused OBSERVER_UNAVAILABLE [detail ''observation_service_unavailable'' (tv_occurrence_id (cx_view c))]
      else
        case tv_binding (cx_view c) of
          None \<Rightarrow> passed
        | Some b \<Rightarrow>
            (let found = witness_findings c b in
             case find (\<lambda>r. map_of found r \<noteq> None) EVIDENCE_PRECEDENCE of
               None \<Rightarrow> passed
             | Some r \<Rightarrow> refused r (dict_get found r [])))"

definition approval_gate :: "Context \<Rightarrow> gate_result" where
  "approval_gate c =
     (let a = tv_approval (cx_view c) in
      if ap_decision a = AD_NOT_REQUIRED then passed
      else if is_effective a (cx_now_ms c) then passed
      else refused WAITING_APPROVAL
        [detail (if ap_decision a = AD_GRANTED then ''approval_expired_grant'' else ''approval_'' @ str_ApprovalDecision (ap_decision a))
           (tv_occurrence_id (cx_view c))])"

definition moved :: "int option \<Rightarrow> int \<Rightarrow> bool" where
  "moved current seen \<longleftrightarrow> (case current of None \<Rightarrow> False | Some n \<Rightarrow> n \<noteq> seen)"

definition stale_gate :: "Context \<Rightarrow> gate_result" where
  "stale_gate c =
     (case tv_binding (cx_view c) of
        None \<Rightarrow> passed
      | Some b \<Rightarrow>
          refuse_any STALE_BINDING
            ((if moved (map_of (pv_dispatch_generations (cx_plan c)) (tv_occurrence_id (cx_view c))) (sb_dispatch_generation b)
              then [detail ''dispatch_generation_moved'' (tv_occurrence_id (cx_view c))] else []) @
             (if moved (map_of (pv_input_binding_revisions (cx_plan c)) (sb_task_id b)) (sb_input_binding_revision b)
              then [detail ''input_binding_revision_moved'' (sb_task_id b)] else [])))"

definition operation_gate :: "Context \<Rightarrow> gate_result" where
  "operation_gate c =
     refuse_any WAITING_OPERATION_UNKNOWN
       (map (\<lambda>x. detail (''operation_'' @ str_EffectOutcome (op_effect_outcome x)) (op_operation_id x))
         (filter (\<lambda>x. \<not> effect_settled x \<and> tv_occurrence_id (cx_view c) \<in> set (op_conflicts_with x))
           (ev_pending_operations (cx_evidence c))))"

section \<open>The order of the gates\<close>

definition GATE_SEQUENCE :: "((Context \<Rightarrow> gate_result) \<times> ReadinessReason list) list" where
  "GATE_SEQUENCE =
     [(integrity_gate, [GRAPH_INTEGRITY]), (refinement_gate, [NEEDS_REFINEMENT]), (selection_gate, [NOT_SELECTED]),
      (order_gate, [WAITING_ORDER]), (data_gate, [WAITING_DATA]), (evidence_gate, EVIDENCE_PRECEDENCE),
      (approval_gate, [WAITING_APPROVAL]), (stale_gate, [STALE_BINDING]), (operation_gate, [WAITING_OPERATION_UNKNOWN])]"

definition gate_precedence :: "ReadinessReason list" where
  "gate_precedence = concat (map snd GATE_SEQUENCE) @ [READY_CANDIDATE]"

fun first_refusal :: "(Context \<Rightarrow> gate_result) list \<Rightarrow> Context \<Rightarrow> contract_error + ReadinessReason \<times> ReadinessDetail list" where
  "first_refusal [] c = Inr (READY_CANDIDATE, [])"
| "first_refusal (g # gs) c = rbind (g c) (\<lambda>r. case r of None \<Rightarrow> first_refusal gs c | Some x \<Rightarrow> Inr x)"

section \<open>The read set\<close>

definition current_method_owners :: "ActivePlanView \<Rightarrow> TaskSemanticBindingV1 \<Rightarrow> MethodInstanceDraft list" where
  "current_method_owners p b =
     (let S = pv_snapshot p;
          held = map oc_occurrence_id (filter (\<lambda>s. oc_task_id s = sb_task_id b) (nw_occurrences S)) in
      sort_key md_instance_id (filter (\<lambda>d. is_adopted S (md_instance_id d) \<and>
        (\<exists>c\<in>set (md_child_bindings d).
           (case cb_goal_occurrence_id c of Some i \<Rightarrow> if i \<noteq> [] then i else cb_occurrence_id c | None \<Rightarrow> cb_occurrence_id c) \<in> set held))
        (nw_method_instances S)))"

definition method_reads :: "(json \<Rightarrow> string) \<Rightarrow> ActivePlanView \<Rightarrow> TaskSemanticBindingV1 \<Rightarrow> contract_error + ReadItem list" where
  "method_reads content_hash_of p b =
     map_result (\<lambda>d. make_ReadItem RI_METHOD (md_instance_id d) (md_plan_revision d) (content_hash_of (MethodInstanceDraft_to_json content_hash_of d)))
       (current_method_owners p b)"

definition acceptance_reads :: "InputManifest option \<Rightarrow> contract_error + ReadItem list" where
  "acceptance_reads m =
     (case m of
        None \<Rightarrow> Inr []
      | Some m \<Rightarrow>
          rbind (map_result (\<lambda>b. make_ReadItem RI_ACCEPTANCE (bi_acceptance_id (rb_bound b)) (rb_support_revision b) (bi_content_hash (rb_bound b)))
            (im_bindings m)) (\<lambda>items.
          let seen = fold (\<lambda>x d. if map_of d (rdi_id x) = None then dict_set (rdi_id x) x d else d) items [] in
          Inr (map snd (sort_key fst seen))))"

definition control_channel :: "(json \<Rightarrow> string) \<Rightarrow> string \<Rightarrow> string \<Rightarrow> int \<Rightarrow> contract_error + ReadItem" where
  "control_channel content_hash_of task name n =
     make_ReadItem RI_TASK (task @ ''#'' @ name) n
       (content_hash_of (JObj [(''task'', JStr task), (''channel'', JStr name), (''value'', JInt n)]))"

definition task_control_reads ::
  "(json \<Rightarrow> string) \<Rightarrow> TaskView \<Rightarrow> ActivePlanView \<Rightarrow> TaskSemanticBindingV1 \<Rightarrow> contract_error + ReadItem list" where
  "task_control_reads content_hash_of v p b =
     rbind (control_channel content_hash_of (sb_task_id b) ''dispatch_generation''
         (dict_get (pv_dispatch_generations p) (tv_occurrence_id v) (sb_dispatch_generation b))) (\<lambda>x.
     rbind (control_channel content_hash_of (sb_task_id b) ''input_binding_revision''
         (dict_get (pv_input_binding_revisions p) (sb_task_id b) (sb_input_binding_revision b))) (\<lambda>y.
     Inr [x, y]))"

definition obligation_payload :: "ObligationAccountView option \<Rightarrow> json" where
  "obligation_payload account =
     JObj [(''lifecycle'', case account of None \<Rightarrow> JNull | Some a \<Rightarrow> JStr (str_ObligationLifecycle (av_lifecycle a))),
           (''has_admitted_demand'', case account of None \<Rightarrow> JNull | Some a \<Rightarrow> JBool (av_has_admitted_demand a))]"

definition obligation_reads :: "(json \<Rightarrow> string) \<Rightarrow> ActivePlanView \<Rightarrow> TaskSemanticBindingV1 \<Rightarrow> contract_error + ReadItem list" where
  "obligation_reads content_hash_of p b =
     rbind (make_ReadItem RI_OBLIGATION (sb_obligation_id b) 0
       (content_hash_of (obligation_payload (map_of (pv_obligation_accounts p) (sb_obligation_id b))))) (\<lambda>x. Inr [x])"

definition authority_reads :: "(json \<Rightarrow> string) \<Rightarrow> TaskView \<Rightarrow> TaskSemanticBindingV1 \<Rightarrow> contract_error + ReadItem list" where
  "authority_reads content_hash_of v b =
     rbind (make_ReadItem RI_AUTHORITY (sb_task_id b) (tv_approval_revision v) (content_hash_of (ApprovalState_to_json (tv_approval v))))
       (\<lambda>x. Inr [x])"

definition start_witnesses :: "EvidenceView \<Rightarrow> TaskSemanticBindingV1 \<Rightarrow> ValidityWitness list" where
  "start_witnesses e b = List.map_filter (map_of (ev_witnesses e)) (start_preconditions b)"

definition fact_reads :: "(json \<Rightarrow> string) \<Rightarrow> EvidenceView \<Rightarrow> TaskSemanticBindingV1 \<Rightarrow> contract_error + ReadItem list" where
  "fact_reads content_hash_of e b =
     rbind (map_result (\<lambda>w. make_ReadItem RI_FACT (vw_witness_id w) (vw_support_revision w) (content_hash_of (ValidityWitness_to_json w)))
       (start_witnesses e b)) (\<lambda>facts. Inr (sort_key rdi_id facts))"

definition scope_reads :: "ActivePlanView \<Rightarrow> string list \<Rightarrow> contract_error + ScopeEpochRead list" where
  "scope_reads p scopes =
     map_result (\<lambda>s. make_ScopeEpochRead s (dict_get (pv_scope_epochs p) s 0))
       (filter (\<lambda>s. map_of (pv_scope_epochs p) s \<noteq> None) (sort (remdups scopes)))"

definition read_set_with ::
  "ActivePlanView \<Rightarrow> EvidenceView \<Rightarrow> InputManifest option \<Rightarrow> ReadItem list \<Rightarrow> ReadItem list \<Rightarrow> ReadItem list \<Rightarrow> ReadItem list \<Rightarrow>
    ReadItem list \<Rightarrow> string list \<Rightarrow> AbsenceRead list \<Rightarrow> contract_error + SemanticReadSet" where
  "read_set_with p e m goals owners facts duties authority scopes absences =
     rbind (acceptance_reads m) (\<lambda>accepted.
     rbind (scope_reads p scopes) (\<lambda>epochs.
     check_SemanticReadSet
       \<lparr>rs_requirements_revision = pv_requirements_revision p, rs_goal_revisions = goals, rs_method_revisions = owners,
        rs_observation_revisions = facts, rs_acceptance_revisions = accepted, rs_obligation_revisions = duties,
        rs_authority_revisions = authority, rs_manager_epoch = pv_manager_epoch p,
        rs_budget_grant_revision = pv_budget_grant_revision p, rs_support_sets = ev_support_sets e,
        rs_scope_epochs = epochs, rs_absences = absences\<rparr>))"

definition build_read_set ::
  "(json \<Rightarrow> string) \<Rightarrow> TaskView \<Rightarrow> ActivePlanView \<Rightarrow> EvidenceView \<Rightarrow> ResolutionResult option \<Rightarrow> contract_error + SemanticReadSet" where
  "build_read_set content_hash_of v p e result =
     (let m = (case result of None \<Rightarrow> None | Some r \<Rightarrow> rr_manifest r) in
      case tv_binding v of
        None \<Rightarrow> read_set_with p e m [] [] [] [] [] [] []
      | Some b \<Rightarrow>
          rbind (make_ReadItem RI_TASK (sb_task_id b) (sb_contract_revision b) (sb_contract_hash b)) (\<lambda>contract.
          rbind (task_control_reads content_hash_of v p b) (\<lambda>control.
          rbind (method_reads content_hash_of p b) (\<lambda>owners.
          rbind (obligation_reads content_hash_of p b) (\<lambda>duties.
          rbind (authority_reads content_hash_of v b) (\<lambda>authority.
          rbind (fact_reads content_hash_of e b) (\<lambda>facts.
          rbind (make_AbsenceRead ''conflicting_unsettled_operation'' (sb_semantic_scope b) (ev_operation_range_revision e)) (\<lambda>absent.
          read_set_with p e m (contract # control) owners facts duties authority
            (map vw_scope_id (start_witnesses e b) @ [sb_semantic_scope b]) [absent]))))))))"

section \<open>The verdict\<close>

definition evaluate_readiness ::
  "(json \<Rightarrow> string) \<Rightarrow> (json \<Rightarrow> string) \<Rightarrow> Context \<Rightarrow> contract_error + ReadinessReport" where
  "evaluate_readiness content_hash_of sha256_hex c =
     (let v = cx_view c; p = cx_plan c in
      rbind (index_min 0 (JInt (cx_now_ms c)) ''now_ms'') (\<lambda>now.
      rbind (build_read_set content_hash_of v p (cx_evidence c) (cx_input_result c)) (\<lambda>read_set.
      let checked = (case cx_input_result c of None \<Rightarrow> None | Some r \<Rightarrow> rr_manifest r);
          checked_hash = (case checked of None \<Rightarrow> None | Some m \<Rightarrow> manifest_hash sha256_hex m) in
      rbind (first_refusal (map fst GATE_SEQUENCE) c) (\<lambda>(reason, details).
      Inr \<lparr>rt_reason = reason, rt_occurrence_id = tv_occurrence_id v, rt_task_id = tv_task_id v, rt_read_set = read_set,
           rt_mission_id = nw_mission_id (pv_snapshot p), rt_plan_revision = nw_plan_revision (pv_snapshot p),
           rt_details = details, rt_evaluated_at_ms = now, rt_input_manifest_hash = checked_hash\<rparr>))))"

section \<open>Cache invalidation\<close>

definition items_changed :: "ReadItem list \<Rightarrow> ReadItem list \<Rightarrow> bool" where
  "items_changed recorded current \<longleftrightarrow>
     (let by_id = fold (\<lambda>x. dict_set (rdi_kind x, rdi_id x) x) current [] in
      \<exists>x\<in>set recorded. case map_of by_id (rdi_kind x, rdi_id x) of
        None \<Rightarrow> True
      | Some y \<Rightarrow> rdi_semantic_revision y \<noteq> rdi_semantic_revision x \<or> rdi_content_hash y \<noteq> rdi_content_hash x)"

definition supports_changed :: "SupportSetRead list \<Rightarrow> SupportSetRead list \<Rightarrow> bool" where
  "supports_changed recorded current \<longleftrightarrow>
     (let by_id = fold (\<lambda>x. dict_set (su_support_set_id x) x) current [] in
      \<exists>x\<in>set recorded. case map_of by_id (su_support_set_id x) of
        None \<Rightarrow> True
      | Some y \<Rightarrow> (su_revision y, su_member_digest y) \<noteq> (su_revision x, su_member_digest x))"

definition stale_after :: "ReadinessReport \<Rightarrow> SemanticReadSet \<Rightarrow> bool" where
  "stale_after report current =
     (let r = rt_read_set report;
          epochs = fold (\<lambda>x. dict_set (sr_scope_id x) (sr_validity_epoch x)) (rs_scope_epochs current) [];
          ranges = fold (\<lambda>x. dict_set (ar_predicate x, ar_scope_id x) (ar_range_revision x)) (rs_absences current) [] in
      rs_requirements_revision r \<noteq> rs_requirements_revision current \<or> rs_manager_epoch r \<noteq> rs_manager_epoch current \<or>
      rs_budget_grant_revision r \<noteq> rs_budget_grant_revision current \<or>
      items_changed (rs_goal_revisions r) (rs_goal_revisions current) \<or>
      items_changed (rs_method_revisions r) (rs_method_revisions current) \<or>
      items_changed (rs_observation_revisions r) (rs_observation_revisions current) \<or>
      items_changed (rs_acceptance_revisions r) (rs_acceptance_revisions current) \<or>
      items_changed (rs_obligation_revisions r) (rs_obligation_revisions current) \<or>
      items_changed (rs_authority_revisions r) (rs_authority_revisions current) \<or>
      supports_changed (rs_support_sets r) (rs_support_sets current) \<or>
      (\<exists>x\<in>set (rs_scope_epochs r). map_of epochs (sr_scope_id x) \<noteq> Some (sr_validity_epoch x)) \<or>
      (\<exists>x\<in>set (rs_absences r). map_of ranges (ar_predicate x, ar_scope_id x) \<noteq> Some (ar_range_revision x)))"

section \<open>Admission\<close>

record EligiblePrimitiveTask =
  el_mission_id :: string
  el_plan_revision :: int
  el_occurrence_id :: string
  el_task_id :: string
  el_obligation_id :: string
  el_contract_revision :: int
  el_contract_hash :: string
  el_dispatch_generation :: int
  el_input_binding_revision :: int
  el_input_manifest_hash :: string
  el_method_instance_id :: "string option"
  el_requirement_refs :: "string list"
  el_acceptance_ids :: "string list"
  el_read_set :: SemanticReadSet
  el_admitted_at_ms :: int
  el_gate_passed :: bool

datatype admission_error = NotEligible string | ManifestNotFrozen | Admission_contract contract_error

definition same_origin :: "ReadinessReport \<Rightarrow> ActivePlanView \<Rightarrow> bool" where
  "same_origin report p \<longleftrightarrow>
     rt_mission_id report = nw_mission_id (pv_snapshot p) \<and> rt_plan_revision report = nw_plan_revision (pv_snapshot p) \<and>
     rs_requirements_revision (rt_read_set report) = pv_requirements_revision p \<and>
     rs_manager_epoch (rt_read_set report) = pv_manager_epoch p \<and>
     rs_budget_grant_revision (rt_read_set report) = pv_budget_grant_revision p \<and>
     (\<forall>s\<in>set (rs_scope_epochs (rt_read_set report)). map_of (pv_scope_epochs p) (sr_scope_id s) = Some (sr_validity_epoch s))"

definition as_admission :: "contract_error + 'a \<Rightarrow> admission_error + 'a" where
  "as_admission r = (case r of Inl e \<Rightarrow> Inl (Admission_contract e) | Inr x \<Rightarrow> Inr x)"

definition admit_for_dispatch ::
  "(json \<Rightarrow> string) \<Rightarrow> ReadinessReport \<Rightarrow> TaskView \<Rightarrow> ActivePlanView \<Rightarrow> InputManifest \<Rightarrow> int \<Rightarrow> admission_error + EligiblePrimitiveTask" where
  "admit_for_dispatch sha256_hex report v p m now_ms =
     (if rt_reason report \<noteq> READY_CANDIDATE then Inl (NotEligible ''only READY_CANDIDATE may be admitted'')
      else if rt_occurrence_id report \<noteq> tv_occurrence_id v \<or> rt_task_id report \<noteq> tv_task_id v
      then Inl (NotEligible ''the report judged another occurrence'')
      else if \<not> same_origin report p then Inl (NotEligible ''the readiness report and the plan view are not from the same read'')
      else
        case tv_binding v of
          None \<Rightarrow> Inl (NotEligible ''only a primitive task with a semantic binding may be dispatched'')
        | Some b \<Rightarrow>
            if sb_form b \<noteq> PRIMITIVE then Inl (NotEligible ''only a primitive task with a semantic binding may be dispatched'')
            else if im_consumer_task_ref m \<noteq> tv_task_id v then Inl (NotEligible ''the manifest belongs to another task'')
            else
              (case manifest_hash sha256_hex m of
                 None \<Rightarrow> Inl ManifestNotFrozen
               | Some h \<Rightarrow>
                   if rt_input_manifest_hash report \<noteq> Some h then Inl (NotEligible ''this is not the manifest readiness checked'')
                   else
                     rbind (as_admission (acceptance_reads (Some m))) (\<lambda>accepted.
                     rbind (as_admission (index_min 0 (JInt now_ms) ''now_ms'')) (\<lambda>now.
                     Inr \<lparr>el_mission_id = nw_mission_id (pv_snapshot p), el_plan_revision = nw_plan_revision (pv_snapshot p),
                          el_occurrence_id = tv_occurrence_id v, el_task_id = tv_task_id v, el_obligation_id = sb_obligation_id b,
                          el_contract_revision = sb_contract_revision b, el_contract_hash = sb_contract_hash b,
                          el_dispatch_generation = sb_dispatch_generation b, el_input_binding_revision = sb_input_binding_revision b,
                          el_input_manifest_hash = h,
                          el_method_instance_id = (case current_method_owners p b of [] \<Rightarrow> None | d # ds \<Rightarrow> Some (md_instance_id d)),
                          el_requirement_refs = sb_requirement_refs b, el_acceptance_ids = map rdi_id accepted,
                          el_read_set = rt_read_set report, el_admitted_at_ms = now, el_gate_passed = True\<rparr>))))"

text \<open>\<open>gate_reason\<close> of \<open>legacy_ready_is_not_eligibility\<close>.\<close>

definition legacy_gate_reason :: "TaskForm \<Rightarrow> ReadinessReason option" where
  "legacy_gate_reason f = (if f = COMPOUND then Some NEEDS_REFINEMENT else None)"

section \<open>Frontiers\<close>

definition members_by_reason ::
  "ActivePlanView \<Rightarrow> (string \<times> ReadinessReport) list \<Rightarrow> ReadinessReason list \<Rightarrow> (ReadinessReason \<times> string list) list" where
  "members_by_reason p reports reasons =
     fold (\<lambda>(i, r). if plan_adopts p i \<and> rt_reason r \<in> set reasons then dict_append (rt_reason r) i else (\<lambda>d. d))
       (sort_key fst reports) []"

definition frontier_members :: "ActivePlanView \<Rightarrow> (string \<times> ReadinessReport) list \<Rightarrow> ReadinessReason list \<Rightarrow> string list" where
  "frontier_members p reports reasons =
     concat (map (\<lambda>r. dict_get (members_by_reason p reports reasons) r []) gate_precedence)"

definition planning_frontier :: "ActivePlanView \<Rightarrow> (string \<times> ReadinessReport) list \<Rightarrow> string list" where
  "planning_frontier p reports = frontier_members p reports PLANNING_REASONS"

definition execution_frontier :: "ActivePlanView \<Rightarrow> (string \<times> ReadinessReport) list \<Rightarrow> string list" where
  "execution_frontier p reports = frontier_members p reports EXECUTION_REASONS"

end
