(* ===== verification/Allocator.thy ===== *)
theory Allocator
  imports Lifecycle Task_Graph Backpressure Readiness "HOL-Library.Product_Lexorder"
begin

text \<open>
  The frontier and the bounded allocator (\<open>scheduling/allocator.py\<close>), both entry points: the legacy
  \<open>allocate\<close> over READY and ACTIVE Tasks and \<open>allocate_v2\<close> over admitted records. Scores are rationals in place of binary floats; the hash of
  the weights, which no decision reads, is left out. \<open>None\<close> is an exception: the
  \<open>RecursionError\<close> of \<open>_dependents\<close> on cyclic dependencies (on an acyclic chain longer than the interpreter's limit it is not
  modelled), or a \<open>ready_at\<close> that is no number.
\<close>

section \<open>Frontier\<close>

text \<open>\<open>int(task_id.rsplit("-", 1)[1])\<close>, 0 where that raises.\<close>

definition ordinal :: "string \<Rightarrow> int" where
  "ordinal task_id =
     (if CHR ''-'' \<notin> set task_id then 0
      else case parse_int (rev (takeWhile (\<lambda>c. c \<noteq> CHR ''-'') (rev task_id))) of None \<Rightarrow> 0 | Some n \<Rightarrow> n)"

definition by_id :: "Task list \<Rightarrow> string \<Rightarrow> Task option" where
  "by_id tasks i = map_of (rev (map (\<lambda>t. (tk_id t, t)) tasks)) i"

definition completed_id :: "Task list \<Rightarrow> string \<Rightarrow> bool" where
  "completed_id tasks i = (case by_id tasks i of None \<Rightarrow> False | Some t \<Rightarrow> tk_status t = T_COMPLETED)"

definition is_ready :: "Task list \<Rightarrow> Task \<Rightarrow> bool" where
  "is_ready tasks t \<longleftrightarrow>
     tk_status t = T_READY \<and> \<not> tk_paused t \<and> list_all (completed_id tasks) (tk_dependency_ids t)"

definition frontier :: "Task list \<Rightarrow> Task list" where
  "frontier tasks = sort_key (\<lambda>t. (- tk_priority t, ordinal (tk_id t))) (filter (is_ready tasks) tasks)"

section \<open>Scores\<close>

record weight_table =
  w_mission_importance :: rat
  w_unlock_value :: rat
  w_progress_signal :: rat
  w_uncertainty :: rat
  w_waiting_age :: rat
  w_estimated_cost :: rat
  w_duplication_score :: rat

definition WEIGHTS :: weight_table where
  "WEIGHTS = \<lparr>w_mission_importance = 3 / 10, w_unlock_value = 1 / 5, w_progress_signal = 3 / 20,
     w_uncertainty = 3 / 20, w_waiting_age = 1 / 10, w_estimated_cost = - 1 / 20, w_duplication_score = - 1 / 20\<rparr>"

definition OPEN_ATTEMPT_STATES :: "AttemptStatus list" where
  "OPEN_ATTEMPT_STATES = [A_PENDING, A_CLAIMED, A_RUNNING, A_SUBMITTED, A_VERIFYING]"

definition FAILED_REASONS :: "string list" where
  "FAILED_REASONS = [''verification_failed'', ''outcome_no_progress'', ''outcome_failure'']"

record TaskScore =
  sc_task_id :: string
  sc_score :: rat
  sc_tier :: int

definition direct_dependents :: "Task list \<Rightarrow> (string \<times> string list) list" where
  "direct_dependents tasks =
     fold (\<lambda>t d. fold (\<lambda>dep d. dict_append dep (tk_id t) d) (tk_dependency_ids t) d) tasks
       (fold (\<lambda>t d. dict_set (tk_id t) [] d) tasks [])"

text \<open>\<open>visit\<close> of \<open>_dependents\<close> is the memoised closure of \<open>ancestors_of\<close>, run on the reversed edges.\<close>

definition dependents_of :: "Task list \<Rightarrow> memo option" where
  "dependents_of tasks =
     (let direct = direct_dependents tasks in
      ancestors_loop (Suc (length direct)) direct (map tk_id tasks) [])"

text \<open>\<open>min(1.0, max(0.0, now - ready_at) / window)\<close>. \<open>ready_at\<close> is not checked by the constructor, so the
  subtraction may raise.\<close>

definition waiting_age :: "Task \<Rightarrow> rat \<Rightarrow> rat \<Rightarrow> rat option" where
  "waiting_age t now window =
     (if tk_ready_at t = JNull \<or> window \<le> 0 then Some 0
      else case tk_ready_at t of
        JBool b \<Rightarrow> Some (min 1 (max 0 (now - (if b then 1 else 0)) / window))
      | JFloat PyNegInf \<Rightarrow> Some 1
      | JFloat PyInf \<Rightarrow> Some 0
      | JFloat PyNaN \<Rightarrow> Some 0
      | v \<Rightarrow> (case number_of v ''ready_at'' of Inl _ \<Rightarrow> None | Inr r \<Rightarrow> Some (min 1 (max 0 (now - r) / window))))"

definition failed_attempt :: "Attempt \<Rightarrow> bool" where
  "failed_attempt a =
     (case at_failure a of
        None \<Rightarrow> False
      | Some d \<Rightarrow> (case dict_get d ''reason'' (JStr []) of JStr s \<Rightarrow> s \<in> set FAILED_REASONS | _ \<Rightarrow> False))"

definition tokens_or_zero :: "Task \<Rightarrow> int" where
  "tokens_or_zero t = (case max_tokens (tk_budget t) of None \<Rightarrow> 0 | Some n \<Rightarrow> n)"

definition score_task ::
  "(string \<Rightarrow> string) \<Rightarrow> weight_table \<Rightarrow> Task list \<Rightarrow> memo \<Rightarrow> Attempt list \<Rightarrow> int \<Rightarrow> rat \<Rightarrow> rat \<Rightarrow> Task \<Rightarrow> TaskScore" where
  "score_task nfkc w live dependents attempts pool max_priority waiting t =
     (let total_live = max 1 (of_nat (length live));
          history = filter (\<lambda>a. at_task_id a = tk_id t) attempts;
          tries = length history;
          failures = length (filter failed_attempt history);
          same = filter (\<lambda>u. normalise_goal nfkc (tk_goal u) = normalise_goal nfkc (tk_goal t)) live;
          score =
            w_mission_importance w * max 0 (min 1 (tk_priority t / max_priority)) +
            w_unlock_value w * (of_nat (card (dict_get dependents (tk_id t) {})) / total_live) +
            w_progress_signal w * (if tries = 0 then 1 / 2 else max 0 (1 - of_nat failures / of_nat tries)) +
            w_uncertainty w * (1 / 2) ^ tries +
            w_waiting_age w * waiting +
            w_estimated_cost w * min 1 (of_int (tokens_or_zero t) / of_int pool) +
            w_duplication_score w * ((of_nat (length same) - 1) / total_live)
      in \<lparr>sc_task_id = tk_id t, sc_score = score,
          sc_tier = (if tk_kind t = ''conflict'' then 0 else if 1 \<le> waiting then 1 else 2)\<rparr>)"

definition token_pool :: "int option \<Rightarrow> Task list \<Rightarrow> int" where
  "token_pool mission_max_tokens live =
     (let named = (case mission_max_tokens of None \<Rightarrow> 0 | Some n \<Rightarrow> n);
          summed = sum_list (map tokens_or_zero live) in
      if named \<noteq> 0 then named else if summed \<noteq> 0 then summed else 1)"

definition score_tasks ::
  "(string \<Rightarrow> string) \<Rightarrow> Task list \<Rightarrow> Attempt list \<Rightarrow> rat \<Rightarrow> rat \<Rightarrow> int option \<Rightarrow> weight_table option
    \<Rightarrow> (string \<times> TaskScore) list option" where
  "score_tasks nfkc tasks attempts now window mission_max_tokens weights =
     (let live = filter (\<lambda>t. tk_status t \<noteq> T_CANCELLED) tasks in
      if live = [] then Some []
      else
        let best = fold max (map tk_priority (tl live)) (tk_priority (hd live));
            max_priority = (if best = 0 then 1 else best);
            w = (case weights of None \<Rightarrow> WEIGHTS | Some w \<Rightarrow> w) in
        Option.bind (dependents_of live) (\<lambda>dependents.
        map_option (\<lambda>ages.
          fold (\<lambda>(t, waiting) d. dict_set (tk_id t)
            (score_task nfkc w live dependents attempts (token_pool mission_max_tokens live) max_priority waiting t) d)
            (zip live ages) [])
          (those (map (\<lambda>t. waiting_age t now window) live))))"

section \<open>Allocation\<close>

definition open_by_task :: "string list \<Rightarrow> Attempt list \<Rightarrow> (string \<times> int) list" where
  "open_by_task waiting attempts =
     fold (\<lambda>a d. if at_status a \<in> set OPEN_ATTEMPT_STATES \<and> at_id a \<notin> set waiting
                 then dict_set (at_task_id a) (dict_get d (at_task_id a) 0 + 1) d else d) attempts []"

definition rank_key :: "(string \<times> TaskScore) list \<Rightarrow> Task \<Rightarrow> int \<times> rat \<times> int" where
  "rank_key scores t =
     (case map_of scores (tk_id t) of
        None \<Rightarrow> (2, - tk_priority t, ordinal (tk_id t))
      | Some s \<Rightarrow> (sc_tier s, - sc_score s, ordinal (tk_id t)))"

definition tier_of :: "(string \<times> TaskScore) list \<Rightarrow> Task \<Rightarrow> int" where
  "tier_of scores t = (case map_of scores (tk_id t) of None \<Rightarrow> 2 | Some s \<Rightarrow> sc_tier s)"

fun pressure_keep_loop ::
  "(string \<times> TaskScore) list \<Rightarrow> string list \<Rightarrow> int \<Rightarrow> int \<Rightarrow> Task list \<Rightarrow> Task list" where
  "pressure_keep_loop scores tried slots explored [] = []"
| "pressure_keep_loop scores tried slots explored (t # ts) =
     (if tier_of scores t \<le> 1 then t # pressure_keep_loop scores tried slots explored ts
      else if tk_id t \<notin> set tried \<and> explored < max 0 slots
      then t # pressure_keep_loop scores tried slots (explored + 1) ts
      else pressure_keep_loop scores tried slots explored ts)"

definition pressure_keep ::
  "Task list \<Rightarrow> (string \<times> TaskScore) list \<Rightarrow> Attempt list \<Rightarrow> int \<Rightarrow> Task list" where
  "pressure_keep ordered scores attempts exploration_slots =
     pressure_keep_loop scores (map at_task_id attempts) exploration_slots 0 ordered"

text \<open>The inner \<open>while\<close>: candidate ordinals granted to one Task, and the new total of open Attempts.\<close>

function grant_task :: "int option \<Rightarrow> int \<Rightarrow> int \<Rightarrow> int \<Rightarrow> int list \<times> int" where
  "grant_task limit wanted here open_total =
     (if wanted \<le> here then ([], open_total)
      else if (case limit of None \<Rightarrow> False | Some l \<Rightarrow> l \<le> open_total) then ([], open_total)
      else (let (rest, t) = grant_task limit wanted (here + 1) (open_total + 1) in ((here + 1) # rest, t)))"
  by pat_completeness auto
termination
  by (relation "measure (\<lambda>(limit, wanted, here, open_total). nat (wanted - here))") auto

declare grant_task.simps [simp del]

fun grant_all ::
  "int option \<Rightarrow> int \<Rightarrow> (string \<times> int) list \<Rightarrow> Task list \<Rightarrow> int \<Rightarrow> (Task \<times> int) list \<times> int" where
  "grant_all limit wanted open_by [] open_total = ([], open_total)"
| "grant_all limit wanted open_by (t # ts) open_total =
     (let (mine, o1) = grant_task limit wanted (dict_get open_by (tk_id t) 0) open_total;
          (rest, o2) = grant_all limit wanted open_by ts o1
      in (map (\<lambda>n. (t, n)) mine @ rest, o2))"

record AllocationPlan =
  ap_grants :: "(Task \<times> int) list"
  ap_open_attempts :: int
  ap_concurrency_limit :: "int option"
  ap_scores :: "(string \<times> TaskScore) list"
  ap_pressure :: "level option"
  ap_eligible :: nat
  ap_slots :: "int option"

record alloc_config =
  ac_concurrency_limit :: "int option"
  ac_candidates_per_task :: int
  ac_now :: "rat option"
  ac_aging_window :: rat
  ac_mission_max_tokens :: "int option"
  ac_pressure :: "BackpressureState option"
  ac_reduced_ratio :: rat
  ac_exploration_slots :: int
  ac_weights :: "weight_table option"
  ac_waiting_attempt_ids :: "string list"
  ac_selection_task_ids :: "string list"

definition under_pressure :: "alloc_config \<Rightarrow> bool" where
  "under_pressure c = (case ac_pressure c of None \<Rightarrow> False | Some s \<Rightarrow> is_raised s)"

definition effective_limit :: "alloc_config \<Rightarrow> int option" where
  "effective_limit c =
     (case ac_concurrency_limit c of
        None \<Rightarrow> None
      | Some l \<Rightarrow> Some (if under_pressure c then max 1 (trunc_rat (of_int l * ac_reduced_ratio c)) else l))"

definition may_resume :: "alloc_config \<Rightarrow> Task \<Rightarrow> bool" where
  "may_resume c t \<longleftrightarrow>
     (tk_status t = T_ACTIVE \<or> (tk_id t \<in> set (ac_selection_task_ids c) \<and> tk_status t = T_VERIFYING)) \<and> \<not> tk_paused t"

text \<open>First occurrence per id.\<close>

fun first_per_id :: "string list \<Rightarrow> Task list \<Rightarrow> Task list" where
  "first_per_id seen [] = []"
| "first_per_id seen (t # ts) =
     (if tk_id t \<in> set seen then first_per_id seen ts else t # first_per_id (tk_id t # seen) ts)"

definition config_scores :: "(string \<Rightarrow> string) \<Rightarrow> alloc_config \<Rightarrow> Task list \<Rightarrow> Attempt list \<Rightarrow> (string \<times> TaskScore) list option" where
  "config_scores nfkc c tasks attempts =
     score_tasks nfkc tasks attempts
       (case ac_now c of None \<Rightarrow> 0 | Some n \<Rightarrow> n) (case ac_now c of None \<Rightarrow> 0 | Some n \<Rightarrow> ac_aging_window c)
       (ac_mission_max_tokens c) (ac_weights c)"

definition scores_for :: "(string \<times> TaskScore) list \<Rightarrow> Task list \<Rightarrow> (string \<times> TaskScore) list" where
  "scores_for scores ordered =
     fold (\<lambda>t d. case map_of scores (tk_id t) of None \<Rightarrow> d | Some s \<Rightarrow> dict_set (tk_id t) s d) ordered []"

definition allocate ::
  "(string \<Rightarrow> string) \<Rightarrow> alloc_config \<Rightarrow> Task list \<Rightarrow> Attempt list \<Rightarrow> AllocationPlan option" where
  "allocate nfkc c tasks attempts =
     (let open_by = open_by_task (ac_waiting_attempt_ids c) attempts;
          open_total = sum_list (map snd open_by);
          limit = effective_limit c;
          eligible = frontier tasks @ filter (may_resume c) tasks in
      map_option (\<lambda>scores.
        let ordered = sort_key (rank_key scores) (first_per_id [] eligible);
            ordered = (if under_pressure c then pressure_keep ordered scores attempts (ac_exploration_slots c) else ordered);
            (grants, open_after) = grant_all limit (max 1 (ac_candidates_per_task c)) open_by ordered open_total in
        \<lparr>ap_grants = grants, ap_open_attempts = open_after, ap_concurrency_limit = limit,
         ap_scores = scores_for scores ordered, ap_pressure = map_option bp_level (ac_pressure c),
         ap_eligible = length ordered,
         ap_slots = (case limit of None \<Rightarrow> None | Some l \<Rightarrow> Some (max 0 (l - open_total)))\<rparr>)
      (config_scores nfkc c tasks attempts))"

section \<open>The admitted frontier\<close>

record FrontierRefusal =
  fr_task_id :: string
  fr_reason :: ReadinessReason

record FrontierV2 =
  f2_admitted :: "EligiblePrimitiveTask list"
  f2_refusals :: "FrontierRefusal list"

definition frontier_verdict ::
  "(string \<times> TaskForm) list \<Rightarrow> (string \<times> EligiblePrimitiveTask) list \<Rightarrow> Task \<Rightarrow> ReadinessReason + EligiblePrimitiveTask" where
  "frontier_verdict bindings readiness t =
     (case map_of bindings (tk_id t) of
        None \<Rightarrow> Inl GRAPH_INTEGRITY
      | Some form \<Rightarrow>
          (case legacy_gate_reason form of
             Some reason \<Rightarrow> Inl reason
           | None \<Rightarrow>
               (case map_of readiness (tk_id t) of
                  None \<Rightarrow> Inl NOT_SELECTED
                | Some r \<Rightarrow>
                    if \<not> el_gate_passed r then Inl GRAPH_INTEGRITY
                    else if el_task_id r \<noteq> tk_id t then Inl GRAPH_INTEGRITY
                    else if tk_paused t then Inl NOT_SELECTED
                    else if tk_status t \<in> set TERMINAL_TASK then Inl NOT_SELECTED
                    else Inr r)))"

definition priority_of :: "Task list \<Rightarrow> string \<Rightarrow> rat" where
  "priority_of tasks i = (case by_id tasks i of None \<Rightarrow> 0 | Some t \<Rightarrow> tk_priority t)"

definition evaluate_frontier_v2 ::
  "Task list \<Rightarrow> (string \<times> TaskForm) list \<Rightarrow> (string \<times> EligiblePrimitiveTask) list \<Rightarrow> FrontierV2" where
  "evaluate_frontier_v2 tasks bindings readiness =
     (let verdicts = map (\<lambda>t. (t, frontier_verdict bindings readiness t)) tasks in
      \<lparr>f2_admitted = sort_key (\<lambda>r. (- priority_of tasks (el_task_id r), ordinal (el_task_id r)))
         (List.map_filter (\<lambda>(t, v). case v of Inl _ \<Rightarrow> None | Inr r \<Rightarrow> Some r) verdicts),
       f2_refusals = List.map_filter (\<lambda>(t, v). case v of
         Inl reason \<Rightarrow> Some \<lparr>fr_task_id = tk_id t, fr_reason = reason\<rparr> | Inr _ \<Rightarrow> None) verdicts\<rparr>)"

definition frontier_v2 ::
  "Task list \<Rightarrow> (string \<times> TaskForm) list \<Rightarrow> (string \<times> EligiblePrimitiveTask) list \<Rightarrow> EligiblePrimitiveTask list" where
  "frontier_v2 tasks bindings readiness = f2_admitted (evaluate_frontier_v2 tasks bindings readiness)"

definition needs_refinement :: "FrontierV2 \<Rightarrow> string list" where
  "needs_refinement f = map fr_task_id (filter (\<lambda>r. fr_reason r = NEEDS_REFINEMENT) (f2_refusals f))"

definition refusal_for :: "FrontierV2 \<Rightarrow> string \<Rightarrow> FrontierRefusal option" where
  "refusal_for f i = find (\<lambda>r. fr_task_id r = i) (f2_refusals f)"

record AllocationPlanV2 =
  a2_grants :: "(EligiblePrimitiveTask \<times> int) list"
  a2_open_attempts :: int
  a2_concurrency_limit :: "int option"
  a2_scores :: "(string \<times> TaskScore) list"
  a2_refusals :: "FrontierRefusal list"
  a2_pressure :: "level option"
  a2_eligible :: nat
  a2_slots :: "int option"

definition admitted_by_task :: "EligiblePrimitiveTask list \<Rightarrow> (string \<times> EligiblePrimitiveTask) list" where
  "admitted_by_task admitted = fold (\<lambda>r d. dict_set (el_task_id r) r d) admitted []"

text \<open>\<open>by_id\<close> and \<open>admitted_by_task\<close> hold every key that is looked up; the missing cases are dropped.\<close>

definition allocate_v2 ::
  "(string \<Rightarrow> string) \<Rightarrow> alloc_config \<Rightarrow> Task list \<Rightarrow> Attempt list \<Rightarrow> (string \<times> TaskForm) list
    \<Rightarrow> (string \<times> EligiblePrimitiveTask) list \<Rightarrow> AllocationPlanV2 option" where
  "allocate_v2 nfkc c tasks attempts bindings readiness =
     (let computed = evaluate_frontier_v2 tasks bindings readiness;
          open_by = open_by_task (ac_waiting_attempt_ids c) attempts;
          open_total = sum_list (map snd open_by);
          limit = effective_limit c;
          admitted = admitted_by_task (f2_admitted computed) in
      map_option (\<lambda>scores.
        let ordered = sort_key (rank_key scores) (List.map_filter (by_id tasks) (map fst admitted));
            ordered = (if under_pressure c then pressure_keep ordered scores attempts (ac_exploration_slots c) else ordered);
            (grants, open_after) = grant_all limit (max 1 (ac_candidates_per_task c)) open_by ordered open_total in
        \<lparr>a2_grants = List.map_filter (\<lambda>(t, n). map_option (\<lambda>r. (r, n)) (map_of admitted (tk_id t))) grants,
         a2_open_attempts = open_after, a2_concurrency_limit = limit,
         a2_scores = scores_for scores ordered, a2_refusals = f2_refusals computed,
         a2_pressure = map_option bp_level (ac_pressure c), a2_eligible = length ordered,
         a2_slots = (case limit of None \<Rightarrow> None | Some l \<Rightarrow> Some (max 0 (l - open_total)))\<rparr>)
      (config_scores nfkc c tasks attempts))"

definition granted_task_ids :: "AllocationPlanV2 \<Rightarrow> string list" where
  "granted_task_ids p = map (\<lambda>(r, n). el_task_id r) (a2_grants p)"

end
