(* ===== verification/Allocator_Correct.thy ===== *)
theory Allocator_Correct
  imports Allocator
begin

text \<open>What an allocation plan may grant: the concurrency limit, the candidates of each Task, who may compete,
  what is granted under pressure, and that slots are left unused only when every candidate is served.\<close>

section \<open>Counting open Attempts\<close>

definition is_open :: "string list \<Rightarrow> Attempt \<Rightarrow> bool" where
  "is_open waiting a \<longleftrightarrow> at_status a \<in> set OPEN_ATTEMPT_STATES \<and> at_id a \<notin> set waiting"

definition open_count :: "string list \<Rightarrow> Attempt list \<Rightarrow> string \<Rightarrow> int" where
  "open_count waiting attempts i = int (length (filter (\<lambda>a. is_open waiting a \<and> at_task_id a = i) attempts))"

lemma sum_dict_bump:
  "distinct (dict_keys d) \<Longrightarrow> sum_list (map snd (dict_set k (dict_get d k 0 + 1) d)) = sum_list (map snd d) + (1 :: int)"
  by (simp add: sum_dict_set dict_get_def split: option.splits)

lemma open_by_task_fold:
  assumes "distinct (dict_keys d)"
  shows "sum_list (map snd (fold (\<lambda>a d. if at_status a \<in> set OPEN_ATTEMPT_STATES \<and> at_id a \<notin> set waiting
           then dict_set (at_task_id a) (dict_get d (at_task_id a) 0 + 1) d else d) attempts d)) =
         sum_list (map snd d) + int (length (filter (is_open waiting) attempts)) \<and>
       dict_get (fold (\<lambda>a d. if at_status a \<in> set OPEN_ATTEMPT_STATES \<and> at_id a \<notin> set waiting
           then dict_set (at_task_id a) (dict_get d (at_task_id a) 0 + 1) d else d) attempts d) i 0 =
         dict_get d i 0 + open_count waiting attempts i"
  using assms
proof (induction attempts arbitrary: d)
  case (Cons a attempts)
  show ?case
  proof (cases "is_open waiting a")
    case True
    let ?d = "dict_set (at_task_id a) (dict_get d (at_task_id a) 0 + 1) d"
    have "distinct (dict_keys ?d)" by (rule distinct_dict_set[OF Cons.prems])
    from Cons.IH[OF this] sum_dict_bump[OF Cons.prems, of "at_task_id a"] True show ?thesis
      by (auto simp: is_open_def open_count_def)
  next
    case False
    with Cons.IH[OF Cons.prems] show ?thesis by (auto simp: is_open_def open_count_def)
  qed
qed (simp add: open_count_def)

lemma open_by_task_total: "sum_list (map snd (open_by_task waiting attempts)) = int (length (filter (is_open waiting) attempts))"
  using open_by_task_fold[of "[]"] by (simp add: open_by_task_def)

lemma open_by_task_get: "dict_get (open_by_task waiting attempts) i 0 = open_count waiting attempts i"
  using open_by_task_fold[of "[]"] by (simp add: open_by_task_def)

section \<open>Granting\<close>

lemma grant_task_facts:
  "grant_task limit wanted here tot = (ns, tot') \<Longrightarrow>
     ns = map (\<lambda>j. here + 1 + int j) [0..<length ns] \<and> tot' = tot + int (length ns) \<and>
     (ns \<noteq> [] \<longrightarrow> here + int (length ns) \<le> wanted) \<and>
     (\<forall>l. limit = Some l \<longrightarrow> ns \<noteq> [] \<longrightarrow> tot' \<le> l) \<and>
     (here + int (length ns) < wanted \<longrightarrow> (\<exists>l. limit = Some l \<and> l \<le> tot'))"
proof (induction limit wanted here tot arbitrary: ns tot' rule: grant_task.induct)
  case (1 limit wanted here tot)
  show ?case
  proof (cases "wanted \<le> here \<or> (case limit of None \<Rightarrow> False | Some l \<Rightarrow> l \<le> tot)")
    case True
    with 1(2) show ?thesis by (subst (asm) grant_task.simps) (auto split: if_splits option.splits)
  next
    case False
    obtain ms t where rec: "grant_task limit wanted (here + 1) (tot + 1) = (ms, t)" by fastforce
    with False 1(2) have ns: "ns = (here + 1) # ms" "tot' = t" by (subst (asm) grant_task.simps; auto)+
    from False 1(1)[OF _ _ rec]
    have IH: "ms = map (\<lambda>j. here + 1 + 1 + int j) [0..<length ms]" "t = tot + 1 + int (length ms)"
      "ms \<noteq> [] \<longrightarrow> here + 1 + int (length ms) \<le> wanted" "\<forall>l. limit = Some l \<longrightarrow> ms \<noteq> [] \<longrightarrow> t \<le> l"
      "here + 1 + int (length ms) < wanted \<longrightarrow> (\<exists>l. limit = Some l \<and> l \<le> t)" by (auto split: if_splits)
    have "map (\<lambda>j. here + 1 + int j) [0..<length ns] = (here + 1) # map (\<lambda>j. here + 1 + int j) (map Suc [0..<length ms])"
      unfolding ns(1) by (simp add: upt_conv_Cons map_Suc_upt del: upt_Suc)
    also have "\<dots> = ns" using IH(1) ns(1) by (simp add: comp_def add.assoc)
    finally show ?thesis using IH(2-) ns False by (auto split: option.splits)
  qed
qed

lemma grant_all_total:
  "grant_all limit wanted open_by ts tot = (gs, tot') \<Longrightarrow> tot' = tot + int (length gs)"
proof (induction ts arbitrary: tot gs)
  case (Cons t ts)
  obtain mine o1 where m: "grant_task limit wanted (dict_get open_by (tk_id t) 0) tot = (mine, o1)" by fastforce
  obtain rest where r: "grant_all limit wanted open_by ts o1 = (rest, tot')" "gs = map (\<lambda>n. (t, n)) mine @ rest"
    using Cons.prems m by (auto split: prod.splits)
  from Cons.IH[OF r(1)] grant_task_facts[OF m] r(2) show ?case by simp
qed simp

lemma grant_all_limit:
  "grant_all (Some l) wanted open_by ts tot = (gs, tot') \<Longrightarrow> tot' \<le> max tot l"
proof (induction ts arbitrary: tot gs)
  case (Cons t ts)
  obtain mine o1 where m: "grant_task (Some l) wanted (dict_get open_by (tk_id t) 0) tot = (mine, o1)" by fastforce
  obtain rest where r: "grant_all (Some l) wanted open_by ts o1 = (rest, tot')"
    using Cons.prems m by (auto split: prod.splits)
  have "o1 \<le> max tot l" using grant_task_facts[OF m] by (cases mine) auto
  with Cons.IH[OF r] show ?case by simp
qed simp

lemma grant_all_mem:
  assumes "grant_all limit wanted open_by ts tot = (gs, tot')" and "(t, n) \<in> set gs"
  shows "t \<in> set ts \<and> dict_get open_by (tk_id t) 0 < n \<and> n \<le> wanted"
  using assms
proof (induction ts arbitrary: tot gs)
  case (Cons u ts)
  obtain mine o1 where m: "grant_task limit wanted (dict_get open_by (tk_id u) 0) tot = (mine, o1)" by fastforce
  obtain rest where r: "grant_all limit wanted open_by ts o1 = (rest, tot')" "gs = map (\<lambda>n. (u, n)) mine @ rest"
    using Cons.prems m by (auto split: prod.splits)
  show ?case
  proof (cases "(t, n) \<in> set rest")
    case True
    from Cons.IH[OF r(1) this] show ?thesis by simp
  next
    case False
    with Cons.prems(2) r(2) have t: "t = u" "n \<in> set mine" by auto
    note f = grant_task_facts[OF m]
    from t(2) f have "n \<in> set (map (\<lambda>j. dict_get open_by (tk_id u) 0 + 1 + int j) [0..<length mine])" by metis
    with t f show ?thesis by (cases mine) auto
  qed
qed simp

lemma grant_all_order:
  assumes "grant_all limit wanted open_by ts tot = (gs, tot')" and "sorted (map key ts)"
  shows "sorted (map (\<lambda>(t, n). key t) gs)"
  using assms
proof (induction ts arbitrary: tot gs)
  case (Cons u ts)
  obtain mine o1 where m: "grant_task limit wanted (dict_get open_by (tk_id u) 0) tot = (mine, o1)" by fastforce
  obtain rest where r: "grant_all limit wanted open_by ts o1 = (rest, tot')" "gs = map (\<lambda>n. (u, n)) mine @ rest"
    using Cons.prems m by (auto split: prod.splits)
  from Cons.IH[OF r(1)] Cons.prems(2) have "sorted (map (\<lambda>(t, n). key t) rest)" by simp
  moreover have "\<forall>(t, n)\<in>set rest. key u \<le> key t" using grant_all_mem[OF r(1)] Cons.prems(2) by auto
  ultimately show ?case unfolding r(2) by (auto simp: sorted_append comp_def map_replicate_const)
qed simp

lemma grant_all_served:
  assumes "grant_all limit wanted open_by ts tot = (gs, tot')" and "distinct (map tk_id ts)" and "t \<in> set ts"
  shows "map snd (filter (\<lambda>(u, n). tk_id u = tk_id t) gs) =
      map (\<lambda>j. dict_get open_by (tk_id t) 0 + 1 + int j) [0..<length (filter (\<lambda>(u, n). tk_id u = tk_id t) gs)] \<and>
    (dict_get open_by (tk_id t) 0 + int (length (filter (\<lambda>(u, n). tk_id u = tk_id t) gs)) < wanted \<longrightarrow>
      (\<exists>l. limit = Some l \<and> l \<le> tot'))"
  using assms
proof (induction ts arbitrary: tot gs)
  case (Cons u ts)
  obtain mine o1 where m: "grant_task limit wanted (dict_get open_by (tk_id u) 0) tot = (mine, o1)" by fastforce
  obtain rest where r: "grant_all limit wanted open_by ts o1 = (rest, tot')" "gs = map (\<lambda>n. (u, n)) mine @ rest"
    using Cons.prems m by (auto split: prod.splits)
  have other: "filter (\<lambda>(v, n). tk_id v = tk_id u) rest = []"
    using grant_all_mem[OF r(1)] Cons.prems(2) by (auto simp: filter_empty_conv) (metis image_eqI)
  show ?case
  proof (cases "t = u")
    case True
    have "filter (\<lambda>(v, n). tk_id v = tk_id t) gs = map (\<lambda>n. (u, n)) mine"
      unfolding r(2) using True other by (simp add: filter_map comp_def)
    moreover have "o1 \<le> tot'" using grant_all_total[OF r(1)] by simp
    ultimately show ?thesis using grant_task_facts[OF m] True by (fastforce simp: comp_def)
  next
    case False
    then have "tk_id u \<noteq> tk_id t" using Cons.prems(2,3) by auto
    then have "filter (\<lambda>(v, n). tk_id v = tk_id t) gs = filter (\<lambda>(v, n). tk_id v = tk_id t) rest"
      unfolding r(2) by (simp add: filter_map comp_def)
    with Cons.IH[OF r(1)] Cons.prems(2,3) False show ?thesis by simp
  qed
qed simp

section \<open>Who competes\<close>

lemma first_per_id_facts:
  "set (first_per_id seen ts) \<subseteq> set ts \<and> distinct (map tk_id (first_per_id seen ts)) \<and>
     tk_id ` set (first_per_id seen ts) = tk_id ` set ts - set seen"
  by (induction ts arbitrary: seen) (fastforce split: if_splits)+

lemma pressure_keep_loop_subset: "set (pressure_keep_loop scores tried slots explored ts) \<subseteq> set ts"
  by (induction ts arbitrary: explored) auto

lemma pressure_keep_loop_sorted:
  "sorted (map key ts) \<Longrightarrow> sorted (map key (pressure_keep_loop scores tried slots explored ts))"
  by (induction ts arbitrary: explored) (auto dest: pressure_keep_loop_subset[THEN subsetD])

lemma pressure_keep_loop_distinct:
  "distinct (map tk_id ts) \<Longrightarrow> distinct (map tk_id (pressure_keep_loop scores tried slots explored ts))"
  by (induction ts arbitrary: explored) (auto dest: pressure_keep_loop_subset[THEN subsetD])

lemma pressure_keep_loop_tier:
  "t \<in> set (pressure_keep_loop scores tried slots explored ts) \<Longrightarrow> tier_of scores t \<le> 1 \<or> tk_id t \<notin> set tried"
  by (induction ts arbitrary: explored) (auto split: if_splits)

lemma pressure_keep_loop_quota:
  "int (length (filter (\<lambda>t. 1 < tier_of scores t) (pressure_keep_loop scores tried slots explored ts))) \<le>
     max 0 (max 0 slots - explored)"
proof (induction ts arbitrary: explored)
  case (Cons t ts)
  consider "tier_of scores t \<le> 1" | "1 < tier_of scores t" "tk_id t \<notin> set tried" "explored < max 0 slots"
    | "1 < tier_of scores t" "\<not> (tk_id t \<notin> set tried \<and> explored < max 0 slots)" by linarith
  then show ?case
  proof cases
    case 2
    then show ?thesis using Cons.IH[of "explored + 1"] by simp
  qed (use Cons.IH[of explored] in auto)
qed simp

definition competitors :: "alloc_config \<Rightarrow> Task list \<Rightarrow> Attempt list \<Rightarrow> (string \<times> TaskScore) list \<Rightarrow> Task list" where
  "competitors c tasks attempts scores =
     (let ordered = sort_key (rank_key scores) (first_per_id [] (frontier tasks @ filter (may_resume c) tasks)) in
      if under_pressure c then pressure_keep ordered scores attempts (ac_exploration_slots c) else ordered)"

lemma competitors_facts:
  "set (competitors c tasks attempts scores) \<subseteq> {t \<in> set tasks. is_ready tasks t \<or> may_resume c t} \<and>
   distinct (map tk_id (competitors c tasks attempts scores)) \<and>
   sorted (map (rank_key scores) (competitors c tasks attempts scores)) \<and>
   (under_pressure c \<longrightarrow>
     (\<forall>t\<in>set (competitors c tasks attempts scores). tier_of scores t \<le> 1 \<or> tk_id t \<notin> at_task_id ` set attempts) \<and>
     int (length (filter (\<lambda>t. 1 < tier_of scores t) (competitors c tasks attempts scores))) \<le> max 0 (ac_exploration_slots c)) \<and>
   (\<not> under_pressure c \<longrightarrow>
     tk_id ` set (competitors c tasks attempts scores) = tk_id ` {t \<in> set tasks. is_ready tasks t \<or> may_resume c t})"
proof -
  let ?E = "frontier tasks @ filter (may_resume c) tasks"
  let ?O = "sort_key (rank_key scores) (first_per_id [] ?E)"
  have E: "set ?E = {t \<in> set tasks. is_ready tasks t \<or> may_resume c t}" by (auto simp: frontier_def)
  have sub: "set (first_per_id [] ?E) \<subseteq> set ?E" and dist: "distinct (map tk_id (first_per_id [] ?E))"
    and ids: "tk_id ` set (first_per_id [] ?E) = tk_id ` set ?E"
    using first_per_id_facts[of "[]" ?E] by auto
  have O: "set ?O = set (first_per_id [] ?E)" "sorted (map (rank_key scores) ?O)" by simp_all
  have dO: "distinct (map tk_id ?O)"
    using dist by (metis distinct_map distinct_sort set_sort)
  show ?thesis
  proof (cases "under_pressure c")
    case True
    then have comp: "competitors c tasks attempts scores = pressure_keep ?O scores attempts (ac_exploration_slots c)"
      by (simp add: competitors_def)
    have "set (competitors c tasks attempts scores) \<subseteq> set ?O"
      unfolding comp pressure_keep_def by (rule pressure_keep_loop_subset)
    moreover have "distinct (map tk_id (competitors c tasks attempts scores))"
      unfolding comp pressure_keep_def by (rule pressure_keep_loop_distinct[OF dO])
    moreover have "sorted (map (rank_key scores) (competitors c tasks attempts scores))"
      unfolding comp pressure_keep_def by (rule pressure_keep_loop_sorted[OF O(2)])
    moreover have "tier_of scores t \<le> 1 \<or> tk_id t \<notin> at_task_id ` set attempts"
      if "t \<in> set (competitors c tasks attempts scores)" for t
      using pressure_keep_loop_tier that unfolding comp pressure_keep_def by fastforce
    moreover have "int (length (filter (\<lambda>t. 1 < tier_of scores t) (competitors c tasks attempts scores))) \<le> max 0 (ac_exploration_slots c)"
      unfolding comp pressure_keep_def
      using pressure_keep_loop_quota[of scores "map at_task_id attempts" "ac_exploration_slots c" 0 ?O] by simp
    ultimately show ?thesis using True O(1) sub E by blast
  next
    case False
    then have comp: "competitors c tasks attempts scores = ?O" by (simp add: competitors_def)
    show ?thesis unfolding comp using False O dO sub ids E by auto
  qed
qed

lemma allocate_result:
  assumes "allocate nfkc c tasks attempts = Some p"
  shows "\<exists>scores. config_scores nfkc c tasks attempts = Some scores \<and>
    grant_all (effective_limit c) (max 1 (ac_candidates_per_task c)) (open_by_task (ac_waiting_attempt_ids c) attempts)
      (competitors c tasks attempts scores) (int (length (filter (is_open (ac_waiting_attempt_ids c)) attempts))) =
      (ap_grants p, ap_open_attempts p) \<and> ap_concurrency_limit p = effective_limit c"
proof -
  have comp: "(if under_pressure c
      then pressure_keep (sort_key (rank_key scores) (first_per_id [] (frontier tasks @ filter (may_resume c) tasks)))
        scores attempts (ac_exploration_slots c)
      else sort_key (rank_key scores) (first_per_id [] (frontier tasks @ filter (may_resume c) tasks))) =
      competitors c tasks attempts scores" for scores by (simp add: competitors_def)
  show ?thesis using assms unfolding allocate_def Let_def comp open_by_task_total by (auto simp: case_prod_unfold)
qed

text \<open>C9. The allocator is bounded, fair in order and work conserving. A plan never takes the open Attempts
  above the concurrency limit in force; it grants only Tasks that are READY with every dependency
  COMPLETED or may resume, none of them paused, and to each the next candidate numbers up to the configured
  count; grants come in rank order; a competing Task is left short only when the limit is reached. Under
  pressure only conflict, starving or never tried Tasks are granted, the last within the exploration quota.\<close>

theorem allocation_bounded:
  assumes "allocate nfkc c tasks attempts = Some p"
  shows "let busy = int (length (filter (is_open (ac_waiting_attempt_ids c)) attempts));
      mine = (\<lambda>t. filter (\<lambda>(u, n). tk_id u = tk_id t) (ap_grants p));
      have_open = (\<lambda>t. open_count (ac_waiting_attempt_ids c) attempts (tk_id t)) in
    ap_concurrency_limit p = effective_limit c \<and> ap_open_attempts p = busy + int (length (ap_grants p)) \<and>
    (\<forall>l. effective_limit c = Some l \<longrightarrow> ap_open_attempts p \<le> max busy l) \<and>
    (\<exists>scores. config_scores nfkc c tasks attempts = Some scores \<and>
      sorted (map (\<lambda>(t, n). rank_key scores t) (ap_grants p)) \<and>
      (\<forall>(t, n)\<in>set (ap_grants p). t \<in> set tasks \<and> (is_ready tasks t \<or> may_resume c t) \<and>
        have_open t < n \<and> n \<le> max 1 (ac_candidates_per_task c) \<and>
        (under_pressure c \<longrightarrow> tier_of scores t \<le> 1 \<or> tk_id t \<notin> at_task_id ` set attempts)) \<and>
      (\<forall>t\<in>set (competitors c tasks attempts scores).
        map snd (mine t) = map (\<lambda>j. have_open t + 1 + int j) [0..<length (mine t)] \<and>
        (have_open t + int (length (mine t)) < max 1 (ac_candidates_per_task c) \<longrightarrow>
          (\<exists>l. effective_limit c = Some l \<and> l \<le> ap_open_attempts p))) \<and>
      (under_pressure c \<longrightarrow> int (length (filter (\<lambda>t. 1 < tier_of scores t) (competitors c tasks attempts scores)))
        \<le> max 0 (ac_exploration_slots c)))"
proof -
  from allocate_result[OF assms] obtain scores where s: "config_scores nfkc c tasks attempts = Some scores"
    and g: "grant_all (effective_limit c) (max 1 (ac_candidates_per_task c)) (open_by_task (ac_waiting_attempt_ids c) attempts)
      (competitors c tasks attempts scores) (int (length (filter (is_open (ac_waiting_attempt_ids c)) attempts))) =
      (ap_grants p, ap_open_attempts p)" and l: "ap_concurrency_limit p = effective_limit c" by blast
  note comp = competitors_facts[of c tasks attempts scores]
  have A: "\<forall>(t, n)\<in>set (ap_grants p). t \<in> set tasks \<and> (is_ready tasks t \<or> may_resume c t) \<and>
      open_count (ac_waiting_attempt_ids c) attempts (tk_id t) < n \<and> n \<le> max 1 (ac_candidates_per_task c) \<and>
      (under_pressure c \<longrightarrow> tier_of scores t \<le> 1 \<or> tk_id t \<notin> at_task_id ` set attempts)"
  proof (clarify)
    fix t n assume "(t, n) \<in> set (ap_grants p)"
    from grant_all_mem[OF g this] comp
    show "t \<in> set tasks \<and> (is_ready tasks t \<or> may_resume c t) \<and>
      open_count (ac_waiting_attempt_ids c) attempts (tk_id t) < n \<and> n \<le> max 1 (ac_candidates_per_task c) \<and>
      (under_pressure c \<longrightarrow> tier_of scores t \<le> 1 \<or> tk_id t \<notin> at_task_id ` set attempts)"
      unfolding open_by_task_get by blast
  qed
  have B: "sorted (map (\<lambda>(t, n). rank_key scores t) (ap_grants p))"
    using grant_all_order[OF g] comp by blast
  have D: "\<forall>l. effective_limit c = Some l \<longrightarrow>
      ap_open_attempts p \<le> max (int (length (filter (is_open (ac_waiting_attempt_ids c)) attempts))) l"
    using grant_all_limit g by metis
  have E: "\<forall>t\<in>set (competitors c tasks attempts scores).
      map snd (filter (\<lambda>(u, n). tk_id u = tk_id t) (ap_grants p)) =
        map (\<lambda>j. open_count (ac_waiting_attempt_ids c) attempts (tk_id t) + 1 + int j)
          [0..<length (filter (\<lambda>(u, n). tk_id u = tk_id t) (ap_grants p))] \<and>
      (open_count (ac_waiting_attempt_ids c) attempts (tk_id t) +
          int (length (filter (\<lambda>(u, n). tk_id u = tk_id t) (ap_grants p))) < max 1 (ac_candidates_per_task c) \<longrightarrow>
        (\<exists>l. effective_limit c = Some l \<and> l \<le> ap_open_attempts p))"
    using grant_all_served[OF g, unfolded open_by_task_get] comp by blast
  have F: "under_pressure c \<longrightarrow> int (length (filter (\<lambda>t. 1 < tier_of scores t) (competitors c tasks attempts scores)))
      \<le> max 0 (ac_exploration_slots c)" using comp by blast
  show ?thesis unfolding Let_def
    by (intro conjI exI[of _ scores]) (fact l grant_all_total[OF g] s A B D E F)+
qed

definition sample_task :: "string \<Rightarrow> TaskStatus \<Rightarrow> string list \<Rightarrow> Task" where
  "sample_task i s deps = blank_task\<lparr>tk_id := i, tk_status := s, tk_dependency_ids := deps, tk_goal := i\<rparr>"

definition sample_config :: alloc_config where
  "sample_config = \<lparr>ac_concurrency_limit = Some 2, ac_candidates_per_task = 1, ac_now = None, ac_aging_window = 300,
     ac_mission_max_tokens = None, ac_pressure = None, ac_reduced_ratio = 1 / 2, ac_exploration_slots = 1,
     ac_weights = None, ac_waiting_attempt_ids = [], ac_selection_task_ids = []\<rparr>"

definition sample_tasks :: "Task list" where
  "sample_tasks = [sample_task ''t-1'' T_COMPLETED [], sample_task ''t-2'' T_READY [''t-1''],
     sample_task ''t-3'' T_READY [''t-2''], sample_task ''t-4'' T_READY [], sample_task ''t-5'' T_READY []]"

lemma allocation_bounded_witness:
  "\<exists>p. allocate id sample_config sample_tasks [] = Some p \<and> map (tk_id \<circ> fst) (ap_grants p) = [''t-2'', ''t-4''] \<and>
     ap_open_attempts p \<le> 2"
proof -
  have "case allocate id sample_config sample_tasks [] of None \<Rightarrow> False
      | Some p \<Rightarrow> map (tk_id \<circ> fst) (ap_grants p) = [''t-2'', ''t-4'']"
    "effective_limit sample_config = Some 2" by code_simp+
  then obtain p where p: "allocate id sample_config sample_tasks [] = Some p"
    "map (tk_id \<circ> fst) (ap_grants p) = [''t-2'', ''t-4'']" by (auto split: option.splits)
  from allocation_bounded[OF p(1)] \<open>effective_limit sample_config = Some 2\<close>
  have "ap_open_attempts p \<le> max 0 2" by (simp add: Let_def)
  with p show ?thesis by auto
qed

section \<open>The admitted frontier\<close>

lemma set_map_filter: "set (List.map_filter f xs) = {y. \<exists>x\<in>set xs. f x = Some y}"
  by (force simp: map_filter_def)

lemma length_map_filter: "(\<And>x. x \<in> set xs \<Longrightarrow> f x \<noteq> None) \<Longrightarrow> length (List.map_filter f xs) = length xs"
  by (simp add: map_filter_def filter_id_conv)

lemma admitted_iff:
  "r \<in> set (f2_admitted (evaluate_frontier_v2 tasks bindings readiness)) \<longleftrightarrow>
     (\<exists>t\<in>set tasks. frontier_verdict bindings readiness t = Inr r)"
proof -
  have "(case v of Inl _ \<Rightarrow> None | Inr r \<Rightarrow> Some r) = Some y \<longleftrightarrow> v = Inr y" for v :: "ReadinessReason + EligiblePrimitiveTask" and y
    by (cases v) auto
  then show ?thesis by (auto simp: evaluate_frontier_v2_def Let_def set_map_filter)
qed

lemma verdict_Inr:
  "frontier_verdict bindings readiness t = Inr r \<longleftrightarrow>
     map_of bindings (tk_id t) = Some PRIMITIVE \<and> map_of readiness (tk_id t) = Some r \<and> el_gate_passed r \<and>
     el_task_id r = tk_id t \<and> \<not> tk_paused t \<and> tk_status t \<notin> set TERMINAL_TASK"
  by (auto simp: frontier_verdict_def legacy_gate_reason_def split: option.splits if_splits)
    (metis TaskForm.exhaust)+

lemma admitted_by_task_facts:
  "map_of (admitted_by_task rs) i = Some r \<Longrightarrow> r \<in> set rs \<and> el_task_id r = i"
  "map_of (admitted_by_task rs) i = None \<longleftrightarrow> i \<notin> el_task_id ` set rs"
proof -
  have "(map_of (fold (\<lambda>r d. dict_set (el_task_id r) r d) rs d) i = Some r \<longrightarrow>
        r \<in> set rs \<and> el_task_id r = i \<or> map_of d i = Some r) \<and>
      (map_of (fold (\<lambda>r d. dict_set (el_task_id r) r d) rs d) i = None \<longleftrightarrow> i \<notin> el_task_id ` set rs \<and> map_of d i = None)" for d
  proof (induction rs arbitrary: d)
    case (Cons x rs)
    from Cons.IH[of "dict_set (el_task_id x) x d"] show ?case by (auto split: if_splits)
  qed simp
  from this[of "[]"] show "map_of (admitted_by_task rs) i = Some r \<Longrightarrow> r \<in> set rs \<and> el_task_id r = i"
    "map_of (admitted_by_task rs) i = None \<longleftrightarrow> i \<notin> el_task_id ` set rs" by (auto simp: admitted_by_task_def)
qed

lemma by_id_Some: "by_id tasks i = Some t \<Longrightarrow> t \<in> set tasks \<and> tk_id t = i"
  unfolding by_id_def by (drule map_of_SomeD) auto

text \<open>C8. Only admissions compete in the hierarchical mode. \<open>allocate_v2\<close> grants only records that the
  dispatch gate built, each for a Task of its own id that has a primitive semantic binding, is not paused
  and not terminal, with candidate numbers above the open Attempts and within the configured count; a
  compound Task is never granted and is refused with NEEDS_REFINEMENT whatever its status and whatever
  admission is presented; every other Task is admitted or refused with a reason. The concurrency limit in
  force is respected.\<close>

theorem only_admissions_are_granted:
  assumes "allocate_v2 nfkc c tasks attempts bindings readiness = Some p"
  shows "let busy = int (length (filter (is_open (ac_waiting_attempt_ids c)) attempts)) in
    a2_open_attempts p = busy + int (length (a2_grants p)) \<and>
    (\<forall>l. effective_limit c = Some l \<longrightarrow> a2_open_attempts p \<le> max busy l) \<and>
    (\<forall>(r, n)\<in>set (a2_grants p). el_gate_passed r \<and> map_of bindings (el_task_id r) = Some PRIMITIVE \<and>
      map_of readiness (el_task_id r) = Some r \<and>
      (\<exists>t\<in>set tasks. tk_id t = el_task_id r \<and> \<not> tk_paused t \<and> tk_status t \<notin> set TERMINAL_TASK) \<and>
      open_count (ac_waiting_attempt_ids c) attempts (el_task_id r) < n \<and> n \<le> max 1 (ac_candidates_per_task c)) \<and>
    (\<forall>t\<in>set tasks. map_of bindings (tk_id t) = Some COMPOUND \<longrightarrow>
      \<lparr>fr_task_id = tk_id t, fr_reason = NEEDS_REFINEMENT\<rparr> \<in> set (a2_refusals p)) \<and>
    (\<forall>t\<in>set tasks. (\<exists>r. frontier_verdict bindings readiness t = Inr r) \<or>
      (\<exists>reason. \<lparr>fr_task_id = tk_id t, fr_reason = reason\<rparr> \<in> set (a2_refusals p)))"
proof -
  let ?F = "evaluate_frontier_v2 tasks bindings readiness"
  let ?A = "admitted_by_task (f2_admitted ?F)"
  let ?busy = "int (length (filter (is_open (ac_waiting_attempt_ids c)) attempts))"
  define compete where "compete = (\<lambda>scores. let ordered = sort_key (rank_key scores) (List.map_filter (by_id tasks) (map fst ?A)) in
      if under_pressure c then pressure_keep ordered scores attempts (ac_exploration_slots c) else ordered)"
  have compete_eq: "(if under_pressure c
      then pressure_keep (sort_key (rank_key scores) (List.map_filter (by_id tasks) (map fst ?A))) scores attempts (ac_exploration_slots c)
      else sort_key (rank_key scores) (List.map_filter (by_id tasks) (map fst ?A))) = compete scores" for scores
    by (simp add: compete_def)
  from assms obtain scores where s: "config_scores nfkc c tasks attempts = Some scores"
    by (auto simp: allocate_v2_def Let_def)
  obtain grants tot where g0: "grant_all (effective_limit c) (max 1 (ac_candidates_per_task c))
      (open_by_task (ac_waiting_attempt_ids c) attempts) (compete scores) ?busy = (grants, tot)" by fastforce
  from assms s have
    g: "grant_all (effective_limit c) (max 1 (ac_candidates_per_task c)) (open_by_task (ac_waiting_attempt_ids c) attempts)
        (compete scores) ?busy = (grants, a2_open_attempts p)"
    and p: "a2_grants p = List.map_filter (\<lambda>(t, n). map_option (\<lambda>r. (r, n)) (map_of ?A (tk_id t))) grants"
      "a2_refusals p = f2_refusals ?F"
    unfolding allocate_v2_def Let_def compete_eq open_by_task_total by (auto simp: g0)
  have known: "map_of ?A (tk_id t) \<noteq> None" if "t \<in> set (compete scores)" for t
  proof -
    have "t \<in> set (List.map_filter (by_id tasks) (map fst ?A))"
      using that pressure_keep_loop_subset by (fastforce simp: compete_def Let_def pressure_keep_def split: if_splits)
    then obtain i where "i \<in> fst ` set ?A" "by_id tasks i = Some t" by (auto simp: set_map_filter)
    with by_id_Some show ?thesis by (metis map_of_eq_None_iff)
  qed
  have len: "length (a2_grants p) = length grants"
    unfolding p(1) by (rule length_map_filter) (use known grant_all_mem[OF g] in fastforce)
  have granted: "el_gate_passed r \<and> map_of bindings (el_task_id r) = Some PRIMITIVE \<and> map_of readiness (el_task_id r) = Some r \<and>
      (\<exists>t\<in>set tasks. tk_id t = el_task_id r \<and> \<not> tk_paused t \<and> tk_status t \<notin> set TERMINAL_TASK) \<and>
      open_count (ac_waiting_attempt_ids c) attempts (el_task_id r) < n \<and> n \<le> max 1 (ac_candidates_per_task c)"
    if "(r, n) \<in> set (a2_grants p)" for r n
  proof -
    from that p(1) obtain u where u: "(u, n) \<in> set grants" "map_of ?A (tk_id u) = Some r" by (auto simp: set_map_filter)
    from admitted_by_task_facts(1)[OF u(2)] have r: "r \<in> set (f2_admitted ?F)" "el_task_id r = tk_id u" by auto
    from r(1) obtain t where "t \<in> set tasks" "frontier_verdict bindings readiness t = Inr r" unfolding admitted_iff by blast
    with r(2) grant_all_mem[OF g u(1)] show ?thesis unfolding verdict_Inr open_by_task_get by auto
  qed
  have refused: "\<lparr>fr_task_id = tk_id t, fr_reason = reason\<rparr> \<in> set (a2_refusals p)"
    if "t \<in> set tasks" "frontier_verdict bindings readiness t = Inl reason" for t reason
    using that unfolding p(2) by (force simp: evaluate_frontier_v2_def Let_def set_map_filter)
  have A: "a2_open_attempts p = ?busy + int (length (a2_grants p))" using grant_all_total[OF g] len by simp
  have B: "\<forall>l. effective_limit c = Some l \<longrightarrow> a2_open_attempts p \<le> max ?busy l" using grant_all_limit g by metis
  have D: "\<forall>t\<in>set tasks. map_of bindings (tk_id t) = Some COMPOUND \<longrightarrow>
      \<lparr>fr_task_id = tk_id t, fr_reason = NEEDS_REFINEMENT\<rparr> \<in> set (a2_refusals p)"
    using refused by (simp add: frontier_verdict_def legacy_gate_reason_def)
  have E: "\<forall>t\<in>set tasks. (\<exists>r. frontier_verdict bindings readiness t = Inr r) \<or>
      (\<exists>reason. \<lparr>fr_task_id = tk_id t, fr_reason = reason\<rparr> \<in> set (a2_refusals p))"
    using refused by (metis sum.exhaust_sel)
  show ?thesis unfolding Let_def using A B D E granted by blast
qed

definition sample_record :: "string \<Rightarrow> EligiblePrimitiveTask" where
  "sample_record i =
     \<lparr>el_mission_id = ''m'', el_plan_revision = 1, el_occurrence_id = ''occ'', el_task_id = i, el_obligation_id = ''ob'',
      el_contract_revision = 1, el_contract_hash = ''h'', el_dispatch_generation = 0, el_input_binding_revision = 0,
      el_input_manifest_hash = ''h'', el_method_instance_id = None, el_requirement_refs = [], el_acceptance_ids = [],
      el_read_set = \<lparr>rs_requirements_revision = 0, rs_goal_revisions = [], rs_method_revisions = [], rs_observation_revisions = [],
        rs_acceptance_revisions = [], rs_obligation_revisions = [], rs_authority_revisions = [], rs_manager_epoch = 0,
        rs_budget_grant_revision = 0, rs_support_sets = [], rs_scope_epochs = [], rs_absences = []\<rparr>,
      el_admitted_at_ms = 0, el_gate_passed = True\<rparr>"

lemma only_admissions_are_granted_witness:
  "\<exists>p. allocate_v2 id sample_config sample_tasks [] [(''t-2'', PRIMITIVE), (''t-4'', COMPOUND)]
        [(''t-2'', sample_record ''t-2''), (''t-4'', sample_record ''t-4'')] = Some p \<and>
     a2_grants p = [(sample_record ''t-2'', 1)] \<and>
     \<lparr>fr_task_id = ''t-4'', fr_reason = NEEDS_REFINEMENT\<rparr> \<in> set (a2_refusals p)"
proof -
  let ?p = "allocate_v2 id sample_config sample_tasks [] [(''t-2'', PRIMITIVE), (''t-4'', COMPOUND)]
        [(''t-2'', sample_record ''t-2''), (''t-4'', sample_record ''t-4'')]"
  have "case ?p of None \<Rightarrow> False | Some p \<Rightarrow> a2_grants p = [(sample_record ''t-2'', 1)]" by code_simp
  then obtain p where p: "?p = Some p" "a2_grants p = [(sample_record ''t-2'', 1)]" by (auto split: option.splits)
  have "sample_task ''t-4'' T_READY [] \<in> set sample_tasks" "tk_id (sample_task ''t-4'' T_READY []) = ''t-4''"
    by (simp_all add: sample_tasks_def sample_task_def)
  with only_admissions_are_granted[OF p(1)] have "\<lparr>fr_task_id = ''t-4'', fr_reason = NEEDS_REFINEMENT\<rparr> \<in> set (a2_refusals p)"
    unfolding Let_def by fastforce
  with p show ?thesis by blast
qed

end
