(* ===== verification/Task_Network_Correct.thy ===== *)
theory Task_Network_Correct
  imports Task_Network
begin

text \<open>
  What the compiled projection promises. For every snapshot that passes its referential checks the compilation returns; its
  occurrences are those that the adopted methods open from the roots; its edges are exactly the dependencies of the adopted
  plan; and an order constraint between two compounds holds between everything below them.
\<close>

section \<open>Node names\<close>

lemma colon_not_digit: "CHR '':'' \<notin> set (decimal_nat n)"
  using decimal_nat_digits[of "CHR '':''" n] by auto

lemma node_id_length: "takeWhile (\<lambda>c. c \<noteq> CHR '':'') (node_id i suffix) = decimal_nat (length i)"
  using colon_not_digit[of "length i"] unfolding node_id_def
  by (subst takeWhile_append2) auto

text \<open>The length prefix makes the names unambiguous, whatever characters the occurrence ids contain.\<close>

lemma node_id_inject [simp]: "node_id i a = node_id j b \<longleftrightarrow> i = j \<and> a = b"
proof
  assume eq: "node_id i a = node_id j b"
  then have "decimal_nat (length i) = decimal_nat (length j)" by (metis node_id_length)
  then have "length i = length j" by simp
  with eq show "i = j \<and> a = b" by (simp add: node_id_def)
qed simp

section \<open>Valid snapshots\<close>

definition valid_network :: "TaskNetworkSnapshot \<Rightarrow> bool" where
  "valid_network S \<longleftrightarrow> check_TaskNetworkSnapshot S = Inr S"

lemma valid_networkD:
  assumes "valid_network S"
  shows "distinct (map oc_occurrence_id (nw_occurrences S))"
    "\<forall>s\<in>set (nw_occurrences S). check_occurrence S s = Inr ()"
    "check_instances S (nw_method_instances S) [] = Inr ()"
    "\<forall>i\<in>set (nw_root_occurrence_ids S). by_occurrence S i \<noteq> None"
    "assert_method_instances_match_occurrences (nw_method_instances S) (nw_occurrences S) = Inr ()"
  using assms
  by (simp_all add: valid_network_def check_TaskNetworkSnapshot_def result_simps unique_ids_def known_occurrence_def split: if_splits)

lemma check_instances_children:
  "check_instances S ds parents = Inr u \<Longrightarrow> d \<in> set ds \<Longrightarrow> c \<in> set (md_child_bindings d) \<Longrightarrow> by_occurrence S (cb_occurrence_id c) \<noteq> None"
  by (induction S ds parents rule: check_instances.induct)
    (auto simp: Let_def result_simps known_occurrence_def split: if_splits)

lemma by_occurrence_id: "by_occurrence S i = Some s \<Longrightarrow> oc_occurrence_id s = i \<and> s \<in> set (nw_occurrences S)"
  by (auto simp: by_occurrence_def dest: map_of_SomeD)

lemma by_occurrence_None: "by_occurrence S i = None \<longleftrightarrow> i \<notin> oc_occurrence_id ` set (nw_occurrences S)"
  by (simp add: by_occurrence_def map_of_eq_None_iff image_image)

lemma by_occurrence_known: "by_occurrence S i \<noteq> None \<longleftrightarrow> i \<in> oc_occurrence_id ` set (nw_occurrences S)"
  by (simp add: by_occurrence_None)

section \<open>What the adopted methods open\<close>

definition child_slot :: "TaskNetworkSnapshot \<Rightarrow> string \<Rightarrow> ChildBinding \<Rightarrow> bool" where
  "child_slot S i c \<longleftrightarrow> (\<exists>cs. adopted_children S i = Inr cs \<and> c \<in> set cs)"

lemma child_slot_known:
  assumes "valid_network S" and "child_slot S i c"
  shows "by_occurrence S (cb_occurrence_id c) \<noteq> None"
proof -
  from assms(2) obtain d where "adopted_instance_for S i = Some d" "c \<in> set (md_child_bindings d)"
    by (auto simp: child_slot_def adopted_children_def result_simps split: if_splits option.splits)
  then have "d \<in> set (nw_method_instances S)"
    by (auto simp: adopted_instance_for_def adopted_drafts_def dest: map_of_SomeD)
  from check_instances_children[OF valid_networkD(3)[OF assms(1)] this \<open>c \<in> set (md_child_bindings d)\<close>] show ?thesis .
qed

inductive opened :: "TaskNetworkSnapshot \<Rightarrow> string \<Rightarrow> bool" for S where
  Root: "i \<in> set (nw_root_occurrence_ids S) \<Longrightarrow> opened S i"
| Child: "opened S i \<Longrightarrow> child_slot S i c \<Longrightarrow> opened S (cb_occurrence_id c)"

lemma opened_known: "opened S i \<Longrightarrow> valid_network S \<Longrightarrow> by_occurrence S i \<noteq> None"
  by (induction rule: opened.induct) (simp_all add: valid_networkD(4) child_slot_known del: not_None_eq)

lemma successors_of_slots: "y \<in> set (successors_of S x) \<longleftrightarrow> (\<exists>c. child_slot S x c \<and> cb_occurrence_id c = y)"
  by (cases "adopted_children S x") (auto simp: successors_of_def child_slot_def)

lemma reachable_opened:
  assumes "valid_network S"
  shows "set (reachable_occurrences S) = {i. opened S i}"
proof -
  let ?U = "set (map oc_occurrence_id (nw_occurrences S))"
  let ?R = "explored_step ?U (successors_of S)"
  have in_U: "by_occurrence S i \<noteq> None \<Longrightarrow> i \<in> ?U" for i by (simp add: by_occurrence_known del: not_None_eq)
  have roots: "set (rev (nw_root_occurrence_ids S)) \<inter> ?U = set (nw_root_occurrence_ids S)"
    using valid_networkD(4)[OF assms] in_U by auto
  have "opened S j" if "(i, j) \<in> ?R\<^sup>*" "i \<in> set (nw_root_occurrence_ids S)" for i j
    using that
  proof (induction rule: rtrancl_induct)
    case (step y z)
    then obtain c where "child_slot S y c" "z = cb_occurrence_id c" by (auto simp: explored_step_def successors_of_slots)
    with step.IH[OF step.prems] opened.Child show ?case by blast
  qed (rule opened.Root)
  moreover have "j \<in> ?R\<^sup>* `` set (nw_root_occurrence_ids S)" if "opened S j" for j
    using that
  proof (induction rule: opened.induct)
    case (Child i c)
    then have "(i, cb_occurrence_id c) \<in> ?R"
      using child_slot_known[OF assms Child.hyps(2)] in_U by (auto simp: explored_step_def successors_of_slots)
    with Child.IH show ?case by (auto intro: rtrancl_into_rtrancl)
  qed auto
  ultimately show ?thesis
    unfolding reachable_occurrences_def explore_exact roots by blast
qed

lemma reachable_distinct: "distinct (reachable_occurrences S)"
  by (simp add: reachable_occurrences_def explore_distinct)

section \<open>Nodes and their index\<close>

definition is_compound :: "TaskNetworkSnapshot \<Rightarrow> string \<Rightarrow> bool" where
  "is_compound S i \<longleftrightarrow> (\<exists>s. by_occurrence S i = Some s \<and> oc_form s = COMPOUND)"

definition entry_name :: "TaskNetworkSnapshot \<Rightarrow> string \<Rightarrow> string" where
  "entry_name S i = node_id i (if is_compound S i then ''entry'' else ''node'')"

definition exit_name :: "TaskNetworkSnapshot \<Rightarrow> string \<Rightarrow> string" where
  "exit_name S i = node_id i (if is_compound S i then ''exit'' else ''node'')"

definition node_triples :: "TaskNetworkSnapshot \<Rightarrow> string \<Rightarrow> (string \<times> ProjectionNodeKind \<times> string) set" where
  "node_triples S i =
     (if is_compound S i then {(entry_name S i, PN_COMPOUND_ENTRY, i), (exit_name S i, PN_COMPOUND_EXIT, i)}
      else {(entry_name S i, PN_OCCURRENCE, i)})"

definition spec_of :: "TaskNetworkSnapshot \<Rightarrow> string \<Rightarrow> OccurrenceSpec" where
  "spec_of S i = the (by_occurrence S i)"

lemma raw_nodes_triples:
  assumes "by_occurrence S i \<noteq> None"
  shows "(\<lambda>(n, k, s). (n, k, oc_occurrence_id s)) ` set (raw_nodes (spec_of S i)) = node_triples S i"
    "distinct (map fst (raw_nodes (spec_of S i)))" "fst ` set (raw_nodes (spec_of S i)) \<subseteq> range (node_id i)"
proof -
  from assms obtain s where s: "by_occurrence S i = Some s" by auto
  with by_occurrence_id[OF s] show "(\<lambda>(n, k, s). (n, k, oc_occurrence_id s)) ` set (raw_nodes (spec_of S i)) = node_triples S i"
    "distinct (map fst (raw_nodes (spec_of S i)))" "fst ` set (raw_nodes (spec_of S i)) \<subseteq> range (node_id i)"
    by (auto simp: raw_nodes_def Let_def spec_of_def node_triples_def is_compound_def entry_name_def exit_name_def)
qed

lemma raw_nodes_distinct:
  "distinct is \<Longrightarrow> \<forall>i\<in>set is. by_occurrence S i \<noteq> None \<Longrightarrow> distinct (map fst (concat (map raw_nodes (map (spec_of S) is))))"
proof (induction "is")
  case (Cons i "is")
  have "fst ` set (raw_nodes (spec_of S i)) \<inter> fst ` set (concat (map raw_nodes (map (spec_of S) is))) = {}"
  proof -
    have own: "n \<in> range (node_id i)" if "n \<in> fst ` set (raw_nodes (spec_of S i))" for n
      using raw_nodes_triples(3)[of S i] Cons.prems(2) that by auto
    have other: "\<exists>j\<in>set is. n \<in> range (node_id j)" if n: "n \<in> fst ` set (concat (map raw_nodes (map (spec_of S) is)))" for n
    proof -
      from n obtain j where j: "j \<in> set is" "n \<in> fst ` set (raw_nodes (spec_of S j))" by auto
      with raw_nodes_triples(3)[of S j] Cons.prems(2) show ?thesis by (metis list.set_intros(2) subsetD)
    qed
    have "False" if "n \<in> fst ` set (raw_nodes (spec_of S i))" "n \<in> fst ` set (concat (map raw_nodes (map (spec_of S) is)))" for n
    proof -
      from own[OF that(1)] other[OF that(2)] obtain j a b where "j \<in> set is" "n = node_id i a" "n = node_id j b" by blast
      with Cons.prems(1) show False by simp
    qed
    then show ?thesis by blast
  qed
  with Cons raw_nodes_triples(2)[of S i] show ?case by simp
qed simp

definition node_triple :: "ProjectionNode \<Rightarrow> string \<times> ProjectionNodeKind \<times> string" where
  "node_triple n = (pn_node_id n, pn_kind n, pn_occurrence_id n)"

lemma compile_nodes_result:
  assumes "distinct is" and "\<forall>i\<in>set is. by_occurrence S i \<noteq> None"
  shows "\<exists>nodes. compile_nodes S is = Inr nodes \<and> node_triple ` set nodes = (\<Union>i\<in>set is. node_triples S i) \<and>
    distinct (map pn_node_id nodes)"
proof -
  let ?raw = "sort_key fst (concat (map raw_nodes (map (spec_of S) is)))"
  let ?nodes = "map (\<lambda>(n, x). compile_node n x) (zip [0..<length ?raw] ?raw)"
  have "map_result (occurrence S) is = Inr (map (spec_of S) is)"
    using assms(2) by (intro map_result_map) (auto simp: occurrence_def lookup_def spec_of_def)
  then have res: "compile_nodes S is = Inr ?nodes" by (simp add: compile_nodes_def Let_def)
  have triple: "map node_triple ?nodes = map (\<lambda>(n, k, s). (n, k, oc_occurrence_id s)) ?raw"
    by (rule nth_equalityI) (auto simp: node_triple_def compile_node_def split: prod.splits)
  have "node_triple ` set ?nodes = (\<lambda>(n, k, s). (n, k, oc_occurrence_id s)) ` set ?raw"
    using arg_cong[OF triple, of set] by (simp only: set_map)
  also have "\<dots> = (\<Union>i\<in>set is. node_triples S i)"
    using raw_nodes_triples(1)[of S] assms(2) by (auto simp: image_UN simp del: image_cong)
  finally have triples: "node_triple ` set ?nodes = (\<Union>i\<in>set is. node_triples S i)" .
  have "map pn_node_id ?nodes = map fst (map node_triple ?nodes)" by (simp add: node_triple_def)
  also have "\<dots> = map fst ?raw" unfolding triple by (simp add: case_prod_unfold comp_def)
  finally have "distinct (map pn_node_id ?nodes)"
    using raw_nodes_distinct[OF assms] by (simp add: distinct_map)
  with res triples show ?thesis by blast
qed

lemma index_fold:
  assumes "\<forall>n\<in>set ns. P n \<longrightarrow> f n = i \<longrightarrow> g n = v"
  shows "map_of (fold (\<lambda>n. if P n then dict_set (f n) (g n) else (\<lambda>d. d)) ns d) i =
    (if \<exists>n\<in>set ns. P n \<and> f n = i then Some v else map_of d i)"
  using assms by (induction ns arbitrary: d) auto

lemma indexes:
  assumes "node_triple ` set nodes = (\<Union>i\<in>set is. node_triples S i)" and "i \<in> set is"
  shows "map_of (entry_index nodes) i = Some (entry_name S i)" "map_of (exit_index nodes) i = Some (exit_name S i)"
proof -
  have mem: "(pn_node_id n, pn_kind n, pn_occurrence_id n) \<in> (\<Union>i\<in>set is. node_triples S i)" if "n \<in> set nodes" for n
    using assms(1) that by (auto simp: node_triple_def)
  have ex: "\<exists>n\<in>set nodes. (pn_node_id n, pn_kind n, pn_occurrence_id n) = t" if "t \<in> node_triples S i" for t
  proof -
    have "t \<in> node_triple ` set nodes" using assms(1,2) that by blast
    then show ?thesis by (auto simp: node_triple_def)
  qed
  have "\<forall>n\<in>set nodes. pn_kind n \<noteq> PN_COMPOUND_EXIT \<longrightarrow> pn_occurrence_id n = i \<longrightarrow> pn_node_id n = entry_name S i"
    using mem by (fastforce simp: node_triples_def split: if_splits)
  moreover have "\<exists>n\<in>set nodes. pn_kind n \<noteq> PN_COMPOUND_EXIT \<and> pn_occurrence_id n = i"
    using ex[of "(entry_name S i, if is_compound S i then PN_COMPOUND_ENTRY else PN_OCCURRENCE, i)"]
    by (cases "is_compound S i") (force simp: node_triples_def)+
  ultimately show "map_of (entry_index nodes) i = Some (entry_name S i)" unfolding entry_index_def by (subst index_fold) auto
  have "\<forall>n\<in>set nodes. pn_kind n \<noteq> PN_COMPOUND_ENTRY \<longrightarrow> pn_occurrence_id n = i \<longrightarrow> pn_node_id n = exit_name S i"
    using mem by (fastforce simp: node_triples_def entry_name_def exit_name_def split: if_splits)
  moreover have "\<exists>n\<in>set nodes. pn_kind n \<noteq> PN_COMPOUND_ENTRY \<and> pn_occurrence_id n = i"
    using ex[of "(exit_name S i, if is_compound S i then PN_COMPOUND_EXIT else PN_OCCURRENCE, i)"]
    by (cases "is_compound S i") (force simp: node_triples_def entry_name_def exit_name_def)+
  ultimately show "map_of (exit_index nodes) i = Some (exit_name S i)" unfolding exit_index_def by (subst index_fold) auto
qed


section \<open>The edges\<close>

definition make_arrow :: "string \<Rightarrow> string \<Rightarrow> ProjectionEdgeKind \<Rightarrow> string \<Rightarrow> ProjectionEdge" where
  "make_arrow s t k origin = \<lparr>pe_source = s, pe_target = t, pe_kind = k, pe_origin = origin\<rparr>"

definition arrow :: "ProjectionEdge \<Rightarrow> string \<times> string" where
  "arrow e = (pe_source e, pe_target e)"

text \<open>The dependencies of the adopted plan, between the two boundaries of each opened occurrence.\<close>

inductive_set dependency :: "TaskNetworkSnapshot \<Rightarrow> (string \<times> string) set" for S where
  Opens: "opened S i \<Longrightarrow> child_slot S i c \<Longrightarrow> (entry_name S i, entry_name S (cb_occurrence_id c)) \<in> dependency S"
| Closes: "opened S i \<Longrightarrow> child_slot S i c \<Longrightarrow> gating c \<Longrightarrow> (exit_name S (cb_occurrence_id c), exit_name S i) \<in> dependency S"
| Spans: "opened S i \<Longrightarrow> is_compound S i \<Longrightarrow> \<forall>c. child_slot S i c \<longrightarrow> \<not> gating c \<Longrightarrow> (entry_name S i, exit_name S i) \<in> dependency S"
| Orders: "c \<in> set (nw_order_constraints S) \<Longrightarrow> opened S (or_before c) \<Longrightarrow> opened S (or_after c) \<Longrightarrow>
    (exit_name S (or_before c), entry_name S (or_after c)) \<in> dependency S"
| Datas: "r \<in> set (nw_data_requirements S) \<Longrightarrow> opened S (dr_producer_occurrence r) \<Longrightarrow> opened S (dr_consumer_occurrence r) \<Longrightarrow>
    (exit_name S (dr_producer_occurrence r), entry_name S (dr_consumer_occurrence r)) \<in> dependency S"

definition indexed :: "TaskNetworkSnapshot \<Rightarrow> (string \<times> string) list \<Rightarrow> (string \<times> string) list \<Rightarrow> bool" where
  "indexed S entries exits \<longleftrightarrow>
     (\<forall>i. opened S i \<longrightarrow> map_of entries i = Some (entry_name S i) \<and> map_of exits i = Some (exit_name S i))"

lemma make_edge_indexed:
  assumes "map_of froms x = Some s" and "map_of tos y = Some t"
  shows "make_edge froms x tos y k origin = Inr (make_arrow s t k origin)"
  using assms by (simp add: make_edge_def lookup_def make_arrow_def)

lemma arrow_make [simp]: "arrow (make_arrow s t k origin) = (s, t)"
  by (simp add: arrow_def make_arrow_def)

lemma child_edges_result:
  assumes "indexed S entries exits" and "opened S i" and "child_slot S i c"
  shows "\<exists>es. child_edges entries exits i c = Inr es \<and>
    arrow ` set es = {(entry_name S i, entry_name S (cb_occurrence_id c))} \<union>
      (if gating c then {(exit_name S (cb_occurrence_id c), exit_name S i)} else {})"
proof -
  have "opened S (cb_occurrence_id c)" by (rule opened.Child[OF assms(2,3)])
  with assms(1,2) show ?thesis by (auto simp: child_edges_def indexed_def make_edge_indexed)
qed

lemma compound_children: "child_slot S i c \<Longrightarrow> is_compound S i"
  by (auto simp: child_slot_def adopted_children_def is_compound_def occurrence_def lookup_def result_simps split: if_splits option.splits)

lemma map_result_collect:
  assumes "\<And>x. x \<in> set xs \<Longrightarrow> \<exists>es. f x = Inr es \<and> g ` set es = A x"
  shows "\<exists>ess. map_result f xs = Inr ess \<and> g ` set (concat ess) = (\<Union>x\<in>set xs. A x)"
  using assms
proof (induction xs)
  case (Cons x xs)
  from Cons.prems[of x] obtain es where "f x = Inr es" "g ` set es = A x" by auto
  moreover from Cons obtain ess where "map_result f xs = Inr ess" "g ` set (concat ess) = (\<Union>x\<in>set xs. A x)" by fastforce
  ultimately show ?case by (auto simp: image_Un)
qed simp

definition own_arrows :: "TaskNetworkSnapshot \<Rightarrow> string \<Rightarrow> (string \<times> string) set" where
  "own_arrows S i =
     {(entry_name S i, entry_name S (cb_occurrence_id c)) | c. child_slot S i c} \<union>
     {(exit_name S (cb_occurrence_id c), exit_name S i) | c. child_slot S i c \<and> gating c} \<union>
     (if is_compound S i \<and> (\<forall>c. child_slot S i c \<longrightarrow> \<not> gating c) then {(entry_name S i, exit_name S i)} else {})"

lemma refinement_edges_result:
  assumes "valid_network S" and "indexed S entries exits" and o: "opened S i"
  shows "\<exists>es. refinement_edges S entries exits i = Inr es \<and> arrow ` set es = own_arrows S i"
proof -
  from opened_known[OF o assms(1)] obtain s where s: "by_occurrence S i = Some s" by auto
  then have occ: "occurrence S i = Inr s" by (simp add: occurrence_def lookup_def)
  show ?thesis
  proof (cases "oc_form s = COMPOUND")
    case False
    with s have "\<not> is_compound S i" by (simp add: is_compound_def)
    moreover from this have "\<not> child_slot S i c" for c using compound_children by blast
    ultimately show ?thesis using occ False by (simp add: refinement_edges_def own_arrows_def)
  next
    case True
    then have comp: "is_compound S i" using s by (simp add: is_compound_def)
    obtain cs where cs: "adopted_children S i = Inr cs" using occ True by (simp add: adopted_children_def)
    then have slot: "child_slot S i c \<longleftrightarrow> c \<in> set cs" for c by (simp add: child_slot_def)
    let ?A = "\<lambda>c. {(entry_name S i, entry_name S (cb_occurrence_id c))} \<union>
      (if gating c then {(exit_name S (cb_occurrence_id c), exit_name S i)} else {})"
    from map_result_collect[of cs "child_edges entries exits i" arrow ?A] child_edges_result[OF assms(2) o] slot
    obtain ess where ess: "map_result (child_edges entries exits i) cs = Inr ess"
      and arrows: "arrow ` set (concat ess) = (\<Union>c\<in>set cs. ?A c)" by blast
    let ?origin = "''span:'' @ i @ '':'' @ (if cs = [] then ''unexpanded'' else ''no_gating_children'')"
    have span: "make_edge entries i exits i PE_COMPOUND_SPAN ?origin = Inr (make_arrow (entry_name S i) (exit_name S i) PE_COMPOUND_SPAN ?origin)"
      using assms(2) o by (intro make_edge_indexed) (auto simp: indexed_def)
    let ?span = "if \<exists>c\<in>set cs. gating c then [] else [make_arrow (entry_name S i) (exit_name S i) PE_COMPOUND_SPAN ?origin]"
    have res: "refinement_edges S entries exits i = Inr (?span @ concat ess)"
      using True occ cs ess span by (simp add: refinement_edges_def)
    have "arrow ` set (?span @ concat ess) = own_arrows S i"
      unfolding set_append image_Un arrows own_arrows_def slot using comp by (auto split: if_splits)
    with res show ?thesis by blast
  qed
qed

lemma link_result:
  assumes "indexed S entries exits" and "set reachable = {i. opened S i}"
  shows "\<exists>es un. link reachable entries exits x y k origin who = Inr (es, un) \<and>
    arrow ` set es = (if opened S x \<and> opened S y then {(exit_name S x, entry_name S y)} else {})"
proof (cases "opened S x \<and> opened S y")
  case True
  with assms have "make_edge exits x entries y k origin = Inr (make_arrow (exit_name S x) (entry_name S y) k origin)"
    by (intro make_edge_indexed) (auto simp: indexed_def)
  with True assms(2) show ?thesis by (simp add: link_def)
next
  case False
  then have "\<not> (x \<in> set reachable \<and> y \<in> set reachable)" by (simp add: assms(2))
  with False show ?thesis by (simp add: link_def del: de_Morgan_conj)
qed

lemma map_result_links:
  assumes "\<And>x. x \<in> set xs \<Longrightarrow> \<exists>es un. f x = Inr (es, un) \<and> arrow ` set es = A x"
  shows "\<exists>ls. map_result f xs = Inr ls \<and> arrow ` set (concat (map fst ls)) = (\<Union>x\<in>set xs. A x)"
  using assms
proof (induction xs)
  case (Cons x xs)
  from Cons.prems[of x] obtain es un where "f x = Inr (es, un)" "arrow ` set es = A x" by auto
  moreover from Cons obtain ls where "map_result f xs = Inr ls" "arrow ` set (concat (map fst ls)) = (\<Union>x\<in>set xs. A x)" by fastforce
  ultimately show ?case by (auto simp: image_Un)
qed simp

lemma dependency_cases_arrows:
  "dependency S = (\<Union>i\<in>{i. opened S i}. own_arrows S i) \<union>
    (\<Union>c\<in>set (nw_order_constraints S). if opened S (or_before c) \<and> opened S (or_after c)
       then {(exit_name S (or_before c), entry_name S (or_after c))} else {}) \<union>
    (\<Union>r\<in>set (nw_data_requirements S). if opened S (dr_producer_occurrence r) \<and> opened S (dr_consumer_occurrence r)
       then {(exit_name S (dr_producer_occurrence r), entry_name S (dr_consumer_occurrence r))} else {})" (is "_ = ?R")
proof (rule equalityI)
  show "dependency S \<subseteq> ?R"
  proof (rule subrelI)
    fix a b assume "(a, b) \<in> dependency S"
    then show "(a, b) \<in> ?R" by (cases rule: dependency.cases) (force simp: own_arrows_def)+
  qed
  show "?R \<subseteq> dependency S" by (auto simp: own_arrows_def intro: dependency.intros split: if_splits)
qed

lemma projection_result:
  assumes "valid_network S"
  shows "\<exists>P. execution_projection S = Inr P \<and> set (pj_occurrences P) = {i. opened S i} \<and> distinct (node_ids P) \<and>
    set (node_ids P) = entry_name S ` {i. opened S i} \<union> exit_name S ` {i. opened S i} \<and>
    arrow ` set (pj_edges P) = dependency S"
proof -
  let ?R = "reachable_occurrences S"
  note reach = reachable_opened[OF assms]
  have "\<forall>i\<in>set ?R. by_occurrence S i \<noteq> None" using reach opened_known assms by blast
  from compile_nodes_result[OF reachable_distinct this] obtain nodes where nodes: "compile_nodes S ?R = Inr nodes"
    and triples: "node_triple ` set nodes = (\<Union>i\<in>set ?R. node_triples S i)" and dist: "distinct (map pn_node_id nodes)" by blast
  let ?en = "entry_index nodes" and ?ex = "exit_index nodes"
  have idx: "indexed S ?en ?ex" using indexes[OF triples] reach by (auto simp: indexed_def)
  have "\<exists>refs. map_result (refinement_edges S ?en ?ex) (sort_key (\<lambda>i. i) ?R) = Inr refs \<and>
      arrow ` set (concat refs) = (\<Union>i\<in>set (sort_key (\<lambda>i. i) ?R). own_arrows S i)"
    using reach by (intro map_result_collect refinement_edges_result[OF assms idx]) auto
  then obtain refs where refs: "map_result (refinement_edges S ?en ?ex) (sort_key (\<lambda>i. i) ?R) = Inr refs"
    "arrow ` set (concat refs) = (\<Union>i\<in>{i. opened S i}. own_arrows S i)" using reach by auto
  have "\<exists>ls. map_result (order_link ?R ?en ?ex) (nw_order_constraints S) = Inr ls \<and> arrow ` set (concat (map fst ls)) =
      (\<Union>c\<in>set (nw_order_constraints S). if opened S (or_before c) \<and> opened S (or_after c)
         then {(exit_name S (or_before c), entry_name S (or_after c))} else {})"
    unfolding order_link_def Let_def by (intro map_result_links link_result[OF idx reach])
  then obtain os where os: "map_result (order_link ?R ?en ?ex) (nw_order_constraints S) = Inr os"
    "arrow ` set (concat (map fst os)) = (\<Union>c\<in>set (nw_order_constraints S). if opened S (or_before c) \<and> opened S (or_after c)
         then {(exit_name S (or_before c), entry_name S (or_after c))} else {})" by blast
  have "\<exists>ls. map_result (data_link ?R ?en ?ex) (nw_data_requirements S) = Inr ls \<and> arrow ` set (concat (map fst ls)) =
      (\<Union>r\<in>set (nw_data_requirements S). if opened S (dr_producer_occurrence r) \<and> opened S (dr_consumer_occurrence r)
         then {(exit_name S (dr_producer_occurrence r), entry_name S (dr_consumer_occurrence r))} else {})"
    unfolding data_link_def Let_def by (intro map_result_links link_result[OF idx reach])
  then obtain ds where ds: "map_result (data_link ?R ?en ?ex) (nw_data_requirements S) = Inr ds"
    "arrow ` set (concat (map fst ds)) = (\<Union>r\<in>set (nw_data_requirements S). if opened S (dr_producer_occurrence r) \<and> opened S (dr_consumer_occurrence r)
         then {(exit_name S (dr_producer_occurrence r), entry_name S (dr_consumer_occurrence r))} else {})" by blast
  have names: "pn_node_id ` set nodes = fst ` (\<Union>i\<in>{i. opened S i}. node_triples S i)"
    using arg_cong[OF triples, of "image fst"] unfolding reach by (simp add: image_image node_triple_def)
  have "set (map pn_node_id nodes) = entry_name S ` {i. opened S i} \<union> exit_name S ` {i. opened S i}"
  proof -
    have one: "fst ` node_triples S i = {entry_name S i, exit_name S i}" for i
      by (simp add: node_triples_def entry_name_def exit_name_def)
    show ?thesis unfolding set_map names image_UN one by blast
  qed
  moreover have "arrow ` set (concat refs @ concat (map fst os) @ concat (map fst ds)) = dependency S"
    unfolding set_append image_Un refs(2) os(2) ds(2) dependency_cases_arrows by (simp only: Un_assoc)
  ultimately show ?thesis
    using nodes refs(1) os(1) ds(1) reach dist by (simp add: execution_projection_def Let_def node_ids_def)
qed


text \<open>C11. Compiling a plan is total and exact. For every network that passes its referential checks the compilation returns a
  projection whose occurrences are exactly those that the adopted methods open from the roots, whose nodes have pairwise
  different names (two gates for a compound, one node for a primitive), and whose edges are exactly the dependencies of the
  adopted plan: a parent opens each child, each gating child closes its parent, a compound without one spans its own
  boundary, and order and data constraints run from exit to entry.\<close>

theorem projection_exact:
  assumes "valid_network S"
  shows "\<exists>P. execution_projection S = Inr P \<and> set (pj_occurrences P) = {i. opened S i} \<and> distinct (node_ids P) \<and>
    set (node_ids P) = entry_name S ` {i. opened S i} \<union> exit_name S ` {i. opened S i} \<and>
    arrow ` set (pj_edges P) = dependency S"
  by (rule projection_result[OF assms])

section \<open>A sample plan\<close>

text \<open>Two compounds in order, each refined by one method with one required primitive step.\<close>

definition plan_occurrence :: "string \<Rightarrow> TaskForm \<Rightarrow> OccurrenceSpec" where
  "plan_occurrence i form =
     \<lparr>oc_occurrence_id = i, oc_task_id = i, oc_obligation_id = ''ob'', oc_form = form, oc_requiredness = RQ_REQUIRED\<rparr>"

definition plan_ref :: VersionedRef where
  "plan_ref = \<lparr>vr_id = ''v'', vr_version = 1, vr_content_hash = ''h''\<rparr>"

definition plan_binding :: "string \<Rightarrow> TaskForm \<Rightarrow> TaskSemanticBindingV1" where
  "plan_binding i form =
     \<lparr>sb_task_id = i, sb_obligation_id = ''ob'', sb_contract_revision = 1, sb_contract_hash = ''h'', sb_form = form,
      sb_goal_signature = \<lparr>gl_signature_id = ''g'', gl_version = 1, gl_parameter_schema_ref = plan_ref,
        gl_output_schema_ref = plan_ref, gl_statement = ''s'', gl_coverage_criteria = []\<rparr>,
      sb_typed_parameters = [], sb_requirement_refs = [], sb_input_ports = [], sb_output_ports = [],
      sb_operator_ref = (if form = PRIMITIVE then Some plan_ref else None), sb_semantic_scope = ''scope'', sb_capability_requirements = [],
      sb_precondition_refs = [], sb_applicability_check_policy = AC_SELECT_ONLY, sb_occurrence_binding = None,
      sb_adopted_method_instance_id = None, sb_input_binding_revision = 0, sb_dispatch_generation = 0,
      sb_resource_reads = [], sb_resource_writes = [], sb_side_effect_kind = None\<rparr>"

definition plan_child :: "string \<Rightarrow> string \<Rightarrow> ChildBinding" where
  "plan_child instance_id i =
     \<lparr>cb_instance_id = instance_id, cb_slot_key = ''step'', cb_occurrence_id = i, cb_obligation_id = ''ob'',
      cb_requiredness = RQ_REQUIRED, cb_reuse_policy = RP_NEW_WORK, cb_goal_occurrence_id = None, cb_acceptance_ref = None,
      cb_resolution_ref = None\<rparr>"

definition plan_method :: "string \<Rightarrow> string \<Rightarrow> string \<Rightarrow> MethodInstanceDraft" where
  "plan_method m goal child =
     \<lparr>md_instance_id = m, md_goal_id = goal, md_obligation_id = ''ob'',
      md_method_ref = \<lparr>mr_method_id = ''m'', mr_version = 1, mr_content_hash = ''h''\<rparr>, md_grounded_parameters = [],
      md_world_snapshot_id = None, md_precondition_witnesses = [], md_assumption_refs = [],
      md_child_bindings = [plan_child m child], md_plan_revision = 1, md_goal_occurrence_id = None\<rparr>"

definition sample_plan :: TaskNetworkSnapshot where
  "sample_plan =
     \<lparr>nw_mission_id = ''m'', nw_plan_revision = 1,
      nw_occurrences = [plan_occurrence ''a'' COMPOUND, plan_occurrence ''b'' COMPOUND, plan_occurrence ''x'' PRIMITIVE, plan_occurrence ''y'' PRIMITIVE],
      nw_task_bindings = [plan_binding ''a'' COMPOUND, plan_binding ''b'' COMPOUND, plan_binding ''x'' PRIMITIVE, plan_binding ''y'' PRIMITIVE],
      nw_method_instances = [plan_method ''m-a'' ''a'' ''x'', plan_method ''m-b'' ''b'' ''y''],
      nw_adopted_instance_ids = [''m-a'', ''m-b''], nw_root_occurrence_ids = [''a'', ''b''],
      nw_order_constraints = [\<lparr>or_before = ''a'', or_after = ''b'', or_release_condition = RC_ACCEPTED\<rparr>],
      nw_data_requirements = [], nw_typed_edges = [], nw_obligation_coverage = [], nw_required_obligations = []\<rparr>"

lemma sample_plan_valid: "valid_network sample_plan"
  by (simp add: valid_network_def check_TaskNetworkSnapshot_def sample_plan_def plan_occurrence_def plan_binding_def plan_method_def
    plan_child_def unique_ids_def check_occurrence_def by_task_def by_instance_def by_occurrence_def known_occurrence_def check_claim_def
    assert_method_instances_match_occurrences_def assert_method_instance_def effective_goal_occurrence_id_def is_adopted_def result_simps)

lemma sample_plan_children:
  "adopted_children sample_plan ''a'' = Inr [plan_child ''m-a'' ''x'']"
  "adopted_children sample_plan ''b'' = Inr [plan_child ''m-b'' ''y'']"
  by (simp_all add: adopted_children_def occurrence_def lookup_def by_occurrence_def adopted_instance_for_def adopted_drafts_def
    is_adopted_def effective_goal_occurrence_id_def sample_plan_def plan_occurrence_def plan_method_def result_simps)

lemma plan_child_simps [simp]: "cb_occurrence_id (plan_child m i) = i" "gating (plan_child m i)"
  by (simp_all add: plan_child_def gating_def GATING_REQUIREDNESS_def)

lemma sample_plan_slots: "child_slot sample_plan ''a'' (plan_child ''m-a'' ''x'')" "child_slot sample_plan ''b'' (plan_child ''m-b'' ''y'')"
  by (simp_all add: child_slot_def sample_plan_children)

lemma sample_plan_opened: "opened sample_plan ''a''" "opened sample_plan ''b''"
  by (simp_all add: opened.Root sample_plan_def)

lemma projection_exact_witness:
  "valid_network sample_plan \<and> (\<exists>P. execution_projection sample_plan = Inr P \<and> set (pj_occurrences P) = {i. opened sample_plan i})"
  using projection_exact[OF sample_plan_valid] sample_plan_valid by blast

lemma projection_edges:
  assumes "valid_network S" and "execution_projection S = Inr P"
  shows "arrow ` set (pj_edges P) = dependency S" "set (node_ids P) = entry_name S ` {i. opened S i} \<union> exit_name S ` {i. opened S i}"
    "distinct (node_ids P)" "set (pj_occurrences P) = {i. opened S i}"
  using projection_result[OF assms(1)] assms(2) by auto

section \<open>Order reaches everything below\<close>

text \<open>What lies below an occurrence through adopted slots, and what must be accepted before its exit opens.\<close>

inductive below :: "TaskNetworkSnapshot \<Rightarrow> string \<Rightarrow> string \<Rightarrow> bool" for S where
  Self: "below S i i"
| Slot: "below S i j \<Longrightarrow> child_slot S j c \<Longrightarrow> below S i (cb_occurrence_id c)"

inductive required_below :: "TaskNetworkSnapshot \<Rightarrow> string \<Rightarrow> string \<Rightarrow> bool" for S where
  RSelf: "required_below S i i"
| RSlot: "required_below S i j \<Longrightarrow> child_slot S j c \<Longrightarrow> gating c \<Longrightarrow> required_below S i (cb_occurrence_id c)"

lemma below_opened: "below S i j \<Longrightarrow> opened S i \<Longrightarrow> opened S j"
  by (induction rule: below.induct) (auto intro: opened.Child)

lemma required_below_opened: "required_below S i j \<Longrightarrow> opened S i \<Longrightarrow> opened S j"
  by (induction rule: required_below.induct) (auto intro: opened.Child)

lemma entries_below: "below S i j \<Longrightarrow> opened S i \<Longrightarrow> (entry_name S i, entry_name S j) \<in> (dependency S)\<^sup>*"
proof (induction rule: below.induct)
  case (Slot i j c)
  with dependency.Opens[OF below_opened[OF Slot.hyps(1) Slot.prems] Slot.hyps(2)] show ?case
    by (meson rtrancl.rtrancl_into_rtrancl)
qed simp

lemma exits_below: "required_below S i j \<Longrightarrow> opened S i \<Longrightarrow> (exit_name S j, exit_name S i) \<in> (dependency S)\<^sup>*"
proof (induction rule: required_below.induct)
  case (RSlot i j c)
  with dependency.Closes[OF required_below_opened[OF RSlot.hyps(1) RSlot.prems] RSlot.hyps(2,3)] show ?case
    by (meson converse_rtrancl_into_rtrancl)
qed simp

text \<open>In an acyclic plan the exit of an opened occurrence comes after its entry: nothing lets a boundary close before it
  opened.\<close>

lemma boundary_order:
  assumes "valid_network S" and "finite (dependency S)" and "acyclic (dependency S)" and "opened S i"
  shows "(entry_name S i, exit_name S i) \<in> (dependency S)\<^sup>*"
  using assms(4)
proof (induction "entry_name S i" arbitrary: i rule: wf_induct_rule[OF finite_acyclic_wf_converse[OF assms(2,3)]])
  case (1 i)
  show ?case
  proof (cases "is_compound S i")
    case True
    show ?thesis
    proof (cases "\<exists>c. child_slot S i c \<and> gating c")
      case True
      then obtain c where c: "child_slot S i c" "gating c" by blast
      note opens = dependency.Opens[OF 1(2) c(1)]
      have "(entry_name S (cb_occurrence_id c), exit_name S (cb_occurrence_id c)) \<in> (dependency S)\<^sup>*"
        using 1(1)[of "cb_occurrence_id c"] opens opened.Child[OF 1(2) c(1)] by simp
      with opens dependency.Closes[OF 1(2) c] show ?thesis
        by (meson converse_rtrancl_into_rtrancl rtrancl.rtrancl_into_rtrancl)
    qed (use dependency.Spans[OF 1(2) True] in blast)
  qed (simp add: entry_name_def exit_name_def)
qed

text \<open>C12. An order constraint binds the required work below its first end and everything below its second. In the compiled
  projection of a valid network, when two opened occurrences are ordered, there is a path of dependencies from the exit of every
  occurrence reached from \<open>before\<close> through gating slots only, at any depth of refinement, to the entry of every occurrence below
  \<open>after\<close>. When the projection has no cycle, there is also a path from the entry of the former to the exit of the latter, and the
  exit of the former is another node than the entry of the latter. Nothing is said of optional slots below \<open>before\<close>.\<close>

theorem order_binds_descendants:
  assumes "valid_network S" and "execution_projection S = Inr P"
    and "c \<in> set (nw_order_constraints S)" and "opened S (or_before c)" and "opened S (or_after c)"
    and "required_below S (or_before c) x" and "below S (or_after c) y"
  shows "(exit_name S x, entry_name S y) \<in> (arrow ` set (pj_edges P))\<^sup>+ \<and>
    (acyclic (arrow ` set (pj_edges P)) \<longrightarrow>
      (entry_name S x, exit_name S y) \<in> (arrow ` set (pj_edges P))\<^sup>+ \<and> exit_name S x \<noteq> entry_name S y)"
proof -
  have edges: "arrow ` set (pj_edges P) = dependency S" by (rule projection_edges(1)[OF assms(1,2)])
  have "(exit_name S (or_before c), entry_name S (or_after c)) \<in> dependency S" by (rule dependency.Orders[OF assms(3-5)])
  with exits_below[OF assms(6,4)] entries_below[OF assms(7,5)]
  have main: "(exit_name S x, entry_name S y) \<in> (dependency S)\<^sup>+"
    by (meson rtrancl_into_trancl1 trancl_rtrancl_trancl)
  have "(entry_name S x, exit_name S y) \<in> (dependency S)\<^sup>+ \<and> exit_name S x \<noteq> entry_name S y" if acyc: "acyclic (dependency S)"
  proof -
    have fin: "finite (dependency S)" using edges by (metis finite_imageI finite_set)
    note bound = boundary_order[OF assms(1) fin acyc]
    have "(entry_name S x, exit_name S y) \<in> (dependency S)\<^sup>+"
      using bound[OF required_below_opened[OF assms(6,4)]] main bound[OF below_opened[OF assms(7,5)]]
      by (meson rtrancl_trancl_trancl trancl_rtrancl_trancl)
    moreover have "exit_name S x \<noteq> entry_name S y" using main acyc by (auto simp: acyclic_def)
    ultimately show ?thesis by blast
  qed
  with main show ?thesis unfolding edges by blast
qed

lemma order_binds_descendants_witness:
  "\<exists>P. execution_projection sample_plan = Inr P \<and>
    (exit_name sample_plan ''x'', entry_name sample_plan ''y'') \<in> (arrow ` set (pj_edges P))\<^sup>+"
proof -
  obtain P where P: "execution_projection sample_plan = Inr P" using projection_result[OF sample_plan_valid] by blast
  let ?c = "\<lparr>or_before = ''a'', or_after = ''b'', or_release_condition = RC_ACCEPTED\<rparr>"
  have "required_below sample_plan ''a'' ''x''"
    using required_below.RSlot[OF required_below.RSelf sample_plan_slots(1)] by simp
  moreover have "below sample_plan ''b'' ''y''" using below.Slot[OF below.Self sample_plan_slots(2)] by simp
  moreover have "?c \<in> set (nw_order_constraints sample_plan)" by (simp add: sample_plan_def)
  ultimately show ?thesis
    using order_binds_descendants[OF sample_plan_valid P, of ?c "''x''" "''y''"] sample_plan_opened P by simp
qed

section \<open>Flipping edges\<close>

lemma dict_default_get [simp]: "dict_get (dict_default k d) k' [] = dict_get d k' []"
  by (auto simp: dict_default_def dict_get_def split: option.splits)

lemma dict_default_keys: "distinct (dict_keys d) \<Longrightarrow> distinct (dict_keys (dict_default k d))"
  by (simp add: dict_default_def distinct_update)

lemma flip_edge_get: "set (dict_get (flip_edge e d) t []) = set (dict_get d t []) \<union> (if t = snd e then {fst e} else {})"
  by (auto simp: flip_edge_def Let_def dict_get_append)

lemma flip_edge_keys: "distinct (dict_keys d) \<Longrightarrow> distinct (dict_keys (flip_edge e d))"
  by (simp add: flip_edge_def Let_def dict_default_keys dict_append_def distinct_update)

lemma flip_from_entries:
  "distinct (dict_keys d) \<Longrightarrow> (s, t) \<in> set (flip_from_dependency_map d) \<longleftrightarrow> s \<in> set (dict_get d t [])"
proof -
  assume d: "distinct (dict_keys d)"
  have "(s, t) \<in> set (flip_from_dependency_map d) \<longleftrightarrow> (\<exists>ss. (t, ss) \<in> set d \<and> s \<in> set ss)"
    by (fastforce simp: flip_from_dependency_map_def)
  also have "\<dots> \<longleftrightarrow> (\<exists>ss. map_of d t = Some ss \<and> s \<in> set ss)"
    using d by simp
  also have "\<dots> \<longleftrightarrow> s \<in> set (dict_get d t [])" by (cases "map_of d t") (simp_all add: dict_get_def)
  finally show ?thesis .
qed

text \<open>Turning edges into the dependency map of the older checker and back loses and invents nothing: the pairs that come
  back are exactly the pairs that went in.\<close>

theorem flip_roundtrip: "set (flip_from_dependency_map (flip_to_dependency_map es)) = set es"
proof -
  have "distinct (dict_keys (fold flip_edge es d)) \<and>
      set (dict_get (fold flip_edge es d) t []) = set (dict_get d t []) \<union> {s. (s, t) \<in> set es}"
    if "distinct (dict_keys d)" for d t
    using that by (induction es arbitrary: d) (auto simp: flip_edge_keys flip_edge_get)
  from this[of "[]"] show ?thesis
    by (auto simp: flip_to_dependency_map_def flip_from_entries)
qed

end
