(* ===== verification/Topology_Correct.thy ===== *)
theory Topology_Correct
  imports Topology
begin

text \<open>
  Correctness of the topological machinery: \<open>kahn_order\<close> places every node exactly when the arcs have no cycle, what it places
  comes after all of its predecessors, the nodes left over each have a predecessor left over, the backward walk through them
  returns a closed walk, and the search from a node returns exactly what its arcs reach.
\<close>

section \<open>Arcs\<close>

definition well_formed :: "adjacency \<Rightarrow> bool" where
  "well_formed succ \<longleftrightarrow> distinct (dict_keys succ) \<and> set (concat (map snd succ)) \<subseteq> set (dict_keys succ)"

definition arcs :: "adjacency \<Rightarrow> (string \<times> string) set" where
  "arcs succ = {(k, t). t \<in> set (targets succ k)}"

lemma targets_entry: "well_formed succ \<Longrightarrow> (k, ts) \<in> set succ \<Longrightarrow> targets succ k = ts"
  by (simp add: well_formed_def targets_def dict_get_def)

lemma arcs_source: "(k, t) \<in> arcs succ \<Longrightarrow> k \<in> set (dict_keys succ)"
  by (cases "map_of succ k") (force simp: arcs_def targets_def dict_get_def dest: map_of_SomeD)+

lemma arcs_target: "well_formed succ \<Longrightarrow> (k, t) \<in> arcs succ \<Longrightarrow> t \<in> set (dict_keys succ)"
  unfolding well_formed_def arcs_def targets_def by (blast dest: dict_get_values)

lemma finite_arcs: "well_formed succ \<Longrightarrow> finite (arcs succ)"
  by (rule finite_subset[of _ "set (dict_keys succ) \<times> set (dict_keys succ)"]) (auto simp del: set_map dest: arcs_source arcs_target)

definition topological :: "adjacency \<Rightarrow> string list \<Rightarrow> bool" where
  "topological succ order \<longleftrightarrow> (\<forall>i<length order. \<forall>p. (p, order ! i) \<in> arcs succ \<longrightarrow> p \<in> set (take i order))"

lemma topological_snoc:
  "topological succ (order @ [x]) \<longleftrightarrow> topological succ order \<and> (\<forall>p. (p, x) \<in> arcs succ \<longrightarrow> p \<in> set order)"
  by (auto simp: topological_def nth_append less_Suc_eq split: if_splits)

text \<open>The position of a node in an order is a rank that every arc increases.\<close>

definition rank :: "string list \<Rightarrow> string \<Rightarrow> nat" where
  "rank order x = length (takeWhile (\<lambda>y. y \<noteq> x) order)"

lemma rank_nth: "distinct order \<Longrightarrow> i < length order \<Longrightarrow> rank order (order ! i) = i"
proof -
  assume d: "distinct order" and i: "i < length order"
  have "takeWhile (\<lambda>y. y \<noteq> order ! i) order = take i order"
    by (rule takeWhile_eq_take_P_nth) (use d i in \<open>auto simp: nth_eq_iff_index_eq\<close>)
  then show ?thesis using i by (simp add: rank_def)
qed

lemma topological_rank:
  assumes "topological succ order" and "distinct order" and "(p, x) \<in> arcs succ" and "x \<in> set order"
  shows "rank order p < rank order x"
proof -
  from assms(4) obtain i where i: "i < length order" "x = order ! i" by (metis in_set_conv_nth)
  with assms(1,3) have "p \<in> set (take i order)" by (auto simp: topological_def)
  then obtain j where "j < i" "p = order ! j" using i(1) by (auto simp: in_set_conv_nth)
  with i rank_nth[OF assms(2)] show ?thesis by simp
qed

lemma topological_acyclic:
  assumes "topological succ order" and "distinct order" and "\<And>p x. (p, x) \<in> arcs succ \<Longrightarrow> x \<in> set order"
  shows "acyclic (arcs succ)"
proof (rule wf_acyclic, rule wf_subset)
  show "arcs succ \<subseteq> measure (rank order)" using topological_rank[OF assms(1,2)] assms(3) by fastforce
qed simp

section \<open>In-degrees\<close>

definition degree :: "adjacency \<Rightarrow> string set \<Rightarrow> string \<Rightarrow> nat" where
  "degree succ gone t = (\<Sum>k\<in>set (dict_keys succ) - gone. count_list (targets succ k) t)"

lemma degree_place:
  assumes "c \<in> set (dict_keys succ)" and "c \<notin> gone"
  shows "degree succ gone t = degree succ (insert c gone) t + count_list (targets succ c) t"
proof -
  have "set (dict_keys succ) - gone = insert c (set (dict_keys succ) - insert c gone)" using assms by auto
  then show ?thesis unfolding degree_def by (rule ssubst) (simp add: add.commute)
qed

lemma degree_zero: "degree succ gone t = 0 \<longleftrightarrow> (\<forall>p. (p, t) \<in> arcs succ \<longrightarrow> p \<in> gone)"
proof -
  have arc: "(p, t) \<in> arcs succ \<longleftrightarrow> p \<in> set (dict_keys succ) \<and> t \<in> set (targets succ p)" for p
    using arcs_source[of p t succ] unfolding arcs_def by blast
  have "degree succ gone t = 0 \<longleftrightarrow> (\<forall>p\<in>set (dict_keys succ) - gone. t \<notin> set (targets succ p))"
    by (simp add: degree_def count_list_0_iff del: set_map)
  then show ?thesis unfolding arc by blast
qed

lemma count_targets_result:
  assumes "set ts \<subseteq> dom (map_of d)"
  shows "\<exists>d'. count_targets ts d = Inr d' \<and>
    map_of d' = (\<lambda>t. map_option (\<lambda>n. n + int (count_list ts t)) (map_of d t))"
  using assms
proof (induction ts arbitrary: d)
  case (Cons t ts)
  then obtain n where n: "map_of d t = Some n" by auto
  have "set ts \<subseteq> dom (map_of (dict_set t (n + 1) d))" using Cons.prems by auto
  from Cons.IH[OF this] obtain d' where "count_targets ts (dict_set t (n + 1) d) = Inr d'"
    "map_of d' = (\<lambda>x. map_option (\<lambda>m. m + int (count_list ts x)) (map_of (dict_set t (n + 1) d) x))" by blast
  with n show ?case by (auto simp: fun_eq_iff)
qed (auto simp: option.map_id0[unfolded id_def])

lemma count_targets_unknown: "\<not> set ts \<subseteq> dom (map_of d) \<Longrightarrow> \<exists>t. t \<in> set ts - dom (map_of d) \<and>
    count_targets ts d = Inl (CE_unknown ''adjacency names a node that is not of this graph'' [t])"
proof (induction ts arbitrary: d)
  case (Cons t ts)
  show ?case
  proof (cases "map_of d t")
    case (Some n)
    then have "dom (map_of (dict_set t (n + 1) d)) = dom (map_of d)" by auto
    moreover from Some Cons.prems have "\<not> set ts \<subseteq> dom (map_of d)" by auto
    ultimately obtain t' where "t' \<in> set ts - dom (map_of d)"
      "count_targets ts (dict_set t (n + 1) d) = Inl (CE_unknown ''adjacency names a node that is not of this graph'' [t'])"
      using Cons.IH[of "dict_set t (n + 1) d"] by metis
    with Some show ?thesis by auto
  qed auto
qed simp

lemma degree_total:
  assumes "well_formed succ"
  shows "count_list (concat (map snd succ)) t = degree succ {} t"
proof -
  have count: "count_list (concat tss) t = sum_list (map (\<lambda>ts. count_list ts t) tss)" for tss
    by (induction tss) auto
  have "map (\<lambda>k. count_list (targets succ k) t) (dict_keys succ) = map (\<lambda>ts. count_list ts t) (map snd succ)"
    using targets_entry[OF assms] by auto
  then show ?thesis using assms unfolding count degree_def well_formed_def
    by (simp add: sum_list_distinct_conv_sum_set[symmetric] del: set_map map_map)
qed

lemma indegrees_result:
  assumes "well_formed succ"
  shows "\<exists>d. indegrees succ = Inr d \<and> (\<forall>t\<in>set (dict_keys succ). map_of d t = Some (int (degree succ {} t)))"
proof -
  let ?zero = "map (\<lambda>(k, ts). (k, 0 :: int)) succ"
  have zero: "map_of ?zero t = (if t \<in> set (dict_keys succ) then Some 0 else None)" for t
    by (induction succ) auto
  then have dom: "dom (map_of ?zero) = set (dict_keys succ)" by (auto simp: dom_def split: if_splits)
  have "set (concat (map snd succ)) \<subseteq> dom (map_of ?zero)" unfolding dom using assms by (simp only: well_formed_def)
  from count_targets_result[OF this] obtain d where "count_targets (concat (map snd succ)) ?zero = Inr d"
    "map_of d = (\<lambda>t. map_option (\<lambda>n. n + int (count_list (concat (map snd succ)) t)) (map_of ?zero t))" by blast
  then show ?thesis unfolding indegrees_def degree_total[OF assms, symmetric] by (auto simp: zero simp del: set_map)
qed

section \<open>The ready loop\<close>

lemma release_result:
  assumes "\<And>t. t \<in> K \<Longrightarrow> map_of d t = Some (int (f t + count_list ts t))" and "set ts \<subseteq> K"
    and "\<And>t. t \<in> K \<Longrightarrow> f t + count_list ts t = 0 \<longleftrightarrow> t \<in> D \<union> snd ` set ready"
    and "distinct (map snd ready)" and "D \<inter> snd ` set ready = {}" and "snd ` set ready \<subseteq> K"
    and "release_targets ords ts d ready = (d', ready')"
  shows "(\<forall>t\<in>K. map_of d' t = Some (int (f t))) \<and> (\<forall>t\<in>K. f t = 0 \<longleftrightarrow> t \<in> D \<union> snd ` set ready') \<and>
    distinct (map snd ready') \<and> D \<inter> snd ` set ready' = {} \<and> snd ` set ready' \<subseteq> K"
  using assms
proof (induction ts arbitrary: d ready)
  case (Cons t ts)
  let ?n = "dict_get d t 0 - 1"
  let ?ready = "if ?n = 0 then insort (dict_get ords t 0, t) ready else ready"
  have t: "t \<in> K" and ts: "set ts \<subseteq> K" using Cons.prems(2) by auto
  have n: "?n = int (f t + count_list ts t)" using Cons.prems(1)[OF t] by (simp add: dict_get_def)
  have fresh: "t \<notin> D \<union> snd ` set ready" using Cons.prems(3)[OF t] by auto
  have rel: "release_targets ords ts (dict_set t ?n d) ?ready = (d', ready')" using Cons.prems(7) by (simp add: Let_def)
  have snds: "snd ` set ?ready = (if f t + count_list ts t = 0 then insert t (snd ` set ready) else snd ` set ready)"
    unfolding n by (simp add: set_insort_key)
  show ?case
  proof (rule Cons.IH[OF _ ts _ _ _ _ rel])
    show "map_of (dict_set t ?n d) x = Some (int (f x + count_list ts x))" if "x \<in> K" for x
      using Cons.prems(1)[OF that] n by (auto split: if_splits)
    show "f x + count_list ts x = 0 \<longleftrightarrow> x \<in> D \<union> snd ` set ?ready" if "x \<in> K" for x
      using Cons.prems(3)[OF that] fresh unfolding snds by (cases "x = t") auto
    have "distinct (map snd (insort (o', t) ready))" for o'
      using Cons.prems(4) fresh by (induction ready) (auto simp: set_insort_key)
    then show "distinct (map snd ?ready)" using Cons.prems(4) by simp
    show "D \<inter> snd ` set ?ready = {}" unfolding snds using Cons.prems(5) fresh by auto
    show "snd ` set ?ready \<subseteq> K" unfolding snds using Cons.prems(6) t by auto
  qed
qed simp

definition loop_inv :: "adjacency \<Rightarrow> (string \<times> int) list \<Rightarrow> (nat \<times> string) list \<Rightarrow> string list \<Rightarrow> bool" where
  "loop_inv succ d ready placed \<longleftrightarrow>
     (\<forall>t\<in>set (dict_keys succ). map_of d t = Some (int (degree succ (set placed) t))) \<and>
     (\<forall>t\<in>set (dict_keys succ). degree succ (set placed) t = 0 \<longleftrightarrow> t \<in> set placed \<union> snd ` set ready) \<and>
     distinct (map snd ready) \<and> set placed \<inter> snd ` set ready = {} \<and> snd ` set ready \<subseteq> set (dict_keys succ) \<and>
     distinct placed \<and> set placed \<subseteq> set (dict_keys succ) \<and> topological succ placed"

lemma loop_step:
  assumes wf: "well_formed succ" and inv: "loop_inv succ d (r # ready) placed"
    and rel: "release_targets ords (targets succ (snd r)) d ready = (d', ready')"
  shows "loop_inv succ d' ready' (placed @ [snd r])"
proof -
  let ?c = "snd r" and ?K = "set (dict_keys succ)" and ?D = "insert (snd r) (set placed)"
  have c: "?c \<in> ?K" "?c \<notin> set placed" "?c \<notin> snd ` set ready"
    using inv by (simp_all add: loop_inv_def)
  have split: "degree succ (set placed) t = degree succ ?D t + count_list (targets succ ?c) t" for t
    by (rule degree_place[OF c(1,2)])
  have "set (targets succ ?c) \<subseteq> ?K" using arcs_target[OF wf, of ?c] by (auto simp: arcs_def simp del: set_map)
  note out = release_result[of ?K d "degree succ ?D" "targets succ ?c" ?D ready ords d' ready', OF _ this _ _ _ _ rel]
  have "(\<forall>t\<in>?K. map_of d' t = Some (int (degree succ ?D t))) \<and> (\<forall>t\<in>?K. degree succ ?D t = 0 \<longleftrightarrow> t \<in> ?D \<union> snd ` set ready') \<and>
    distinct (map snd ready') \<and> ?D \<inter> snd ` set ready' = {} \<and> snd ` set ready' \<subseteq> ?K"
    by (rule out) (use inv c in \<open>auto simp: loop_inv_def split[symmetric] simp del: set_map\<close>)
  moreover have "topological succ (placed @ [?c])"
    using inv c(1) degree_zero[of succ "set placed" ?c] by (auto simp: loop_inv_def topological_snoc simp del: set_map)
  ultimately show ?thesis using inv c by (simp add: loop_inv_def)
qed

lemma loop_result:
  "well_formed succ \<Longrightarrow> loop_inv succ d ready placed \<Longrightarrow> \<exists>d'. loop_inv succ d' [] (kahn_loop succ ords d ready placed)"
proof (induction succ ords d ready placed rule: kahn_loop.induct)
  case (2 succ ords d r ready placed)
  obtain d' ready' where rel: "release_targets ords (targets succ (snd r)) d ready = (d', ready')" by fastforce
  from 2(1)[OF rel[symmetric] 2(2) loop_step[OF 2(2,3) rel]] show ?case by (simp add: rel)
qed auto

lemma kahn_order_result:
  assumes wf: "well_formed succ"
  shows "\<exists>placed. kahn_order succ ords = Inr (placed, sort (filter (\<lambda>k. k \<notin> set placed) (dict_keys succ))) \<and>
    distinct placed \<and> set placed \<subseteq> set (dict_keys succ) \<and> topological succ placed \<and>
    (\<forall>t\<in>set (dict_keys succ) - set placed. \<exists>p. p \<notin> set placed \<and> (p, t) \<in> arcs succ)"
proof -
  from indegrees_result[OF wf] obtain d where d: "indegrees succ = Inr d"
    "\<forall>t\<in>set (dict_keys succ). map_of d t = Some (int (degree succ {} t))" by blast
  let ?ready = "sort (map (\<lambda>k. (dict_get ords k 0, k)) (filter (\<lambda>k. dict_get d k 0 = 0) (dict_keys succ)))"
  let ?placed = "kahn_loop succ ords d ?ready []"
  have zero: "dict_get d t 0 = 0 \<longleftrightarrow> degree succ {} t = 0" if "t \<in> set (dict_keys succ)" for t
    using d(2) that by (simp add: dict_get_def del: set_map)
  have snds: "snd ` set ?ready = {k \<in> set (dict_keys succ). dict_get d k 0 = 0}"
    by (simp only: set_sort set_map image_image snd_conv image_ident set_filter)
  have "distinct (map snd ?ready)" using wf by (simp add: distinct_map inj_on_def well_formed_def)
  then have "loop_inv succ d ?ready []"
    unfolding loop_inv_def snds using d(2) zero by (auto simp: topological_def simp del: set_map)
  from loop_result[OF wf this] obtain d' where inv: "loop_inv succ d' [] ?placed" by blast
  then have placed: "distinct ?placed" "set ?placed \<subseteq> set (dict_keys succ)" "topological succ ?placed"
    and deg: "\<forall>t\<in>set (dict_keys succ). degree succ (set ?placed) t = 0 \<longleftrightarrow> t \<in> set ?placed"
    by (auto simp: loop_inv_def simp del: set_map)
  have full: "filter (\<lambda>k. k \<notin> set ?placed) (dict_keys succ) = []" if "length ?placed = length succ"
  proof -
    have "card (set ?placed) = card (set (dict_keys succ))"
      using placed(1) wf that by (simp add: distinct_card well_formed_def del: set_map)
    with card_subset_eq[OF finite_set placed(2)] have "set ?placed = set (dict_keys succ)" by blast
    then show ?thesis by (simp add: filter_empty_conv del: set_map)
  qed
  have "kahn_order succ ords = Inr (?placed, sort (filter (\<lambda>k. k \<notin> set ?placed) (dict_keys succ)))"
    using d(1) full by (simp add: kahn_order_def Let_def del: filter_empty_conv)
  moreover have "\<exists>p. p \<notin> set ?placed \<and> (p, t) \<in> arcs succ" if "t \<in> set (dict_keys succ) - set ?placed" for t
    using that deg degree_zero[of succ "set ?placed" t] by blast
  ultimately show ?thesis using placed by blast
qed

lemma kahn_order_acyclic:
  assumes wf: "well_formed succ" and res: "kahn_order succ ords = Inr (placed, remaining)"
  shows "remaining = [] \<longleftrightarrow> acyclic (arcs succ)" "distinct placed" "topological succ placed"
    "set remaining = set (dict_keys succ) - set placed" "set placed \<subseteq> set (dict_keys succ)"
    "\<forall>t\<in>set remaining. \<exists>p\<in>set remaining. (p, t) \<in> arcs succ"
proof -
  from kahn_order_result[OF wf, of ords] res
  have placed: "distinct placed" "set placed \<subseteq> set (dict_keys succ)" "topological succ placed"
    and remaining: "remaining = sort (filter (\<lambda>k. k \<notin> set placed) (dict_keys succ))"
    and pred: "\<forall>t\<in>set (dict_keys succ) - set placed. \<exists>p. p \<notin> set placed \<and> (p, t) \<in> arcs succ" by auto
  show "distinct placed" "topological succ placed" "set placed \<subseteq> set (dict_keys succ)" by fact+
  show rem: "set remaining = set (dict_keys succ) - set placed" unfolding remaining by auto
  show prior: "\<forall>t\<in>set remaining. \<exists>p\<in>set remaining. (p, t) \<in> arcs succ"
    unfolding rem using pred arcs_source by blast
  show "remaining = [] \<longleftrightarrow> acyclic (arcs succ)"
  proof
    assume "remaining = []"
    with rem placed(2) have "set placed = set (dict_keys succ)" by auto
    then show "acyclic (arcs succ)" using arcs_target[OF wf] by (intro topological_acyclic[OF placed(3,1)]) blast
  next
    assume "acyclic (arcs succ)"
    then have "wf (arcs succ)" by (rule finite_acyclic_wf[OF finite_arcs[OF wf]])
    show "remaining = []"
    proof (rule ccontr)
      assume "remaining \<noteq> []"
      then obtain x where "x \<in> set remaining" by (cases remaining) auto
      from wfE_min[OF \<open>wf (arcs succ)\<close> this] obtain z where "z \<in> set remaining" "\<And>y. (y, z) \<in> arcs succ \<Longrightarrow> y \<notin> set remaining" by blast
      with prior show False by blast
    qed
  qed
qed

section \<open>The walk closes\<close>

definition closed_walk :: "('a \<times> 'a) set \<Rightarrow> 'a list \<Rightarrow> bool" where
  "closed_walk A w \<longleftrightarrow> 2 \<le> length w \<and> hd w = last w \<and> successively (\<lambda>x y. (x, y) \<in> A) w"

lemma note_predecessors_get:
  "set (dict_get (note_predecessors pool (k, ts) d) t []) =
     set (dict_get d t []) \<union> (if k \<in> set pool \<and> t \<in> set pool \<and> t \<in> set ts then {k} else {})"
proof -
  have "set (dict_get (fold (\<lambda>t. if t \<in> set pool then dict_append t k else (\<lambda>d. d)) ts d) t []) =
      set (dict_get d t []) \<union> (if t \<in> set pool \<and> t \<in> set ts then {k} else {})"
    by (induction ts arbitrary: d) (auto simp: dict_get_append)
  then show ?thesis unfolding note_predecessors_def fst_conv snd_conv by simp
qed

lemma pool_predecessors_get:
  assumes "well_formed succ" and "t \<in> set pool"
  shows "set (dict_get (pool_predecessors succ pool) t []) = {k \<in> set pool. (k, t) \<in> arcs succ}"
proof -
  have "set (dict_get (fold (note_predecessors pool) xs d) t []) =
      set (dict_get d t []) \<union> {k \<in> set pool. \<exists>ts. (k, ts) \<in> set xs \<and> t \<in> set ts}" for xs d
  proof (induction xs arbitrary: d)
    case (Cons x xs)
    obtain k ts where "x = (k, ts)" by (cases x)
    with Cons assms(2) show ?case by (auto simp: note_predecessors_get)
  qed simp
  moreover have "dict_get (map (\<lambda>k. (k, [] :: string list)) pool) t [] = []" by (induction pool) (auto simp: dict_get_def split: option.splits)
  moreover have "(\<exists>ts. (k, ts) \<in> set succ \<and> t \<in> set ts) \<longleftrightarrow> (k, t) \<in> arcs succ" for k
  proof
    assume "(k, t) \<in> arcs succ"
    then show "\<exists>ts. (k, ts) \<in> set succ \<and> t \<in> set ts"
      by (cases "map_of succ k") (auto simp: arcs_def targets_def dict_get_def dest: map_of_SomeD)
  qed (use targets_entry[OF assms(1)] in \<open>auto simp: arcs_def\<close>)
  ultimately show ?thesis by (simp add: pool_predecessors_def)
qed

lemma walk_back:
  assumes "successively (\<lambda>x y. (y, x) \<in> A) path" and "n \<in> set path" and "(n, last path) \<in> A"
  shows "successively (\<lambda>x y. (x, y) \<in> A) (n # rev (dropWhile (\<lambda>x. x \<noteq> n) path))" "hd (dropWhile (\<lambda>x. x \<noteq> n) path) = n"
    "dropWhile (\<lambda>x. x \<noteq> n) path \<noteq> []"
proof -
  let ?q = "dropWhile (\<lambda>x. x \<noteq> n) path"
  show q: "?q \<noteq> []" using assms(2) by (simp add: dropWhile_eq_Nil_conv)
  then show "hd ?q = n" using hd_dropWhile[of "\<lambda>x. x \<noteq> n" path] by auto
  have "successively (\<lambda>x y. (y, x) \<in> A) ?q" 
    using assms(1) successively_append_iff[of _ "takeWhile (\<lambda>x. x \<noteq> n) path" ?q] by simp
  moreover have "last ?q = last path" using last_appendR[OF q, of "takeWhile (\<lambda>x. x \<noteq> n) path"] by simp
  ultimately show "successively (\<lambda>x y. (x, y) \<in> A) (n # rev ?q)"
    using q assms(3) by (simp add: successively_Cons hd_rev)
qed

lemma cycle_walk_closed:
  assumes pred: "\<And>t. t \<in> set pool \<Longrightarrow> set (dict_get d t []) = {k \<in> set pool. (k, t) \<in> arcs succ}"
    and some: "\<forall>t\<in>set pool. \<exists>p\<in>set pool. (p, t) \<in> arcs succ"
  shows "path \<noteq> [] \<Longrightarrow> set path \<subseteq> set pool \<Longrightarrow> successively (\<lambda>x y. (y, x) \<in> arcs succ) path \<Longrightarrow>
    closed_walk (arcs succ) (cycle_walk d path) \<and> set (cycle_walk d path) \<subseteq> set pool"
  using pred
proof (induction d path rule: cycle_walk.induct)
  case (1 d path)
  have last: "last path \<in> set pool" using 1(2,3) by (meson last_in_set subsetD)
  with some 1(5) have "dict_get d (last path) [] \<noteq> []" by fastforce
  then obtain n rest where n: "sort (dict_get d (last path) []) = n # rest"
    by (metis list.exhaust set_empty set_sort)
  with sort_head_mem[OF n] 1(5)[OF last] have arc: "n \<in> set pool" "(n, last path) \<in> arcs succ" by auto
  show ?case
  proof (cases "n \<in> set path")
    case True
    note prior = walk_back[OF 1(4) True arc(2)]
    have w: "cycle_walk d path = n # rev (dropWhile (\<lambda>x. x \<noteq> n) path)" by (subst cycle_walk.simps) (simp add: n True)
    have "closed_walk (arcs succ) (cycle_walk d path)"
      unfolding closed_walk_def w using prior by (simp add: last_rev Suc_le_eq)
    moreover have "set (cycle_walk d path) \<subseteq> set pool" unfolding w using 1(3) arc(1) by (auto dest: set_dropWhileD)
    ultimately show ?thesis by blast
  next
    case False
    have w: "cycle_walk d path = cycle_walk d (path @ [n])" by (subst cycle_walk.simps) (simp add: n False)
    have "successively (\<lambda>x y. (y, x) \<in> arcs succ) (path @ [n])" using 1(2,4) arc(2) by (simp add: successively_append_iff)
    with 1(1)[OF n False] 1(3,5) arc(1) show ?thesis unfolding w by simp
  qed
qed

lemma find_cycle_closed:
  assumes "well_formed succ" and "kahn_order succ ords = Inr (placed, remaining)" and "remaining \<noteq> []"
  shows "closed_walk (arcs succ) (find_cycle succ remaining)" "set (find_cycle succ remaining) \<subseteq> set remaining"
proof -
  have "closed_walk (arcs succ) (cycle_walk (pool_predecessors succ remaining) [Min (set remaining)]) \<and>
      set (cycle_walk (pool_predecessors succ remaining) [Min (set remaining)]) \<subseteq> set remaining"
    using assms(3)
    by (intro cycle_walk_closed[OF pool_predecessors_get[OF assms(1)] kahn_order_acyclic(6)[OF assms(1,2)]]) auto
  with assms(3) show "closed_walk (arcs succ) (find_cycle succ remaining)" "set (find_cycle succ remaining) \<subseteq> set remaining"
    by (simp_all add: find_cycle_def)
qed

section \<open>Reachability\<close>

lemma reach_loop_contains: "set seen \<subseteq> set (reach_loop succ pending seen)"
proof (induction succ pending seen rule: reach_loop.induct)
  case (2 succ current pending seen)
  obtain pending' seen' where m: "mark (targets succ current) pending seen = (pending', seen')" by fastforce
  from 2[OF m[symmetric]] mark_sets[OF m] show ?case by (auto simp: m)
qed simp

lemma reach_loop_closed:
  "\<forall>x\<in>set seen. x \<in> set pending \<or> set (targets succ x) \<subseteq> set seen \<Longrightarrow>
     (\<forall>x\<in>set (reach_loop succ pending seen). set (targets succ x) \<subseteq> set (reach_loop succ pending seen)) \<and>
     (\<forall>x\<in>set pending. set (targets succ x) \<subseteq> set (reach_loop succ pending seen))"
proof (induction succ pending seen rule: reach_loop.induct)
  case (2 succ current pending seen)
  obtain pending' seen' where m: "mark (targets succ current) pending seen = (pending', seen')" by fastforce
  have sets: "set seen' = set seen \<union> set (targets succ current)" "set pending' = set pending \<union> (set (targets succ current) - set seen)"
    using mark_sets[OF m] by auto
  have "\<forall>x\<in>set seen'. x \<in> set pending' \<or> set (targets succ x) \<subseteq> set seen'" using 2(2) unfolding sets by auto
  from 2(1)[OF m[symmetric] this] reach_loop_contains[of seen' succ pending'] show ?case unfolding sets by (auto simp: m)
qed auto

lemma reach_loop_sound:
  "set pending \<union> set seen \<subseteq> insert a ((arcs succ)\<^sup>+ `` {a}) \<Longrightarrow> set seen \<subseteq> (arcs succ)\<^sup>+ `` {a} \<Longrightarrow>
     set (reach_loop succ pending seen) \<subseteq> (arcs succ)\<^sup>+ `` {a}"
proof (induction succ pending seen rule: reach_loop.induct)
  case (2 succ current pending seen)
  obtain pending' seen' where m: "mark (targets succ current) pending seen = (pending', seen')" by fastforce
  have new: "set (targets succ current) \<subseteq> (arcs succ)\<^sup>+ `` {a}"
  proof
    fix t assume "t \<in> set (targets succ current)"
    then have "(current, t) \<in> arcs succ" by (simp add: arcs_def)
    moreover have "current = a \<or> (a, current) \<in> (arcs succ)\<^sup>+" using 2(2) by auto
    ultimately show "t \<in> (arcs succ)\<^sup>+ `` {a}" by (auto intro: trancl_into_trancl)
  qed
  from 2(1)[OF m[symmetric]] mark_sets[OF m] new 2(2,3) show ?case by (simp add: m) blast
qed simp

lemma reachable_from_exact: "set (reachable_from succ a) = (arcs succ)\<^sup>+ `` {a}"
proof
  show "set (reachable_from succ a) \<subseteq> (arcs succ)\<^sup>+ `` {a}" unfolding reachable_from_def by (rule reach_loop_sound) auto
  have closed: "\<forall>x\<in>insert a (set (reachable_from succ a)). set (targets succ x) \<subseteq> set (reachable_from succ a)"
    using reach_loop_closed[of "[]" "[a]" succ] unfolding reachable_from_def by (simp del: reach_loop.simps)
  have "t \<in> set (reachable_from succ a)" if "(a, t) \<in> (arcs succ)\<^sup>+" for t
    using that closed by (induction rule: trancl_induct) (auto simp: arcs_def)
  then show "(arcs succ)\<^sup>+ `` {a} \<subseteq> set (reachable_from succ a)" by blast
qed

section \<open>Sub-graphs\<close>

lemma induced_all: "well_formed succ \<Longrightarrow> set keep = set (dict_keys succ) \<Longrightarrow> induced succ keep = succ"
proof -
  assume wf: "well_formed succ" and keep: "set keep = set (dict_keys succ)"
  have "filter (\<lambda>(k, ts). k \<in> set keep) succ = succ" unfolding keep filter_eq_self_iff by force
  moreover have "map (\<lambda>(k, ts). (k, filter (\<lambda>t. t \<in> set keep) ts)) succ = succ"
  proof (rule map_idI)
    fix x assume x: "x \<in> set succ"
    obtain k ts where kts: "x = (k, ts)" by (cases x)
    have "set ts \<subseteq> set (concat (map snd succ))" using x kts by force
    with wf have "set ts \<subseteq> set keep" unfolding keep well_formed_def by blast
    then show "(case x of (k, ts) \<Rightarrow> (k, filter (\<lambda>t. t \<in> set keep) ts)) = x" using kts by (auto simp: filter_eq_self_iff)
  qed
  ultimately show ?thesis by (simp add: induced_def)
qed

lemma append_arcs_keys: "set (concat (map snd succ)) \<subseteq> K \<Longrightarrow> t \<in> K \<Longrightarrow> set (concat (map snd (dict_append k t succ))) \<subseteq> K"
  by (induction succ) (auto simp: dict_append_def dict_get_def)

text \<open>An adjacency that a loop fills from a list of pairs whose ends are all declared.\<close>

lemma filled_adjacency:
  assumes "distinct K"
  shows "dict_keys (fold (\<lambda>x. if f x \<in> set K \<and> g x \<in> set K then dict_append (f x) (g x) else (\<lambda>d. d)) xs (map (\<lambda>i. (i, [])) K)) = K"
      (is "dict_keys ?d = K")
    "well_formed (fold (\<lambda>x. if f x \<in> set K \<and> g x \<in> set K then dict_append (f x) (g x) else (\<lambda>d. d)) xs (map (\<lambda>i. (i, [])) K))"
    "arcs (fold (\<lambda>x. if f x \<in> set K \<and> g x \<in> set K then dict_append (f x) (g x) else (\<lambda>d. d)) xs (map (\<lambda>i. (i, [])) K)) =
      {(f x, g x) | x. x \<in> set xs \<and> f x \<in> set K \<and> g x \<in> set K}"
proof -
  let ?F = "\<lambda>x. if f x \<in> set K \<and> g x \<in> set K then dict_append (f x) (g x) else (\<lambda>d. d)"
  have keys: "dict_keys (fold ?F xs d) = K \<and> set (concat (map snd (fold ?F xs d))) \<subseteq> set K"
    if "dict_keys d = K" "set (concat (map snd d)) \<subseteq> set K" for d
    using that
  proof (induction xs arbitrary: d)
    case (Cons x xs)
    have "dict_keys (?F x d) = K" using Cons.prems(1) by (auto simp: dict_append_def update_keys simp del: set_map)
    moreover have "set (concat (map snd (?F x d))) \<subseteq> set K" using append_arcs_keys[OF Cons.prems(2)] Cons.prems(2) by simp
    ultimately show ?case using Cons.IH[of "?F x d"] by simp
  qed simp
  have "dict_keys (map (\<lambda>i. (i, [] :: string list)) K) = K" by (simp add: comp_def)
  from keys[OF this] have start: "dict_keys ?d = K" "set (concat (map snd ?d)) \<subseteq> set K" by auto
  then show "dict_keys ?d = K" "well_formed ?d" using assms unfolding well_formed_def start(1) by simp_all
  have get: "set (dict_get (fold ?F xs d) k []) = set (dict_get d k []) \<union> {g x | x. x \<in> set xs \<and> f x = k \<and> f x \<in> set K \<and> g x \<in> set K}" for d k
    by (induction xs arbitrary: d) (auto simp: dict_get_append)
  have "dict_get (map (\<lambda>i. (i, [] :: string list)) K) k [] = []" for k by (induction K) (auto simp: dict_get_def split: option.splits)
  then show "arcs ?d = {(f x, g x) | x. x \<in> set xs \<and> f x \<in> set K \<and> g x \<in> set K}"
    unfolding arcs_def targets_def get by auto
qed

end
