(* ===== verification/Plan_Checks_Correct.thy ===== *)
theory Plan_Checks_Correct
  imports Plan_Checks Task_Network_Correct Topology_Correct
begin

text \<open>
  What the structural checks promise for the projection of a valid network: an order is returned exactly when the plan has no
  cycle, the compiled wiring never fails its own check, every check returns, and a report without problems means that the plan
  can be scheduled, that clashing work is ordered, that the ports are bound and that the required obligations are planned.
\<close>

section \<open>The compiled projection\<close>

lemma projection_parts:
  assumes "execution_projection S = Inr P"
  shows "pj_occurrences P = reachable_occurrences S" "compile_nodes S (reachable_occurrences S) = Inr (pj_nodes P)"
  using assms by (auto simp: execution_projection_def Let_def rbind_Inr_iff)

lemma projection_indexed:
  assumes "valid_network S" and "execution_projection S = Inr P" and "opened S i"
  shows "entry_node_id P i = Inr (entry_name S i)" "exit_node_id P i = Inr (exit_name S i)"
proof -
  note reach = reachable_opened[OF assms(1)]
  have "\<forall>i\<in>set (reachable_occurrences S). by_occurrence S i \<noteq> None" using reach opened_known assms(1) by blast
  from compile_nodes_result[OF reachable_distinct this] projection_parts(2)[OF assms(2)]
  have "node_triple ` set (pj_nodes P) = (\<Union>i\<in>set (reachable_occurrences S). node_triples S i)" by auto
  from indexes[OF this, of i] assms(3) reach show "entry_node_id P i = Inr (entry_name S i)" "exit_node_id P i = Inr (exit_name S i)"
    by (simp_all add: entry_node_id_def exit_node_id_def lookup_def)
qed

lemma dependency_ends:
  assumes "valid_network S" and "execution_projection S = Inr P" and "(a, b) \<in> dependency S"
  shows "a \<in> set (node_ids P)" "b \<in> set (node_ids P)"
proof -
  from assms(3) have "a \<in> entry_name S ` {i. opened S i} \<union> exit_name S ` {i. opened S i} \<and>
      b \<in> entry_name S ` {i. opened S i} \<union> exit_name S ` {i. opened S i}"
    by (cases rule: dependency.cases) (auto dest: opened.Child)
  then show "a \<in> set (node_ids P)" "b \<in> set (node_ids P)" unfolding projection_edges(2)[OF assms(1,2)] by blast+
qed

lemma declared_successors_graph:
  assumes "valid_network S" and "execution_projection S = Inr P"
  shows "dict_keys (declared_successors P) = node_ids P" "well_formed (declared_successors P)"
    "arcs (declared_successors P) = dependency S"
proof -
  have dist: "distinct (node_ids P)" by (rule projection_edges(3)[OF assms])
  note filled = filled_adjacency[OF dist, of pe_source pe_target "pj_edges P"]
  have def: "declared_successors P =
      fold (\<lambda>x. if pe_source x \<in> set (node_ids P) \<and> pe_target x \<in> set (node_ids P) then dict_append (pe_source x) (pe_target x) else (\<lambda>d. d))
        (pj_edges P) (map (\<lambda>i. (i, [])) (node_ids P))"
    unfolding declared_successors_def using dist by (simp add: distinct_remdups_id)
  show "dict_keys (declared_successors P) = node_ids P" "well_formed (declared_successors P)"
    unfolding def by (rule filled)+
  have "arcs (declared_successors P) = {(a, b) \<in> arrow ` set (pj_edges P). a \<in> set (node_ids P) \<and> b \<in> set (node_ids P)}"
    unfolding def filled(3) by (auto simp: arrow_def)
  also have "\<dots> = dependency S"
    unfolding projection_edges(1)[OF assms] using dependency_ends[OF assms] by blast
  finally show "arcs (declared_successors P) = dependency S" .
qed

section \<open>The order\<close>

definition schedule :: "TaskNetworkSnapshot \<Rightarrow> ExecutionProjection \<Rightarrow> string list \<Rightarrow> bool" where
  "schedule S P order \<longleftrightarrow> distinct order \<and> set order = set (node_ids P) \<and> (\<forall>(a, b)\<in>dependency S. rank order a < rank order b)"

lemma ordered_plan:
  assumes "valid_network S" and "execution_projection S = Inr P"
  shows "\<exists>placed remaining. kahn_order (declared_successors P) (ordinals P) = Inr (placed, remaining) \<and>
    (if remaining = [] then acyclic (dependency S) \<and> schedule S P placed
     else \<not> acyclic (dependency S) \<and> closed_walk (dependency S) (find_cycle (declared_successors P) remaining) \<and>
       set (find_cycle (declared_successors P) remaining) \<subseteq> set remaining)"
proof -
  let ?succ = "declared_successors P"
  note graph = declared_successors_graph[OF assms]
  from kahn_order_result[OF graph(2), of "ordinals P"] obtain placed remaining
    where res: "kahn_order ?succ (ordinals P) = Inr (placed, remaining)" by blast
  note kahn = kahn_order_acyclic[OF graph(2) res, unfolded graph(1,3)]
  have "schedule S P placed" if "remaining = []"
  proof -
    have nodes: "set placed = set (node_ids P)" using kahn(4,5) that by auto
    have "rank placed a < rank placed b" if "(a, b) \<in> dependency S" for a b
      using topological_rank[OF kahn(3,2)] that dependency_ends(2)[OF assms that] unfolding graph(3) nodes by blast
    with kahn(2) nodes show ?thesis by (auto simp: schedule_def)
  qed
  with res kahn(1) find_cycle_closed[OF graph(2) res, unfolded graph(3)] show ?thesis by auto
qed

text \<open>C17. The execution path gets a correct order or a real cycle, and nothing else. For the projection of a valid network,
  \<open>require_topological_order\<close> returns an order exactly when the dependencies of the adopted plan have no cycle; that order
  holds every node once and puts the source of every dependency before its target. Otherwise the integrity error carries a
  closed walk along dependencies through the nodes that could not be ordered; no other error can happen.\<close>

theorem topological_order_exact:
  assumes "valid_network S" and "execution_projection S = Inr P"
  shows "case require_topological_order P of
      Inr order \<Rightarrow> acyclic (dependency S) \<and> schedule S P order
    | Inl (GraphIntegrityError remaining cyc) \<Rightarrow>
        \<not> acyclic (dependency S) \<and> closed_walk (dependency S) cyc \<and> set cyc \<subseteq> set remaining
    | Inl (Contract_failure e) \<Rightarrow> False"
  using ordered_plan[OF assms] by (auto simp: require_topological_order_def Let_def split: if_splits)

section \<open>The compiler passes its own wiring check\<close>

lemma has_edge_dependency: "valid_network S \<Longrightarrow> execution_projection S = Inr P \<Longrightarrow> has_edge P a b \<longleftrightarrow> (a, b) \<in> dependency S"
  using projection_edges(1)[of S P] by (auto simp: has_edge_def arrow_def)

lemma opened_occurrence:
  assumes "valid_network S" and "opened S i"
  shows "occurrence S i = Inr (spec_of S i)" "by_occurrence S i = Some (spec_of S i)"
  using opened_known[OF assms(2,1)] by (auto simp: occurrence_def lookup_def spec_of_def)

lemma occurrences_opened: "valid_network S \<Longrightarrow> execution_projection S = Inr P \<Longrightarrow> i \<in> set (pj_occurrences P) \<longleftrightarrow> opened S i"
  using projection_edges(4)[of S P] by blast

lemma check_slot_wired:
  assumes "valid_network S" and "execution_projection S = Inr P" and "opened S i" and "child_slot S i c"
  shows "check_slot P i (entry_name S i) (exit_name S i) c = Inr []"
proof -
  have child: "opened S (cb_occurrence_id c)" by (rule opened.Child[OF assms(3,4)])
  show ?thesis
    using projection_indexed[OF assms(1,2) child] occurrences_opened[OF assms(1,2)] child
      dependency.Opens[OF assms(3,4)] dependency.Closes[OF assms(3,4)]
    by (simp add: check_slot_def Let_def has_edge_dependency[OF assms(1,2)])
qed

definition optional_only :: "TaskNetworkSnapshot \<Rightarrow> string \<Rightarrow> bool" where
  "optional_only S i \<longleftrightarrow> (\<exists>c. child_slot S i c) \<and> (\<forall>c. child_slot S i c \<longrightarrow> \<not> gating c)"

definition wiring_notes :: "TaskNetworkSnapshot \<Rightarrow> string \<Rightarrow> ProjectionProblem list \<Rightarrow> bool" where
  "wiring_notes S i ps \<longleftrightarrow>
     (if optional_only S i then \<exists>n. ps = [problem PK_NO_GATING_CHILDREN (AllSlotsOptional i n) [entry_name S i, exit_name S i]] else ps = [])"

lemma check_wiring_at_result:
  assumes "valid_network S" and "execution_projection S = Inr P" and "opened S i"
  shows "\<exists>ps. check_wiring_at S P i = Inr ps \<and> wiring_notes S i ps"
proof -
  obtain cs where cs: "adopted_children S i = Inr cs"
    using opened_occurrence[OF assms(1,3)] by (cases "oc_form (spec_of S i) = COMPOUND") (auto simp: adopted_children_def)
  then have slot: "child_slot S i c \<longleftrightarrow> c \<in> set cs" for c by (simp add: child_slot_def)
  have "map_result (check_slot P i (entry_name S i) (exit_name S i)) cs = Inr (map (\<lambda>c. []) cs)"
    by (rule map_result_map) (simp add: check_slot_wired[OF assms] slot)
  moreover have "oc_form (spec_of S i) = COMPOUND" if "cs \<noteq> []"
    using compound_children[of S i "hd cs"] slot that opened_occurrence(2)[OF assms(1,3)] by (auto simp: is_compound_def)
  ultimately show ?thesis
    using cs opened_occurrence(1)[OF assms(1,3)] projection_indexed[OF assms]
    by (cases "cs = []") (auto simp: check_wiring_at_def wiring_notes_def optional_only_def slot)
qed

lemma map_result_all:
  assumes "\<And>x. x \<in> set xs \<Longrightarrow> \<exists>y. f x = Inr y \<and> Q x y"
  shows "\<exists>ys. map_result f xs = Inr ys \<and> (\<forall>y\<in>set ys. \<exists>x\<in>set xs. Q x y) \<and> (\<forall>x\<in>set xs. \<exists>y\<in>set ys. Q x y)"
  using assms
proof (induction xs)
  case (Cons x xs)
  from Cons.prems[of x] obtain y where "f x = Inr y" "Q x y" by auto
  moreover from Cons obtain ys where "map_result f xs = Inr ys" "\<forall>y\<in>set ys. \<exists>x\<in>set xs. Q x y" "\<forall>x\<in>set xs. \<exists>y\<in>set ys. Q x y"
    by fastforce
  ultimately show ?case by auto
qed simp

lemma wiring_result:
  assumes "valid_network S" and "execution_projection S = Inr P"
  shows "\<exists>ws. check_refinement_wiring S P = Inr ws \<and>
    (\<forall>p\<in>set ws. (\<exists>i n. opened S i \<and> optional_only S i \<and> pp_detail p = AllSlotsOptional i n) \<or>
       (\<exists>who i. (who, i) \<in> set (pj_unprojected P) \<and> pp_detail p = EndpointNotProjected who i)) \<and>
    (ws = [] \<longrightarrow> pj_unprojected P = [] \<and> (\<forall>i. opened S i \<longrightarrow> \<not> optional_only S i))"
proof -
  have "\<exists>ys. map_result (check_wiring_at S P) (sort (pj_occurrences P)) = Inr ys \<and>
      (\<forall>y\<in>set ys. \<exists>i\<in>set (sort (pj_occurrences P)). wiring_notes S i y) \<and> (\<forall>i\<in>set (sort (pj_occurrences P)). \<exists>y\<in>set ys. wiring_notes S i y)"
    by (rule map_result_all) (use check_wiring_at_result[OF assms] occurrences_opened[OF assms] in simp)
  then obtain ys where ys: "map_result (check_wiring_at S P) (sort (pj_occurrences P)) = Inr ys"
    and from_opened: "\<And>y. y \<in> set ys \<Longrightarrow> \<exists>i. opened S i \<and> wiring_notes S i y" and per: "\<And>i. opened S i \<Longrightarrow> \<exists>y\<in>set ys. wiring_notes S i y"
    unfolding set_sort occurrences_opened[OF assms] Bex_def Ball_def by blast
  have listed: "\<exists>i n. opened S i \<and> optional_only S i \<and> pp_detail p = AllSlotsOptional i n" if p: "p \<in> set (concat ys)" for p
  proof -
    from p obtain y where "y \<in> set ys" "p \<in> set y" by auto
    with from_opened[of y] show ?thesis by (auto simp: problem_def wiring_notes_def split: if_splits)
  qed
  have none: "\<not> optional_only S i" if "opened S i" "concat ys = []" for i
    using per[OF that(1)] that(2) by (auto simp: wiring_notes_def split: if_splits)
  show ?thesis
    using ys listed none by (auto simp: check_refinement_wiring_def problem_def)
qed

section \<open>Bindings, ports, obligations and coverage\<close>

definition binding_of :: "TaskNetworkSnapshot \<Rightarrow> string \<Rightarrow> TaskSemanticBindingV1" where
  "binding_of S i = the (by_task S (oc_task_id (spec_of S i)))"

lemma opened_binding:
  assumes "valid_network S" and "opened S i"
  shows "binding_for_occurrence S i = Inr (binding_of S i)" "binding_for_task S (oc_task_id (spec_of S i)) = Inr (binding_of S i)"
proof -
  have "spec_of S i \<in> set (nw_occurrences S)" using by_occurrence_id[OF opened_occurrence(2)[OF assms]] by blast
  with valid_networkD(2)[OF assms(1)] have "check_occurrence S (spec_of S i) = Inr ()" by blast
  then obtain b where "by_task S (oc_task_id (spec_of S i)) = Some b" by (auto simp: check_occurrence_def split: option.splits)
  then show "binding_for_task S (oc_task_id (spec_of S i)) = Inr (binding_of S i)"
    by (simp add: binding_for_task_def lookup_def binding_of_def)
  with opened_occurrence(1)[OF assms] show "binding_for_occurrence S i = Inr (binding_of S i)" by (simp add: binding_for_occurrence_def)
qed

lemma dict_append_loop: "dict_get (fold (\<lambda>x. dict_append (f x) (g x)) xs d) k [] = dict_get d k [] @ map g (filter (\<lambda>x. f x = k) xs)"
  by (induction xs arbitrary: d) (auto simp: dict_get_append)

definition feeds :: "TaskNetworkSnapshot \<Rightarrow> string \<Rightarrow> string \<Rightarrow> DataRequirement list" where
  "feeds S i k = filter (\<lambda>r. dr_consumer_occurrence r = i \<and> dr_input_port r = k) (nw_data_requirements S)"

lemma bound_ports_feeds: "dict_get (bound_ports S) (i, k) [] = map dr_requirement_id (feeds S i k)"
  by (simp add: bound_ports_def dict_append_loop feeds_def)

definition ports_bound :: "TaskNetworkSnapshot \<Rightarrow> bool" where
  "ports_bound S \<longleftrightarrow>
     (\<forall>r\<in>set (nw_data_requirements S).
        (opened S (dr_producer_occurrence r) \<longrightarrow> dr_output_port r \<in> po_port_key ` set (sb_output_ports (binding_of S (dr_producer_occurrence r)))) \<and>
        (opened S (dr_consumer_occurrence r) \<longrightarrow> dr_input_port r \<in> po_port_key ` set (sb_input_ports (binding_of S (dr_consumer_occurrence r))))) \<and>
     (\<forall>i. opened S i \<longrightarrow> (\<forall>p\<in>set (sb_input_ports (binding_of S i)).
        (po_required p \<longrightarrow> feeds S i (po_port_key p) \<noteq> []) \<and>
        (po_cardinality p = PC_SINGLE \<longrightarrow> length (feeds S i (po_port_key p)) \<le> 1))) \<and>
     (\<forall>i. opened S i \<longrightarrow> (\<forall>p\<in>set (sb_input_ports (binding_of S i) @ sb_output_ports (binding_of S i)). set_order_declared p))"

lemma check_input_port_ok:
  "check_input_port S i p = [] \<longleftrightarrow> (po_required p \<longrightarrow> feeds S i (po_port_key p) \<noteq> []) \<and>
     (po_cardinality p = PC_SINGLE \<longrightarrow> length (feeds S i (po_port_key p)) \<le> 1)"
proof -
  have "sort (map dr_requirement_id (feeds S i (po_port_key p))) = [] \<longleftrightarrow> feeds S i (po_port_key p) = []"
    by (metis length_0_conv length_map length_sort)
  then show ?thesis by (auto simp: check_input_port_def Let_def bound_ports_feeds not_less)
qed

lemma requirement_ports_result:
  assumes "valid_network S" and "execution_projection S = Inr P"
  shows "\<exists>ps. check_requirement_ports S P r = Inr ps \<and> (ps = [] \<longleftrightarrow>
    (opened S (dr_producer_occurrence r) \<longrightarrow> dr_output_port r \<in> po_port_key ` set (sb_output_ports (binding_of S (dr_producer_occurrence r)))) \<and>
    (opened S (dr_consumer_occurrence r) \<longrightarrow> dr_input_port r \<in> po_port_key ` set (sb_input_ports (binding_of S (dr_consumer_occurrence r)))))"
  using opened_binding(1)[OF assms(1)] occurrences_opened[OF assms]
  by (cases "opened S (dr_producer_occurrence r)"; cases "opened S (dr_consumer_occurrence r)")
    (auto simp: check_requirement_ports_def Let_def)

lemma bindings_of_projection:
  assumes "valid_network S" and "execution_projection S = Inr P"
  shows "map_result (binding_for_occurrence S) (sort (pj_occurrences P)) = Inr (map (binding_of S) (sort (pj_occurrences P)))"
  by (rule map_result_map) (use opened_binding(1)[OF assms(1)] occurrences_opened[OF assms] in simp)

lemma set_port_ordering_result:
  assumes "valid_network S" and "execution_projection S = Inr P"
  shows "\<exists>ps. check_set_port_ordering S P = Inr ps \<and> (ps = [] \<longrightarrow>
    (\<forall>i. opened S i \<longrightarrow> (\<forall>p\<in>set (sb_input_ports (binding_of S i) @ sb_output_ports (binding_of S i)). set_order_declared p)))"
proof -
  have zip: "zip (sort (pj_occurrences P)) (map (binding_of S) (sort (pj_occurrences P))) =
      map (\<lambda>i. (i, binding_of S i)) (sort (pj_occurrences P))"
    by (rule nth_equalityI) auto
  show ?thesis
    unfolding check_set_port_ordering_def bindings_of_projection[OF assms] rbind.simps zip
    using occurrences_opened[OF assms] by (auto simp: undeclared_set_ports_def filter_empty_conv)
qed

lemma ports_result:
  assumes "valid_network S" and "execution_projection S = Inr P"
  shows "\<exists>ps. check_ports S P = Inr ps \<and> (ps = [] \<longrightarrow> ports_bound S)"
proof -
  from map_result_all[of "nw_data_requirements S" "check_requirement_ports S P", OF requirement_ports_result[OF assms]]
  obtain rs where rs: "map_result (check_requirement_ports S P) (nw_data_requirements S) = Inr rs"
    "\<forall>r\<in>set (nw_data_requirements S). \<exists>ps\<in>set rs. (ps = [] \<longleftrightarrow>
      (opened S (dr_producer_occurrence r) \<longrightarrow> dr_output_port r \<in> po_port_key ` set (sb_output_ports (binding_of S (dr_producer_occurrence r)))) \<and>
      (opened S (dr_consumer_occurrence r) \<longrightarrow> dr_input_port r \<in> po_port_key ` set (sb_input_ports (binding_of S (dr_consumer_occurrence r)))))"
    by blast
  let ?is = "map (\<lambda>i. concat (map (check_input_port S i) (sb_input_ports (binding_of S i)))) (sort (pj_occurrences P))"
  have ins: "map_result (\<lambda>i. rbind (binding_for_occurrence S i) (\<lambda>b. Inr (concat (map (check_input_port S i) (sb_input_ports b)))))
      (sort (pj_occurrences P)) = Inr ?is"
    by (rule map_result_map) (use opened_binding(1)[OF assms(1)] occurrences_opened[OF assms] in simp)
  from set_port_ordering_result[OF assms] obtain os where os: "check_set_port_ordering S P = Inr os" "os = [] \<longrightarrow>
    (\<forall>i. opened S i \<longrightarrow> (\<forall>p\<in>set (sb_input_ports (binding_of S i) @ sb_output_ports (binding_of S i)). set_order_declared p))" by blast
  have "check_ports S P = Inr (concat rs @ concat ?is @ os)"
    unfolding check_ports_def by (simp only: rs(1) ins os(1) rbind.simps)
  moreover have "ports_bound S" if empty: "concat rs @ concat ?is @ os = []"
  proof -
    from empty have "\<forall>ps\<in>set rs. ps = []" by auto
    with rs(2) have "\<forall>r\<in>set (nw_data_requirements S).
      (opened S (dr_producer_occurrence r) \<longrightarrow> dr_output_port r \<in> po_port_key ` set (sb_output_ports (binding_of S (dr_producer_occurrence r)))) \<and>
      (opened S (dr_consumer_occurrence r) \<longrightarrow> dr_input_port r \<in> po_port_key ` set (sb_input_ports (binding_of S (dr_consumer_occurrence r))))" by metis
    moreover from empty have "check_input_port S i p = []" if "opened S i" "p \<in> set (sb_input_ports (binding_of S i))" for i p
      using that occurrences_opened[OF assms, of i] by auto
    ultimately show ?thesis unfolding ports_bound_def check_input_port_ok using os(2) empty by simp
  qed
  ultimately show ?thesis by blast
qed

definition obligations_planned :: "TaskNetworkSnapshot \<Rightarrow> bool" where
  "obligations_planned S \<longleftrightarrow> (\<forall>ob\<in>set (nw_required_obligations S). \<exists>i. opened S i \<and> oc_obligation_id (spec_of S i) = ob)"

lemma orphans_result:
  assumes "valid_network S" and "execution_projection S = Inr P"
  shows "\<exists>ps. check_orphans S P = Inr ps \<and> (ps = [] \<longrightarrow> obligations_planned S)"
proof -
  have "map_result (occurrence S) (pj_occurrences P) = Inr (map (spec_of S) (pj_occurrences P))"
    by (rule map_result_map) (use opened_occurrence(1)[OF assms(1)] occurrences_opened[OF assms] in simp)
  moreover have "oc_obligation_id ` spec_of S ` set (pj_occurrences P) = {oc_obligation_id (spec_of S i) | i. opened S i}"
    using occurrences_opened[OF assms] by auto
  ultimately show ?thesis by (auto simp: check_orphans_def Let_def filter_empty_conv obligations_planned_def)
qed

definition roots_covered :: "TaskNetworkSnapshot \<Rightarrow> ExecutionProjection \<Rightarrow> bool" where
  "roots_covered S P \<longleftrightarrow> (\<forall>i\<in>set (nw_root_occurrence_ids S).
     set (gl_coverage_criteria (sb_goal_signature (binding_of S i))) \<subseteq> set (covered_criteria S P (oc_obligation_id (spec_of S i))))"

lemma coverage_result:
  assumes "valid_network S" and "execution_projection S = Inr P"
  shows "\<exists>ps. check_root_coverage S P = Inr ps \<and> (ps = [] \<longrightarrow> roots_covered S P)"
proof -
  have one: "\<exists>ps. check_root S P i = Inr ps \<and>
      (ps = [] \<longrightarrow> set (gl_coverage_criteria (sb_goal_signature (binding_of S i))) \<subseteq> set (covered_criteria S P (oc_obligation_id (spec_of S i))))"
    if "i \<in> set (nw_root_occurrence_ids S)" for i
  proof -
    have "opened S i" by (rule opened.Root[OF that])
    moreover have "sort (remdups (filter Q xs)) = [] \<longleftrightarrow> (\<forall>x\<in>set xs. \<not> Q x)" for Q and xs :: "string list"
      by (metis filter_empty_conv set_empty set_remdups set_sort)
    ultimately show ?thesis
      using opened_occurrence(1)[OF assms(1)] opened_binding(2)[OF assms(1)] by (auto simp: check_root_def Let_def)
  qed
  from map_result_all[of "nw_root_occurrence_ids S" "check_root S P", OF one]
  obtain pss where "map_result (check_root S P) (nw_root_occurrence_ids S) = Inr pss"
    "\<forall>i\<in>set (nw_root_occurrence_ids S). \<exists>ps\<in>set pss. ps = [] \<longrightarrow>
       set (gl_coverage_criteria (sb_goal_signature (binding_of S i))) \<subseteq> set (covered_criteria S P (oc_obligation_id (spec_of S i)))" by blast
  then show ?thesis by (fastforce simp: check_root_coverage_def roots_covered_def)
qed

section \<open>Ancestors\<close>

text \<open>An occurrence lies inside another when adopted slots lead from the other down to it.\<close>

definition slots_below :: "TaskNetworkSnapshot \<Rightarrow> (string \<times> string) set" where
  "slots_below S = {(j, cb_occurrence_id c) | j c. child_slot S j c}"

definition inside :: "TaskNetworkSnapshot \<Rightarrow> string \<Rightarrow> string \<Rightarrow> bool" where
  "inside S i j \<longleftrightarrow> (j, i) \<in> (slots_below S)\<^sup>+"

lemma check_instances_distinct:
  "check_instances S ds parents = Inr u \<Longrightarrow>
     distinct (map effective_goal_occurrence_id (filter (\<lambda>d. is_adopted S (md_instance_id d)) ds)) \<and>
     (\<forall>d\<in>set ds. is_adopted S (md_instance_id d) \<longrightarrow> effective_goal_occurrence_id d \<notin> set parents) \<and>
     (\<forall>d\<in>set ds. by_occurrence S (effective_goal_occurrence_id d) \<noteq> None)"
proof (induction ds arbitrary: parents)
  case (Cons d ds)
  let ?g = "effective_goal_occurrence_id d" and ?a = "is_adopted S (md_instance_id d)"
  from Cons.prems have rest: "check_instances S ds (if ?a then ?g # parents else parents) = Inr u"
    and known: "by_occurrence S ?g \<noteq> None" and new: "\<not> (?a \<and> ?g \<in> set parents)"
    by (simp_all add: Let_def rbind_Inr_iff split: if_splits)
  from Cons.IH[OF rest] known new show ?case by (cases ?a) auto
qed simp

lemma child_slot_draft:
  assumes "valid_network S"
  shows "child_slot S j c \<longleftrightarrow> (\<exists>d\<in>set (adopted_drafts S). effective_goal_occurrence_id d = j \<and> c \<in> set (md_child_bindings d))"
proof
  assume "child_slot S j c"
  then obtain d where "adopted_instance_for S j = Some d" "c \<in> set (md_child_bindings d)"
    by (auto simp: child_slot_def adopted_children_def result_simps split: if_splits option.splits)
  then show "\<exists>d\<in>set (adopted_drafts S). effective_goal_occurrence_id d = j \<and> c \<in> set (md_child_bindings d)"
    by (auto simp: adopted_instance_for_def dest!: map_of_SomeD)
next
  assume "\<exists>d\<in>set (adopted_drafts S). effective_goal_occurrence_id d = j \<and> c \<in> set (md_child_bindings d)"
  then obtain d where d: "d \<in> set (adopted_drafts S)" "effective_goal_occurrence_id d = j" "c \<in> set (md_child_bindings d)" by blast
  then have in_net: "d \<in> set (nw_method_instances S)" by (simp add: adopted_drafts_def)
  note checked = check_instances_distinct[OF valid_networkD(3)[OF assms]]
  from checked in_net d(2) obtain s where s: "by_occurrence S j = Some s" by blast
  have "map_of (rev (map (\<lambda>s. (oc_occurrence_id s, s)) (nw_occurrences S))) j = Some s"
    using valid_networkD(1)[OF assms] by_occurrence_id[OF s] by (intro map_of_is_SomeI) (auto simp: comp_def rev_map[symmetric])
  moreover have "assert_method_instance (nw_occurrences S) d = Inr ()"
    using valid_networkD(5)[OF assms] in_net by (simp add: assert_method_instances_match_occurrences_def for_each_ok)
  ultimately have "oc_form s = COMPOUND" using s d(2) by (simp add: assert_method_instance_def split: if_splits)
  moreover have "adopted_instance_for S j = Some d"
    unfolding adopted_instance_for_def using checked d(1,2) by (intro map_of_is_SomeI) (auto simp: adopted_drafts_def comp_def)
  ultimately show "child_slot S j c" using s d(3) by (simp add: child_slot_def adopted_children_def occurrence_def lookup_def)
qed

lemma parents_of_view:
  "set (dict_get (rf_parents_of (refinement_view S)) i []) =
     {effective_goal_occurrence_id d | d. d \<in> set (adopted_drafts S) \<and> i \<in> cb_occurrence_id ` set (md_child_bindings d)}"
proof -
  have "set (dict_get (rf_parents_of (fold (add_alternative S) ds v)) i []) = set (dict_get (rf_parents_of v) i []) \<union>
      {effective_goal_occurrence_id d | d. d \<in> set ds \<and> is_adopted S (md_instance_id d) \<and> i \<in> cb_occurrence_id ` set (md_child_bindings d)}" for ds v
    by (induction ds arbitrary: v) (auto simp: add_alternative_def dict_append_loop)
  then show ?thesis by (auto simp: refinement_view_def sorted_instances_def adopted_drafts_def)
qed

lemma ancestors_exact:
  assumes "valid_network S"
  shows "j \<in> set (view_ancestors (refinement_view S) i) \<longleftrightarrow> inside S i j"
proof -
  let ?v = "rf_parents_of (refinement_view S)"
  let ?U = "set (concat (map snd ?v))"
  let ?p = "\<lambda>k. dict_get ?v k []"
  have parents: "(k, x) \<in> slots_below S \<longleftrightarrow> k \<in> set (?p x)" for k x
    unfolding parents_of_view slots_below_def by (auto simp: child_slot_draft[OF assms])
  have known: "set (?p x) \<subseteq> ?U" for x using dict_get_values by fastforce
  have up: "y \<in> set (?p x) \<and> y \<in> ?U \<longleftrightarrow> (x, y) \<in> (slots_below S)\<inverse>" for x y using parents[of y x] known[of x] by blast
  have "explored_step ?U ?p = (slots_below S)\<inverse>" unfolding explored_step_def up by auto
  moreover have "set (rev (?p i)) \<inter> ?U = (slots_below S)\<inverse> `` {i}" using up[of _ i] unfolding set_rev by blast
  ultimately have "set (view_ancestors (refinement_view S) i) = ((slots_below S)\<inverse>)\<^sup>* `` ((slots_below S)\<inverse> `` {i})"
    unfolding view_ancestors_def explore_exact by simp
  also have "\<dots> = ((slots_below S)\<inverse>)\<^sup>+ `` {i}" by (auto simp: trancl_unfold_left relcomp_Image)
  finally show ?thesis by (simp add: inside_def trancl_converse)
qed

section \<open>Resource conflicts\<close>

definition reads_of :: "TaskNetworkSnapshot \<Rightarrow> string \<Rightarrow> (string \<times> string) set" where
  "reads_of S i = resource_key ` set (sb_resource_reads (binding_of S i))"

definition writes_of :: "TaskNetworkSnapshot \<Rightarrow> string \<Rightarrow> (string \<times> string) set" where
  "writes_of S i = resource_key ` set (sb_resource_writes (binding_of S i))"

text \<open>A resource that one of two occurrences writes and the other touches.\<close>

definition clash :: "TaskNetworkSnapshot \<Rightarrow> string \<Rightarrow> string \<Rightarrow> string \<times> string \<Rightarrow> bool" where
  "clash S i j k \<longleftrightarrow> k \<in> writes_of S i \<inter> (writes_of S j \<union> reads_of S j) \<or> k \<in> writes_of S j \<inter> reads_of S i"

lemma clash_sym: "clash S i j k \<longleftrightarrow> clash S j i k"
  by (auto simp: clash_def)

lemma resource_conflicts_keys:
  "set (map resource_key (resource_conflicts lr lw rr rw)) =
     (let K = (\<lambda>rs. resource_key ` set rs) in (K lw \<inter> K rw) \<union> (K lw \<inter> K rr) \<union> (K rw \<inter> K lr))"
proof -
  let ?refs = "lr @ lw @ rr @ rw"
  let ?by = "fold (\<lambda>r. dict_set (resource_key r) r) ?refs []"
  have by_key: "\<exists>r. map_of (fold (\<lambda>r. dict_set (resource_key r) r) xs d) k = Some r \<and> resource_key r = k"
    if "k \<in> resource_key ` set xs \<or> (\<exists>r. map_of d k = Some r \<and> resource_key r = k)" for xs d k
    using that by (induction xs arbitrary: d) auto
  have same: "resource_key (the (map_of ?by k)) = k" if "k \<in> resource_key ` set ?refs" for k
    using by_key[of k ?refs "[]"] that by auto
  let ?C = "\<lambda>k. k \<in> (resource_key ` set lw \<inter> resource_key ` set rw) \<union> (resource_key ` set lw \<inter> resource_key ` set rr) \<union>
    (resource_key ` set rw \<inter> resource_key ` set lr)"
  have "set (map resource_key (resource_conflicts lr lw rr rw)) =
      (\<lambda>k. resource_key (the (map_of ?by k))) ` {k \<in> resource_key ` set ?refs. ?C k}"
    by (simp only: resource_conflicts_def Let_def set_map set_sort set_remdups set_filter image_image)
  also have "\<dots> = (\<lambda>k. k) ` {k \<in> resource_key ` set ?refs. ?C k}" by (rule image_cong[OF refl]) (rule same, blast)
  also have "\<dots> = {k \<in> resource_key ` set ?refs. ?C k}" by (rule image_ident)
  also have "\<dots> = {k. ?C k}" by auto
  finally show ?thesis by (simp add: Let_def Un_def Int_def)
qed

lemma later_pairs_mem: "i \<in> set xs \<Longrightarrow> j \<in> set xs \<Longrightarrow> i \<noteq> j \<Longrightarrow> (i, j) \<in> set (later_pairs xs) \<or> (j, i) \<in> set (later_pairs xs)"
  by (induction xs) auto

lemma later_pairs_ends: "(i, j) \<in> set (later_pairs xs) \<Longrightarrow> i \<in> set xs \<and> j \<in> set xs"
  by (induction xs) auto

lemma filter_result_all:
  assumes "\<And>x. x \<in> set xs \<Longrightarrow> f x = Inr (q x)"
  shows "filter_result f xs = Inr (filter q xs)"
  using assms by (induction xs) auto

definition runs_before :: "(string \<times> string) set \<Rightarrow> TaskNetworkSnapshot \<Rightarrow> string \<Rightarrow> string \<Rightarrow> bool" where
  "runs_before A S i j \<longleftrightarrow> (exit_name S i, entry_name S j) \<in> A\<^sup>+"

definition related :: "TaskNetworkSnapshot \<Rightarrow> string \<Rightarrow> string \<Rightarrow> bool" where
  "related S i j \<longleftrightarrow> inside S i j \<or> inside S j i"

text \<open>An unordered conflict: two occurrences clash, neither is an ancestor of the other, and neither runs before the other.\<close>

definition race :: "(string \<times> string) set \<Rightarrow> TaskNetworkSnapshot \<Rightarrow> string \<times> string \<Rightarrow> string \<times> string \<Rightarrow> bool" where
  "race A S k p \<longleftrightarrow> (case p of (i, j) \<Rightarrow> i \<noteq> j \<and> clash S i j k \<and> \<not> related S i j \<and> \<not> runs_before A S i j \<and> \<not> runs_before A S j i)"

lemma is_ordered_result:
  assumes "valid_network S" and "execution_projection S = Inr P" and "opened S i" and "opened S j"
  shows "is_ordered P succ i j = Inr (runs_before (arcs succ) S i j)"
proof -
  have "x \<in> set (dict_keys succ) \<and> (x, y) \<in> (arcs succ)\<^sup>+ \<longleftrightarrow> (x, y) \<in> (arcs succ)\<^sup>+" for x y
    using arcs_source by (metis tranclD)
  then show ?thesis
    using projection_indexed[OF assms(1,2)] assms(3,4) by (simp add: is_ordered_def reachable_from_exact runs_before_def del: set_map)
qed

lemma unordered_pair_result:
  assumes "valid_network S" and "execution_projection S = Inr P" and "opened S (fst p)" and "opened S (snd p)"
  shows "unordered_pair S P (succ) k p = Inr (race (arcs succ) S k p)"
proof -
  obtain i j where p: "p = (i, j)" by (cases p)
  let ?b = "binding_of S"
  have clash: "k \<in> set (map resource_key (resource_conflicts (sb_resource_reads (?b i)) (sb_resource_writes (?b i))
      (sb_resource_reads (?b j)) (sb_resource_writes (?b j)))) \<longleftrightarrow> clash S i j k"
    unfolding resource_conflicts_keys by (auto simp: Let_def clash_def reads_of_def writes_of_def)
  show ?thesis
    using opened_binding(1)[OF assms(1)] is_ordered_result[OF assms(1,2)] assms(3,4)
    by (simp add: unordered_pair_def p race_def clash related_def ancestors_exact[OF assms(1)] del: set_map)
qed

lemma resource_buckets_result:
  assumes "valid_network S" and "execution_projection S = Inr P"
  shows "\<exists>bs. resource_buckets S P = Inr bs \<and> distinct (dict_keys bs) \<and>
    (\<forall>k. set (dict_get bs k []) = {i. opened S i \<and> k \<in> reads_of S i \<union> writes_of S i})"
proof -
  let ?os = "sort (pj_occurrences P)"
  let ?add = "\<lambda>i b. fold (\<lambda>r. dict_append (resource_key r) i) (sb_resource_reads b @ sb_resource_writes b)"
  let ?loop = "fold (\<lambda>i. ?add i (binding_of S i))"
  have zip: "zip ?os (map (binding_of S) ?os) = map (\<lambda>i. (i, binding_of S i)) ?os" by (rule nth_equalityI) auto
  have bs: "resource_buckets S P = Inr (?loop ?os [])"
    unfolding resource_buckets_def bindings_of_projection[OF assms] rbind.simps zip by (simp add: fold_map comp_def)
  have add_keys: "distinct (dict_keys d) \<Longrightarrow> distinct (dict_keys (fold (\<lambda>r. dict_append (f r) i) rs d))"
    for d :: "((string \<times> string) \<times> string list) list" and f :: "ResourceRef \<Rightarrow> string \<times> string" and i rs
    by (induction rs arbitrary: d) (auto simp: dict_append_def distinct_update)
  have keys: "distinct (dict_keys d) \<Longrightarrow> distinct (dict_keys (?loop is d))" for "is" d
    by (induction "is" arbitrary: d) (simp_all add: add_keys del: fold_append)
  have add: "set (dict_get (?add i b d) k []) = set (dict_get d k []) \<union>
      (if k \<in> resource_key ` set (sb_resource_reads b @ sb_resource_writes b) then {i} else {})" for i b d k
    unfolding dict_append_loop by auto
  have "set (dict_get (?loop is d) k []) = set (dict_get d k []) \<union> {i \<in> set is. k \<in> reads_of S i \<union> writes_of S i}" for "is" d k
    by (induction "is" arbitrary: d) (auto simp: add reads_of_def writes_of_def simp del: fold_append)
  then have "set (dict_get (?loop ?os []) k []) = {i. opened S i \<and> k \<in> reads_of S i \<union> writes_of S i}" for k
    using occurrences_opened[OF assms] by auto
  with bs keys[of "[]" ?os] show ?thesis by auto
qed

lemma check_bucket_result:
  assumes "valid_network S" and "execution_projection S = Inr P" and "set members \<subseteq> {i. opened S i}"
  shows "\<exists>ps. check_bucket S P (succ) (k, members) = Inr ps \<and>
    (ps = [] \<longrightarrow> (\<forall>p\<in>set (later_pairs members). \<not> race (arcs succ) S k p))"
proof -
  have "filter_result (unordered_pair S P (succ) k) (later_pairs members) = Inr (filter (race (arcs succ) S k) (later_pairs members))"
  proof (rule filter_result_all)
    fix p assume "p \<in> set (later_pairs members)"
    then have "fst p \<in> set members" "snd p \<in> set members" using later_pairs_ends[of "fst p" "snd p" members] by auto
    with assms(3) show "unordered_pair S P (succ) k p = Inr (race (arcs succ) S k p)"
      by (intro unordered_pair_result[OF assms(1,2)]) auto
  qed
  then show ?thesis
    by (auto simp: check_bucket_def Let_def MAX_CONFLICTS_PER_RESOURCE_def filter_empty_conv)
qed

definition race_free :: "(string \<times> string) set \<Rightarrow> TaskNetworkSnapshot \<Rightarrow> bool" where
  "race_free A S \<longleftrightarrow> (\<forall>i j k. opened S i \<longrightarrow> opened S j \<longrightarrow> i \<noteq> j \<longrightarrow> clash S i j k \<longrightarrow>
     related S i j \<or> runs_before A S i j \<or> runs_before A S j i)"

lemma conflicts_result:
  assumes "valid_network S" and "execution_projection S = Inr P"
  shows "\<exists>ps. check_resource_conflicts S P (succ) = Inr ps \<and> (ps = [] \<longrightarrow> race_free (arcs succ) S)"
proof -
  from resource_buckets_result[OF assms] obtain bs where bs: "resource_buckets S P = Inr bs" "distinct (dict_keys bs)"
    and get: "\<And>k. set (dict_get bs k []) = {i. opened S i \<and> k \<in> reads_of S i \<union> writes_of S i}" by blast
  let ?good = "\<lambda>b ps. ps = [] \<longrightarrow> (\<forall>p\<in>set (later_pairs (snd b)). \<not> race (arcs succ) S (fst b) p)"
  have one: "\<exists>ps. check_bucket S P (succ) b = Inr ps \<and> ?good b ps" if "b \<in> set (sort_key fst bs)" for b
  proof -
    obtain k members where b: "b = (k, members)" by (cases b)
    with that bs(2) have "dict_get bs k [] = members" by (simp add: dict_get_def)
    with get[of k] have "set members \<subseteq> {i. opened S i}" by blast
    from check_bucket_result[OF assms this, of succ k] show ?thesis by (simp add: b)
  qed
  from map_result_all[of "sort_key fst bs" "check_bucket S P (succ)" ?good, OF one]
  obtain pss where pss: "map_result (check_bucket S P (succ)) (sort_key fst bs) = Inr pss"
    "\<forall>b\<in>set (sort_key fst bs). \<exists>ps\<in>set pss. ?good b ps" by blast
  have "race_free (arcs succ) S" if empty: "concat pss = []"
  proof -
    have none: "\<not> race (arcs succ) S k p" if "(k, members) \<in> set bs" "p \<in> set (later_pairs members)" for k members p
    proof -
      have "(k, members) \<in> set (sort_key fst bs)" using that(1) by simp
      from bspec[OF pss(2) this] obtain ps where ps: "ps \<in> set pss" "?good (k, members) ps" by blast
      from empty ps(1) have "ps = []" by auto
      with ps(2) that(2) show ?thesis by simp
    qed
    have "\<not> race (arcs succ) S k (i, j) \<or> \<not> race (arcs succ) S k (j, i)" if "opened S i" "opened S j" "i \<noteq> j" "clash S i j k" for i j k
    proof -
      have touch: "i \<in> set (dict_get bs k [])" "j \<in> set (dict_get bs k [])"
        using that unfolding get by (auto simp: clash_def)
      then obtain members where "map_of bs k = Some members" "i \<in> set members" "j \<in> set members"
        by (cases "map_of bs k") (auto simp: dict_get_def)
      with later_pairs_mem[of i members j] that(3) none[of k members] show ?thesis by (blast dest: map_of_SomeD)
    qed
    then show ?thesis unfolding race_free_def race_def related_def by (simp add: clash_sym) (metis clash_sym)
  qed
  with bs(1) pss(1) show ?thesis by (auto simp: check_resource_conflicts_def)
qed

section \<open>The whole report\<close>

lemma sorted_problems_empty: "sorted_problems render ps = [] \<longleftrightarrow> ps = []"
  by (simp add: sorted_problems_def flip: length_0_conv)

definition within_bounds :: "ExecutionProjection \<Rightarrow> GraphStructureBudget \<Rightarrow> bool" where
  "within_bounds P B \<longleftrightarrow> int (length (pj_nodes P)) \<le> gs_max_nodes B \<and> int (length (pj_edges P)) \<le> gs_max_edges B"

definition plan_sound :: "TaskNetworkSnapshot \<Rightarrow> ExecutionProjection \<Rightarrow> GraphStructureBudget \<Rightarrow> ProjectionReport \<Rightarrow> bool" where
  "plan_sound S P B R \<longleftrightarrow>
     (\<exists>order. pr_topological_order R = Some order \<and> schedule S P order) \<and> within_bounds P B \<and> race_free (dependency S) S \<and> ports_bound S \<and>
     obligations_planned S \<and> roots_covered S P \<and> pj_unprojected P = [] \<and> (\<forall>i. opened S i \<longrightarrow> \<not> optional_only S i)"

lemma validation_result:
  assumes "valid_network S" and "execution_projection S = Inr P"
  shows "\<exists>R. validate_execution_projection render S P B = Inr R \<and> (report_ok R \<longrightarrow> plan_sound S P B R)"
proof -
  let ?succ = "declared_successors P"
  note graph = declared_successors_graph[OF assms]
  from ordered_plan[OF assms] obtain placed remaining where res: "kahn_order ?succ (ordinals P) = Inr (placed, remaining)"
    and plan: "remaining = [] \<Longrightarrow> schedule S P placed" by (metis (full_types))
  let ?healthy = "induced ?succ placed"
  from wiring_result[OF assms] obtain ws where ws: "check_refinement_wiring S P = Inr ws"
    "ws = [] \<Longrightarrow> pj_unprojected P = [] \<and> (\<forall>i. opened S i \<longrightarrow> \<not> optional_only S i)" by blast
  from ports_result[OF assms] obtain ps where ps: "check_ports S P = Inr ps" "ps = [] \<Longrightarrow> ports_bound S" by blast
  from orphans_result[OF assms] obtain os where os: "check_orphans S P = Inr os" "os = [] \<Longrightarrow> obligations_planned S" by blast
  from coverage_result[OF assms] obtain cs where cs: "check_root_coverage S P = Inr cs" "cs = [] \<Longrightarrow> roots_covered S P" by blast
  have whole: "?healthy = ?succ" if "remaining = []"
    using induced_all[OF graph(2), of placed] plan[OF that] unfolding schedule_def graph(1) by blast
  from conflicts_result[OF assms, of ?healthy] obtain xs where xs: "check_resource_conflicts S P ?healthy = Inr xs"
    "xs = [] \<Longrightarrow> race_free (arcs ?healthy) S" by blast
  let ?all = "check_bounds P B @ check_dangling P @ cycle_problems P ?succ placed remaining @ check_depth ?healthy placed B @
    ws @ check_duplicate_slots S @ ps @ os @ cs @ xs"
  let ?R = "\<lparr>pr_budget_version = gs_budget_version B, pr_problems = sorted_problems render ?all,
    pr_topological_order = (if remaining = [] then Some placed else None)\<rparr>"
  have "validate_execution_projection render S P B = Inr ?R"
    by (simp add: validate_execution_projection_def Let_def res ws(1) ps(1) os(1) cs(1) xs(1))
  moreover have "plan_sound S P B ?R" if "report_ok ?R"
  proof -
    from that have empty: "check_bounds P B = []" "cycle_problems P ?succ placed remaining = []" "ws = []" "ps = []" "os = []" "cs = []" "xs = []"
      by (simp_all add: report_ok_def sorted_problems_empty)
    from empty(2) have all: "remaining = []" by (simp add: cycle_problems_def Let_def split: if_splits)
    have "within_bounds P B" using empty(1) by (simp add: check_bounds_def Let_def within_bounds_def split: if_splits)
    moreover have "race_free (dependency S) S" using xs(2)[OF empty(7)] unfolding whole[OF all] graph(3) .
    ultimately show ?thesis using plan[OF all] ws(2) ps(2) os(2) cs(2) empty all by (simp add: plan_sound_def)
  qed
  ultimately show ?thesis by blast
qed

text \<open>C26. The compiler's edges pass the checker's own test of them. For every valid network the wiring check of the compiled
  projection returns, and all it can report is a method whose slots are all optional, or a constraint that names an
  occurrence the adopted plan does not open: a slot is never left unopened, a gating slot never fails to gate, and no edge
  dangles.\<close>

theorem compiled_wiring_passes:
  assumes "valid_network S" and "execution_projection S = Inr P"
  shows "check_dangling P = [] \<and> (\<exists>ws. check_refinement_wiring S P = Inr ws \<and>
    (\<forall>p\<in>set ws. (\<exists>i n. opened S i \<and> optional_only S i \<and> pp_detail p = AllSlotsOptional i n) \<or>
       (\<exists>who i. (who, i) \<in> set (pj_unprojected P) \<and> pp_detail p = EndpointNotProjected who i)))"
proof -
  have "pe_source e \<in> set (node_ids P)" "pe_target e \<in> set (node_ids P)" if "e \<in> set (pj_edges P)" for e
    using dependency_ends[OF assms, of "pe_source e" "pe_target e"] projection_edges(1)[OF assms] that by (force simp: arrow_def)+
  then have "check_dangling P = []" by (auto simp: check_dangling_def filter_empty_conv)
  with wiring_result[OF assms] show ?thesis by blast
qed

text \<open>C16. A report without problems means a sound plan. The validation of a compiled projection always returns, and when it
  lists no problem: there is a topological order of all nodes that respects every dependency; nodes and edges are within the
  budget; of two occurrences that touch the same resource, one of them writing it, one lies inside the other or one is
  finished before the other starts; every required input is fed, every single-valued one by one requirement only, and every
  set-valued port has a declared order; every required obligation has an occurrence in the plan and every root has its
  criteria covered by occurrences in the plan; no constraint is dropped, and no occurrence that is refined into slots has optional slots only; of a
  compound without slots this says nothing.\<close>

theorem validated_plan_sound:
  assumes "valid_network S" and "execution_projection S = Inr P"
  shows "\<exists>R. validate_execution_projection render S P B = Inr R \<and> (report_ok R \<longrightarrow> plan_sound S P B R)"
  by (rule validation_result[OF assms])

section \<open>The sample plan\<close>

definition plan_limits :: GraphStructureBudget where
  "plan_limits = \<lparr>gs_budget_version = 1, gs_max_live_tasks = 10, gs_max_depth = 20, gs_max_expanded_nodes = 100, gs_max_candidates = 10,
     gs_max_recursion_fuel = 10, gs_max_nodes = 50, gs_max_edges = 50, gs_max_fan_out = 10\<rparr>"

lemma sample_plan_checked:
  "case execution_projection sample_plan of Inl e \<Rightarrow> False
   | Inr P \<Rightarrow> (case validate_execution_projection (\<lambda>d. []) sample_plan P plan_limits of Inl e \<Rightarrow> False | Inr R \<Rightarrow> report_ok R) \<and>
       require_topological_order P = Inr [''1:a:entry'', ''1:x:node'', ''1:a:exit'', ''1:b:entry'', ''1:y:node'', ''1:b:exit'']"
  by code_simp

lemma topological_order_exact_witness:
  "\<exists>P. execution_projection sample_plan = Inr P \<and> acyclic (dependency sample_plan) \<and>
    schedule sample_plan P [''1:a:entry'', ''1:x:node'', ''1:a:exit'', ''1:b:entry'', ''1:y:node'', ''1:b:exit'']"
proof -
  from sample_plan_checked obtain P where "execution_projection sample_plan = Inr P"
    "require_topological_order P = Inr [''1:a:entry'', ''1:x:node'', ''1:a:exit'', ''1:b:entry'', ''1:y:node'', ''1:b:exit'']"
    by (auto split: sum.splits)
  with topological_order_exact[OF sample_plan_valid, of P] show ?thesis by simp
qed

lemma compiled_wiring_passes_witness: "\<exists>P. execution_projection sample_plan = Inr P \<and> check_dangling P = []"
  using projection_result[OF sample_plan_valid] compiled_wiring_passes[OF sample_plan_valid] by metis

lemma validated_plan_sound_witness:
  "\<exists>P R. execution_projection sample_plan = Inr P \<and> validate_execution_projection (\<lambda>d. []) sample_plan P plan_limits = Inr R \<and>
    plan_sound sample_plan P plan_limits R"
proof -
  from sample_plan_checked obtain P R where P: "execution_projection sample_plan = Inr P"
    and R: "validate_execution_projection (\<lambda>d. []) sample_plan P plan_limits = Inr R" "report_ok R"
    by (auto split: sum.splits)
  from validated_plan_sound[OF sample_plan_valid P, of "\<lambda>d. []" plan_limits] R have "plan_sound sample_plan P plan_limits R" by auto
  with P R show ?thesis by blast
qed

end
