(* ===== verification/Workspace_Paths.thy ===== *)
theory Workspace_Paths
  imports Semantic_Base "HOL-Library.Sublist"
begin

text \<open>
  The canonical form of workspace paths (\<open>artifacts/paths.py\<close>) and the prefix rule on it. \<open>PurePosixPath(text).parts\<close> is
  modelled from its documentation: the components without empty ones and dots, after a root that is two slashes when the
  text starts with exactly two and one slash when it starts with one or more than two.
\<close>

section \<open>Components of a path\<close>

abbreviation slash :: char where "slash \<equiv> CHR ''/''"
abbreviation backslash :: char where "backslash \<equiv> CHR 0x5C"

text \<open>\<open>text.split("/")\<close>.\<close>

fun split_slash :: "string \<Rightarrow> string list" where
  "split_slash [] = [[]]"
| "split_slash (c # cs) = (if c = slash then [] # split_slash cs else (c # hd (split_slash cs)) # tl (split_slash cs))"

fun join_slash :: "string list \<Rightarrow> string" where
  "join_slash [] = []"
| "join_slash [p] = p"
| "join_slash (p # ps) = p @ slash # join_slash ps"

fun two_slashes :: "string \<Rightarrow> bool" where
  "two_slashes (a # b # rest) \<longleftrightarrow> a = slash \<and> b = slash \<and> (rest = [] \<or> hd rest \<noteq> slash)"
| "two_slashes _ \<longleftrightarrow> False"

definition components :: "string \<Rightarrow> string list" where
  "components s = filter (\<lambda>p. p \<noteq> [] \<and> p \<noteq> ''.'') (split_slash s)"

definition posix_parts :: "string \<Rightarrow> string list" where
  "posix_parts s = (if two_slashes s then [''//''] else if s \<noteq> [] \<and> hd s = slash then [''/''] else []) @ components s"

section \<open>Normalisation and the prefix rule\<close>

definition path_text :: "string \<Rightarrow> string" where
  "path_text path = strip (map (\<lambda>c. if c = backslash then slash else c) path)"

definition normalise_workspace_path :: "string \<Rightarrow> string" where
  "normalise_workspace_path path =
     join_slash (filter (\<lambda>p. p \<notin> {''.'', '''', ''/''}) (posix_parts (path_text path)))"

definition under_prefix :: "string \<Rightarrow> string list \<Rightarrow> bool" where
  "under_prefix path dirs \<longleftrightarrow>
     (\<exists>q\<in>set dirs.
        (let clean = normalise_workspace_path q; normalised = normalise_workspace_path path in
         clean \<noteq> [] \<and> (normalised = clean \<or> prefix (clean @ ''/'') normalised)))"

section \<open>What the prefix rule compares\<close>

lemma split_slash_nonempty [simp]: "split_slash s \<noteq> []"
  by (induction s) auto

lemma split_slash_no_slash: "p \<in> set (split_slash s) \<Longrightarrow> slash \<notin> set p"
proof (induction s arbitrary: p)
  case (Cons c cs)
  have "hd (split_slash cs) \<in> set (split_slash cs)" "set (tl (split_slash cs)) \<subseteq> set (split_slash cs)"
    by (auto intro: list.set_sel(2))
  with Cons show ?case by (auto split: if_splits)
qed simp

lemma components_clean: "p \<in> set (components s) \<Longrightarrow> p \<noteq> [] \<and> slash \<notin> set p"
  by (auto simp: components_def dest: split_slash_no_slash)

lemma split_join:
  "\<forall>p\<in>set ps. slash \<notin> set p \<Longrightarrow> ps \<noteq> [] \<Longrightarrow> split_slash (join_slash ps) = ps"
proof (induction ps rule: join_slash.induct)
  case (2 p)
  then show ?case by (induction p) auto
next
  case (3 p q ps)
  have "split_slash (a @ slash # b) = a # split_slash b" if "slash \<notin> set a" for a b
    using that by (induction a) auto
  with 3 show ?case by simp
qed simp

lemma split_append: "split_slash (a @ slash # b) = split_slash a @ split_slash b"
  by (induction a) (auto simp: hd_append)

lemma normalise_parts:
  "normalise_workspace_path path =
     join_slash ((if two_slashes (path_text path) then [''//''] else []) @ components (path_text path))"
proof -
  have "p \<notin> {''.'', '''', ''/''}" if "p \<in> set (components s)" for s p
    using components_clean[OF that] that by (auto simp: components_def)
  then have "filter (\<lambda>p. p \<notin> {''.'', '''', ''/''}) (components s) = components s" for s
    by (blast intro: filter_True)
  then show ?thesis by (simp add: normalise_workspace_path_def posix_parts_def)
qed

lemma join_append: "ps \<noteq> [] \<Longrightarrow> qs \<noteq> [] \<Longrightarrow> join_slash (ps @ qs) = join_slash ps @ slash # join_slash qs"
  by (induction ps rule: join_slash.induct) (auto simp: neq_Nil_conv)

lemma join_starts_clean:
  "ps \<noteq> [] \<Longrightarrow> \<forall>p\<in>set ps. p \<noteq> [] \<and> slash \<notin> set p \<Longrightarrow> join_slash ps \<noteq> [] \<and> hd (join_slash ps) \<noteq> slash"
  by (induction ps rule: join_slash.induct) (auto simp: neq_Nil_conv)

lemma joined_prefix:
  assumes ps: "\<forall>p\<in>set ps. p \<noteq> [] \<and> slash \<notin> set p" and qs: "\<forall>q\<in>set qs. q \<noteq> [] \<and> slash \<notin> set q" "qs \<noteq> []"
  shows "join_slash ps = join_slash qs \<or> prefix (join_slash qs @ ''/'') (join_slash ps) \<longleftrightarrow> prefix qs ps"
proof
  assume "prefix qs ps"
  then obtain rs where rs: "ps = qs @ rs" by (auto simp: prefix_def)
  show "join_slash ps = join_slash qs \<or> prefix (join_slash qs @ ''/'') (join_slash ps)"
    using join_append[OF qs(2), of rs] rs by (cases "rs = []") (auto simp: prefix_def)
next
  assume match: "join_slash ps = join_slash qs \<or> prefix (join_slash qs @ ''/'') (join_slash ps)"
  have "join_slash ps \<noteq> []" using match join_starts_clean[OF qs(2,1)] by auto
  then have "ps \<noteq> []" by (cases ps) simp_all
  then have split: "split_slash (join_slash ps) = ps" using ps by (simp add: split_join)
  have split': "split_slash (join_slash qs) = qs" using qs by (simp add: split_join)
  from match show "prefix qs ps"
  proof
    assume "join_slash ps = join_slash qs"
    then have "split_slash (join_slash ps) = split_slash (join_slash qs)" by (rule arg_cong)
    then show ?thesis unfolding split split' by simp
  next
    assume "prefix (join_slash qs @ ''/'') (join_slash ps)"
    then obtain r where "join_slash ps = join_slash qs @ slash # r" by (auto simp: prefix_def)
    then have "split_slash (join_slash ps) = split_slash (join_slash qs @ slash # r)" by (rule arg_cong)
    then have "ps = qs @ split_slash r" unfolding split_append split split' .
    then show ?thesis by simp
  qed
qed

lemma normalise_shape:
  "normalise_workspace_path path =
     (let ps = components (path_text path) in
      if two_slashes (path_text path) then if ps = [] then ''//'' else ''///'' @ join_slash ps else join_slash ps)"
  by (cases "components (path_text path)") (auto simp: normalise_parts)

lemma under_one_prefix:
  "under_prefix path [q] \<longleftrightarrow>
     (two_slashes (path_text q) \<or> components (path_text q) \<noteq> []) \<and>
     two_slashes (path_text path) = two_slashes (path_text q) \<and> prefix (components (path_text q)) (components (path_text path))"
proof -
  let ?p = "components (path_text path)" and ?q = "components (path_text q)"
  have clean: "\<forall>p\<in>set (components s). p \<noteq> [] \<and> slash \<notin> set p" for s using components_clean by blast
  show ?thesis
  proof (cases "?q = []")
    case True
    then show ?thesis
      using join_starts_clean[OF _ clean, of "path_text path"]
      by (cases "?p = []"; cases "join_slash ?p") (auto simp: under_prefix_def normalise_shape Let_def)
  next
    case False
    from join_starts_clean[OF this clean] obtain c cs where q: "join_slash ?q = c # cs" "c \<noteq> slash"
      by (cases "join_slash ?q") auto
    show ?thesis
      using joined_prefix[OF clean clean False, of "path_text path"] join_starts_clean[OF _ clean, of "path_text path"] False q
      by (cases "?p = []"; cases "join_slash ?p") (auto simp: under_prefix_def normalise_shape Let_def)
  qed
qed

text \<open>The prefix rule compares whole components, except behind two slashes. A path lies under a prefix exactly when the
  prefix is not empty, its components start the path's components, and either both texts or neither start with exactly two
  slashes: dots, repeated slashes, backslashes and one or three leading slashes do not matter, but \<open>//docs/x\<close> does not lie
  under \<open>docs\<close>.\<close>

theorem prefix_rule_exact:
  "under_prefix path dirs \<longleftrightarrow>
     (\<exists>q\<in>set dirs. (two_slashes (path_text q) \<or> components (path_text q) \<noteq> []) \<and>
        two_slashes (path_text path) = two_slashes (path_text q) \<and> prefix (components (path_text q)) (components (path_text path)))"
proof -
  have "under_prefix path dirs \<longleftrightarrow> (\<exists>q\<in>set dirs. under_prefix path [q])" by (simp add: under_prefix_def)
  then show ?thesis by (simp only: under_one_prefix)
qed

lemma prefix_rule_samples:
  "under_prefix ''./docs//x'' [''docs''] \<and> under_prefix ''/docs/x'' [''docs''] \<and> under_prefix ''///docs/x'' [''docs/''] \<and>
   \<not> under_prefix ''docs2/x'' [''docs''] \<and> \<not> under_prefix ''//docs/x'' [''docs'']"
  unfolding prefix_rule_exact by code_simp

end
