(* ===== verification/Input_Resolution.thy ===== *)
theory Input_Resolution
  imports Dispatch_Inputs Workspace_Paths
begin

text \<open>
  The resolver of declared inputs (\<open>artifacts/input_bindings.py\<close>): from the data requirements of one consumer, the accepted
  outputs, the validity witnesses and a policy to an input manifest. SHA-256 over canonical JSON and the text of a message, which
  only decides the order of the problems, are parameters. A set that is only tested for membership is a list.
\<close>

section \<open>What the resolver is given\<close>

definition make_ResourceIdentity :: "string \<Rightarrow> string \<Rightarrow> contract_error + ResourceIdentity" where
  "make_ResourceIdentity namespace path =
     (if strip namespace = [] then Inl (CE_blank ''resource.namespace'')
      else if strip path = [] then Inl (CE_blank ''resource.path'')
      else if normalise_workspace_path path = [] then Inl (CE_rule ''resource.path normalises to nothing'')
      else Inr \<lparr>ri_namespace = namespace, ri_path = normalise_workspace_path path\<rparr>)"

datatype DisclosureState = DISCLOSABLE | DS_REVOKED | DS_DELETED | DS_PURPOSE_RESTRICTED

fun str_DisclosureState :: "DisclosureState \<Rightarrow> string" where
  "str_DisclosureState DISCLOSABLE = ''disclosable''"
| "str_DisclosureState DS_REVOKED = ''revoked''"
| "str_DisclosureState DS_DELETED = ''deleted''"
| "str_DisclosureState DS_PURPOSE_RESTRICTED = ''purpose_restricted''"

record AcceptedOutput =
  ao_producer_occurrence :: string
  ao_producer_task_ref :: string
  ao_output_port :: string
  ao_producer_result_id :: string
  ao_acceptance_id :: string
  ao_support_revision :: int
  ao_artifact_id :: string
  ao_content_hash :: string
  ao_schema_ref :: VersionedRef
  ao_source_revision :: string
  ao_source_identity :: ResourceIdentity
  ao_producer_ordinal :: int
  ao_order_keys :: "(string \<times> string) list"
  ao_disclosure :: DisclosureState
  ao_disclosure_scope :: string
  ao_provisional :: bool

record AcceptedOutputsIndex =
  ai_outputs :: "AcceptedOutput list"
  ai_completed_producers :: "string list"
  ai_authorized_revisions :: "((string \<times> string) \<times> string) list"

definition outputs_at :: "AcceptedOutputsIndex \<Rightarrow> string \<Rightarrow> string \<Rightarrow> AcceptedOutput list" where
  "outputs_at idx occurrence port =
     sort_key (\<lambda>a. (ao_source_revision a, ao_artifact_id a))
       (filter (\<lambda>a. ao_producer_occurrence a = occurrence \<and> ao_output_port a = port) (ai_outputs idx))"

definition producer_is_complete :: "AcceptedOutputsIndex \<Rightarrow> string \<Rightarrow> bool" where
  "producer_is_complete idx occurrence \<longleftrightarrow> occurrence \<in> set (ai_completed_producers idx)"

definition authorized_revision :: "AcceptedOutputsIndex \<Rightarrow> string \<Rightarrow> string \<Rightarrow> string option" where
  "authorized_revision idx occurrence port = map_of (ai_authorized_revisions idx) (occurrence, port)"

record SchemaCompatibilityRule =
  cr_produced :: VersionedRef
  cr_required :: VersionedRef
  cr_declaration_ref :: string
  cr_converter_ref :: "string option"

definition match_rule :: "SchemaCompatibilityRule list \<Rightarrow> VersionedRef \<Rightarrow> VersionedRef \<Rightarrow> SchemaCompatibilityRule option" where
  "match_rule rules produced required = find (\<lambda>r. cr_produced r = produced \<and> cr_required r = required) rules"

record ExplicitPortOrder =
  ep_input_port :: string
  ep_ordered_requirement_ids :: "string list"

record ResolutionPolicy =
  pl_schema_rules :: "SchemaCompatibilityRule list"
  pl_explicit_orders :: "ExplicitPortOrder list"
  pl_pinned_revisions :: "(string \<times> string) list"
  pl_provisional_ports :: "string list"
  pl_require_witness :: bool
  pl_witness_purposes :: "WitnessPurpose list"
  pl_now_ms :: int
  pl_scope_epochs :: "(string \<times> int) list"
  pl_allow_unknown_scope :: bool

definition explicit_order :: "ResolutionPolicy \<Rightarrow> string \<Rightarrow> string list option" where
  "explicit_order policy port =
     map_option ep_ordered_requirement_ids (find (\<lambda>d. ep_input_port d = port) (pl_explicit_orders policy))"

section \<open>Checks of one candidate\<close>

text \<open>\<open>sorted(set(xs))\<close>.\<close>

definition sorted_set :: "'a::linorder list \<Rightarrow> 'a list" where
  "sorted_set xs = remdups (sort xs)"

definition binding_id_of :: "(json \<Rightarrow> string) \<Rightarrow> DataRequirement \<Rightarrow> AcceptedOutput \<Rightarrow> string \<Rightarrow> string" where
  "binding_id_of sha256_hex r a consumer =
     ''binding-'' @ take 16 (sha256_hex (JObj
       [(''requirement_id'', JStr (dr_requirement_id r)), (''consumer_task_ref'', JStr consumer),
        (''input_port'', JStr (dr_input_port r)), (''artifact_id'', JStr (ao_artifact_id a)),
        (''content_hash'', JStr (ao_content_hash a)), (''source_revision'', JStr (ao_source_revision a))]))"

definition requirement_problem :: "DataRequirement \<Rightarrow> ResolutionProblemKind \<Rightarrow> ResolutionDetail \<Rightarrow> string list \<Rightarrow> ResolutionProblem" where
  "requirement_problem r k d found = make_ResolutionProblem k d (Some (dr_input_port r)) [dr_requirement_id r] found []"

definition revision_target :: "DataRequirement \<Rightarrow> AcceptedOutputsIndex \<Rightarrow> ResolutionPolicy \<Rightarrow> string option" where
  "revision_target r idx policy =
     (let pinned = map_of (pl_pinned_revisions policy) (dr_requirement_id r);
          authorized = authorized_revision idx (dr_producer_occurrence r) (dr_output_port r) in
      if dr_source_revision_policy r = SP_PINNED then pinned
      else case authorized of Some v \<Rightarrow> Some v | None \<Rightarrow> pinned)"

definition select_by_revision ::
  "DataRequirement \<Rightarrow> AcceptedOutput list \<Rightarrow> AcceptedOutputsIndex \<Rightarrow> ResolutionPolicy \<Rightarrow> ResolutionProblem + AcceptedOutput list" where
  "select_by_revision r found idx policy =
     (case revision_target r idx policy of
        None \<Rightarrow> Inr found
      | Some t \<Rightarrow>
          let matching = filter (\<lambda>a. ao_source_revision a = t) found in
          if matching = []
          then Inl (requirement_problem r RPK_REVISION_NOT_AVAILABLE (RD_revision t (dr_producer_occurrence r) (dr_output_port r)) [])
          else Inr matching)"

definition check_schema ::
  "DataRequirement \<Rightarrow> PortSpec \<Rightarrow> AcceptedOutput \<Rightarrow> ResolutionPolicy \<Rightarrow> ResolutionProblem + string option" where
  "check_schema r spec a policy =
     (if dr_schema_ref r \<noteq> po_schema_ref spec
      then Inl (requirement_problem r RPK_SCHEMA_MISMATCH
             (RD_port_schema (dr_requirement_id r) (dr_schema_ref r) (po_port_key spec) (po_schema_ref spec)) [])
      else if ao_schema_ref a = dr_schema_ref r then Inr None
      else case match_rule (pl_schema_rules policy) (ao_schema_ref a) (dr_schema_ref r) of
             Some rule \<Rightarrow> Inr (cr_converter_ref rule)
           | None \<Rightarrow> Inl (requirement_problem r RPK_SCHEMA_MISMATCH
                      (RD_artifact_schema (ao_artifact_id a) (ao_schema_ref a) (dr_schema_ref r)) [ao_artifact_id a]))"

definition check_witness ::
  "DataRequirement \<Rightarrow> AcceptedOutput \<Rightarrow> string \<Rightarrow> (string \<times> ValidityWitness) list \<Rightarrow> ResolutionPolicy \<Rightarrow> ResolutionProblem + string option" where
  "check_witness r a consumer witnesses policy =
     (let refuse = (\<lambda>k d. Inl (requirement_problem r k d [ao_artifact_id a])) in
      case map_of witnesses (ao_acceptance_id a) of
        None \<Rightarrow> if \<not> pl_require_witness policy then Inr None else refuse RPK_WITNESS_MISSING (RD_no_witness (ao_acceptance_id a))
      | Some w \<Rightarrow>
          if vw_purpose w \<notin> set (pl_witness_purposes policy)
          then refuse RPK_WITNESS_PURPOSE_MISMATCH (RD_purpose (vw_witness_id w) (vw_purpose w) (pl_witness_purposes policy))
          else if r_kind (vw_consumer_ref w) \<noteq> TR_TASK \<or> r_id (vw_consumer_ref w) \<noteq> consumer
          then refuse RPK_WITNESS_CONSUMER_MISMATCH (RD_consumer (vw_witness_id w) (vw_consumer_ref w) consumer)
          else if vw_support_revision w \<noteq> ao_support_revision a
          then refuse RPK_WITNESS_SUPPORT_MISMATCH
                 (RD_support (vw_witness_id w) (vw_support_revision w) (ao_artifact_id a) (ao_support_revision a))
          else if vw_decision w \<noteq> WD_USABLE then refuse RPK_WITNESS_NOT_USABLE (RD_decision (vw_witness_id w) (vw_decision w))
          else if map_of (pl_scope_epochs policy) (vw_scope_id w) = None \<and> \<not> pl_allow_unknown_scope policy
          then refuse RPK_WITNESS_EPOCH_UNKNOWN (RD_epoch (vw_scope_id w) (vw_witness_id w))
          else
            let current_epoch = dict_get (pl_scope_epochs policy) (vw_scope_id w) (vw_scope_epoch w) in
            if \<not> is_fresh_for w (pl_now_ms policy) current_epoch
            then refuse RPK_WITNESS_NOT_USABLE (RD_stale (vw_witness_id w) (vw_scope_epoch w) current_epoch (vw_not_after_ms w))
            else Inr (Some (vw_witness_id w)))"

section \<open>The order of a set port\<close>

record Entry =
  en_requirement :: DataRequirement
  en_output :: AcceptedOutput
  en_converter_ref :: "string option"
  en_witness_id :: "string option"

text \<open>\<open>None\<close> when two keys agree; otherwise the rank of each key among all.\<close>

definition ranks :: "'k::linorder list \<Rightarrow> nat list option" where
  "ranks keys = (if distinct keys then Some (map (\<lambda>k. length (filter (\<lambda>x. x < k) keys)) keys) else None)"

definition index_in :: "'a list \<Rightarrow> 'a \<Rightarrow> nat" where
  "index_in xs x = length (takeWhile (\<lambda>y. y \<noteq> x) xs)"

definition order_entries :: "PortSpec \<Rightarrow> Entry list \<Rightarrow> ResolutionPolicy \<Rightarrow> ResolutionProblem + nat list" where
  "order_entries spec entries policy =
     (let port = po_port_key spec;
          ids = map (\<lambda>e. dr_requirement_id (en_requirement e)) entries;
          refuse = (\<lambda>k d. Inl (make_ResolutionProblem k d (Some port) ids [] []));
          ranked = (\<lambda>label r. case r of
             None \<Rightarrow> refuse RPK_SET_PORT_ORDER_INCOMPLETE (RD_shared_position port label)
           | Some ns \<Rightarrow> Inr ns) in
      case po_ordering spec of
        None \<Rightarrow> refuse RPK_SET_PORT_UNORDERED (RD_unordered port (length entries))
      | Some PO_BY_PRODUCER_ORDINAL \<Rightarrow> ranked ''producer ordinal'' (ranks (map (\<lambda>e. ao_producer_ordinal (en_output e)) entries))
      | Some PO_BY_KEY \<Rightarrow>
          let key_name = (case po_order_key spec of None \<Rightarrow> '''' | Some k \<Rightarrow> k);
              raw = map (\<lambda>e. map_of (ao_order_keys (en_output e)) key_name) entries in
          if None \<in> set raw
          then refuse RPK_SET_PORT_ORDER_INCOMPLETE (RD_no_order_key port key_name (length (filter (\<lambda>v. v = None) raw)))
          else ranked (''order key '' @ key_name) (ranks (map the raw))
      | Some PO_EXPLICIT \<Rightarrow>
          (case explicit_order policy port of
             None \<Rightarrow> refuse RPK_SET_PORT_UNORDERED (RD_no_explicit_order port)
           | Some declared \<Rightarrow>
               if sort declared \<noteq> sort ids \<or> \<not> distinct declared
               then refuse RPK_SET_PORT_ORDER_INCOMPLETE (RD_explicit_order port declared (sort ids))
               else ranked ''explicit order'' (ranks (map (index_in declared) ids))))"

section \<open>Resolution\<close>

text \<open>What one call is given; the consumer is its semantic binding.\<close>

record Resolution =
  rq_consumer :: TaskSemanticBindingV1
  rq_accepted :: AcceptedOutputsIndex
  rq_witnesses :: "(string \<times> ValidityWitness) list"
  rq_policy :: ResolutionPolicy
  rq_occurrence :: string

definition port_table :: "TaskSemanticBindingV1 \<Rightarrow> (string \<times> PortSpec) list" where
  "port_table b = fold (\<lambda>p. dict_set (po_port_key p) p) (sb_input_ports b) []"

definition judge_candidate :: "Resolution \<Rightarrow> DataRequirement \<Rightarrow> PortSpec \<Rightarrow> AcceptedOutput \<Rightarrow> ResolutionProblem + Entry" where
  "judge_candidate q r spec a =
     (if ao_disclosure a \<noteq> DISCLOSABLE
      then Inl (requirement_problem r RPK_NOT_DISCLOSABLE
             (RD_disclosure (ao_artifact_id a) (str_DisclosureState (ao_disclosure a))) [ao_artifact_id a])
      else
        rbind (check_schema r spec a (rq_policy q)) (\<lambda>converter_ref.
        if ao_provisional a \<and> dr_input_port r \<notin> set (pl_provisional_ports (rq_policy q))
        then Inl (requirement_problem r RPK_PROVISIONAL_NOT_AUTHORIZED
               (RD_provisional (ao_artifact_id a) (dr_input_port r)) [ao_artifact_id a])
        else
          rbind (check_witness r a (sb_task_id (rq_consumer q)) (rq_witnesses q) (rq_policy q)) (\<lambda>witness_id.
          Inr \<lparr>en_requirement = r, en_output = a, en_converter_ref = converter_ref, en_witness_id = witness_id\<rparr>)))"

record ResolutionState =
  rn_problems :: "ResolutionProblem list"
  rn_pending :: "SymbolicBinding list"
  rn_per_port :: "(string \<times> Entry list) list"

definition note_problem :: "ResolutionProblem \<Rightarrow> ResolutionState \<Rightarrow> ResolutionState" where
  "note_problem p st = st\<lparr>rn_problems := rn_problems st @ [p]\<rparr>"

definition try_candidate :: "Resolution \<Rightarrow> DataRequirement \<Rightarrow> PortSpec \<Rightarrow> AcceptedOutput \<Rightarrow> ResolutionState \<Rightarrow> ResolutionState" where
  "try_candidate q r spec a st =
     (case judge_candidate q r spec a of
        Inl p \<Rightarrow> note_problem p st
      | Inr e \<Rightarrow> st\<lparr>rn_per_port := dict_append (dr_input_port r) e (rn_per_port st)\<rparr>)"

definition resolve_requirement :: "Resolution \<Rightarrow> DataRequirement \<Rightarrow> ResolutionState \<Rightarrow> ResolutionState" where
  "resolve_requirement q r st =
     (let consumer = rq_consumer q; idx = rq_accepted q in
      if dr_consumer_occurrence r \<noteq> rq_occurrence q
      then note_problem (requirement_problem r RPK_FOREIGN_REQUIREMENT
             (RD_foreign (dr_requirement_id r) (dr_consumer_occurrence r) (rq_occurrence q)) []) st
      else case map_of (port_table consumer) (dr_input_port r) of
        None \<Rightarrow> note_problem (requirement_problem r RPK_UNDECLARED_PORT
                  (RD_undeclared (dr_requirement_id r) (dr_input_port r) (sb_task_id consumer)) []) st
      | Some spec \<Rightarrow>
          if \<not> producer_is_complete idx (dr_producer_occurrence r)
          then note_problem (requirement_problem r RPK_PENDING_PRODUCER
                 (RD_pending (dr_producer_occurrence r) (dr_requirement_id r)) [])
                 (st\<lparr>rn_pending := rn_pending st @
                    [\<lparr>sy_requirement_id = dr_requirement_id r, sy_producer_occurrence = dr_producer_occurrence r,
                      sy_output_port = dr_output_port r, sy_consumer_task_ref = sb_task_id consumer,
                      sy_input_port = dr_input_port r\<rparr>]\<rparr>)
          else case select_by_revision r (outputs_at idx (dr_producer_occurrence r) (dr_output_port r)) idx (rq_policy q) of
            Inl p \<Rightarrow> note_problem p st
          | Inr narrowed \<Rightarrow> fold (try_candidate q r spec) narrowed st)"

definition resolve_entry :: "(json \<Rightarrow> string) \<Rightarrow> Resolution \<Rightarrow> nat \<times> Entry \<Rightarrow> contract_error + ResolvedInputBinding" where
  "resolve_entry sha256_hex q oe =
     (case oe of (ordinal, e) \<Rightarrow>
      let r = en_requirement e; a = en_output e; consumer = sb_task_id (rq_consumer q);
          follows = (dr_source_revision_policy r = SP_FOLLOW_AUTHORIZED_REVISION);
          pin = map_of (pl_pinned_revisions (rq_policy q)) (dr_requirement_id r) in
      rbind (check_BoundInput
        \<lparr>bi_requirement_id = dr_requirement_id r, bi_producer_result_id = ao_producer_result_id a,
         bi_acceptance_id = ao_acceptance_id a, bi_artifact_id = ao_artifact_id a, bi_content_hash = ao_content_hash a,
         bi_schema_ref = dr_schema_ref r, bi_source_revision = ao_source_revision a\<rparr>) (\<lambda>bound.
      Inr \<lparr>rb_binding_id = binding_id_of sha256_hex r a consumer, rb_bound = bound,
           rb_producer_task_ref = ao_producer_task_ref a, rb_producer_occurrence = ao_producer_occurrence a,
           rb_output_port = ao_output_port a, rb_support_revision = ao_support_revision a, rb_consumer_task_ref = consumer,
           rb_input_port = dr_input_port r, rb_port_ordinal = int ordinal, rb_source_identity = ao_source_identity a,
           rb_produced_schema_ref = ao_schema_ref a, rb_read_policy = dr_assurance_policy_ref r,
           rb_freshness_policy = dr_freshness_policy_ref r, rb_disclosure_scope = ao_disclosure_scope a,
           rb_source_revision_policy = dr_source_revision_policy r, rb_converter_ref = en_converter_ref e,
           rb_requires_reacceptance = (follows \<and> (pin = None \<or> pin \<noteq> Some (ao_source_revision a))),
           rb_provisional = ao_provisional a, rb_witness_id = en_witness_id e\<rparr>))"

definition order_port :: "Resolution \<Rightarrow> PortSpec \<Rightarrow> Entry list \<Rightarrow> ResolutionProblem + nat list" where
  "order_port q spec entries =
     (if po_cardinality spec = PC_SINGLE \<and> 1 < length entries
      then Inl (make_ResolutionProblem RPK_AMBIGUOUS_SINGLE_PORT (RD_ambiguous (po_port_key spec) (length entries))
             (Some (po_port_key spec))
             (sorted_set (map (\<lambda>e. dr_requirement_id (en_requirement e)) entries))
             (sort (map (\<lambda>e. ao_artifact_id (en_output e)) entries)) [])
      else if po_cardinality spec = PC_SET then order_entries spec entries (rq_policy q)
      else Inr (replicate (length entries) 0))"

text \<open>One port of the second loop: a problem, or the bindings of the port.\<close>

definition bind_port ::
  "(json \<Rightarrow> string) \<Rightarrow> Resolution \<Rightarrow> (string \<times> Entry list) list \<Rightarrow> string \<Rightarrow> contract_error + ResolutionProblem + ResolvedInputBinding list" where
  "bind_port sha256_hex q per_port k =
     (case map_of (port_table (rq_consumer q)) k of
        None \<Rightarrow> Inl (PyKeyError k)
      | Some spec \<Rightarrow>
          (case order_port q spec (dict_get per_port k []) of
             Inl p \<Rightarrow> Inr (Inl p)
           | Inr ordinals \<Rightarrow> rbind (map_result (resolve_entry sha256_hex q) (zip ordinals (dict_get per_port k []))) (\<lambda>bs. Inr (Inr bs))))"

definition unbound_port :: "Resolution \<Rightarrow> PortSpec \<Rightarrow> ResolutionProblem" where
  "unbound_port q spec =
     make_ResolutionProblem RPK_UNBOUND_REQUIRED_PORT (RD_unbound (po_port_key spec) (sb_task_id (rq_consumer q)))
       (Some (po_port_key spec)) [] [] []"

text \<open>The last loop; a port that already has a problem is not reported again.\<close>

definition unbound_problems ::
  "Resolution \<Rightarrow> ResolutionProblem list \<Rightarrow> SymbolicBinding list \<Rightarrow> ResolvedInputBinding list \<Rightarrow> ResolutionProblem list" where
  "unbound_problems q problems pending bindings =
     map (unbound_port q) (filter (\<lambda>spec. po_required spec \<and> po_port_key spec \<notin> set (map rb_input_port bindings) \<and>
         po_port_key spec \<notin> set (map sy_input_port pending) \<and> Some (po_port_key spec) \<notin> set (map rp_input_port problems))
       (sb_input_ports (rq_consumer q)))"

definition sorted_resolution_problems :: "(ResolutionDetail \<Rightarrow> string) \<Rightarrow> ResolutionProblem list \<Rightarrow> ResolutionProblem list" where
  "sorted_resolution_problems render =
     sort_key (\<lambda>p. (str_ResolutionProblemKind (rp_kind p), (case rp_input_port p of None \<Rightarrow> '''' | Some k \<Rightarrow> k), render (rp_detail p)))"

definition resolve_declared_inputs ::
  "(json \<Rightarrow> string) \<Rightarrow> (ResolutionDetail \<Rightarrow> string) \<Rightarrow> Resolution \<Rightarrow> DataRequirement list \<Rightarrow> contract_error + ResolutionResult" where
  "resolve_declared_inputs sha256_hex render q requirements =
     (let st = fold (resolve_requirement q) (sort_key dr_requirement_id requirements)
                 \<lparr>rn_problems = [], rn_pending = [], rn_per_port = []\<rparr> in
      rbind (map_result (bind_port sha256_hex q (rn_per_port st)) (sort (dict_keys (rn_per_port st)))) (\<lambda>outcomes.
      let bindings = concat (map (case_sum (\<lambda>_. []) (\<lambda>bs. bs)) outcomes);
          problems = rn_problems st @ concat (map (case_sum (\<lambda>p. [p]) (\<lambda>_. [])) outcomes);
          problems' = sorted_resolution_problems render (problems @ unbound_problems q problems (rn_pending st) bindings) in
      if (\<exists>p\<in>set problems'. rp_kind p \<noteq> RPK_PENDING_PRODUCER) then Inr \<lparr>rr_manifest = None, rr_problems = problems'\<rparr>
      else
        rbind (make_InputManifest (sb_task_id (rq_consumer q)) bindings (rn_pending st)) (\<lambda>m.
        Inr \<lparr>rr_manifest = Some m, rr_problems = problems'\<rparr>)))"

end
