(* ===== verification/Input_Resolution_Correct.thy ===== *)
theory Input_Resolution_Correct
  imports Input_Resolution "HOL-Library.Multiset"
begin

text \<open>
  What a resolved manifest promises. The first loop of the resolver is the concatenation of what its requirements add, the second
  orders the entries port by port; \<open>manifest_sound\<close> states what holds of the manifest without reference to either.
\<close>

section \<open>When a candidate may be used\<close>

text \<open>The validity witness that covers the acceptance, if the policy asks for one, is issued to this consumer for this use,
  covers the artifact's support, and is usable and fresh now.\<close>

definition licensed :: "Resolution \<Rightarrow> AcceptedOutput \<Rightarrow> bool" where
  "licensed q a \<longleftrightarrow>
     (case map_of (rq_witnesses q) (ao_acceptance_id a) of
        None \<Rightarrow> \<not> pl_require_witness (rq_policy q)
      | Some w \<Rightarrow>
          vw_purpose w \<in> set (pl_witness_purposes (rq_policy q)) \<and>
          r_kind (vw_consumer_ref w) = TR_TASK \<and> r_id (vw_consumer_ref w) = sb_task_id (rq_consumer q) \<and>
          vw_support_revision w = ao_support_revision a \<and> vw_decision w = WD_USABLE \<and> vw_freshness w = VA_CURRENT \<and>
          (case map_of (pl_scope_epochs (rq_policy q)) (vw_scope_id w) of
             None \<Rightarrow> pl_allow_unknown_scope (rq_policy q) | Some n \<Rightarrow> vw_scope_epoch w = n) \<and>
          (case vw_not_after_ms w of None \<Rightarrow> True | Some d \<Rightarrow> pl_now_ms (rq_policy q) < d))"

definition usable_for :: "Resolution \<Rightarrow> DataRequirement \<Rightarrow> PortSpec \<Rightarrow> AcceptedOutput \<Rightarrow> bool" where
  "usable_for q r spec a \<longleftrightarrow>
     ao_disclosure a = DISCLOSABLE \<and> dr_schema_ref r = po_schema_ref spec \<and>
     (ao_schema_ref a = dr_schema_ref r \<or>
      (\<exists>rule\<in>set (pl_schema_rules (rq_policy q)). cr_produced rule = ao_schema_ref a \<and> cr_required rule = dr_schema_ref r)) \<and>
     (ao_provisional a \<longrightarrow> dr_input_port r \<in> set (pl_provisional_ports (rq_policy q))) \<and> licensed q a"

lemma witness_licence: "(\<exists>w. check_witness r a (sb_task_id (rq_consumer q)) (rq_witnesses q) (rq_policy q) = Inr w) \<longleftrightarrow> licensed q a"
  by (auto simp: check_witness_def licensed_def Let_def is_fresh_for_def dict_get_def split: option.splits)

lemma schema_match:
  "(\<exists>c. check_schema r spec a policy = Inr c) \<longleftrightarrow>
     dr_schema_ref r = po_schema_ref spec \<and>
     (ao_schema_ref a = dr_schema_ref r \<or>
      (\<exists>rule\<in>set (pl_schema_rules policy). cr_produced rule = ao_schema_ref a \<and> cr_required rule = dr_schema_ref r))"
proof -
  have "match_rule rules x y = None \<longleftrightarrow> \<not> (\<exists>rule\<in>set rules. cr_produced rule = x \<and> cr_required rule = y)" for rules x y
    by (auto simp: match_rule_def find_None_iff)
  then show ?thesis by (auto simp: check_schema_def split: option.split) (metis option.exhaust option.distinct(1))+
qed

lemma judged_usable: "(\<exists>e. judge_candidate q r spec a = Inr e) \<longleftrightarrow> usable_for q r spec a"
  unfolding judge_candidate_def usable_for_def witness_licence[of r a q, symmetric] conj_assoc[symmetric]
  using schema_match[of r spec a "rq_policy q"] by (auto simp: rbind_Inr_iff)

lemma judged_entry: "judge_candidate q r spec a = Inr e \<Longrightarrow> en_requirement e = r \<and> en_output e = a"
  by (auto simp: judge_candidate_def rbind_Inr_iff split: if_splits)

lemma judged_problem:
  assumes "judge_candidate q r spec a = Inl p"
  shows "rp_kind p \<noteq> RPK_PENDING_PRODUCER \<and> rp_input_port p = Some (dr_input_port r)"
  using assms
  by (auto simp: judge_candidate_def check_schema_def check_witness_def rbind_Inl_iff Let_def requirement_problem_def
      make_ResolutionProblem_def split: if_splits option.splits)

section \<open>What one requirement adds\<close>

definition aimed :: "Resolution \<Rightarrow> DataRequirement \<Rightarrow> PortSpec \<Rightarrow> bool" where
  "aimed q r spec \<longleftrightarrow> dr_consumer_occurrence r = rq_occurrence q \<and> map_of (port_table (rq_consumer q)) (dr_input_port r) = Some spec"

text \<open>The accepted outputs at the producer's port, of the revision the source policy names.\<close>

definition chosen :: "Resolution \<Rightarrow> DataRequirement \<Rightarrow> AcceptedOutput list" where
  "chosen q r =
     filter (\<lambda>a. case revision_target r (rq_accepted q) (rq_policy q) of None \<Rightarrow> True | Some t \<Rightarrow> ao_source_revision a = t)
       (outputs_at (rq_accepted q) (dr_producer_occurrence r) (dr_output_port r))"

definition fulfilled :: "Resolution \<Rightarrow> DataRequirement \<Rightarrow> PortSpec \<Rightarrow> bool" where
  "fulfilled q r spec \<longleftrightarrow>
     aimed q r spec \<and> producer_is_complete (rq_accepted q) (dr_producer_occurrence r) \<and>
     (revision_target r (rq_accepted q) (rq_policy q) \<noteq> None \<longrightarrow> chosen q r \<noteq> []) \<and>
     (\<forall>a\<in>set (chosen q r). usable_for q r spec a)"

abbreviation judged_problems :: "Resolution \<Rightarrow> DataRequirement \<Rightarrow> PortSpec \<Rightarrow> AcceptedOutput list \<Rightarrow> ResolutionProblem list" where
  "judged_problems q r spec as \<equiv> concat (map (\<lambda>a. case judge_candidate q r spec a of Inl p \<Rightarrow> [p] | Inr _ \<Rightarrow> []) as)"

abbreviation judged_entries :: "Resolution \<Rightarrow> DataRequirement \<Rightarrow> PortSpec \<Rightarrow> AcceptedOutput list \<Rightarrow> Entry list" where
  "judged_entries q r spec as \<equiv> concat (map (\<lambda>a. case judge_candidate q r spec a of Inl _ \<Rightarrow> [] | Inr e \<Rightarrow> [e]) as)"

text \<open>The state after the first loop, as the concatenation of what the requirements add: problems, symbolic bindings, entries.\<close>

definition added :: "Resolution \<Rightarrow> DataRequirement \<Rightarrow> ResolutionProblem list \<times> SymbolicBinding list \<times> Entry list" where
  "added q r =
     (let st = resolve_requirement q r \<lparr>rn_problems = [], rn_pending = [], rn_per_port = []\<rparr> in
      (rn_problems st, rn_pending st, dict_get (rn_per_port st) (dr_input_port r) []))"

definition grow_state :: "ResolutionState \<Rightarrow> string \<Rightarrow> ResolutionProblem list \<times> SymbolicBinding list \<times> Entry list \<Rightarrow> ResolutionState" where
  "grow_state st k x =
     \<lparr>rn_problems = rn_problems st @ fst x, rn_pending = rn_pending st @ fst (snd x),
      rn_per_port = fold (dict_append k) (snd (snd x)) (rn_per_port st)\<rparr>"

lemma dict_get_appends: "dict_get (fold (dict_append k) es d) k' [] = (if k' = k then dict_get d k [] @ es else dict_get d k' [])"
  by (induction es arbitrary: d) (auto simp: dict_get_append)

lemma dict_keys_appends: "set (dict_keys (fold (dict_append k) es d)) = set (dict_keys d) \<union> (if es = [] then {} else {k})"
  by (induction es arbitrary: d) (simp_all add: dict_append_def dom_map_of_conv_image_fst[symmetric])

lemma distinct_appends: "distinct (dict_keys d) \<Longrightarrow> distinct (dict_keys (fold (dict_append k) es d))"
  by (induction es arbitrary: d) (auto simp: dict_append_def distinct_dict_set)

lemma candidates_grow:
  "fold (try_candidate q r spec) as st = grow_state st (dr_input_port r) (judged_problems q r spec as, [], judged_entries q r spec as)"
  by (induction as arbitrary: st) (simp_all add: grow_state_def try_candidate_def note_problem_def split: sum.split)

lemma note_problem_grows: "note_problem p st = grow_state st k ([p], [], [])"
  by (simp add: note_problem_def grow_state_def)

text \<open>The branches of one turn of the loop, with what each adds.\<close>

lemma requirement_cases:
  obtains (refused) p where "\<And>st. resolve_requirement q r st = grow_state st (dr_input_port r) ([p], [], [])"
      "\<nexists>spec. fulfilled q r spec" "rp_kind p \<noteq> RPK_PENDING_PRODUCER" "rp_input_port p = Some (dr_input_port r)"
  | (pending) p y spec where "\<And>st. resolve_requirement q r st = grow_state st (dr_input_port r) ([p], [y], [])"
      "\<nexists>spec. fulfilled q r spec" "aimed q r spec" "rp_kind p = RPK_PENDING_PRODUCER"
      "rp_input_port p = Some (dr_input_port r)" "sy_input_port y = dr_input_port r"
  | (judged) spec where "\<And>st. resolve_requirement q r st =
        grow_state st (dr_input_port r) (judged_problems q r spec (chosen q r), [], judged_entries q r spec (chosen q r))"
      "aimed q r spec" "producer_is_complete (rq_accepted q) (dr_producer_occurrence r)"
      "revision_target r (rq_accepted q) (rq_policy q) \<noteq> None \<longrightarrow> chosen q r \<noteq> []"
proof (cases "\<exists>spec. aimed q r spec")
  case False
  show ?thesis
  proof (rule refused)
    show "resolve_requirement q r st = grow_state st (dr_input_port r)
        ([if dr_consumer_occurrence r \<noteq> rq_occurrence q
          then requirement_problem r RPK_FOREIGN_REQUIREMENT (RD_foreign (dr_requirement_id r) (dr_consumer_occurrence r) (rq_occurrence q)) []
          else requirement_problem r RPK_UNDECLARED_PORT
                 (RD_undeclared (dr_requirement_id r) (dr_input_port r) (sb_task_id (rq_consumer q))) []], [], [])" for st
      using False by (auto simp: resolve_requirement_def aimed_def Let_def note_problem_grows split: option.split)
  qed (use False in \<open>auto simp: fulfilled_def requirement_problem_def make_ResolutionProblem_def\<close>)
next
  case True
  then obtain spec where aimed: "aimed q r spec" by blast
  show ?thesis
  proof (cases "producer_is_complete (rq_accepted q) (dr_producer_occurrence r)")
    case False
    show ?thesis
    proof (rule pending)
      show "resolve_requirement q r st = grow_state st (dr_input_port r)
          ([requirement_problem r RPK_PENDING_PRODUCER (RD_pending (dr_producer_occurrence r) (dr_requirement_id r)) []],
           [\<lparr>sy_requirement_id = dr_requirement_id r, sy_producer_occurrence = dr_producer_occurrence r,
             sy_output_port = dr_output_port r, sy_consumer_task_ref = sb_task_id (rq_consumer q), sy_input_port = dr_input_port r\<rparr>], [])" for st
        using aimed False by (simp add: resolve_requirement_def aimed_def Let_def note_problem_def grow_state_def)
    qed (use aimed False in \<open>auto simp: fulfilled_def requirement_problem_def make_ResolutionProblem_def\<close>)
  next
    case complete: True
    let ?found = "outputs_at (rq_accepted q) (dr_producer_occurrence r) (dr_output_port r)"
    show ?thesis
    proof (cases "select_by_revision r ?found (rq_accepted q) (rq_policy q)")
      case (Inl p)
      then have "revision_target r (rq_accepted q) (rq_policy q) \<noteq> None \<and> chosen q r = []"
        by (auto simp: select_by_revision_def chosen_def Let_def split: option.splits if_splits)
      with Inl aimed complete show ?thesis
        by (intro refused[of p]) (auto simp: resolve_requirement_def aimed_def Let_def note_problem_grows fulfilled_def
            select_by_revision_def requirement_problem_def make_ResolutionProblem_def split: option.splits if_splits)
    next
      case (Inr as)
      then have as: "as = chosen q r" and some: "revision_target r (rq_accepted q) (rq_policy q) \<noteq> None \<longrightarrow> chosen q r \<noteq> []"
        by (auto simp: select_by_revision_def chosen_def Let_def split: option.splits if_splits)
      show ?thesis
      proof (rule judged[OF _ aimed complete some])
        show "resolve_requirement q r st =
            grow_state st (dr_input_port r) (judged_problems q r spec (chosen q r), [], judged_entries q r spec (chosen q r))" for st
          using aimed complete Inr unfolding as aimed_def by (simp add: resolve_requirement_def Let_def candidates_grow)
      qed
    qed
  qed
qed

lemma requirement_grows: "resolve_requirement q r st = grow_state st (dr_input_port r) (added q r)"
proof -
  obtain x where "\<And>st. resolve_requirement q r st = grow_state st (dr_input_port r) x"
    by (cases rule: requirement_cases[of q r]) blast+
  moreover from this have "added q r = x" by (cases x) (simp add: added_def grow_state_def dict_get_appends)
  ultimately show ?thesis by simp
qed

lemma added_cases:
  obtains (refused) p where "added q r = ([p], [], [])" "\<nexists>spec. fulfilled q r spec" "rp_kind p \<noteq> RPK_PENDING_PRODUCER"
      "rp_input_port p = Some (dr_input_port r)"
  | (pending) p y spec where "added q r = ([p], [y], [])" "\<nexists>spec. fulfilled q r spec" "aimed q r spec" "rp_kind p = RPK_PENDING_PRODUCER"
      "rp_input_port p = Some (dr_input_port r)" "sy_input_port y = dr_input_port r"
  | (judged) spec where "added q r = (judged_problems q r spec (chosen q r), [], judged_entries q r spec (chosen q r))"
      "aimed q r spec" "producer_is_complete (rq_accepted q) (dr_producer_occurrence r)"
      "revision_target r (rq_accepted q) (rq_policy q) \<noteq> None \<longrightarrow> chosen q r \<noteq> []"
proof -
  have eq: "added q r = x" if "\<And>st. resolve_requirement q r st = grow_state st (dr_input_port r) x" for x
    using that by (cases x) (simp add: added_def grow_state_def dict_get_appends)
  show ?thesis by (cases rule: requirement_cases[of q r]) (blast intro: that eq)+
qed

abbreviation entries_at :: "Resolution \<Rightarrow> DataRequirement list \<Rightarrow> string \<Rightarrow> Entry list" where
  "entries_at q rs k \<equiv> concat (map (\<lambda>r. if dr_input_port r = k then snd (snd (added q r)) else []) rs)"

lemma first_loop:
  assumes "st' = fold (resolve_requirement q) rs st"
  shows "rn_problems st' = rn_problems st @ concat (map (\<lambda>r. fst (added q r)) rs)"
    and "rn_pending st' = rn_pending st @ concat (map (\<lambda>r. fst (snd (added q r))) rs)"
    and "dict_get (rn_per_port st') k [] = dict_get (rn_per_port st) k [] @ entries_at q rs k"
    and "set (dict_keys (rn_per_port st')) = set (dict_keys (rn_per_port st)) \<union> dr_input_port ` {r \<in> set rs. snd (snd (added q r)) \<noteq> []}"
    and "distinct (dict_keys (rn_per_port st)) \<Longrightarrow> distinct (dict_keys (rn_per_port st'))"
  using assms
proof (induction rs arbitrary: st)
  case (Cons r rs)
  note step = requirement_grows[unfolded grow_state_def]
  { case 1 then show ?case using Cons(1)[of "resolve_requirement q r st"] by (simp add: step) }
  { case 2 then show ?case using Cons(2)[of "resolve_requirement q r st"] by (simp add: step) }
  { case 3 then show ?case using Cons(3)[of "resolve_requirement q r st"] by (simp add: step dict_get_appends) }
  { case 4 then show ?case using Cons(4)[of "resolve_requirement q r st"]
      dict_keys_appends[of "dr_input_port r" "snd (snd (added q r))" "rn_per_port st"] by (auto simp: step split: if_splits) }
  { case 5 then show ?case using Cons(5)[of "resolve_requirement q r st"]
      distinct_appends[of "rn_per_port st" "dr_input_port r" "snd (snd (added q r))"] by (simp add: step) }
qed simp_all

lemma added_entry:
  assumes "e \<in> set (snd (snd (added q r)))"
  shows "\<exists>spec. aimed q r spec \<and> producer_is_complete (rq_accepted q) (dr_producer_occurrence r) \<and> en_requirement e = r \<and>
    en_output e \<in> set (chosen q r) \<and> usable_for q r spec (en_output e)"
proof (cases rule: added_cases[of q r])
  case (judged spec)
  with assms obtain a where "a \<in> set (chosen q r)" "judge_candidate q r spec a = Inr e"
    by (auto split: sum.splits)
  then show ?thesis using judged judged_entry[of q r spec a e] judged_usable[of q r spec a] by blast
qed (use assms in simp_all)

lemma added_problem:
  assumes "p \<in> set (fst (added q r))"
  shows "rp_input_port p = Some (dr_input_port r)"
proof (cases rule: added_cases[of q r])
  case (judged spec)
  with assms obtain a where "judge_candidate q r spec a = Inl p" by (auto split: sum.splits)
  then show ?thesis using judged_problem by blast
qed (use assms in simp_all)

text \<open>A requirement that adds no problem is fulfilled, and then every output chosen for it is an entry.\<close>

lemma added_clean: "fst (added q r) = [] \<longleftrightarrow> (\<exists>spec. fulfilled q r spec)"
proof (cases rule: added_cases[of q r])
  case (judged spec)
  have "judged_problems q r spec as = [] \<longleftrightarrow> (\<forall>a\<in>set as. usable_for q r spec a)" for as
    by (induction as) (auto simp: judged_usable[symmetric] split: sum.splits)
  with judged show ?thesis by (auto simp: fulfilled_def aimed_def)
qed simp_all

lemma added_outputs: "fulfilled q r spec \<Longrightarrow> map en_output (snd (snd (added q r))) = chosen q r \<and> fst (snd (added q r)) = []"
proof (cases rule: added_cases[of q r])
  case (judged spec')
  assume f: "fulfilled q r spec"
  then have "spec' = spec" using judged by (auto simp: fulfilled_def aimed_def)
  moreover have "map en_output (judged_entries q r spec as) = as" if "\<forall>a\<in>set as. usable_for q r spec a" for as
    using that by (induction as) (auto simp: judged_usable[symmetric] dest: judged_entry split: sum.splits)
  ultimately show ?thesis using judged f by (simp add: fulfilled_def)
qed (auto simp: fulfilled_def)

lemma added_pending:
  "fst (snd (added q r)) = [] \<longleftrightarrow> (\<forall>p\<in>set (fst (added q r)). rp_kind p \<noteq> RPK_PENDING_PRODUCER)"
  "y \<in> set (fst (snd (added q r))) \<Longrightarrow> sy_input_port y = dr_input_port r"
  by (cases rule: added_cases[of q r]; use judged_problem in \<open>fastforce split: sum.splits\<close>)+

section \<open>Positions\<close>

lemma ranks_positions:
  assumes "ranks keys = Some ns"
  shows "length ns = length keys" and "sort ns = [0..<length keys]"
proof -
  let ?rank = "\<lambda>k. length (filter (\<lambda>x. x < k) keys)"
  have d: "distinct keys" and ns: "ns = map ?rank keys" using assms by (auto simp: ranks_def split: if_splits)
  show len: "length ns = length keys" by (simp add: ns)
  have card: "?rank k = card {x \<in> set keys. x < k}" for k
    using d by (simp add: distinct_card[symmetric])
  have mono: "?rank x < ?rank y" if "x \<in> set keys" "x < y" for x y
    unfolding card using that by (intro psubset_card_mono) auto
  have "inj_on ?rank (set keys)"
    by (rule inj_onI) (metis mono less_irrefl linorder_less_linear)
  then have "distinct ns" using d by (simp add: ns distinct_map)
  moreover have "?rank k < length keys" if "k \<in> set keys" for k
    by (rule length_filter_less[OF that]) simp
  then have "set ns \<subseteq> {0..<length keys}" by (auto simp: ns)
  then have "set ns = {0..<length keys}"
    using \<open>distinct ns\<close> len by (intro card_subset_eq) (auto simp: distinct_card)
  ultimately show "sort ns = [0..<length keys]"
    by (metis sorted_list_of_set_sort_remdups distinct_remdups_id sorted_list_of_set_range)
qed

lemma order_port_positions:
  assumes "order_port q spec es = Inr ns"
  shows "length ns = length es" and "sort ns = [0..<length es]" and "po_cardinality spec = PC_SINGLE \<Longrightarrow> length es \<le> 1"
proof -
  have "length ns = length es \<and> sort ns = [0..<length es] \<and> (po_cardinality spec = PC_SINGLE \<longrightarrow> length es \<le> 1)"
  proof (cases "po_cardinality spec")
    case PC_SINGLE
    with assms have "ns = replicate (length es) 0" "length es \<le> 1" by (auto simp: order_port_def split: if_splits)
    then show ?thesis by (cases "length es") auto
  next
    case PC_SET
    with assms have "order_entries spec es (rq_policy q) = Inr ns" by (simp add: order_port_def)
    then have "sort ns = [0..<length es]"
      by (auto simp: order_entries_def Let_def dest!: ranks_positions(2) split: option.splits PortOrdering.splits if_splits)
    then show ?thesis using PC_SET length_sort[of "\<lambda>n. n" ns] by simp
  qed
  then show "length ns = length es" "sort ns = [0..<length es]" "po_cardinality spec = PC_SINGLE \<Longrightarrow> length es \<le> 1" by blast+
qed

lemma sorted_map_int: "sorted ns \<Longrightarrow> sorted (map int ns)"
  by (simp add: sorted_iff_nth_mono)

section \<open>The second loop\<close>

definition carries :: "Resolution \<Rightarrow> ResolvedInputBinding \<Rightarrow> DataRequirement \<Rightarrow> AcceptedOutput \<Rightarrow> bool" where
  "carries q b r a \<longleftrightarrow>
     rb_bound b = \<lparr>bi_requirement_id = dr_requirement_id r, bi_producer_result_id = ao_producer_result_id a,
        bi_acceptance_id = ao_acceptance_id a, bi_artifact_id = ao_artifact_id a, bi_content_hash = ao_content_hash a,
        bi_schema_ref = dr_schema_ref r, bi_source_revision = ao_source_revision a\<rparr> \<and>
     rb_input_port b = dr_input_port r \<and> rb_consumer_task_ref b = sb_task_id (rq_consumer q) \<and>
     rb_support_revision b = ao_support_revision a \<and> rb_provisional b = ao_provisional a \<and>
     rb_source_identity b = ao_source_identity a"

lemma resolved_entry:
  "resolve_entry sha256_hex q (n, e) = Inr b \<Longrightarrow> carries q b (en_requirement e) (en_output e) \<and> rb_port_ordinal b = int n"
  by (auto simp: resolve_entry_def carries_def Let_def rbind_Inr_iff check_BoundInput_def)

lemma resolved_entries:
  assumes "map_result (resolve_entry sha256_hex q) (zip ns es) = Inr bs" and "length ns = length es"
  shows "map rb_port_ordinal bs = map int ns"
    and "list_all2 (\<lambda>b e. carries q b (en_requirement e) (en_output e)) bs es"
  using assms
proof (induction ns es arbitrary: bs rule: list_induct2')
  case (4 n ns e es)
  { case 1 then show ?case using 4(1) by (auto simp: rbind_Inr_iff dest: resolved_entry) }
  { case 2 then show ?case using 4(2) by (auto simp: rbind_Inr_iff dest: resolved_entry) }
qed simp_all

lemma port_table_entry: "map_of (port_table b) k = Some spec \<Longrightarrow> spec \<in> set (sb_input_ports b) \<and> po_port_key spec = k"
proof -
  have "map_of (fold (\<lambda>p. dict_set (po_port_key p) p) ps d) k = Some spec \<Longrightarrow>
      spec \<in> set ps \<and> po_port_key spec = k \<or> map_of d k = Some spec" for ps :: "PortSpec list" and d
    by (induction ps arbitrary: d) (fastforce split: if_splits)+
  then show "map_of (port_table b) k = Some spec \<Longrightarrow> ?thesis" by (fastforce simp: port_table_def)
qed

lemma port_table_unique:
  assumes "distinct (map po_port_key (sb_input_ports b))" and "spec \<in> set (sb_input_ports b)"
  shows "map_of (port_table b) (po_port_key spec) = Some spec"
proof -
  have "map_of (fold (\<lambda>p. dict_set (po_port_key p) p) ps d) (po_port_key spec) = Some spec"
    if "distinct (map po_port_key ps)" "spec \<in> set ps" for ps :: "PortSpec list" and d
    using that
  proof (induction ps arbitrary: d rule: rev_induct)
    case (snoc p ps)
    then have "po_port_key p \<notin> po_port_key ` set ps" by simp
    moreover have "spec \<noteq> p \<Longrightarrow> spec \<in> set ps" using snoc.prems(2) by auto
    ultimately have "spec \<noteq> p \<Longrightarrow> po_port_key spec \<noteq> po_port_key p" by (metis imageI)
    with snoc show ?case by auto
  qed simp
  with assms show ?thesis by (simp add: port_table_def)
qed

lemma filter_concat_keys:
  assumes "distinct ks" and "\<And>k x. k \<in> set ks \<Longrightarrow> x \<in> set (f k) \<Longrightarrow> p x = k"
  shows "filter (\<lambda>x. p x = k) (concat (map f ks)) = (if k \<in> set ks then f k else [])"
  using assms
proof (induction ks)
  case (Cons k' ks)
  have "filter (\<lambda>x. p x = k) (f k') = (if k' = k then f k' else [])"
    using Cons.prems(2)[of k'] by (auto simp: filter_empty_conv filter_id_conv)
  with Cons show ?case by auto
qed simp

abbreviation carried :: "Resolution \<Rightarrow> ResolvedInputBinding \<Rightarrow> Entry \<Rightarrow> bool" where
  "carried q b e \<equiv> carries q b (en_requirement e) (en_output e)"

lemma bound_port:
  assumes "bind_port sha256_hex q d k = Inr (Inr bs)"
  shows "list_all2 (carried q) bs (dict_get d k [])"
    and "\<exists>spec ns. map_of (port_table (rq_consumer q)) k = Some spec \<and> order_port q spec (dict_get d k []) = Inr ns \<and>
      map rb_port_ordinal bs = map int ns"
proof -
  from assms obtain spec ns where spec: "map_of (port_table (rq_consumer q)) k = Some spec"
    and ns: "order_port q spec (dict_get d k []) = Inr ns"
    and bs: "map_result (resolve_entry sha256_hex q) (zip ns (dict_get d k [])) = Inr bs"
    by (auto simp: bind_port_def rbind_Inr_iff split: option.splits sum.splits)
  note e = resolved_entries[OF bs order_port_positions(1)[OF ns]]
  show "list_all2 (carried q) bs (dict_get d k [])" by (rule e(2))
  show "\<exists>spec ns. map_of (port_table (rq_consumer q)) k = Some spec \<and> order_port q spec (dict_get d k []) = Inr ns \<and>
      map rb_port_ordinal bs = map int ns"
    using spec ns e(1) by blast
qed

lemma refused_port: "bind_port sha256_hex q d k = Inr (Inl p) \<Longrightarrow> rp_kind p \<noteq> RPK_PENDING_PRODUCER"
  by (auto simp: bind_port_def order_port_def order_entries_def make_ResolutionProblem_def rbind_Inr_iff Let_def
      split: option.splits sum.splits if_splits PortOrdering.splits)

lemma list_all2_left: "list_all2 P xs ys \<Longrightarrow> x \<in> set xs \<Longrightarrow> \<exists>y\<in>set ys. P x y"
  by (induction rule: list_all2_induct) auto

text \<open>The bindings of the second loop, port by port, when no port is refused.\<close>

lemma second_loop:
  assumes run: "map_result (bind_port sha256_hex q d) ks = Inr outcomes" "distinct ks" "set ks = {k. dict_get d k [] \<noteq> []}"
    and ok: "\<forall>x\<in>set outcomes. \<exists>bs. x = Inr bs"
    and here: "\<And>k e. e \<in> set (dict_get d k []) \<Longrightarrow> dr_input_port (en_requirement e) = k"
    and bindings: "bindings = concat (map (case_sum (\<lambda>_. []) (\<lambda>bs. bs)) outcomes)"
  shows "list_all2 (carried q) (filter (\<lambda>b. rb_input_port b = k) bindings) (dict_get d k [])"
    and "sort (map rb_port_ordinal (filter (\<lambda>b. rb_input_port b = k) bindings)) = map int [0..<length (dict_get d k [])]"
    and "dict_get d k [] \<noteq> [] \<Longrightarrow> \<exists>spec ns. map_of (port_table (rq_consumer q)) k = Some spec \<and> order_port q spec (dict_get d k []) = Inr ns"
proof -
  let ?f = "\<lambda>k. projr (projr (bind_port sha256_hex q d k))"
  have each: "list_all2 (\<lambda>k x. bind_port sha256_hex q d k = Inr x) ks outcomes" using run(1) by (simp add: map_result_ok)
  then have f: "bind_port sha256_hex q d k = Inr (Inr (?f k))" if "k \<in> set ks" for k
    using list_all2_left[OF each that] ok by fastforce
  have "map (case_sum (\<lambda>_. []) (\<lambda>bs. bs)) outcomes = map ?f ks"
    using each ok by (induction rule: list_all2_induct) auto
  then have all: "bindings = concat (map ?f ks)" by (simp add: bindings)
  have "rb_input_port b = k" if "k \<in> set ks" "b \<in> set (?f k)" for k b
    using list_all2_left[OF bound_port(1)[OF f[OF that(1)]] that(2)] here by (auto simp: carries_def)
  then have port: "filter (\<lambda>b. rb_input_port b = k) bindings = (if k \<in> set ks then ?f k else [])"
    unfolding all by (rule filter_concat_keys[OF run(2)])
  show "list_all2 (carried q) (filter (\<lambda>b. rb_input_port b = k) bindings) (dict_get d k [])"
    unfolding port using bound_port(1)[OF f] run(3) by auto
  show "\<exists>spec ns. map_of (port_table (rq_consumer q)) k = Some spec \<and> order_port q spec (dict_get d k []) = Inr ns" if "dict_get d k [] \<noteq> []"
    using bound_port(2)[OF f, of k] run(3) that by blast
  show "sort (map rb_port_ordinal (filter (\<lambda>b. rb_input_port b = k) bindings)) = map int [0..<length (dict_get d k [])]"
  proof (cases "k \<in> set ks")
    case True
    from bound_port(2)[OF f[OF True]] obtain spec ns where ns: "order_port q spec (dict_get d k []) = Inr ns" "map rb_port_ordinal (?f k) = map int ns"
      by blast
    have "sort (map int ns) = map int (sort ns)" by (rule properties_for_sort) (auto intro: sorted_map_int)
    then show ?thesis using True ns order_port_positions(2)[OF ns(1)] by (simp add: port)
  qed (use run(3) port in auto)
qed

section \<open>The result\<close>

abbreviation binding_order :: "ResolvedInputBinding \<Rightarrow> string \<times> int \<times> string" where
  "binding_order b \<equiv> (rb_input_port b, rb_port_ordinal b, rb_binding_id b)"

lemma ordinals_in_order:
  assumes "\<forall>b\<in>set bs. rb_input_port b = k"
  shows "map rb_port_ordinal (sort_key binding_order bs) = sort (map rb_port_ordinal bs)"
proof (rule properties_for_sort[symmetric])
  have "sorted_wrt (\<lambda>a b. binding_order a \<le> binding_order b) (sort_key binding_order bs)"
    using sorted_sort_key[of binding_order bs] by (simp add: sorted_wrt_map)
  then have "sorted_wrt (\<lambda>a b. rb_port_ordinal a \<le> rb_port_ordinal b) (sort_key binding_order bs)"
    by (rule sorted_wrt_mono_rel[rotated]) (use assms in \<open>auto simp: less_eq_prod_def\<close>)
  then show "sorted (map rb_port_ordinal (sort_key binding_order bs))" by (simp add: sorted_wrt_map)
qed simp

text \<open>A manifest read off the entries, port by port.\<close>

definition reads_off :: "Resolution \<Rightarrow> DataRequirement list \<Rightarrow> InputManifest \<Rightarrow> bool" where
  "reads_off q rs m \<longleftrightarrow>
     im_consumer_task_ref m = sb_task_id (rq_consumer q) \<and>
     (\<forall>k. \<exists>bs. mset bs = mset (for_port m k) \<and> list_all2 (carried q) bs (entries_at q rs k)) \<and>
     (\<forall>k. map rb_port_ordinal (for_port m k) = map int [0..<length (entries_at q rs k)]) \<and>
     (\<forall>k. entries_at q rs k \<noteq> [] \<longrightarrow>
        (\<exists>spec ns. map_of (port_table (rq_consumer q)) k = Some spec \<and> order_port q spec (entries_at q rs k) = Inr ns)) \<and>
     set (im_pending m) = (\<Union>r\<in>set rs. set (fst (snd (added q r))))"

lemma entries_here: "e \<in> set (entries_at q rs k) \<Longrightarrow> dr_input_port (en_requirement e) = k \<and> en_requirement e \<in> set rs"
  by (auto split: if_splits dest!: added_entry)

text \<open>A call that returns a manifest: the entries by port, the outcome of every port, and problems that are all pending.\<close>

definition settled_run where
  "settled_run sha256_hex q rs R m d outcomes bindings problems pending \<longleftrightarrow>
     (\<forall>k. dict_get d k [] = entries_at q rs k) \<and> distinct (dict_keys d) \<and> set (dict_keys d) = {k. entries_at q rs k \<noteq> []} \<and>
     map_result (bind_port sha256_hex q d) (sort (dict_keys d)) = Inr outcomes \<and>
     bindings = concat (map (case_sum (\<lambda>_. []) (\<lambda>bs. bs)) outcomes) \<and>
     problems = concat (map (\<lambda>r. fst (added q r)) rs) @ concat (map (case_sum (\<lambda>p. [p]) (\<lambda>_. [])) outcomes) \<and>
     pending = concat (map (\<lambda>r. fst (snd (added q r))) rs) \<and>
     make_InputManifest (sb_task_id (rq_consumer q)) bindings pending = Inr m \<and>
     set (rr_problems R) = set (problems @ unbound_problems q problems pending bindings) \<and>
     (\<forall>p\<in>set (problems @ unbound_problems q problems pending bindings). rp_kind p = RPK_PENDING_PRODUCER)"

lemma resolution_shape:
  assumes run: "resolve_declared_inputs sha256_hex render q requirements = Inr R" and m: "rr_manifest R = Some m"
  defines "rs \<equiv> sort_key dr_requirement_id requirements"
  shows "\<exists>d outcomes bindings problems pending. settled_run sha256_hex q rs R m d outcomes bindings problems pending"
proof -
  define st where "st = fold (resolve_requirement q) rs \<lparr>rn_problems = [], rn_pending = [], rn_per_port = []\<rparr>"
  let ?d = "rn_per_port st"
  note loop = first_loop[OF st_def, simplified]
  from run obtain outcomes where outcomes: "map_result (bind_port sha256_hex q ?d) (sort (dict_keys ?d)) = Inr outcomes"
    unfolding resolve_declared_inputs_def Let_def rs_def[symmetric] st_def[symmetric] by (auto simp: rbind_Inr_iff)
  define bindings where "bindings = concat (map (case_sum (\<lambda>_. []) (\<lambda>bs. bs)) outcomes)"
  define problems where "problems = rn_problems st @ concat (map (case_sum (\<lambda>p. [p]) (\<lambda>_. [])) outcomes)"
  let ?unbound = "unbound_problems q problems (rn_pending st) bindings"
  have R: "rr_problems R = sorted_resolution_problems render (problems @ ?unbound)"
    and all: "\<forall>p\<in>set (problems @ ?unbound). rp_kind p = RPK_PENDING_PRODUCER"
    and made: "make_InputManifest (sb_task_id (rq_consumer q)) bindings (rn_pending st) = Inr m"
    using run m unfolding resolve_declared_inputs_def Let_def rs_def[symmetric] st_def[symmetric] outcomes rbind.simps
      bindings_def[symmetric] problems_def[symmetric]
    by (auto simp: rbind_Inr_iff sorted_resolution_problems_def split: if_splits)
  have "settled_run sha256_hex q rs R m ?d outcomes bindings problems (rn_pending st)"
    unfolding settled_run_def
  proof (intro conjI allI)
    show "dict_get ?d k [] = entries_at q rs k" for k using loop(3)[of k] by (simp add: dict_get_def)
    show "distinct (dict_keys ?d)" by (rule loop(5))
    show "set (dict_keys ?d) = {k. entries_at q rs k \<noteq> []}" using loop(4) by auto
    show "set (rr_problems R) = set (problems @ ?unbound)" by (simp add: R sorted_resolution_problems_def)
    show "problems = concat (map (\<lambda>r. fst (added q r)) rs) @ concat (map (case_sum (\<lambda>p. [p]) (\<lambda>_. [])) outcomes)"
      by (simp add: problems_def loop(1))
  qed (rule outcomes bindings_def loop(2) made all)+
  then show ?thesis by blast
qed

lemma settled_parts:
  assumes "settled_run sha256_hex q rs R m d outcomes bindings problems pending"
  shows "map_result (bind_port sha256_hex q d) (sort (dict_keys d)) = Inr outcomes"
    and "problems = concat (map (\<lambda>r. fst (added q r)) rs) @ concat (map (case_sum (\<lambda>p. [p]) (\<lambda>_. [])) outcomes)"
    and "pending = concat (map (\<lambda>r. fst (snd (added q r))) rs)"
    and "set (rr_problems R) = set (problems @ unbound_problems q problems pending bindings)"
    and "\<forall>p\<in>set (problems @ unbound_problems q problems pending bindings). rp_kind p = RPK_PENDING_PRODUCER"
  using assms unfolding settled_run_def by blast+

text \<open>Such a run has no refused port and no unbound one.\<close>

lemma settled_ports:
  assumes "settled_run sha256_hex q rs R m d outcomes bindings problems pending"
  shows "\<forall>x\<in>set outcomes. \<exists>bs. x = Inr bs" and "unbound_problems q problems pending bindings = []"
    and "set problems = (\<Union>r\<in>set rs. set (fst (added q r)))"
proof -
  note run = settled_parts[OF assms]
  show fine: "\<forall>x\<in>set outcomes. \<exists>bs. x = Inr bs"
  proof
    fix x assume x: "x \<in> set outcomes"
    from run(1) obtain k where "bind_port sha256_hex q d k = Inr x"
      using x by (auto simp: map_result_ok list_all2_conv_all_nth in_set_conv_nth)
    moreover have "rp_kind p = RPK_PENDING_PRODUCER" if "x = Inl p" for p
    proof -
      have "p \<in> set (concat (map (case_sum (\<lambda>p. [p]) (\<lambda>_. [])) outcomes))" using x that by force
      then have "p \<in> set problems" unfolding run(2) by simp
      with run(5) show ?thesis by auto
    qed
    ultimately show "\<exists>bs. x = Inr bs" using refused_port by (cases x) blast+
  qed
  have "\<forall>p\<in>set (unbound_problems q problems pending bindings). rp_kind p = RPK_PENDING_PRODUCER" using run(5) by auto
  then show "unbound_problems q problems pending bindings = []"
    by (auto simp: unbound_problems_def unbound_port_def make_ResolutionProblem_def filter_empty_conv)
  have "concat (map (case_sum (\<lambda>p. [p]) (\<lambda>_. [])) outcomes) = []" using fine by auto
  then show "set problems = (\<Union>r\<in>set rs. set (fst (added q r)))" unfolding run(2) by auto
qed

lemma settled_manifest:
  assumes "settled_run sha256_hex q rs R m d outcomes bindings problems pending"
  shows "reads_off q rs m" and "set (im_bindings m) = set bindings" and "set (im_pending m) = set pending"
proof -
  note run = assms[unfolded settled_run_def]
  have made: "make_InputManifest (sb_task_id (rq_consumer q)) bindings pending = Inr m" using run by blast
  have ports: "for_port m k = sort_key binding_order (filter (\<lambda>b. rb_input_port b = k) bindings)"
    and who: "im_consumer_task_ref m = sb_task_id (rq_consumer q)" for k
    using made by (auto simp: make_InputManifest_def for_port_def filter_sort Let_def split: if_splits)
  show left: "set (im_pending m) = set pending" and "set (im_bindings m) = set bindings"
    using made by (auto simp: make_InputManifest_def Let_def split: if_splits)
  have d: "dict_get d k [] = entries_at q rs k" for k using run by blast
  have loop: "map_result (bind_port sha256_hex q d) (sort (dict_keys d)) = Inr outcomes" "distinct (sort (dict_keys d))"
      "set (sort (dict_keys d)) = {k. dict_get d k [] \<noteq> []}" "bindings = concat (map (case_sum (\<lambda>_. []) (\<lambda>bs. bs)) outcomes)"
    unfolding d set_sort distinct_sort using run by blast+
  have here: "dr_input_port (en_requirement e) = k" if "e \<in> set (dict_get d k [])" for k e using entries_here that unfolding d by blast
  note each = second_loop[OF loop(1-3) settled_ports(1)[OF assms] here loop(4), unfolded d]
  show "reads_off q rs m"
    unfolding reads_off_def
  proof (intro conjI allI impI)
    show "set (im_pending m) = (\<Union>r\<in>set rs. set (fst (snd (added q r))))" unfolding left settled_parts(3)[OF assms] by simp
    show "\<exists>bs. mset bs = mset (for_port m k) \<and> list_all2 (carried q) bs (entries_at q rs k)" for k
      using each(1)[of k] by (intro exI[of _ "filter (\<lambda>b. rb_input_port b = k) bindings"]) (simp add: ports)
    show "map rb_port_ordinal (for_port m k) = map int [0..<length (entries_at q rs k)]" for k
      using each(2)[of k] by (simp add: ports ordinals_in_order[of _ k])
  qed (use each(3) who in auto)
qed

lemma resolved:
  assumes run: "resolve_declared_inputs sha256_hex render q requirements = Inr R" and m: "rr_manifest R = Some m"
  defines "rs \<equiv> sort_key dr_requirement_id requirements"
  shows "reads_off q rs m" and "set (rr_problems R) = (\<Union>r\<in>set rs. set (fst (added q r)))"
    and "\<forall>p\<in>set (rr_problems R). rp_kind p = RPK_PENDING_PRODUCER"
    and "\<forall>spec\<in>set (sb_input_ports (rq_consumer q)). po_required spec \<longrightarrow>
      for_port m (po_port_key spec) \<noteq> [] \<or> po_port_key spec \<in> sy_input_port ` set (im_pending m)"
proof -
  obtain d outcomes bindings problems pending where s: "settled_run sha256_hex q rs R m d outcomes bindings problems pending"
    using resolution_shape[OF run m, folded rs_def] by blast
  show "reads_off q rs m" by (rule settled_manifest(1)[OF s])
  have R: "set (rr_problems R) = set problems" "\<forall>p\<in>set problems. rp_kind p = RPK_PENDING_PRODUCER"
    and pending: "set pending = (\<Union>r\<in>set rs. set (fst (snd (added q r))))"
    using settled_parts(3-5)[OF s] unfolding settled_ports(2)[OF s] by simp_all
  then show "set (rr_problems R) = (\<Union>r\<in>set rs. set (fst (added q r)))" "\<forall>p\<in>set (rr_problems R). rp_kind p = RPK_PENDING_PRODUCER"
    using settled_ports(3)[OF s] by auto
  show "\<forall>spec\<in>set (sb_input_ports (rq_consumer q)). po_required spec \<longrightarrow>
      for_port m (po_port_key spec) \<noteq> [] \<or> po_port_key spec \<in> sy_input_port ` set (im_pending m)"
  proof (intro ballI impI)
    fix spec assume spec: "spec \<in> set (sb_input_ports (rq_consumer q))" "po_required spec"
    let ?k = "po_port_key spec"
    have "?k \<in> rb_input_port ` set (im_bindings m) \<or> ?k \<in> sy_input_port ` set (im_pending m) \<or> Some ?k \<in> rp_input_port ` set problems"
      using settled_ports(2)[OF s] spec settled_manifest(2,3)[OF s] by (auto simp: unbound_problems_def filter_empty_conv)
    then show "for_port m ?k \<noteq> [] \<or> ?k \<in> sy_input_port ` set (im_pending m)"
    proof (elim disjE)
      assume "Some ?k \<in> rp_input_port ` set problems"
      then obtain p where p: "p \<in> set problems" "rp_input_port p = Some ?k" by auto
      then obtain r where rp: "r \<in> set rs" "p \<in> set (fst (added q r))" unfolding settled_ports(3)[OF s] by blast
      then have "fst (snd (added q r)) \<noteq> []" using R(2) p(1) added_pending(1)[of q r] by blast
      then obtain y where y: "y \<in> set (fst (snd (added q r)))" by (cases "fst (snd (added q r))") auto
      have "sy_input_port y = ?k" using added_pending(2)[OF y] added_problem[OF rp(2)] p(2) by simp
      moreover have "y \<in> set (im_pending m)" using settled_manifest(3)[OF s] pending rp(1) y by blast
      ultimately show ?thesis by (metis imageI)
    qed (auto simp: for_port_def filter_empty_conv)
  qed
qed

section \<open>What a manifest promises\<close>

text \<open>A binding is backed by a requirement aimed at this consumer and by an accepted output at the port it names, of the
  revision the source policy names, that may be used.\<close>

definition backed :: "Resolution \<Rightarrow> DataRequirement list \<Rightarrow> ResolvedInputBinding \<Rightarrow> bool" where
  "backed q requirements b \<longleftrightarrow>
     (\<exists>r\<in>set requirements. \<exists>spec\<in>set (sb_input_ports (rq_consumer q)). \<exists>a\<in>set (ai_outputs (rq_accepted q)).
        carries q b r a \<and> dr_consumer_occurrence r = rq_occurrence q \<and> po_port_key spec = dr_input_port r \<and>
        dr_producer_occurrence r \<in> set (ai_completed_producers (rq_accepted q)) \<and>
        ao_producer_occurrence a = dr_producer_occurrence r \<and> ao_output_port a = dr_output_port r \<and>
        (\<forall>t. revision_target r (rq_accepted q) (rq_policy q) = Some t \<longrightarrow> ao_source_revision a = t) \<and>
        usable_for q r spec a)"

definition manifest_sound :: "Resolution \<Rightarrow> DataRequirement list \<Rightarrow> InputManifest \<Rightarrow> bool" where
  "manifest_sound q requirements m \<longleftrightarrow>
     (\<forall>b\<in>set (im_bindings m). backed q requirements b) \<and>
     (\<forall>spec\<in>set (sb_input_ports (rq_consumer q)).
        let bs = for_port m (po_port_key spec) in
        map rb_port_ordinal bs = map int [0..<length bs] \<and>
        (po_cardinality spec = PC_SINGLE \<longrightarrow> length bs \<le> 1) \<and>
        (po_cardinality spec = PC_SET \<longrightarrow> bs \<noteq> [] \<longrightarrow> po_ordering spec \<noteq> None) \<and>
        (po_required spec \<longrightarrow> bs \<noteq> [] \<or> po_port_key spec \<in> sy_input_port ` set (im_pending m)))"

lemma reads_off_backed:
  assumes "reads_off q rs m" and "b \<in> set (im_bindings m)"
  shows "backed q rs b"
proof -
  let ?k = "rb_input_port b"
  from assms obtain bs where "mset bs = mset (for_port m ?k)" and all: "list_all2 (carried q) bs (entries_at q rs ?k)"
    unfolding reads_off_def by blast
  then have "set bs = set (for_port m ?k)" by (metis set_mset_mset)
  with assms(2) have "b \<in> set bs" by (simp add: for_port_def)
  then obtain e where e: "e \<in> set (entries_at q rs ?k)" "carried q b e" using list_all2_left[OF all] by blast
  then obtain r where r: "r \<in> set rs" "e \<in> set (snd (snd (added q r)))" by (auto split: if_splits)
  obtain spec where "aimed q r spec" "producer_is_complete (rq_accepted q) (dr_producer_occurrence r)" "en_requirement e = r"
      "en_output e \<in> set (chosen q r)" "usable_for q r spec (en_output e)"
    using added_entry[OF r(2)] by blast
  moreover from this have "spec \<in> set (sb_input_ports (rq_consumer q))" "po_port_key spec = dr_input_port r"
    using port_table_entry by (auto simp: aimed_def)
  ultimately show ?thesis using r(1) e(2)
    unfolding backed_def by (intro bexI[of _ r] bexI[of _ spec] bexI[of _ "en_output e"])
      (auto simp: aimed_def chosen_def outputs_at_def producer_is_complete_def)
qed

lemma ordered_set_port: "order_port q spec es = Inr ns \<Longrightarrow> po_cardinality spec = PC_SET \<Longrightarrow> po_ordering spec \<noteq> None"
  by (cases "po_ordering spec") (auto simp: order_port_def order_entries_def Let_def)

lemma resolved_sound:
  assumes run: "resolve_declared_inputs sha256_hex render q requirements = Inr R" "rr_manifest R = Some m"
    and ports: "distinct (map po_port_key (sb_input_ports (rq_consumer q)))"
  shows "manifest_sound q requirements m"
proof -
  let ?rs = "sort_key dr_requirement_id requirements"
  note off = resolved(1)[OF run]
  have "backed q requirements b" if "b \<in> set (im_bindings m)" for b
    using reads_off_backed[OF off that] by (simp add: backed_def)
  moreover have "map rb_port_ordinal (for_port m k) = map int [0..<length (for_port m k)] \<and>
      (po_cardinality spec = PC_SINGLE \<longrightarrow> length (for_port m k) \<le> 1) \<and>
      (po_cardinality spec = PC_SET \<longrightarrow> for_port m k \<noteq> [] \<longrightarrow> po_ordering spec \<noteq> None)"
    if spec: "spec \<in> set (sb_input_ports (rq_consumer q))" and k: "k = po_port_key spec" for spec k
  proof -
    have ord: "map rb_port_ordinal (for_port m k) = map int [0..<length (entries_at q ?rs k)]" using off unfolding reads_off_def by blast
    from arg_cong[OF this, of length] have len: "length (for_port m k) = length (entries_at q ?rs k)" by simp
    show ?thesis
    proof (cases "entries_at q ?rs k = []")
      case False
      have "\<forall>k. entries_at q ?rs k \<noteq> [] \<longrightarrow> (\<exists>spec ns. map_of (port_table (rq_consumer q)) k = Some spec \<and>
          order_port q spec (entries_at q ?rs k) = Inr ns)"
        using off unfolding reads_off_def by blast
      with False obtain spec' ns where "map_of (port_table (rq_consumer q)) k = Some spec'" and ns: "order_port q spec' (entries_at q ?rs k) = Inr ns"
        by blast
      then have "spec' = spec" using port_table_unique[OF ports spec] by (simp add: k)
      with ns have "order_port q spec (entries_at q ?rs k) = Inr ns" by simp
      from order_port_positions(3)[OF this] ordered_set_port[OF this] show ?thesis using ord len by simp
    next
      case True
      then have "for_port m k = []" using len unfolding True by simp
      then show ?thesis by simp
    qed
  qed
  ultimately show ?thesis using resolved(4)[OF run] unfolding manifest_sound_def Let_def by blast
qed

lemma resolved_frozen:
  assumes "resolve_declared_inputs sha256_hex render q requirements = Inr R" and "rr_manifest R = Some m"
  shows "is_frozen m \<longleftrightarrow> rr_problems R = []"
proof -
  let ?rs = "sort_key dr_requirement_id requirements"
  have "set (im_pending m) = (\<Union>r\<in>set ?rs. set (fst (snd (added q r))))" using resolved(1)[OF assms] unfolding reads_off_def by blast
  moreover have "fst (added q r) = [] \<longleftrightarrow> fst (snd (added q r)) = []" if "r \<in> set ?rs" for r
    using that added_pending(1)[of q r] resolved(2,3)[OF assms] by (cases "fst (added q r)") auto
  then have "set (rr_problems R) = {} \<longleftrightarrow> (\<Union>r\<in>set ?rs. set (fst (snd (added q r)))) = {}"
    unfolding resolved(2)[OF assms] by auto
  ultimately show ?thesis by (simp add: is_frozen_def flip: set_empty)
qed

lemma unresolved_blocked:
  assumes "resolve_declared_inputs sha256_hex render q requirements = Inr R" and "rr_manifest R = None"
  shows "\<exists>p\<in>set (rr_problems R). rp_kind p \<noteq> RPK_PENDING_PRODUCER"
  using assms unfolding resolve_declared_inputs_def Let_def by (auto simp: rbind_Inr_iff split: if_splits)

text \<open>Where no speculation is authorised, every binding is firm, so a frozen manifest binds every required port firmly.\<close>

lemma resolved_firm:
  assumes "manifest_sound q requirements m" and "is_frozen m" and "pl_provisional_ports (rq_policy q) = []"
  shows "required_ports_satisfied m (rq_consumer q)"
  unfolding required_ports_satisfied_def
proof (intro ballI impI)
  fix spec assume "spec \<in> set (sb_input_ports (rq_consumer q))" "po_required spec"
  with assms(1,2) have "for_port m (po_port_key spec) \<noteq> []" by (auto simp: manifest_sound_def is_frozen_def Let_def)
  then obtain b where b: "b \<in> set (for_port m (po_port_key spec))" by (cases "for_port m (po_port_key spec)") auto
  then have "backed q requirements b" using assms(1) by (auto simp: manifest_sound_def for_port_def)
  then have "\<not> rb_provisional b" using assms(3) by (auto simp: backed_def carries_def usable_for_def)
  with b show "\<exists>b\<in>set (for_port m (po_port_key spec)). \<not> rb_provisional b" by blast
qed

end
