(* ===== verification/Readiness_Correct.thy ===== *)
theory Readiness_Correct
  imports Allocator_Correct Plan_Checks_Correct Input_Resolution_Correct
begin

text \<open>
  What the readiness judgement promises: it answers \<open>READY_CANDIDATE\<close> exactly when every condition of the gates holds, every gate
  answers only with its own reasons, only such an answer can be admitted, and the allocator accepts what was admitted. The last
  sections show what the judgement does not cover: outcomes of predecessors are not part of the read set.
\<close>

section \<open>The conditions of the gates\<close>

definition intact :: "Context \<Rightarrow> TaskSemanticBindingV1 \<Rightarrow> bool" where
  "intact c b \<longleftrightarrow>
     pv_integrity_error (cx_plan c) = None \<and> sb_task_id b = tv_task_id (cx_view c) \<and>
     (\<exists>s. by_occurrence (pv_snapshot (cx_plan c)) (tv_occurrence_id (cx_view c)) = Some s \<and>
        oc_task_id s = tv_task_id (cx_view c) \<and> oc_form s = sb_form b)"

definition wanted :: "Context \<Rightarrow> TaskSemanticBindingV1 \<Rightarrow> bool" where
  "wanted c b \<longleftrightarrow>
     pv_mission_admits_work (cx_plan c) \<and> plan_adopts (cx_plan c) (tv_occurrence_id (cx_view c)) \<and>
     (\<exists>a. map_of (pv_obligation_accounts (cx_plan c)) (sb_obligation_id b) = Some a \<and>
        av_lifecycle a = OL_UNSATISFIED \<and> av_has_admitted_demand a) \<and>
     tv_dispatch_candidacy (cx_view c) = DC_ALLOWS_DISPATCH"

text \<open>A predecessor that released its constraint; where settlements are supplied, a constraint that waits for settlement also
  needs the settlement of exactly this plan revision, contract and dispatch generation.\<close>

definition released :: "Context \<Rightarrow> OrderConstraint \<Rightarrow> bool" where
  "released c k \<longleftrightarrow>
     (\<exists>outcome. map_of (cx_resolutions c) (or_before k) = Some outcome \<and> order_released outcome (or_release_condition k) \<and>
        (\<forall>settlements. cx_settlements c = Some settlements \<longrightarrow> or_release_condition k = RC_SETTLED_TERMINAL \<longrightarrow>
           (\<exists>b s. binding_for_occurrence (pv_snapshot (cx_plan c)) (or_before k) = Inr b \<and>
              map_of settlements (or_before k) = Some s \<and> settles (cx_plan c) k outcome b s)))"

definition predecessors_released :: "Context \<Rightarrow> bool" where
  "predecessors_released c \<longleftrightarrow>
     (\<forall>k\<in>set (nw_order_constraints (pv_snapshot (cx_plan c))). or_after k = tv_occurrence_id (cx_view c) \<longrightarrow> released c k)"

definition inputs_bound :: "Context \<Rightarrow> TaskSemanticBindingV1 \<Rightarrow> bool" where
  "inputs_bound c b \<longleftrightarrow>
     (\<exists>r m. cx_input_result c = Some r \<and> rr_problems r = [] \<and> rr_manifest r = Some m \<and> is_frozen m \<and> required_ports_satisfied m b)"

definition licenses :: "Context \<Rightarrow> TaskSemanticBindingV1 \<Rightarrow> ValidityWitness \<Rightarrow> bool" where
  "licenses c b w \<longleftrightarrow>
     vw_purpose w = WP_START \<and> r_kind (vw_consumer_ref w) = TR_TASK \<and> r_id (vw_consumer_ref w) = sb_task_id b \<and>
     (\<exists>epoch. map_of (pv_scope_epochs (cx_plan c)) (vw_scope_id w) = Some epoch \<and> is_fresh_for w (cx_now_ms c) epoch) \<and>
     vw_availability w \<noteq> AV_UNAVAILABLE \<and> vw_truth w = TV_TRUE \<and> vw_decision w = WD_USABLE"

definition preconditions_witnessed :: "Context \<Rightarrow> TaskSemanticBindingV1 \<Rightarrow> bool" where
  "preconditions_witnessed c b \<longleftrightarrow>
     ev_observer_available (cx_evidence c) \<and>
     (\<forall>d\<in>set (start_preconditions b). \<exists>w. map_of (ev_witnesses (cx_evidence c)) d = Some w \<and> licenses c b w)"

definition approved :: "Context \<Rightarrow> bool" where
  "approved c \<longleftrightarrow> ap_decision (tv_approval (cx_view c)) = AD_NOT_REQUIRED \<or> is_effective (tv_approval (cx_view c)) (cx_now_ms c)"

definition binding_current :: "Context \<Rightarrow> TaskSemanticBindingV1 \<Rightarrow> bool" where
  "binding_current c b \<longleftrightarrow>
     \<not> moved (map_of (pv_dispatch_generations (cx_plan c)) (tv_occurrence_id (cx_view c))) (sb_dispatch_generation b) \<and>
     \<not> moved (map_of (pv_input_binding_revisions (cx_plan c)) (sb_task_id b)) (sb_input_binding_revision b)"

definition undisturbed :: "Context \<Rightarrow> bool" where
  "undisturbed c \<longleftrightarrow>
     (\<forall>x\<in>set (ev_pending_operations (cx_evidence c)). tv_occurrence_id (cx_view c) \<in> set (op_conflicts_with x) \<longrightarrow> effect_settled x)"

definition cleared :: "Context \<Rightarrow> TaskSemanticBindingV1 \<Rightarrow> bool" where
  "cleared c b \<longleftrightarrow>
     tv_binding (cx_view c) = Some b \<and> intact c b \<and> sb_form b = PRIMITIVE \<and> wanted c b \<and> predecessors_released c \<and>
     inputs_bound c b \<and> preconditions_witnessed c b \<and> approved c \<and> binding_current c b \<and> undisturbed c"

section \<open>Each gate tests its condition\<close>

lemmas gate_basics = refused_def passed_def refuse_any_def

lemma integrity_gate_passes: "integrity_gate c = passed \<longleftrightarrow> (\<exists>b. tv_binding (cx_view c) = Some b \<and> intact c b)"
  by (cases "pv_integrity_error (cx_plan c)")
    (auto simp: integrity_gate_def Let_def gate_basics intact_def occurrence_def lookup_def split: option.splits)

lemma refinement_gate_passes: "tv_binding (cx_view c) = Some b \<Longrightarrow> refinement_gate c = passed \<longleftrightarrow> sb_form b = PRIMITIVE"
  by (cases "sb_form b") (auto simp: refinement_gate_def gate_basics)

lemma selection_gate_passes: "tv_binding (cx_view c) = Some b \<Longrightarrow> selection_gate c = passed \<longleftrightarrow> wanted c b"
  by (auto simp: selection_gate_def Let_def gate_basics wanted_def split: option.splits)

lemma order_problem_none: "order_problem c k = Inr [] \<longleftrightarrow> (or_after k = tv_occurrence_id (cx_view c) \<longrightarrow> released c k)"
  by (auto simp: order_problem_def released_def Let_def rbind_Inr_iff split: option.splits if_splits)

lemma order_gate_passes: "order_gate c = passed \<longleftrightarrow> predecessors_released c"
proof -
  have "(\<exists>ds. map_result f xs = Inr ds \<and> concat ds = []) \<longleftrightarrow> (\<forall>x\<in>set xs. f x = Inr [])"
    for f :: "OrderConstraint \<Rightarrow> contract_error + ReadinessDetail list" and xs
    by (induction xs) (auto simp: rbind_Inr_iff)
  note none = this
  have "order_gate c = passed \<longleftrightarrow> (\<exists>ds. map_result (order_problem c) (nw_order_constraints (pv_snapshot (cx_plan c))) = Inr ds \<and> concat ds = [])"
    unfolding order_gate_def gate_basics rbind_Inr_iff by (auto split: if_splits)
  then have "order_gate c = passed \<longleftrightarrow> (\<forall>k\<in>set (nw_order_constraints (pv_snapshot (cx_plan c))). order_problem c k = Inr [])"
    unfolding none .
  then show ?thesis by (simp add: order_problem_none predecessors_released_def)
qed

lemma data_gate_passes: "tv_binding (cx_view c) = Some b \<Longrightarrow> data_gate c = passed \<longleftrightarrow> inputs_bound c b"
  by (auto simp: data_gate_def gate_basics inputs_bound_def manifest_problems_def split: option.splits if_splits)

lemma witness_verdict_none:
  "witness_verdict w d (sb_task_id b) (pv_scope_epochs (cx_plan c)) (cx_now_ms c) = None \<longleftrightarrow> (\<exists>x. w = Some x \<and> licenses c b x)"
  by (auto simp: witness_verdict_def licenses_def split: option.splits)

lemma findings_keys:
  "map_of (fold (\<lambda>x. case f x of None \<Rightarrow> (\<lambda>d. d) | Some (r, y) \<Rightarrow> dict_append r y) xs d) r \<noteq> None \<longleftrightarrow>
     map_of d r \<noteq> None \<or> (\<exists>x\<in>set xs. \<exists>y. f x = Some (r, y))"
  by (induction xs arbitrary: d) (auto simp: dict_append_def split: option.splits)

lemma findings_nonempty:
  "(\<And>k. map_of d k \<noteq> Some []) \<Longrightarrow> map_of (fold (\<lambda>x. case f x of None \<Rightarrow> (\<lambda>d. d) | Some (r, y) \<Rightarrow> dict_append r y) xs d) k \<noteq> Some []"
  by (induction xs arbitrary: d) (auto simp: dict_append_def split: option.splits)

lemma verdict_reason: "witness_verdict w d t es n = Some (r, x) \<Longrightarrow> r \<in> set EVIDENCE_PRECEDENCE"
  by (auto simp: witness_verdict_def EVIDENCE_PRECEDENCE_def split: option.splits if_splits)

lemma evidence_gate_passes:
  assumes "tv_binding (cx_view c) = Some b"
  shows "evidence_gate c = passed \<longleftrightarrow> preconditions_witnessed c b"
proof -
  let ?v = "\<lambda>d. witness_verdict (map_of (ev_witnesses (cx_evidence c)) d) d (sb_task_id b) (pv_scope_epochs (cx_plan c)) (cx_now_ms c)"
  have "find (\<lambda>r. map_of (witness_findings c b) r \<noteq> None) EVIDENCE_PRECEDENCE = None \<longleftrightarrow>
      (\<forall>r\<in>set EVIDENCE_PRECEDENCE. \<not> (\<exists>d\<in>set (start_preconditions b). \<exists>x. ?v d = Some (r, x)))"
    unfolding find_None_iff witness_findings_def findings_keys by (simp add: Ball_def)
  also have "\<dots> \<longleftrightarrow> (\<forall>d\<in>set (start_preconditions b). ?v d = None)"
  proof (intro iffI ballI)
    fix d assume "\<forall>r\<in>set EVIDENCE_PRECEDENCE. \<not> (\<exists>d\<in>set (start_preconditions b). \<exists>x. ?v d = Some (r, x))"
      and "d \<in> set (start_preconditions b)"
    then show "?v d = None" by (cases "?v d") (auto dest: verdict_reason)
  qed simp
  finally have "find (\<lambda>r. map_of (witness_findings c b) r \<noteq> None) EVIDENCE_PRECEDENCE = None \<longleftrightarrow>
      (\<forall>d\<in>set (start_preconditions b). \<exists>w. map_of (ev_witnesses (cx_evidence c)) d = Some w \<and> licenses c b w)"
    by (simp only: witness_verdict_none)
  then show ?thesis
    by (cases "find (\<lambda>r. map_of (witness_findings c b) r \<noteq> None) EVIDENCE_PRECEDENCE")
      (simp_all add: evidence_gate_def assms Let_def gate_basics preconditions_witnessed_def del: not_None_eq)
qed

lemma approval_gate_passes: "approval_gate c = passed \<longleftrightarrow> approved c"
  by (simp add: approval_gate_def Let_def gate_basics approved_def)

lemma stale_gate_passes: "tv_binding (cx_view c) = Some b \<Longrightarrow> stale_gate c = passed \<longleftrightarrow> binding_current c b"
  by (simp add: stale_gate_def gate_basics binding_current_def)

lemma operation_gate_passes: "operation_gate c = passed \<longleftrightarrow> undisturbed c"
  by (auto simp: operation_gate_def gate_basics undisturbed_def filter_empty_conv)

lemma all_gates_pass: "(\<forall>g\<in>set (map fst GATE_SEQUENCE). g c = passed) \<longleftrightarrow> (\<exists>b. cleared c b)"
proof (cases "tv_binding (cx_view c)")
  case None
  then show ?thesis by (simp add: GATE_SEQUENCE_def integrity_gate_passes cleared_def)
next
  case (Some b)
  show ?thesis
    by (simp add: GATE_SEQUENCE_def integrity_gate_passes refinement_gate_passes[OF Some] selection_gate_passes[OF Some]
      order_gate_passes data_gate_passes[OF Some] evidence_gate_passes[OF Some] approval_gate_passes stale_gate_passes[OF Some]
      operation_gate_passes cleared_def Some)
qed

section \<open>Each gate has its own reasons\<close>

lemma evidence_gate_reason:
  assumes "evidence_gate c = Inr (Some (r, ds))"
  shows "r \<in> set EVIDENCE_PRECEDENCE \<and> ds \<noteq> []"
proof (cases "ev_observer_available (cx_evidence c)")
  case True
  with assms obtain b where "tv_binding (cx_view c) = Some b"
    by (auto simp: evidence_gate_def gate_basics split: option.splits)
  with assms True have found: "find (\<lambda>r. map_of (witness_findings c b) r \<noteq> None) EVIDENCE_PRECEDENCE = Some r"
    and ds: "ds = dict_get (witness_findings c b) r []"
    by (auto simp: evidence_gate_def gate_basics Let_def split: option.splits)
  have "map_of (witness_findings c b) r \<noteq> Some []" unfolding witness_findings_def by (rule findings_nonempty) simp
  with found ds show ?thesis by (auto simp: find_Some_iff dict_get_def split: option.splits)
qed (use assms in \<open>auto simp: evidence_gate_def gate_basics EVIDENCE_PRECEDENCE_def\<close>)

lemma gate_reasons:
  assumes "(g, rs) \<in> set GATE_SEQUENCE" and "g c = Inr (Some (r, ds))"
  shows "r \<in> set rs \<and> ds \<noteq> []"
proof -
  from assms(1) consider "g = integrity_gate" "rs = [GRAPH_INTEGRITY]" | "g = refinement_gate" "rs = [NEEDS_REFINEMENT]"
    | "g = selection_gate" "rs = [NOT_SELECTED]" | "g = order_gate" "rs = [WAITING_ORDER]" | "g = data_gate" "rs = [WAITING_DATA]"
    | "g = evidence_gate" "rs = EVIDENCE_PRECEDENCE" | "g = approval_gate" "rs = [WAITING_APPROVAL]"
    | "g = stale_gate" "rs = [STALE_BINDING]" | "g = operation_gate" "rs = [WAITING_OPERATION_UNKNOWN]"
    by (auto simp: GATE_SEQUENCE_def)
  then show ?thesis
  proof cases
    case 1 with assms(2) show ?thesis by (auto simp: integrity_gate_def Let_def gate_basics split: option.splits sum.splits if_splits)
  next
    case 2 with assms(2) show ?thesis by (auto simp: refinement_gate_def gate_basics split: option.splits if_splits)
  next
    case 3 with assms(2) show ?thesis by (auto simp: selection_gate_def Let_def gate_basics split: option.splits if_splits)
  next
    case 4 with assms(2) show ?thesis by (auto simp: order_gate_def gate_basics rbind_Inr_iff split: if_splits)
  next
    case 5 with assms(2) show ?thesis by (auto simp: data_gate_def gate_basics split: option.splits if_splits)
  next
    case 6 with assms(2) evidence_gate_reason show ?thesis by blast
  next
    case 7 with assms(2) show ?thesis by (auto simp: approval_gate_def Let_def gate_basics split: if_splits)
  next
    case 8 with assms(2) show ?thesis by (auto simp: stale_gate_def gate_basics split: option.splits if_splits)
  next
    case 9 with assms(2) show ?thesis by (auto simp: operation_gate_def gate_basics split: if_splits)
  qed
qed

lemma first_refusal_reason:
  assumes "\<forall>g\<in>set gs. \<forall>r ds. g c = Inr (Some (r, ds)) \<longrightarrow> r \<noteq> READY_CANDIDATE"
    and "first_refusal gs c = Inr (reason, details)"
  shows "reason = READY_CANDIDATE \<longleftrightarrow> (\<forall>g\<in>set gs. g c = passed)"
  using assms
proof (induction gs)
  case (Cons g gs)
  from Cons.prems(2) obtain r where r: "g c = Inr r" "(case r of None \<Rightarrow> first_refusal gs c | Some x \<Rightarrow> Inr x) = Inr (reason, details)"
    by (auto simp: rbind_Inr_iff)
  show ?case
  proof (cases r)
    case None
    with r Cons.IH Cons.prems(1) show ?thesis by (simp add: passed_def)
  next
    case (Some x)
    then have "g c = Inr (Some (reason, details))" using r by simp
    with Cons.prems(1) show ?thesis by (auto simp: passed_def)
  qed
qed simp

lemma gate_not_ready: "g \<in> set (map fst GATE_SEQUENCE) \<Longrightarrow> g c = Inr (Some (r, ds)) \<Longrightarrow> r \<noteq> READY_CANDIDATE"
proof -
  assume "g \<in> set (map fst GATE_SEQUENCE)" and refusal: "g c = Inr (Some (r, ds))"
  then obtain rs where rs: "(g, rs) \<in> set GATE_SEQUENCE" by auto
  moreover have "READY_CANDIDATE \<notin> set rs" using rs by (auto simp: GATE_SEQUENCE_def EVIDENCE_PRECEDENCE_def)
  ultimately show ?thesis using gate_reasons[OF rs refusal] by blast
qed

lemma report_parts:
  assumes "evaluate_readiness content_hash_of sha256_hex c = Inr R"
  shows "\<exists>details. first_refusal (map fst GATE_SEQUENCE) c = Inr (rt_reason R, details)"
    "build_read_set content_hash_of (cx_view c) (cx_plan c) (cx_evidence c) (cx_input_result c) = Inr (rt_read_set R)"
    "rt_occurrence_id R = tv_occurrence_id (cx_view c)" "rt_task_id R = tv_task_id (cx_view c)"
    "rt_input_manifest_hash R =
       (case cx_input_result c of None \<Rightarrow> None | Some r \<Rightarrow> (case rr_manifest r of None \<Rightarrow> None | Some m \<Rightarrow> manifest_hash sha256_hex m))"
  using assms by (auto simp: evaluate_readiness_def Let_def rbind_Inr_iff split: option.splits)

lemma ready_iff_cleared:
  assumes "evaluate_readiness content_hash_of sha256_hex c = Inr R"
  shows "rt_reason R = READY_CANDIDATE \<longleftrightarrow> (\<exists>b. cleared c b)"
proof -
  from report_parts(1)[OF assms] obtain details where "first_refusal (map fst GATE_SEQUENCE) c = Inr (rt_reason R, details)" by blast
  from first_refusal_reason[OF _ this] gate_not_ready have "rt_reason R = READY_CANDIDATE \<longleftrightarrow> (\<forall>g\<in>set (map fst GATE_SEQUENCE). g c = passed)"
    by blast
  then show ?thesis unfolding all_gates_pass .
qed

text \<open>C13. Readiness is exact. Whenever the judgement returns a report, the report says \<open>READY_CANDIDATE\<close> if and only if the
  task has a semantic binding for which \<open>cleared\<close> holds: the plan has no integrity error, binding and occurrence agree on the task
  and its form, and the form is primitive; the Mission admits work, the occurrence is adopted, its obligation is unsatisfied with
  an admitted demand, and the task's candidacy allows dispatch; every ORDER predecessor has released it, with the matching
  settlement where settlements are supplied and the constraint asks for one; the input resolution reports no problem and gives a
  frozen manifest that binds every required port firmly; the observer is available and every start precondition has a true and
  usable witness, not marked unavailable and fresh at the known epoch of its scope, issued to this task for starting; the
  approval is not required, or is granted and not expired; dispatch generation and input binding revision have not moved; and
  every pending operation that conflicts with the occurrence has settled its effect.\<close>

theorem readiness_exact:
  assumes "evaluate_readiness content_hash_of sha256_hex c = Inr R"
  shows "rt_reason R = READY_CANDIDATE \<longleftrightarrow> (\<exists>b. cleared c b)"
  by (rule ready_iff_cleared[OF assms])

text \<open>C27. The verdicts are typed by their gates. A gate that refuses answers with one of the reasons declared for it and says at
  least one concrete thing; the declared reasons, with the final \<open>READY_CANDIDATE\<close>, list each of the twelve reasons exactly once,
  so a reason names the gate that gave it.\<close>

theorem reasons_name_their_gate:
  "(\<forall>(g, rs)\<in>set GATE_SEQUENCE. \<forall>c r ds. g c = Inr (Some (r, ds)) \<longrightarrow> r \<in> set rs \<and> ds \<noteq> []) \<and>
   distinct gate_precedence \<and> set gate_precedence = UNIV"
proof -
  have "r \<in> set gate_precedence" for r by (cases r) (simp_all add: gate_precedence_def GATE_SEQUENCE_def EVIDENCE_PRECEDENCE_def)
  then have "set gate_precedence = UNIV" by blast
  moreover have "distinct gate_precedence" by (simp add: gate_precedence_def GATE_SEQUENCE_def EVIDENCE_PRECEDENCE_def)
  moreover have "\<forall>(g, rs)\<in>set GATE_SEQUENCE. \<forall>c r ds. g c = Inr (Some (r, ds)) \<longrightarrow> r \<in> set rs \<and> ds \<noteq> []"
    using gate_reasons by blast
  ultimately show ?thesis by blast
qed

section \<open>Admission\<close>

lemma admission_parts:
  assumes "admit_for_dispatch sha256_hex R v p m now_ms = Inr t"
  shows "rt_reason R = READY_CANDIDATE" "el_gate_passed t" "el_task_id t = tv_task_id v" "is_frozen m"
    "rt_input_manifest_hash R = Some (sha256_hex (manifest_payload m))" "el_input_manifest_hash t = sha256_hex (manifest_payload m)"
    "el_read_set t = rt_read_set R" "\<exists>b. tv_binding v = Some b \<and> sb_form b = PRIMITIVE"
  using assms
  by (auto simp: admit_for_dispatch_def manifest_hash_def rbind_Inr_iff split: if_splits option.splits)

text \<open>C14. What is admitted was ready, and the allocator takes it. When \<open>admit_for_dispatch\<close> builds a record from the report of a
  judgement, every condition of readiness held in that judgement, the task is primitive, the manifest admitted is frozen and
  has the hash of the one the judgement checked, and the record carries the judgement's own read set. The allocator's frontier
  then accepts the record for a running Task with that id, and never for a task that is bound as compound.\<close>

theorem admission_sound:
  assumes "evaluate_readiness content_hash_of sha256_hex c = Inr R"
    and "admit_for_dispatch sha256_hex R (cx_view c) (cx_plan c) m now_ms = Inr t"
    and "tk_id task = el_task_id t" and "\<not> tk_paused task" and "tk_status task \<notin> set TERMINAL_TASK"
  shows "(\<exists>b. cleared c b) \<and>
    (\<exists>r m'. cx_input_result c = Some r \<and> rr_manifest r = Some m' \<and> is_frozen m' \<and> is_frozen m \<and>
       sha256_hex (manifest_payload m) = sha256_hex (manifest_payload m')) \<and>
    el_read_set t = rt_read_set R \<and>
    frontier_verdict [(tk_id task, PRIMITIVE)] [(tk_id task, t)] task = Inr t \<and>
    frontier_verdict [(tk_id task, COMPOUND)] [(tk_id task, t)] task = Inl NEEDS_REFINEMENT"
proof -
  note parts = admission_parts[OF assms(2)]
  from parts(1) ready_iff_cleared[OF assms(1)] have ready: "\<exists>b. cleared c b" by blast
  then obtain r m' where m': "cx_input_result c = Some r" "rr_manifest r = Some m'" "is_frozen m'"
    by (auto simp: cleared_def inputs_bound_def)
  with report_parts(5)[OF assms(1)] parts(5) have "sha256_hex (manifest_payload m) = sha256_hex (manifest_payload m')"
    by (simp add: manifest_hash_def)
  moreover have "frontier_verdict [(tk_id task, PRIMITIVE)] [(tk_id task, t)] task = Inr t"
    "frontier_verdict [(tk_id task, COMPOUND)] [(tk_id task, t)] task = Inl NEEDS_REFINEMENT"
    using parts(2) assms(3-5) by (simp_all add: frontier_verdict_def legacy_gate_reason_def)
  ultimately show ?thesis using ready m' parts(4,7) by blast
qed

section \<open>Frontiers\<close>

lemma members_get:
  "set (dict_get (members_by_reason p reports reasons) r []) =
     {i. \<exists>x. (i, x) \<in> set reports \<and> plan_adopts p i \<and> rt_reason x = r \<and> r \<in> set reasons}"
proof -
  have "set (dict_get (fold (\<lambda>(i, x). if plan_adopts p i \<and> rt_reason x \<in> set reasons then dict_append (rt_reason x) i else (\<lambda>d. d)) xs d) r []) =
      set (dict_get d r []) \<union> {i. \<exists>x. (i, x) \<in> set xs \<and> plan_adopts p i \<and> rt_reason x = r \<and> r \<in> set reasons}"
    for xs :: "(string \<times> ReadinessReport) list" and d
    by (induction xs arbitrary: d) (auto simp: dict_get_append split: if_splits)
  then show ?thesis by (simp add: members_by_reason_def)
qed

lemma frontier_members_exact:
  "set (frontier_members p reports reasons) = {i. \<exists>x. (i, x) \<in> set reports \<and> plan_adopts p i \<and> rt_reason x \<in> set reasons}"
proof -
  have all: "r \<in> set gate_precedence" for r by (cases r) (simp_all add: gate_precedence_def GATE_SEQUENCE_def EVIDENCE_PRECEDENCE_def)
  show ?thesis using all by (auto simp: frontier_members_def members_get)
qed

text \<open>The two frontiers are exact and disjoint. The execution frontier holds exactly the adopted occurrences whose report says
  \<open>READY_CANDIDATE\<close>, the planning frontier exactly those whose report names work the planner owes, and with one report per
  occurrence none is in both.\<close>

theorem frontiers_exact:
  assumes "distinct (map fst reports)"
  shows "set (execution_frontier p reports) = {i. plan_adopts p i \<and> (\<exists>x. map_of reports i = Some x \<and> ready x)} \<and>
    set (planning_frontier p reports) = {i. plan_adopts p i \<and> (\<exists>x. map_of reports i = Some x \<and> rt_reason x \<in> set PLANNING_REASONS)} \<and>
    set (execution_frontier p reports) \<inter> set (planning_frontier p reports) = {}"
proof -
  have mem: "(i, x) \<in> set reports \<longleftrightarrow> map_of reports i = Some x" for i x using assms by simp
  show ?thesis
    unfolding execution_frontier_def planning_frontier_def frontier_members_exact mem
    by (auto simp: EXECUTION_REASONS_def PLANNING_REASONS_def ready_def)
qed

section \<open>What the read set does not hold\<close>

definition elsewhere ::
  "Context \<Rightarrow> (string \<times> OccurrenceOutcome) list \<Rightarrow> (string \<times> SettledTerminalOccurrence) list option \<Rightarrow> bool \<Rightarrow> bool \<Rightarrow> Context" where
  "elsewhere c outcomes settlements admits observes =
     c\<lparr>cx_resolutions := outcomes, cx_settlements := settlements,
       cx_plan := (cx_plan c)\<lparr>pv_mission_admits_work := admits\<rparr>,
       cx_evidence := (cx_evidence c)\<lparr>ev_observer_available := observes\<rparr>\<rparr>"

lemma read_set_elsewhere:
  "build_read_set h (cx_view (elsewhere c rs ss a k)) (cx_plan (elsewhere c rs ss a k)) (cx_evidence (elsewhere c rs ss a k))
     (cx_input_result (elsewhere c rs ss a k)) =
   build_read_set h (cx_view c) (cx_plan c) (cx_evidence c) (cx_input_result c)"
  by (simp add: elsewhere_def build_read_set_def read_set_with_def task_control_reads_def method_reads_def current_method_owners_def
    obligation_reads_def fact_reads_def start_witnesses_def scope_reads_def cong: option.case_cong)

text \<open>C28. The read set does not cover everything the gates read. The outcomes and settlements of predecessors, whether the Mission
  admits work and whether the observer answers decide the verdict, but two judgements that differ in nothing else carry the
  same read set, so the cache test cannot tell their reports apart, although one can be ready and the other refused.\<close>

theorem read_set_misses_outcomes:
  assumes "evaluate_readiness content_hash_of sha256_hex c = Inr R"
    and "evaluate_readiness content_hash_of sha256_hex (elsewhere c outcomes settlements admits observes) = Inr R'"
  shows "rt_read_set R' = rt_read_set R \<and> stale_after R (rt_read_set R') = stale_after R (rt_read_set R)"
  using report_parts(2)[OF assms(1)] report_parts(2)[OF assms(2)] unfolding read_set_elsewhere by simp

section \<open>From the resolver to the data gate\<close>

text \<open>C15. The resolver decides what the data gate sees. Whenever the resolver returns for a consumer with distinct port keys:
  without a manifest it names a problem other than a pending producer. With a manifest, every binding carries the identity of an
  accepted output of a finished producer, at the output port named by a requirement that is aimed at this consumer and one of its
  ports, and of the revision that the source policy gives for the requirement where it gives one; that output is disclosable, of
  the required schema, which is the port's, or of one registered as compatible with it, provisional only where
  speculation is authorised, and covered by a usable and fresh witness of an accepted purpose, issued to this consumer over the
  output's support, or by none where the policy asks for none (the epoch of the witness's scope may be unknown only where the
  policy allows it). The bindings of a port stand at positions 0, 1, 2 and so on, a single-valued port has one at most, a
  set-valued port that is bound has an ordering, a required port is bound or waits for its producer, and the manifest is frozen
  exactly when no problem is reported. And where no speculation is authorised, the data gate passes this result for that consumer
  exactly when no problem is reported.\<close>

theorem resolved_inputs_sound:
  assumes "resolve_declared_inputs sha256_hex render q requirements = Inr R"
    and "distinct (map po_port_key (sb_input_ports (rq_consumer q)))"
    and "tv_binding (cx_view c) = Some (rq_consumer q)" and "cx_input_result c = Some R"
  shows "(case rr_manifest R of
      None \<Rightarrow> \<exists>p\<in>set (rr_problems R). rp_kind p \<noteq> RPK_PENDING_PRODUCER
    | Some m \<Rightarrow> manifest_sound q requirements m \<and> (is_frozen m \<longleftrightarrow> rr_problems R = [])) \<and>
    (pl_provisional_ports (rq_policy q) = [] \<longrightarrow> (data_gate c = passed \<longleftrightarrow> rr_problems R = []))"
proof (cases "rr_manifest R")
  case None
  from unresolved_blocked[OF assms(1) None] show ?thesis
    using None assms(4) unfolding data_gate_passes[OF assms(3)] inputs_bound_def by auto
next
  case (Some m)
  note sound = resolved_sound[OF assms(1) Some assms(2)] and frozen = resolved_frozen[OF assms(1) Some]
  have "inputs_bound c (rq_consumer q) \<longleftrightarrow> rr_problems R = []" if "pl_provisional_ports (rq_policy q) = []"
    using resolved_firm[OF sound _ that] frozen Some assms(4) by (auto simp: inputs_bound_def)
  then show ?thesis using sound frozen Some by (simp add: data_gate_passes[OF assms(3)])
qed

section \<open>A sample judgement\<close>

definition zero_hash :: string where
  "zero_hash = replicate 64 (CHR ''0'')"

definition ordered_sample :: TaskNetworkSnapshot where
  "ordered_sample = sample_plan\<lparr>nw_order_constraints := [\<lparr>or_before = ''x'', or_after = ''y'', or_release_condition = RC_ACCEPTED\<rparr>]\<rparr>"

definition open_account_view :: ObligationAccountView where
  "open_account_view =
     \<lparr>av_obligation_id = ''ob'', av_failure_count = 0, av_consumed_cost_micros = 0, av_consumed_attempts = 0, av_consumed_tokens = 0,
      av_has_admitted_demand = True, av_fuel_limit = 1, av_fuel_used = 0, av_expansions = 0, av_shape_changes = 0,
      av_lifecycle = OL_UNSATISFIED, av_resolution_ref = None\<rparr>"

definition sample_judgement :: Context where
  "sample_judgement =
     \<lparr>cx_view = \<lparr>tv_occurrence_id = ''y'', tv_task_id = ''y'',
        tv_binding = Some ((plan_binding ''y'' PRIMITIVE)\<lparr>sb_contract_hash := zero_hash\<rparr>), tv_legacy_status = ''READY'',
        tv_approval = no_approval_required, tv_approval_revision = 0, tv_dispatch_candidacy = DC_ALLOWS_DISPATCH\<rparr>,
      cx_plan = \<lparr>pv_snapshot = ordered_sample, pv_mission_admits_work = True, pv_requirements_revision = 0, pv_manager_epoch = 0,
        pv_budget_grant_revision = 0, pv_scope_epochs = [(''scope'', 1)], pv_dispatch_generations = [],
        pv_input_binding_revisions = [], pv_obligation_accounts = [(''ob'', open_account_view)], pv_integrity_error = None,
        pv_projected = reachable_occurrences ordered_sample\<rparr>,
      cx_resolutions = [(''x'', OO_ACCEPTED)],
      cx_evidence = \<lparr>ev_witnesses = [], ev_observer_available = True, ev_pending_operations = [], ev_support_sets = [],
        ev_operation_range_revision = 0\<rparr>,
      cx_input_result = Some \<lparr>rr_manifest = Some \<lparr>im_consumer_task_ref = ''y'', im_bindings = [], im_pending = []\<rparr>, rr_problems = []\<rparr>,
      cx_now_ms = 0, cx_settlements = None\<rparr>"

lemma sample_judged:
  "case evaluate_readiness (\<lambda>j. zero_hash) (\<lambda>j. zero_hash) sample_judgement of Inl e \<Rightarrow> False
   | Inr R \<Rightarrow> rt_reason R = READY_CANDIDATE \<and> \<not> stale_after R (rt_read_set R) \<and>
      (case admit_for_dispatch (\<lambda>j. zero_hash) R (cx_view sample_judgement) (cx_plan sample_judgement)
          \<lparr>im_consumer_task_ref = ''y'', im_bindings = [], im_pending = []\<rparr> 0 of Inl e \<Rightarrow> False | Inr t \<Rightarrow> el_task_id t = ''y'')"
  by code_simp

lemma sample_refused:
  "case evaluate_readiness (\<lambda>j. zero_hash) (\<lambda>j. zero_hash) (elsewhere sample_judgement [(''x'', OO_FAILED)] None True True) of Inl e \<Rightarrow> False
   | Inr R \<Rightarrow> rt_reason R = WAITING_ORDER"
  by code_simp

lemma sample_report:
  obtains R where "evaluate_readiness (\<lambda>j. zero_hash) (\<lambda>j. zero_hash) sample_judgement = Inr R" "rt_reason R = READY_CANDIDATE"
    "\<not> stale_after R (rt_read_set R)"
  using sample_judged by (auto split: sum.splits)

lemma readiness_exact_witness:
  "\<exists>R b. evaluate_readiness (\<lambda>j. zero_hash) (\<lambda>j. zero_hash) sample_judgement = Inr R \<and> cleared sample_judgement b"
proof -
  obtain R where "evaluate_readiness (\<lambda>j. zero_hash) (\<lambda>j. zero_hash) sample_judgement = Inr R" "rt_reason R = READY_CANDIDATE"
    by (rule sample_report)
  with readiness_exact[of "\<lambda>j. zero_hash" "\<lambda>j. zero_hash" sample_judgement R] show ?thesis by blast
qed

lemma reasons_name_their_gate_witness:
  "refinement_gate (sample_judgement\<lparr>cx_view := (cx_view sample_judgement)\<lparr>tv_binding := Some (plan_binding ''y'' COMPOUND)\<rparr>\<rparr>) =
     Inr (Some (NEEDS_REFINEMENT, [detail ''form_compound'' ''y''])) \<and> distinct gate_precedence"
  using reasons_name_their_gate by (simp add: refinement_gate_def refused_def plan_binding_def)

lemma admission_sound_witness:
  "\<exists>R t. evaluate_readiness (\<lambda>j. zero_hash) (\<lambda>j. zero_hash) sample_judgement = Inr R \<and>
    frontier_verdict [(''y'', PRIMITIVE)] [(''y'', t)] (sample_task ''y'' T_READY []) = Inr t \<and> el_read_set t = rt_read_set R"
proof -
  let ?h = "\<lambda>j :: json. zero_hash"
  let ?m = "\<lparr>im_consumer_task_ref = ''y'', im_bindings = [], im_pending = []\<rparr>"
  from sample_judged obtain R t where R: "evaluate_readiness ?h ?h sample_judgement = Inr R"
    and t: "admit_for_dispatch ?h R (cx_view sample_judgement) (cx_plan sample_judgement) ?m 0 = Inr t" "el_task_id t = ''y''"
    by (auto split: sum.splits)
  have "tk_id (sample_task ''y'' T_READY []) = ''y''" "\<not> tk_paused (sample_task ''y'' T_READY [])"
    "tk_status (sample_task ''y'' T_READY []) \<notin> set TERMINAL_TASK"
    by (simp_all add: sample_task_def blank_task_def TERMINAL_TASK_def)
  with admission_sound[OF R t(1), of "sample_task ''y'' T_READY []"] R t show ?thesis by auto
qed

lemma frontiers_exact_witness:
  "\<exists>R. set (execution_frontier (cx_plan sample_judgement) [(''y'', R)]) = {''y''} \<and> planning_frontier (cx_plan sample_judgement) [(''y'', R)] = []"
proof -
  obtain R where R: "evaluate_readiness (\<lambda>j. zero_hash) (\<lambda>j. zero_hash) sample_judgement = Inr R" "rt_reason R = READY_CANDIDATE"
    by (rule sample_report)
  have "plan_adopts (cx_plan sample_judgement) ''y''" by code_simp
  with frontiers_exact[of "[(''y'', R)]" "cx_plan sample_judgement"] R
  have "set (execution_frontier (cx_plan sample_judgement) [(''y'', R)]) = {''y''}"
    "set (planning_frontier (cx_plan sample_judgement) [(''y'', R)]) = {}"
    by (auto simp: ready_def PLANNING_REASONS_def split: if_splits)
  then show ?thesis by auto
qed

lemma read_set_misses_outcomes_witness:
  "\<exists>R R'. evaluate_readiness (\<lambda>j. zero_hash) (\<lambda>j. zero_hash) sample_judgement = Inr R \<and> rt_reason R = READY_CANDIDATE \<and>
    evaluate_readiness (\<lambda>j. zero_hash) (\<lambda>j. zero_hash) (elsewhere sample_judgement [(''x'', OO_FAILED)] None True True) = Inr R' \<and>
    rt_reason R' = WAITING_ORDER \<and> \<not> stale_after R (rt_read_set R')"
proof -
  let ?h = "\<lambda>j :: json. zero_hash"
  obtain R where R: "evaluate_readiness ?h ?h sample_judgement = Inr R" "rt_reason R = READY_CANDIDATE" "\<not> stale_after R (rt_read_set R)"
    by (rule sample_report)
  from sample_refused obtain R' where R': "evaluate_readiness ?h ?h (elsewhere sample_judgement [(''x'', OO_FAILED)] None True True) = Inr R'"
    "rt_reason R' = WAITING_ORDER" by (auto split: sum.splits)
  from read_set_misses_outcomes[OF R(1) R'(1)] R R' show ?thesis by blast
qed

section \<open>A sample resolution\<close>

definition sample_schema :: VersionedRef where
  "sample_schema = \<lparr>vr_id = ''doc'', vr_version = 1, vr_content_hash = zero_hash\<rparr>"

definition sample_port :: "string \<Rightarrow> PortCardinality \<Rightarrow> PortOrdering option \<Rightarrow> PortSpec" where
  "sample_port k n by_order = \<lparr>po_port_key = k, po_schema_ref = sample_schema, po_cardinality = n, po_required = True,
     po_ordering = by_order, po_order_key = None\<rparr>"

definition sample_requirement :: "string \<Rightarrow> string \<Rightarrow> string \<Rightarrow> DataRequirement" where
  "sample_requirement i out_port in_port = \<lparr>dr_requirement_id = i, dr_producer_occurrence = ''x'', dr_output_port = out_port,
     dr_consumer_occurrence = ''y'', dr_input_port = in_port, dr_schema_ref = sample_schema, dr_assurance_policy_ref = ''assured'',
     dr_freshness_policy_ref = ''fresh'', dr_source_revision_policy = SP_PINNED\<rparr>"

definition sample_output :: "string \<Rightarrow> string \<Rightarrow> int \<Rightarrow> AcceptedOutput" where
  "sample_output port artifact ordinal_number = \<lparr>ao_producer_occurrence = ''x'', ao_producer_task_ref = ''x'', ao_output_port = port,
     ao_producer_result_id = ''result'', ao_acceptance_id = ''acc'', ao_support_revision = 1, ao_artifact_id = artifact,
     ao_content_hash = zero_hash, ao_schema_ref = sample_schema, ao_source_revision = ''r1'',
     ao_source_identity = \<lparr>ri_namespace = ''ns'', ri_path = artifact\<rparr>, ao_producer_ordinal = ordinal_number, ao_order_keys = [],
     ao_disclosure = DISCLOSABLE, ao_disclosure_scope = ''mission'', ao_provisional = False\<rparr>"

definition sample_licence :: ValidityWitness where
  "sample_licence = \<lparr>vw_witness_id = ''w'', vw_consumer_ref = \<lparr>r_kind = TR_TASK, r_id = ''y'', r_revision = 1, r_content_hash = zero_hash, r_produced_by = None\<rparr>,
     vw_purpose = WP_START, vw_truth = TV_TRUE, vw_freshness = VA_CURRENT, vw_availability = AV_READABLE, vw_decision = WD_USABLE,
     vw_scope_id = ''scope'', vw_scope_epoch = 1, vw_support_revision = 1, vw_as_of_ms = 0, vw_not_after_ms = None,
     vw_support_refs = [], vw_reason_codes = []\<rparr>"

definition sample_resolution :: Resolution where
  "sample_resolution =
     \<lparr>rq_consumer = (plan_binding ''y'' PRIMITIVE)\<lparr>sb_input_ports :=
        [sample_port ''doc'' PC_SINGLE None, sample_port ''parts'' PC_SET (Some PO_BY_PRODUCER_ORDINAL)]\<rparr>,
      rq_accepted = \<lparr>ai_outputs = [sample_output ''part'' ''p'' 9, sample_output ''part'' ''q'' 4, sample_output ''out'' ''d'' 0],
        ai_completed_producers = [''x''], ai_authorized_revisions = []\<rparr>,
      rq_witnesses = [(''acc'', sample_licence)],
      rq_policy = \<lparr>pl_schema_rules = [], pl_explicit_orders = [], pl_pinned_revisions = [], pl_provisional_ports = [],
        pl_require_witness = True, pl_witness_purposes = [WP_START], pl_now_ms = 0, pl_scope_epochs = [(''scope'', 1)],
        pl_allow_unknown_scope = False\<rparr>,
      rq_occurrence = ''y''\<rparr>"

text \<open>In place of a digest, the artifact's id.\<close>

definition sample_digest :: "json \<Rightarrow> string" where
  "sample_digest j = (case j of JObj d \<Rightarrow> (case map_of d ''artifact_id'' of Some (JStr i) \<Rightarrow> i | _ \<Rightarrow> '''') | _ \<Rightarrow> '''')"

definition sample_requirements :: "DataRequirement list" where
  "sample_requirements = [sample_requirement ''r2'' ''part'' ''parts'', sample_requirement ''r1'' ''out'' ''doc'']"

lemma sample_resolved:
  "case resolve_declared_inputs sample_digest (\<lambda>d. '''') sample_resolution sample_requirements of Inl e \<Rightarrow> False
   | Inr R \<Rightarrow> rr_problems R = [] \<and> (case rr_manifest R of None \<Rightarrow> False | Some m \<Rightarrow>
       map (\<lambda>b. (rb_input_port b, rb_port_ordinal b, bi_artifact_id (rb_bound b))) (im_bindings m) =
         [(''doc'', 0, ''d''), (''parts'', 0, ''q''), (''parts'', 1, ''p'')])"
  by code_simp

lemma resolved_inputs_sound_witness:
  "\<exists>R m. resolve_declared_inputs sample_digest (\<lambda>d. '''') sample_resolution sample_requirements = Inr R \<and> rr_manifest R = Some m \<and>
     length (im_bindings m) = 3 \<and> manifest_sound sample_resolution sample_requirements m \<and> is_frozen m \<and>
     data_gate (sample_judgement\<lparr>cx_view := (cx_view sample_judgement)\<lparr>tv_binding := Some (rq_consumer sample_resolution)\<rparr>,
       cx_input_result := Some R\<rparr>) = passed"
proof -
  from sample_resolved obtain R m where R: "resolve_declared_inputs sample_digest (\<lambda>d. '''') sample_resolution sample_requirements = Inr R"
      "rr_problems R = []" "rr_manifest R = Some m"
    and three: "map (\<lambda>b. (rb_input_port b, rb_port_ordinal b, bi_artifact_id (rb_bound b))) (im_bindings m) =
      [(''doc'', 0, ''d''), (''parts'', 0, ''q''), (''parts'', 1, ''p'')]"
    by (auto split: sum.splits option.splits)
  have ports: "distinct (map po_port_key (sb_input_ports (rq_consumer sample_resolution)))" "pl_provisional_ports (rq_policy sample_resolution) = []"
    by (simp_all add: sample_resolution_def sample_port_def)
  let ?c = "sample_judgement\<lparr>cx_view := (cx_view sample_judgement)\<lparr>tv_binding := Some (rq_consumer sample_resolution)\<rparr>, cx_input_result := Some R\<rparr>"
  have "tv_binding (cx_view ?c) = Some (rq_consumer sample_resolution)" "cx_input_result ?c = Some R" by simp_all
  note sound = resolved_inputs_sound[OF R(1) ports(1) this]
  have "length (im_bindings m) = 3" using arg_cong[OF three, of length] by simp
  then show ?thesis using sound R ports(2) by auto
qed

end
