(* ===== verification/Spec2Isabelle.thy ===== *)
theory Spec2Isabelle
  imports Lifecycle Release Bounded_Correct Grounding Consumers Tail_Correct Task_Graph_Correct Changes_Correct
    Witness_Subject Obligations_Correct Readiness_Correct
begin

text \<open>
  Simple Harness SDK: a verification of the decision core of the agent orchestrator.

  The program. \<open>src/src/agent_orchestrator\<close> runs a Mission as a graph of Tasks that language models execute.
  Everything a model says is a proposal; pure Python code decides what becomes a fact, what is admitted, what is
  funded and what is released. That deciding code is modelled here; the code around it (SQLite storage, the
  asynchronous kernel of \<open>src/src/simple_harness\<close>, providers, tools, HTTP) only carries its inputs and outputs.
  The parts and how they meet:

  \<^item> Contracts. Records are decoded from JSON and validated before anything else sees them
    (\<open>contracts/semantic_base.py\<close>, \<open>contracts/models.py\<close>, \<open>contracts/obligations.py\<close>, parts of \<open>contracts/htn.py\<close>).
  \<^item> Lifecycle. Missions, Tasks, Attempts and Claims move along fixed transition tables
    (\<open>contracts/state_machines.py\<close>, \<open>orchestrator/state_machine.py\<close>).
  \<^item> Knowledge. Observations become evidence, evidence becomes anchors, anchors and justifications become
    grounded conclusions, and only a grounded conclusion may be released (\<open>contracts/evidence_state.py\<close>,
    \<open>knowledge/predicates.py\<close>, \<open>knowledge/justifications.py\<close>, \<open>knowledge/bounded_closure.py\<close>,
    \<open>knowledge/validity.py\<close>, \<open>assurance/grounding.py\<close>).
  \<^item> Graph. A planner's proposal is admitted as a whole by two gates, and a manager's change of an admitted graph by a
    third (\<open>graph/dependency_checker.py\<close>, \<open>graph/deduplicator.py\<close>, \<open>graph/task_graph.py\<close>, \<open>graph/changes.py\<close>,
    \<open>governance/domains.py\<close>, \<open>planning/manager.py\<close>).
  \<^item> Plan. A hierarchical plan is a snapshot of occurrences, bindings and the methods adopted for them. It is compiled into an
    execution projection, the projection is checked, the declared inputs of an occurrence are resolved to exact identities, and
    each primitive occurrence is judged by nine readiness gates before it is admitted (\<open>graph/task_network.py\<close>,
    \<open>graph/projection_validation.py\<close>, \<open>artifacts/input_bindings.py\<close>, \<open>artifacts/paths.py\<close>, \<open>graph/eligibility.py\<close>, with records
    of \<open>contracts/htn.py\<close>, \<open>contracts/resolution.py\<close> and \<open>graph/settlement.py\<close>).
  \<^item> Money. Budgets, a tree of accounts with reservations and settlements, the tail reservations held on it for the work
    that follows a Task, and the recursion fuel of obligations (\<open>governance/budgets.py\<close>, \<open>governance/tail_budget.py\<close>,
    \<open>contracts/obligations.py\<close>).
  \<^item> Scheduling. Backpressure watermarks and the allocator that grants Attempts to the ready frontier
    (\<open>scheduling/backpressure.py\<close>, \<open>scheduling/allocator.py\<close>); it takes the records that the admission of a plan built.

  Theories, in the order they build on each other.

  \<^item> \<open>Prelude\<close>: fallible computations as sums (\<open>rbind\<close>, \<open>for_each\<close>, \<open>map_result\<close>), dictionaries as association
    lists in insertion order, optional limits, the interface \<open>str_enum\<close> of a \<open>StrEnum\<close>.
  \<^item> \<open>Lifecycle\<close>: statuses, tables, guards, \<open>next_mission\<close>, \<open>next_task\<close>, \<open>next_attempt\<close>, \<open>next_claim\<close>. The interface
    \<open>versioned_machine\<close> states what a versioned entity with a table promises; its four interpretations give that
    terminal statuses are final, and the ranks of the tables bound how often a status changes.
  \<^item> \<open>Semantic_Base\<close>, \<open>Model_Fields\<close>: JSON values and the two families of field validators, untrusted-data guards,
    provenance and reference codecs. \<open>Budgets\<close>, \<open>Contracts\<close>: \<open>Budget\<close>, \<open>Mission\<close>, \<open>Task\<close> and \<open>Attempt\<close> with their
    validation and codecs; the interface \<open>record_codec\<close> proves once that a decoded record survives encoding.
  \<^item> \<open>Evidence\<close>, \<open>Witness_Subject\<close>: four-valued truth, observation and witness rules, the predicate registry, and the
    subject that a validity witness is filed under.
  \<^item> \<open>Support_Graph\<close>, \<open>Anchors\<close>, \<open>Closure\<close>, \<open>Closure_Correct\<close>, \<open>Release\<close>: justifications, the anchor selector and its
    policy as a specification, the least fixpoint with its three analyses, \<open>derivable\<close> as an inductive specification,
    and the release gate. \<open>Bounded\<close>, \<open>Bounded_Correct\<close>: the worklist evaluator and its agreement with the reference.
    \<open>Grounding\<close>, \<open>Consumers\<close>: the conflict-free recomputation, consumers and lineage.
  \<^item> \<open>Domains\<close>, \<open>Dependencies\<close>, \<open>Task_Graph\<close>, \<open>Task_Graph_Correct\<close>: the domain gate of a Task, Kahn's algorithm against a
    greedy reference, and both gates of a proposal against \<open>graph_promise\<close>; \<open>topological_checker\<close> is what the gates rely on.
    \<open>Changes\<close>, \<open>Changes_Correct\<close>: the wire form of a change proposal and its gate over the merged graph.
  \<^item> \<open>Ledger\<close>, \<open>Ledger_Correct\<close>: accounts as records, the operations of \<open>BudgetLedger\<close>, and conservation as an invariant
    of every reachable ledger. \<open>Tail\<close>, \<open>Tail_Correct\<close>: the holds of \<open>TailBudgetLedger\<close> with their transfers, growth and
    release, conservation over any mixture of ledger and tail calls, and that a transfer which passes its checks completes.
    \<open>Obligations\<close>, \<open>Obligations_Correct\<close>: obligations, openings and their ledger, and what
    holds over every sequence of calls.
  \<^item> \<open>Network_Contracts\<close>, \<open>Task_Network\<close>, \<open>Task_Network_Correct\<close>: the records of a plan, the snapshot with its referential
    checks, lookups and views, and the compilation into a projection against \<open>dependency\<close>, the relation a plan declares.
    \<open>Topology\<close>, \<open>Topology_Correct\<close>: the heap-ordered Kahn order, the cycle walk, reachability and depth.
    \<open>Plan_Checks\<close>, \<open>Plan_Checks_Correct\<close>: every check of a projection and what a report without problems means.
  \<^item> \<open>Dispatch_Inputs\<close>, \<open>Workspace_Paths\<close>, \<open>Input_Resolution\<close>, \<open>Input_Resolution_Correct\<close>: input manifests, approvals, settlements
    and read sets; the canonical form of a path with the prefix rule; the resolver of declared inputs against \<open>manifest_sound\<close>,
    what a manifest promises. \<open>Readiness\<close>, \<open>Readiness_Correct\<close>: the nine gates in their order, the read set of a verdict and its staleness test, admission and the two frontiers. \<open>cleared\<close> states what a
    ready task has to satisfy without reference to the gates.
  \<^item> \<open>Backpressure\<close>, \<open>Allocator\<close>, \<open>Allocator_Correct\<close>: hysteresis of the watermarks; frontier, scores and both allocators.

  How the code is rendered. A dataclass is a record whose fields carry a two-letter prefix; \<open>__post_init__\<close> is a
  \<open>make_\<close> or \<open>check_\<close> function; an enumeration is a datatype with its wire spelling \<open>str_\<close>; a method that mutates its
  object takes and returns the record; a raised exception is the left value of a sum, with a structured reason in
  place of the message. \<open>KeyError\<close>, \<open>TypeError\<close> and \<open>ValueError\<close> that reach the caller are values as well. A loop is a
  structural recursion or a \<open>function\<close> with its measure.

  Parameters. What the sources take from outside is an argument: content hashes and SHA-256 digests, Unicode
  normalisation, the clock, \<open>str\<close> of a value that is no text and \<open>float\<close> of a text.

  Idealisations. Python integers are \<open>int\<close>. A float is a rational number or one of the three special values, so rounding
  is not modelled; the overflow of \<open>float(n)\<close> is. Characters are those below code point 256. A dictionary that comes
  from JSON is an association list.

  Bounds and fuel. The fixpoint loops of \<open>Closure\<close> run with the number of rules still waiting, which falls in
  every round that fires; the bounded evaluator counts work against the limits of the source, and exhausting them is a
  value of the model. The walks over a network and over a projection carry the list of nodes they may visit and mark each
  at most once; the heap of \<open>kahn_order\<close> is a sorted list of the same elements. \<open>ancestors_of\<close> takes one more level of recursion than there are Tasks, which an acyclic graph
  never uses up (\<open>ancestors_of_result\<close>). The account chain of the ledger runs with the number of accounts, enough for
  every reachable ledger (\<open>chain_returns\<close>).

  What the lemmas show. Knowledge: the fixpoint reaches exactly what is derivable, is tainted exactly by assumptions,
  counts independent sources exactly, and the release gate opens exactly on complete, grounded, untainted and independent
  support. Graph: an admitted or changed graph is acyclic, within its bounds, with disjoint outputs of independent Tasks and
  inside the budgets; the order is the greedy one and a rejection names a real defect. Money: every reachable ledger
  conserves, reservations are admitted exactly when every ancestor has room, a tail transfer never fails halfway, growth stays
  inside its hold, fuel is handed on and never minted.
  Plan: the projection orders exactly what the adopted methods and their order constraints imply, also below a refined
  occurrence; the order of the checker exists exactly when the dependencies are acyclic; a report without problems means a
  plan that is ordered, fed, covered and free of resource conflicts; a resolved manifest binds only what was declared, accepted
  and may be used, and decides the data gate; a task is ready exactly when every condition holds, what
  is admitted was ready, and a reason names the gate that gave it.
  Scheduling: only admitted Tasks are granted, within the concurrency limit, and watermarks do not oscillate. Contracts:
  what is decoded is encoded back to the same record, and model output cannot claim system or tool provenance.

  Not modelled. SQL, files, processes, network and asynchronous scheduling: \<open>orchestrator\<close>, \<open>storage\<close>, \<open>simple_harness\<close>. Prompts
  and the decoding of model output in \<open>planning\<close>. The wire codecs of the operation contracts and of most of
  \<open>contracts/htn.py\<close>, and the result, claim, event and artifact records of \<open>contracts/models.py\<close>. The verification
  layers, which run checks over files and models. The materialisation plan and the explanations of
  problems in \<open>artifacts/input_bindings.py\<close>, and the report on two plan revisions in \<open>graph/structural_diff.py\<close>. Next in line:
  those records and the policies of \<open>governance\<close>.
\<close>

end
